(* ===== verification/Salt_Prelude.thy ===== *)
theory Salt_Prelude
  imports Main "HOL-Library.Char_ord" "HOL-Library.List_Lexorder" "HOL-Library.Product_Lexorder"
begin

text \<open>
  Shared vocabulary of the development.

  C and C++ strings (\<^verbatim>\<open>char *\<close>, \<^verbatim>\<open>std::string\<close>) are \<^typ>\<open>string\<close>, a list of
  bytes; \<^verbatim>\<open>std::string\<close> and SQLite's default BINARY collation both compare bytes as unsigned
  values, which is the lexicographic order that \<^verbatim>\<open>HOL-Library.Char_ord\<close> and
  \<^verbatim>\<open>HOL-Library.List_Lexorder\<close> give.  A \<^verbatim>\<open>std::set<std::string>\<close> is a HOL set, iterated in
  the order of \<open>sorted_list_of_set\<close>.

  The file holds the return codes of \<^verbatim>\<open>util.h\<close>, the C character and string functions the code
  calls, the option-valued fold that threads a state through a loop whose body may fail, and the
  generic lemmas the component theories share.
\<close>

named_theorems salt_defs \<open>definitions of the operations, for case analyses\<close>
named_theorems ofold_intros \<open>introduction rules of invariants of option folds\<close>

section \<open>Return codes\<close>

text \<open>The codes of \<^verbatim>\<open>util.h\<close>.  Every C function that may fail returns one of them.\<close>

datatype salt_rc =
    SALT_OK
  | SALT_ERR
  | SALT_ERR_IO
  | SALT_ERR_FORMAT
  | SALT_ERR_NOTFOUND
  | SALT_ERR_VERIFY
  | SALT_ERR_EXISTS
  | SALT_ERR_DEP
  | SALT_ERR_USAGE

text \<open>
  The idiom \<^verbatim>\<open>if (rc != SALT_OK) return rc;\<close>: the next step runs on the state only when the
  previous one succeeded.
\<close>

definition and_then :: "salt_rc \<times> 's \<Rightarrow> ('s \<Rightarrow> salt_rc \<times> 's) \<Rightarrow> salt_rc \<times> 's" where
  "and_then r f = (if fst r = SALT_OK then f (snd r) else r)"

text \<open>A loop \<^verbatim>\<open>for (i = 0; i < n && rc == SALT_OK; i++) rc = body (i)\<close>.\<close>

primrec rc_fold :: "('a \<Rightarrow> 's \<Rightarrow> salt_rc \<times> 's) \<Rightarrow> 'a list \<Rightarrow> 's \<Rightarrow> salt_rc \<times> 's" where
  "rc_fold f [] s = (SALT_OK, s)"
| "rc_fold f (x # xs) s = and_then (f x s) (rc_fold f xs)"

lemma and_then_simps [simp]:
  "and_then (SALT_OK, s) f = f s"
  "rc \<noteq> SALT_OK \<Longrightarrow> and_then (rc, s) f = (rc, s)"
  by (simp_all add: and_then_def)

lemma fst_and_then_OK: "fst (and_then r f) = SALT_OK \<longleftrightarrow> fst r = SALT_OK \<and> fst (f (snd r)) = SALT_OK"
  by (simp add: and_then_def)

lemma and_then_OK: "and_then r f = (SALT_OK, s) \<longleftrightarrow> (\<exists>t. r = (SALT_OK, t) \<and> f t = (SALT_OK, s))"
  by (cases r) (auto simp: and_then_def)

lemma and_then_inv: "P (snd r) \<Longrightarrow> (\<And>s. r = (SALT_OK, s) \<Longrightarrow> P s \<Longrightarrow> P (snd (f s))) \<Longrightarrow> P (snd (and_then r f))"
  by (cases r) (auto simp: and_then_def)

lemma rc_fold_inv:
  assumes "P s" and "\<And>x s. x \<in> set xs \<Longrightarrow> P s \<Longrightarrow> P (snd (f x s))"
  shows "P (snd (rc_fold f xs s))"
  using assms
  by (induction xs arbitrary: s) (auto simp: and_then_def)

text \<open>An invariant that also says what the elements handled so far have been given.\<close>

lemma rc_fold_acc:
  assumes "rc_fold f xs s = (rc, s')" and "P E s"
    and step: "\<And>x E s rc s'. x \<in> set xs \<Longrightarrow> P E s \<Longrightarrow> f x s = (rc, s') \<Longrightarrow>
        if rc = SALT_OK then P (insert x E) s' else Q s'"
  shows "if rc = SALT_OK then P (E \<union> set xs) s' else Q s'"
  using assms
proof (induction xs arbitrary: E s)
  case (Cons x xs)
  obtain rc1 s1 where f: "f x s = (rc1, s1)" by fastforce
  have st: "if rc1 = SALT_OK then P (insert x E) s1 else Q s1"
    using Cons.prems(3) [of x E s rc1 s1] Cons.prems(2) f by simp
  show ?case
  proof (cases "rc1 = SALT_OK")
    case True
    have "if rc = SALT_OK then P (insert x E \<union> set xs) s' else Q s'"
    proof (rule Cons.IH)
      show "rc_fold f xs s1 = (rc, s')" using Cons.prems(1) f True by simp
      show "P (insert x E) s1" using st True by simp
    qed (use Cons.prems(3) in \<open>meson list.set_intros(2)\<close>)
    then show ?thesis by (auto split: if_splits)
  next
    case False
    then show ?thesis using st f Cons.prems(1) by (auto simp: and_then_def)
  qed
qed auto

lemma rc_fold_append: "rc_fold f (xs @ ys) s = and_then (rc_fold f xs s) (rc_fold f ys)"
  by (induction xs arbitrary: s) (auto simp: and_then_def)

section \<open>C characters and strings\<close>

definition isdigit :: "char \<Rightarrow> bool" where
  "isdigit c \<longleftrightarrow> 48 \<le> (of_char c :: nat) \<and> (of_char c :: nat) \<le> 57"

definition isupper :: "char \<Rightarrow> bool" where
  "isupper c \<longleftrightarrow> 65 \<le> (of_char c :: nat) \<and> (of_char c :: nat) \<le> 90"

definition islower :: "char \<Rightarrow> bool" where
  "islower c \<longleftrightarrow> 97 \<le> (of_char c :: nat) \<and> (of_char c :: nat) \<le> 122"

definition isalnum :: "char \<Rightarrow> bool" where
  "isalnum c \<longleftrightarrow> isdigit c \<or> isupper c \<or> islower c"

definition isxdigit :: "char \<Rightarrow> bool" where
  "isxdigit c \<longleftrightarrow> isdigit c
     \<or> (65 \<le> (of_char c :: nat) \<and> (of_char c :: nat) \<le> 70)
     \<or> (97 \<le> (of_char c :: nat) \<and> (of_char c :: nat) \<le> 102)"

text \<open>The C string at the start of a buffer of bytes.\<close>

definition c_str :: "string \<Rightarrow> string" where
  "c_str b = takeWhile (\<lambda>c. c \<noteq> CHR 0x00) b"

text \<open>\<^verbatim>\<open>strcmp\<close> on unsigned bytes; only the sign of its result is specified, taken as -1, 0, 1.\<close>

fun c_strcmp :: "string \<Rightarrow> string \<Rightarrow> int" where
  "c_strcmp [] [] = 0"
| "c_strcmp [] (b # bs) = -1"
| "c_strcmp (a # as) [] = 1"
| "c_strcmp (a # as) (b # bs) =
     (if (of_char a :: nat) < of_char b then -1
      else if (of_char b :: nat) < of_char a then 1
      else c_strcmp as bs)"

text \<open>\<^verbatim>\<open>strncmp (s, t, strlen (t)) == 0\<close>, and \<^verbatim>\<open>s.starts_with (t)\<close>.\<close>

fun starts_with :: "string \<Rightarrow> string \<Rightarrow> bool" where
  "starts_with s [] = True"
| "starts_with [] (t # ts) = False"
| "starts_with (s # ss) (t # ts) = (s = t \<and> starts_with ss ts)"

text \<open>\<^verbatim>\<open>strstr (s, t) != NULL\<close>, and a suffix test.\<close>

fun has_substring :: "string \<Rightarrow> string \<Rightarrow> bool" where
  "has_substring [] t = (t = [])"
| "has_substring (c # cs) t = (starts_with (c # cs) t \<or> has_substring cs t)"

definition ends_with :: "string \<Rightarrow> string \<Rightarrow> bool" where
  "ends_with s t \<longleftrightarrow> length t \<le> length s \<and> drop (length s - length t) s = t"

text \<open>\<^verbatim>\<open>qsort\<close> and \<^verbatim>\<open>std::sort\<close> with a comparison function.\<close>

fun insert_by :: "('a \<Rightarrow> 'a \<Rightarrow> int) \<Rightarrow> 'a \<Rightarrow> 'a list \<Rightarrow> 'a list" where
  "insert_by cmp x [] = [x]"
| "insert_by cmp x (y # ys) = (if cmp x y \<le> 0 then x # y # ys else y # insert_by cmp x ys)"

definition sort_by :: "('a \<Rightarrow> 'a \<Rightarrow> int) \<Rightarrow> 'a list \<Rightarrow> 'a list" where
  "sort_by cmp xs = foldr (insert_by cmp) xs []"

lemma set_insert_by [simp]: "set (insert_by cmp x xs) = insert x (set xs)"
  by (induction xs) auto

lemma set_sort_by [simp]: "set (sort_by cmp xs) = set xs"
  by (induction xs) (auto simp: sort_by_def)

text \<open>\<^verbatim>\<open>s.find (c)\<close>: the first position of a character, \<^const>\<open>None\<close> for \<^verbatim>\<open>npos\<close>.\<close>

fun find_char :: "char \<Rightarrow> string \<Rightarrow> nat option" where
  "find_char c [] = None"
| "find_char c (x # xs) = (if x = c then Some 0 else map_option Suc (find_char c xs))"

text \<open>\<^verbatim>\<open>s.rfind (c)\<close>: the last position.\<close>

fun rfind_char :: "char \<Rightarrow> string \<Rightarrow> nat option" where
  "rfind_char c [] = None"
| "rfind_char c (x # xs) =
     (case rfind_char c xs of Some i \<Rightarrow> Some (Suc i) | None \<Rightarrow> if x = c then Some 0 else None)"

text \<open>\<^verbatim>\<open>while (!s.empty () && p (s.back ())) s.pop_back ()\<close>\<close>

definition strip_back :: "(char \<Rightarrow> bool) \<Rightarrow> string \<Rightarrow> string" where
  "strip_back p s = rev (dropWhile p (rev s))"

text \<open>Decimal printing (\<^verbatim>\<open>%d\<close>, \<^verbatim>\<open>%lld\<close>, \<^verbatim>\<open>std::to_string\<close>).\<close>

fun nat_digits :: "nat \<Rightarrow> string" where
  "nat_digits n = (if n < 10 then [char_of (48 + n)]
                   else nat_digits (n div 10) @ [char_of (48 + n mod 10)])"

declare nat_digits.simps [simp del]

definition int_to_string :: "int \<Rightarrow> string" where
  "int_to_string i = (if i < 0 then CHR ''-'' # nat_digits (nat (- i)) else nat_digits (nat i))"

text \<open>
  \<^verbatim>\<open>strtol\<close> in base 10: leading white space and a sign are accepted; the value and what follows the
  digits.  Values are unbounded here.
\<close>

definition c_isspace :: "char \<Rightarrow> bool" where
  "c_isspace c \<longleftrightarrow> c \<in> {CHR '' '', CHR 0x09, CHR 0x0A, CHR 0x0B, CHR 0x0C, CHR 0x0D}"

definition c_strtol :: "string \<Rightarrow> int \<times> string" where
  "c_strtol s =
     (let s1 = dropWhile c_isspace s;
          neg = (s1 \<noteq> [] \<and> hd s1 = CHR ''-'');
          s2 = (if s1 \<noteq> [] \<and> (hd s1 = CHR ''-'' \<or> hd s1 = CHR ''+'') then tl s1 else s1);
          ds = takeWhile isdigit s2;
          v = foldl (\<lambda>v c. 10 * v + (int (of_char c) - 48)) 0 ds
      in if ds = [] then (0, s) else (if neg then - v else v, dropWhile isdigit s2))"

definition c_atol :: "string \<Rightarrow> int" where
  "c_atol s = fst (c_strtol s)"

text \<open>The conversion of a wider integer to a 32-bit \<^verbatim>\<open>int\<close>.\<close>

definition c_int :: "int \<Rightarrow> int" where
  "c_int i = (i + 2 ^ 31) mod 2 ^ 32 - 2 ^ 31"

lemma starts_with_append [simp]: "starts_with (s @ t) s"
  by (induction s) auto

lemma starts_with_iff: "starts_with s t \<longleftrightarrow> (\<exists>u. s = t @ u)"
  by (induction s t rule: starts_with.induct) auto

lemma c_strcmp_less [simp]: "c_strcmp a b < 0 \<longleftrightarrow> a < b"
  by (induction a b rule: c_strcmp.induct) (auto simp: less_char_def)

lemma c_strcmp_eq [simp]: "c_strcmp a b = 0 \<longleftrightarrow> a = b"
  by (induction a b rule: c_strcmp.induct) (auto simp: of_char_eq_iff)

lemma find_char_None [simp]: "find_char c s = None \<longleftrightarrow> c \<notin> set s"
  by (induction s) auto

lemma find_char_Some: "find_char c s = Some i \<Longrightarrow>
    i < length s \<and> s ! i = c \<and> c \<notin> set (take i s)"
  by (induction s arbitrary: i) (auto split: if_splits)

section \<open>Loops whose body may fail\<close>

text \<open>
  \<open>ofold f xs s\<close> runs \<open>f x\<close> on the state for every element in turn and stops at the first
  failure.  With a body that takes a fuel argument it is the loop of a recursive function.
\<close>

primrec ofold :: "('a \<Rightarrow> 's \<Rightarrow> 's option) \<Rightarrow> 'a list \<Rightarrow> 's \<Rightarrow> 's option" where
  "ofold f [] s = Some s"
| "ofold f (x # xs) s = (case f x s of None \<Rightarrow> None | Some s' \<Rightarrow> ofold f xs s')"

lemma ofold_append: "ofold f (xs @ ys) s = (case ofold f xs s of None \<Rightarrow> None | Some s' \<Rightarrow> ofold f ys s')"
  by (induction xs arbitrary: s) (auto split: option.splits)

lemma ofold_inv:
  assumes "ofold f xs s = Some s'" and "P s"
    and "\<And>x s s'. x \<in> set xs \<Longrightarrow> P s \<Longrightarrow> f x s = Some s' \<Longrightarrow> P s'"
  shows "P s'"
  using assms
proof (induction xs arbitrary: s)
  case Nil
  then show ?case by simp
next
  case (Cons x xs)
  from Cons.prems(1) obtain t where t: "f x s = Some t" "ofold f xs t = Some s'"
    by (auto split: option.splits)
  have "P t" using Cons.prems(3) [of x s t] Cons.prems(2) t(1) by simp
  then show ?case using Cons.IH [OF t(2)] Cons.prems(3) by (meson list.set_intros(2))
qed

text \<open>A relation between the state before and the state after that every body step respects.\<close>

lemma ofold_rel:
  assumes "ofold f xs s = Some s'"
    and refl: "\<And>s. R s s"
    and trans: "\<And>s t u. R s t \<Longrightarrow> R t u \<Longrightarrow> R s u"
    and step: "\<And>x s s'. x \<in> set xs \<Longrightarrow> f x s = Some s' \<Longrightarrow> R s s'"
  shows "R s s'"
  using assms(1) step
proof (induction xs arbitrary: s)
  case Nil
  then show ?case by (simp add: refl)
next
  case (Cons x xs)
  from Cons.prems(1) obtain t where t: "f x s = Some t" "ofold f xs t = Some s'"
    by (auto split: option.splits)
  have "R s t" using Cons.prems(2) [of x s t] t(1) by simp
  moreover have "R t s'" using Cons.IH [OF t(2)] Cons.prems(2) by auto
  ultimately show ?case by (rule trans)
qed

section \<open>Lists and sets\<close>

lemma strip_back_id: "s = [] \<or> \<not> p (last s) \<Longrightarrow> strip_back p s = s"
  by (cases s rule: rev_cases) (auto simp: strip_back_def)

lemma in_map_filter: "y \<in> set (List.map_filter f xs) \<longleftrightarrow> (\<exists>x. x \<in> set xs \<and> f x = Some y)"
  by (force simp: map_filter_def)

lemma takeWhile_neq_notin: "c \<notin> set (takeWhile (\<lambda>x. x \<noteq> c) s)"
  by (induction s) auto

lemma set_sorted_list_of_set [simp]: "set (sorted_list_of_set (set xs)) = set xs"
  by simp

end
