(* ===== verification/Salt_Toml.thy ===== *)
theory Salt_Toml
  imports Salt_Prelude
begin

text \<open>
  Configuration trees and their accessors (\<^verbatim>\<open>src/halite/src/toml.c\<close>, the part after the parser).
  A tree comes from the TOML parser or from the Lua configuration loader; both are parameters of
  the code that reads files.  A null pointer is \<^const>\<open>None\<close>.
\<close>

datatype salt_toml =
    TString string
  | TInt int
  | TBool bool
  | TArray "salt_toml list"
  | TTable "(string \<times> salt_toml) list"

definition salt_toml_get :: "salt_toml option \<Rightarrow> string \<Rightarrow> salt_toml option" where
  "salt_toml_get t k = (case t of Some (TTable kvs) \<Rightarrow> map_of kvs k | _ \<Rightarrow> None)"

definition salt_toml_array_len :: "salt_toml option \<Rightarrow> nat" where
  "salt_toml_array_len a = (case a of Some (TArray xs) \<Rightarrow> length xs | _ \<Rightarrow> 0)"

definition salt_toml_array_at :: "salt_toml option \<Rightarrow> nat \<Rightarrow> salt_toml option" where
  "salt_toml_array_at a i = (case a of Some (TArray xs) \<Rightarrow> if i < length xs then Some (xs ! i) else None | _ \<Rightarrow> None)"

definition salt_toml_table_len :: "salt_toml option \<Rightarrow> nat" where
  "salt_toml_table_len t = (case t of Some (TTable kvs) \<Rightarrow> length kvs | _ \<Rightarrow> 0)"

definition salt_toml_table_key :: "salt_toml option \<Rightarrow> nat \<Rightarrow> string option" where
  "salt_toml_table_key t i =
     (case t of Some (TTable kvs) \<Rightarrow> if i < length kvs then Some (fst (kvs ! i)) else None | _ \<Rightarrow> None)"

definition salt_toml_table_val :: "salt_toml option \<Rightarrow> nat \<Rightarrow> salt_toml option" where
  "salt_toml_table_val t i =
     (case t of Some (TTable kvs) \<Rightarrow> if i < length kvs then Some (snd (kvs ! i)) else None | _ \<Rightarrow> None)"

text \<open>
  A segment applied to an array is a 1-based index; \<^verbatim>\<open>strtol\<close> has to consume the whole segment.
\<close>

definition toml_segment :: "salt_toml \<Rightarrow> string \<Rightarrow> salt_toml option" where
  "toml_segment cur part =
     (case cur of
        TArray xs \<Rightarrow>
          (let (i, rest) = c_strtol part
           in if rest = [] \<and> 1 \<le> i then salt_toml_array_at (Some cur) (nat i - 1) else None)
      | _ \<Rightarrow> salt_toml_get (Some cur) part)"

text \<open>The segments of a dotted key; the buffer holds at most 255 bytes of one.\<close>

function salt_toml_path :: "salt_toml option \<Rightarrow> string \<Rightarrow> salt_toml option" where
  "salt_toml_path None p = None"
| "salt_toml_path (Some cur) [] = Some cur"
| "salt_toml_path (Some cur) (c # cs) =
     (let part = take 255 (takeWhile (\<lambda>x. x \<noteq> CHR ''.'') (c # cs));
          p1 = drop (length part) (c # cs);
          p2 = (if p1 \<noteq> [] \<and> hd p1 = CHR ''.'' then tl p1 else p1)
      in salt_toml_path (toml_segment cur part) p2)"
  by pat_completeness auto
termination
proof (relation "measure (\<lambda>(t, p). length p)")
  fix cur c cs part p1 p2
  assume a: "part = take 255 (takeWhile (\<lambda>x. x \<noteq> CHR ''.'') (c # cs))"
    "p1 = drop (length part) (c # cs)" "p2 = (if p1 \<noteq> [] \<and> hd p1 = CHR ''.'' then tl p1 else p1)"
  show "((toml_segment cur part, p2), Some cur, c # cs) \<in> measure (\<lambda>(t, p). length p)"
    using a by (cases "c = CHR ''.''") (auto simp: numeral_eq_Suc less_Suc_eq_le)
qed simp

definition salt_toml_as_string :: "salt_toml option \<Rightarrow> string option" where
  "salt_toml_as_string t = (case t of Some (TString s) \<Rightarrow> Some s | _ \<Rightarrow> None)"

definition salt_toml_as_int :: "salt_toml option \<Rightarrow> int \<Rightarrow> int" where
  "salt_toml_as_int t fallback = (case t of Some (TInt i) \<Rightarrow> i | _ \<Rightarrow> fallback)"

definition salt_toml_as_bool :: "salt_toml option \<Rightarrow> bool \<Rightarrow> bool" where
  "salt_toml_as_bool t fallback = (case t of Some (TBool b) \<Rightarrow> b | _ \<Rightarrow> fallback)"

definition salt_toml_string_opt :: "salt_toml option \<Rightarrow> string \<Rightarrow> string option" where
  "salt_toml_string_opt t k = salt_toml_as_string (salt_toml_path t k)"

definition salt_toml_string :: "salt_toml option \<Rightarrow> string \<Rightarrow> string \<Rightarrow> string" where
  "salt_toml_string t k fallback = (case salt_toml_string_opt t k of Some s \<Rightarrow> s | None \<Rightarrow> fallback)"

definition salt_toml_int :: "salt_toml option \<Rightarrow> string \<Rightarrow> int \<Rightarrow> int" where
  "salt_toml_int t k fallback = salt_toml_as_int (salt_toml_path t k) fallback"

definition salt_toml_bool :: "salt_toml option \<Rightarrow> string \<Rightarrow> bool \<Rightarrow> bool" where
  "salt_toml_bool t k fallback = salt_toml_as_bool (salt_toml_path t k) fallback"

definition salt_toml_string_array :: "salt_toml option \<Rightarrow> string \<Rightarrow> string list option" where
  "salt_toml_string_array t k =
     (case salt_toml_path t k of
        Some (TArray xs) \<Rightarrow> Some (List.map_filter (\<lambda>x. case x of TString s \<Rightarrow> Some s | _ \<Rightarrow> None) xs)
      | _ \<Rightarrow> None)"

text \<open>A key without a dot is one segment.\<close>

lemma salt_toml_path_simple:
  assumes "k \<noteq> []" "CHR ''.'' \<notin> set k" "length k \<le> 255"
  shows "salt_toml_path (Some t) k = toml_segment t k"
proof -
  obtain c cs where k: "k = c # cs" using assms(1) by (cases k) auto
  have "takeWhile (\<lambda>x. x \<noteq> CHR ''.'') k = k" using assms(2) by (intro takeWhile_eq_all_conv [THEN iffD2]) auto
  then have "salt_toml_path (Some t) k = salt_toml_path (toml_segment t k) []"
    using assms(3) by (simp add: k Let_def)
  also have "\<dots> = toml_segment t k" by (cases "toml_segment t k") auto
  finally show ?thesis .
qed

lemma toml_segment_table [simp]: "toml_segment (TTable kvs) p = map_of kvs p"
  by (simp add: toml_segment_def salt_toml_get_def)

end
