(* ===== verification/Salt_Fs.thy ===== *)
theory Salt_Fs
  imports Salt_Prelude
begin

text \<open>
  Paths and the file system (\<^verbatim>\<open>src/halite/src/util.c\<close>, and \<^verbatim>\<open>path_join\<close> of \<^verbatim>\<open>cli.cpp\<close>).

  A path string names the list of its components other than the empty one and \<^verbatim>\<open>.\<close>
  (\<open>path_key\<close>).  A file system maps such keys, relative to the install root, to nodes; the root
  itself, the key \<open>[]\<close>, is always a directory.  Names are lexical: a symbolic link in the middle of
  a path stands for the directory of that name.  The modes of directories are not kept.

  Every system call may fail: \<open>io_ok op k\<close> says whether the call made for purpose \<open>op\<close> at key \<open>k\<close>
  succeeds when its ordinary preconditions hold, so that a statement about all \<open>io_env\<close>s is a
  statement about every pattern of I/O failures.
\<close>

section \<open>Path strings\<close>

fun split_on :: "char \<Rightarrow> string \<Rightarrow> string list" where
  "split_on d [] = [[]]"
| "split_on d (c # cs) =
     (if c = d then [] # split_on d cs
      else case split_on d cs of [] \<Rightarrow> [[c]] | x # xs \<Rightarrow> (c # x) # xs)"

type_synonym key = "string list"

definition path_key :: "string \<Rightarrow> key" where
  "path_key p = filter (\<lambda>c. c \<noteq> [] \<and> c \<noteq> ''.'') (split_on CHR ''/'' p)"

definition salt_join_path :: "string \<Rightarrow> string \<Rightarrow> string" where
  "salt_join_path a b =
     (if a = [] then b
      else if b = [] then a
      else a @ (if last a = CHR ''/'' then [] else ''/'') @ dropWhile (\<lambda>c. c = CHR ''/'') b)"

function confined_loop :: "string \<Rightarrow> bool \<Rightarrow> bool" where
  "confined_loop [] seen = seen"
| "confined_loop (c # cs) seen =
     (let comp = takeWhile (\<lambda>x. x \<noteq> CHR ''/'') (c # cs);
          rest = dropWhile (\<lambda>x. x \<noteq> CHR ''/'') (c # cs)
      in if comp = ''..'' then False
         else confined_loop (tl rest) (seen \<or> (comp \<noteq> [] \<and> comp \<noteq> ''.'')))"
  by pat_completeness auto
termination
  by (relation "measure (\<lambda>(p, seen). length p)")
    (auto simp: less_Suc_eq_le intro: le_trans [OF diff_le_self length_dropWhile_le])

definition salt_path_is_confined :: "string \<Rightarrow> bool" where
  "salt_path_is_confined rel \<longleftrightarrow> rel \<noteq> [] \<and> hd rel \<noteq> CHR ''/'' \<and> confined_loop rel False"

text \<open>\<^verbatim>\<open>strip_dot_slash\<close> of \<^verbatim>\<open>tar.c\<close>: leading \<^verbatim>\<open>./\<close> components are dropped.\<close>

function strip_dot_slash :: "string \<Rightarrow> string" where
  "strip_dot_slash p =
     (if starts_with p ''./'' then strip_dot_slash (dropWhile (\<lambda>c. c = CHR ''/'') (drop 2 p)) else p)"
  by pat_completeness auto
termination
proof (relation "measure length")
  fix p :: string
  assume "starts_with p ''./''"
  then have "length (drop 2 p) < length p" by (auto simp: starts_with_iff)
  then have "length (dropWhile (\<lambda>c. c = CHR ''/'') (drop 2 p)) < length p"
    by (rule le_less_trans [OF length_dropWhile_le])
  then show "(dropWhile (\<lambda>c. c = CHR ''/'') (drop 2 p), p) \<in> measure length" by simp
qed simp

declare strip_dot_slash.simps [simp del]

subsection \<open>Splitting\<close>

lemma split_on_nonempty [simp]: "split_on d s \<noteq> []"
  by (cases s) (auto split: list.splits)

lemma split_on_notin: "d \<notin> set s \<Longrightarrow> split_on d s = [s]"
  by (induction s) auto

lemma split_on_append: "split_on d (s @ d # t) = split_on d s @ split_on d t"
  by (induction s) (auto split: list.splits)

lemma split_on_rec:
  "split_on d s = takeWhile (\<lambda>x. x \<noteq> d) s #
     (case dropWhile (\<lambda>x. x \<noteq> d) s of [] \<Rightarrow> [] | _ # t \<Rightarrow> split_on d t)"
  by (induction s) (auto split: list.splits)

lemma path_key_Nil [simp]: "path_key [] = []"
  by (simp add: path_key_def)

lemma path_key_append_slash: "path_key (s @ CHR ''/'' # t) = path_key s @ path_key t"
  by (simp add: path_key_def split_on_append)

lemma path_key_Cons_slash [simp]: "path_key (CHR ''/'' # t) = path_key t"
  using path_key_append_slash [of "[]" t] by simp

lemma path_key_drop_slashes [simp]: "path_key (dropWhile (\<lambda>c. c = CHR ''/'') t) = path_key t"
  by (induction t) auto

lemma path_key_join: "path_key (salt_join_path a b) = path_key a @ path_key b"
proof (cases "a = [] \<or> b = []")
  case False
  let ?b = "dropWhile (\<lambda>c. c = CHR ''/'') b"
  show ?thesis
  proof (cases "last a = CHR ''/''")
    case True
    then obtain a' where a: "a = a' @ ''/''" using False by (cases a rule: rev_cases) auto
    have "path_key (salt_join_path a b) = path_key (a' @ CHR ''/'' # ?b)"
      using False a by (simp add: salt_join_path_def)
    also have "\<dots> = path_key a @ path_key b"
      using a path_key_append_slash [of a' "[]"] by (simp add: path_key_append_slash)
    finally show ?thesis .
  next
    case f: False
    then have "salt_join_path a b = a @ CHR ''/'' # ?b"
      using False by (simp add: salt_join_path_def)
    then show ?thesis by (simp add: path_key_append_slash)
  qed
qed (auto simp: salt_join_path_def)

lemma confined_loop_spec:
  "confined_loop p seen \<longleftrightarrow> ''..'' \<notin> set (split_on CHR ''/'' p) \<and> (seen \<or> path_key p \<noteq> [])"
proof (induction p seen rule: confined_loop.induct)
  case (2 c cs seen)
  let ?p = "c # cs"
  let ?comp = "takeWhile (\<lambda>x. x \<noteq> CHR ''/'') ?p" and ?rest = "dropWhile (\<lambda>x. x \<noteq> CHR ''/'') ?p"
  have split: "split_on CHR ''/'' ?p = ?comp # (case ?rest of [] \<Rightarrow> [] | _ # t \<Rightarrow> split_on CHR ''/'' t)"
    by (rule split_on_rec)
  have IH: "?comp \<noteq> ''..'' \<Longrightarrow> confined_loop (tl ?rest) (seen \<or> (?comp \<noteq> [] \<and> ?comp \<noteq> ''.'')) \<longleftrightarrow>
      ''..'' \<notin> set (split_on CHR ''/'' (tl ?rest)) \<and>
      ((seen \<or> (?comp \<noteq> [] \<and> ?comp \<noteq> ''.'')) \<or> path_key (tl ?rest) \<noteq> [])"
    using "2.IH" [OF refl refl] by blast
  show ?case
  proof (cases "?comp = ''..''")
    case True
    then show ?thesis unfolding confined_loop.simps split by simp
  next
    case False
    then show ?thesis
      unfolding confined_loop.simps path_key_def split Let_def if_not_P [OF False]
        IH [OF False, unfolded path_key_def]
      by (cases ?rest) (auto simp: path_key_def)
  qed
qed simp

text \<open>The guard is exactly: relative, no \<^verbatim>\<open>..\<close> component, at least one real component.\<close>

lemma salt_path_is_confined_iff:
  "salt_path_is_confined rel \<longleftrightarrow>
     rel \<noteq> [] \<and> hd rel \<noteq> CHR ''/'' \<and> ''..'' \<notin> set (split_on CHR ''/'' rel) \<and> path_key rel \<noteq> []"
  by (simp add: salt_path_is_confined_def confined_loop_spec)

lemma confined_key_nonempty: "salt_path_is_confined rel \<Longrightarrow> path_key rel \<noteq> []"
  by (simp add: salt_path_is_confined_iff)

lemma confined_key_no_dotdot: "salt_path_is_confined rel \<Longrightarrow> ''..'' \<notin> set (path_key rel)"
  by (auto simp: salt_path_is_confined_iff path_key_def)

section \<open>Nodes and file systems\<close>

text \<open>
  A node is a regular file with its bytes and mode bits, a symbolic link with its target, a
  directory, or anything else (a device, socket or pipe).
\<close>

datatype node = NReg string nat | NLnk string | NDir | NOther

text \<open>
  A file system is the list of what exists, so that it can be enumerated (\<^verbatim>\<open>readdir\<close>); \<open>fs_get\<close> is
  \<^verbatim>\<open>lstat\<close>, with \<^const>\<open>None\<close> for a path that does not exist.
\<close>

type_synonym fs = "(key \<times> node) list"

definition fs_get :: "fs \<Rightarrow> key \<Rightarrow> node option" where
  "fs_get fs k = map_of fs k"

definition fs_put :: "key \<Rightarrow> node \<Rightarrow> fs \<Rightarrow> fs" where
  "fs_put k n fs = (k, n) # filter (\<lambda>p. fst p \<noteq> k) fs"

definition fs_del :: "key \<Rightarrow> fs \<Rightarrow> fs" where
  "fs_del k fs = filter (\<lambda>p. fst p \<noteq> k) fs"

definition fs_has_children :: "fs \<Rightarrow> key \<Rightarrow> bool" where
  "fs_has_children fs k \<longleftrightarrow> list_ex (\<lambda>p. fst p \<noteq> [] \<and> butlast (fst p) = k) fs"

lemma map_of_filter_key: "map_of (filter (\<lambda>p. fst p \<noteq> k) fs) q = (if q = k then None else map_of fs q)"
  by (induction fs) auto

lemma fs_get_put [simp]: "fs_get (fs_put k n fs) q = (if q = k then Some n else fs_get fs q)"
  by (simp add: fs_get_def fs_put_def map_of_filter_key)

lemma fs_get_del [simp]: "fs_get (fs_del k fs) q = (if q = k then None else fs_get fs q)"
  by (simp add: fs_get_def fs_del_def map_of_filter_key)

text \<open>
  \<^verbatim>\<open>stat\<close> follows a symbolic link in the last component, at most 40 of them (\<^verbatim>\<open>ELOOP\<close>); an absolute
  target is looked up in the same tree.  \<^verbatim>\<open>salt_path_exists\<close> and \<^verbatim>\<open>salt_is_dir\<close> of \<^verbatim>\<open>util.c\<close> are calls of it.
\<close>

definition link_key :: "key \<Rightarrow> string \<Rightarrow> key" where
  "link_key k target =
     rev (fold (\<lambda>c acc. if c = ''..'' then drop 1 acc else c # acc) (path_key target)
       (if starts_with target ''/'' then [] else rev (butlast k)))"

fun fs_stat_fuel :: "nat \<Rightarrow> fs \<Rightarrow> key \<Rightarrow> node option" where
  "fs_stat_fuel 0 fs k = None"
| "fs_stat_fuel (Suc n) fs k =
     (if k = [] then Some NDir
      else case fs_get fs k of Some (NLnk t) \<Rightarrow> fs_stat_fuel n fs (link_key k t) | r \<Rightarrow> r)"

definition fs_stat :: "fs \<Rightarrow> key \<Rightarrow> node option" where
  "fs_stat fs k = fs_stat_fuel 41 fs k"

definition salt_path_exists :: "fs \<Rightarrow> key \<Rightarrow> bool" where
  "salt_path_exists fs k \<longleftrightarrow> fs_stat fs k \<noteq> None"

definition salt_is_dir :: "fs \<Rightarrow> key \<Rightarrow> bool" where
  "salt_is_dir fs k \<longleftrightarrow> fs_stat fs k = Some NDir"

lemma fs_stat_NReg: "k \<noteq> [] \<Longrightarrow> fs_get fs k = Some (NReg d m) \<Longrightarrow> fs_stat fs k = Some (NReg d m)"
  by (simp add: fs_stat_def numeral_eq_Suc)

text \<open>What a system call is made for: the calls that may fail independently of one another.\<close>

datatype io_op = IoMkdir | IoWrite | IoSymlink | IoBackup | IoRestore | IoRmdir | IoUnlink | IoAdded | IoBoot

text \<open>
  \<open>io_within fs k\<close> is \<^verbatim>\<open>salt_path_within_root\<close> of an existing path, that is the C library's
  \<^verbatim>\<open>realpath\<close> compared with the root's.
\<close>

record io_env =
  io_ok :: "io_op \<Rightarrow> key \<Rightarrow> bool"
  io_within :: "fs \<Rightarrow> key \<Rightarrow> bool"

definition dirlike :: "fs \<Rightarrow> key \<Rightarrow> bool" where
  "dirlike fs k \<longleftrightarrow> k = [] \<or> (case fs_get fs k of Some NDir \<Rightarrow> True | Some (NLnk t) \<Rightarrow> True | _ \<Rightarrow> False)"

text \<open>\<^verbatim>\<open>salt_mkdirs\<close>: every prefix in turn; an existing one (\<^verbatim>\<open>EEXIST\<close>) is passed over.\<close>

fun mkdirs_from :: "io_env \<Rightarrow> key \<Rightarrow> key \<Rightarrow> fs \<Rightarrow> salt_rc \<times> fs" where
  "mkdirs_from io pre [] fs = (SALT_OK, fs)"
| "mkdirs_from io pre (c # cs) fs =
     (if \<not> dirlike fs pre then (SALT_ERR_IO, fs)
      else case fs_get fs (pre @ [c]) of
        Some n \<Rightarrow> mkdirs_from io (pre @ [c]) cs fs
      | None \<Rightarrow>
          if io_ok io IoMkdir (pre @ [c])
          then mkdirs_from io (pre @ [c]) cs (fs_put (pre @ [c]) NDir fs)
          else (SALT_ERR_IO, fs))"

definition salt_mkdirs :: "io_env \<Rightarrow> key \<Rightarrow> fs \<Rightarrow> salt_rc \<times> fs" where
  "salt_mkdirs io k fs = mkdirs_from io [] k fs"

text \<open>
  \<^verbatim>\<open>salt_write_file\<close>: the parent directories are made (failures ignored), a temporary file is
  written beside the target and renamed over it.  A failure anywhere removes the temporary file
  and leaves the target as it was.
\<close>

definition salt_write_file :: "io_env \<Rightarrow> io_op \<Rightarrow> key \<Rightarrow> string \<Rightarrow> nat \<Rightarrow> fs \<Rightarrow> salt_rc \<times> fs" where
  "salt_write_file io op k data mode fs =
     (let fs1 = snd (salt_mkdirs io (butlast k) fs)
      in if dirlike fs1 (butlast k) \<and> fs_get fs1 k \<noteq> Some NDir \<and> io_ok io op k
         then (SALT_OK, fs_put k (NReg data mode) fs1)
         else (SALT_ERR_IO, fs1))"

text \<open>\<^verbatim>\<open>unlink\<close> removes anything but a directory; \<^verbatim>\<open>rmdir\<close> an empty directory only.\<close>

definition fs_unlink :: "io_env \<Rightarrow> key \<Rightarrow> fs \<Rightarrow> fs" where
  "fs_unlink io k fs =
     (case fs_get fs k of None \<Rightarrow> fs | Some NDir \<Rightarrow> fs
      | Some n \<Rightarrow> if io_ok io IoUnlink k then fs_del k fs else fs)"

definition fs_rmdir :: "io_env \<Rightarrow> key \<Rightarrow> fs \<Rightarrow> fs" where
  "fs_rmdir io k fs =
     (if fs_get fs k = Some NDir \<and> \<not> fs_has_children fs k \<and> io_ok io IoRmdir k
      then fs_del k fs else fs)"

definition fs_symlink :: "io_env \<Rightarrow> io_op \<Rightarrow> string \<Rightarrow> key \<Rightarrow> fs \<Rightarrow> salt_rc \<times> fs" where
  "fs_symlink io op target k fs =
     (if fs_get fs k = None \<and> dirlike fs (butlast k) \<and> io_ok io op k
      then (SALT_OK, fs_put k (NLnk target) fs) else (SALT_ERR_IO, fs))"

subsection \<open>What these operations change\<close>

text \<open>Making directories changes absent keys to directories and nothing else.\<close>

definition only_new_dirs :: "fs \<Rightarrow> fs \<Rightarrow> bool" where
  "only_new_dirs fs fs' \<longleftrightarrow>
     (\<forall>k. fs_get fs' k = fs_get fs k \<or> (fs_get fs k = None \<and> fs_get fs' k = Some NDir))"

lemma only_new_dirs_refl [simp]: "only_new_dirs fs fs"
  by (simp add: only_new_dirs_def)

lemma only_new_dirs_trans: "only_new_dirs a b \<Longrightarrow> only_new_dirs b c \<Longrightarrow> only_new_dirs a c"
  unfolding only_new_dirs_def by (metis option.distinct(1))

lemma only_new_dirs_put: "fs_get fs k = None \<Longrightarrow> only_new_dirs fs (fs_put k NDir fs)"
  by (simp add: only_new_dirs_def)

lemma mkdirs_from_only: "only_new_dirs fs (snd (mkdirs_from io pre k fs))"
  by (induction io pre k fs rule: mkdirs_from.induct)
    (auto split: option.splits intro: only_new_dirs_trans [OF only_new_dirs_put])

lemma salt_mkdirs_only: "only_new_dirs fs (snd (salt_mkdirs io k fs))"
  by (simp add: salt_mkdirs_def mkdirs_from_only)

text \<open>It makes prefixes of its argument only.\<close>

lemma mkdirs_from_prefix:
  "fs_get (snd (mkdirs_from io pre k fs)) q \<noteq> fs_get fs q \<Longrightarrow> \<exists>r s. r \<noteq> [] \<and> k = r @ s \<and> q = pre @ r"
proof (induction io pre k fs rule: mkdirs_from.induct)
  case (2 io pre c cs fs)
  show ?case
  proof (cases "q = pre @ [c]")
    case True
    then show ?thesis by (intro exI [of _ "[c]"] exI [of _ cs]) auto
  next
    case False
    with 2 have "\<exists>r s. r \<noteq> [] \<and> cs = r @ s \<and> q = (pre @ [c]) @ r"
      by (auto split: option.splits if_splits)
    then show ?thesis by (metis append.assoc append_Cons append_Nil list.distinct(1))
  qed
qed simp

lemma salt_mkdirs_prefix:
  "fs_get (snd (salt_mkdirs io k fs)) q \<noteq> fs_get fs q \<Longrightarrow> \<exists>s. k = q @ s \<and> q \<noteq> []"
  using mkdirs_from_prefix [of io "[]" k fs q] by (auto simp: salt_mkdirs_def)

section \<open>Confinement\<close>


end
