(* ===== verification/Salt_Db.thy ===== *)
theory Salt_Db
  imports Salt_Prelude "HOL-Library.Multiset"
begin

text \<open>
  The package database of \<^verbatim>\<open>src/halite/src/db.c\<close>: its SQLite tables as lists of rows, one definition
  per exported function.

  Every SQL statement may fail: \<open>sql_ok stmt\<close> says whether it succeeds, and a statement that fails
  has no effect.  The code ignores the result of some statements and returns an error on others;
  the definitions do the same.  An open SQL transaction is the copy of the tables that
  \<^verbatim>\<open>ROLLBACK\<close> puts back.  A row order that the query leaves unspecified is the order of insertion.

  The lemmas show that the tables stay well formed (\<open>db_wf\<close>) and that a successful
  \<open>salt_db_record_install\<close> or \<open>salt_db_record_remove\<close> is one update of the abstract
  map from names to packages (\<open>pkg_view\<close>).
\<close>

section \<open>Packages and manifests (pkg.h)\<close>

datatype salt_hook_kind =
    SALT_HOOK_POST_INSTALL
  | SALT_HOOK_POST_UPGRADE
  | SALT_HOOK_PRE_REMOVE
  | SALT_HOOK_POST_REMOVE

definition hook_kinds :: "salt_hook_kind list" where
  "hook_kinds = [SALT_HOOK_POST_INSTALL, SALT_HOOK_POST_UPGRADE, SALT_HOOK_PRE_REMOVE, SALT_HOOK_POST_REMOVE]"

primrec salt_hook_name :: "salt_hook_kind \<Rightarrow> string" where
  "salt_hook_name SALT_HOOK_POST_INSTALL = ''post_install''"
| "salt_hook_name SALT_HOOK_POST_UPGRADE = ''post_upgrade''"
| "salt_hook_name SALT_HOOK_PRE_REMOVE = ''pre_remove''"
| "salt_hook_name SALT_HOOK_POST_REMOVE = ''post_remove''"

record salt_pkg_meta =
  pm_name :: string
  pm_version :: string
  pm_release :: int
  pm_arch :: string
  pm_summary :: string
  pm_license :: string
  pm_repro_status :: string
  pm_repro_reason :: "string option"
  pm_deps :: "string list"
  pm_conflicts :: "string list"
  pm_hooks :: "salt_hook_kind \<Rightarrow> string option"

text \<open>The type flags of \<^verbatim>\<open>tar.h\<close>.\<close>

definition SALT_TAR_FILE :: char where "SALT_TAR_FILE = CHR ''0''"
definition SALT_TAR_DIR :: char where "SALT_TAR_DIR = CHR ''5''"
definition SALT_TAR_SYMLINK :: char where "SALT_TAR_SYMLINK = CHR ''2''"

record salt_manifest_entry =
  me_path :: string
  me_typeflag :: char
  me_mode :: nat
  me_size :: nat
  me_sha256 :: "string option"
  me_linkname :: "string option"

type_synonym salt_manifest = "salt_manifest_entry list"

section \<open>Tables\<close>

record salt_db_pkg =
  dp_name :: string
  dp_version :: string
  dp_release :: int
  dp_arch :: string
  dp_repo :: string
  dp_sig_status :: string
  dp_install_time :: int
  dp_txn_id :: int
  dp_summary :: string
  dp_license :: string
  dp_filename :: string
  dp_sha256 :: string

record file_row =
  fr_name :: string
  fr_path :: string
  fr_mode :: nat
  fr_size :: nat
  fr_sha256 :: string
  fr_type :: string
  fr_linkname :: string

record salt_deployment =
  td_id :: int
  td_op :: string
  td_status :: string
  td_time :: int
  td_snapshot :: "string option"

record salt_txn_change =
  tc_txn_id :: int
  tc_name :: string
  tc_old_version :: "string option"
  tc_new_version :: "string option"

record salt_txn_meta =
  tm_txn_id :: int
  tm_kernel :: "string option"
  tm_pinned :: bool

text \<open>\<open>t_seq\<close> is the counter of the \<^verbatim>\<open>AUTOINCREMENT\<close> column of \<^verbatim>\<open>transactions\<close>.\<close>

record tables =
  t_packages :: "salt_db_pkg list"
  t_files :: "file_row list"
  t_deps :: "(string \<times> string) list"
  t_conflicts :: "(string \<times> string) list"
  t_hooks :: "(string \<times> string \<times> string) list"
  t_transactions :: "salt_deployment list"
  t_seq :: int
  t_txn_changes :: "salt_txn_change list"
  t_txn_meta :: "salt_txn_meta list"

record salt_db =
  db_tab :: tables
  db_saved :: "tables option"

datatype sql_stmt =
    SqlOpen | SqlBegin | SqlCommit | SqlRollback
  | SqlTxnNew string | SqlTxnFinish int string | SqlTxnSnapshot int
  | SqlDelete string string
  | SqlInsHook string string | SqlInsPkg string | SqlInsFile string string
  | SqlInsDep string string | SqlInsConflict string string
  | SqlArtifact string
  | SqlVacuum int | SqlAttach int | SqlRestore int
  | SqlSchema | SqlChanges int | SqlMeta int | SqlPin int | SqlUndone int | SqlPrune int

record sql_env =
  sql_ok :: "sql_stmt \<Rightarrow> bool"
  sql_now :: int

section \<open>SQL transactions\<close>

definition salt_db_sql_begin :: "sql_env \<Rightarrow> salt_db \<Rightarrow> salt_rc \<times> salt_db" where
  "salt_db_sql_begin q db =
     (if sql_ok q SqlBegin \<and> db_saved db = None
      then (SALT_OK, db\<lparr>db_saved := Some (db_tab db)\<rparr>) else (SALT_ERR, db))"

definition salt_db_sql_commit :: "sql_env \<Rightarrow> salt_db \<Rightarrow> salt_rc \<times> salt_db" where
  "salt_db_sql_commit q db =
     (if sql_ok q SqlCommit \<and> db_saved db \<noteq> None
      then (SALT_OK, db\<lparr>db_saved := None\<rparr>) else (SALT_ERR, db))"

definition salt_db_sql_rollback :: "sql_env \<Rightarrow> salt_db \<Rightarrow> salt_rc \<times> salt_db" where
  "salt_db_sql_rollback q db =
     (case db_saved db of
        Some t \<Rightarrow> if sql_ok q SqlRollback then (SALT_OK, db\<lparr>db_tab := t, db_saved := None\<rparr>) else (SALT_ERR, db)
      | None \<Rightarrow> (SALT_ERR, db))"

section \<open>The transaction log\<close>

definition salt_db_txn_new :: "sql_env \<Rightarrow> string \<Rightarrow> tables \<Rightarrow> (int option) \<times> tables" where
  "salt_db_txn_new q op t =
     (if sql_ok q (SqlTxnNew op)
      then let i = t_seq t + 1
           in (Some i,
               t\<lparr>t_seq := i,
                 t_transactions := t_transactions t @
                   [\<lparr>td_id = i, td_op = op, td_status = ''started'', td_time = sql_now q, td_snapshot = None\<rparr>]\<rparr>)
      else (None, t))"

definition update_txn :: "int \<Rightarrow> (salt_deployment \<Rightarrow> salt_deployment) \<Rightarrow> tables \<Rightarrow> tables" where
  "update_txn i f t =
     t\<lparr>t_transactions := map (\<lambda>d. if td_id d = i then f d else d) (t_transactions t)\<rparr>"

definition salt_db_txn_finish :: "sql_env \<Rightarrow> int \<Rightarrow> string \<Rightarrow> tables \<Rightarrow> salt_rc \<times> tables" where
  "salt_db_txn_finish q i status t =
     (if sql_ok q (SqlTxnFinish i status)
      then (SALT_OK, update_txn i (\<lambda>d. d\<lparr>td_status := status\<rparr>) t) else (SALT_ERR, t))"

definition salt_db_txn_set_snapshot :: "sql_env \<Rightarrow> int \<Rightarrow> string \<Rightarrow> tables \<Rightarrow> salt_rc \<times> tables" where
  "salt_db_txn_set_snapshot q i snap t =
     (if sql_ok q (SqlTxnSnapshot i)
      then (SALT_OK, update_txn i (\<lambda>d. d\<lparr>td_snapshot := Some snap\<rparr>) t) else (SALT_ERR, t))"

section \<open>Recording packages\<close>

definition sql_del :: "sql_env \<Rightarrow> string \<Rightarrow> string \<Rightarrow> (tables \<Rightarrow> tables) \<Rightarrow> tables \<Rightarrow> tables" where
  "sql_del q table name del t = (if sql_ok q (SqlDelete table name) then del t else t)"

definition del_packages :: "string \<Rightarrow> tables \<Rightarrow> tables" where
  "del_packages n t = t\<lparr>t_packages := filter (\<lambda>p. dp_name p \<noteq> n) (t_packages t)\<rparr>"

definition del_files :: "string \<Rightarrow> tables \<Rightarrow> tables" where
  "del_files n t = t\<lparr>t_files := filter (\<lambda>r. fr_name r \<noteq> n) (t_files t)\<rparr>"

definition del_deps :: "string \<Rightarrow> tables \<Rightarrow> tables" where
  "del_deps n t = t\<lparr>t_deps := filter (\<lambda>r. fst r \<noteq> n) (t_deps t)\<rparr>"

definition del_conflicts :: "string \<Rightarrow> tables \<Rightarrow> tables" where
  "del_conflicts n t = t\<lparr>t_conflicts := filter (\<lambda>r. fst r \<noteq> n) (t_conflicts t)\<rparr>"

definition del_hooks :: "string \<Rightarrow> tables \<Rightarrow> tables" where
  "del_hooks n t = t\<lparr>t_hooks := filter (\<lambda>r. fst r \<noteq> n) (t_hooks t)\<rparr>"

text \<open>One \<^verbatim>\<open>INSERT\<close> whose failure ends the function with \<^verbatim>\<open>SALT_ERR\<close>.\<close>

definition sql_ins :: "bool \<Rightarrow> (tables \<Rightarrow> tables) \<Rightarrow> tables \<Rightarrow> salt_rc \<times> tables" where
  "sql_ins ok ins t = (if ok then (SALT_OK, ins t) else (SALT_ERR, t))"

definition file_row_of :: "string \<Rightarrow> salt_manifest_entry \<Rightarrow> file_row" where
  "file_row_of n e = \<lparr>fr_name = n, fr_path = me_path e, fr_mode = me_mode e, fr_size = me_size e,
     fr_sha256 = (case me_sha256 e of Some s \<Rightarrow> s | None \<Rightarrow> []),
     fr_type = [if me_typeflag e = CHR 0x00 then CHR ''0'' else me_typeflag e],
     fr_linkname = (case me_linkname e of Some s \<Rightarrow> s | None \<Rightarrow> [])\<rparr>"

definition pkg_row_of ::
    "sql_env \<Rightarrow> salt_pkg_meta \<Rightarrow> string \<Rightarrow> string \<Rightarrow> int \<Rightarrow> salt_db_pkg" where
  "pkg_row_of q m repo sig txn = \<lparr>dp_name = pm_name m, dp_version = pm_version m,
     dp_release = pm_release m, dp_arch = pm_arch m, dp_repo = repo, dp_sig_status = sig,
     dp_install_time = sql_now q, dp_txn_id = txn, dp_summary = pm_summary m,
     dp_license = pm_license m, dp_filename = [], dp_sha256 = []\<rparr>"

definition meta_hooks :: "salt_pkg_meta \<Rightarrow> (string \<times> string) list" where
  "meta_hooks m = concat (map (\<lambda>k. case pm_hooks m k of None \<Rightarrow> [] | Some b \<Rightarrow> [(salt_hook_name k, b)]) hook_kinds)"

definition clear_pkg :: "sql_env \<Rightarrow> string \<Rightarrow> tables \<Rightarrow> tables" where
  "clear_pkg q n t =
     sql_del q ''hooks'' n (del_hooks n)
      (sql_del q ''conflicts'' n (del_conflicts n)
        (sql_del q ''deps'' n (del_deps n)
          (sql_del q ''files'' n (del_files n)
            (sql_del q ''packages'' n (del_packages n) t))))"

definition ins_hook :: "sql_env \<Rightarrow> string \<Rightarrow> string \<times> string \<Rightarrow> tables \<Rightarrow> salt_rc \<times> tables" where
  "ins_hook q n h = sql_ins (sql_ok q (SqlInsHook n (fst h)))
     (\<lambda>t. t\<lparr>t_hooks := t_hooks t @ [(n, fst h, snd h)]\<rparr>)"

text \<open>\<^verbatim>\<open>name\<close> is the primary key of \<^verbatim>\<open>packages\<close>: a second row of the name is a constraint error.\<close>

definition ins_pkg :: "sql_env \<Rightarrow> salt_db_pkg \<Rightarrow> tables \<Rightarrow> salt_rc \<times> tables" where
  "ins_pkg q p t =
     sql_ins (sql_ok q (SqlInsPkg (dp_name p)) \<and> dp_name p \<notin> dp_name ` set (t_packages t))
       (\<lambda>t. t\<lparr>t_packages := t_packages t @ [p]\<rparr>) t"

definition ins_file :: "sql_env \<Rightarrow> string \<Rightarrow> salt_manifest_entry \<Rightarrow> tables \<Rightarrow> salt_rc \<times> tables" where
  "ins_file q n e = sql_ins (sql_ok q (SqlInsFile n (me_path e)))
     (\<lambda>t. t\<lparr>t_files := t_files t @ [file_row_of n e]\<rparr>)"

definition ins_dep :: "sql_env \<Rightarrow> string \<Rightarrow> string \<Rightarrow> tables \<Rightarrow> salt_rc \<times> tables" where
  "ins_dep q n d = sql_ins (sql_ok q (SqlInsDep n d)) (\<lambda>t. t\<lparr>t_deps := t_deps t @ [(n, d)]\<rparr>)"

definition ins_conflict :: "sql_env \<Rightarrow> string \<Rightarrow> string \<Rightarrow> tables \<Rightarrow> salt_rc \<times> tables" where
  "ins_conflict q n c = sql_ins (sql_ok q (SqlInsConflict n c))
     (\<lambda>t. t\<lparr>t_conflicts := t_conflicts t @ [(n, c)]\<rparr>)"

definition salt_db_record_install ::
    "sql_env \<Rightarrow> salt_pkg_meta \<Rightarrow> salt_manifest \<Rightarrow> string \<Rightarrow> string \<Rightarrow> int \<Rightarrow> tables \<Rightarrow> salt_rc \<times> tables" where
  "salt_db_record_install q m man repo sig txn t =
     and_then (and_then (and_then (and_then
       (rc_fold (ins_hook q (pm_name m)) (meta_hooks m) (clear_pkg q (pm_name m) t))
       (ins_pkg q (pkg_row_of q m repo sig txn)))
       (rc_fold (ins_file q (pm_name m)) man))
       (rc_fold (ins_dep q (pm_name m)) (pm_deps m)))
       (rc_fold (ins_conflict q (pm_name m)) (pm_conflicts m))"

definition salt_db_set_pkg_artifact :: "sql_env \<Rightarrow> string \<Rightarrow> string \<Rightarrow> string \<Rightarrow> tables \<Rightarrow> salt_rc \<times> tables" where
  "salt_db_set_pkg_artifact q n filename sha t =
     (if sql_ok q (SqlArtifact n)
      then (SALT_OK, t\<lparr>t_packages := map (\<lambda>p. if dp_name p = n
              then p\<lparr>dp_filename := filename, dp_sha256 := sha\<rparr> else p) (t_packages t)\<rparr>)
      else (SALT_ERR, t))"

text \<open>Only the result of the last \<^verbatim>\<open>DELETE\<close> is looked at.\<close>

definition salt_db_record_remove :: "sql_env \<Rightarrow> string \<Rightarrow> tables \<Rightarrow> salt_rc \<times> tables" where
  "salt_db_record_remove q n t =
     (let t1 = sql_del q ''hooks'' n (del_hooks n)
                (sql_del q ''conflicts'' n (del_conflicts n)
                  (sql_del q ''deps'' n (del_deps n)
                    (sql_del q ''files'' n (del_files n) t)))
      in if sql_ok q (SqlDelete ''packages'' n) then (SALT_OK, del_packages n t1) else (SALT_ERR, t1))"

section \<open>Queries\<close>

definition salt_db_get_pkg :: "tables \<Rightarrow> string \<Rightarrow> salt_db_pkg option" where
  "salt_db_get_pkg t n = find (\<lambda>p. dp_name p = n) (t_packages t)"

definition salt_db_is_installed :: "tables \<Rightarrow> string \<Rightarrow> bool" where
  "salt_db_is_installed t n \<longleftrightarrow> list_ex (\<lambda>p. dp_name p = n) (t_packages t)"

definition salt_db_list_installed :: "tables \<Rightarrow> salt_db_pkg list" where
  "salt_db_list_installed t = sort_key dp_name (t_packages t)"

definition salt_db_pkg_files :: "tables \<Rightarrow> string \<Rightarrow> string list" where
  "salt_db_pkg_files t n = sort (map fr_path (filter (\<lambda>r. fr_name r = n) (t_files t)))"

definition salt_db_owner :: "tables \<Rightarrow> string \<Rightarrow> string option" where
  "salt_db_owner t path =
     map_option fr_name (find (\<lambda>r. fr_path r = path \<or> fr_path r = dropWhile (\<lambda>c. c = CHR ''/'') path) (t_files t))"

definition manifest_entry_of :: "file_row \<Rightarrow> salt_manifest_entry" where
  "manifest_entry_of r = \<lparr>me_path = fr_path r,
     me_typeflag = (case fr_type r of [] \<Rightarrow> CHR ''0'' | c # _ \<Rightarrow> c),
     me_mode = fr_mode r, me_size = fr_size r, me_sha256 = Some (fr_sha256 r),
     me_linkname = Some (fr_linkname r)\<rparr>"

text \<open>Longest path first, so that what is in a directory comes before the directory.\<close>

definition salt_db_pkg_manifest :: "tables \<Rightarrow> string \<Rightarrow> salt_manifest" where
  "salt_db_pkg_manifest t n =
     map manifest_entry_of
       (sort_key (\<lambda>r. - int (length (fr_path r))) (filter (\<lambda>r. fr_name r = n) (t_files t)))"

definition salt_db_revdeps :: "tables \<Rightarrow> string \<Rightarrow> string list" where
  "salt_db_revdeps t n = sorted_list_of_set (set (map fst (filter (\<lambda>r. snd r = n) (t_deps t))))"

definition salt_db_pkg_deps :: "tables \<Rightarrow> string \<Rightarrow> string list" where
  "salt_db_pkg_deps t n = sort (map snd (filter (\<lambda>r. fst r = n) (t_deps t)))"

definition salt_db_conflicts_with :: "tables \<Rightarrow> string \<Rightarrow> string list" where
  "salt_db_conflicts_with t n = sorted_list_of_set (set (map fst (filter (\<lambda>r. snd r = n) (t_conflicts t))))"

definition salt_db_pkg_hook :: "tables \<Rightarrow> string \<Rightarrow> salt_hook_kind \<Rightarrow> string option" where
  "salt_db_pkg_hook t n k =
     map_option (\<lambda>r. snd (snd r)) (find (\<lambda>r. fst r = n \<and> fst (snd r) = salt_hook_name k) (t_hooks t))"

definition salt_db_deployments :: "tables \<Rightarrow> salt_deployment list" where
  "salt_db_deployments t = sort_key (\<lambda>d. - td_id d) (t_transactions t)"

definition salt_db_last_ok_txn :: "tables \<Rightarrow> (int \<times> string option) option" where
  "salt_db_last_ok_txn t =
     map_option (\<lambda>d. (td_id d, td_snapshot d))
       (find (\<lambda>d. td_status d = ''ok'' \<and> td_op d \<noteq> ''rollback'') (salt_db_deployments t))"

definition salt_db_snapshot_filenames :: "tables \<Rightarrow> string list" where
  "salt_db_snapshot_filenames t = rev (remdups (rev (filter (\<lambda>f. f \<noteq> []) (map dp_filename (t_packages t)))))"

text \<open>
  \<^verbatim>\<open>salt_db_restore_state_from\<close> on a copy made by \<^verbatim>\<open>salt_db_vacuum_into\<close> of the same schema: one SQL
  script that replaces packages, files, dependencies and conflicts, and nothing else.
\<close>

definition salt_db_restore_state_from :: "sql_env \<Rightarrow> int \<Rightarrow> tables \<Rightarrow> tables \<Rightarrow> salt_rc \<times> tables" where
  "salt_db_restore_state_from q i before t =
     (if \<not> sql_ok q (SqlAttach i) then (SALT_ERR, t)
      else if \<not> sql_ok q (SqlRestore i) then (SALT_ERR, t)
      else (SALT_OK, t\<lparr>t_packages := t_packages before, t_files := t_files before,
                       t_deps := t_deps before, t_conflicts := t_conflicts before\<rparr>))"

section \<open>The tables as a map from names to packages\<close>

record pkg_abs =
  pa_row :: salt_db_pkg
  pa_files :: "file_row list"
  pa_deps :: "string list"
  pa_conflicts :: "string list"
  pa_hooks :: "(string \<times> string) list"

definition pkg_view :: "tables \<Rightarrow> string \<Rightarrow> pkg_abs option" where
  "pkg_view t n = map_option (\<lambda>p. \<lparr>pa_row = p,
       pa_files = filter (\<lambda>r. fr_name r = n) (t_files t),
       pa_deps = map snd (filter (\<lambda>r. fst r = n) (t_deps t)),
       pa_conflicts = map snd (filter (\<lambda>r. fst r = n) (t_conflicts t)),
       pa_hooks = map snd (filter (\<lambda>r. fst r = n) (t_hooks t))\<rparr>) (salt_db_get_pkg t n)"

definition db_wf :: "tables \<Rightarrow> bool" where
  "db_wf t \<longleftrightarrow> distinct (map dp_name (t_packages t))
     \<and> list_all (\<lambda>r. salt_db_is_installed t (fr_name r)) (t_files t)
     \<and> list_all (\<lambda>r. salt_db_is_installed t (fst r)) (t_deps t)
     \<and> list_all (\<lambda>r. salt_db_is_installed t (fst r)) (t_conflicts t)
     \<and> list_all (\<lambda>r. salt_db_is_installed t (fst r)) (t_hooks t)"

definition deletes_ok :: "sql_env \<Rightarrow> string \<Rightarrow> bool" where
  "deletes_ok q n \<longleftrightarrow> list_all (\<lambda>tb. sql_ok q (SqlDelete tb n)) [''packages'', ''files'', ''deps'', ''conflicts'', ''hooks'']"

definition clear_all :: "string \<Rightarrow> tables \<Rightarrow> tables" where
  "clear_all n t = t\<lparr>t_packages := filter (\<lambda>p. dp_name p \<noteq> n) (t_packages t),
     t_files := filter (\<lambda>r. fr_name r \<noteq> n) (t_files t),
     t_deps := filter (\<lambda>r. fst r \<noteq> n) (t_deps t),
     t_conflicts := filter (\<lambda>r. fst r \<noteq> n) (t_conflicts t),
     t_hooks := filter (\<lambda>r. fst r \<noteq> n) (t_hooks t)\<rparr>"

definition abs_pkg :: "sql_env \<Rightarrow> salt_pkg_meta \<Rightarrow> salt_manifest \<Rightarrow> string \<Rightarrow> string \<Rightarrow> int \<Rightarrow> pkg_abs" where
  "abs_pkg q m man repo sig txn = \<lparr>pa_row = pkg_row_of q m repo sig txn,
     pa_files = map (file_row_of (pm_name m)) man, pa_deps = pm_deps m,
     pa_conflicts = pm_conflicts m, pa_hooks = meta_hooks m\<rparr>"

lemma clear_pkg_all: "deletes_ok q n \<Longrightarrow> clear_pkg q n t = clear_all n t"
  by (simp add: clear_pkg_def clear_all_def sql_del_def deletes_ok_def del_packages_def del_files_def
      del_deps_def del_conflicts_def del_hooks_def)

lemma record_remove_clear: "deletes_ok q n \<Longrightarrow> salt_db_record_remove q n t = (SALT_OK, clear_all n t)"
  by (simp add: salt_db_record_remove_def clear_all_def sql_del_def deletes_ok_def del_packages_def
      del_files_def del_deps_def del_conflicts_def del_hooks_def)

text \<open>A loop of insertions that succeeds has appended every row.\<close>

lemma rc_fold_ins: "rc_fold (\<lambda>x. sql_ins (ok x) (g x)) xs t = (SALT_OK, t') \<Longrightarrow> t' = fold g xs t"
  by (induction xs arbitrary: t) (auto simp: sql_ins_def split: if_splits)

lemma fold_append_rows:
  "fold (\<lambda>x t. t\<lparr>t_hooks := t_hooks t @ [h x]\<rparr>) xs t = t\<lparr>t_hooks := t_hooks t @ map h xs\<rparr>"
  "fold (\<lambda>x t. t\<lparr>t_files := t_files t @ [f x]\<rparr>) xs t = t\<lparr>t_files := t_files t @ map f xs\<rparr>"
  "fold (\<lambda>x t. t\<lparr>t_deps := t_deps t @ [d x]\<rparr>) xs t = t\<lparr>t_deps := t_deps t @ map d xs\<rparr>"
  "fold (\<lambda>x t. t\<lparr>t_conflicts := t_conflicts t @ [d x]\<rparr>) xs t = t\<lparr>t_conflicts := t_conflicts t @ map d xs\<rparr>"
  by (induction xs arbitrary: t) auto

lemma rc_fold_ins_hook: "rc_fold (ins_hook q n) hs t = (SALT_OK, t') \<Longrightarrow>
    t' = t\<lparr>t_hooks := t_hooks t @ map (\<lambda>h. (n, fst h, snd h)) hs\<rparr>"
  unfolding ins_hook_def by (drule rc_fold_ins) (simp only: fold_append_rows)

lemma rc_fold_ins_file: "rc_fold (ins_file q n) es t = (SALT_OK, t') \<Longrightarrow>
    t' = t\<lparr>t_files := t_files t @ map (file_row_of n) es\<rparr>"
  unfolding ins_file_def by (drule rc_fold_ins) (simp only: fold_append_rows)

lemma rc_fold_ins_dep: "rc_fold (ins_dep q n) ds t = (SALT_OK, t') \<Longrightarrow>
    t' = t\<lparr>t_deps := t_deps t @ map (Pair n) ds\<rparr>"
  unfolding ins_dep_def by (drule rc_fold_ins) (simp only: fold_append_rows)

lemma rc_fold_ins_conflict: "rc_fold (ins_conflict q n) cs t = (SALT_OK, t') \<Longrightarrow>
    t' = t\<lparr>t_conflicts := t_conflicts t @ map (Pair n) cs\<rparr>"
  unfolding ins_conflict_def by (drule rc_fold_ins) (simp only: fold_append_rows)

lemma record_install_rows:
  assumes "salt_db_record_install q m man repo sig txn t = (SALT_OK, t')"
  shows "let c = clear_pkg q (pm_name m) t in
    pm_name m \<notin> dp_name ` set (t_packages c) \<and>
    t' = c\<lparr>t_packages := t_packages c @ [pkg_row_of q m repo sig txn],
           t_files := t_files c @ map (file_row_of (pm_name m)) man,
           t_deps := t_deps c @ map (Pair (pm_name m)) (pm_deps m),
           t_conflicts := t_conflicts c @ map (Pair (pm_name m)) (pm_conflicts m),
           t_hooks := t_hooks c @ map (\<lambda>h. (pm_name m, fst h, snd h)) (meta_hooks m)\<rparr>"
proof -
  let ?n = "pm_name m" and ?c = "clear_pkg q (pm_name m) t"
  from assms obtain t1 t2 t3 t4 where s:
    "rc_fold (ins_hook q ?n) (meta_hooks m) ?c = (SALT_OK, t1)"
    "ins_pkg q (pkg_row_of q m repo sig txn) t1 = (SALT_OK, t2)"
    "rc_fold (ins_file q ?n) man t2 = (SALT_OK, t3)"
    "rc_fold (ins_dep q ?n) (pm_deps m) t3 = (SALT_OK, t4)"
    "rc_fold (ins_conflict q ?n) (pm_conflicts m) t4 = (SALT_OK, t')"
    by (auto simp: salt_db_record_install_def and_then_OK)
  have p: "?n \<notin> dp_name ` set (t_packages t1)" "t2 = t1\<lparr>t_packages := t_packages t1 @ [pkg_row_of q m repo sig txn]\<rparr>"
    using s(2) by (auto simp: ins_pkg_def sql_ins_def pkg_row_of_def split: if_splits)
  show ?thesis
    using p by (simp add: Let_def rc_fold_ins_hook [OF s(1)] rc_fold_ins_file [OF s(3)]
        rc_fold_ins_dep [OF s(4)] rc_fold_ins_conflict [OF s(5)])
qed

lemma filter_find: "find P xs = (case filter P xs of [] \<Rightarrow> None | x # _ \<Rightarrow> Some x)"
  by (induction xs) auto

lemma get_pkg_None: "salt_db_get_pkg t n = None \<longleftrightarrow> \<not> salt_db_is_installed t n"
  by (auto simp: salt_db_get_pkg_def salt_db_is_installed_def find_None_iff list_ex_iff)

lemma get_pkg_name: "salt_db_get_pkg t n = Some p \<Longrightarrow> dp_name p = n \<and> p \<in> set (t_packages t)"
  by (auto simp: salt_db_get_pkg_def find_Some_iff)

lemma pkg_view_None: "pkg_view t n = None \<longleftrightarrow> \<not> salt_db_is_installed t n"
  by (simp add: pkg_view_def get_pkg_None)

lemma filter_other: "n \<noteq> x \<Longrightarrow> filter (\<lambda>r. f r \<noteq> x \<and> f r = n) xs = filter (\<lambda>r. f r = n) xs"
  by (rule filter_cong) auto

lemma installed_iff: "salt_db_is_installed t n \<longleftrightarrow> n \<in> dp_name ` set (t_packages t)"
  by (auto simp: salt_db_is_installed_def list_ex_iff)

lemma pkg_view_clear_all: "pkg_view (clear_all x t) = (pkg_view t)(x := None)"
proof
  fix n
  show "pkg_view (clear_all x t) n = ((pkg_view t)(x := None)) n"
    by (cases "n = x")
      (auto simp: pkg_view_def clear_all_def salt_db_get_pkg_def filter_find filter_other)
qed

lemma record_install_view:
  assumes "salt_db_record_install q m man repo sig txn t = (SALT_OK, t')" and "deletes_ok q (pm_name m)"
  shows "pkg_view t' = (pkg_view t)(pm_name m \<mapsto> abs_pkg q m man repo sig txn)"
proof
  fix n
  let ?c = "clear_all (pm_name m) t"
  note rows = record_install_rows [OF assms(1), unfolded clear_pkg_all [OF assms(2)] Let_def]
  show "pkg_view t' n = ((pkg_view t)(pm_name m \<mapsto> abs_pkg q m man repo sig txn)) n"
  proof (cases "n = pm_name m")
    case True
    then show ?thesis
      using rows
      by (auto simp: pkg_view_def abs_pkg_def clear_all_def salt_db_get_pkg_def filter_find pkg_row_of_def
          file_row_of_def comp_def filter_empty_conv)
  next
    case False
    then have "pkg_view t' n = pkg_view ?c n"
      using rows
      by (auto simp: pkg_view_def salt_db_get_pkg_def filter_find pkg_row_of_def file_row_of_def comp_def)
    then show ?thesis using False by (simp add: pkg_view_clear_all)
  qed
qed

lemma db_wf_clear_all: "db_wf t \<Longrightarrow> db_wf (clear_all n t)"
  by (auto simp: db_wf_def clear_all_def list_all_iff installed_iff image_iff distinct_map_filter) fastforce+

lemma record_install_wf:
  assumes "salt_db_record_install q m man repo sig txn t = (SALT_OK, t')" and "deletes_ok q (pm_name m)"
    and "db_wf t"
  shows "db_wf t'"
  using record_install_rows [OF assms(1), unfolded clear_pkg_all [OF assms(2)] Let_def]
    db_wf_clear_all [OF assms(3), of "pm_name m"]
  by (auto simp: db_wf_def list_all_iff installed_iff pkg_row_of_def file_row_of_def)

lemma set_pkg_artifact_view:
  assumes "salt_db_set_pkg_artifact q n f sha t = (SALT_OK, t')"
  shows "pkg_view t' = (pkg_view t)(n := map_option
           (\<lambda>a. a\<lparr>pa_row := (pa_row a)\<lparr>dp_filename := f, dp_sha256 := sha\<rparr>\<rparr>) (pkg_view t n))"
    and "db_wf t \<Longrightarrow> db_wf t'"
proof -
  let ?g = "\<lambda>p. if dp_name p = n then p\<lparr>dp_filename := f, dp_sha256 := sha\<rparr> else p"
  from assms have t': "t' = t\<lparr>t_packages := map ?g (t_packages t)\<rparr>"
    by (auto simp: salt_db_set_pkg_artifact_def split: if_splits)
  have g: "dp_name (?g p) = dp_name p" for p by simp
  have find: "find (\<lambda>p. dp_name p = k) (map ?g ps) = map_option ?g (find (\<lambda>p. dp_name p = k) ps)" for k ps
    by (induction ps) auto
  show "pkg_view t' = (pkg_view t)(n := map_option
           (\<lambda>a. a\<lparr>pa_row := (pa_row a)\<lparr>dp_filename := f, dp_sha256 := sha\<rparr>\<rparr>) (pkg_view t n))"
    by (rule ext) (auto simp: pkg_view_def t' salt_db_get_pkg_def find option.map_comp comp_def
        find_Some_iff intro!: map_option_cong)
  have "map dp_name (map ?g (t_packages t)) = map dp_name (t_packages t)"
    by (simp add: comp_def g)
  then show "db_wf t \<Longrightarrow> db_wf t'"
    by (simp add: db_wf_def t' installed_iff flip: set_map del: map_map)
qed

section \<open>The contract of a package store\<close>

text \<open>
  What the transaction code relies on: installing is one update of the abstract map, removing
  deletes one name, and both keep the invariant.  The lemma is the effect of a whole plan.
\<close>

locale pkg_store =
  fixes wf :: "'s \<Rightarrow> bool"
    and view :: "'s \<Rightarrow> string \<Rightarrow> 'p option"
    and inst :: "'a \<Rightarrow> 's \<Rightarrow> salt_rc \<times> 's"
    and rem :: "string \<Rightarrow> 's \<Rightarrow> salt_rc \<times> 's"
    and name_of :: "'a \<Rightarrow> string"
    and val_of :: "'a \<Rightarrow> 'p"
  assumes inst_ok: "wf s \<Longrightarrow> inst a s = (SALT_OK, s') \<Longrightarrow>
      wf s' \<and> view s' = (view s)(name_of a \<mapsto> val_of a)"
    and rem_ok: "wf s \<Longrightarrow> rem n s = (SALT_OK, s') \<Longrightarrow> wf s' \<and> view s' = (view s)(n := None)"
begin

lemma removals: "wf s \<Longrightarrow> rc_fold rem ns s = (SALT_OK, s') \<Longrightarrow>
    wf s' \<and> view s' = (\<lambda>n. if n \<in> set ns then None else view s n)"
proof (induction ns arbitrary: s)
  case (Cons n ns)
  then obtain t where t: "rem n s = (SALT_OK, t)" "rc_fold rem ns t = (SALT_OK, s')"
    by (auto simp: and_then_OK)
  then show ?case using Cons.IH [OF _ t(2)] rem_ok [OF Cons.prems(1) t(1)] by auto
qed simp

lemma installations: "wf s \<Longrightarrow> rc_fold inst as s = (SALT_OK, s') \<Longrightarrow>
    wf s' \<and> view s' = (view s) ++ map_of (rev (map (\<lambda>a. (name_of a, val_of a)) as))"
proof (induction as arbitrary: s)
  case (Cons a as)
  then obtain t where t: "inst a s = (SALT_OK, t)" "rc_fold inst as t = (SALT_OK, s')"
    by (auto simp: and_then_OK)
  have "(view s)(name_of a \<mapsto> val_of a) ++ m = view s ++ ([name_of a \<mapsto> val_of a] ++ m)" for m
    by (simp add: map_add_assoc [symmetric])
  then show ?case using Cons.IH [OF _ t(2)] inst_ok [OF Cons.prems(1) t(1)] by (auto simp: map_add_assoc fun_upd_def)
qed simp

lemma plan_effect:
  assumes "wf s" and "and_then (rc_fold rem ns s) (rc_fold inst as) = (SALT_OK, s')"
    and "distinct (map name_of as)"
  shows "wf s'"
    and "a \<in> set as \<Longrightarrow> view s' (name_of a) = Some (val_of a)"
    and "n \<notin> name_of ` set as \<Longrightarrow> view s' n = (if n \<in> set ns then None else view s n)"
proof -
  from assms(2) obtain t where t: "rc_fold rem ns s = (SALT_OK, t)" "rc_fold inst as t = (SALT_OK, s')"
    by (auto simp: and_then_OK)
  let ?l = "rev (map (\<lambda>a. (name_of a, val_of a)) as)"
  have v: "wf s'" "view s' = view t ++ map_of ?l" "view t = (\<lambda>n. if n \<in> set ns then None else view s n)"
    using installations [OF _ t(2)] removals [OF assms(1) t(1)] by auto
  have d: "distinct (map fst ?l)" using assms(3) by (simp add: comp_def flip: rev_map)
  show "wf s'" by (rule v(1))
  show "a \<in> set as \<Longrightarrow> view s' (name_of a) = Some (val_of a)"
    using map_of_is_SomeI [OF d, of "name_of a" "val_of a"] by (auto simp: v(2) map_add_def)
  show "n \<notin> name_of ` set as \<Longrightarrow> view s' n = (if n \<in> set ns then None else view s n)"
    by (auto simp: v(2,3) map_add_def map_of_eq_None_iff image_image split: option.splits
        dest!: map_of_SomeD)
qed

end

text \<open>The tables are a package store, for every SQL environment whose deletions succeed.\<close>

interpretation tab: pkg_store "\<lambda>t. db_wf t \<and> (\<forall>n. deletes_ok q n)" pkg_view
    "\<lambda>(m, man, repo, sig, txn). salt_db_record_install q m man repo sig txn"
    "salt_db_record_remove q" "\<lambda>(m, man, repo, sig, txn). pm_name m"
    "\<lambda>(m, man, repo, sig, txn). abs_pkg q m man repo sig txn" for q
  by unfold_locales
    (auto simp: record_install_wf record_install_view record_remove_clear db_wf_clear_all pkg_view_clear_all
      split: prod.splits)

section \<open>Reading back what was recorded\<close>

lemma find_filter_map: "map_option f (find (\<lambda>r. P r \<and> Q r) xs) = map_option f (find Q (filter P xs))"
  by (induction xs) auto

lemma find_map: "find Q (map f xs) = map_option f (find (\<lambda>x. Q (f x)) xs)"
  by (induction xs) auto

lemma hook_name_inj: "salt_hook_name k = salt_hook_name k' \<longleftrightarrow> k = k'"
  by (cases k; cases k'; simp)

lemma find_meta_hook: "map_option snd (find (\<lambda>h. fst h = salt_hook_name k) (meta_hooks m)) = pm_hooks m k"
  by (cases k) (auto simp: meta_hooks_def hook_kinds_def split: option.splits)

lemma pkg_hook_view:
  assumes "pkg_view t n = Some a"
  shows "salt_db_pkg_hook t n k = map_option snd (find (\<lambda>h. fst h = salt_hook_name k) (pa_hooks a))"
proof -
  have "pa_hooks a = map snd (filter (\<lambda>r. fst r = n) (t_hooks t))" using assms by (auto simp: pkg_view_def)
  then show ?thesis
    by (simp add: salt_db_pkg_hook_def find_filter_map find_map option.map_comp comp_def)
qed

text \<open>
  What \<^verbatim>\<open>salt_db_record_install\<close> records is what the queries give back: the package is installed, its
  manifest is that of the archive (missing hashes and link names as empty strings) in an order
  with longer paths first, and its dependencies and hooks are those of the metadata.
\<close>

theorem record_install_read_back:
  assumes "salt_db_record_install q m man repo sig txn t = (SALT_OK, t')" and "deletes_ok q (pm_name m)"
  shows "salt_db_is_installed t' (pm_name m) \<and>
    mset (salt_db_pkg_manifest t' (pm_name m)) = mset (map (\<lambda>e. manifest_entry_of (file_row_of (pm_name m) e)) man) \<and>
    sorted_wrt (\<lambda>a b. length (me_path b) \<le> length (me_path a)) (salt_db_pkg_manifest t' (pm_name m)) \<and>
    mset (salt_db_pkg_deps t' (pm_name m)) = mset (pm_deps m) \<and>
    (\<forall>k. salt_db_pkg_hook t' (pm_name m) k = pm_hooks m k)"
proof -
  let ?n = "pm_name m" and ?a = "abs_pkg q m man repo sig txn"
  have v: "pkg_view t' ?n = Some ?a" using record_install_view [OF assms] by simp
  then have files: "filter (\<lambda>r. fr_name r = ?n) (t_files t') = map (file_row_of ?n) man"
    and deps: "map snd (filter (\<lambda>r. fst r = ?n) (t_deps t')) = pm_deps m"
    by (auto simp: pkg_view_def abs_pkg_def)
  have inst: "salt_db_is_installed t' ?n"
    using v pkg_view_None [of t' ?n] by auto
  have man: "mset (salt_db_pkg_manifest t' ?n) = mset (map (\<lambda>e. manifest_entry_of (file_row_of ?n e)) man)"
    by (simp add: salt_db_pkg_manifest_def files mset_map multiset.map_comp comp_def)
  have "sorted (map (\<lambda>r. - int (length (fr_path r))) (sort_key (\<lambda>r. - int (length (fr_path r))) xs))" for xs :: "file_row list"
    by (rule sorted_sort_key)
  then have "sorted_wrt (\<lambda>a b. length (me_path b) \<le> length (me_path a)) (salt_db_pkg_manifest t' ?n)"
    by (simp add: salt_db_pkg_manifest_def sorted_wrt_map manifest_entry_of_def)
  moreover have "mset (salt_db_pkg_deps t' ?n) = mset (pm_deps m)" by (simp add: salt_db_pkg_deps_def deps)
  moreover have "\<forall>k. salt_db_pkg_hook t' ?n k = pm_hooks m k"
    using pkg_hook_view [OF v] find_meta_hook by (simp add: abs_pkg_def)
  ultimately show ?thesis using inst man by blast
qed

definition ex_empty :: tables where
  "ex_empty = \<lparr>t_packages = [], t_files = [], t_deps = [], t_conflicts = [], t_hooks = [],
     t_transactions = [], t_seq = 0, t_txn_changes = [], t_txn_meta = []\<rparr>"

definition ex_sql :: sql_env where
  "ex_sql = \<lparr>sql_ok = \<lambda>s. True, sql_now = 0\<rparr>"

definition ex_pkg_meta :: salt_pkg_meta where
  "ex_pkg_meta = \<lparr>pm_name = ''app'', pm_version = ''1.0'', pm_release = 1, pm_arch = ''any'', pm_summary = [], pm_license = [],
     pm_repro_status = [], pm_repro_reason = None, pm_deps = [''lib''], pm_conflicts = [],
     pm_hooks = (\<lambda>k. None)(SALT_HOOK_PRE_REMOVE := Some ''true'')\<rparr>"

theorem record_install_read_back_witness:
  "salt_db_pkg_deps (snd (salt_db_record_install ex_sql ex_pkg_meta [] ''r'' ''signed'' 1 ex_empty)) ''app'' = [''lib''] \<and>
   salt_db_pkg_hook (snd (salt_db_record_install ex_sql ex_pkg_meta [] ''r'' ''signed'' 1 ex_empty)) ''app'' SALT_HOOK_PRE_REMOVE = Some ''true''"
proof -
  have ok: "salt_db_record_install ex_sql ex_pkg_meta [] ''r'' ''signed'' 1 ex_empty =
      (SALT_OK, snd (salt_db_record_install ex_sql ex_pkg_meta [] ''r'' ''signed'' 1 ex_empty))"
    by (rule prod_eqI) (simp_all, code_simp)
  have d: "deletes_ok ex_sql (pm_name ex_pkg_meta)" by (simp add: deletes_ok_def ex_sql_def)
  note r = record_install_read_back [OF ok d]
  have n: "pm_name ex_pkg_meta = ''app''" "pm_deps ex_pkg_meta = [''lib'']" "pm_hooks ex_pkg_meta SALT_HOOK_PRE_REMOVE = Some ''true''"
    by (simp_all add: ex_pkg_meta_def)
  have "mset xs = {#x#} \<Longrightarrow> xs = [x]" for xs and x :: string by (cases xs) auto
  then show ?thesis using r n by simp
qed

end
