(* ===== verification/Salt_Tar.thy ===== *)
theory Salt_Tar
  imports Salt_Fs Salt_Db "HOL-Library.Sublist"
begin

text \<open>
  The tar reader and the extraction of a package payload (\<^verbatim>\<open>src/halite/src/tar.c\<close>), and the archive
  type of \<^verbatim>\<open>archive.h\<close>.

  The reader calls back on every entry and stops at the first failure.  The entries do not depend on
  the callback, so \<open>tar_entries\<close> is the list the reader would report with the code it ends with,
  and \<open>salt_tar_read\<close> folds the callback over it.  zstd is an external library: decompression
  is a parameter.
\<close>

section \<open>Entries\<close>

record salt_tar_entry =
  te_path :: string
  te_typeflag :: char
  te_mode :: nat
  te_size :: nat
  te_linkname :: string
  te_data :: string

definition TAR_BLOCK :: nat where "TAR_BLOCK = 512"

definition parse_octal :: "string \<Rightarrow> nat" where
  "parse_octal p = foldl (\<lambda>v c. if 48 \<le> (of_char c :: nat) \<and> (of_char c :: nat) \<le> 55
                               then v * 8 + (of_char c - 48) else v) 0 p"

definition has_data :: "char \<Rightarrow> bool" where
  "has_data tf \<longleftrightarrow> tf = CHR ''L'' \<or> tf = CHR ''K'' \<or> tf = SALT_TAR_FILE \<or> tf = CHR 0x00"

definition round_up_block :: "nat \<Rightarrow> nat" where
  "round_up_block sz = ((sz + TAR_BLOCK - 1) div TAR_BLOCK) * TAR_BLOCK"

text \<open>The path of a header: the long name when one is pending, else prefix and name.\<close>

definition header_path :: "string option \<Rightarrow> string \<Rightarrow> string" where
  "header_path longname h =
     (case longname of
        Some s \<Rightarrow> s
      | None \<Rightarrow>
          let name = c_str (take 100 h); pfx = c_str (take 155 (drop 345 h))
          in if pfx \<noteq> [] then take 255 (pfx @ ''/'' @ name) else name)"

definition header_entry :: "string option \<Rightarrow> string option \<Rightarrow> string \<Rightarrow> string \<Rightarrow> salt_tar_entry" where
  "header_entry longname longlink h p =
     (let tf = h ! 156; sz = parse_octal (take 12 (drop 124 h))
      in \<lparr>te_path = header_path longname h, te_typeflag = tf,
          te_mode = parse_octal (take 8 (drop 100 h)), te_size = sz,
          te_linkname = (case longlink of Some s \<Rightarrow> s | None \<Rightarrow> c_str (take 100 (drop 157 h))),
          te_data = (if tf = SALT_TAR_FILE \<or> tf = CHR 0x00 then take sz p else [])\<rparr>)"

function tar_entries :: "string option \<Rightarrow> string option \<Rightarrow> string \<Rightarrow> salt_tar_entry list \<times> salt_rc" where
  "tar_entries longname longlink data =
     (if length data < TAR_BLOCK then ([], SALT_OK)
      else let h = take TAR_BLOCK data; p = drop TAR_BLOCK data in
        if list_all (\<lambda>c. c = CHR 0x00) h then ([], SALT_OK)
        else let sz = parse_octal (take 12 (drop 124 h)); tf = h ! 156 in
          if has_data tf \<and> sz > length p then ([], SALT_ERR_FORMAT)
          else if tf = CHR ''L'' then tar_entries (Some (c_str (take sz p))) longlink (drop (round_up_block sz) p)
          else if tf = CHR ''K'' then tar_entries longname (Some (c_str (take sz p))) (drop (round_up_block sz) p)
          else
            let r = tar_entries None None
                      (if tf = SALT_TAR_FILE \<or> tf = CHR 0x00 then drop (round_up_block sz) p else p)
            in (header_entry longname longlink h p # fst r, snd r))"
  by pat_completeness auto
termination
  by (relation "measure (\<lambda>(a, b, d). length d)") (auto simp: TAR_BLOCK_def)

declare tar_entries.simps [simp del]

definition salt_tar_read :: "string \<Rightarrow> (salt_tar_entry \<Rightarrow> 's \<Rightarrow> salt_rc \<times> 's) \<Rightarrow> 's \<Rightarrow> salt_rc \<times> 's" where
  "salt_tar_read data cb s =
     (let r = tar_entries None None data in and_then (rc_fold cb (fst r) s) (\<lambda>s. (snd r, s)))"

section \<open>Extraction\<close>

text \<open>
  \<open>existing_ancestor_within\<close> walks up to the nearest existing ancestor and asks whether it is inside
  the root; the root itself always exists.
\<close>

function existing_ancestor_within :: "io_env \<Rightarrow> fs \<Rightarrow> key \<Rightarrow> bool" where
  "existing_ancestor_within io fs k =
     (if k = [] \<or> fs_get fs k \<noteq> None then io_within io fs k
      else existing_ancestor_within io fs (butlast k))"
  by pat_completeness auto
termination
  by (relation "measure (\<lambda>(io, fs, k). length k)") auto

declare existing_ancestor_within.simps [simp del]

definition confine_parent :: "io_env \<Rightarrow> key \<Rightarrow> fs \<Rightarrow> salt_rc \<times> fs" where
  "confine_parent io k fs =
     (if \<not> existing_ancestor_within io fs (butlast k) then (SALT_ERR_FORMAT, fs)
      else case salt_mkdirs io (butlast k) fs of
        (SALT_OK, fs1) \<Rightarrow> if io_within io fs1 (butlast k) then (SALT_OK, fs1) else (SALT_ERR_FORMAT, fs1)
      | (_, fs1) \<Rightarrow> (SALT_ERR_IO, fs1))"

definition extract_node :: "io_env \<Rightarrow> salt_tar_entry \<Rightarrow> key \<Rightarrow> fs \<Rightarrow> salt_rc \<times> fs" where
  "extract_node io e k fs =
     (let tf = te_typeflag e in
      if tf = SALT_TAR_DIR then
        (case fs_get fs k of
           Some (NLnk t) \<Rightarrow> if io_within io fs k then salt_mkdirs io k fs else (SALT_ERR_FORMAT, fs)
         | _ \<Rightarrow> salt_mkdirs io k fs)
      else if tf = SALT_TAR_SYMLINK then
        fs_symlink io IoSymlink (te_linkname e) k (fs_unlink io k fs)
      else if tf = SALT_TAR_FILE \<or> tf = CHR 0x00 then
        salt_write_file io IoWrite k (te_data e) (if te_mode e = 0 then 420 else te_mode e) fs
      else (SALT_OK, fs))"

definition extract_cb :: "io_env \<Rightarrow> salt_tar_entry \<Rightarrow> fs \<Rightarrow> salt_rc \<times> fs" where
  "extract_cb io e fs =
     (let rel = strip_dot_slash (te_path e) in
      if \<not> salt_path_is_confined rel then
        if te_typeflag e = SALT_TAR_DIR \<and> (rel = [] \<or> rel = ''.'') then (SALT_OK, fs) else (SALT_ERR_FORMAT, fs)
      else and_then (confine_parent io (path_key rel) fs) (extract_node io e (path_key rel)))"

definition salt_tar_extract :: "io_env \<Rightarrow> string \<Rightarrow> fs \<Rightarrow> salt_rc \<times> fs" where
  "salt_tar_extract io data fs = salt_tar_read data (extract_cb io) fs"

section \<open>Archives\<close>

text \<open>\<open>zst\<close> is \<^verbatim>\<open>salt_zst_decompress\<close>, a wrapper of the zstd library.\<close>

record salt_archive =
  ar_meta :: salt_pkg_meta
  ar_manifest :: salt_manifest
  ar_payload :: string
  ar_scripts :: "string list"

definition salt_archive_extract_payload ::
    "(string \<Rightarrow> salt_rc \<times> string) \<Rightarrow> io_env \<Rightarrow> salt_archive \<Rightarrow> fs \<Rightarrow> salt_rc \<times> fs" where
  "salt_archive_extract_payload zst io a fs =
     (let (rc, inner) = zst (ar_payload a)
      in if rc \<noteq> SALT_OK then (rc, fs) else salt_tar_extract io inner fs)"

section \<open>What extraction can touch\<close>

text \<open>A change at \<open>k\<close> on behalf of an entry: its own path, or a directory made on the way to it.\<close>

definition entry_touches :: "salt_tar_entry \<Rightarrow> fs \<Rightarrow> fs \<Rightarrow> key \<Rightarrow> bool" where
  "entry_touches e fs fs' k \<longleftrightarrow>
     (let rel = strip_dot_slash (te_path e) in
      salt_path_is_confined rel \<and>
      (k = path_key rel \<or> strict_prefix k (path_key rel) \<and> fs_get fs k = None \<and> fs_get fs' k = Some NDir))"

lemma mkdirs_from_prefixes:
  "\<not> prefix q (pre @ k) \<Longrightarrow> fs_get (snd (mkdirs_from io pre k fs)) q = fs_get fs q"
proof (induction io pre k fs rule: mkdirs_from.induct)
  case (2 io pre c cs fs)
  then have "\<not> prefix q ((pre @ [c]) @ cs)" "q \<noteq> pre @ [c]" by auto
  then show ?case using 2 by (simp split: option.split)
qed simp

lemma salt_mkdirs_touch:
  assumes "fs_get (snd (salt_mkdirs io k fs)) q \<noteq> fs_get fs q"
  shows "prefix q k \<and> fs_get fs q = None \<and> fs_get (snd (salt_mkdirs io k fs)) q = Some NDir"
proof -
  have "prefix q k" using assms mkdirs_from_prefixes [of q "[]" k io fs] by (auto simp: salt_mkdirs_def)
  then show ?thesis using assms salt_mkdirs_only [of fs io k] by (auto simp: only_new_dirs_def)
qed

lemma butlast_strict: "prefix q (butlast k) \<Longrightarrow> k \<noteq> [] \<Longrightarrow> strict_prefix q k"
  by (cases k rule: rev_cases) (auto simp: strict_prefix_def prefix_def)

lemma confine_parent_touch:
  assumes "fs_get (snd (confine_parent io k fs)) q \<noteq> fs_get fs q" "k \<noteq> []"
  shows "strict_prefix q k \<and> fs_get fs q = None \<and> fs_get (snd (confine_parent io k fs)) q = Some NDir"
proof -
  have "snd (confine_parent io k fs) = fs \<or> snd (confine_parent io k fs) = snd (salt_mkdirs io (butlast k) fs)"
    by (auto simp: confine_parent_def split: prod.splits salt_rc.splits)
  then show ?thesis using assms salt_mkdirs_touch [of io "butlast k" fs q] butlast_strict by auto
qed

lemma extract_node_touch:
  assumes "fs_get (snd (extract_node io e k fs)) q \<noteq> fs_get fs q" "k \<noteq> []"
  shows "q = k \<or> strict_prefix q k \<and> fs_get fs q = None \<and> fs_get (snd (extract_node io e k fs)) q = Some NDir"
proof -
  let ?fs' = "snd (extract_node io e k fs)"
  consider (Same) "?fs' = fs" | (Dir) "?fs' = snd (salt_mkdirs io k fs)"
    | (Lnk) "\<forall>q. q \<noteq> k \<longrightarrow> fs_get ?fs' q = fs_get fs q"
    | (Reg) "\<exists>d m. ?fs' = snd (salt_write_file io IoWrite k d m fs)"
  proof (cases "te_typeflag e = SALT_TAR_DIR")
    case True
    then have "?fs' = fs \<or> ?fs' = snd (salt_mkdirs io k fs)"
      by (simp add: extract_node_def split: option.split node.split)
    then show thesis using that(1,2) by blast
  next
    case notdir: False
    show thesis
    proof (cases "te_typeflag e = SALT_TAR_SYMLINK")
      case True
      then have "\<forall>q. q \<noteq> k \<longrightarrow> fs_get ?fs' q = fs_get fs q"
        using notdir by (simp add: extract_node_def fs_symlink_def fs_unlink_def split: option.split node.split)
      then show thesis by (rule that(3))
    next
      case False
      then have "?fs' = fs \<or> (\<exists>d m. ?fs' = snd (salt_write_file io IoWrite k d m fs))"
        using notdir by (auto simp: extract_node_def Let_def)
      then show thesis using that(1,4) by blast
    qed
  qed
  then show ?thesis
  proof cases
    case Dir
    then show ?thesis using assms salt_mkdirs_touch [of io k fs q] by (auto simp: strict_prefix_def)
  next
    case Reg
    then obtain d m where f: "?fs' = snd (salt_write_file io IoWrite k d m fs)" by blast
    then have "q \<noteq> k \<Longrightarrow> fs_get ?fs' q = fs_get (snd (salt_mkdirs io (butlast k) fs)) q"
      by (simp add: salt_write_file_def Let_def)
    then show ?thesis using assms salt_mkdirs_touch [of io "butlast k" fs q] butlast_strict [of q k] by auto
  qed (use assms in auto)
qed

lemma extract_cb_touch:
  assumes "fs_get (snd (extract_cb io e fs)) q \<noteq> fs_get fs q"
  shows "entry_touches e fs (snd (extract_cb io e fs)) q"
proof -
  let ?k = "path_key (strip_dot_slash (te_path e))"
  obtain rc fs1 where p: "confine_parent io ?k fs = (rc, fs1)" by (cases "confine_parent io ?k fs")
  have c: "salt_path_is_confined (strip_dot_slash (te_path e))" using assms by (auto simp: extract_cb_def Let_def split: if_splits)
  then have k: "?k \<noteq> []" by (rule confined_key_nonempty)
  show ?thesis
  proof (cases "rc = SALT_OK")
    case False
    then show ?thesis using assms c p confine_parent_touch [of io ?k fs q] k
      by (simp add: extract_cb_def Let_def entry_touches_def)
  next
    case True
    then have e: "snd (extract_cb io e fs) = snd (extract_node io e ?k fs1)" using c p by (simp add: extract_cb_def Let_def)
    have 1: "fs_get fs1 q = fs_get fs q \<or> strict_prefix q ?k \<and> fs_get fs q = None \<and> fs_get fs1 q = Some NDir"
      using confine_parent_touch [of io ?k fs q] k p by auto
    have 2: "fs_get (snd (extract_node io e ?k fs1)) q = fs_get fs1 q \<or> q = ?k \<or>
        strict_prefix q ?k \<and> fs_get fs1 q = None \<and> fs_get (snd (extract_node io e ?k fs1)) q = Some NDir"
      using extract_node_touch [of io e ?k fs1 q] k by blast
    show ?thesis using assms 1 2 c unfolding e entry_touches_def Let_def by auto
  qed
qed

lemma extract_fold_touch:
  "fs_get (snd (rc_fold (extract_cb io) es fs)) q \<noteq> fs_get fs q \<Longrightarrow>
   \<exists>e \<in> set es. \<exists>fs1 fs2. entry_touches e fs1 fs2 q"
proof (induction es arbitrary: fs)
  case (Cons e es)
  show ?case
  proof (cases "fs_get (snd (extract_cb io e fs)) q = fs_get fs q")
    case True
    then show ?thesis using Cons.IH [of "snd (extract_cb io e fs)"] Cons.prems by (auto simp: and_then_def split: if_splits)
  next
    case False
    then show ?thesis using extract_cb_touch [of io e fs q] by auto
  qed
qed simp


section \<open>Reading stays in bounds\<close>

definition entry_in_bounds :: "string \<Rightarrow> salt_tar_entry \<Rightarrow> bool" where
  "entry_in_bounds data e \<longleftrightarrow>
     (if te_typeflag e = SALT_TAR_FILE \<or> te_typeflag e = CHR 0x00 then length (te_data e) = te_size e else te_data e = []) \<and>
     sublist (te_data e) data"

lemma header_entry_bounds:
  assumes "has_data (h ! 156) \<Longrightarrow> parse_octal (take 12 (drop 124 h)) \<le> length p"
  shows "entry_in_bounds p (header_entry ln ll h p)"
  using assms by (auto simp: entry_in_bounds_def header_entry_def Let_def has_data_def)

lemma entry_in_bounds_drop: "entry_in_bounds (drop n data) e \<Longrightarrow> entry_in_bounds data e"
  unfolding entry_in_bounds_def using sublist_order.order_trans [OF _ sublist_drop] by blast

lemma tar_entries_bounds: "list_all (entry_in_bounds data) (fst (tar_entries ln ll data))"
proof (induction ln ll data rule: tar_entries.induct)
  case (1 ln ll data)
  let ?h = "take TAR_BLOCK data" and ?p = "drop TAR_BLOCK data"
  let ?sz = "parse_octal (take 12 (drop 124 ?h))" and ?tf = "?h ! 156"
  have lift: "list_all (entry_in_bounds (drop n ?p)) es \<Longrightarrow> list_all (entry_in_bounds data) es" for n es
    unfolding list_all_iff by (auto dest: entry_in_bounds_drop simp: drop_drop)
  show ?case
  proof (cases "length data < TAR_BLOCK \<or> list_all (\<lambda>c. c = CHR 0x00) ?h \<or> has_data ?tf \<and> ?sz > length ?p")
    case True
    then show ?thesis by (subst tar_entries.simps) (auto simp: Let_def)
  next
    case False
    have e: "entry_in_bounds data (header_entry ln ll ?h ?p)"
    proof (rule entry_in_bounds_drop [of TAR_BLOCK], rule header_entry_bounds)
      assume "has_data ?tf"
      then show "?sz \<le> length ?p" using False by (meson not_le)
    qed
    note n = False
    show ?thesis
    proof (cases "?tf = CHR ''L'' \<or> ?tf = CHR ''K''")
      case True
      obtain ln' ll' where r: "tar_entries ln ll data = tar_entries ln' ll' (drop (round_up_block ?sz) ?p)"
        "list_all (entry_in_bounds (drop (round_up_block ?sz) ?p)) (fst (tar_entries ln' ll' (drop (round_up_block ?sz) ?p)))"
      proof (cases "?tf = CHR ''L''")
        case True
        then show thesis using n "1.IH"(1) [OF _ refl refl _ refl refl] that
          by (subst (asm) tar_entries.simps) (auto simp: Let_def)
      next
        case False
        then show thesis using n \<open>?tf = CHR ''L'' \<or> ?tf = CHR ''K''\<close> "1.IH"(2) [OF _ refl refl _ refl refl] that
          by (subst (asm) tar_entries.simps) (auto simp: Let_def)
      qed
      then show ?thesis using lift by simp
    next
      case False
      define rest where "rest = (if ?tf = SALT_TAR_FILE \<or> ?tf = CHR 0x00 then drop (round_up_block ?sz) ?p else ?p)"
      have "list_all (entry_in_bounds rest) (fst (tar_entries None None rest))"
        unfolding rest_def using n False "1.IH"(3) [OF _ refl refl _ refl refl] by auto
      then have "list_all (entry_in_bounds data) (fst (tar_entries None None rest))"
        using lift [of 0] lift unfolding rest_def by (auto split: if_splits)
      moreover have "fst (tar_entries ln ll data) = header_entry ln ll ?h ?p # fst (tar_entries None None rest)"
        unfolding rest_def using n False by (subst tar_entries.simps) (simp add: Let_def)
      ultimately show ?thesis using e by simp
    qed
  qed
qed

text \<open>
  C15. The tar reader never reads beyond its input: for any bytes, the data of every entry it reports is a piece
  of the input, as long as the size field says for a regular file and empty for anything else.
\<close>

theorem tar_read_in_bounds:
  "list_all (\<lambda>e. (if te_typeflag e = SALT_TAR_FILE \<or> te_typeflag e = CHR 0x00
       then length (te_data e) = te_size e else te_data e = []) \<and> sublist (te_data e) data)
     (fst (tar_entries None None data))"
  using tar_entries_bounds [of data None None] by (simp add: entry_in_bounds_def [abs_def])

end
