(* ===== verification/Salt_Txn.thy ===== *)
theory Salt_Txn
  imports Salt_Tar
begin

text \<open>
  Transactions on the install root (\<^verbatim>\<open>src/halite/src/txn.c\<close>): installing an archive, removing a
  package, undoing what a transaction did to files, and rolling the last one back.

  A \<open>world\<close> is what these functions and their callers change: the install root's file system, the
  package manager's own files (index, signature, downloaded packages) by their path, the database
  and, per transaction, the directory \<^verbatim>\<open>state/txn-N\<close> with the backup tree, \<^verbatim>\<open>added.list\<close> and
  \<^verbatim>\<open>db.before\<close>.  The state directories are kept apart from the root's file system: packages with
  files below \<^verbatim>\<open>var/lib/salt\<close> are outside the model.
\<close>

section \<open>State\<close>

record salt_ctx =
  cx_root :: string
  cx_db_path :: string
  cx_state_dir :: string
  cx_snapshot_dir :: string
  cx_use_btrfs :: bool

record txn_state =
  ts_backup :: fs
  ts_added :: "string option"
  ts_before :: "tables option"

record world =
  w_fs :: fs
  w_files :: "string \<Rightarrow> string option"
  w_db :: salt_db
  w_state :: "int \<Rightarrow> txn_state option"

text \<open>
  A hook is a child process: \<open>env_hook\<close> says how the process ends and what it did to the file
  system, given the shell body, the variables it is run with and its time limit.
\<close>

datatype hook_outcome = HookForkFailed | HookWaitFailed | HookTimedOut | HookExited nat | HookSignaled nat

record hook_call =
  hc_pkg :: string
  hc_version :: string
  hc_old_version :: string
  hc_hook :: string
  hc_body :: string
  hc_timeout :: int

record env =
  env_io :: io_env
  env_sql :: sql_env
  env_getenv :: "string \<Rightarrow> string option"
  env_hook :: "hook_call \<Rightarrow> fs \<Rightarrow> hook_outcome \<times> fs"
  env_zst :: "string \<Rightarrow> salt_rc \<times> string"
  env_is_btrfs :: "string \<Rightarrow> bool"
  env_is_dir :: "string \<Rightarrow> bool"
  env_btrfs_snapshot :: "int \<Rightarrow> bool"
  env_btrfs_delete :: "string \<Rightarrow> bool"

abbreviation w_tab :: "world \<Rightarrow> tables" where
  "w_tab w \<equiv> db_tab (w_db w)"

definition upd_tab :: "(tables \<Rightarrow> salt_rc \<times> tables) \<Rightarrow> world \<Rightarrow> salt_rc \<times> world" where
  "upd_tab f w = (let (rc, t) = f (w_tab w) in (rc, w\<lparr>w_db := (w_db w)\<lparr>db_tab := t\<rparr>\<rparr>))"

definition upd_fs :: "(fs \<Rightarrow> salt_rc \<times> fs) \<Rightarrow> world \<Rightarrow> salt_rc \<times> world" where
  "upd_fs f w = (let (rc, fs) = f (w_fs w) in (rc, w\<lparr>w_fs := fs\<rparr>))"

definition empty_state :: txn_state where
  "empty_state = \<lparr>ts_backup = [], ts_added = None, ts_before = None\<rparr>"

definition state_of :: "world \<Rightarrow> int \<Rightarrow> txn_state" where
  "state_of w i = (case w_state w i of Some s \<Rightarrow> s | None \<Rightarrow> empty_state)"

definition upd_state :: "int \<Rightarrow> (txn_state \<Rightarrow> txn_state) \<Rightarrow> world \<Rightarrow> world" where
  "upd_state i f w = w\<lparr>w_state := (w_state w)(i \<mapsto> f (state_of w i))\<rparr>"

section \<open>Contexts and snapshots\<close>

definition salt_ctx_init :: "env \<Rightarrow> string \<Rightarrow> salt_ctx" where
  "salt_ctx_init env root =
     (let r = (if root = [] then ''/'' else root);
          snap = salt_join_path r ''.snapshots''
      in \<lparr>cx_root = r,
          cx_db_path = salt_join_path r ''var/lib/salt/db.sqlite'',
          cx_state_dir = salt_join_path r ''var/lib/salt/state'',
          cx_snapshot_dir = snap,
          cx_use_btrfs =
            (case env_getenv env ''SALT_BTRFS'' of
               Some (c # cs) \<Rightarrow> c = CHR ''1''
             | _ \<Rightarrow> env_is_btrfs env r \<and> env_is_dir env snap \<and> env_is_btrfs env snap)\<rparr>)"

text \<open>The copy of the database is best effort: a failing \<^verbatim>\<open>VACUUM INTO\<close> is not reported.\<close>

definition salt_snapshot_create :: "env \<Rightarrow> salt_ctx \<Rightarrow> int \<Rightarrow> world \<Rightarrow> (string option) \<times> world" where
  "salt_snapshot_create env ctx i w =
     (let w1 = upd_state i (\<lambda>s. s\<lparr>ts_before :=
                  (if sql_ok (env_sql env) (SqlVacuum i) then Some (w_tab w) else None)\<rparr>) w
      in if cx_use_btrfs ctx
         then (if env_btrfs_snapshot env i then (Some (''root-'' @ int_to_string i), w1) else (None, w1))
         else (Some (''txn-'' @ int_to_string i), w1))"

section \<open>Backups\<close>

text \<open>
  \<^verbatim>\<open>salt_copy_file\<close> keeps the permission bits only (\<^verbatim>\<open>st_mode & 0777\<close>), and \<^verbatim>\<open>readlink\<close> is
  given a buffer of 1023 bytes.
\<close>

primrec mask_node :: "node \<Rightarrow> node" where
  "mask_node (NReg data mode) = NReg data (mode mod 512)"
| "mask_node (NLnk target) = NLnk (take 1023 target)"
| "mask_node NDir = NDir"
| "mask_node NOther = NOther"

text \<open>A directory or special file has no backup, and that is not an error.\<close>

definition backup_file :: "io_env \<Rightarrow> key \<Rightarrow> fs \<Rightarrow> fs \<Rightarrow> salt_rc \<times> fs" where
  "backup_file io k fs bk =
     (case fs_get fs k of
        Some (NLnk t) \<Rightarrow>
          if io_ok io IoBackup k then (SALT_OK, fs_put k (mask_node (NLnk t)) bk) else (SALT_ERR_IO, fs_del k bk)
      | Some (NReg d m) \<Rightarrow>
          if io_ok io IoBackup k then (SALT_OK, fs_put k (mask_node (NReg d m)) bk) else (SALT_ERR_IO, bk)
      | _ \<Rightarrow> (SALT_OK, bk))"

definition backup_in :: "env \<Rightarrow> int \<Rightarrow> string \<Rightarrow> world \<Rightarrow> salt_rc \<times> world" where
  "backup_in env i path w =
     (let (rc, bk) = backup_file (env_io env) (path_key path) (w_fs w) (ts_backup (state_of w i))
      in (rc, upd_state i (\<lambda>s. s\<lparr>ts_backup := bk\<rparr>) w))"

definition append_added :: "env \<Rightarrow> int \<Rightarrow> string \<Rightarrow> world \<Rightarrow> salt_rc \<times> world" where
  "append_added env i added w =
     (if added = [] then (SALT_OK, w)
      else let all = (case ts_added (state_of w i) of Some s \<Rightarrow> s | None \<Rightarrow> []) @ added
           in if io_ok (env_io env) IoAdded []
              then (SALT_OK, upd_state i (\<lambda>s. s\<lparr>ts_added := Some all\<rparr>) w) else (SALT_ERR_IO, w))"

definition manifest_has :: "salt_manifest \<Rightarrow> string \<Rightarrow> bool" where
  "manifest_has m path \<longleftrightarrow> list_ex (\<lambda>e. me_path e = path) m"

definition manifest_check_confined :: "salt_manifest \<Rightarrow> salt_rc" where
  "manifest_check_confined m =
     (if list_all (\<lambda>e. salt_path_is_confined (me_path e)) m then SALT_OK else SALT_ERR_FORMAT)"

section \<open>Hooks\<close>

definition hook_timeout :: "env \<Rightarrow> int" where
  "hook_timeout env =
     (case env_getenv env ''SALT_HOOK_TIMEOUT'' of
        Some s \<Rightarrow> if c_atol s > 0 then c_atol s else 300
      | None \<Rightarrow> 300)"

definition run_hook :: "env \<Rightarrow> string \<Rightarrow> string option \<Rightarrow> string option \<Rightarrow> salt_hook_kind \<Rightarrow> string \<Rightarrow>
    world \<Rightarrow> salt_rc \<times> world" where
  "run_hook env pkg version old_version kind body w =
     (if env_getenv env ''SALT_SKIP_HOOKS'' = Some ''1'' then (SALT_OK, w)
      else let call = \<lparr>hc_pkg = pkg, hc_version = (case version of Some v \<Rightarrow> v | None \<Rightarrow> []),
                       hc_old_version = (case old_version of Some v \<Rightarrow> v | None \<Rightarrow> []),
                       hc_hook = salt_hook_name kind, hc_body = body, hc_timeout = hook_timeout env\<rparr>;
               (out, fs) = env_hook env call (w_fs w)
           in (if out = HookExited 0 then SALT_OK else SALT_ERR, w\<lparr>w_fs := fs\<rparr>))"

section \<open>Installing an archive\<close>

text \<open>
  One round of the first loop: a path owned by another package is a conflict; a path that exists
  is backed up, one that does not is noted in the buffer of added paths.
\<close>

definition scan_entry :: "env \<Rightarrow> int \<Rightarrow> string \<Rightarrow> salt_manifest_entry \<Rightarrow> string \<times> world \<Rightarrow> salt_rc \<times> string \<times> world" where
  "scan_entry env i pkg e s =
     (let (added, w) = s in
      if me_typeflag e = SALT_TAR_DIR then (SALT_OK, s)
      else if (case salt_db_owner (w_tab w) (me_path e) of Some ow \<Rightarrow> ow \<noteq> pkg | None \<Rightarrow> False)
        then (SALT_ERR_EXISTS, s)
      else if fs_get (w_fs w) (path_key (me_path e)) \<noteq> None
        then (let (rc, w1) = backup_in env i (me_path e) w in (rc, added, w1))
      else (SALT_OK, added @ me_path e @ [CHR 0x0A], w))"

definition drop_obsolete :: "env \<Rightarrow> int \<Rightarrow> salt_manifest \<Rightarrow> salt_manifest_entry \<Rightarrow> world \<Rightarrow> salt_rc \<times> world" where
  "drop_obsolete env i new e w =
     (if me_typeflag e = SALT_TAR_DIR \<or> manifest_has new (me_path e) \<or> \<not> salt_path_is_confined (me_path e)
      then (SALT_OK, w)
      else and_then (backup_in env i (me_path e) w)
             (\<lambda>w. (SALT_OK, w\<lparr>w_fs := fs_unlink (env_io env) (path_key (me_path e)) (w_fs w)\<rparr>)))"

definition scan_manifest :: "env \<Rightarrow> int \<Rightarrow> salt_archive \<Rightarrow> world \<Rightarrow> salt_rc \<times> world" where
  "scan_manifest env i ar w =
     (let (rc, added, w1) = rc_fold (scan_entry env i (pm_name (ar_meta ar))) (ar_manifest ar) ([], w)
      in and_then (rc, w1) (append_added env i added))"

definition install_hook :: "env \<Rightarrow> salt_archive \<Rightarrow> bool \<Rightarrow> string option \<Rightarrow> world \<Rightarrow> salt_rc \<times> world" where
  "install_hook env ar upgrade old_version w =
     (let kind = (if upgrade then SALT_HOOK_POST_UPGRADE else SALT_HOOK_POST_INSTALL) in
      case pm_hooks (ar_meta ar) kind of
        None \<Rightarrow> (SALT_OK, w)
      | Some body \<Rightarrow>
          run_hook env (pm_name (ar_meta ar)) (Some (pm_version (ar_meta ar))) old_version kind body w)"

definition salt_install_archive ::
    "env \<Rightarrow> salt_archive \<Rightarrow> string \<Rightarrow> string \<Rightarrow> int \<Rightarrow> world \<Rightarrow> salt_rc \<times> world" where
  "salt_install_archive env ar repo sig i w =
     (let name = pm_name (ar_meta ar) in
      if manifest_check_confined (ar_manifest ar) \<noteq> SALT_OK
      then (manifest_check_confined (ar_manifest ar), w)
      else let upgrade = salt_db_is_installed (w_tab w) name;
               old = (if upgrade then salt_db_pkg_manifest (w_tab w) name else []);
               old_version = (if upgrade then map_option dp_version (salt_db_get_pkg (w_tab w) name) else None)
           in and_then (and_then (and_then (and_then
                (scan_manifest env i ar w)
                (upd_fs (salt_archive_extract_payload (env_zst env) (env_io env) ar)))
                (rc_fold (drop_obsolete env i (ar_manifest ar)) old))
                (install_hook env ar upgrade old_version))
                (upd_tab (salt_db_record_install (env_sql env) (ar_meta ar) (ar_manifest ar) repo sig i)))"

section \<open>Removing a package\<close>

definition remove_entry :: "env \<Rightarrow> int \<Rightarrow> salt_manifest_entry \<Rightarrow> world \<Rightarrow> salt_rc \<times> world" where
  "remove_entry env i e w =
     (if \<not> salt_path_is_confined (me_path e) then (SALT_OK, w)
      else if me_typeflag e = SALT_TAR_DIR
        then (SALT_OK, w\<lparr>w_fs := fs_rmdir (env_io env) (path_key (me_path e)) (w_fs w)\<rparr>)
      else and_then (backup_in env i (me_path e) w)
             (\<lambda>w. (SALT_OK, w\<lparr>w_fs := fs_unlink (env_io env) (path_key (me_path e)) (w_fs w)\<rparr>)))"

definition opt_hook :: "env \<Rightarrow> string \<Rightarrow> string option \<Rightarrow> salt_hook_kind \<Rightarrow> string option \<Rightarrow> world \<Rightarrow> salt_rc \<times> world" where
  "opt_hook env name version kind body w =
     (case body of None \<Rightarrow> (SALT_OK, w) | Some b \<Rightarrow> run_hook env name version None kind b w)"

text \<open>A failing \<^verbatim>\<open>post_remove\<close> hook is a warning: the files are gone.\<close>

definition salt_remove_pkg :: "env \<Rightarrow> string \<Rightarrow> int \<Rightarrow> world \<Rightarrow> salt_rc \<times> world" where
  "salt_remove_pkg env name i w =
     (if \<not> salt_db_is_installed (w_tab w) name then (SALT_ERR_NOTFOUND, w)
      else let pre = salt_db_pkg_hook (w_tab w) name SALT_HOOK_PRE_REMOVE;
               post = salt_db_pkg_hook (w_tab w) name SALT_HOOK_POST_REMOVE;
               version = map_option dp_version (salt_db_get_pkg (w_tab w) name);
               man = salt_db_pkg_manifest (w_tab w) name
           in and_then (and_then (and_then
                (opt_hook env name version SALT_HOOK_PRE_REMOVE pre w)
                (rc_fold (remove_entry env i) man))
                (upd_tab (salt_db_record_remove (env_sql env) name)))
                (\<lambda>w. (SALT_OK, snd (opt_hook env name version SALT_HOOK_POST_REMOVE post w))))"

section \<open>Undoing\<close>

text \<open>The lines of \<^verbatim>\<open>added.list\<close>: a line is unlinked when it names a path inside the root.\<close>

definition unlink_added :: "env \<Rightarrow> string \<Rightarrow> fs \<Rightarrow> fs" where
  "unlink_added env line fs =
     (if salt_path_is_confined line then fs_unlink (env_io env) (path_key line) fs else fs)"

text \<open>
  One file of the backup tree put back: its parent directories are made, a link is replaced, a
  regular file is copied.  No failure is reported.
\<close>

definition restore_node :: "env \<Rightarrow> key \<Rightarrow> node \<Rightarrow> fs \<Rightarrow> fs" where
  "restore_node env k n fs =
     (case n of
        NLnk t \<Rightarrow>
          (let fs1 = snd (salt_mkdirs (env_io env) (butlast k) fs)
           in snd (fs_symlink (env_io env) IoRestore (take 1023 t) k (fs_unlink (env_io env) k fs1)))
      | NReg d m \<Rightarrow> snd (salt_write_file (env_io env) IoRestore k d (m mod 512) fs)
      | _ \<Rightarrow> fs)"

definition restore_tree :: "env \<Rightarrow> fs \<Rightarrow> fs \<Rightarrow> fs" where
  "restore_tree env backup fs = fold (\<lambda>p. restore_node env (fst p) (snd p)) backup fs"

definition salt_txn_revert_files :: "env \<Rightarrow> int \<Rightarrow> world \<Rightarrow> salt_rc \<times> world" where
  "salt_txn_revert_files env i w =
     (let s = state_of w i;
          fs1 = (case ts_added s of
                   None \<Rightarrow> w_fs w
                 | Some added \<Rightarrow> fold (unlink_added env) (split_on (CHR 0x0A) added) (w_fs w));
          fs2 = restore_tree env (ts_backup s) fs1
      in (SALT_OK, w\<lparr>w_fs := fs2\<rparr>))"

end
