(* ===== verification/Salt_Cli.thy ===== *)
theory Salt_Cli
  imports Salt_Toml Salt_Txn
begin

text \<open>
  The command line front end (\<^verbatim>\<open>src/salt/cli.cpp\<close>, \<^verbatim>\<open>cli.hpp\<close>): options, well-known paths, the
  configuration defaults, package references, the argument loop of \<^verbatim>\<open>cli_main\<close>, command dispatch and the
  decision to re-execute under sudo.  Output is not modelled; return codes are.
\<close>

section \<open>Types\<close>

record Options =
  o_root :: string
  o_repo :: string
  o_key :: string
  o_yes :: bool
  o_expose_mode :: string

definition default_options :: Options where
  "default_options = \<lparr>o_root = ''/'', o_repo = [], o_key = [], o_yes = False, o_expose_mode = []\<rparr>"

record PkgRef =
  pr_stratum :: string
  pr_pkg :: string
  pr_foreign :: bool

record RepoConf =
  rc_name :: string
  rc_source :: string
  rc_key :: string

text \<open>
  What the front end asks the system: \<open>sys_machine\<close> is \<^verbatim>\<open>uname\<close>'s machine field, \<open>sys_access\<close> is
  \<^verbatim>\<open>access (F_OK)\<close>, \<open>sys_conf_load\<close> evaluates a Lua configuration file (the Lua interpreter is an
  external library), \<open>sys_toml_file\<close> parses a TOML file, \<open>sys_getchar\<close> is the answer on standard input,
  \<open>sys_release\<close> is \<^verbatim>\<open>uname\<close>'s release field.  \<open>sys_toml\<close> is the TOML text parser, \<open>sys_http\<close> is what
  curl prints for a URL, \<open>sys_sha256\<close> and \<open>sys_verify\<close> (bytes, signature, public key) are libsodium's,
  \<open>sys_write_ok\<close> and \<open>sys_rename_ok\<close> say which writes of the package manager's own files succeed.
  \<open>sys_fmt_time\<close> is \<^verbatim>\<open>strftime\<close> on local time, \<open>sys_snapshot_fs\<close> the contents of a btrfs snapshot,
  \<open>sys_system\<close> the status of a shell command.
\<close>

record sys =
  sys_env :: env
  sys_machine :: "string option"
  sys_access :: "string \<Rightarrow> bool"
  sys_conf_load :: "string \<Rightarrow> salt_toml option"
  sys_toml_file :: "string \<Rightarrow> salt_toml option"
  sys_getchar :: "char option"
  sys_release :: "string option"
  sys_toml :: "string \<Rightarrow> salt_toml option"
  sys_http :: "string \<Rightarrow> string option"
  sys_sha256 :: "string \<Rightarrow> string"
  sys_verify :: "string \<Rightarrow> string \<Rightarrow> string \<Rightarrow> bool"
  sys_write_ok :: "string \<Rightarrow> bool"
  sys_rename_ok :: "string \<Rightarrow> bool"
  sys_fmt_time :: "int \<Rightarrow> string"
  sys_snapshot_fs :: "string \<Rightarrow> fs"
  sys_system :: "string \<Rightarrow> int"

section \<open>Architecture and paths\<close>

definition arch_detect :: "sys \<Rightarrow> string" where
  "arch_detect y =
     (case sys_machine y of
        Some m \<Rightarrow>
          if m = ''arm64'' \<or> m = ''aarch64'' then ''aarch64''
          else if m = ''amd64'' \<or> m = ''x86_64'' then ''x86_64''
          else m
      | None \<Rightarrow> ''x86_64'')"

definition path_join :: "string \<Rightarrow> string \<Rightarrow> string" where
  "path_join a b = salt_join_path a b"

definition db_path_for :: "Options \<Rightarrow> string" where
  "db_path_for opt = path_join (o_root opt) ''var/lib/salt/db.sqlite''"

definition cache_dir_for :: "sys \<Rightarrow> Options \<Rightarrow> string" where
  "cache_dir_for y opt = path_join (o_root opt) (''var/lib/salt/cache/'' @ arch_detect y)"

definition index_path_for :: "sys \<Rightarrow> Options \<Rightarrow> string" where
  "index_path_for y opt = path_join (o_root opt) (''var/lib/salt/repo/'' @ arch_detect y @ ''/index.toml'')"

definition trustdb_for :: "sys \<Rightarrow> Options \<Rightarrow> string" where
  "trustdb_for y opt =
     (case env_getenv (sys_env y) ''SALT_TRUSTDB'' of
        Some (c # cs) \<Rightarrow> c # cs
      | _ \<Rightarrow> path_join (o_root opt) ''var/lib/salt/trust.toml'')"

definition strata_db_path_for :: "Options \<Rightarrow> string" where
  "strata_db_path_for opt = path_join (o_root opt) ''var/lib/salt/strata.sqlite''"

section \<open>Configuration\<close>

definition load_salt_conf :: "sys \<Rightarrow> string \<Rightarrow> string \<Rightarrow> salt_toml option" where
  "load_salt_conf y root name =
     (let lua = path_join root (''etc/salt/'' @ name @ ''.lua'');
          legacy = path_join root (''etc/salt/'' @ name @ ''.conf'')
      in if sys_access y lua then sys_conf_load y lua
         else if \<not> sys_access y legacy then None
         else sys_toml_file y legacy)"

definition load_repo_conf :: "sys \<Rightarrow> Options \<Rightarrow> RepoConf" where
  "load_repo_conf y opt =
     (let t = load_salt_conf y (o_root opt) ''repo'';
          rc = (if t \<noteq> None
                then \<lparr>rc_name = salt_toml_string t ''repo'' ''current'',
                      rc_source = salt_toml_string t ''source'' [],
                      rc_key = salt_toml_string t ''key'' []\<rparr>
                else \<lparr>rc_name = ''current'', rc_source = [], rc_key = []\<rparr>);
          rc1 = (if o_repo opt \<noteq> [] then rc\<lparr>rc_source := o_repo opt\<rparr> else rc)
      in if o_key opt \<noteq> [] then rc1\<lparr>rc_key := o_key opt\<rparr> else rc1)"

definition confirm :: "sys \<Rightarrow> Options \<Rightarrow> bool" where
  "confirm y opt \<longleftrightarrow> o_yes opt \<or> sys_getchar y = Some (CHR ''y'') \<or> sys_getchar y = Some (CHR ''Y'')"

definition auto_expose_mode :: "sys \<Rightarrow> Options \<Rightarrow> string" where
  "auto_expose_mode y opt =
     (if o_expose_mode opt \<noteq> [] then o_expose_mode opt
      else let t = load_salt_conf y (o_root opt) ''salt'';
               v = (if t \<noteq> None then salt_toml_string t ''install.auto_expose'' ''prompt'' else ''prompt'');
               mode = (if v \<noteq> [] then v else ''prompt'')
           in if mode \<noteq> ''always'' \<and> mode \<noteq> ''never'' \<and> mode \<noteq> ''prompt'' then ''prompt'' else mode)"

definition conf_bool :: "sys \<Rightarrow> Options \<Rightarrow> string \<Rightarrow> bool \<Rightarrow> bool" where
  "conf_bool y opt k d =
     (case load_salt_conf y (o_root opt) ''salt'' of Some t \<Rightarrow> salt_toml_bool (Some t) k d | None \<Rightarrow> d)"

definition expose_pm_enabled :: "sys \<Rightarrow> Options \<Rightarrow> bool" where
  "expose_pm_enabled y opt \<longleftrightarrow> o_expose_mode opt \<noteq> ''never'' \<and> conf_bool y opt ''strata.expose_pm'' True"

definition expose_all_enabled :: "sys \<Rightarrow> Options \<Rightarrow> bool" where
  "expose_all_enabled y opt \<longleftrightarrow>
     o_expose_mode opt \<noteq> ''never'' \<and>
     (o_expose_mode opt = ''always'' \<or> conf_bool y opt ''strata.expose_all'' False)"

definition auto_service_enabled :: "sys \<Rightarrow> Options \<Rightarrow> bool" where
  "auto_service_enabled y opt \<longleftrightarrow> o_expose_mode opt \<noteq> ''never'' \<and> conf_bool y opt ''strata.auto_service'' True"

section \<open>Package references\<close>

definition parse_pkgref :: "string \<Rightarrow> PkgRef" where
  "parse_pkgref arg =
     (case find_char (CHR ''/'') arg of
        None \<Rightarrow> \<lparr>pr_stratum = [], pr_pkg = arg, pr_foreign = False\<rparr>
      | Some p \<Rightarrow>
          if p = 0 \<or> p + 1 \<ge> length arg then \<lparr>pr_stratum = [], pr_pkg = arg, pr_foreign = False\<rparr>
          else \<lparr>pr_stratum = take p arg, pr_pkg = drop (p + 1) arg, pr_foreign = True\<rparr>)"

section \<open>Dispatch\<close>

datatype command =
    CmdSync | CmdSearch | CmdInstall | CmdRemove | CmdUpdate | CmdRollback | CmdDeployments | CmdPin
  | CmdBoot | CmdVerify | CmdQuery | CmdClean | CmdGc | CmdFiles | CmdOwner | CmdWhich | CmdList
  | CmdBuild | CmdLint | CmdEval | CmdSign | CmdRepo | CmdKeygen | CmdTrust | CmdStratum | CmdRun
  | CmdPkg | CmdPm | CmdExpose | CmdUnexpose | CmdExposed | CmdExposeDesktop | CmdExposeAll
  | CmdProvider | CmdService | CmdConfig | CmdLock

definition command_table :: "(string \<times> command) list" where
  "command_table =
     [(''sync'', CmdSync), (''search'', CmdSearch), (''install'', CmdInstall), (''remove'', CmdRemove),
      (''update'', CmdUpdate), (''rollback'', CmdRollback), (''deployments'', CmdDeployments),
      (''history'', CmdDeployments), (''pin'', CmdPin), (''boot'', CmdBoot), (''verify'', CmdVerify),
      (''query'', CmdQuery), (''info'', CmdQuery), (''show'', CmdQuery), (''clean'', CmdClean),
      (''gc'', CmdGc), (''files'', CmdFiles), (''owner'', CmdOwner), (''which'', CmdWhich),
      (''list'', CmdList), (''build'', CmdBuild), (''lint'', CmdLint), (''eval'', CmdEval),
      (''sign'', CmdSign), (''repo'', CmdRepo), (''keygen'', CmdKeygen), (''trust'', CmdTrust),
      (''stratum'', CmdStratum), (''run'', CmdRun), (''pkg'', CmdPkg), (''pm'', CmdPm),
      (''expose'', CmdExpose), (''unexpose'', CmdUnexpose), (''exposed'', CmdExposed),
      (''expose-desktop'', CmdExposeDesktop), (''expose-all'', CmdExposeAll),
      (''provider'', CmdProvider), (''service'', CmdService), (''config'', CmdConfig), (''lock'', CmdLock)]"

text \<open>The handler and its arguments; \<^const>\<open>None\<close> is the usage message and exit code 2.\<close>

definition dispatch :: "string \<Rightarrow> string list \<Rightarrow> (command \<times> string list) option" where
  "dispatch cmd args =
     (case map_of command_table cmd of
        Some h \<Rightarrow> Some (h, args)
      | None \<Rightarrow>
          if CHR ''/'' \<in> set cmd \<and> \<not> starts_with cmd ''/''
          then let r = parse_pkgref cmd in Some (CmdRun, pr_stratum r # pr_pkg r # args)
          else None)"

definition root_cmds :: "string list" where
  "root_cmds =
     [''pkg'', ''pm'', ''stratum'', ''expose'', ''unexpose'', ''expose-desktop'', ''expose-all'',
      ''service'', ''install'', ''remove'', ''update'', ''sync'', ''rollback'', ''pin'',
      ''boot'', ''lock'', ''clean'', ''gc'']"

definition cmd_needs_root :: "string \<Rightarrow> bool" where
  "cmd_needs_root cmd \<longleftrightarrow> cmd \<in> set root_cmds"

text \<open>
  \<^verbatim>\<open>root_is_writable\<close>: \<open>probe p\<close> is the result of \<^verbatim>\<open>access (p, W_OK | X_OK)\<close>, with \<^verbatim>\<open>ENOENT\<close> told
  apart from the other failures.
\<close>

datatype access_result = AccessOk | AccessEnoent | AccessDenied

definition strip_trailing_slashes :: "string \<Rightarrow> string" where
  "strip_trailing_slashes s =
     (let r = strip_back (\<lambda>c. c = CHR ''/'') s in if r = [] then take 1 s else r)"

definition root_is_writable :: "(string \<Rightarrow> access_result) \<Rightarrow> string \<Rightarrow> bool" where
  "root_is_writable probe root =
     (let p = (if root = [] then ''.'' else root);
          parent0 = strip_trailing_slashes p;
          parent = (case rfind_char (CHR ''/'') parent0 of
                      None \<Rightarrow> ''.''
                    | Some i \<Rightarrow> if i = 0 then ''/'' else take i parent0)
      in case probe p of
           AccessOk \<Rightarrow> True
         | AccessEnoent \<Rightarrow> probe parent = AccessOk
         | AccessDenied \<Rightarrow> False)"

text \<open>Whether \<^verbatim>\<open>reexec_root_if_needed\<close> reaches the \<^verbatim>\<open>execvp\<close> of sudo.\<close>

definition reexec_root_if_needed ::
    "(string \<Rightarrow> access_result) \<Rightarrow> bool \<Rightarrow> Options \<Rightarrow> string \<Rightarrow> string list \<Rightarrow> bool" where
  "reexec_root_if_needed probe euid0 opt cmd rest \<longleftrightarrow>
     \<not> euid0 \<and> cmd_needs_root cmd \<and>
     \<not> (cmd = ''stratum'' \<and> rest \<noteq> [] \<and> hd rest \<in> {''lint'', ''list'', ''status''}) \<and>
     \<not> (o_root opt \<noteq> ''/'' \<and> root_is_writable probe (o_root opt))"

section \<open>The argument loop\<close>

datatype cli_result = CliExit int | CliRun Options string "string list"

fun cli_args :: "Options \<Rightarrow> string list \<Rightarrow> cli_result" where
  "cli_args opt [] = CliExit 2"
| "cli_args opt (a # as) =
     (if a = ''--root'' \<and> as \<noteq> [] then cli_args (opt\<lparr>o_root := hd as\<rparr>) (tl as)
      else if a = ''--repo'' \<and> as \<noteq> [] then cli_args (opt\<lparr>o_repo := hd as\<rparr>) (tl as)
      else if a = ''--key'' \<and> as \<noteq> [] then cli_args (opt\<lparr>o_key := hd as\<rparr>) (tl as)
      else if a = ''--yes'' \<or> a = ''-y'' then cli_args (opt\<lparr>o_yes := True\<rparr>) as
      else if a = ''--expose'' then cli_args (opt\<lparr>o_expose_mode := ''always''\<rparr>) as
      else if a = ''--no-expose'' then cli_args (opt\<lparr>o_expose_mode := ''never''\<rparr>) as
      else if a = ''-h'' \<or> a = ''--help'' then CliExit 0
      else if a = ''--version'' \<or> a = ''-V'' then CliExit 0
      else if a \<noteq> [] \<and> hd a = CHR ''-'' then CliExit 2
      else if a = [] then cli_args opt as
      else CliRun opt a as)"

definition cli_main :: "string list \<Rightarrow> cli_result" where
  "cli_main args =
     (case cli_args default_options args of
        CliExit n \<Rightarrow> CliExit n
      | CliRun opt cmd rest \<Rightarrow> if dispatch cmd rest = None then CliExit 2 else CliRun opt cmd rest)"

section \<open>A system for examples\<close>

text \<open>Every call succeeds, no configuration file exists and hooks do nothing.\<close>

definition ex_env :: env where
  "ex_env = \<lparr>env_io = \<lparr>io_ok = \<lambda>op k. True, io_within = \<lambda>fs k. True\<rparr>,
     env_sql = \<lparr>sql_ok = \<lambda>s. True, sql_now = 0\<rparr>, env_getenv = \<lambda>v. None,
     env_hook = \<lambda>call fs. (HookExited 0, fs), env_zst = \<lambda>s. (SALT_OK, s), env_is_btrfs = \<lambda>p. False,
     env_is_dir = \<lambda>p. False, env_btrfs_snapshot = \<lambda>i. False, env_btrfs_delete = \<lambda>p. False\<rparr>"

definition ex_sys :: sys where
  "ex_sys = \<lparr>sys_env = ex_env, sys_machine = Some ''x86_64'', sys_access = \<lambda>p. False,
     sys_conf_load = \<lambda>p. None, sys_toml_file = \<lambda>p. None, sys_getchar = None, sys_release = Some ''6.1'',
     sys_toml = \<lambda>s. None, sys_http = \<lambda>u. None, sys_sha256 = \<lambda>s. [], sys_verify = \<lambda>d s k. True,
     sys_write_ok = \<lambda>p. True, sys_rename_ok = \<lambda>p. True, sys_fmt_time = \<lambda>n. [], sys_snapshot_fs = \<lambda>s. [],
     sys_system = \<lambda>c. 0\<rparr>"

end
