(* ===== verification/Salt_Repo.thy ===== *)
theory Salt_Repo
  imports Salt_Prelude
begin

text \<open>
  The repository index of \<^verbatim>\<open>src/halite/src/repo.c\<close>: its entries, the checks \<^verbatim>\<open>salt sync\<close> runs on it
  before it is installed, the natural version comparison and the lookups the resolver uses.

  \<open>salt_vercmp\<close> is proved to be the lexicographic comparison of token sequences
  (\<open>salt_vercmp_refines\<close>), hence a total preorder (locale \<open>version_cmp\<close>, interpreted on it), hence
  \<open>salt_repo_index_find\<close> returns a newest entry.
\<close>

section \<open>Entries and indexes\<close>

record salt_repo_entry =
  re_name :: string
  re_version :: string
  re_release :: int
  re_arch :: string
  re_filename :: string
  re_url :: "string option"
  re_sha256 :: string
  re_size :: nat
  re_summary :: string
  re_deps :: "string list"
  re_conflicts :: "string list"

record salt_repo_index =
  ri_items :: "salt_repo_entry list"
  ri_repo_name :: string
  ri_arch :: string

section \<open>Digests and index verification\<close>

definition SALT_SHA256_HEXLEN :: nat where
  "SALT_SHA256_HEXLEN = 64"

definition salt_sha256_hex_valid :: "string \<Rightarrow> bool" where
  "salt_sha256_hex_valid hex \<longleftrightarrow>
     list_all (\<lambda>c. isxdigit c \<and> \<not> isupper c) hex \<and> length hex = SALT_SHA256_HEXLEN"

definition salt_repo_entry_hash_ok :: "salt_repo_entry \<Rightarrow> bool" where
  "salt_repo_entry_hash_ok e = salt_sha256_hex_valid (re_sha256 e)"

text \<open>What \<^verbatim>\<open>salt_repo_index_verify\<close> may report of one entry, in the order of its tests.\<close>

datatype index_problem =
    MissingName nat
  | MissingVersion string
  | MissingFilename string
  | MissingSha256 string
  | BadSha256 string string
  | BadFilename string string

definition entry_problem :: "nat \<Rightarrow> salt_repo_entry \<Rightarrow> index_problem option" where
  "entry_problem i e =
     (if re_name e = [] then Some (MissingName i)
      else if re_version e = [] then Some (MissingVersion (re_name e))
      else if re_filename e = [] then Some (MissingFilename (re_name e))
      else if re_sha256 e = [] then Some (MissingSha256 (re_name e))
      else if \<not> salt_sha256_hex_valid (re_sha256 e) then Some (BadSha256 (re_name e) (re_sha256 e))
      else if CHR ''/'' \<in> set (re_filename e) \<or> re_filename e = ''..''
        then Some (BadFilename (re_name e) (re_filename e))
      else None)"

fun verify_entries :: "nat \<Rightarrow> salt_repo_entry list \<Rightarrow> index_problem list" where
  "verify_entries i [] = []"
| "verify_entries i (e # es) =
     (case entry_problem i e of None \<Rightarrow> [] | Some p \<Rightarrow> [p]) @ verify_entries (Suc i) es"

definition salt_repo_index_verify :: "salt_repo_index \<Rightarrow> salt_rc \<times> index_problem list" where
  "salt_repo_index_verify idx =
     (let ps = verify_entries 0 (ri_items idx)
      in (if ps = [] then SALT_OK else SALT_ERR_VERIFY, ps))"

section \<open>Natural version comparison\<close>

lemma dropWhile_shorter: "p c \<Longrightarrow> length (dropWhile p (dropWhile q (c # cs))) < Suc (length cs)"
  by (metis dropWhile.simps(2) dropWhile_eq_drop length_drop length_dropWhile_le less_Suc_eq_le
      list.size(4) One_nat_def add.right_neutral add_Suc_right diff_le_self le_trans)

function salt_vercmp :: "string \<Rightarrow> string \<Rightarrow> int" where
  "salt_vercmp [] [] = 0"
| "salt_vercmp (a # as) [] = 1"
| "salt_vercmp [] (b # bs) = -1"
| "salt_vercmp (a # as) (b # bs) =
     (if isdigit a \<and> isdigit b then
        (let a1 = dropWhile (\<lambda>c. c = CHR ''0'') (a # as);
             b1 = dropWhile (\<lambda>c. c = CHR ''0'') (b # bs);
             da = takeWhile isdigit a1;
             db = takeWhile isdigit b1
         in if length da \<noteq> length db then (if length da < length db then -1 else 1)
            else if c_strcmp da db \<noteq> 0 then (if c_strcmp da db < 0 then -1 else 1)
            else salt_vercmp (dropWhile isdigit a1) (dropWhile isdigit b1))
      else if isdigit a then 1
      else if isdigit b then -1
      else if a \<noteq> b then (if (of_char a :: nat) < of_char b then -1 else 1)
      else salt_vercmp as bs)"
  by pat_completeness auto

termination
  by (relation "measure (\<lambda>(a, b). length a)") (auto simp del: dropWhile.simps intro!: dropWhile_shorter)

section \<open>Lookups\<close>

definition newer_entry :: "salt_repo_entry \<Rightarrow> salt_repo_entry \<Rightarrow> bool" where
  "newer_entry e best \<longleftrightarrow>
     (let vc = salt_vercmp (re_version e) (re_version best)
      in vc > 0 \<or> (vc = 0 \<and> re_release e > re_release best))"

fun find_newest :: "string \<Rightarrow> salt_repo_entry option \<Rightarrow> salt_repo_entry list \<Rightarrow> salt_repo_entry option"
where
  "find_newest name best [] = best"
| "find_newest name best (e # es) =
     (if re_name e \<noteq> name then find_newest name best es
      else case best of
             None \<Rightarrow> find_newest name (Some e) es
           | Some b \<Rightarrow> find_newest name (Some (if newer_entry e b then e else b)) es)"

definition salt_repo_index_find :: "salt_repo_index \<Rightarrow> string \<Rightarrow> salt_repo_entry option" where
  "salt_repo_index_find idx name = find_newest name None (ri_items idx)"

definition salt_repo_index_find_exact ::
    "salt_repo_index \<Rightarrow> string \<Rightarrow> string \<Rightarrow> int \<Rightarrow> salt_repo_entry option" where
  "salt_repo_index_find_exact idx name version release =
     find (\<lambda>e. re_name e = name \<and> re_version e = version \<and> re_release e = release) (ri_items idx)"

section \<open>The abstract comparison: token sequences\<close>

text \<open>
  A version is a sequence of tokens: every maximal run of digits is one number, every other byte
  is a token of its own, and a number is newer than any byte.
\<close>

datatype vtok = VChar nat | VNum nat

instantiation vtok :: linorder
begin

fun less_eq_vtok :: "vtok \<Rightarrow> vtok \<Rightarrow> bool" where
  "less_eq_vtok (VChar m) (VChar n) = (m \<le> n)"
| "less_eq_vtok (VNum m) (VNum n) = (m \<le> n)"
| "less_eq_vtok (VChar m) (VNum n) = True"
| "less_eq_vtok (VNum m) (VChar n) = False"

definition less_vtok :: "vtok \<Rightarrow> vtok \<Rightarrow> bool" where
  "less_vtok x y \<longleftrightarrow> x \<le> y \<and> \<not> y \<le> (x :: vtok)"

instance
proof
  fix x y z :: vtok
  show "(x < y) = (x \<le> y \<and> \<not> y \<le> x)" by (rule less_vtok_def)
  show "x \<le> x" by (cases x) auto
  show "x \<le> y \<Longrightarrow> y \<le> z \<Longrightarrow> x \<le> z" by (cases x; cases y; cases z) auto
  show "x \<le> y \<Longrightarrow> y \<le> x \<Longrightarrow> x = y" by (cases x; cases y) auto
  show "x \<le> y \<or> y \<le> x" by (cases x; cases y) auto
qed

end

lemma less_vtok_simps [simp]:
  "VChar m < VChar n \<longleftrightarrow> m < n"
  "VNum m < VNum n \<longleftrightarrow> m < n"
  "VChar m < VNum n"
  "\<not> VNum m < VChar n"
  by (auto simp: less_vtok_def)

definition digits_val :: "string \<Rightarrow> nat" where
  "digits_val s = foldl (\<lambda>v c. 10 * v + (of_char c - 48)) 0 s"

function vtokens :: "string \<Rightarrow> vtok list" where
  "vtokens [] = []"
| "vtokens (c # cs) =
     (if isdigit c
      then VNum (digits_val (takeWhile isdigit (c # cs))) # vtokens (dropWhile isdigit (c # cs))
      else VChar (of_char c) # vtokens cs)"
  by pat_completeness auto
termination
  by (relation "measure length") (auto simp: less_Suc_eq_le length_dropWhile_le)

definition three_way :: "'a::linorder \<Rightarrow> 'a \<Rightarrow> int" where
  "three_way x y = (if x < y then -1 else if x = y then 0 else 1)"

lemma three_way_Nil [simp]: "three_way [] [] = 0" "three_way [] (y # ys) = -1"
    "three_way (x # xs) [] = 1"
  by (auto simp: three_way_def)

lemma three_way_Cons:
  "three_way (x # xs) (y # ys) = (if three_way x y \<noteq> 0 then three_way x y else three_way xs ys)"
  by (auto simp: three_way_def)

subsection \<open>Digit runs are numbers\<close>

lemma digits_val_Nil [simp]: "digits_val [] = 0"
  by (simp add: digits_val_def)

lemma foldl_digits: "foldl (\<lambda>v c. 10 * v + (of_char c - 48)) v s = v * 10 ^ length s + digits_val s"
proof (induction s arbitrary: v)
  case Nil
  then show ?case by simp
next
  case (Cons c cs)
  let ?f = "\<lambda>v c. 10 * v + (of_char c - 48 :: nat)" and ?d = "of_char c - 48 :: nat"
  have "digits_val (c # cs) = foldl ?f ?d cs" by (simp add: digits_val_def)
  also have "\<dots> = ?d * 10 ^ length cs + digits_val cs" by (rule Cons.IH)
  finally have d: "digits_val (c # cs) = ?d * 10 ^ length cs + digits_val cs" .
  have "foldl ?f v (c # cs) = (10 * v + ?d) * 10 ^ length cs + digits_val cs"
    using Cons.IH [of "10 * v + ?d"] by simp
  then show ?case by (simp only: d) (simp add: algebra_simps)
qed

lemma digits_val_Cons: "digits_val (c # cs) = (of_char c - 48) * 10 ^ length cs + digits_val cs"
  using foldl_digits [of "of_char c - 48" cs] by (simp add: digits_val_def)

lemma digits_val_bound: "list_all isdigit s \<Longrightarrow> digits_val s < 10 ^ length s"
proof (induction s)
  case Nil
  then show ?case by simp
next
  case (Cons c cs)
  then have "of_char c - 48 \<le> (9 :: nat)" "digits_val cs < 10 ^ length cs"
    by (auto simp: isdigit_def)
  then have "(of_char c - 48) * 10 ^ length cs + digits_val cs < 9 * 10 ^ length cs + 10 ^ length cs"
    by (meson add_le_less_mono mult_le_mono1)
  then show ?case by (simp add: digits_val_Cons)
qed

lemma digits_val_ge: "list_all isdigit (c # cs) \<Longrightarrow> c \<noteq> CHR ''0'' \<Longrightarrow> 10 ^ length cs \<le> digits_val (c # cs)"
proof -
  assume d: "list_all isdigit (c # cs)" and z: "c \<noteq> CHR ''0''"
  have "(of_char c :: nat) \<noteq> of_char CHR ''0''" using z by (simp only: of_char_eq_iff) simp
  then have "1 \<le> (of_char c :: nat) - 48" using d by (auto simp: isdigit_def)
  then have "1 * 10 ^ length cs \<le> (of_char c - 48) * (10 :: nat) ^ length cs" by (rule mult_le_mono1)
  then show ?thesis unfolding digits_val_Cons by linarith
qed

lemma digits_val_strip: "digits_val (dropWhile (\<lambda>c. c = CHR ''0'') s) = digits_val s"
  by (induction s) (auto simp: digits_val_Cons)

lemma digits_val_same_length:
  assumes "length s = length t" "list_all isdigit s" "list_all isdigit t"
  shows "three_way (digits_val s) (digits_val t) = three_way s t"
  using assms
proof (induction s t rule: list_induct2)
  case Nil
  then show ?case by (simp add: three_way_def)
next
  case (Cons x xs y ys)
  let ?dx = "(of_char x :: nat) - 48" and ?dy = "(of_char y :: nat) - 48"
  have bx: "digits_val xs < 10 ^ length xs" and by': "digits_val ys < 10 ^ length xs"
    using Cons digits_val_bound [of xs] digits_val_bound [of ys] by auto
  have le: "?dx < ?dy \<longleftrightarrow> x < y" "?dy < ?dx \<longleftrightarrow> y < x"
    using Cons.prems by (auto simp: less_char_def isdigit_def)
  have lt: "a * 10 ^ length xs + u < b * 10 ^ length xs + v"
    if "a < b" "u < 10 ^ length xs" for a b u v :: nat
  proof -
    have "a * 10 ^ length xs + u < Suc a * 10 ^ length xs" using that(2) by simp
    also have "\<dots> \<le> b * 10 ^ length xs" using that(1) by (intro mult_le_mono1) simp
    finally show ?thesis by simp
  qed
  consider "x < y" | "y < x" | "x = y" by (meson linorder_cases)
  then show ?case
  proof cases
    case 1
    then have "digits_val (x # xs) < digits_val (y # ys)"
      using lt [of ?dx ?dy "digits_val xs" "digits_val ys"] bx le Cons.hyps by (simp add: digits_val_Cons)
    then show ?thesis using 1 by (auto simp: three_way_def)
  next
    case 2
    then have "digits_val (y # ys) < digits_val (x # xs)"
      using lt [of ?dy ?dx "digits_val ys" "digits_val xs"] by' le Cons.hyps by (simp add: digits_val_Cons)
    then show ?thesis using 2 by (auto simp: three_way_def)
  next
    case 3
    then have "three_way (digits_val (x # xs)) (digits_val (y # ys)) = three_way (digits_val xs) (digits_val ys)"
      using Cons.hyps by (simp add: digits_val_Cons three_way_def)
    then show ?thesis using 3 Cons by (simp add: three_way_Cons) (simp add: three_way_def)
  qed
qed

lemma digits_val_shorter:
  assumes "length s < length t" "list_all isdigit s" "list_all isdigit t"
    and "t \<noteq> [] \<Longrightarrow> hd t \<noteq> CHR ''0''"
  shows "digits_val s < digits_val t"
proof -
  from assms(1) obtain c cs where t: "t = c # cs" by (cases t) auto
  have "digits_val s < 10 ^ length s" using assms(2) by (rule digits_val_bound)
  also have "\<dots> \<le> (10 :: nat) ^ length cs" using assms(1) t by (intro power_increasing) auto
  also have "\<dots> \<le> digits_val t" using assms(3,4) t digits_val_ge [of c cs] by simp
  finally show ?thesis .
qed

subsection \<open>The loop computes the abstract comparison\<close>

lemma dropWhile_zero_digits:
  "dropWhile isdigit (dropWhile (\<lambda>c. c = CHR ''0'') s) = dropWhile isdigit s"
  "takeWhile isdigit (dropWhile (\<lambda>c. c = CHR ''0'') s) =
     dropWhile (\<lambda>c. c = CHR ''0'') (takeWhile isdigit s)"
  by (induction s) (auto simp: isdigit_def)

lemma list_all_isdigit_run: "list_all isdigit (dropWhile p (takeWhile isdigit s))"
  by (auto simp: list_all_iff dest: set_takeWhileD set_dropWhileD)

lemma hd_dropWhile_zero: "dropWhile (\<lambda>c. c = CHR ''0'') s \<noteq> [] \<Longrightarrow>
    hd (dropWhile (\<lambda>c. c = CHR ''0'') s) \<noteq> CHR ''0''"
  using hd_dropWhile by blast

lemma digit_runs_compare:
  fixes s t :: string
  defines "da \<equiv> dropWhile (\<lambda>c. c = CHR ''0'') (takeWhile isdigit s)"
    and "db \<equiv> dropWhile (\<lambda>c. c = CHR ''0'') (takeWhile isdigit t)"
  shows "three_way (digits_val (takeWhile isdigit s)) (digits_val (takeWhile isdigit t)) =
    (if length da \<noteq> length db then (if length da < length db then -1 else 1) else three_way da db)"
proof -
  have d: "list_all isdigit da" "list_all isdigit db"
    unfolding da_def db_def by (rule list_all_isdigit_run)+
  have v: "digits_val (takeWhile isdigit s) = digits_val da" "digits_val (takeWhile isdigit t) = digits_val db"
    by (simp_all add: da_def db_def digits_val_strip)
  have h: "da \<noteq> [] \<Longrightarrow> hd da \<noteq> CHR ''0''" "db \<noteq> [] \<Longrightarrow> hd db \<noteq> CHR ''0''"
    unfolding da_def db_def by (rule hd_dropWhile_zero, assumption)+
  consider "length da < length db" | "length db < length da" | "length da = length db"
    by linarith
  then show ?thesis
    using digits_val_shorter [of da db] digits_val_shorter [of db da]
      digits_val_same_length [of da db] d h
    by cases (auto simp: v three_way_def)
qed

lemma three_way_VNum [simp]: "three_way (VNum m) (VNum n) = three_way m n"
  "three_way (VChar m) (VChar n) = three_way m n"
  "three_way (VNum m) (VChar n) = 1" "three_way (VChar m) (VNum n) = -1"
  by (auto simp: three_way_def)

lemma three_way_nonzero: "three_way x y \<noteq> 0 \<longleftrightarrow> x \<noteq> y"
  by (auto simp: three_way_def)

lemma salt_vercmp_refines: "salt_vercmp a b = three_way (vtokens a) (vtokens b)"
proof (induction a b rule: salt_vercmp.induct)
  case (4 a as b bs)
  let ?da = "dropWhile (\<lambda>c. c = CHR ''0'') (takeWhile isdigit (a # as))"
  let ?db = "dropWhile (\<lambda>c. c = CHR ''0'') (takeWhile isdigit (b # bs))"
  note runs = digit_runs_compare [of "a # as" "b # bs"]
  show ?case
  proof (cases "isdigit a \<and> isdigit b")
    case True
    have step: "salt_vercmp (a # as) (b # bs) =
      (if length ?da \<noteq> length ?db then (if length ?da < length ?db then -1 else 1)
       else if ?da \<noteq> ?db then (if ?da < ?db then -1 else 1)
       else salt_vercmp (dropWhile isdigit (a # as)) (dropWhile isdigit (b # bs)))"
      using True by (simp only: salt_vercmp.simps Let_def if_True dropWhile_zero_digits
          c_strcmp_less c_strcmp_eq simp_thms)
    have IH: "length ?da = length ?db \<Longrightarrow> ?da = ?db \<Longrightarrow>
      salt_vercmp (dropWhile isdigit (a # as)) (dropWhile isdigit (b # bs)) =
        three_way (vtokens (dropWhile isdigit (a # as))) (vtokens (dropWhile isdigit (b # bs)))"
      using "4.IH"(1) [OF True refl refl refl refl]
      by (simp only: dropWhile_zero_digits c_strcmp_less c_strcmp_eq not_not refl simp_thms)
    show ?thesis
      unfolding step vtokens.simps using True runs IH
      by (auto simp: three_way_Cons three_way_nonzero simp del: takeWhile.simps dropWhile.simps)
        (auto simp: three_way_def simp del: takeWhile.simps dropWhile.simps)
  next
    case False
    then show ?thesis
      using "4.IH"(2)
      by (auto simp: three_way_Cons three_way_nonzero three_way_def of_char_eq_iff)
  qed
qed (auto split: if_splits)

section \<open>Three-way comparisons and the running maximum\<close>

text \<open>
  What a client of a comparison function may rely on.  \<open>salt_vercmp\<close> and the entry comparison of
  \<open>salt_repo_index_find\<close> are interpretations.
\<close>

locale version_cmp =
  fixes cmp :: "'a \<Rightarrow> 'a \<Rightarrow> int"
  assumes cmp_refl: "cmp x x = 0"
    and cmp_antisym: "cmp x y < 0 \<longleftrightarrow> 0 < cmp y x"
    and cmp_trans: "cmp x y \<le> 0 \<Longrightarrow> cmp y z \<le> 0 \<Longrightarrow> cmp x z \<le> 0"
begin

lemma cmp_le_flip: "cmp x y \<le> 0 \<longleftrightarrow> 0 \<le> cmp y x"
  using cmp_antisym [of y x] by linarith

lemma cmp_total: "cmp x y \<le> 0 \<or> cmp y x \<le> 0"
  using cmp_antisym [of x y] by linarith

lemma cmp_strict_trans: "cmp x y < 0 \<Longrightarrow> cmp y z \<le> 0 \<Longrightarrow> cmp x z < 0"
  using cmp_trans [of y z x] cmp_antisym [of x z] cmp_le_flip [of z x] cmp_antisym [of x y] by force

lemma cmp_irrefl: "\<not> cmp x x < 0"
  by (simp add: cmp_refl)

text \<open>Sorting with \<^verbatim>\<open>qsort\<close> (here by insertion) orders by the comparison.\<close>

lemma sorted_insert_by:
  "sorted_wrt (\<lambda>x y. cmp x y \<le> 0) xs \<Longrightarrow> sorted_wrt (\<lambda>x y. cmp x y \<le> 0) (insert_by cmp x xs)"
proof (induction xs)
  case (Cons y ys)
  show ?case
  proof (cases "cmp x y \<le> 0")
    case True
    then show ?thesis using Cons.prems cmp_trans [OF True] by auto
  next
    case False
    then have "cmp y x \<le> 0" using cmp_total by blast
    then show ?thesis using False Cons by auto
  qed
qed simp

lemma sorted_sort_by: "sorted_wrt (\<lambda>x y. cmp x y \<le> 0) (sort_by cmp xs)"
  by (induction xs) (simp_all add: sort_by_def sorted_insert_by)

text \<open>A loop that keeps the best element seen so far ends with a maximum of all of them.\<close>

lemma running_max:
  "(let m = fold (\<lambda>e b. if cmp e b > 0 then e else b) es b
    in m \<in> insert b (set es) \<and> (\<forall>e \<in> insert b (set es). cmp e m \<le> 0))"
proof (induction es arbitrary: b)
  case Nil
  then show ?case by (simp add: cmp_refl)
next
  case (Cons x xs)
  let ?b = "if cmp x b > 0 then x else b"
  let ?m = "fold (\<lambda>e b. if cmp e b > 0 then e else b) xs ?b"
  have IH: "?m \<in> insert ?b (set xs)" "\<forall>e \<in> insert ?b (set xs). cmp e ?m \<le> 0"
    using Cons.IH [of ?b] by (auto simp: Let_def)
  have "cmp x ?b \<le> 0" "cmp b ?b \<le> 0"
    using cmp_antisym [of b x] by (auto simp: cmp_refl)
  then have "cmp x ?m \<le> 0" "cmp b ?m \<le> 0"
    using IH(2) cmp_trans by blast+
  then show ?case using IH by (auto simp: Let_def split: if_splits)
qed

end

lemma three_way_laws:
  "three_way x x = 0" "three_way x y < 0 \<longleftrightarrow> 0 < three_way y x"
  "three_way x y \<le> 0 \<Longrightarrow> three_way y z \<le> 0 \<Longrightarrow> three_way x z \<le> 0"
  by (auto simp: three_way_def split: if_splits)

interpretation vc: version_cmp salt_vercmp
  by unfold_locales (simp_all only: salt_vercmp_refines three_way_laws)

definition entry_cmp :: "salt_repo_entry \<Rightarrow> salt_repo_entry \<Rightarrow> int" where
  "entry_cmp e b = three_way (vtokens (re_version e), re_release e) (vtokens (re_version b), re_release b)"

interpretation ec: version_cmp entry_cmp
  by unfold_locales (auto simp: entry_cmp_def three_way_laws intro: three_way_laws(3))

lemma newer_entry_cmp: "newer_entry e b \<longleftrightarrow> entry_cmp e b > 0"
  by (auto simp: newer_entry_def entry_cmp_def salt_vercmp_refines three_way_def less_prod_def Let_def
      split: if_splits)

lemma find_newest_fold:
  "find_newest name (Some b) es =
     Some (fold (\<lambda>e b. if entry_cmp e b > 0 then e else b) (filter (\<lambda>e. re_name e = name) es) b)"
  by (induction es arbitrary: b) (auto simp: newer_entry_cmp)

lemma find_newest_None:
  "find_newest name None es = None \<longleftrightarrow> (\<forall>e \<in> set es. re_name e \<noteq> name)"
  by (induction es) (auto simp: find_newest_fold)

lemma find_newest_Some:
  assumes "find_newest name None es = Some e"
  shows "e \<in> set es \<and> re_name e = name \<and> (\<forall>e' \<in> set es. re_name e' = name \<longrightarrow> entry_cmp e' e \<le> 0)"
  using assms
proof (induction es)
  case (Cons x xs)
  show ?case
  proof (cases "re_name x = name")
    case True
    let ?ys = "filter (\<lambda>e. re_name e = name) xs"
    from True Cons.prems have "e = fold (\<lambda>e b. if entry_cmp e b > 0 then e else b) ?ys x"
      by (simp add: find_newest_fold)
    then show ?thesis using ec.running_max [of ?ys x] True by (auto simp: Let_def)
  next
    case False
    with Cons show ?thesis by auto
  qed
qed simp

lemma salt_repo_index_find_name: "salt_repo_index_find idx n = Some e \<Longrightarrow> re_name e = n \<and> e \<in> set (ri_items idx)"
  using find_newest_Some by (fastforce simp: salt_repo_index_find_def)

section \<open>Properties\<close>

text \<open>
  C11.  \<^verbatim>\<open>salt_vercmp\<close> is the lexicographic comparison of the token sequences of its arguments,
  where a maximal run of digits is one number (compared by value, leading zeros ignored), any
  other byte is a token of its own and a number is newer than any byte: the pointer loop of the
  code refines the abstract comparison.
\<close>

theorem vercmp_token_order:
  "salt_vercmp a b = (if vtokens a < vtokens b then -1 else if vtokens a = vtokens b then 0 else 1)"
  by (simp add: salt_vercmp_refines three_way_def)

text \<open>
  \<^verbatim>\<open>salt_repo_index_find\<close> returns a newest entry of that name: no entry of the name has a
  greater version, nor the same version with a greater release; and it fails only when the index
  has no entry of that name.
\<close>

theorem index_find_newest:
  "case salt_repo_index_find idx name of
     None \<Rightarrow> \<not> (\<exists>e \<in> set (ri_items idx). re_name e = name)
   | Some e \<Rightarrow> e \<in> set (ri_items idx) \<and> re_name e = name \<and>
       \<not> (\<exists>e' \<in> set (ri_items idx). re_name e' = name \<and>
            (salt_vercmp (re_version e') (re_version e) > 0 \<or>
             (salt_vercmp (re_version e') (re_version e) = 0 \<and> re_release e' > re_release e)))"
proof (cases "salt_repo_index_find idx name")
  case None
  then have "\<forall>e \<in> set (ri_items idx). re_name e \<noteq> name"
    by (simp add: salt_repo_index_find_def find_newest_None)
  then show ?thesis by (simp add: None)
next
  case (Some e)
  have "\<not> newer_entry e' e" if "e' \<in> set (ri_items idx)" "re_name e' = name" for e'
    using find_newest_Some [OF Some [unfolded salt_repo_index_find_def]] that
    by (force simp: newer_entry_cmp)
  then show ?thesis
    using find_newest_Some [OF Some [unfolded salt_repo_index_find_def]] Some
    by (auto simp: newer_entry_def Let_def)
qed

end
