(* ===== verification/Salt_Deploy.thy ===== *)
theory Salt_Deploy
  imports Salt_Txn Salt_Repo
begin

text \<open>
  Deployments (\<^verbatim>\<open>src/halite/src/deploy.c\<close>): what a transaction changed, the kernel it left, pins,
  pruning and rolling back.  The btrfs path of rollback replaces the root subvolume with shell
  commands and is not modelled: \<open>salt_rollback_to\<close> covers roots without btrfs snapshots, where
  undoing goes through the saved files and the copy of the database.
\<close>

section \<open>Kernels\<close>

definition kernel_name_ok :: "string \<Rightarrow> bool" where
  "kernel_name_ok n \<longleftrightarrow>
     \<not> (length n > 4 \<and> ends_with n ''.img'') \<and> \<not> (length n > 4 \<and> ends_with n ''.old'') \<and>
     \<not> has_substring n ''initr'' \<and>
     list_ex (\<lambda>p. starts_with n p \<and> (length n = length p \<or> n ! length p = CHR ''-''))
       [''vmlinuz'', ''vmlinux'', ''bzImage'', ''Image'']"

definition kernel_version :: "string \<Rightarrow> string" where
  "kernel_version name = (case find_char (CHR ''-'') name of Some i \<Rightarrow> drop (Suc i) name | None \<Rightarrow> [])"

definition kernel_cmp :: "string \<Rightarrow> string \<Rightarrow> int" where
  "kernel_cmp ka kb =
     (let vc = salt_vercmp (kernel_version kb) (kernel_version ka)
      in if vc \<noteq> 0 then vc else c_strcmp kb ka)"

text \<open>The names in a directory that \<^verbatim>\<open>stat\<close> says are regular files.\<close>

definition dir_regular :: "fs \<Rightarrow> key \<Rightarrow> string list" where
  "dir_regular fs dir =
     map (\<lambda>p. last (fst p))
       (filter (\<lambda>p. fst p \<noteq> [] \<and> butlast (fst p) = dir \<and> (case fs_stat fs (fst p) of Some (NReg d m) \<Rightarrow> True | _ \<Rightarrow> False)) fs)"

definition salt_boot_list_kernels :: "fs \<Rightarrow> key \<Rightarrow> string list" where
  "salt_boot_list_kernels fs bootdir = sort_by kernel_cmp (filter kernel_name_ok (dir_regular fs bootdir))"

definition salt_boot_newest_kernel :: "fs \<Rightarrow> key \<Rightarrow> string option" where
  "salt_boot_newest_kernel fs bootdir =
     (case salt_boot_list_kernels fs bootdir of [] \<Rightarrow> None | k # _ \<Rightarrow> Some k)"

section \<open>Recording a deployment\<close>

definition pkg_version_string :: "salt_db_pkg \<Rightarrow> string" where
  "pkg_version_string p = dp_version p @ ''-'' @ int_to_string (dp_release p)"

text \<open>The three selects of the script: packages gone, packages new, packages with another version.\<close>

definition txn_change_rows :: "int \<Rightarrow> tables \<Rightarrow> tables \<Rightarrow> salt_txn_change list" where
  "txn_change_rows i before t =
     sort_key tc_name
      (map (\<lambda>b. \<lparr>tc_txn_id = i, tc_name = dp_name b, tc_old_version = Some (pkg_version_string b), tc_new_version = None\<rparr>)
         (filter (\<lambda>b. \<not> salt_db_is_installed t (dp_name b)) (t_packages before)) @
       map (\<lambda>p. \<lparr>tc_txn_id = i, tc_name = dp_name p, tc_old_version = None, tc_new_version = Some (pkg_version_string p)\<rparr>)
         (filter (\<lambda>p. \<not> salt_db_is_installed before (dp_name p)) (t_packages t)) @
       List.map_filter (\<lambda>p. case salt_db_get_pkg before (dp_name p) of
           None \<Rightarrow> None
         | Some b \<Rightarrow>
             if dp_version p \<noteq> dp_version b \<or> dp_release p \<noteq> dp_release b
             then Some \<lparr>tc_txn_id = i, tc_name = dp_name p, tc_old_version = Some (pkg_version_string b),
                        tc_new_version = Some (pkg_version_string p)\<rparr>
             else None) (t_packages t))"

definition salt_deploy_meta :: "tables \<Rightarrow> int \<Rightarrow> string option \<times> bool" where
  "salt_deploy_meta t i =
     (case find (\<lambda>m. tm_txn_id m = i) (t_txn_meta t) of
        Some m \<Rightarrow> (tm_kernel m, tm_pinned m)
      | None \<Rightarrow> (None, False))"

definition put_meta :: "salt_txn_meta \<Rightarrow> tables \<Rightarrow> tables" where
  "put_meta m t = t\<lparr>t_txn_meta := filter (\<lambda>x. tm_txn_id x \<noteq> tm_txn_id m) (t_txn_meta t) @ [m]\<rparr>"

definition record_changes :: "sql_env \<Rightarrow> int \<Rightarrow> tables option \<Rightarrow> tables \<Rightarrow> tables" where
  "record_changes q i before t =
     (case before of
        Some b \<Rightarrow>
          if sql_ok q (SqlAttach i) then
            (let t1 = t\<lparr>t_txn_changes := filter (\<lambda>c. tc_txn_id c \<noteq> i) (t_txn_changes t)\<rparr>
             in if sql_ok q (SqlChanges i)
                then t1\<lparr>t_txn_changes := t_txn_changes t1 @ txn_change_rows i b t\<rparr> else t1)
          else t
      | None \<Rightarrow> t)"

definition record_with_before :: "sql_env \<Rightarrow> int \<Rightarrow> tables option \<Rightarrow> fs \<Rightarrow> tables \<Rightarrow> salt_rc \<times> tables" where
  "record_with_before q i before fs t =
     (if \<not> sql_ok q SqlSchema then (SALT_ERR, t)
      else let t1 = record_changes q i before t;
               kern = salt_boot_newest_kernel fs [''boot''];
               m = \<lparr>tm_txn_id = i, tm_kernel = kern, tm_pinned = snd (salt_deploy_meta t1 i)\<rparr>
           in (SALT_OK, if sql_ok q (SqlMeta i) then put_meta m t1 else t1))"

definition salt_deploy_record :: "env \<Rightarrow> int \<Rightarrow> world \<Rightarrow> salt_rc \<times> world" where
  "salt_deploy_record env i w =
     upd_tab (record_with_before (env_sql env) i (ts_before (state_of w i)) (w_fs w)) w"

definition salt_deploy_changes :: "tables \<Rightarrow> int \<Rightarrow> salt_txn_change list" where
  "salt_deploy_changes t i = sort_key tc_name (filter (\<lambda>c. tc_txn_id c = i) (t_txn_changes t))"

section \<open>Pins and pruning\<close>

definition salt_deploy_pin :: "sql_env \<Rightarrow> int \<Rightarrow> bool \<Rightarrow> tables \<Rightarrow> salt_rc \<times> tables" where
  "salt_deploy_pin q i pinned t =
     (if \<not> sql_ok q SqlSchema then (SALT_ERR, t)
      else if \<not> list_ex (\<lambda>d. td_id d = i) (t_transactions t) then (SALT_ERR_NOTFOUND, t)
      else if \<not> sql_ok q (SqlPin i) then (SALT_ERR, t)
      else (SALT_OK,
        if list_ex (\<lambda>m. tm_txn_id m = i) (t_txn_meta t)
        then t\<lparr>t_txn_meta := map (\<lambda>m. if tm_txn_id m = i then m\<lparr>tm_pinned := pinned\<rparr> else m) (t_txn_meta t)\<rparr>
        else t\<lparr>t_txn_meta := t_txn_meta t @ [\<lparr>tm_txn_id = i, tm_kernel = None, tm_pinned = pinned\<rparr>]\<rparr>))"

definition has_snapshot :: "salt_deployment \<Rightarrow> bool" where
  "has_snapshot d \<longleftrightarrow> td_snapshot d \<noteq> None \<and> td_snapshot d \<noteq> Some []"

definition prune_victims :: "tables \<Rightarrow> int \<Rightarrow> salt_deployment list" where
  "prune_victims t keep =
     drop (nat (max 1 keep))
       (filter (\<lambda>d. has_snapshot d \<and> \<not> snd (salt_deploy_meta t (td_id d))) (salt_db_deployments t))"

text \<open>
  One victim: a btrfs snapshot that cannot be deleted is left; otherwise the saved files go and the
  deployment loses its snapshot.  \<^verbatim>\<open>db.before\<close> stays.
\<close>

definition prune_one :: "env \<Rightarrow> salt_ctx \<Rightarrow> salt_deployment \<Rightarrow> string list \<times> world \<Rightarrow> string list \<times> world" where
  "prune_one env ctx d s =
     (let (removed, w) = s;
          snap = the (td_snapshot d);
          full = salt_join_path (cx_snapshot_dir ctx) snap;
          gone = (\<not> starts_with snap ''root-'' \<or> \<not> env_is_dir env full \<or> env_btrfs_delete env full)
      in if \<not> gone then s
         else let w1 = upd_state (td_id d) (\<lambda>s. s\<lparr>ts_backup := [], ts_added := None\<rparr>) w;
                  w2 = snd (upd_tab (\<lambda>t. if sql_ok (env_sql env) (SqlPrune (td_id d))
                                         then (SALT_OK, update_txn (td_id d) (\<lambda>x. x\<lparr>td_snapshot := None\<rparr>) t)
                                         else (SALT_ERR, t)) w1)
              in (removed @ [snap], w2))"

definition salt_deploy_prune :: "env \<Rightarrow> salt_ctx \<Rightarrow> int \<Rightarrow> world \<Rightarrow> salt_rc \<times> string list \<times> world" where
  "salt_deploy_prune env ctx keep w =
     (if \<not> sql_ok (env_sql env) SqlSchema then (SALT_ERR, [], w)
      else (SALT_OK, fold (prune_one env ctx) (prune_victims (w_tab w) keep) ([], w)))"

section \<open>Rolling back\<close>

definition salt_deploy_pick_rollback :: "tables \<Rightarrow> int option" where
  "salt_deploy_pick_rollback t =
     map_option td_id (find (\<lambda>d. td_status d = ''ok'' \<and> has_snapshot d) (salt_db_deployments t))"

text \<open>Whether a transaction touched a path below \<open>pre\<close>: its backup tree or its list of additions.\<close>

definition salt_deploy_root_changed :: "world \<Rightarrow> int \<Rightarrow> string \<Rightarrow> bool" where
  "salt_deploy_root_changed w i pre \<longleftrightarrow>
     (let s = state_of w i; k = path_key pre in
      list_ex (\<lambda>p. take (length k) (fst p) = k) (ts_backup s) \<or>
      (case ts_added s of
         None \<Rightarrow> False
       | Some a \<Rightarrow> list_ex (\<lambda>l. l \<noteq> [] \<and> starts_with l pre) (split_on (CHR 0x0A) a)))"

definition mark_undone :: "sql_env \<Rightarrow> int \<Rightarrow> int \<Rightarrow> tables \<Rightarrow> tables" where
  "mark_undone q from to t =
     (if sql_ok q (SqlUndone from)
      then t\<lparr>t_transactions := map (\<lambda>d. if from \<le> td_id d \<and> td_id d < to \<and> td_status d = ''ok''
                                       then d\<lparr>td_status := ''undone''\<rparr> else d) (t_transactions t)\<rparr>
      else t)"

definition max_txn_id :: "tables \<Rightarrow> int" where
  "max_txn_id t = fold (\<lambda>d m. max (td_id d) m) (t_transactions t) 0"

definition txn_status_snapshot :: "tables \<Rightarrow> int \<Rightarrow> (string \<times> string option) option" where
  "txn_status_snapshot t i =
     map_option (\<lambda>d. (td_status d, td_snapshot d)) (find (\<lambda>d. td_id d = i) (t_transactions t))"

text \<open>The loop \<^verbatim>\<open>for (id = latest; id >= target; id--)\<close>.\<close>

definition undo_ids :: "int \<Rightarrow> int \<Rightarrow> int list" where
  "undo_ids latest target = rev [target..latest]"

definition undo_step :: "env \<Rightarrow> int \<Rightarrow> world \<Rightarrow> world" where
  "undo_step env i w =
     (case txn_status_snapshot (w_tab w) i of
        Some (status, snap) \<Rightarrow> if status = ''ok'' then snd (salt_txn_revert_files env i w) else w
      | None \<Rightarrow> w)"

definition rollback_files :: "env \<Rightarrow> int \<Rightarrow> world \<Rightarrow> (salt_rc \<times> int) \<times> world" where
  "rollback_files env target w =
     (let q = env_sql env;
          w1 = fold (undo_step env) (undo_ids (max_txn_id (w_tab w)) target) w;
          (new, t1) = salt_db_txn_new q ''rollback'' (w_tab w1)
      in case new of
           None \<Rightarrow> ((SALT_ERR, 0), w1)
         | Some rb \<Rightarrow>
             (let rb_before = (if sql_ok q (SqlVacuum rb) then Some t1 else None);
                  w2 = upd_state rb (\<lambda>s. s\<lparr>ts_before := rb_before\<rparr>) (w1\<lparr>w_db := (w_db w1)\<lparr>db_tab := t1\<rparr>\<rparr>);
                  (rc, t2) = (case ts_before (state_of w2 target) of
                                Some b \<Rightarrow> salt_db_restore_state_from q target b t1
                              | None \<Rightarrow> (SALT_OK, t1));
                  t3 = mark_undone q target rb t2;
                  t4 = snd (salt_db_txn_finish q rb ''ok'' t3);
                  t5 = snd (record_with_before q rb rb_before (w_fs w2) t4)
              in ((rc, rb), w2\<lparr>w_db := (w_db w2)\<lparr>db_tab := t5\<rparr>\<rparr>)))"

text \<open>
  \<open>btrfs\<close> stands for \<^verbatim>\<open>rollback_btrfs\<close>: the code, the new transaction and the mount point of the new
  root.  The result is the code, the target, the new transaction, the new root and whether a
  reboot is needed.
\<close>

record rollback_result =
  rb_rc :: salt_rc
  rb_target :: int
  rb_txn :: int
  rb_new_root :: "string option"
  rb_reboot :: bool

definition salt_rollback_to ::
    "(int \<Rightarrow> string \<Rightarrow> world \<Rightarrow> (salt_rc \<times> int \<times> string) \<times> world) \<Rightarrow> env \<Rightarrow> salt_ctx \<Rightarrow> int \<Rightarrow> world \<Rightarrow>
     rollback_result \<times> world" where
  "salt_rollback_to btrfs env ctx txn_id w =
     (let fail = (\<lambda>rc i. (\<lparr>rb_rc = rc, rb_target = i, rb_txn = 0, rb_new_root = None, rb_reboot = False\<rparr>, w));
          picked = (if txn_id \<le> 0 then salt_deploy_pick_rollback (w_tab w) else Some txn_id)
      in case picked of
           None \<Rightarrow> fail SALT_ERR_NOTFOUND txn_id
         | Some i \<Rightarrow>
             (case txn_status_snapshot (w_tab w) i of
                None \<Rightarrow> fail SALT_ERR_NOTFOUND i
              | Some (status, snapshot) \<Rightarrow>
                  if cx_use_btrfs ctx \<and> snapshot \<noteq> None \<and> starts_with (the snapshot) ''root-'' then
                    (let ((rc, rb, root), w1) = btrfs i (the snapshot) w
                     in (\<lparr>rb_rc = rc, rb_target = i, rb_txn = rb,
                          rb_new_root = (if rc = SALT_OK then Some root else None), rb_reboot = (rc = SALT_OK)\<rparr>, w1))
                  else if snapshot = None \<or> snapshot = Some [] \<or> ts_before (state_of w i) = None
                    then fail SALT_ERR_NOTFOUND i
                  else (let ((rc, rb), w1) = rollback_files env i w
                        in (\<lparr>rb_rc = rc, rb_target = i, rb_txn = rb, rb_new_root = None, rb_reboot = False\<rparr>, w1))))"

text \<open>\<^verbatim>\<open>salt_rollback_last\<close> of \<^verbatim>\<open>txn.c\<close>, without btrfs.\<close>

definition salt_rollback_last :: "env \<Rightarrow> world \<Rightarrow> salt_rc \<times> world" where
  "salt_rollback_last env w =
     (case salt_db_last_ok_txn (w_tab w) of
        None \<Rightarrow> (SALT_ERR_NOTFOUND, w)
      | Some (i, snap) \<Rightarrow>
          (case ts_before (state_of w i) of
             None \<Rightarrow> (SALT_ERR_NOTFOUND, w)
           | Some b \<Rightarrow>
               (let q = env_sql env;
                    w1 = snd (salt_txn_revert_files env i w)
                in and_then (upd_tab (salt_db_restore_state_from q i b) w1)
                     (\<lambda>w2. (SALT_OK,
                       snd (upd_tab (\<lambda>t.
                         (let t1 = snd (salt_db_txn_finish q i ''rolled-back'' t);
                              (new, t2) = salt_db_txn_new q ''rollback'' t1
                          in case new of
                               None \<Rightarrow> (SALT_OK, t2)
                             | Some rb \<Rightarrow> (SALT_OK, snd (salt_db_txn_finish q rb ''ok'' t2)))) w2))))))"

section \<open>The order of kernels\<close>

definition kernel_rank :: "string \<Rightarrow> vtok list \<times> string" where
  "kernel_rank k = (vtokens (kernel_version k), k)"

lemma kernel_cmp_rank:
  "kernel_cmp a b < 0 \<longleftrightarrow> kernel_rank b < kernel_rank a" "kernel_cmp a b = 0 \<longleftrightarrow> a = b"
  using c_strcmp_less [of b a] c_strcmp_eq [of b a]
  by (auto simp: kernel_cmp_def kernel_rank_def Let_def salt_vercmp_refines three_way_def less_prod_def split: if_splits)

lemma kernel_cmp_pos: "0 < kernel_cmp a b \<longleftrightarrow> kernel_rank a < kernel_rank b"
proof -
  have "kernel_rank a = kernel_rank b \<longleftrightarrow> a = b" by (auto simp: kernel_rank_def)
  then show ?thesis using kernel_cmp_rank [of a b] by (metis linorder_cases less_asym)
qed

interpretation kc: version_cmp kernel_cmp
proof
  show "kernel_cmp x x = 0" for x by (simp add: kernel_cmp_rank)
  show "kernel_cmp x y < 0 \<longleftrightarrow> 0 < kernel_cmp y x" for x y by (simp add: kernel_cmp_rank kernel_cmp_pos)
  show "kernel_cmp x z \<le> 0" if "kernel_cmp x y \<le> 0" "kernel_cmp y z \<le> 0" for x y z
    using that kernel_cmp_pos [of x y] kernel_cmp_pos [of y z] kernel_cmp_pos [of x z] by (simp add: not_less flip: not_le)
qed

text \<open>
  \<^verbatim>\<open>salt_boot_newest_kernel\<close> finds no kernel only when the directory has none, and otherwise returns a
  kernel image of the directory such that no other has a greater version.
\<close>

theorem newest_kernel_is_newest:
  "case salt_boot_newest_kernel fs dir of
     None \<Rightarrow> \<not> (\<exists>k. k \<in> set (dir_regular fs dir) \<and> kernel_name_ok k)
   | Some k \<Rightarrow> k \<in> set (dir_regular fs dir) \<and> kernel_name_ok k \<and>
       \<not> (\<exists>k' \<in> set (dir_regular fs dir). kernel_name_ok k' \<and> salt_vercmp (kernel_version k') (kernel_version k) > 0)"
proof (cases "salt_boot_list_kernels fs dir")
  case Nil
  then have "set (filter kernel_name_ok (dir_regular fs dir)) = {}"
    unfolding salt_boot_list_kernels_def by (metis set_sort_by list.set(1))
  then show ?thesis using Nil by (auto simp: salt_boot_newest_kernel_def filter_empty_conv)
next
  case (Cons k ks)
  have set: "set (k # ks) = set (filter kernel_name_ok (dir_regular fs dir))"
    using Cons set_sort_by unfolding salt_boot_list_kernels_def by metis
  have "sorted_wrt (\<lambda>x y. kernel_cmp x y \<le> 0) (k # ks)"
    using Cons kc.sorted_sort_by unfolding salt_boot_list_kernels_def by metis
  then have "kernel_cmp k k' \<le> 0" if "k' \<in> set (k # ks)" for k' using that by (auto simp: kc.cmp_refl)
  then have "\<not> 0 < salt_vercmp (kernel_version k') (kernel_version k)" if "k' \<in> set (k # ks)" for k'
    using that by (force simp: kernel_cmp_def Let_def split: if_splits)
  then show ?thesis using Cons set by (auto simp: salt_boot_newest_kernel_def)
qed

section \<open>Properties of the records\<close>

lemma get_pkg_distinct:
  "distinct (map dp_name (t_packages t)) \<Longrightarrow> p \<in> set (t_packages t) \<longleftrightarrow> salt_db_get_pkg t (dp_name p) = Some p"
proof -
  have "distinct (map dp_name ps) \<Longrightarrow> p \<in> set ps \<longleftrightarrow> find (\<lambda>q. dp_name q = dp_name p) ps = Some p" for ps
    by (induction ps) (auto simp: image_iff)
  then show "distinct (map dp_name (t_packages t)) \<Longrightarrow> p \<in> set (t_packages t) \<longleftrightarrow> salt_db_get_pkg t (dp_name p) = Some p"
    by (simp add: salt_db_get_pkg_def)
qed

lemma get_pkg_dp_name: "salt_db_get_pkg t n = Some p \<Longrightarrow> dp_name p = n"
  by (auto simp: salt_db_get_pkg_def find_Some_iff)

definition version_of :: "tables \<Rightarrow> string \<Rightarrow> (string \<times> int) option" where
  "version_of t n = map_option (\<lambda>p. (dp_version p, dp_release p)) (salt_db_get_pkg t n)"

definition change_row :: "int \<Rightarrow> tables \<Rightarrow> tables \<Rightarrow> string \<Rightarrow> salt_txn_change" where
  "change_row i b t n = \<lparr>tc_txn_id = i, tc_name = n,
     tc_old_version = map_option pkg_version_string (salt_db_get_pkg b n),
     tc_new_version = map_option pkg_version_string (salt_db_get_pkg t n)\<rparr>"

lemma case_if_Some:
  "(case m of None \<Rightarrow> None | Some b \<Rightarrow> if P b then Some (g b) else None) = Some y \<longleftrightarrow>
     (\<exists>b. m = Some b \<and> P b \<and> y = g b)"
  by (auto split: option.splits)

lemma change_rows_iff:
  "r \<in> set (txn_change_rows i b t) \<longleftrightarrow>
     (\<exists>p. p \<in> set (t_packages b) \<and> salt_db_get_pkg t (dp_name p) = None \<and>
        r = \<lparr>tc_txn_id = i, tc_name = dp_name p, tc_old_version = Some (pkg_version_string p), tc_new_version = None\<rparr>) \<or>
     (\<exists>q. q \<in> set (t_packages t) \<and> salt_db_get_pkg b (dp_name q) = None \<and>
        r = \<lparr>tc_txn_id = i, tc_name = dp_name q, tc_old_version = None, tc_new_version = Some (pkg_version_string q)\<rparr>) \<or>
     (\<exists>q p. q \<in> set (t_packages t) \<and> salt_db_get_pkg b (dp_name q) = Some p \<and>
        (dp_version q \<noteq> dp_version p \<or> dp_release q \<noteq> dp_release p) \<and>
        r = \<lparr>tc_txn_id = i, tc_name = dp_name q, tc_old_version = Some (pkg_version_string p),
             tc_new_version = Some (pkg_version_string q)\<rparr>)"
  unfolding txn_change_rows_def set_sort set_append set_map Un_iff set_filter image_iff in_map_filter case_if_Some
  by (intro arg_cong2 [where f = "(\<or>)"]) (auto simp: get_pkg_None)

text \<open>
  C13. The change records of a transaction say exactly what it changed: there is a row for a package if and only if
  its version or release before and after differ (absent counting as different), with both
  versions, and the packages that stayed have none.
\<close>

theorem change_rows_exact:
  assumes "distinct (map dp_name (t_packages b))" "distinct (map dp_name (t_packages t))"
  shows "set (txn_change_rows i b t) = {change_row i b t n | n. version_of b n \<noteq> version_of t n}"
proof (rule set_eqI)
  fix r
  note gb = get_pkg_distinct [OF assms(1)] and gt = get_pkg_distinct [OF assms(2)]
  have "r \<in> set (txn_change_rows i b t) \<longleftrightarrow> (\<exists>n. version_of b n \<noteq> version_of t n \<and> r = change_row i b t n)"
    unfolding change_rows_iff gb gt
  proof (intro iffI, goal_cases)
    case 1
    then show ?case
      by (elim disjE bexE exE conjE)
        (auto simp: version_of_def change_row_def intro!: exI [of _ "tc_name r"])
  next
    case 2
    then obtain n where d: "version_of b n \<noteq> version_of t n" and r: "r = change_row i b t n" by blast
    show ?case
    proof (cases "salt_db_get_pkg b n"; cases "salt_db_get_pkg t n")
      fix p q assume p: "salt_db_get_pkg b n = Some p" and q: "salt_db_get_pkg t n = Some q"
      then show ?thesis using d r get_pkg_dp_name [OF q]
        by - (rule disjI2 [OF disjI2], rule exI [of _ q], rule exI [of _ p], auto simp: change_row_def version_of_def)
    next
      fix p assume p: "salt_db_get_pkg b n = Some p" and q: "salt_db_get_pkg t n = None"
      then show ?thesis using r get_pkg_dp_name [OF p] by (intro disjI1 exI [of _ p]) (simp add: change_row_def)
    next
      fix q assume p: "salt_db_get_pkg b n = None" and q: "salt_db_get_pkg t n = Some q"
      then show ?thesis using r get_pkg_dp_name [OF q] by (intro disjI2 disjI1 exI [of _ q]) (simp add: change_row_def)
    qed (use d in \<open>auto simp: version_of_def\<close>)
  qed
  then show "r \<in> set (txn_change_rows i b t) \<longleftrightarrow> r \<in> {change_row i b t n | n. version_of b n \<noteq> version_of t n}" by blast
qed

theorem change_rows_exact_witness:
  "set (txn_change_rows 1 ex_empty (ex_empty\<lparr>t_packages := [pkg_row_of ex_sql ex_pkg_meta [] [] 1]\<rparr>)) =
     {change_row 1 ex_empty (ex_empty\<lparr>t_packages := [pkg_row_of ex_sql ex_pkg_meta [] [] 1]\<rparr>) n | n.
        version_of ex_empty n \<noteq> version_of (ex_empty\<lparr>t_packages := [pkg_row_of ex_sql ex_pkg_meta [] [] 1]\<rparr>) n}"
  by (rule change_rows_exact) (simp_all add: ex_empty_def)

end
