(* ===== verification/Salt_Boot.thy ===== *)
theory Salt_Boot
  imports Salt_Cli Salt_Deploy
begin

text \<open>
  The boot loader side of deployments (\<^verbatim>\<open>src/salt/cmd_deploy.cpp\<close>): the GRUB environment block, the
  generated \<^verbatim>\<open>grub.cfg\<close>, and the trial of a new kernel.  A new kernel is armed for one boot; the
  generated script clears the flag before booting it, so that the boot after a failed trial is the
  default again; \<^verbatim>\<open>salt boot confirm\<close> makes the trial kernel the default only when it is the one
  running.
\<close>

section \<open>Configuration\<close>

record BootConf =
  bc_loader :: string
  bc_root_label :: string
  bc_root_subvol :: string
  bc_snapshots_subvol :: string
  bc_cmdline :: string
  bc_title :: string
  bc_serial :: string
  bc_grub_cfg :: string
  bc_grubenv :: string
  bc_grubenv_label :: string
  bc_tryboot_tool :: string
  bc_timeout :: int
  bc_max_snapshots :: int

definition default_boot_conf :: BootConf where
  "default_boot_conf = \<lparr>bc_loader = ''none'', bc_root_label = [], bc_root_subvol = ''@'',
     bc_snapshots_subvol = ''@snapshots'', bc_cmdline = [], bc_title = ''saltOS'', bc_serial = [],
     bc_grub_cfg = ''/boot/grub/grub.cfg'', bc_grubenv = ''/boot/efi/EFI/saltos/grubenv'',
     bc_grubenv_label = ''saltos-esp'', bc_tryboot_tool = ''/usr/lib/saltos/ab-update.sh'',
     bc_timeout = 3, bc_max_snapshots = 10\<rparr>"

definition load_boot_conf :: "sys \<Rightarrow> string \<Rightarrow> BootConf" where
  "load_boot_conf y root =
     (let c = default_boot_conf in
      case load_salt_conf y root ''boot'' of
        None \<Rightarrow> c
      | Some t \<Rightarrow>
          \<lparr>bc_loader = salt_toml_string (Some t) ''boot.loader'' (bc_loader c),
           bc_root_label = salt_toml_string (Some t) ''boot.root_label'' (bc_root_label c),
           bc_root_subvol = salt_toml_string (Some t) ''boot.root_subvol'' (bc_root_subvol c),
           bc_snapshots_subvol = salt_toml_string (Some t) ''boot.snapshots_subvol'' (bc_snapshots_subvol c),
           bc_cmdline = salt_toml_string (Some t) ''boot.cmdline'' (bc_cmdline c),
           bc_title = salt_toml_string (Some t) ''boot.title'' (bc_title c),
           bc_serial = salt_toml_string (Some t) ''boot.serial'' (bc_serial c),
           bc_grub_cfg = salt_toml_string (Some t) ''boot.grub_cfg'' (bc_grub_cfg c),
           bc_grubenv = salt_toml_string (Some t) ''boot.grubenv'' (bc_grubenv c),
           bc_grubenv_label = salt_toml_string (Some t) ''boot.grubenv_label'' (bc_grubenv_label c),
           bc_tryboot_tool = salt_toml_string (Some t) ''boot.tryboot_tool'' (bc_tryboot_tool c),
           bc_timeout = salt_toml_int (Some t) ''boot.timeout'' (bc_timeout c),
           bc_max_snapshots = salt_toml_int (Some t) ''boot.max_snapshots'' (bc_max_snapshots c)\<rparr>)"

definition deploy_keep :: "sys \<Rightarrow> string \<Rightarrow> int" where
  "deploy_keep y root =
     (let keep = (case load_salt_conf y root ''salt'' of
                    Some t \<Rightarrow> salt_toml_int (Some t) ''deploy.keep'' 5 | None \<Rightarrow> 5)
      in if keep < 1 then 1 else keep)"

section \<open>Kernels\<close>

definition kernel_release :: "string \<Rightarrow> string" where
  "kernel_release file = (case find_char (CHR ''-'') file of None \<Rightarrow> [] | Some i \<Rightarrow> drop (Suc i) file)"

text \<open>The empty string is "unknown".\<close>

definition running_kernel :: "sys \<Rightarrow> fs \<Rightarrow> key \<Rightarrow> string" where
  "running_kernel y fs bootdir =
     (case sys_release y of
        None \<Rightarrow> []
      | Some r \<Rightarrow>
          (case find (\<lambda>k. kernel_release k = r) (salt_boot_list_kernels fs bootdir) of
             Some k \<Rightarrow> k | None \<Rightarrow> []))"

definition initrd_for :: "fs \<Rightarrow> key \<Rightarrow> string \<Rightarrow> string" where
  "initrd_for fs bootdir kern =
     (let rel = kernel_release kern;
          cands = map (take 511) [''initramfs-'' @ rel @ ''.img'', ''initrd.img-'' @ rel, ''initrd-'' @ rel, ''initramfs-'' @ rel]
      in case find (\<lambda>b. salt_path_exists fs (bootdir @ path_key b)) cands of Some b \<Rightarrow> b | None \<Rightarrow> [])"

section \<open>The environment block\<close>

text \<open>A \<^verbatim>\<open>std::map\<close>: an association list in the order of its keys.\<close>

fun kv_put :: "string \<Rightarrow> string \<Rightarrow> (string \<times> string) list \<Rightarrow> (string \<times> string) list" where
  "kv_put k v [] = [(k, v)]"
| "kv_put k v ((k', v') # kvs) =
     (if k = k' then (k, v) # kvs
      else if k < k' then (k, v) # (k', v') # kvs
      else (k', v') # kv_put k v kvs)"

definition grubenv_line :: "string \<Rightarrow> (string \<times> string) list \<Rightarrow> (string \<times> string) list" where
  "grubenv_line line kv =
     (if line = [] \<or> hd line = CHR ''#'' then kv
      else case find_char (CHR ''='') line of
             None \<Rightarrow> kv
           | Some i \<Rightarrow> kv_put (take i line) (drop (Suc i) line) kv)"

definition grubenv_parse :: "string \<Rightarrow> (string \<times> string) list" where
  "grubenv_parse s = fold grubenv_line (split_on (CHR 0x0A) s) []"

definition grubenv_read :: "fs \<Rightarrow> key \<Rightarrow> (string \<times> string) list" where
  "grubenv_read fs k = (case fs_stat fs k of Some (NReg data m) \<Rightarrow> grubenv_parse data | _ \<Rightarrow> [])"

definition grubenv_text :: "(string \<times> string) list \<Rightarrow> string" where
  "grubenv_text kv =
     ''# GRUB Environment Block'' @ [CHR 0x0A] @ concat (map (\<lambda>e. fst e @ ''='' @ snd e @ [CHR 0x0A]) kv)"

definition grubenv_write :: "io_env \<Rightarrow> key \<Rightarrow> (string \<times> string) list \<Rightarrow> fs \<Rightarrow> int \<times> fs" where
  "grubenv_write io k kv fs =
     (let s = grubenv_text kv in
      if length s > 1024 then (1, fs)
      else let padded = s @ replicate (1024 - length s) (CHR ''#'');
               fs1 = snd (salt_mkdirs io (butlast k) fs);
               (rc, fs2) = salt_write_file io IoBoot k padded 420 fs1
           in (if rc = SALT_OK then 0 else 1, fs2))"

definition grubenv_path :: "BootConf \<Rightarrow> key" where
  "grubenv_path c = path_key (bc_grubenv c)"

definition entry_id :: "string \<Rightarrow> string" where
  "entry_id kern = ''k-'' @ kern"

definition kernel_from_entry :: "string \<Rightarrow> string" where
  "kernel_from_entry i = (if starts_with i ''k-'' then drop 2 i else [])"

section \<open>grub.cfg\<close>

record SnapEntry =
  se_id :: int
  se_time :: int
  se_kernel :: string
  se_initrd :: string

definition current_deployment :: "tables \<Rightarrow> int" where
  "current_deployment t =
     (case find (\<lambda>d. td_status d = ''ok'' \<and> td_id d \<noteq> 0) (salt_db_deployments t) of Some d \<Rightarrow> td_id d | None \<Rightarrow> 0)"

text \<open>The deployments with a bootable btrfs snapshot, newest first, at most \<open>max\<close>.\<close>

definition snapshot_entry :: "sys \<Rightarrow> salt_deployment \<Rightarrow> SnapEntry option" where
  "snapshot_entry y d =
     (case td_snapshot d of
        None \<Rightarrow> None
      | Some snap \<Rightarrow>
          if \<not> starts_with snap ''root-'' \<or> td_status d = ''failed'' then None
          else (case salt_boot_newest_kernel (sys_snapshot_fs y snap) [''boot''] of
                  None \<Rightarrow> None
                | Some k \<Rightarrow> Some \<lparr>se_id = td_id d, se_time = td_time d, se_kernel = k,
                                  se_initrd = initrd_for (sys_snapshot_fs y snap) [''boot''] k\<rparr>))"

definition snapshot_entries :: "sys \<Rightarrow> tables \<Rightarrow> int \<Rightarrow> SnapEntry list" where
  "snapshot_entries y t mx = take (nat mx) (List.map_filter (snapshot_entry y) (salt_db_deployments t))"

definition nl :: string where "nl = [CHR 0x0A]"
definition dq :: string where "dq = [CHR 0x22]"

definition grub_entry :: "BootConf \<Rightarrow> string \<Rightarrow> string \<Rightarrow> string \<Rightarrow> string \<Rightarrow> string \<Rightarrow> string" where
  "grub_entry c title i subvol kern initrd =
     ''menuentry '' @ dq @ title @ dq @ '' --id '' @ i @ '' {'' @ nl @
     ''  search --no-floppy --set=root --label '' @ bc_root_label c @ nl @
     ''  linux /'' @ subvol @ ''/boot/'' @ kern @ '' root=LABEL='' @ bc_root_label c @
       '' rootflags=subvol='' @ subvol @ '' rootfstype=btrfs '' @ bc_cmdline c @ nl @
     (if initrd \<noteq> [] then ''  initrd /'' @ subvol @ ''/boot/'' @ initrd @ nl else []) @
     ''}'' @ nl"

definition env_rel :: "BootConf \<Rightarrow> string" where
  "env_rel c = (if starts_with (bc_grubenv c) ''/boot/efi'' then drop 9 (bc_grubenv c) else bc_grubenv c)"

definition grub_header :: "BootConf \<Rightarrow> string \<Rightarrow> string \<Rightarrow> string" where
  "grub_header c default_kernel try_kernel =
     ''set timeout='' @ int_to_string (bc_timeout c) @ nl @
     ''insmod all_video'' @ nl @ ''insmod gfxterm'' @ nl @ ''insmod part_gpt'' @ nl @ ''insmod btrfs'' @ nl @
     ''insmod fat'' @ nl @ ''insmod loadenv'' @ nl @
     (if bc_serial c \<noteq> [] then ''serial '' @ bc_serial c @ nl @ ''terminal_input console serial'' @ nl @
        ''terminal_output console serial'' @ nl else []) @
     ''set saltos_default='' @ dq @ entry_id default_kernel @ dq @ nl @
     ''set saltos_try=0'' @ nl @ ''set saltos_try_entry='' @ dq @
       (if try_kernel = [] then [] else entry_id try_kernel) @ dq @ nl @
     ''search --no-floppy --set=saltos_env --label '' @ bc_grubenv_label c @ nl @
     ''if [ -n '' @ dq @ ''$saltos_env'' @ dq @ '' ]; then'' @ nl @
     ''  load_env -f ($saltos_env)'' @ env_rel c @ '' saltos_default saltos_try saltos_try_entry'' @ nl @
     ''fi'' @ nl @
     ''set default='' @ dq @ ''$saltos_default'' @ dq @ nl @
     ''if [ '' @ dq @ ''$saltos_try'' @ dq @ '' = '' @ dq @ ''1'' @ dq @ '' -a -n '' @ dq @ ''$saltos_try_entry'' @ dq @ '' ]; then'' @ nl @
     ''  set saltos_try=0'' @ nl @
     ''  if [ -n '' @ dq @ ''$saltos_env'' @ dq @ '' ]; then save_env -f ($saltos_env)'' @ env_rel c @ '' saltos_try; fi'' @ nl @
     ''  set default='' @ dq @ ''$saltos_try_entry'' @ dq @ nl @
     ''fi'' @ nl"

definition grub_menu :: "BootConf \<Rightarrow> fs \<Rightarrow> key \<Rightarrow> int \<Rightarrow> string list \<Rightarrow> string" where
  "grub_menu c fs bootdir cur kernels =
     concat (map (\<lambda>k. grub_entry c
       (bc_title c @ '' - kernel '' @ kernel_release k @ '' (deployment '' @ int_to_string cur @ '')'')
       (entry_id k) (bc_root_subvol c) k (initrd_for fs bootdir k)) kernels)"

definition grub_submenu :: "sys \<Rightarrow> BootConf \<Rightarrow> SnapEntry list \<Rightarrow> string" where
  "grub_submenu y c snaps =
     (if snaps = [] then []
      else ''submenu '' @ dq @ ''Previous deployments'' @ dq @ '' --id snapshots {'' @ nl @
        concat (map (\<lambda>e. grub_entry c
          (bc_title c @ '' - deployment '' @ int_to_string (se_id e) @ '' ('' @ sys_fmt_time y (se_time e) @
             '', kernel '' @ kernel_release (se_kernel e) @ '')'')
          (''s'' @ int_to_string (se_id e))
          (bc_snapshots_subvol c @ ''/root-'' @ int_to_string (se_id e))
          (se_kernel e) (se_initrd e)) snaps) @
        ''}'' @ nl)"

definition write_grub_cfg :: "sys \<Rightarrow> BootConf \<Rightarrow> tables \<Rightarrow> string \<Rightarrow> string \<Rightarrow> fs \<Rightarrow> int \<times> fs" where
  "write_grub_cfg y c t default_kernel try_kernel fs =
     (let io = env_io (sys_env y);
          kernels = salt_boot_list_kernels fs [''boot'']
      in if kernels = [] then (1, fs)
         else let text = grub_header c default_kernel try_kernel @
                    grub_menu c fs [''boot''] (current_deployment t) kernels @
                    grub_submenu y c (snapshot_entries y t (bc_max_snapshots c));
                  k = path_key (tl (bc_grub_cfg c));
                  fs1 = snd (salt_mkdirs io (butlast k) fs);
                  (rc, fs2) = salt_write_file io IoBoot k text 420 fs1
              in (if rc = SALT_OK then 0 else 1, fs2))"

section \<open>The boot state\<close>

definition kv_get :: "string \<Rightarrow> (string \<times> string) list \<Rightarrow> string" where
  "kv_get k kv = (case map_of kv k of Some v \<Rightarrow> v | None \<Rightarrow> [])"

record BootState =
  bs_default_kernel :: string
  bs_pending_kernel :: string
  bs_try_armed :: bool

definition present_kernel :: "fs \<Rightarrow> key \<Rightarrow> string \<Rightarrow> string" where
  "present_kernel fs bootdir k = (if k \<noteq> [] \<and> \<not> salt_path_exists fs (bootdir @ path_key k) then [] else k)"

definition grub_state :: "BootConf \<Rightarrow> key \<Rightarrow> fs \<Rightarrow> BootState" where
  "grub_state c bootdir fs =
     (let kv = grubenv_read fs (grubenv_path c)
      in \<lparr>bs_default_kernel = present_kernel fs bootdir (kernel_from_entry (kv_get ''saltos_default'' kv)),
          bs_pending_kernel = present_kernel fs bootdir (kv_get ''saltos_pending'' kv),
          bs_try_armed = (map_of kv ''saltos_try'' = Some ''1'')\<rparr>)"

text \<open>The four variables every command writes.\<close>

definition boot_vars :: "string \<Rightarrow> bool \<Rightarrow> string \<Rightarrow> (string \<times> string) list" where
  "boot_vars def armed pending =
     kv_put ''saltos_pending'' pending (kv_put ''saltos_try_entry'' (if pending = [] then [] else entry_id pending)
       (kv_put ''saltos_try'' (if armed then ''1'' else ''0'') (kv_put ''saltos_default'' (entry_id def) [])))"

text \<open>
  What the generated script does at boot, given the values compiled into \<^verbatim>\<open>grub.cfg\<close> and the
  environment block: the chosen menu entry and the block after \<^verbatim>\<open>save_env\<close>.
\<close>

definition grub_choose :: "string \<Rightarrow> string \<Rightarrow> (string \<times> string) list \<Rightarrow> string \<times> (string \<times> string) list" where
  "grub_choose default_kernel try_kernel kv =
     (let var = (\<lambda>k d. case map_of kv k of Some v \<Rightarrow> v | None \<Rightarrow> d);
          saltos_default = var ''saltos_default'' (entry_id default_kernel);
          saltos_try = var ''saltos_try'' ''0'';
          saltos_try_entry = var ''saltos_try_entry'' (if try_kernel = [] then [] else entry_id try_kernel)
      in if saltos_try = ''1'' \<and> saltos_try_entry \<noteq> []
         then (saltos_try_entry, kv_put ''saltos_try'' ''0'' kv)
         else (saltos_default, kv))"

section \<open>Keeping and dropping kernels\<close>

definition txn_snapshot :: "tables \<Rightarrow> int \<Rightarrow> string" where
  "txn_snapshot t i =
     fold (\<lambda>d snap. if td_id d = i then (case td_snapshot d of Some s \<Rightarrow> s | None \<Rightarrow> snap) else snap)
       (salt_db_deployments t) []"

text \<open>
  \<^verbatim>\<open>rm -rf\<close> and \<^verbatim>\<open>cp -a\<close> as run by the shell, for paths without a quote character.  Copying onto an
  existing directory copies below it.
\<close>

definition fs_rm_rf :: "io_env \<Rightarrow> key \<Rightarrow> fs \<Rightarrow> fs" where
  "fs_rm_rf io k fs = (if io_ok io IoUnlink k then filter (\<lambda>p. take (length k) (fst p) \<noteq> k) fs else fs)"

definition tree_exists :: "fs \<Rightarrow> key \<Rightarrow> bool" where
  "tree_exists fs k \<longleftrightarrow> salt_path_exists fs k \<or> list_ex (\<lambda>p. take (length k) (fst p) = k) fs"

definition fs_cp_a :: "io_env \<Rightarrow> fs \<Rightarrow> key \<Rightarrow> key \<Rightarrow> fs \<Rightarrow> fs" where
  "fs_cp_a io src from to fs =
     (let dest = (if salt_is_dir fs to then to @ [last from] else to)
      in if dirlike fs (butlast dest) \<and> io_ok io IoBoot dest
         then fold (\<lambda>p fs. let k = dest @ drop (length from) (fst p)
                           in fs_put k (snd p) (snd (salt_mkdirs io (butlast k) fs)))
                (filter (\<lambda>p. take (length from) (fst p) = from) src) fs
         else fs)"

definition modules_key :: "string \<Rightarrow> key" where
  "modules_key release = path_key (''usr/lib/modules/'' @ release)"

definition retain_one :: "io_env \<Rightarrow> fs \<Rightarrow> string \<Rightarrow> fs \<Rightarrow> fs" where
  "retain_one io src r fs =
     (let k = path_key r;
          probe = (if starts_with r ''usr/lib/modules/'' then k @ [''modules.dep''] else k)
      in if \<not> tree_exists src k \<or> salt_path_exists fs probe then fs
         else fs_cp_a io src k k (if salt_is_dir fs k then fs_rm_rf io k fs else fs))"

definition retain_running_kernel :: "sys \<Rightarrow> Options \<Rightarrow> salt_ctx \<Rightarrow> int \<Rightarrow> world \<Rightarrow> world" where
  "retain_running_kernel y opt ctx i w =
     (case sys_release y of
        None \<Rightarrow> w
      | Some release \<Rightarrow>
          let snap = txn_snapshot (w_tab w) i in
          if o_root opt \<noteq> ''/'' \<or> running_kernel y (w_fs w) [''boot''] \<noteq> [] \<or> snap = [] then w
          else let src = (if cx_use_btrfs ctx then sys_snapshot_fs y snap
                          else if snap = ''txn-'' @ int_to_string i then ts_backup (state_of w i) else []);
                   kern = fold (\<lambda>k acc. if kernel_release k = release then k else acc)
                            (salt_boot_list_kernels src [''boot'']) [];
                   initrd = initrd_for src [''boot''] kern;
                   rel = [''boot/'' @ kern, ''usr/lib/modules/'' @ release] @
                         (if initrd \<noteq> [] then [''boot/'' @ initrd] else [])
               in if kern = [] then w
                  else w\<lparr>w_fs := fold (retain_one (env_io (sys_env y)) src) rel (w_fs w)\<rparr>)"

text \<open>A kernel file that is neither running, newest, default nor pending and that no package owns.\<close>

definition stale_kernel :: "sys \<Rightarrow> BootConf \<Rightarrow> tables \<Rightarrow> fs \<Rightarrow> string \<Rightarrow> bool" where
  "stale_kernel y c t fs k \<longleftrightarrow>
     (let st = grub_state c [''boot''] fs;
          newest = (case salt_boot_newest_kernel fs [''boot''] of Some n \<Rightarrow> n | None \<Rightarrow> [])
      in \<not> (k = running_kernel y fs [''boot''] \<or> k = newest \<or> k = bs_default_kernel st \<or> k = bs_pending_kernel st) \<and>
         salt_db_owner t (''boot/'' @ k) = None)"

definition drop_kernel :: "io_env \<Rightarrow> string \<Rightarrow> fs \<Rightarrow> fs" where
  "drop_kernel io k fs =
     (let initrd = initrd_for fs [''boot''] k;
          fs1 = fs_unlink io [''boot'', k] fs;
          fs2 = (if initrd \<noteq> [] then fs_unlink io ([''boot''] @ path_key initrd) fs1 else fs1);
          mods = modules_key (kernel_release k)
      in if salt_is_dir fs2 mods then fs_rm_rf io mods fs2 else fs2)"

definition drop_stale_kernels :: "sys \<Rightarrow> Options \<Rightarrow> BootConf \<Rightarrow> world \<Rightarrow> world" where
  "drop_stale_kernels y opt c w =
     (if o_root opt \<noteq> ''/'' then w
      else w\<lparr>w_fs := fold (drop_kernel (env_io (sys_env y)))
             (filter (stale_kernel y c (w_tab w) (w_fs w)) (salt_boot_list_kernels (w_fs w) [''boot''])) (w_fs w)\<rparr>)"

section \<open>The commands\<close>

definition grub_write_both :: "sys \<Rightarrow> BootConf \<Rightarrow> tables \<Rightarrow> string \<Rightarrow> bool \<Rightarrow> string \<Rightarrow> fs \<Rightarrow> int \<times> fs" where
  "grub_write_both y c t def armed pending fs =
     (let (rc, fs1) = write_grub_cfg y c t def pending fs
      in if rc \<noteq> 0 then (rc, fs1)
         else grubenv_write (env_io (sys_env y)) (grubenv_path c) (boot_vars def armed pending) fs1)"

definition grub_update :: "sys \<Rightarrow> Options \<Rightarrow> BootConf \<Rightarrow> tables \<Rightarrow> bool \<Rightarrow> bool \<Rightarrow> fs \<Rightarrow> int \<times> fs" where
  "grub_update y opt c t after_rollback rearm fs =
     (case salt_boot_newest_kernel fs [''boot''] of
        None \<Rightarrow> (1, fs)
      | Some newest \<Rightarrow>
          let st = grub_state c [''boot''] fs;
              running = (if o_root opt = ''/'' then running_kernel y fs [''boot''] else []);
              def = (if after_rollback then newest
                     else if bs_default_kernel st = [] then (if running = [] then newest else running)
                     else bs_default_kernel st);
              pending = (if after_rollback then []
                         else if rearm then (if newest \<noteq> def then newest else [])
                         else bs_pending_kernel st);
              armed = (if after_rollback then False
                       else if rearm then newest \<noteq> def
                       else bs_try_armed st);
              (rc, fs1) = write_grub_cfg y c t def pending fs
          in if rc \<noteq> 0 then (rc, fs1)
             else if o_root opt \<noteq> ''/'' \<and> \<not> salt_path_exists fs1 (butlast (grubenv_path c)) then (0, fs1)
             else grubenv_write (env_io (sys_env y)) (grubenv_path c) (boot_vars def armed pending) fs1)"

text \<open>The fallback branch of \<^verbatim>\<open>grub_confirm\<close> ignores the result of both writes.\<close>

definition grub_confirm :: "sys \<Rightarrow> BootConf \<Rightarrow> tables \<Rightarrow> fs \<Rightarrow> int \<times> fs" where
  "grub_confirm y c t fs =
     (let st = grub_state c [''boot''] fs;
          running = running_kernel y fs [''boot'']
      in if bs_pending_kernel st = [] then (0, fs)
         else if running \<noteq> bs_pending_kernel st then
           (if bs_try_armed st then (1, fs)
            else let def = bs_default_kernel st;
                     fs1 = snd (write_grub_cfg y c t def [] fs)
                 in (1, snd (grubenv_write (env_io (sys_env y)) (grubenv_path c) (boot_vars def False []) fs1)))
         else grub_write_both y c t running False [] fs)"

definition grub_try :: "sys \<Rightarrow> BootConf \<Rightarrow> tables \<Rightarrow> fs \<Rightarrow> int \<times> fs" where
  "grub_try y c t fs =
     (let st = grub_state c [''boot''] fs;
          newest = (case salt_boot_newest_kernel fs [''boot''] of Some n \<Rightarrow> n | None \<Rightarrow> [])
      in if newest = [] \<or> newest = bs_default_kernel st then (0, fs)
         else grub_write_both y c t (if bs_default_kernel st = [] then newest else bs_default_kernel st)
                True newest fs)"

definition grub_status :: "BootConf \<Rightarrow> fs \<Rightarrow> int" where
  "grub_status c fs = (if bs_pending_kernel (grub_state c [''boot''] fs) = [] then 0 else 3)"

definition sq :: string where "sq = [CHR 0x27]"

definition tryboot_tool :: "sys \<Rightarrow> BootConf \<Rightarrow> string \<Rightarrow> string \<Rightarrow> string \<Rightarrow> int" where
  "tryboot_tool y c root verb arg =
     (let cmd = sq @ bc_tryboot_tool c @ sq @ '' '' @ verb @ (if arg \<noteq> [] then '' '' @ sq @ arg @ sq else []);
          cmd1 = (if root \<noteq> ''/'' then ''SALTOS_STAGE_ROOT='' @ sq @ root @ sq @ '' '' @ cmd else cmd)
      in if sys_system y cmd1 = 0 then 0 else 1)"

definition boot_update_root :: "sys \<Rightarrow> Options \<Rightarrow> bool \<Rightarrow> bool \<Rightarrow> world \<Rightarrow> int \<times> world" where
  "boot_update_root y opt after_rollback boot_changed w =
     (let c = load_boot_conf y (o_root opt) in
      if bc_loader c = ''grub'' then
        (let (rc, fs) = grub_update y opt c (w_tab w) after_rollback boot_changed (w_fs w) in (rc, w\<lparr>w_fs := fs\<rparr>))
      else if bc_loader c = ''tryboot'' \<and> boot_changed then
        (tryboot_tool y c (o_root opt) ''kernel-update'' (if after_rollback then ''rollback'' else []), w)
      else (0, w))"

definition deploy_post_txn :: "sys \<Rightarrow> Options \<Rightarrow> salt_ctx \<Rightarrow> int \<Rightarrow> world \<Rightarrow> int \<times> world" where
  "deploy_post_txn y opt ctx i w =
     (let env = sys_env y;
          w1 = snd (salt_deploy_record env i w);
          boot_changed = salt_deploy_root_changed w1 i ''boot/'';
          c = load_boot_conf y (o_root opt);
          w2 = (if boot_changed
                then let w' = retain_running_kernel y opt ctx i w1
                     in if bc_loader c = ''grub'' then drop_stale_kernels y opt c w' else w'
                else w1);
          (rc, removed, w3) = salt_deploy_prune env ctx (c_int (deploy_keep y (o_root opt))) w2
      in boot_update_root y opt False boot_changed w3)"

definition cmd_deployments :: "sys \<Rightarrow> Options \<Rightarrow> string list \<Rightarrow> world \<Rightarrow> int \<times> world" where
  "cmd_deployments y opt args w =
     (let env = sys_env y; q = env_sql env; ctx = salt_ctx_init env (o_root opt) in
      if list_ex (\<lambda>a. a \<noteq> ''--register-current'') args then (2, w)
      else if \<not> sql_ok q SqlOpen then (1, w)
      else if args = [] then (0, w)
      else case salt_db_txn_new q ''deploy'' (w_tab w) of
             (None, t) \<Rightarrow> (1, w)
           | (Some i, t) \<Rightarrow>
               (let (snap, w1) = salt_snapshot_create env ctx i (w\<lparr>w_db := (w_db w)\<lparr>db_tab := t\<rparr>\<rparr>);
                    w2 = (case snap of
                            Some s \<Rightarrow> snd (upd_tab (salt_db_txn_set_snapshot q i s) w1) | None \<Rightarrow> w1);
                    w3 = snd (upd_tab (salt_db_txn_finish q i ''ok'') w2)
                in (0, snd (salt_deploy_record env i w3))))"

text \<open>
  \<open>btrfs\<close> and \<open>newroot\<close> stand for \<^verbatim>\<open>rollback_btrfs\<close> and the update of the new root's boot files.
\<close>

definition cmd_rollback ::
    "(int \<Rightarrow> string \<Rightarrow> world \<Rightarrow> (salt_rc \<times> int \<times> string) \<times> world) \<Rightarrow> (string \<Rightarrow> world \<Rightarrow> world) \<Rightarrow>
     sys \<Rightarrow> Options \<Rightarrow> string list \<Rightarrow> world \<Rightarrow> int \<times> world" where
  "cmd_rollback btrfs newroot y opt args w =
     (let env = sys_env y;
          (target, rest) = (if args = [] then (0, []) else c_strtol (hd args))
      in if args \<noteq> [] \<and> (rest \<noteq> [] \<or> target \<le> 0) then (2, w)
         else if \<not> sql_ok (env_sql env) SqlOpen then (1, w)
         else let (r, w1) = salt_rollback_to btrfs env (salt_ctx_init env (o_root opt)) target w
              in if rb_rc r \<noteq> SALT_OK then (1, w1)
                 else (if rb_reboot r then 3 else 0,
                       case rb_new_root r of
                         Some nr \<Rightarrow> newroot nr w1
                       | None \<Rightarrow> snd (boot_update_root y opt True True w1)))"

definition cmd_pin :: "sys \<Rightarrow> Options \<Rightarrow> string list \<Rightarrow> world \<Rightarrow> int \<times> world" where
  "cmd_pin y opt args w =
     (let q = env_sql (sys_env y);
          is_unpin = (\<lambda>a. a = ''--unpin'' \<or> a = ''-u'');
          unpin = list_ex is_unpin args;
          rest = filter (\<lambda>a. \<not> is_unpin a) args
      in if length rest \<noteq> 1 then (2, w)
         else let (i, end) = c_strtol (hd rest) in
              if end \<noteq> [] \<or> i \<le> 0 then (2, w)
              else if \<not> sql_ok q SqlOpen then (1, w)
              else let (rc, w1) = upd_tab (salt_deploy_pin q i (\<not> unpin)) w
                   in (if rc = SALT_OK then 0 else 1, w1))"

definition cmd_boot :: "sys \<Rightarrow> Options \<Rightarrow> string list \<Rightarrow> world \<Rightarrow> int \<times> world" where
  "cmd_boot y opt args w =
     (let sub = (if args = [] then ''status'' else hd args);
          c = load_boot_conf y (o_root opt);
          on_fs = (\<lambda>f. let (rc, fs) = f (w_fs w) in (rc, w\<lparr>w_fs := fs\<rparr>))
      in if bc_loader c = ''none'' then (if sub = ''status'' then 0 else 1, w)
         else if bc_loader c = ''tryboot'' then
           (if sub \<in> {''update'', ''try'', ''confirm'', ''status''}
            then tryboot_tool y c (o_root opt) (''kernel-'' @ sub) [] else 2, w)
         else if bc_loader c \<noteq> ''grub'' then (1, w)
         else if sub = ''status'' then (grub_status c (w_fs w), w)
         else if \<not> sql_ok (env_sql (sys_env y)) SqlOpen then (1, w)
         else if sub = ''update'' then on_fs (grub_update y opt c (w_tab w) False True)
         else if sub = ''try'' then on_fs (grub_try y c (w_tab w))
         else if sub = ''confirm'' then on_fs (grub_confirm y c (w_tab w))
         else (2, w))"

end
