(* ===== verification/Salt_Dfs.thy ===== *)
theory Salt_Dfs
  imports Salt_Prelude
begin

text \<open>
  Depth-first traversals with a set of visited names and an output list in post-order.  The package
  manager has four of them (\<^verbatim>\<open>resolve\<close>, the local \<^verbatim>\<open>visit\<close> of \<^verbatim>\<open>order_by_deps\<close> and of
  \<^verbatim>\<open>native_remove\<close>, \<^verbatim>\<open>resolve_cfg\<close>); each is a recursion on fuel in its own theory and an
  interpretation of the locale below, which shows what they share: enough fuel always gives a
  result, the output has no duplicates, every successor of an output node has been visited, and on
  an acyclic graph successors come first.
\<close>

lemma ofold_all:
  assumes "ofold f xs s = Some s'" and "\<And>s. R s s" and "\<And>s t u. R s t \<Longrightarrow> R t u \<Longrightarrow> R s u"
    and step: "\<And>x s s'. x \<in> set xs \<Longrightarrow> f x s = Some s' \<Longrightarrow> R s s' \<and> Q x s'"
    and mono: "\<And>x s s'. Q x s \<Longrightarrow> R s s' \<Longrightarrow> Q x s'"
  shows "R s s' \<and> (\<forall>x \<in> set xs. Q x s')"
  using assms(1) step
proof (induction xs arbitrary: s)
  case Nil
  then show ?case by (simp add: assms(2))
next
  case (Cons x xs)
  from Cons.prems(1) obtain t where t: "f x s = Some t" "ofold f xs t = Some s'"
    by (auto split: option.splits)
  have 1: "R s t" "Q x t" using Cons.prems(2) [of x s t] t(1) by auto
  have 2: "R t s' \<and> (\<forall>x \<in> set xs. Q x s')" using Cons.IH [OF t(2)] Cons.prems(2) by auto
  then show ?case using assms(3) [OF 1(1)] mono [OF 1(2)] by auto
qed

text \<open>
  A \<open>valid\<close> call \<open>c\<close> visits the name \<open>key c\<close>; it marks the name, calls itself on \<open>children c\<close> and finally
  appends \<open>emit c\<close> to the output, or records a problem when there is nothing to emit.
\<close>

locale postorder_dfs =
  fixes valid :: "'c \<Rightarrow> bool"
    and visit :: "nat \<Rightarrow> 'c \<Rightarrow> 's \<Rightarrow> 's option"
    and key :: "'c \<Rightarrow> 'n"
    and children :: "'c \<Rightarrow> 'c list"
    and seen :: "'s \<Rightarrow> 'n set"
    and out :: "'s \<Rightarrow> 'o list"
    and bad :: "'s \<Rightarrow> bool"
    and mark :: "'c \<Rightarrow> 's \<Rightarrow> 's"
    and post :: "'c \<Rightarrow> 's \<Rightarrow> 's"
    and emit :: "'c \<Rightarrow> 'o option"
    and okey :: "'o \<Rightarrow> 'n"
    and kids :: "'o \<Rightarrow> 'n list"
  assumes visit_0: "visit 0 c s = None"
    and visit_seen: "key c \<in> seen s \<Longrightarrow> visit (Suc n) c s = Some s"
    and visit_step: "key c \<notin> seen s \<Longrightarrow>
        visit (Suc n) c s = map_option (post c) (ofold (visit n) (children c) (mark c s))"
    and seen_mark: "seen (mark c s) = insert (key c) (seen s)"
    and out_mark: "out (mark c s) = out s"
    and bad_mark: "bad (mark c s) = bad s"
    and seen_post: "seen (post c s) = seen s"
    and out_post: "out (post c s) = out s @ (case emit c of Some o' \<Rightarrow> [o'] | None \<Rightarrow> [])"
    and valid_children: "valid c \<Longrightarrow> d \<in> set (children c) \<Longrightarrow> valid d"
    and bad_post: "valid c \<Longrightarrow> bad (post c s) \<longleftrightarrow> bad s \<or> emit c = None"
    and emit_key: "emit c = Some o' \<Longrightarrow> okey o' = key c \<and> kids o' = map key (children c)"
begin

text \<open>\<open>extz s zs s'\<close>: the run from \<open>s\<close> to \<open>s'\<close> has output \<open>zs\<close>.\<close>

definition extz :: "'s \<Rightarrow> 'o list \<Rightarrow> 's \<Rightarrow> bool" where
  "extz s zs s' \<longleftrightarrow> seen s \<subseteq> seen s' \<and> (bad s \<longrightarrow> bad s') \<and>
     out s' = out s @ zs \<and> distinct (map okey zs) \<and> okey ` set zs \<subseteq> seen s' - seen s \<and>
     (\<forall>z \<in> set zs. set (kids z) \<subseteq> seen s' \<and> (\<exists>c. valid c \<and> emit c = Some z)) \<and>
     (\<not> bad s' \<longrightarrow> seen s' - seen s \<subseteq> okey ` set zs)"

definition ext :: "'s \<Rightarrow> 's \<Rightarrow> bool" where
  "ext s s' \<longleftrightarrow> (\<exists>zs. extz s zs s')"

lemma extz_trans:
  assumes "extz s xs t" "extz t ys u" shows "extz s (xs @ ys) u"
proof -
  have x: "seen s \<subseteq> seen t" "bad s \<longrightarrow> bad t" "out t = out s @ xs" "distinct (map okey xs)"
    "okey ` set xs \<subseteq> seen t - seen s" "\<forall>z \<in> set xs. set (kids z) \<subseteq> seen t \<and> (\<exists>c. valid c \<and> emit c = Some z)"
    "\<not> bad t \<longrightarrow> seen t - seen s \<subseteq> okey ` set xs" using assms(1) unfolding extz_def by blast+
  have y: "seen t \<subseteq> seen u" "bad t \<longrightarrow> bad u" "out u = out t @ ys" "distinct (map okey ys)"
    "okey ` set ys \<subseteq> seen u - seen t" "\<forall>z \<in> set ys. set (kids z) \<subseteq> seen u \<and> (\<exists>c. valid c \<and> emit c = Some z)"
    "\<not> bad u \<longrightarrow> seen u - seen t \<subseteq> okey ` set ys" using assms(2) unfolding extz_def by blast+
  have "distinct (map okey (xs @ ys))" using x(4,5) y(4,5) by auto
  moreover have "okey ` set (xs @ ys) \<subseteq> seen u - seen s" using x(1,5) y(1,5) by auto
  moreover have "\<not> bad u \<longrightarrow> seen u - seen s \<subseteq> okey ` set (xs @ ys)" using x(7) y(2,7) by auto
  moreover have "\<forall>z \<in> set (xs @ ys). set (kids z) \<subseteq> seen u \<and> (\<exists>c. valid c \<and> emit c = Some z)" using x(6) y(1,6) by auto
  ultimately show ?thesis using x(1-3) y(1-3) by (simp add: extz_def)
qed

lemma ext_refl: "ext s s"
  by (auto simp: ext_def extz_def)

lemma ext_trans: "ext s t \<Longrightarrow> ext t u \<Longrightarrow> ext s u"
  unfolding ext_def using extz_trans by blast

lemma ext_seen: "ext s s' \<Longrightarrow> seen s \<subseteq> seen s'"
  by (auto simp: ext_def extz_def)

lemma ext_bad: "ext s s' \<Longrightarrow> \<not> bad s' \<Longrightarrow> \<not> bad s"
  by (auto simp: ext_def extz_def)

lemma ext_out: "ext s s' \<Longrightarrow> \<not> bad s' \<Longrightarrow> seen s' \<subseteq> seen s \<union> okey ` set (out s') \<and> set (out s) \<subseteq> set (out s')"
  by (auto simp: ext_def extz_def)

text \<open>The same for a whole run that starts with nothing visited and ends without a problem.\<close>

lemma run_output:
  assumes "ext s s'" "seen s = {}" "out s = []" "\<not> bad s'"
  shows "distinct (map okey (out s'))" "okey ` set (out s') = seen s'"
    "\<And>z. z \<in> set (out s') \<Longrightarrow> set (kids z) \<subseteq> okey ` set (out s')"
    "\<And>z. z \<in> set (out s') \<Longrightarrow> \<exists>c. valid c \<and> emit c = Some z"
proof -
  have "extz s (out s') s'" using assms(1,3) by (auto simp: ext_def extz_def)
  then show "distinct (map okey (out s'))" "okey ` set (out s') = seen s'"
    "\<And>z. z \<in> set (out s') \<Longrightarrow> set (kids z) \<subseteq> okey ` set (out s')"
    "\<And>z. z \<in> set (out s') \<Longrightarrow> \<exists>c. valid c \<and> emit c = Some z"
    using assms(2,4) unfolding extz_def by blast+
qed

lemma visit_ext: "visit n c s = Some s' \<Longrightarrow> valid c \<Longrightarrow> ext s s' \<and> key c \<in> seen s'"
proof (induction n arbitrary: c s s')
  case 0
  then show ?case by (simp add: visit_0)
next
  case (Suc n)
  show ?case
  proof (cases "key c \<in> seen s")
    case True
    then show ?thesis using Suc.prems visit_seen ext_refl by auto
  next
    case False
    then obtain t where t: "ofold (visit n) (children c) (mark c s) = Some t" "s' = post c t"
      using Suc.prems visit_step by auto
    have "ext (mark c s) t \<and> (\<forall>d \<in> set (children c). key d \<in> seen t)"
      by (rule ofold_all [OF t(1) ext_refl ext_trans, where Q = "\<lambda>d s. key d \<in> seen s"])
        (use Suc.IH valid_children [OF Suc.prems(2)] ext_seen in blast)+
    then obtain zs where zs: "extz (mark c s) zs t" and ch: "\<forall>d \<in> set (children c). key d \<in> seen t"
      unfolding ext_def by blast
    then have z: "out t = out s @ zs" "distinct (map okey zs)"
      "okey ` set zs \<subseteq> seen t - insert (key c) (seen s)"
      "\<forall>z \<in> set zs. set (kids z) \<subseteq> seen t \<and> (\<exists>c. valid c \<and> emit c = Some z)"
      "\<not> bad t \<longrightarrow> seen t - insert (key c) (seen s) \<subseteq> okey ` set zs"
      and m: "insert (key c) (seen s) \<subseteq> seen t" "bad s \<longrightarrow> bad t"
      unfolding extz_def seen_mark out_mark bad_mark by auto
    have e: "okey o' = key c" "set (kids o') \<subseteq> seen t" if "emit c = Some o'" for o'
      using emit_key [OF that] ch by auto
    let ?es = "case emit c of Some o' \<Rightarrow> [o'] | None \<Rightarrow> []"
    have "distinct (map okey (zs @ ?es))" using z(2,3) e by (auto split: option.splits)
    moreover have "okey ` set (zs @ ?es) \<subseteq> seen t - seen s" using z(3) e m False by (auto split: option.splits)
    moreover have "\<forall>x \<in> set (zs @ ?es). set (kids x) \<subseteq> seen t \<and> (\<exists>c. valid c \<and> emit c = Some x)"
      using z(4) e(2) Suc.prems(2) by (cases "emit c") (auto simp: ball_Un)
    moreover have "\<not> (bad t \<or> emit c = None) \<longrightarrow> seen t - seen s \<subseteq> okey ` set (zs @ ?es)"
      using z(5) e by (auto split: option.splits)
    ultimately have "extz s (zs @ ?es) s'"
      unfolding extz_def t(2) seen_post out_post bad_post [OF Suc.prems(2)] using z(1) m by simp
    then have "ext s s'" by (auto simp: ext_def)
    then show ?thesis using m t(2) seen_post by auto
  qed
qed

lemma visits_ext: "ofold (visit n) cs s = Some s' \<Longrightarrow> \<forall>c \<in> set cs. valid c \<Longrightarrow> ext s s' \<and> (\<forall>c \<in> set cs. key c \<in> seen s')"
  by (rule ofold_all [OF _ ext_refl ext_trans, where Q = "\<lambda>d s. key d \<in> seen s"])
    (use visit_ext ext_seen in blast)+

text \<open>The fuel that is enough: one more than the number of names not yet visited.\<close>

lemma visit_total:
  assumes fin: "finite U" and closed: "\<And>c d. key c \<in> U \<Longrightarrow> d \<in> set (children c) \<Longrightarrow> key d \<in> U"
  shows "valid c \<Longrightarrow> key c \<in> U \<Longrightarrow> card (U - seen s) < n \<Longrightarrow> \<exists>s'. visit n c s = Some s'"
proof (induction n arbitrary: c s)
  case (Suc n)
  show ?case
  proof (cases "key c \<in> seen s")
    case True
    then show ?thesis by (simp add: visit_seen)
  next
    case False
    have lt: "card (U - seen (mark c s)) < card (U - seen s)"
      using False Suc.prems(2) fin by (intro psubset_card_mono) (auto simp: seen_mark)
    have "\<exists>t. ofold (visit n) cs u = Some t" if "set cs \<subseteq> set (children c)" "seen (mark c s) \<subseteq> seen u" for cs u
      using that
    proof (induction cs arbitrary: u)
      case (Cons d ds)
      have "card (U - seen u) \<le> card (U - seen (mark c s))" using Cons.prems(2) fin by (intro card_mono) auto
      then have "card (U - seen u) < n" using lt Suc.prems(3) by simp
      moreover have vd: "valid d" using valid_children [OF Suc.prems(1)] Cons.prems(1) by simp
      ultimately obtain v where v: "visit n d u = Some v"
        using Suc.IH [of d u] closed [OF Suc.prems(2)] Cons.prems(1) by auto
      then have "seen u \<subseteq> seen v" using visit_ext [OF _ vd] ext_seen by blast
      then show ?case using Cons.IH [of v] Cons.prems v by auto
    qed simp
    then obtain t where "ofold (visit n) (children c) (mark c s) = Some t" by blast
    then show ?thesis using visit_step [OF False] by simp
  qed
qed simp

lemma visits_total:
  assumes "finite U" "\<And>c d. key c \<in> U \<Longrightarrow> d \<in> set (children c) \<Longrightarrow> key d \<in> U"
  shows "\<forall>c \<in> set cs. valid c \<Longrightarrow> key ` set cs \<subseteq> U \<Longrightarrow> card U < n \<Longrightarrow> \<exists>s'. ofold (visit n) cs s = Some s'"
proof (induction cs arbitrary: s)
  case (Cons c cs)
  have "card (U - seen s) < n" using Cons.prems(3) assms(1) by (meson card_mono Diff_subset le_less_trans)
  then obtain t where "visit n c s = Some t" using visit_total [of U c s n] assms Cons.prems(1,2) by auto
  then show ?case using Cons by auto
qed simp

text \<open>Only what is reachable is visited.\<close>

lemma visit_within:
  assumes "\<And>c d. key c \<in> U \<Longrightarrow> d \<in> set (children c) \<Longrightarrow> key d \<in> U"
  shows "visit n c s = Some s' \<Longrightarrow> key c \<in> U \<Longrightarrow> seen s \<subseteq> U \<Longrightarrow> seen s' \<subseteq> U"
proof (induction n arbitrary: c s s')
  case (Suc n)
  show ?case
  proof (cases "key c \<in> seen s")
    case True
    then show ?thesis using Suc.prems visit_seen by auto
  next
    case False
    then obtain t where t: "ofold (visit n) (children c) (mark c s) = Some t" "s' = post c t"
      using Suc.prems visit_step by auto
    have "seen t \<subseteq> U"
      by (rule ofold_inv [OF t(1)])
        (use Suc.IH Suc.prems(2,3) assms in \<open>auto simp: seen_mark\<close>)
    then show ?thesis by (simp add: t(2) seen_post)
  qed
qed (simp add: visit_0)

text \<open>Successors first.\<close>

definition kids_first :: "'o list \<Rightarrow> bool" where
  "kids_first xs \<longleftrightarrow> (\<forall>i < length xs. set (kids (xs ! i)) \<subseteq> okey ` set (take i xs))"

lemma kids_first_snoc: "kids_first (xs @ [x]) \<longleftrightarrow> kids_first xs \<and> set (kids x) \<subseteq> okey ` set xs"
  by (auto simp: kids_first_def nth_append less_Suc_eq)

lemma visit_order:
  assumes rank: "\<And>c d. valid c \<Longrightarrow> d \<in> set (children c) \<Longrightarrow> rank (key d) < (rank (key c) :: nat)"
  shows "visit n c s = Some s' \<Longrightarrow> valid c \<Longrightarrow> \<not> bad s' \<Longrightarrow> kids_first (out s) \<Longrightarrow>
     {x \<in> seen s. rank x \<le> rank (key c)} \<subseteq> okey ` set (out s) \<Longrightarrow> kids_first (out s')"
proof (induction n arbitrary: c s s')
  case (Suc n)
  show ?case
  proof (cases "key c \<in> seen s")
    case True
    then show ?thesis using Suc.prems visit_seen by auto
  next
    case False
    then obtain t where t: "ofold (visit n) (children c) (mark c s) = Some t" "s' = post c t"
      using Suc.prems visit_step by auto
    have nb: "\<not> bad t" "emit c \<noteq> None" using Suc.prems(3) t(2) bad_post [OF Suc.prems(2)] by auto
    have val: "\<forall>d \<in> set (children c). valid d" using valid_children [OF Suc.prems(2)] by blast
    have run: "ofold (visit n) cs u = Some t \<Longrightarrow> set cs \<subseteq> set (children c) \<Longrightarrow> kids_first (out u) \<Longrightarrow>
      {x \<in> seen u. rank x < rank (key c)} \<subseteq> okey ` set (out u) \<Longrightarrow>
      kids_first (out t) \<and> {x \<in> seen t. rank x < rank (key c)} \<subseteq> okey ` set (out t)" for cs u
    proof (induction cs arbitrary: u)
      case (Cons d ds)
      from Cons.prems(1) obtain v where v: "visit n d u = Some v" "ofold (visit n) ds v = Some t"
        by (auto split: option.splits)
      have r: "rank (key d) < rank (key c)" using Cons.prems(2) rank [OF Suc.prems(2)] by auto
      have vd: "valid d" "\<forall>c \<in> set ds. valid c" using val Cons.prems(2) by auto
      have e: "ext u v" "ext v t" using visit_ext [OF v(1) vd(1)] visits_ext [OF v(2) vd(2)] by auto
      then have nbv: "\<not> bad v" using nb ext_bad by blast
      have kf: "kids_first (out v)"
        by (rule Suc.IH [OF v(1) vd(1) nbv Cons.prems(3)]) (use Cons.prems(4) r in auto)
      have "{x \<in> seen v. rank x < rank (key c)} \<subseteq> okey ` set (out v)"
        using ext_out [OF e(1) nbv] Cons.prems(4) by blast
      then show ?case using Cons.IH [OF v(2)] Cons.prems(2) kf by simp
    qed simp
    have pre: "kids_first (out (mark c s))" "{x \<in> seen (mark c s). rank x < rank (key c)} \<subseteq> okey ` set (out (mark c s))"
      using Suc.prems(4,5) by (auto simp: out_mark seen_mark)
    note R = run [OF t(1) subset_refl pre]
    have ch: "\<forall>d \<in> set (children c). key d \<in> seen t" using visits_ext [OF t(1) val] by simp
    obtain o' where o': "emit c = Some o'" using nb by auto
    have "set (kids o') \<subseteq> okey ` set (out t)"
      using emit_key [OF o'] ch rank [OF Suc.prems(2)] R by auto
    then show ?thesis using R by (simp add: t(2) out_post o' kids_first_snoc)
  qed
qed (simp add: visit_0)

lemma visits_order:
  assumes rank: "\<And>c d. valid c \<Longrightarrow> d \<in> set (children c) \<Longrightarrow> rank (key d) < (rank (key c) :: nat)"
  shows "ofold (visit n) cs s = Some s' \<Longrightarrow> \<forall>c \<in> set cs. valid c \<Longrightarrow> \<not> bad s' \<Longrightarrow> kids_first (out s) \<Longrightarrow>
     seen s \<subseteq> okey ` set (out s) \<Longrightarrow> kids_first (out s')"
proof (induction cs arbitrary: s)
  case (Cons c cs)
  from Cons.prems(1) obtain t where t: "visit n c s = Some t" "ofold (visit n) cs t = Some s'"
    by (auto split: option.splits)
  have e: "ext s t" "ext t s'" using visit_ext [OF t(1)] visits_ext [OF t(2)] Cons.prems(2) by auto
  then have nb: "\<not> bad t" using Cons.prems(3) ext_bad by blast
  have "kids_first (out t)"
    by (rule visit_order [where rank = rank, OF rank t(1) _ nb Cons.prems(4)]) (use Cons.prems(2,5) in auto)
  moreover have "seen t \<subseteq> okey ` set (out t)" using ext_out [OF e(1) nb] Cons.prems(5) by blast
  ultimately show ?case using Cons.IH [OF t(2) _ Cons.prems(3)] Cons.prems(2) by simp
qed simp

end

end
