(* ===== verification/Salt_Resolve.thy ===== *)
theory Salt_Resolve
  imports Salt_Repo Salt_Db Salt_Dfs "HOL-Library.Multiset"
begin

text \<open>
  Planning (\<^verbatim>\<open>src/salt/cmd_install.cpp\<close>): dependency resolution, ordering, and the checks that a plan
  passes before anything is changed.

  The recursive functions take fuel.  \<open>resolve_targets\<close>, \<open>order_by_deps\<close> and
  \<open>remove_order\<close> give them one more than the number of names that can be visited and are
  shown to return always.
\<close>

section \<open>Resolution\<close>

record NativePlan =
  pl_remove :: "string list"
  pl_install :: "salt_repo_entry list"

record resolve_state =
  rs_seen :: "string set"
  rs_order :: "salt_repo_entry list"
  rs_problems :: "string list"

definition wanted :: "tables \<Rightarrow> string set \<Rightarrow> string \<Rightarrow> bool" where
  "wanted t targets n \<longleftrightarrow> n \<in> targets \<or> \<not> salt_db_is_installed t n"

definition missing_problem :: "string \<Rightarrow> string \<Rightarrow> string" where
  "missing_problem name wanted_by =
     (if wanted_by = [] then ''package not found: '' @ name
      else ''dependency '' @ name @ '' of '' @ wanted_by @ '' is not available in the repository'')"

text \<open>A call is a name and the package that wants it, empty for a target.\<close>

primrec resolve :: "nat \<Rightarrow> salt_repo_index \<Rightarrow> tables \<Rightarrow> string set \<Rightarrow> bool \<Rightarrow> string \<times> string \<Rightarrow>
    resolve_state \<Rightarrow> resolve_state option" where
  "resolve 0 idx t targets nodeps c s = None"
| "resolve (Suc n) idx t targets nodeps c s =
     (if fst c \<in> rs_seen s then Some s
      else let s1 = s\<lparr>rs_seen := insert (fst c) (rs_seen s)\<rparr> in
        case salt_repo_index_find idx (fst c) of
          None \<Rightarrow> Some (s1\<lparr>rs_problems := rs_problems s1 @ [missing_problem (fst c) (snd c)]\<rparr>)
        | Some e \<Rightarrow>
            (case ofold (\<lambda>dep s. if wanted t targets dep
                           then resolve n idx t targets nodeps (dep, fst c) s else Some s)
                   (if nodeps then [] else re_deps e) s1 of
               None \<Rightarrow> None
             | Some s2 \<Rightarrow>
                 Some (if wanted t targets (fst c) then s2\<lparr>rs_order := rs_order s2 @ [e]\<rparr> else s2)))"

definition resolve_fuel :: "salt_repo_index \<Rightarrow> string list \<Rightarrow> nat" where
  "resolve_fuel idx names = Suc (length names + length (concat (map re_deps (ri_items idx))))"

text \<open>The loop of \<^verbatim>\<open>do_install\<close> over the set of targets.\<close>

definition resolve_targets :: "salt_repo_index \<Rightarrow> tables \<Rightarrow> string list \<Rightarrow> bool \<Rightarrow> resolve_state option" where
  "resolve_targets idx t names nodeps =
     ofold (\<lambda>n. resolve (resolve_fuel idx names) idx t (set names) nodeps (n, []))
       (sorted_list_of_set (set names)) \<lparr>rs_seen = {}, rs_order = [], rs_problems = []\<rparr>"

section \<open>Ordering\<close>

definition byname :: "salt_repo_entry list \<Rightarrow> string \<Rightarrow> salt_repo_entry option" where
  "byname items = map_of (rev (map (\<lambda>e. (re_name e, e)) items))"

record order_state =
  os_done :: "string set"
  os_out :: "salt_repo_entry list"

primrec order_visit :: "nat \<Rightarrow> (string \<Rightarrow> salt_repo_entry option) \<Rightarrow> salt_repo_entry \<Rightarrow> order_state \<Rightarrow> order_state option"
where
  "order_visit 0 bn e s = None"
| "order_visit (Suc n) bn e s =
     (if re_name e \<in> os_done s then Some s
      else map_option (\<lambda>s. s\<lparr>os_out := os_out s @ [e]\<rparr>)
             (ofold (\<lambda>d s. case bn d of None \<Rightarrow> Some s | Some e' \<Rightarrow> order_visit n bn e' s) (re_deps e)
               (s\<lparr>os_done := insert (re_name e) (os_done s)\<rparr>)))"

definition order_by_deps :: "salt_repo_entry list \<Rightarrow> salt_repo_entry list option" where
  "order_by_deps items =
     map_option os_out (ofold (order_visit (Suc (length items)) (byname items)) items \<lparr>os_done = {}, os_out = []\<rparr>)"

section \<open>Checks on a plan\<close>

definition leaving :: "NativePlan \<Rightarrow> string set" where
  "leaving p = set (pl_remove p) \<union> re_name ` set (pl_install p)"

definition conflict_ok :: "tables \<Rightarrow> NativePlan \<Rightarrow> salt_repo_entry \<Rightarrow> string \<Rightarrow> bool" where
  "conflict_ok t p e c \<longleftrightarrow>
     c = re_name e \<or>
     \<not> (c \<in> re_name ` set (pl_install p) \<or> salt_db_is_installed t c \<and> c \<notin> leaving p)"

definition check_conflicts :: "tables \<Rightarrow> NativePlan \<Rightarrow> bool" where
  "check_conflicts t p \<longleftrightarrow>
     list_all (\<lambda>e. list_all (conflict_ok t p e) (re_conflicts e) \<and>
        list_all (\<lambda>who. who = re_name e \<or> who \<in> leaving p) (salt_db_conflicts_with t (re_name e)))
       (pl_install p)"

definition gone :: "NativePlan \<Rightarrow> string set" where
  "gone p = set (pl_remove p) - re_name ` set (pl_install p)"

definition check_dangling :: "tables \<Rightarrow> NativePlan \<Rightarrow> bool" where
  "check_dangling t p \<longleftrightarrow>
     list_all (\<lambda>n. list_all (\<lambda>who. who \<in> gone p \<or> who \<in> re_name ` set (pl_install p) \<or>
          \<not> salt_db_is_installed t who) (salt_db_revdeps t n))
       (sorted_list_of_set (gone p))"

section \<open>Removal\<close>

text \<open>
  The work list of \<^verbatim>\<open>--cascade\<close>.  \<^verbatim>\<open>work.back ()\<close> is the head of the list here.  Every name pushed is
  installed and new in the set, so the loop ends.
\<close>

definition cascade_push :: "tables \<Rightarrow> string \<Rightarrow> string set \<times> string list \<Rightarrow> string set \<times> string list" where
  "cascade_push t who s =
     (if who \<notin> fst s \<and> salt_db_is_installed t who then (insert who (fst s), who # snd s) else s)"

lemma cascade_push_fold:
  "\<exists>xs. fold (cascade_push t) ws (S, work) = (S \<union> set xs, xs @ work) \<and> set xs \<inter> S = {} \<and>
     set xs \<subseteq> {w \<in> set ws. salt_db_is_installed t w} \<and> {w \<in> set ws. salt_db_is_installed t w} \<subseteq> S \<union> set xs"
proof (induction ws arbitrary: S work)
  case Nil
  then show ?case by (intro exI [of _ "[]"]) simp
next
  case (Cons w ws)
  show ?case
  proof (cases "w \<notin> S \<and> salt_db_is_installed t w")
    case True
    obtain xs where xs: "fold (cascade_push t) ws (insert w S, w # work) = (insert w S \<union> set xs, xs @ w # work)"
      "set xs \<inter> insert w S = {}" "set xs \<subseteq> {w \<in> set ws. salt_db_is_installed t w}"
      "{w \<in> set ws. salt_db_is_installed t w} \<subseteq> insert w S \<union> set xs"
      using Cons.IH [of "insert w S" "w # work"] by blast
    moreover have "cascade_push t w (S, work) = (insert w S, w # work)" using True by (simp add: cascade_push_def)
    ultimately show ?thesis using True by (intro exI [of _ "xs @ [w]"]) auto
  next
    case False
    then have "cascade_push t w (S, work) = (S, work)" by (auto simp: cascade_push_def)
    then show ?thesis using Cons.IH [of S work] False by auto
  qed
qed

function cascade :: "tables \<Rightarrow> string list \<Rightarrow> string set \<Rightarrow> string set" where
  "cascade t [] S = S"
| "cascade t (n # work) S =
     (let r = fold (cascade_push t) (salt_db_revdeps t n) (S, work) in cascade t (snd r) (fst r))"
  by pat_completeness auto
termination
proof (relation "measures [\<lambda>(t, work, S). card (dp_name ` set (t_packages t) - S), \<lambda>(t, work, S). length work]")
  fix t n work S and r :: "string set \<times> string list"
  assume r: "r = fold (cascade_push t) (salt_db_revdeps t n) (S, work)"
  obtain xs where xs: "r = (S \<union> set xs, xs @ work)" "set xs \<inter> S = {}"
    "set xs \<subseteq> {w \<in> set (salt_db_revdeps t n). salt_db_is_installed t w}"
    using cascade_push_fold [of t "salt_db_revdeps t n" S work] r by auto
  let ?I = "dp_name ` set (t_packages t)"
  show "((t, snd r, fst r), t, n # work, S) \<in> measures
    [\<lambda>(t, work, S). card (dp_name ` set (t_packages t) - S), \<lambda>(t, work, S). length work]"
  proof (cases "xs = []")
    case True
    then show ?thesis by (simp add: xs(1))
  next
    case False
    then obtain x where x: "x \<in> set xs" by fastforce
    then have "x \<in> ?I - S" using xs by (auto simp: installed_iff)
    then have "card (?I - (S \<union> set xs)) < card (?I - S)" using x by (intro psubset_card_mono) auto
    then show ?thesis by (simp add: xs(1))
  qed
qed simp

record remove_state =
  rm_done :: "string set"
  rm_order :: "string list"

primrec remove_visit :: "nat \<Rightarrow> tables \<Rightarrow> string set \<Rightarrow> string \<Rightarrow> remove_state \<Rightarrow> remove_state option" where
  "remove_visit 0 t S n s = None"
| "remove_visit (Suc k) t S n s =
     (if n \<in> rm_done s then Some s
      else map_option (\<lambda>s. s\<lparr>rm_order := rm_order s @ [n]\<rparr>)
             (ofold (\<lambda>w s. if w \<in> S then remove_visit k t S w s else Some s) (salt_db_revdeps t n)
               (s\<lparr>rm_done := insert n (rm_done s)\<rparr>)))"

definition remove_set :: "tables \<Rightarrow> string list \<Rightarrow> bool \<Rightarrow> string set" where
  "remove_set t args casc = (if casc then cascade t (rev args) (set args) else set args)"

definition remove_order :: "tables \<Rightarrow> string set \<Rightarrow> string list option" where
  "remove_order t S =
     map_option rm_order (ofold (remove_visit (Suc (card S)) t S) (sorted_list_of_set S) \<lparr>rm_done = {}, rm_order = []\<rparr>)"

section \<open>The traversals are instances of the scheme\<close>

lemma ofold_filter: "ofold (\<lambda>x s. if P x then f x s else Some s) xs s = ofold f (filter P xs) s"
  by (induction xs arbitrary: s) (auto split: option.splits)

lemma ofold_map: "ofold f (map g xs) s = ofold (\<lambda>x. f (g x)) xs s"
  by (induction xs arbitrary: s) (auto split: option.splits)

lemma ofold_map_filter:
  "ofold (\<lambda>x s. case h x of None \<Rightarrow> Some s | Some y \<Rightarrow> f y s) xs s = ofold f (List.map_filter h xs) s"
  by (induction xs arbitrary: s) (auto simp: List.map_filter_simps split: option.splits)

definition resolve_kids :: "tables \<Rightarrow> string set \<Rightarrow> bool \<Rightarrow> salt_repo_entry \<Rightarrow> string list" where
  "resolve_kids t targets nodeps e = filter (wanted t targets) (if nodeps then [] else re_deps e)"

definition resolve_children :: "salt_repo_index \<Rightarrow> tables \<Rightarrow> string set \<Rightarrow> bool \<Rightarrow> string \<times> string \<Rightarrow> (string \<times> string) list" where
  "resolve_children idx t targets nodeps c =
     (case salt_repo_index_find idx (fst c) of None \<Rightarrow> []
      | Some e \<Rightarrow> map (\<lambda>d. (d, fst c)) (resolve_kids t targets nodeps e))"

definition resolve_post :: "salt_repo_index \<Rightarrow> tables \<Rightarrow> string set \<Rightarrow> string \<times> string \<Rightarrow> resolve_state \<Rightarrow> resolve_state" where
  "resolve_post idx t targets c s =
     (case salt_repo_index_find idx (fst c) of
        None \<Rightarrow> s\<lparr>rs_problems := rs_problems s @ [missing_problem (fst c) (snd c)]\<rparr>
      | Some e \<Rightarrow> if wanted t targets (fst c) then s\<lparr>rs_order := rs_order s @ [e]\<rparr> else s)"

interpretation res: postorder_dfs "\<lambda>c. wanted t targets (fst c)" "\<lambda>n. resolve n idx t targets nodeps" fst
    "resolve_children idx t targets nodeps" rs_seen rs_order "\<lambda>s. rs_problems s \<noteq> []"
    "\<lambda>c s. s\<lparr>rs_seen := insert (fst c) (rs_seen s)\<rparr>" "resolve_post idx t targets"
    "\<lambda>c. case salt_repo_index_find idx (fst c) of None \<Rightarrow> None | Some e \<Rightarrow> if wanted t targets (fst c) then Some e else None"
    re_name "resolve_kids t targets nodeps"
  for idx t targets nodeps
proof unfold_locales
  fix c :: "string \<times> string" and s :: resolve_state and n
  assume "fst c \<notin> rs_seen s"
  then show "resolve (Suc n) idx t targets nodeps c s =
    map_option (resolve_post idx t targets c)
      (ofold (resolve n idx t targets nodeps) (resolve_children idx t targets nodeps c)
        (s\<lparr>rs_seen := insert (fst c) (rs_seen s)\<rparr>))"
    by (auto simp: resolve_post_def resolve_children_def resolve_kids_def Let_def ofold_filter ofold_map comp_def
        split: option.splits)
qed (auto simp: resolve_post_def resolve_children_def resolve_kids_def comp_def
    dest!: salt_repo_index_find_name split: option.splits if_splits)

lemma byname_Some: "byname items n = Some e \<Longrightarrow> e \<in> set items \<and> re_name e = n"
  unfolding byname_def by (auto dest!: map_of_SomeD)

lemma map_filter_byname: "e \<in> set (List.map_filter (byname items) ds) \<longleftrightarrow> (\<exists>d \<in> set ds. byname items d = Some e)"
  by (induction ds) (auto simp: List.map_filter_simps split: option.splits)

interpretation ord: postorder_dfs "\<lambda>e. e \<in> set items" "\<lambda>n. order_visit n (byname items)" re_name
    "\<lambda>e. List.map_filter (byname items) (re_deps e)" os_done os_out "\<lambda>s. False"
    "\<lambda>e s. s\<lparr>os_done := insert (re_name e) (os_done s)\<rparr>" "\<lambda>e s. s\<lparr>os_out := os_out s @ [e]\<rparr>" Some
    re_name "\<lambda>e. map re_name (List.map_filter (byname items) (re_deps e))"
  for items
  by unfold_locales (auto simp: ofold_map_filter map_filter_byname dest: byname_Some)

interpretation rem: postorder_dfs "\<lambda>n. True" "\<lambda>k. remove_visit k t S" "\<lambda>n. n"
    "\<lambda>n. filter (\<lambda>w. w \<in> S) (salt_db_revdeps t n)" rm_done rm_order "\<lambda>s. False"
    "\<lambda>n s. s\<lparr>rm_done := insert n (rm_done s)\<rparr>" "\<lambda>n s. s\<lparr>rm_order := rm_order s @ [n]\<rparr>" Some
    "\<lambda>n. n" "\<lambda>n. filter (\<lambda>w. w \<in> S) (salt_db_revdeps t n)"
  for t S
  by unfold_locales (simp_all add: ofold_filter)

subsection \<open>Resolution\<close>

lemma find_in_items: "salt_repo_index_find idx n = Some e \<Longrightarrow> e \<in> set (ri_items idx) \<and> re_name e = n"
  using salt_repo_index_find_name by blast

lemma resolve_children_dep:
  assumes "d \<in> set (resolve_children idx t targets nodeps c)"
  obtains e where "e \<in> set (ri_items idx)" "re_name e = fst c" "fst d \<in> set (re_deps e)"
  using assms find_in_items [of idx "fst c"]
  by (cases "salt_repo_index_find idx (fst c)") (auto simp: resolve_children_def resolve_kids_def split: if_splits)

lemma resolve_total: "\<exists>s. resolve_targets idx t names nodeps = Some s"
proof -
  let ?U = "set names \<union> set (concat (map re_deps (ri_items idx)))"
  have card: "card ?U < resolve_fuel idx names"
    using card_length [of "names @ concat (map re_deps (ri_items idx))"] by (simp add: resolve_fuel_def)
  have closed: "fst d \<in> ?U" if "d \<in> set (resolve_children idx t (set names) nodeps c)" for c d
    using that by (rule resolve_children_dep) auto
  have "\<exists>s'. ofold (resolve (resolve_fuel idx names) idx t (set names) nodeps)
      (map (\<lambda>n. (n, [])) (sorted_list_of_set (set names))) s = Some s'" for s
    by (rule res.visits_total [where U = ?U]) (use card closed in \<open>auto simp: wanted_def\<close>)
  then show ?thesis by (simp add: resolve_targets_def ofold_map)
qed

lemma resolve_targets_ext:
  assumes "resolve_targets idx t names nodeps = Some s"
  shows "res.ext t (set names) idx nodeps \<lparr>rs_seen = {}, rs_order = [], rs_problems = []\<rparr> s \<and> set names \<subseteq> rs_seen s"
proof -
  have run: "ofold (resolve (resolve_fuel idx names) idx t (set names) nodeps)
      (map (\<lambda>n. (n, [])) (sorted_list_of_set (set names))) \<lparr>rs_seen = {}, rs_order = [], rs_problems = []\<rparr> = Some s"
    using assms by (simp add: resolve_targets_def ofold_map)
  show ?thesis using res.visits_ext [OF run] by (auto simp: wanted_def)
qed

lemma resolve_targets_spec:
  assumes "resolve_targets idx t names nodeps = Some s" "rs_problems s = []"
  shows "distinct (map re_name (rs_order s))" "set names \<subseteq> re_name ` set (rs_order s)"
    "\<And>e. e \<in> set (rs_order s) \<Longrightarrow> salt_repo_index_find idx (re_name e) = Some e"
    "\<And>e d. e \<in> set (rs_order s) \<Longrightarrow> \<not> nodeps \<Longrightarrow> d \<in> set (re_deps e) \<Longrightarrow>
        d \<in> re_name ` set (rs_order s) \<or> salt_db_is_installed t d \<and> d \<notin> set names"
proof -
  let ?s0 = "\<lparr>rs_seen = {}, rs_order = [], rs_problems = []\<rparr>"
  note E = resolve_targets_ext [OF assms(1)]
  note R = res.run_output [OF conjunct1 [OF E], simplified, OF assms(2)]
  show "distinct (map re_name (rs_order s))" by (rule R(1))
  show "set names \<subseteq> re_name ` set (rs_order s)" using E R(2) by simp
  show "salt_repo_index_find idx (re_name e) = Some e" if "e \<in> set (rs_order s)" for e
    using R(4) [OF that] by (auto split: option.splits if_splits dest: find_in_items)
  show "d \<in> re_name ` set (rs_order s) \<or> salt_db_is_installed t d \<and> d \<notin> set names"
    if "e \<in> set (rs_order s)" "\<not> nodeps" "d \<in> set (re_deps e)" for e d
    using R(3) [OF that(1)] that(2,3) by (auto simp: resolve_kids_def wanted_def)
qed

lemma resolve_targets_order:
  assumes "resolve_targets idx t names nodeps = Some s" "rs_problems s = []"
    and rank: "\<And>e d. e \<in> set (ri_items idx) \<Longrightarrow> d \<in> set (re_deps e) \<Longrightarrow> rank d < (rank (re_name e) :: nat)"
    and i: "i < length (rs_order s)" "\<not> nodeps" "d \<in> set (re_deps (rs_order s ! i))"
  shows "d \<in> re_name ` set (take i (rs_order s)) \<or> salt_db_is_installed t d \<and> d \<notin> set names"
proof -
  have run: "ofold (resolve (resolve_fuel idx names) idx t (set names) nodeps)
      (map (\<lambda>n. (n, [])) (sorted_list_of_set (set names))) \<lparr>rs_seen = {}, rs_order = [], rs_problems = []\<rparr> = Some s"
    using assms(1) by (simp add: resolve_targets_def ofold_map)
  have "res.kids_first t (set names) nodeps (rs_order s)"
  proof (rule res.visits_order [where rank = rank, OF _ run])
    fix c d assume "d \<in> set (resolve_children idx t (set names) nodeps c)"
    then show "rank (fst d) < rank (fst c)"
      by (rule resolve_children_dep) (use rank in metis)
  qed (use assms(2) in \<open>auto simp: wanted_def res.kids_first_def\<close>)
  then show ?thesis
    using i by (auto simp: res.kids_first_def resolve_kids_def wanted_def)
qed

subsection \<open>Ordering\<close>

lemma byname_name: "n \<in> re_name ` set items \<Longrightarrow> \<exists>e. byname items n = Some e"
proof -
  assume "n \<in> re_name ` set items"
  then have "map_of (rev (map (\<lambda>e. (re_name e, e)) items)) n \<noteq> None"
    by (auto simp: map_of_eq_None_iff image_image)
  then show ?thesis by (simp add: byname_def)
qed

lemma order_by_deps_total: "\<exists>out. order_by_deps items = Some out"
proof -
  have c: "card (re_name ` set items) < Suc (length items)"
    using card_image_le [of "set items" re_name] card_length [of items] by simp
  have "\<exists>s'. ofold (order_visit (Suc (length items)) (byname items)) items s = Some s'" for s
    by (rule ord.visits_total [where U = "re_name ` set items"])
      (use c in \<open>auto simp: map_filter_byname dest: byname_Some\<close>)
  then show ?thesis by (auto simp: order_by_deps_def)
qed

lemma order_by_deps_run:
  assumes "order_by_deps items = Some out"
  obtains s where "ofold (order_visit (Suc (length items)) (byname items)) items \<lparr>os_done = {}, os_out = []\<rparr> = Some s"
    "out = os_out s"
  using assms by (auto simp: order_by_deps_def)

lemma order_by_deps_spec:
  assumes out: "order_by_deps items = Some out"
  shows "distinct (map re_name out)" "set out \<subseteq> set items" "re_name ` set out = re_name ` set items"
    "distinct (map re_name items) \<Longrightarrow> set out = set items"
proof -
  from order_by_deps_run [OF out] obtain s where
    s: "ofold (order_visit (Suc (length items)) (byname items)) items \<lparr>os_done = {}, os_out = []\<rparr> = Some s"
      "out = os_out s" .
  have E: "ord.ext items \<lparr>os_done = {}, os_out = []\<rparr> s" "\<forall>e \<in> set items. re_name e \<in> os_done s"
    using ord.visits_ext [OF s(1)] by auto
  note R = ord.run_output [OF E(1), simplified]
  show "distinct (map re_name out)" using R(1) by (simp add: s(2))
  show sub: "set out \<subseteq> set items" using R(4) by (auto simp: s(2))
  show names: "re_name ` set out = re_name ` set items" using E(2) R(2) image_mono [OF sub, of re_name] by (auto simp: s(2))
  show "set out = set items" if "distinct (map re_name items)"
  proof
    show "set items \<subseteq> set out"
    proof
      fix e assume "e \<in> set items"
      moreover obtain e' where "e' \<in> set out" "re_name e' = re_name e" using names calculation by (metis imageE imageI)
      ultimately show "e \<in> set out" using sub that by (auto simp: distinct_map dest: inj_onD)
    qed
  qed (rule sub)
qed

lemma order_by_deps_first:
  assumes out: "order_by_deps items = Some out"
    and rank: "\<And>e d. e \<in> set items \<Longrightarrow> d \<in> set (re_deps e) \<Longrightarrow> rank d < (rank (re_name e) :: nat)"
    and i: "i < length out" "n \<in> set (re_deps (out ! i))" "n \<in> re_name ` set items"
  shows "n \<in> re_name ` set (take i out)"
proof -
  from order_by_deps_run [OF out] obtain s where
    s: "ofold (order_visit (Suc (length items)) (byname items)) items \<lparr>os_done = {}, os_out = []\<rparr> = Some s"
      "out = os_out s" .
  have "ord.kids_first items out"
    unfolding s(2)
    by (rule ord.visits_order [where rank = rank, OF _ s(1)])
      (use rank in \<open>auto simp: map_filter_byname ord.kids_first_def dest!: byname_Some\<close>)
  moreover obtain e where "byname items n = Some e" using byname_name [OF i(3)] by blast
  then have "e \<in> set (List.map_filter (byname items) (re_deps (out ! i)))" "re_name e = n"
    using i(2) byname_Some by (auto simp: map_filter_byname)
  ultimately show ?thesis using i(1) by (auto simp: ord.kids_first_def)
qed

subsection \<open>Removal\<close>

lemma cascade_closed:
  assumes "\<And>n w. n \<in> S \<Longrightarrow> n \<notin> set work \<Longrightarrow> w \<in> set (salt_db_revdeps t n) \<Longrightarrow> salt_db_is_installed t w \<Longrightarrow> w \<in> S"
    and "set work \<subseteq> S"
  shows "S \<subseteq> cascade t work S \<and> (\<forall>n \<in> cascade t work S. \<forall>w \<in> set (salt_db_revdeps t n).
      salt_db_is_installed t w \<longrightarrow> w \<in> cascade t work S)"
  using assms
proof (induction t work S rule: cascade.induct)
  case (2 t n work S)
  obtain xs where xs: "fold (cascade_push t) (salt_db_revdeps t n) (S, work) = (S \<union> set xs, xs @ work)"
    "{w \<in> set (salt_db_revdeps t n). salt_db_is_installed t w} \<subseteq> S \<union> set xs"
    using cascade_push_fold [of t "salt_db_revdeps t n" S work] by auto
  have "S \<union> set xs \<subseteq> cascade t (xs @ work) (S \<union> set xs) \<and>
    (\<forall>n \<in> cascade t (xs @ work) (S \<union> set xs). \<forall>w \<in> set (salt_db_revdeps t n).
      salt_db_is_installed t w \<longrightarrow> w \<in> cascade t (xs @ work) (S \<union> set xs))"
    using "2.IH" [OF refl, unfolded xs(1) fst_conv snd_conv]
  proof (rule)
    fix m w assume m: "m \<in> S \<union> set xs" "m \<notin> set (xs @ work)" "w \<in> set (salt_db_revdeps t m)" "salt_db_is_installed t w"
    show "w \<in> S \<union> set xs" using m xs(2) "2.prems"(1) [of m w] by (cases "m = n") auto
  qed (use "2.prems"(2) in auto)
  then show ?case by (simp add: xs(1))
qed simp

lemma cascade_installed: "(\<forall>n \<in> S. salt_db_is_installed t n) \<Longrightarrow> \<forall>n \<in> cascade t work S. salt_db_is_installed t n"
proof (induction t work S rule: cascade.induct)
  case (2 t n work S)
  obtain xs where xs: "fold (cascade_push t) (salt_db_revdeps t n) (S, work) = (S \<union> set xs, xs @ work)"
    "set xs \<subseteq> {w \<in> set (salt_db_revdeps t n). salt_db_is_installed t w}"
    using cascade_push_fold [of t "salt_db_revdeps t n" S work] by auto
  show ?case using "2.IH" [OF refl, unfolded xs(1) fst_conv snd_conv] xs "2.prems" by auto
qed simp

lemma remove_set_closed:
  assumes "n \<in> remove_set t args True" "w \<in> set (salt_db_revdeps t n)" "salt_db_is_installed t w"
  shows "w \<in> remove_set t args True"
  using cascade_closed [of "set args" "rev args" t] assms by (auto simp: remove_set_def)

lemma remove_set_args: "set args \<subseteq> remove_set t args casc"
  using cascade_closed [of "set args" "rev args" t] by (auto simp: remove_set_def)

lemma remove_set_installed:
  "(\<forall>n \<in> set args. salt_db_is_installed t n) \<Longrightarrow> n \<in> remove_set t args casc \<Longrightarrow> salt_db_is_installed t n"
  using cascade_installed [of "set args" t "rev args"] by (auto simp: remove_set_def split: if_splits)

lemma finite_remove_set: "finite (remove_set t args casc)"
proof -
  have "finite S \<Longrightarrow> finite (cascade t work S)" for work S
  proof (induction t work S rule: cascade.induct)
    case (2 t n work S)
    obtain xs where xs: "fold (cascade_push t) (salt_db_revdeps t n) (S, work) = (S \<union> set xs, xs @ work)"
      using cascade_push_fold [of t "salt_db_revdeps t n" S work] by auto
    then show ?case using "2.IH" [OF refl, unfolded xs(1) fst_conv snd_conv] "2.prems" by simp
  qed simp
  then show ?thesis by (simp add: remove_set_def)
qed

lemma remove_order_spec:
  assumes "finite S"
  shows "\<exists>order. remove_order t S = Some order \<and> distinct order \<and> set order = S"
proof -
  let ?s0 = "\<lparr>rm_done = {}, rm_order = []\<rparr>"
  have "\<exists>s'. ofold (remove_visit (Suc (card S)) t S) (sorted_list_of_set S) ?s0 = Some s'"
    by (rule rem.visits_total [where U = S]) (use assms in auto)
  then obtain s where s: "ofold (remove_visit (Suc (card S)) t S) (sorted_list_of_set S) ?s0 = Some s" by blast
  have E: "rem.ext S t ?s0 s" "S \<subseteq> rm_done s" using rem.visits_ext [OF s] assms by auto
  have w: "rm_done s \<subseteq> S"
  proof (rule ofold_inv [OF s, where P = "\<lambda>s. rm_done s \<subseteq> S"])
    fix x a b
    assume x: "x \<in> set (sorted_list_of_set S)" "rm_done a \<subseteq> S" "remove_visit (Suc (card S)) t S x a = Some b"
    show "rm_done b \<subseteq> S" by (rule rem.visit_within [where U = S, OF _ x(3)]) (use x(1,2) assms in auto)
  qed simp
  note R = rem.run_output [OF E(1), simplified]
  have "distinct (rm_order s)" "set (rm_order s) = S" using R(1,2) E(2) w by auto
  then show ?thesis using s by (auto simp: remove_order_def)
qed

text \<open>A dependent package is removed before what it depends on, unless they are in a cycle.\<close>

lemma remove_order_first:
  assumes "finite S" "remove_order t S = Some order"
    and rank: "\<And>n w. (w, n) \<in> set (t_deps t) \<Longrightarrow> rank w < (rank n :: nat)"
    and i: "i < length order" "(w, order ! i) \<in> set (t_deps t)" "w \<in> S"
  shows "w \<in> set (take i order)"
proof -
  let ?s0 = "\<lparr>rm_done = {}, rm_order = []\<rparr>"
  obtain s where s: "ofold (remove_visit (Suc (card S)) t S) (sorted_list_of_set S) ?s0 = Some s" "order = rm_order s"
    using assms(2) by (auto simp: remove_order_def)
  have dep: "(d, c) \<in> set (t_deps t)" if "d \<in> set (salt_db_revdeps t c)" for c d
    using that by (auto simp: salt_db_revdeps_def)
  have "rem.kids_first S t order"
    unfolding s(2)
    by (rule rem.visits_order [where rank = rank, OF _ s(1)])
      (use rank dep in \<open>auto simp: rem.kids_first_def\<close>)
  moreover have "w \<in> set (salt_db_revdeps t (order ! i))" using i(2) by (force simp: salt_db_revdeps_def)
  ultimately show ?thesis using i by (auto simp: rem.kids_first_def)
qed

subsection \<open>Checks\<close>

lemma revdeps_iff: "w \<in> set (salt_db_revdeps t n) \<longleftrightarrow> (w, n) \<in> set (t_deps t)"
  by (force simp: salt_db_revdeps_def)

lemma conflicts_with_iff: "w \<in> set (salt_db_conflicts_with t n) \<longleftrightarrow> (w, n) \<in> set (t_conflicts t)"
  by (force simp: salt_db_conflicts_with_def)

lemma revdeps_set: "set (salt_db_revdeps t n) = {w. (w, n) \<in> set (t_deps t)}"
  "set (salt_db_conflicts_with t n) = {w. (w, n) \<in> set (t_conflicts t)}"
  by (auto simp: revdeps_iff conflicts_with_iff)

lemma check_dangling_iff: "check_dangling t p \<longleftrightarrow>
    (\<forall>n who. n \<in> gone p \<longrightarrow> (who, n) \<in> set (t_deps t) \<longrightarrow> salt_db_is_installed t who \<longrightarrow>
       who \<in> leaving p)"
  by (auto simp: check_dangling_def list_all_iff revdeps_set gone_def leaving_def)

lemma check_conflicts_iff: "check_conflicts t p \<longleftrightarrow>
    (\<forall>e \<in> set (pl_install p).
       (\<forall>c \<in> set (re_conflicts e). c \<noteq> re_name e \<longrightarrow> c \<notin> re_name ` set (pl_install p) \<and>
           (salt_db_is_installed t c \<longrightarrow> c \<in> set (pl_remove p))) \<and>
       (\<forall>who. (who, re_name e) \<in> set (t_conflicts t) \<longrightarrow> who = re_name e \<or> who \<in> leaving p))"
  by (auto simp: check_conflicts_def list_all_iff conflict_ok_def revdeps_set leaving_def)

section \<open>Examples\<close>

definition ex_entry :: "string \<Rightarrow> string list \<Rightarrow> salt_repo_entry" where
  "ex_entry n ds = \<lparr>re_name = n, re_version = ''1.0'', re_release = 1, re_arch = ''any'',
     re_filename = n @ ''.grain'', re_url = None, re_sha256 = [], re_size = 0, re_summary = [],
     re_deps = ds, re_conflicts = []\<rparr>"

definition ex_index :: salt_repo_index where
  "ex_index = \<lparr>ri_items = [ex_entry ''app'' [''lib''], ex_entry ''lib'' []], ri_repo_name = ''r'', ri_arch = ''any''\<rparr>"

definition ex_row :: "string \<Rightarrow> salt_db_pkg" where
  "ex_row n = \<lparr>dp_name = n, dp_version = ''1.0'', dp_release = 1, dp_arch = ''any'', dp_repo = ''r'',
     dp_sig_status = ''signed'', dp_install_time = 0, dp_txn_id = 1, dp_summary = [], dp_license = [],
     dp_filename = [], dp_sha256 = []\<rparr>"

definition ex_tables :: "string list \<Rightarrow> (string \<times> string) list \<Rightarrow> tables" where
  "ex_tables ns ds = \<lparr>t_packages = map ex_row ns, t_files = [], t_deps = ds, t_conflicts = [], t_hooks = [],
     t_transactions = [], t_seq = 1, t_txn_changes = [], t_txn_meta = []\<rparr>"

lemma ex_resolve: "resolve_targets ex_index (ex_tables [] []) [''app''] False =
    Some \<lparr>rs_seen = {''app'', ''lib''}, rs_order = [ex_entry ''lib'' [], ex_entry ''app'' [''lib'']], rs_problems = []\<rparr>"
  by code_simp

section \<open>Properties\<close>

text \<open>
  C7.  Resolution always returns, and when it reports no problem its result is a plan: every requested
  package is in it, no package twice, every entry is the newest of its name, and every dependency
  of every entry is in it or already installed (unless \<^verbatim>\<open>--nodeps\<close> is given).
\<close>

theorem resolve_sound:
  "\<exists>s. resolve_targets idx t names nodeps = Some s \<and>
     (rs_problems s = [] \<longrightarrow>
        distinct (map re_name (rs_order s)) \<and> set names \<subseteq> re_name ` set (rs_order s) \<and>
        (\<forall>e \<in> set (rs_order s). salt_repo_index_find idx (re_name e) = Some e \<and>
           (\<not> nodeps \<longrightarrow> (\<forall>d \<in> set (re_deps e). d \<in> re_name ` set (rs_order s) \<or> salt_db_is_installed t d))))"
proof -
  obtain s where s: "resolve_targets idx t names nodeps = Some s" using resolve_total by blast
  then show ?thesis
    using resolve_targets_spec [OF s] by (intro exI [of _ s]) blast
qed

theorem resolve_sound_witness:
  "\<exists>s. resolve_targets ex_index (ex_tables [] []) [''app''] False = Some s \<and> rs_problems s = [] \<and>
     ''app'' \<in> re_name ` set (rs_order s) \<and> ''lib'' \<in> re_name ` set (rs_order s)"
proof -
  obtain s where s: "resolve_targets ex_index (ex_tables [] []) [''app''] False = Some s"
    "rs_problems s = [] \<longrightarrow> set [''app''] \<subseteq> re_name ` set (rs_order s) \<and>
      (\<forall>e \<in> set (rs_order s). \<forall>d \<in> set (re_deps e).
         d \<in> re_name ` set (rs_order s) \<or> salt_db_is_installed (ex_tables [] []) d)"
    using resolve_sound [of ex_index "ex_tables [] []" "[''app'']" False] by auto
  then show ?thesis using ex_resolve by (auto simp: ex_entry_def)
qed

text \<open>
  C8.  When the dependencies of the index have no cycle, a package comes after all of its dependencies
  in the resolved order, so that its hooks run with them in place.
\<close>

theorem resolve_deps_first:
  assumes "\<forall>e \<in> set (ri_items idx). \<forall>d \<in> set (re_deps e). rank d < (rank (re_name e) :: nat)"
    and "resolve_targets idx t names False = Some s" and "rs_problems s = []"
    and "i < length (rs_order s)" and "d \<in> set (re_deps (rs_order s ! i))"
  shows "d \<in> re_name ` set (take i (rs_order s)) \<or> salt_db_is_installed t d \<and> d \<notin> set names"
  using resolve_targets_order [OF assms(2,3), of rank i d] assms(1,4,5) by simp

theorem resolve_deps_first_witness:
  "''lib'' \<in> re_name ` set (take 1 [ex_entry ''lib'' [], ex_entry ''app'' [''lib'']])"
  using resolve_deps_first [OF _ ex_resolve, of "\<lambda>n. if n = ''app'' then 1 else 0" 1 "''lib''"]
  by (simp add: ex_index_def ex_entry_def ex_tables_def salt_db_is_installed_def)

text \<open>
  C9.  \<^verbatim>\<open>order_by_deps\<close> returns always and permutes its argument (a set of entries with distinct names);
  when the dependencies among them have no cycle, every dependency that is among them comes first.
\<close>

theorem order_by_deps_sorts:
  assumes "distinct (map re_name items)"
    and "\<forall>e \<in> set items. \<forall>d \<in> set (re_deps e). rank d < (rank (re_name e) :: nat)"
  shows "\<exists>out. order_by_deps items = Some out \<and> mset out = mset items \<and>
     (\<forall>i < length out. \<forall>d \<in> set (re_deps (out ! i)) \<inter> re_name ` set items. d \<in> re_name ` set (take i out))"
proof -
  obtain out where out: "order_by_deps items = Some out" using order_by_deps_total by blast
  note S = order_by_deps_spec [OF out]
  have "mset out = mset items"
    using S(1,4) assms(1) by (intro set_eq_iff_mset_eq_distinct [THEN iffD1]) (auto simp: distinct_map)
  then show ?thesis
    using out order_by_deps_first [OF out, of rank] assms(2) by (intro exI [of _ out]) blast
qed

theorem order_by_deps_sorts_witness:
  "\<exists>out. order_by_deps [ex_entry ''app'' [''lib''], ex_entry ''lib'' []] = Some out \<and>
     mset out = {#ex_entry ''lib'' [], ex_entry ''app'' [''lib'']#}"
  using order_by_deps_sorts [of "[ex_entry ''app'' [''lib''], ex_entry ''lib'' []]" "\<lambda>n. if n = ''app'' then 1 else 0"]
  by (auto simp: ex_entry_def add_mset_commute)

text \<open>
  C10.  The plan of \<^verbatim>\<open>salt remove --cascade\<close> removes the named packages and, transitively, every installed
  package that depends on one of them, each once; the plan never fails the check for dangling
  dependencies; and without cycles a dependent package is removed before what it depends on.
\<close>

theorem cascade_plan_complete:
  assumes "\<forall>n \<in> set args. salt_db_is_installed t n"
  defines "S \<equiv> remove_set t args True"
  shows "\<exists>order. remove_order t S = Some order \<and> distinct order \<and> set order = S \<and> set args \<subseteq> S \<and>
     (\<forall>n \<in> S. salt_db_is_installed t n) \<and>
     (\<forall>n \<in> S. \<forall>who. (who, n) \<in> set (t_deps t) \<longrightarrow> salt_db_is_installed t who \<longrightarrow> who \<in> S) \<and>
     check_dangling t \<lparr>pl_remove = order, pl_install = []\<rparr> \<and>
     ((\<forall>(w, n) \<in> set (t_deps t). rank w < (rank n :: nat)) \<longrightarrow>
        (\<forall>i < length order. \<forall>w \<in> S. (w, order ! i) \<in> set (t_deps t) \<longrightarrow> w \<in> set (take i order)))"
proof -
  obtain order where o: "remove_order t S = Some order" "distinct order" "set order = S"
    using remove_order_spec [of S t] finite_remove_set unfolding S_def by blast
  have cl: "who \<in> S" if "n \<in> S" "(who, n) \<in> set (t_deps t)" "salt_db_is_installed t who" for n who
    using remove_set_closed [of n t args who] that by (simp add: S_def revdeps_iff)
  have "\<forall>n \<in> S. salt_db_is_installed t n" using remove_set_installed [OF assms(1)] by (auto simp: S_def)
  moreover have "check_dangling t \<lparr>pl_remove = order, pl_install = []\<rparr>"
    using cl o(3) by (auto simp: check_dangling_iff gone_def leaving_def)
  moreover have "w \<in> set (take i order)" if "\<forall>(w, n) \<in> set (t_deps t). rank w < rank n" "i < length order"
      "w \<in> S" "(w, order ! i) \<in> set (t_deps t)" for i w
    by (rule remove_order_first [OF _ o(1), of rank]) (use that finite_remove_set in \<open>auto simp: S_def\<close>)
  moreover have "set args \<subseteq> S" using remove_set_args by (simp add: S_def)
  ultimately show ?thesis using o cl by blast
qed

theorem cascade_plan_complete_witness:
  "\<exists>order. remove_order (ex_tables [''app'', ''lib''] [(''app'', ''lib'')])
       (remove_set (ex_tables [''app'', ''lib''] [(''app'', ''lib'')]) [''lib''] True) = Some order \<and>
     ''app'' \<in> set order \<and> ''lib'' \<in> set order"
  using cascade_plan_complete [of "[''lib'']" "ex_tables [''app'', ''lib''] [(''app'', ''lib'')]"]
  by (fastforce simp: ex_tables_def ex_row_def salt_db_is_installed_def)

end
