(* ===== verification/Salt_Archive.thy ===== *)
theory Salt_Archive
  imports Salt_Toml Salt_Tar Salt_Repo
begin

text \<open>
  Reading packages and indexes: \<^verbatim>\<open>salt_pkg_meta_from_toml\<close> and \<^verbatim>\<open>salt_manifest_from_toml\<close>
  (\<^verbatim>\<open>pkg.c\<close>), \<^verbatim>\<open>salt_archive_open\<close> (\<^verbatim>\<open>archive.c\<close>) and \<^verbatim>\<open>salt_repo_index_load\<close> (\<^verbatim>\<open>repo.c\<close>).
  \<open>parse\<close> is the TOML text parser, \<^const>\<open>None\<close> on a syntax error.
\<close>

section \<open>Metadata and manifest\<close>

definition salt_hook_from_name :: "string \<Rightarrow> salt_hook_kind option" where
  "salt_hook_from_name n = find (\<lambda>k. salt_hook_name k = n) hook_kinds"

definition string_array_or_empty :: "salt_toml option \<Rightarrow> string \<Rightarrow> string list" where
  "string_array_or_empty t k = (case salt_toml_string_array t k of Some l \<Rightarrow> l | None \<Rightarrow> [])"

text \<open>Every key of the table \<^verbatim>\<open>hooks\<close> must be a declared hook with a string body.\<close>

fun read_hooks :: "(string \<times> salt_toml) list \<Rightarrow> (salt_hook_kind \<Rightarrow> string option) \<Rightarrow>
    (salt_hook_kind \<Rightarrow> string option) option" where
  "read_hooks [] h = Some h"
| "read_hooks ((k, v) # kvs) h =
     (case (salt_hook_from_name k, salt_toml_as_string (Some v)) of
        (Some kind, Some body) \<Rightarrow> read_hooks kvs (h(kind := Some body))
      | _ \<Rightarrow> None)"

definition salt_pkg_meta_from_toml :: "(string \<Rightarrow> salt_toml option) \<Rightarrow> string \<Rightarrow> salt_pkg_meta option" where
  "salt_pkg_meta_from_toml parse text =
     (case parse text of
        None \<Rightarrow> None
      | Some t \<Rightarrow>
          map_option (\<lambda>hooks.
            \<lparr>pm_name = salt_toml_string (Some t) ''name'' [],
             pm_version = salt_toml_string (Some t) ''version'' [],
             pm_release = c_int (salt_toml_int (Some t) ''release'' 1),
             pm_arch = salt_toml_string (Some t) ''arch'' [],
             pm_summary = salt_toml_string (Some t) ''summary'' [],
             pm_license = salt_toml_string (Some t) ''license'' [],
             pm_repro_status = salt_toml_string (Some t) ''reproducibility.status'' ''unverified'',
             pm_repro_reason = salt_toml_string_opt (Some t) ''reproducibility.reason'',
             pm_deps = string_array_or_empty (Some t) ''deps'',
             pm_conflicts = string_array_or_empty (Some t) ''conflicts'',
             pm_hooks = hooks\<rparr>)
          (case salt_toml_get (Some t) ''hooks'' of
             Some (TTable kvs) \<Rightarrow> read_hooks kvs (\<lambda>_. None)
           | _ \<Rightarrow> Some (\<lambda>_. None)))"

text \<open>\<^verbatim>\<open>(unsigned) strtoul (s, NULL, 8)\<close>\<close>

definition is_octal :: "char \<Rightarrow> bool" where
  "is_octal c \<longleftrightarrow> 48 \<le> (of_char c :: nat) \<and> (of_char c :: nat) \<le> 55"

definition c_strtoul8 :: "string \<Rightarrow> nat" where
  "c_strtoul8 s =
     (let s1 = dropWhile c_isspace s;
          neg = (s1 \<noteq> [] \<and> hd s1 = CHR ''-'');
          s2 = (if s1 \<noteq> [] \<and> (hd s1 = CHR ''-'' \<or> hd s1 = CHR ''+'') then tl s1 else s1);
          v = foldl (\<lambda>v c. 8 * v + (int (of_char c) - 48)) 0 (takeWhile is_octal s2)
      in nat ((if neg then - v else v) mod 2 ^ 32))"

definition manifest_entry_from_toml :: "salt_toml option \<Rightarrow> salt_manifest_entry" where
  "manifest_entry_from_toml f =
     \<lparr>me_path = salt_toml_string f ''path'' [],
      me_typeflag = (case salt_toml_string f ''type'' ''0'' of [] \<Rightarrow> CHR 0x00 | c # _ \<Rightarrow> c),
      me_mode = c_strtoul8 (salt_toml_string f ''mode'' ''0644''),
      me_size = nat (salt_toml_int f ''size'' 0 mod 2 ^ 64),
      me_sha256 = salt_toml_string_opt f ''sha256'',
      me_linkname = salt_toml_string_opt f ''linkname''\<rparr>"

definition salt_manifest_from_toml :: "(string \<Rightarrow> salt_toml option) \<Rightarrow> string \<Rightarrow> salt_rc \<times> salt_manifest" where
  "salt_manifest_from_toml parse text =
     (case parse text of
        None \<Rightarrow> (SALT_ERR_FORMAT, [])
      | Some t \<Rightarrow>
          (SALT_OK, case salt_toml_get (Some t) ''file'' of
                      Some (TArray fs) \<Rightarrow> map (\<lambda>f. manifest_entry_from_toml (Some f)) fs
                    | _ \<Rightarrow> []))"

section \<open>Archives\<close>

record open_ctx =
  oc_meta :: "salt_pkg_meta option"
  oc_manifest :: "salt_manifest option"
  oc_payload :: string
  oc_scripts :: "string list"

text \<open>The result of \<^verbatim>\<open>salt_manifest_from_toml\<close> is not looked at.\<close>

definition open_cb :: "(string \<Rightarrow> salt_toml option) \<Rightarrow> salt_tar_entry \<Rightarrow> open_ctx \<Rightarrow> salt_rc \<times> open_ctx" where
  "open_cb parse e c =
     (if te_path e = ''metadata.toml'' then
        (case salt_pkg_meta_from_toml parse (te_data e) of
           None \<Rightarrow> (SALT_ERR_FORMAT, c)
         | Some m \<Rightarrow> (SALT_OK, c\<lparr>oc_meta := Some m\<rparr>))
      else if te_path e = ''manifest.toml'' then
        (SALT_OK, c\<lparr>oc_manifest := Some (snd (salt_manifest_from_toml parse (te_data e)))\<rparr>)
      else if te_path e = ''files.tar.zst'' then (SALT_OK, c\<lparr>oc_payload := oc_payload c @ te_data e\<rparr>)
      else if starts_with (te_path e) ''scripts/'' \<and> te_typeflag e \<noteq> SALT_TAR_DIR then
        (SALT_OK, c\<lparr>oc_scripts := oc_scripts c @ [drop 8 (te_path e)]\<rparr>)
      else (SALT_OK, c))"

text \<open>\<open>salt_archive_open\<close> on the bytes of the file.\<close>

definition salt_archive_open :: "(string \<Rightarrow> salt_toml option) \<Rightarrow> string \<Rightarrow> salt_archive option" where
  "salt_archive_open parse bytes =
     (let (rc, c) = salt_tar_read bytes (open_cb parse)
                      \<lparr>oc_meta = None, oc_manifest = None, oc_payload = [], oc_scripts = []\<rparr>
      in case (rc, oc_meta c, oc_manifest c) of
           (SALT_OK, Some m, Some man) \<Rightarrow>
             Some \<lparr>ar_meta = m, ar_manifest = man, ar_payload = oc_payload c, ar_scripts = oc_scripts c\<rparr>
         | _ \<Rightarrow> None)"

definition salt_pkg_filename :: "salt_pkg_meta \<Rightarrow> string" where
  "salt_pkg_filename m =
     pm_name m @ ''-'' @ pm_version m @ ''-'' @ int_to_string (pm_release m) @ ''-'' @ pm_arch m @ ''.grain''"

section \<open>Repository indexes\<close>

definition repo_entry_from_toml :: "salt_toml option \<Rightarrow> salt_repo_entry" where
  "repo_entry_from_toml p =
     (let url = salt_toml_string p ''url'' [] in
      \<lparr>re_name = salt_toml_string p ''name'' [],
       re_version = salt_toml_string p ''version'' [],
       re_release = c_int (salt_toml_int p ''release'' 1),
       re_arch = salt_toml_string p ''arch'' [],
       re_filename = salt_toml_string p ''filename'' [],
       re_url = (if url = [] then None else Some url),
       re_sha256 = salt_toml_string p ''sha256'' [],
       re_size = nat (salt_toml_int p ''size'' 0 mod 2 ^ 64),
       re_summary = salt_toml_string p ''summary'' [],
       re_deps = string_array_or_empty p ''deps'',
       re_conflicts = string_array_or_empty p ''conflicts''\<rparr>)"

definition salt_repo_index_load :: "(string \<Rightarrow> salt_toml option) \<Rightarrow> string \<Rightarrow> salt_repo_index option" where
  "salt_repo_index_load parse text =
     (case parse text of
        None \<Rightarrow> None
      | Some t \<Rightarrow>
          Some \<lparr>ri_items = (case salt_toml_get (Some t) ''package'' of
                              Some (TArray ps) \<Rightarrow> map (\<lambda>p. repo_entry_from_toml (Some p)) ps
                            | _ \<Rightarrow> []),
                ri_repo_name = salt_toml_string (Some t) ''repo'' ''current'',
                ri_arch = salt_toml_string (Some t) ''arch'' []\<rparr>)"

section \<open>Example archives\<close>

text \<open>A one-byte file in tar format.\<close>

definition ex_header :: "string \<Rightarrow> string" where
  "ex_header name = name @ replicate (124 - length name) (CHR 0x00) @ replicate 11 (CHR ''0'') @ ''1'' @
     replicate 20 (CHR 0x00) @ ''0'' @ replicate 355 (CHR 0x00)"

definition ex_block :: "char \<Rightarrow> string" where
  "ex_block c = c # replicate 511 (CHR 0x00)"

lemma ex_header_len: "length n \<le> 100 \<Longrightarrow> length (ex_header n) = 512"
  by (simp add: ex_header_def)

lemma ex_header_fields:
  assumes "length n \<le> 100" "CHR 0x00 \<notin> set n" "n \<noteq> []"
  shows "parse_octal (take 12 (drop 124 (ex_header n))) = 1" "ex_header n ! 156 = CHR ''0''"
    "c_str (take 100 (ex_header n)) = n" "c_str (take 155 (drop 345 (ex_header n))) = []"
    "\<not> list_all (\<lambda>c. c = CHR 0x00) (ex_header n)"
proof -
  have "parse_octal (replicate 11 (CHR ''0'') @ ''1'') = 1" by code_simp
  then show "parse_octal (take 12 (drop 124 (ex_header n))) = 1" using assms(1) by (simp add: ex_header_def)
  show "ex_header n ! 156 = CHR ''0''" using assms(1) by (simp add: ex_header_def nth_append) arith
  show "c_str (take 100 (ex_header n)) = n" using assms(1,2)
    by (auto simp: ex_header_def c_str_def takeWhile_append takeWhile_eq_Nil_iff)
  show "c_str (take 155 (drop 345 (ex_header n))) = []" using assms(1) by (simp add: ex_header_def c_str_def)
  show "\<not> list_all (\<lambda>c. c = CHR 0x00) (ex_header n)" using assms by (cases n) (auto simp: ex_header_def)
qed

lemma ex_tar_entry:
  assumes "length n \<le> 100" "CHR 0x00 \<notin> set n" "n \<noteq> []"
  shows "\<exists>e. tar_entries None None (ex_header n @ ex_block c @ rest) =
      (e # fst (tar_entries None None rest), snd (tar_entries None None rest)) \<and>
    te_path e = n \<and> te_data e = [c] \<and> te_typeflag e = CHR ''0''"
proof -
  note f = ex_header_fields [OF assms] and l = ex_header_len [OF assms(1)]
  have b: "length (ex_block c) = 512" by (simp add: ex_block_def)
  have d: "drop (round_up_block 1) (ex_block c @ rest) = rest" by (simp add: round_up_block_def TAR_BLOCK_def b)
  have t: "take 1 (ex_block c @ rest) = [c]" by (simp add: ex_block_def)
  show ?thesis
    using f l b d t by (subst tar_entries.simps)
      (simp add: TAR_BLOCK_def Let_def has_data_def SALT_TAR_FILE_def header_entry_def header_path_def)
qed

end
