(* ===== verification/Salt_Atomic.thy ===== *)
theory Salt_Atomic
  imports Salt_Txn "HOL-Library.Sublist"
begin

text \<open>
  Why undoing a transaction restores the root: while a transaction installs and removes packages, the
  backup tree and the list of added paths describe every difference between the current files
  and those at its start.  The invariant \<open>undo_inv\<close> is kept by every file operation of \<^verbatim>\<open>txn.c\<close>, and from
  it \<^verbatim>\<open>salt_txn_revert_files\<close> gives the files back.
\<close>

section \<open>The invariant\<close>

definition dirish :: "node option \<Rightarrow> bool" where
  "dirish x \<longleftrightarrow> x = None \<or> x = Some NDir"

definition dsim :: "node option \<Rightarrow> node option \<Rightarrow> bool" where
  "dsim a b \<longleftrightarrow> a = b \<or> (dirish a \<and> dirish b)"

definition file_tree :: "key set \<Rightarrow> key set \<Rightarrow> bool" where
  "file_tree F D \<longleftrightarrow> F \<inter> D = {} \<and> (\<forall>f \<in> F. f \<noteq> [] \<and> (\<forall>k \<in> F \<union> D. \<not> strict_prefix f k))"

definition undo_inv :: "fs \<Rightarrow> key set \<Rightarrow> key set \<Rightarrow> key set \<Rightarrow> fs \<Rightarrow> fs \<Rightarrow> key set \<Rightarrow> bool" where
  "undo_inv fs0 F H W fs B A \<longleftrightarrow>
     distinct (map fst B) \<and> fst ` set B \<subseteq> F \<and> A \<subseteq> F \<and>
     (\<forall>k n. fs_get B k = Some n \<longrightarrow>
        (\<exists>n0. fs_get fs0 k = Some n0 \<and> n = mask_node n0 \<and> n0 \<noteq> NDir \<and> n0 \<noteq> NOther)) \<and>
     (\<forall>k \<in> A. fs_get fs0 k = None \<or> fs_get B k \<noteq> None) \<and>
     (\<forall>k \<in> A - W. fs_get fs k = None) \<and>
     (\<forall>k. k \<notin> H \<longrightarrow> fs_get B k = None \<longrightarrow> k \<notin> A \<longrightarrow> dsim (fs_get fs k) (fs_get fs0 k)) \<and>
     (\<forall>k \<in> F - W. fs_get fs k = None \<or> fs_get fs k = fs_get fs0 k) \<and>
     (\<forall>k \<in> F. fs_get fs k = Some NDir \<longleftrightarrow> fs_get fs0 k = Some NDir)"

text \<open>What it means that the files are back.\<close>

definition files_restored :: "fs \<Rightarrow> key set \<Rightarrow> fs \<Rightarrow> bool" where
  "files_restored fs0 H fs \<longleftrightarrow>
     (\<forall>k. k \<notin> H \<longrightarrow> dsim (fs_get fs k) (fs_get fs0 k) \<or> fs_get fs k = map_option mask_node (fs_get fs0 k))"

lemma undo_invD:
  assumes "undo_inv fs0 F H W fs B A"
  shows "distinct (map fst B)" "fst ` set B \<subseteq> F" "A \<subseteq> F"
    "\<And>k n. fs_get B k = Some n \<Longrightarrow>
        \<exists>n0. fs_get fs0 k = Some n0 \<and> n = mask_node n0 \<and> n0 \<noteq> NDir \<and> n0 \<noteq> NOther"
    "\<And>k. k \<in> A \<Longrightarrow> fs_get fs0 k = None \<or> fs_get B k \<noteq> None"
    "\<And>k. k \<in> A \<Longrightarrow> k \<notin> W \<Longrightarrow> fs_get fs k = None"
    "\<And>k. k \<notin> H \<Longrightarrow> fs_get B k = None \<Longrightarrow> k \<notin> A \<Longrightarrow> dsim (fs_get fs k) (fs_get fs0 k)"
    "\<And>k. k \<in> F \<Longrightarrow> k \<notin> W \<Longrightarrow> fs_get fs k = None \<or> fs_get fs k = fs_get fs0 k"
    "\<And>k. k \<in> F \<Longrightarrow> fs_get fs k = Some NDir \<longleftrightarrow> fs_get fs0 k = Some NDir"
  using assms unfolding undo_inv_def by blast+

lemma undo_invI:
  assumes "distinct (map fst B)" "fst ` set B \<subseteq> F" "A \<subseteq> F"
    "\<And>k n. fs_get B k = Some n \<Longrightarrow>
        \<exists>n0. fs_get fs0 k = Some n0 \<and> n = mask_node n0 \<and> n0 \<noteq> NDir \<and> n0 \<noteq> NOther"
    "\<And>k. k \<in> A \<Longrightarrow> fs_get fs0 k = None \<or> fs_get B k \<noteq> None"
    "\<And>k. k \<in> A \<Longrightarrow> k \<notin> W \<Longrightarrow> fs_get fs k = None"
    "\<And>k. k \<notin> H \<Longrightarrow> fs_get B k = None \<Longrightarrow> k \<notin> A \<Longrightarrow> dsim (fs_get fs k) (fs_get fs0 k)"
    "\<And>k. k \<in> F \<Longrightarrow> k \<notin> W \<Longrightarrow> fs_get fs k = None \<or> fs_get fs k = fs_get fs0 k"
    "\<And>k. k \<in> F \<Longrightarrow> fs_get fs k = Some NDir \<longleftrightarrow> fs_get fs0 k = Some NDir"
  shows "undo_inv fs0 F H W fs B A"
  unfolding undo_inv_def using assms by (intro conjI allI ballI impI) auto

lemma dsim_refl [simp]: "dsim a a"
  by (simp add: dsim_def)

lemma dsim_trans: "dsim a b \<Longrightarrow> dsim b c \<Longrightarrow> dsim a c"
  by (auto simp: dsim_def)

lemma fs_get_None_notin: "fs_get fs k = None \<longleftrightarrow> k \<notin> fst ` set fs"
  by (simp add: fs_get_def map_of_eq_None_iff)

lemma distinct_fs_put: "distinct (map fst fs) \<Longrightarrow> distinct (map fst (fs_put k n fs))"
  by (auto simp: fs_put_def distinct_map_filter)

lemma keys_fs_put: "fst ` set (fs_put k n fs) = insert k (fst ` set fs)"
  by (auto simp: fs_put_def)

lemma distinct_fs_del: "distinct (map fst fs) \<Longrightarrow> distinct (map fst (fs_del k fs))"
  by (simp add: fs_del_def distinct_map_filter)

lemma keys_fs_del: "fst ` set (fs_del k fs) \<subseteq> fst ` set fs"
  by (auto simp: fs_del_def)

lemma undo_inv_init: "undo_inv fs F H {} fs [] {}"
  by (simp add: undo_inv_def fs_get_def)

lemma undo_inv_mono: "undo_inv fs0 F H W fs B A \<Longrightarrow> W \<subseteq> W' \<Longrightarrow> undo_inv fs0 F H W' fs B A"
  unfolding undo_inv_def by blast

text \<open>A change of the root that is confined to directories outside \<open>F\<close> and to \<open>H\<close>.\<close>

lemma undo_inv_same_files:
  assumes "undo_inv fs0 F H W fs B A"
    and "\<And>k. k \<notin> H \<Longrightarrow> dsim (fs_get fs' k) (fs_get fs k)" and "\<And>k. k \<in> F \<Longrightarrow> fs_get fs' k = fs_get fs k"
  shows "undo_inv fs0 F H W fs' B A"
  using assms(1) assms(3) dsim_trans [OF assms(2)] unfolding undo_inv_def by (safe; (metis Diff_iff subsetD)?)

lemma backup_file_inv:
  assumes inv: "undo_inv fs0 F H W fs B A" and k: "k \<in> F" "k \<notin> W" "k \<notin> H"
    and b: "backup_file io k fs B = (rc, B')"
  shows "undo_inv fs0 F H W fs B' A"
    and "rc = SALT_OK \<Longrightarrow> fs_get fs k = None \<or> fs_get fs k = Some NDir \<or> fs_get fs k = Some NOther \<or> fs_get B' k \<noteq> None"
    and "q \<noteq> k \<Longrightarrow> fs_get B' q = fs_get B q"
proof -
  note I = undo_invD [OF inv]
  show "q \<noteq> k \<Longrightarrow> fs_get B' q = fs_get B q"
    using b by (auto simp: backup_file_def split: option.splits node.splits if_splits)
  show "rc = SALT_OK \<Longrightarrow> fs_get fs k = None \<or> fs_get fs k = Some NDir \<or> fs_get fs k = Some NOther \<or> fs_get B' k \<noteq> None"
    using b by (auto simp: backup_file_def split: option.splits node.splits if_splits)
  consider "B' = B" | n where "fs_get fs k = Some n" "n \<noteq> NDir" "n \<noteq> NOther" "B' = fs_put k (mask_node n) B"
    | n where "fs_get fs k = Some n" "n \<noteq> NDir" "n \<noteq> NOther" "B' = fs_del k B"
    using b by (auto simp: backup_file_def simp del: mask_node.simps split: option.splits node.splits if_splits)
  then show "undo_inv fs0 F H W fs B' A"
  proof cases
    case 1
    then show ?thesis using inv by simp
  next
    case (2 n)
    have "fs_get fs0 k = Some n" using I(8) [OF k(1,2)] 2(1) by auto
    then show ?thesis
      unfolding undo_inv_def 2(4) using I 2 k distinct_fs_put keys_fs_put
      by (intro conjI ballI allI impI) (auto simp: keys_fs_put distinct_fs_put split: if_splits)
  next
    case (3 n)
    have o: "fs_get fs0 k = Some n" using I(8) [OF k(1,2)] 3(1) by auto
    have a: "k \<notin> A" using I(6) k(2) 3(1) by fastforce
    then show ?thesis
      unfolding undo_inv_def 3(4) using I 3 k o keys_fs_del [of k B]
      by (intro conjI ballI allI impI) (auto simp: distinct_fs_del split: if_splits)
  qed
qed


text \<open>An unlinked file has its backup, so the invariant does not depend on it.\<close>

lemma undo_inv_drop:
  assumes inv: "undo_inv fs0 F H W fs B A" and k: "k \<in> F" "fs_get fs0 k \<noteq> Some NDir"
    and cov: "fs_get B k \<noteq> None \<or> k \<in> A"
    and same: "\<And>q. q \<noteq> k \<Longrightarrow> fs_get fs' q = fs_get fs q"
    and new: "fs_get fs' k = None \<or> k \<in> W \<and> fs_get fs' k \<noteq> Some NDir"
  shows "undo_inv fs0 F H W fs' B A"
proof -
  note I = undo_invD [OF inv]
  show ?thesis
  proof (rule undo_invI [OF I(1-5)])
    fix q
    show "dsim (fs_get fs' q) (fs_get fs0 q)" if "q \<notin> H" "fs_get B q = None" "q \<notin> A"
      using I(7) [OF that] same [of q] cov that by (cases "q = k") auto
    show "fs_get fs' q = Some NDir \<longleftrightarrow> fs_get fs0 q = Some NDir" if "q \<in> F"
      using I(9) [OF that] same [of q] k new by (cases "q = k") auto
    show "fs_get fs' q = None \<or> fs_get fs' q = fs_get fs0 q" if "q \<in> F" "q \<notin> W"
      using I(8) [of q] same [of q] that new by (cases "q = k") auto
    show "fs_get fs' q = None" if "q \<in> A" "q \<notin> W"
      using I(6) [of q] same [of q] that new by (cases "q = k") auto
  qed
qed

lemma fs_get_unlink: "fs_get (fs_unlink io k fs) q =
    (if q = k \<and> fs_get fs k \<noteq> Some NDir \<and> io_ok io IoUnlink k then None else fs_get fs q)"
  by (auto simp: fs_unlink_def split: option.splits node.splits)

lemma fs_get_rmdir: "fs_get (fs_rmdir io k fs) q = fs_get fs q \<or>
    q = k \<and> fs_get fs k = Some NDir \<and> fs_get (fs_rmdir io k fs) q = None"
  by (auto simp: fs_rmdir_def)

lemma backup_unlink_inv:
  assumes inv: "undo_inv fs0 F H W fs B A" and k: "k \<in> F" "k \<notin> W" "k \<notin> H"
    and no: "fs_get fs0 k \<noteq> Some NOther"
    and b: "backup_file io k fs B = (SALT_OK, B')"
  shows "undo_inv fs0 F H W (fs_unlink io k fs) B' A"
proof -
  note I = undo_invD [OF inv]
  note B = backup_file_inv [OF inv k b]
  show ?thesis
  proof (cases "fs_get fs k = None \<or> fs_get fs k = Some NDir")
    case True
    then show ?thesis using B(1) by (auto intro: undo_inv_same_files simp: fs_get_unlink)
  next
    case False
    then have o: "fs_get fs k = fs_get fs0 k" using I(8) [OF k(1,2)] by auto
    then have c: "fs_get B' k \<noteq> None" using B(2) no False by auto
    show ?thesis
    proof (cases "io_ok io IoUnlink k")
      case True
      show ?thesis
        by (rule undo_inv_drop [OF B(1) k(1)]) (use o False c True in \<open>auto simp: fs_get_unlink\<close>)
    next
      case f: False
      show ?thesis by (rule undo_inv_same_files [OF B(1)]) (use f in \<open>auto simp: fs_get_unlink\<close>)
    qed
  qed
qed

lemma rmdir_inv:
  assumes "undo_inv fs0 F H W fs B A" "k \<notin> F"
  shows "undo_inv fs0 F H W (fs_rmdir io k fs) B A"
proof (rule undo_inv_same_files [OF assms(1)])
  show "dsim (fs_get (fs_rmdir io k fs) q) (fs_get fs q)" for q
    using fs_get_rmdir [of io k fs q] by (auto simp: dsim_def dirish_def)
  show "fs_get (fs_rmdir io k fs) q = fs_get fs q" if "q \<in> F" for q
    using fs_get_rmdir [of io k fs q] that assms(2) by auto
qed

lemma only_new_dirs_dsim: "only_new_dirs fs fs' \<Longrightarrow> dsim (fs_get fs' k) (fs_get fs k)"
  unfolding only_new_dirs_def dsim_def dirish_def by metis

lemma salt_mkdirs_file:
  assumes "file_tree F D" "x \<in> F \<union> D" "prefix k x" "k \<noteq> x \<or> x \<in> D" "f \<in> F"
  shows "fs_get (snd (salt_mkdirs io k fs)) f = fs_get fs f"
proof (rule ccontr)
  assume "\<not> ?thesis"
  from salt_mkdirs_prefix [OF this] have "prefix f k" by auto
  then have "prefix f x" using assms(3) by (rule prefix_order.trans)
  moreover have "f \<noteq> x" using assms \<open>prefix f k\<close> by (auto simp: file_tree_def)
  ultimately have "strict_prefix f x" by (simp add: strict_prefix_def)
  then show False using assms by (auto simp: file_tree_def)
qed

lemma mkdirs_inv:
  assumes "undo_inv fs0 F H W fs B A" "file_tree F D" "x \<in> F \<union> D" "prefix k x" "k \<noteq> x \<or> x \<in> D"
  shows "undo_inv fs0 F H W (snd (salt_mkdirs io k fs)) B A"
  by (rule undo_inv_same_files [OF assms(1)])
    (simp_all add: only_new_dirs_dsim salt_mkdirs_only salt_mkdirs_file [OF assms(2-5)])

lemma butlast_prefix: "prefix (butlast k) k"
  by (metis append_butlast_last_id butlast.simps(1) prefixI prefix_order.refl)

lemma mkdirs_parent_inv:
  assumes "undo_inv fs0 F H W fs B A" "file_tree F D" "x \<in> F \<union> D" "x \<noteq> []"
  shows "undo_inv fs0 F H W (snd (salt_mkdirs io (butlast x) fs)) B A"
proof -
  have "butlast x \<noteq> x" using assms(4) by (metis append_butlast_last_id append_self_conv not_Cons_self)
  then show ?thesis using mkdirs_inv [OF assms(1-3) butlast_prefix] by blast
qed

section \<open>Extraction\<close>

lemma salt_write_file_inv:
  assumes inv: "undo_inv fs0 F H W fs B A" and tree: "file_tree F D" and k: "k \<in> F" "k \<in> W"
    and cov: "fs_get B k \<noteq> None \<or> k \<in> A \<or> fs_get fs0 k = Some NDir"
  shows "undo_inv fs0 F H W (snd (salt_write_file io op k d m fs)) B A"
proof -
  let ?fs1 = "snd (salt_mkdirs io (butlast k) fs)"
  have ne: "k \<noteq> []" using tree k(1) by (auto simp: file_tree_def)
  have inv1: "undo_inv fs0 F H W ?fs1 B A"
    by (rule mkdirs_parent_inv [OF inv tree]) (use k ne in auto)
  show ?thesis
  proof (cases "fs_get ?fs1 k = Some NDir")
    case True
    then show ?thesis using inv1 by (simp add: salt_write_file_def Let_def)
  next
    case False
    then have "fs_get fs0 k \<noteq> Some NDir" using undo_invD(9) [OF inv1 k(1)] by simp
    then have "undo_inv fs0 F H W (fs_put k (NReg d m) ?fs1) B A"
      by (intro undo_inv_drop [OF inv1 k(1)]) (use cov k in auto)
    then show ?thesis using inv1 by (simp add: salt_write_file_def Let_def)
  qed
qed

lemma symlink_inv:
  assumes inv: "undo_inv fs0 F H W fs B A" and k: "k \<in> F" "k \<in> W"
    and cov: "fs_get B k \<noteq> None \<or> k \<in> A \<or> fs_get fs0 k = Some NDir"
  shows "undo_inv fs0 F H W (snd (fs_symlink io op t k (fs_unlink io k fs))) B A"
proof (cases "fs_get fs k = Some NDir")
  case True
  then have "fs_unlink io k fs = fs" by (simp add: fs_unlink_def)
  then show ?thesis using True inv by (simp add: fs_symlink_def)
next
  case False
  then have "fs_get fs0 k \<noteq> Some NDir" using undo_invD(9) [OF inv k(1)] by simp
  then show ?thesis
    by (intro undo_inv_drop [OF inv k(1)])
      (use cov k False in \<open>auto simp: fs_symlink_def fs_get_unlink\<close>)
qed

text \<open>
  What is asked of a payload: its directories are directories of the layout, its files are files of
  the manifest, whose keys are \<open>M\<close>.
\<close>

definition payload_entry_ok :: "key set \<Rightarrow> key set \<Rightarrow> salt_tar_entry \<Rightarrow> bool" where
  "payload_entry_ok M D e \<longleftrightarrow>
     (let k = path_key (strip_dot_slash (te_path e)) in
      salt_path_is_confined (strip_dot_slash (te_path e)) \<longrightarrow>
      (if te_typeflag e = SALT_TAR_DIR then k \<in> D else k \<in> M))"

lemma extract_cb_inv:
  assumes inv: "undo_inv fs0 F H W fs B A" and tree: "file_tree F D"
    and M: "M \<subseteq> F" "M \<subseteq> W" and cov: "\<And>k. k \<in> M \<Longrightarrow> fs_get B k \<noteq> None \<or> k \<in> A \<or> fs_get fs0 k = Some NDir"
    and e: "payload_entry_ok M D e"
  shows "undo_inv fs0 F H W (snd (extract_cb io e fs)) B A"
proof -
  let ?rel = "strip_dot_slash (te_path e)" let ?k = "path_key ?rel"
  show ?thesis
  proof (cases "salt_path_is_confined ?rel")
    case False
    then show ?thesis using inv by (simp add: extract_cb_def Let_def)
  next
    case True
    then have ne: "?k \<noteq> []" by (rule confined_key_nonempty)
    have kin: "te_typeflag e = SALT_TAR_DIR \<Longrightarrow> ?k \<in> D" "te_typeflag e \<noteq> SALT_TAR_DIR \<Longrightarrow> ?k \<in> M"
      using e True by (auto simp: payload_entry_ok_def Let_def)
    then have kFD: "?k \<in> F \<union> D" using M by blast
    have "snd (confine_parent io ?k fs) = fs \<or> snd (confine_parent io ?k fs) = snd (salt_mkdirs io (butlast ?k) fs)"
      by (auto simp: confine_parent_def split: prod.splits salt_rc.splits)
    then have par: "undo_inv fs0 F H W (snd (confine_parent io ?k fs)) B A"
      using inv mkdirs_parent_inv [OF inv tree kFD ne] by metis
    have node: "undo_inv fs0 F H W (snd (extract_node io e ?k fs1)) B A" if "undo_inv fs0 F H W fs1 B A" for fs1
    proof (cases "te_typeflag e = SALT_TAR_DIR")
      case True
      then have "undo_inv fs0 F H W (snd (salt_mkdirs io ?k fs1)) B A"
        using kin(1) by (intro mkdirs_inv [OF that tree kFD]) auto
      then show ?thesis using True that by (auto simp: extract_node_def Let_def split: option.splits node.splits)
    next
      case f: False
      have kk: "?k \<in> F" "?k \<in> W" using kin(2) [OF f] M by auto
      show ?thesis
        using f that salt_write_file_inv [OF that tree kk cov [OF kin(2) [OF f]]]
          symlink_inv [OF that kk cov [OF kin(2) [OF f]]]
        by (auto simp: extract_node_def Let_def)
    qed
    show ?thesis
      using True by (simp add: extract_cb_def Let_def) (rule and_then_inv [OF par node])
  qed
qed

definition payload_of :: "env \<Rightarrow> salt_archive \<Rightarrow> salt_tar_entry list" where
  "payload_of env ar =
     (let (rc, inner) = env_zst env (ar_payload ar) in if rc = SALT_OK then fst (tar_entries None None inner) else [])"

lemma extract_payload_inv:
  assumes inv: "undo_inv fs0 F H W fs B A" and tree: "file_tree F D"
    and M: "M \<subseteq> F" "M \<subseteq> W" and cov: "\<And>k. k \<in> M \<Longrightarrow> fs_get B k \<noteq> None \<or> k \<in> A \<or> fs_get fs0 k = Some NDir"
    and e: "list_all (payload_entry_ok M D) (payload_of env ar)"
  shows "undo_inv fs0 F H W (snd (salt_archive_extract_payload (env_zst env) io ar fs)) B A"
proof -
  have fold: "undo_inv fs0 F H W (snd (rc_fold (extract_cb io) es fs)) B A" if "list_all (payload_entry_ok M D) es" for es
    by (rule rc_fold_inv [where P = "\<lambda>fs. undo_inv fs0 F H W fs B A", OF inv])
      (use that extract_cb_inv [OF _ tree M cov] in \<open>auto simp: list_all_iff\<close>)
  show ?thesis
  proof (cases "env_zst env (ar_payload ar)")
    case (Pair rc inner)
    then show ?thesis
      using e inv fold [of "fst (tar_entries None None inner)"]
      by (auto simp: salt_archive_extract_payload_def payload_of_def salt_tar_extract_def salt_tar_read_def
          Let_def and_then_def)
  qed
qed

section \<open>Worlds\<close>

definition lines_of :: "string list \<Rightarrow> string" where
  "lines_of ps = concat (map (\<lambda>p. p @ [CHR 0x0A]) ps)"

definition added_keys :: "txn_state \<Rightarrow> key set" where
  "added_keys s = (case ts_added s of None \<Rightarrow> {}
     | Some a \<Rightarrow> path_key ` {l \<in> set (split_on (CHR 0x0A) a). salt_path_is_confined l})"

definition added_wf :: "txn_state \<Rightarrow> bool" where
  "added_wf s \<longleftrightarrow> (case ts_added s of None \<Rightarrow> True
     | Some a \<Rightarrow> \<exists>ps. a = lines_of ps \<and> (\<forall>p \<in> set ps. CHR 0x0A \<notin> set p))"

definition winv :: "fs \<Rightarrow> key set \<Rightarrow> key set \<Rightarrow> key set \<Rightarrow> int \<Rightarrow> world \<Rightarrow> bool" where
  "winv fs0 F H W i w \<longleftrightarrow> added_wf (state_of w i) \<and>
     undo_inv fs0 F H W (w_fs w) (ts_backup (state_of w i)) (added_keys (state_of w i))"

text \<open>What an operation inside transaction \<open>i\<close> leaves alone.\<close>

definition txn_frame :: "int \<Rightarrow> world \<Rightarrow> world \<Rightarrow> bool" where
  "txn_frame i w w' \<longleftrightarrow> db_saved (w_db w') = db_saved (w_db w) \<and> w_files w' = w_files w \<and>
     (\<forall>j. j \<noteq> i \<longrightarrow> w_state w' j = w_state w j) \<and>
     ts_before (state_of w' i) = ts_before (state_of w i)"

lemma txn_frame_refl [simp]: "txn_frame i w w"
  by (simp add: txn_frame_def)

lemma txn_frame_trans: "txn_frame i a b \<Longrightarrow> txn_frame i b c \<Longrightarrow> txn_frame i a c"
  by (simp add: txn_frame_def)

lemma and_then_frame:
  assumes "txn_frame i w (snd r)" "\<And>s. txn_frame i s (snd (f s))"
  shows "txn_frame i w (snd (and_then r f))"
  using assms txn_frame_trans by (auto simp: and_then_def)

lemma rc_fold_frame:
  assumes "\<And>x s. txn_frame i s (snd (f x s))"
  shows "txn_frame i w (snd (rc_fold f xs w))"
  by (rule rc_fold_inv [where P = "txn_frame i w"]) (auto intro: txn_frame_trans assms)

lemma state_of_upd [simp]: "state_of (upd_state i f w) j = (if j = i then f (state_of w i) else state_of w j)"
  by (simp add: state_of_def upd_state_def)

lemma upd_state_simps [simp]: "w_fs (upd_state i f w) = w_fs w" "w_db (upd_state i f w) = w_db w"
    "w_files (upd_state i f w) = w_files w"
    "j \<noteq> i \<Longrightarrow> w_state (upd_state i f w) j = w_state w j"
  by (simp_all add: upd_state_def)

lemma state_of_same [simp]: "state_of (w\<lparr>w_fs := x\<rparr>) i = state_of w i" "state_of (w\<lparr>w_db := y\<rparr>) i = state_of w i"
  by (simp_all add: state_of_def)

lemma frame_parts [simp]:
  "txn_frame i w (snd (backup_in env i p w))"
  "txn_frame i w (snd (append_added env i a w))"
  "txn_frame i w (snd (run_hook env a' b c k d w))"
  "txn_frame i w (snd (upd_tab g w))"
  "txn_frame i w (snd (upd_fs g' w))"
  by (simp_all add: txn_frame_def backup_in_def append_added_def run_hook_def upd_tab_def upd_fs_def Let_def
      split: prod.splits)

lemma frame_fs [simp]: "txn_frame i w (w\<lparr>w_fs := x\<rparr>)"
  by (simp add: txn_frame_def)

lemma txn_frame_remove: "txn_frame i w (snd (salt_remove_pkg env n i w))"
  unfolding salt_remove_pkg_def Let_def opt_hook_def
  by (auto intro!: and_then_frame rc_fold_frame simp: remove_entry_def split: option.splits)

lemma scan_entry_frame: "txn_frame i (snd s) (snd (snd (scan_entry env i pkg e s)))"
  by (cases s) (simp add: scan_entry_def Let_def case_prod_beta)

lemma txn_frame_scan: "txn_frame i w (snd (scan_manifest env i ar w))"
proof -
  let ?r = "rc_fold (scan_entry env i (pm_name (ar_meta ar))) (ar_manifest ar) ([], w)"
  have "txn_frame i w (snd (snd ?r))"
    by (rule rc_fold_inv [where P = "\<lambda>s. txn_frame i w (snd s)"]) (auto intro: txn_frame_trans scan_entry_frame)
  then show ?thesis
    by (cases ?r) (auto simp: scan_manifest_def intro!: and_then_frame)
qed

lemma txn_frame_install: "txn_frame i w (snd (salt_install_archive env ar repo sig i w))"
  unfolding salt_install_archive_def Let_def install_hook_def
  by (auto intro!: and_then_frame rc_fold_frame txn_frame_scan simp: drop_obsolete_def split: option.splits)

subsection \<open>Lines\<close>

lemma lines_of_Nil [simp]: "lines_of [] = []"
  by (simp add: lines_of_def)

lemma lines_of_eq_Nil [simp]: "lines_of ps = [] \<longleftrightarrow> ps = []" "[] = lines_of ps \<longleftrightarrow> ps = []"
  by (auto simp: lines_of_def)

lemma lines_of_append: "lines_of (ps @ qs) = lines_of ps @ lines_of qs"
  by (simp add: lines_of_def)

lemma split_lines_of: "(\<forall>p \<in> set ps. CHR 0x0A \<notin> set p) \<Longrightarrow> split_on (CHR 0x0A) (lines_of ps) = ps @ [[]]"
proof (induction ps)
  case (Cons p ps)
  have "split_on (CHR 0x0A) (lines_of (p # ps)) = split_on (CHR 0x0A) (p @ CHR 0x0A # lines_of ps)"
    by (simp add: lines_of_def)
  also have "\<dots> = split_on (CHR 0x0A) p @ split_on (CHR 0x0A) (lines_of ps)" by (rule split_on_append)
  finally show ?case using Cons by (simp add: split_on_notin)
qed simp

lemma not_confined_Nil [simp]: "\<not> salt_path_is_confined []"
  by (simp add: salt_path_is_confined_def)

lemma added_keys_append:
  assumes "added_wf s" "\<forall>p \<in> set ps. CHR 0x0A \<notin> set p \<and> salt_path_is_confined p"
  defines "a \<equiv> (case ts_added s of Some s \<Rightarrow> s | None \<Rightarrow> []) @ lines_of ps"
  shows "added_keys (s\<lparr>ts_added := Some a\<rparr>) = added_keys s \<union> path_key ` set ps"
    and "added_wf (s\<lparr>ts_added := Some a\<rparr>)"
proof -
  from assms(1) obtain qs where qs: "(case ts_added s of Some s \<Rightarrow> s | None \<Rightarrow> []) = lines_of qs"
    "\<forall>p \<in> set qs. CHR 0x0A \<notin> set p"
    by (cases "ts_added s") (auto simp: added_wf_def intro: that [of "[]"])
  have a: "a = lines_of (qs @ ps)" by (simp add: a_def qs lines_of_append)
  have "added_keys s = path_key ` {l \<in> set qs. salt_path_is_confined l}"
    using qs by (cases "ts_added s") (auto simp: added_keys_def split_lines_of)
  moreover have "split_on (CHR 0x0A) a = qs @ ps @ [[]]"
    using qs assms(2) split_lines_of [of "qs @ ps"] by (auto simp: a)
  ultimately show "added_keys (s\<lparr>ts_added := Some a\<rparr>) = added_keys s \<union> path_key ` set ps"
    using assms(2) by (auto simp: added_keys_def)
  show "added_wf (s\<lparr>ts_added := Some a\<rparr>)"
    using qs assms(2) a by (auto simp: added_wf_def intro!: exI [of _ "qs @ ps"])
qed

section \<open>Layouts\<close>

fun join_key :: "key \<Rightarrow> string" where
  "join_key [] = []"
| "join_key [c] = c"
| "join_key (c # cs) = c @ CHR ''/'' # join_key cs"

text \<open>A path written in its only canonical way.\<close>

definition canon :: "string \<Rightarrow> bool" where
  "canon p \<longleftrightarrow> p = join_key (path_key p)"

definition entry_in_layout :: "key set \<Rightarrow> key set \<Rightarrow> salt_manifest_entry \<Rightarrow> bool" where
  "entry_in_layout F D e \<longleftrightarrow> canon (me_path e) \<and> CHR 0x0A \<notin> set (me_path e) \<and>
     path_key (me_path e) \<in> (if me_typeflag e = SALT_TAR_DIR then D else F)"

definition file_keys :: "salt_manifest \<Rightarrow> key set" where
  "file_keys m = {path_key (me_path e) |e. e \<in> set m \<and> me_typeflag e \<noteq> SALT_TAR_DIR}"

definition archive_in_layout :: "env \<Rightarrow> key set \<Rightarrow> key set \<Rightarrow> salt_archive \<Rightarrow> bool" where
  "archive_in_layout env F D ar \<longleftrightarrow> list_all (entry_in_layout F D) (ar_manifest ar) \<and>
     list_all (payload_entry_ok (file_keys (ar_manifest ar)) D) (payload_of env ar)"

definition rows_in_layout :: "key set \<Rightarrow> key set \<Rightarrow> tables \<Rightarrow> bool" where
  "rows_in_layout F D t \<longleftrightarrow> list_all (\<lambda>r. entry_in_layout F D (manifest_entry_of r)) (t_files t)"

definition row_file :: "file_row \<Rightarrow> bool" where
  "row_file r \<longleftrightarrow> me_typeflag (manifest_entry_of r) \<noteq> SALT_TAR_DIR"

definition owners_unique :: "tables \<Rightarrow> bool" where
  "owners_unique t \<longleftrightarrow> list_all (\<lambda>r. list_all (\<lambda>r'. row_file r \<and> row_file r' \<and> fr_path r = fr_path r'
      \<longrightarrow> fr_name r = fr_name r') (t_files t)) (t_files t)"

definition written_by :: "key set \<Rightarrow> string set \<Rightarrow> tables \<Rightarrow> bool" where
  "written_by W N t \<longleftrightarrow> (\<forall>k \<in> W. \<exists>r \<in> set (t_files t). row_file r \<and> path_key (fr_path r) = k \<and> fr_name r \<in> N)"

lemma owners_uniqueD: "owners_unique t \<Longrightarrow> r \<in> set (t_files t) \<Longrightarrow> r' \<in> set (t_files t) \<Longrightarrow>
    row_file r \<Longrightarrow> row_file r' \<Longrightarrow> fr_path r = fr_path r' \<Longrightarrow> fr_name r = fr_name r'"
  unfolding owners_unique_def list_all_iff by blast

lemma canon_inj: "canon p \<Longrightarrow> canon q \<Longrightarrow> path_key p = path_key q \<Longrightarrow> p = q"
  by (simp add: canon_def)

lemma me_path_of_row [simp]: "me_path (manifest_entry_of r) = fr_path r"
  by (simp add: manifest_entry_of_def)

lemma row_of_entry [simp]:
  "row_file (file_row_of n e) \<longleftrightarrow> me_typeflag e \<noteq> SALT_TAR_DIR"
  "fr_path (file_row_of n e) = me_path e" "fr_name (file_row_of n e) = n"
  by (auto simp: row_file_def manifest_entry_of_def file_row_of_def SALT_TAR_DIR_def)

lemma row_key_in_F: "rows_in_layout F D t \<Longrightarrow> r \<in> set (t_files t) \<Longrightarrow> row_file r \<Longrightarrow> path_key (fr_path r) \<in> F"
  by (auto simp: rows_in_layout_def entry_in_layout_def list_all_iff row_file_def)

lemma row_canon: "rows_in_layout F D t \<Longrightarrow> r \<in> set (t_files t) \<Longrightarrow> canon (fr_path r)"
  by (auto simp: rows_in_layout_def entry_in_layout_def list_all_iff)

lemma row_file_iff: "rows_in_layout F D t \<Longrightarrow> F \<inter> D = {} \<Longrightarrow> r \<in> set (t_files t) \<Longrightarrow>
    row_file r \<longleftrightarrow> path_key (fr_path r) \<in> F"
  by (auto simp: rows_in_layout_def entry_in_layout_def list_all_iff row_file_def split: if_splits)

text \<open>A path that passes the ownership test of package \<open>n\<close> belongs to no other package.\<close>

lemma owner_check_sound:
  assumes rows: "rows_in_layout F D t" "owners_unique t" "F \<inter> D = {}"
    and own: "\<not> (case salt_db_owner t p of Some ow \<Rightarrow> ow \<noteq> n | None \<Rightarrow> False)"
    and r: "r \<in> set (t_files t)" "fr_path r = p" "path_key p \<in> F"
  shows "fr_name r = n"
proof -
  let ?P = "\<lambda>r. fr_path r = p \<or> fr_path r = dropWhile (\<lambda>c. c = CHR ''/'') p"
  obtain r0 where r0: "find ?P (t_files t) = Some r0"
    using r by (cases "find ?P (t_files t)") (auto simp: find_None_iff)
  then have in0: "r0 \<in> set (t_files t)" "?P r0" by (auto simp: find_Some_iff)
  then have key: "path_key (fr_path r0) = path_key p" by auto
  then have "fr_path r0 = fr_path r"
    using canon_inj [OF row_canon [OF rows(1) in0(1)] row_canon [OF rows(1) r(1)]] r(2) by simp
  moreover have "row_file r0" "row_file r" using row_file_iff [OF rows(1,3)] in0(1) r key by auto
  ultimately have "fr_name r0 = fr_name r" using owners_uniqueD [OF rows(2) in0(1) r(1)] by blast
  moreover have "fr_name r0 = n" using own r0 by (auto simp: salt_db_owner_def split: option.splits)
  ultimately show ?thesis by simp
qed

lemma owner_check_unwritten:
  assumes rows: "rows_in_layout F D t" "owners_unique t" "F \<inter> D = {}" and W: "written_by W N t" "n \<notin> N"
    and own: "\<not> (case salt_db_owner t p of Some ow \<Rightarrow> ow \<noteq> n | None \<Rightarrow> False)"
    and p: "canon p" "path_key p \<in> F"
  shows "path_key p \<notin> W"
proof
  assume "path_key p \<in> W"
  then obtain r where r: "r \<in> set (t_files t)" "path_key (fr_path r) = path_key p" "fr_name r \<in> N"
    using W(1) by (auto simp: written_by_def)
  then have "fr_path r = p" using canon_inj [OF row_canon [OF rows(1) r(1)] p(1)] by simp
  then show False using owner_check_sound [OF rows own r(1) _ p(2)] r W(2) by auto
qed

lemma own_row_unwritten:
  assumes rows: "rows_in_layout F D t" "owners_unique t" and W: "written_by W N t" "n \<notin> N"
    and r: "r \<in> set (t_files t)" "row_file r" "fr_name r = n"
  shows "path_key (fr_path r) \<notin> W"
proof
  assume "path_key (fr_path r) \<in> W"
  then obtain r' where r': "r' \<in> set (t_files t)" "row_file r'" "path_key (fr_path r') = path_key (fr_path r)" "fr_name r' \<in> N"
    using W(1) by (auto simp: written_by_def)
  then have "fr_path r' = fr_path r"
    using canon_inj [OF row_canon [OF rows(1) r'(1)] row_canon [OF rows(1) r(1)]] by simp
  then have "fr_name r' = fr_name r" using owners_uniqueD [OF rows(2) r'(1) r(1) r'(2) r(2)] by blast
  then show False using r(3) r'(4) W(2) by simp
qed

text \<open>The rows after recording a package are rows that were there and the rows of the manifest.\<close>

lemma clear_pkg_rows: "set (t_files (clear_pkg q n t)) \<subseteq> set (t_files t)"
  by (auto simp: clear_pkg_def sql_del_def del_packages_def del_files_def del_deps_def del_conflicts_def
      del_hooks_def)

lemma clear_pkg_keeps: "r \<in> set (t_files t) \<Longrightarrow> fr_name r \<noteq> n \<Longrightarrow> r \<in> set (t_files (clear_pkg q n t))"
  by (auto simp: clear_pkg_def sql_del_def del_packages_def del_files_def del_deps_def del_conflicts_def
      del_hooks_def)

lemma record_install_files:
  assumes "salt_db_record_install q m man repo sig txn t = (SALT_OK, t')"
  shows "set (t_files t') \<subseteq> set (t_files t) \<union> file_row_of (pm_name m) ` set man"
    and "file_row_of (pm_name m) ` set man \<subseteq> set (t_files t')"
    and "\<And>r. r \<in> set (t_files t) \<Longrightarrow> fr_name r \<noteq> pm_name m \<Longrightarrow> r \<in> set (t_files t')"
  using record_install_rows [OF assms] clear_pkg_rows [of q "pm_name m" t] clear_pkg_keeps [of _ t "pm_name m" q]
  by (auto simp: Let_def)

lemma record_remove_files: "set (t_files (snd (salt_db_record_remove q n t))) \<subseteq> set (t_files t)"
  by (auto simp: salt_db_record_remove_def Let_def sql_del_def del_packages_def del_files_def del_deps_def
      del_conflicts_def del_hooks_def)

lemma layout_subset:
  assumes "set (t_files t') \<subseteq> set (t_files t)"
  shows "rows_in_layout F D t \<Longrightarrow> rows_in_layout F D t'" "owners_unique t \<Longrightarrow> owners_unique t'"
  using assms unfolding rows_in_layout_def owners_unique_def list_all_iff by blast+

lemma layout_install:
  assumes rows: "rows_in_layout F D t" "owners_unique t" "F \<inter> D = {}" and W: "written_by W N t" "pm_name m \<notin> N"
    and man: "list_all (entry_in_layout F D) man"
    and own: "\<And>e. e \<in> set man \<Longrightarrow> me_typeflag e \<noteq> SALT_TAR_DIR \<Longrightarrow>
        \<not> (case salt_db_owner t (me_path e) of Some ow \<Rightarrow> ow \<noteq> pm_name m | None \<Rightarrow> False)"
    and rec: "salt_db_record_install q m man repo sig txn t = (SALT_OK, t')"
  shows "rows_in_layout F D t'" "owners_unique t'" "written_by (W \<union> file_keys man) (insert (pm_name m) N) t'"
proof -
  note R = record_install_files [OF rec]
  have new: "entry_in_layout F D (manifest_entry_of (file_row_of n e))" if "e \<in> set man" for n e
  proof -
    have "me_typeflag (manifest_entry_of (file_row_of n e)) = SALT_TAR_DIR \<longleftrightarrow> me_typeflag e = SALT_TAR_DIR"
      using row_of_entry(1) [of n e] by (simp add: row_file_def)
    then show ?thesis using man that by (auto simp: list_all_iff entry_in_layout_def)
  qed
  show "rows_in_layout F D t'"
    using R(1) rows(1) new by (force simp: rows_in_layout_def list_all_iff)
  have same: "fr_name r = pm_name m" if "e \<in> set man" "me_typeflag e \<noteq> SALT_TAR_DIR" "r \<in> set (t_files t)"
      "fr_path r = me_path e" for e r
    using owner_check_sound [OF rows own [OF that(1,2)] that(3,4)] man that
    by (auto simp: list_all_iff entry_in_layout_def)
  have old: "fr_name r = fr_name r'" if "r \<in> set (t_files t)" "r' \<in> set (t_files t)" "row_file r" "row_file r'"
      "fr_path r = fr_path r'" for r r'
    using owners_uniqueD [OF rows(2)] that by blast
  have nm: "fr_name r = fr_name r'" if r: "r \<in> set (t_files t')" "r' \<in> set (t_files t')" "row_file r" "row_file r'"
      "fr_path r = fr_path r'" for r r'
  proof -
    have c: "x \<in> set (t_files t) \<or> (\<exists>e \<in> set man. x = file_row_of (pm_name m) e)" if "x \<in> set (t_files t')" for x
      using R(1) that by auto
    show ?thesis using c [OF r(1)] c [OF r(2)] r(3-5)
      by (elim disjE bexE) (auto intro: old same same [symmetric])
  qed
  then show "owners_unique t'" unfolding owners_unique_def list_all_iff by blast
  show "written_by (W \<union> file_keys man) (insert (pm_name m) N) t'"
    unfolding written_by_def
  proof
    fix k assume "k \<in> W \<union> file_keys man"
    then show "\<exists>r \<in> set (t_files t'). row_file r \<and> path_key (fr_path r) = k \<and> fr_name r \<in> insert (pm_name m) N"
    proof
      assume "k \<in> W"
      then obtain r where "r \<in> set (t_files t)" "row_file r" "path_key (fr_path r) = k" "fr_name r \<in> N"
        using W(1) by (auto simp: written_by_def)
      then show ?thesis using R(3) W(2) by (metis insertCI)
    next
      assume "k \<in> file_keys man"
      then obtain e where "e \<in> set man" "me_typeflag e \<noteq> SALT_TAR_DIR" "k = path_key (me_path e)"
        by (auto simp: file_keys_def)
      then show ?thesis using R(2) by (intro bexI [of _ "file_row_of (pm_name m) e"]) auto
    qed
  qed
qed

section \<open>The steps of a transaction keep the invariant\<close>

definition layout_hyp :: "env \<Rightarrow> fs \<Rightarrow> key set \<Rightarrow> key set \<Rightarrow> key set \<Rightarrow> bool" where
  "layout_hyp env fs0 F D H \<longleftrightarrow> file_tree F D \<and>
     (\<forall>k \<in> F. fs_get fs0 k \<noteq> Some NOther) \<and>
     (\<forall>f \<in> F. fs_get fs0 f \<noteq> None \<longrightarrow> (\<forall>p. strict_prefix p f \<longrightarrow> dirlike fs0 p)) \<and>
     (\<forall>f \<in> F. \<forall>p. prefix p f \<longrightarrow> p \<notin> H) \<and>
     (\<forall>c fs k. k \<notin> H \<longrightarrow> fs_get (snd (env_hook env c fs)) k = fs_get fs k)"

lemma layout_hypD:
  assumes "layout_hyp env fs0 F D H"
  shows "file_tree F D" "F \<inter> D = {}" "\<And>k. k \<in> F \<Longrightarrow> fs_get fs0 k \<noteq> Some NOther" "\<And>k. k \<in> F \<Longrightarrow> k \<notin> H"
    "\<And>k. k \<in> F \<Longrightarrow> k \<notin> D"
    "\<And>c fs k. k \<notin> H \<Longrightarrow> fs_get (snd (env_hook env c fs)) k = fs_get fs k"
  using assms unfolding layout_hyp_def file_tree_def by auto

lemma backup_in_inv:
  assumes L: "layout_hyp env fs0 F D H" and inv: "winv fs0 F H W i w" and k: "path_key p \<in> F" "path_key p \<notin> W"
    and b: "backup_in env i p w = (rc, w')"
  shows "winv fs0 F H W i w'" "w_fs w' = w_fs w" "w_db w' = w_db w"
    "ts_added (state_of w' i) = ts_added (state_of w i)"
    "q \<noteq> path_key p \<Longrightarrow> fs_get (ts_backup (state_of w' i)) q = fs_get (ts_backup (state_of w i)) q"
    "rc = SALT_OK \<Longrightarrow> fs_get (w_fs w) (path_key p) \<noteq> None \<Longrightarrow>
       fs_get (ts_backup (state_of w' i)) (path_key p) \<noteq> None \<or> fs_get fs0 (path_key p) = Some NDir"
    "rc = SALT_OK \<Longrightarrow> winv fs0 F H W i (w'\<lparr>w_fs := fs_unlink (env_io env) (path_key p) (w_fs w')\<rparr>)"
proof -
  let ?k = "path_key p" and ?B = "ts_backup (state_of w i)" and ?A = "added_keys (state_of w i)"
  from b obtain B' where B': "backup_file (env_io env) ?k (w_fs w) ?B = (rc, B')"
    "w' = upd_state i (\<lambda>s. s\<lparr>ts_backup := B'\<rparr>) w"
    by (auto simp: backup_in_def split: prod.splits)
  have I: "undo_inv fs0 F H W (w_fs w) ?B ?A" and wf: "added_wf (state_of w i)"
    using inv by (auto simp: winv_def)
  have H: "?k \<notin> H" using layout_hypD(4) [OF L k(1)] .
  note BI = backup_file_inv [OF I k H B'(1)]
  have s: "added_keys (state_of w' i) = ?A" "added_wf (state_of w' i)"
    using wf by (simp_all add: B'(2) added_keys_def added_wf_def)
  show "w_fs w' = w_fs w" "w_db w' = w_db w" "ts_added (state_of w' i) = ts_added (state_of w i)"
    by (simp_all add: B'(2))
  show "winv fs0 F H W i w'" using BI(1) s by (simp add: winv_def) (simp add: B'(2))
  show "q \<noteq> ?k \<Longrightarrow> fs_get (ts_backup (state_of w' i)) q = fs_get ?B q"
    using BI(3) by (simp add: B'(2))
  show "rc = SALT_OK \<Longrightarrow> fs_get (w_fs w) ?k \<noteq> None \<Longrightarrow>
       fs_get (ts_backup (state_of w' i)) ?k \<noteq> None \<or> fs_get fs0 ?k = Some NDir"
    using BI(2) undo_invD(8) [OF I k] undo_invD(9) [OF I k(1)] layout_hypD(3) [OF L k(1)] by (auto simp: B'(2))
  show "rc = SALT_OK \<Longrightarrow> winv fs0 F H W i (w'\<lparr>w_fs := fs_unlink (env_io env) ?k (w_fs w')\<rparr>)"
    using backup_unlink_inv [OF I k H layout_hypD(3) [OF L k(1)]] B' s by (auto simp: winv_def)
qed

lemma winv_fs:
  assumes "winv fs0 F H W i w" "\<And>k. k \<notin> H \<Longrightarrow> dsim (fs_get fs' k) (fs_get (w_fs w) k)"
    "\<And>k. k \<in> F \<Longrightarrow> fs_get fs' k = fs_get (w_fs w) k"
  shows "winv fs0 F H W i (w\<lparr>w_fs := fs'\<rparr>)"
  using assms undo_inv_same_files by (fastforce simp: winv_def)

lemma winv_tab [simp]: "winv fs0 F H W i (snd (upd_tab f w)) = winv fs0 F H W i w"
  by (simp add: winv_def upd_tab_def split: prod.splits)

lemma winv_mono: "winv fs0 F H W i w \<Longrightarrow> W \<subseteq> W' \<Longrightarrow> winv fs0 F H W' i w"
  using undo_inv_mono by (auto simp: winv_def)

lemma run_hook_inv:
  assumes L: "layout_hyp env fs0 F D H" and inv: "winv fs0 F H W i w"
  shows "winv fs0 F H W i (snd (run_hook env a b c k d w))" "w_db (snd (run_hook env a b c k d w)) = w_db w"
  using winv_fs [OF inv] layout_hypD(4,6) [OF L] inv
  by (auto simp: run_hook_def Let_def split: prod.splits) (metis dsim_refl snd_conv)

lemma opt_hook_inv:
  assumes "layout_hyp env fs0 F D H" "winv fs0 F H W i w"
  shows "winv fs0 F H W i (snd (opt_hook env a b k d w))" "w_db (snd (opt_hook env a b k d w)) = w_db w"
  using assms run_hook_inv by (auto simp: opt_hook_def split: option.splits)

subsection \<open>Removal\<close>

lemma remove_entry_inv:
  assumes L: "layout_hyp env fs0 F D H" and inv: "winv fs0 F H W i w"
    and e: "entry_in_layout F D e" "me_typeflag e \<noteq> SALT_TAR_DIR \<Longrightarrow> path_key (me_path e) \<notin> W"
  shows "winv fs0 F H W i (snd (remove_entry env i e w))" "w_db (snd (remove_entry env i e w)) = w_db w"
proof -
  let ?p = "me_path e"
  obtain rc w' where b: "backup_in env i ?p w = (rc, w')" by fastforce
  have "winv fs0 F H W i (snd (remove_entry env i e w)) \<and> w_db (snd (remove_entry env i e w)) = w_db w"
  proof (cases "me_typeflag e = SALT_TAR_DIR")
    case True
    then have "path_key ?p \<notin> F" using e(1) layout_hypD(5) [OF L] by (auto simp: entry_in_layout_def)
    then have "winv fs0 F H W i (w\<lparr>w_fs := fs_rmdir (env_io env) (path_key ?p) (w_fs w)\<rparr>)"
      using inv rmdir_inv by (auto simp: winv_def)
    then show ?thesis using True inv by (auto simp: remove_entry_def)
  next
    case False
    then have k: "path_key ?p \<in> F" "path_key ?p \<notin> W" using e by (auto simp: entry_in_layout_def)
    note B = backup_in_inv [OF L inv k b]
    show ?thesis using False inv B(1,3,7) by (auto simp: remove_entry_def b and_then_def)
  qed
  then show "winv fs0 F H W i (snd (remove_entry env i e w))" "w_db (snd (remove_entry env i e w)) = w_db w"
    by auto
qed

lemma pkg_manifest_rows: "e \<in> set (salt_db_pkg_manifest t n) \<longleftrightarrow>
    (\<exists>r \<in> set (t_files t). fr_name r = n \<and> e = manifest_entry_of r)"
  by (auto simp: salt_db_pkg_manifest_def)

lemma salt_remove_pkg_inv:
  assumes L: "layout_hyp env fs0 F D H" and inv: "winv fs0 F H {} i w"
    and rows: "rows_in_layout F D (w_tab w)" "owners_unique (w_tab w)"
    and w': "w' = snd (salt_remove_pkg env n i w)"
  shows "winv fs0 F H {} i w'" "rows_in_layout F D (w_tab w')" "owners_unique (w_tab w')"
proof -
  define P where "P v \<longleftrightarrow> winv fs0 F H {} i v \<and> rows_in_layout F D (w_tab v) \<and> owners_unique (w_tab v)" for v
  let ?man = "salt_db_pkg_manifest (w_tab w) n"
  have man: "list_all (entry_in_layout F D) ?man"
    using rows(1) by (auto simp: list_all_iff pkg_manifest_rows rows_in_layout_def)
  have hook: "P (snd (opt_hook env a b k d v))" if "P v" for a b k d v
    using that opt_hook_inv [OF L] unfolding P_def by metis
  have loop: "P (snd (rc_fold (remove_entry env i) ?man v))" if "P v" for v
    by (rule rc_fold_inv [where P = P, OF that])
      (use man remove_entry_inv [OF L] in \<open>auto simp: P_def list_all_iff\<close>)
  have rec: "P (snd (upd_tab (salt_db_record_remove (env_sql env) n) v))" if "P v" for v
    using that layout_subset [OF record_remove_files] winv_tab
    by (auto simp: P_def upd_tab_def split: prod.splits) (metis snd_conv)+
  have "P w" using inv rows by (simp add: P_def)
  then have "P w'"
    unfolding w' salt_remove_pkg_def Let_def
    by (auto intro!: and_then_inv [where P = P] hook loop rec)
  then show "winv fs0 F H {} i w'" "rows_in_layout F D (w_tab w')" "owners_unique (w_tab w')" by (auto simp: P_def)
qed

subsection \<open>Installation\<close>

definition owner_passes :: "tables \<Rightarrow> string \<Rightarrow> string \<Rightarrow> bool" where
  "owner_passes t n p \<longleftrightarrow> \<not> (case salt_db_owner t p of Some ow \<Rightarrow> ow \<noteq> n | None \<Rightarrow> False)"

definition scan_inv :: "fs \<Rightarrow> key set \<Rightarrow> key set \<Rightarrow> key set \<Rightarrow> int \<Rightarrow> string \<Rightarrow> world \<Rightarrow>
    salt_manifest_entry set \<Rightarrow> string \<times> world \<Rightarrow> bool" where
  "scan_inv fs0 F H W i n w0 E s \<longleftrightarrow>
     winv fs0 F H W i (snd s) \<and> w_fs (snd s) = w_fs w0 \<and> w_db (snd s) = w_db w0 \<and>
     (\<exists>ps. fst s = lines_of ps \<and>
        (\<forall>p \<in> set ps. salt_path_is_confined p \<and> CHR 0x0A \<notin> set p \<and> path_key p \<in> F - W \<and>
           fs_get (w_fs w0) (path_key p) = None) \<and>
        (\<forall>e \<in> E. me_typeflag e \<noteq> SALT_TAR_DIR \<longrightarrow>
           owner_passes (w_tab w0) n (me_path e) \<and> path_key (me_path e) \<notin> W \<and>
           (fs_get (ts_backup (state_of (snd s) i)) (path_key (me_path e)) \<noteq> None \<or>
            path_key (me_path e) \<in> path_key ` set ps \<or> fs_get fs0 (path_key (me_path e)) = Some NDir)))"

lemma scan_entry_inv:
  assumes L: "layout_hyp env fs0 F D H"
    and rows: "rows_in_layout F D (w_tab w0)" "owners_unique (w_tab w0)" "written_by W N (w_tab w0)" "n \<notin> N"
    and inv: "scan_inv fs0 F H W i n w0 E s"
    and e: "entry_in_layout F D e" "salt_path_is_confined (me_path e)"
    and st: "scan_entry env i n e s = (rc, s')"
  shows "if rc = SALT_OK then scan_inv fs0 F H W i n w0 (insert e E) s' else winv fs0 F H W i (snd s')"
proof -
  obtain added w where s: "s = (added, w)" by fastforce
  let ?p = "me_path e" let ?k = "path_key ?p"
  from inv obtain ps where I: "winv fs0 F H W i w" "w_fs w = w_fs w0" "w_db w = w_db w0" "added = lines_of ps"
    "\<forall>p \<in> set ps. salt_path_is_confined p \<and> CHR 0x0A \<notin> set p \<and> path_key p \<in> F - W \<and>
        fs_get (w_fs w0) (path_key p) = None"
    "\<forall>e \<in> E. me_typeflag e \<noteq> SALT_TAR_DIR \<longrightarrow>
        owner_passes (w_tab w0) n (me_path e) \<and> path_key (me_path e) \<notin> W \<and>
        (fs_get (ts_backup (state_of w i)) (path_key (me_path e)) \<noteq> None \<or>
         path_key (me_path e) \<in> path_key ` set ps \<or> fs_get fs0 (path_key (me_path e)) = Some NDir)"
    by (auto simp: scan_inv_def s)
  consider (dir) "me_typeflag e = SALT_TAR_DIR"
    | (conflict) "me_typeflag e \<noteq> SALT_TAR_DIR" "\<not> owner_passes (w_tab w) n ?p"
    | (backup) "me_typeflag e \<noteq> SALT_TAR_DIR" "owner_passes (w_tab w) n ?p" "fs_get (w_fs w) ?k \<noteq> None"
    | (new) "me_typeflag e \<noteq> SALT_TAR_DIR" "owner_passes (w_tab w) n ?p" "fs_get (w_fs w) ?k = None"
    by blast
  then show ?thesis
  proof cases
    case dir
    then show ?thesis using st inv by (auto simp: scan_entry_def s scan_inv_def)
  next
    case conflict
    then show ?thesis using st I(1) by (auto simp: scan_entry_def s owner_passes_def)
  next
    case backup
    have kF: "?k \<in> F" using e backup by (simp add: entry_in_layout_def)
    have kW: "?k \<notin> W"
      using owner_check_unwritten [OF rows(1,2) layout_hypD(2) [OF L] rows(3,4)] backup(2) I(3) e(1) kF
      by (simp add: owner_passes_def entry_in_layout_def)
    obtain w1 where b: "backup_in env i ?p w = (rc, w1)" "s' = (added, w1)"
      using st backup by (auto simp: scan_entry_def s owner_passes_def split: prod.splits)
    note B = backup_in_inv [OF L I(1) kF kW b(1)]
    have "scan_inv fs0 F H W i n w0 (insert e E) s'" if "rc = SALT_OK"
      unfolding scan_inv_def b(2) fst_conv snd_conv
    proof (intro conjI exI [of _ ps])
      show "\<forall>x \<in> insert e E. me_typeflag x \<noteq> SALT_TAR_DIR \<longrightarrow>
           owner_passes (w_tab w0) n (me_path x) \<and> path_key (me_path x) \<notin> W \<and>
           (fs_get (ts_backup (state_of w1 i)) (path_key (me_path x)) \<noteq> None \<or>
            path_key (me_path x) \<in> path_key ` set ps \<or> fs_get fs0 (path_key (me_path x)) = Some NDir)"
        using I(3,6) backup(2) kW B(5) B(6) [OF that backup(3)] by (metis insert_iff)
    qed (use B(1-3) I in auto)
    then show ?thesis using B(1) by (simp add: b(2))
  next
    case new
    have kF: "?k \<in> F" using e new by (simp add: entry_in_layout_def)
    have kW: "?k \<notin> W"
      using owner_check_unwritten [OF rows(1,2) layout_hypD(2) [OF L] rows(3,4)] new(2) I(3) e(1) kF
      by (simp add: owner_passes_def entry_in_layout_def)
    have s': "rc = SALT_OK" "s' = (added @ ?p @ [CHR 0x0A], w)"
      using st new by (auto simp: scan_entry_def s owner_passes_def)
    have "scan_inv fs0 F H W i n w0 (insert e E) s'"
      unfolding scan_inv_def s'(2) fst_conv snd_conv
      by (intro conjI exI [of _ "ps @ [?p]"]) (use I new kF kW e in \<open>auto simp: lines_of_def entry_in_layout_def\<close>)
    then show ?thesis using s' by simp
  qed
qed

lemma append_added_inv:
  assumes L: "layout_hyp env fs0 F D H" and inv: "winv fs0 F H W i w"
    and ps: "\<forall>p \<in> set ps. salt_path_is_confined p \<and> CHR 0x0A \<notin> set p \<and> path_key p \<in> F - W \<and>
        fs_get (w_fs w) (path_key p) = None"
    and a: "append_added env i (lines_of ps) w = (rc, w')"
  shows "winv fs0 F H W i w'" "w_fs w' = w_fs w" "w_db w' = w_db w"
    "ts_backup (state_of w' i) = ts_backup (state_of w i)"
    "rc = SALT_OK \<Longrightarrow> path_key ` set ps \<subseteq> added_keys (state_of w' i)"
proof -
  let ?s = "state_of w i"
  let ?all = "(case ts_added ?s of Some s \<Rightarrow> s | None \<Rightarrow> []) @ lines_of ps"
  have I: "undo_inv fs0 F H W (w_fs w) (ts_backup ?s) (added_keys ?s)" and wf: "added_wf ?s"
    using inv by (auto simp: winv_def)
  note U = undo_invD [OF I]
  have A: "added_keys (?s\<lparr>ts_added := Some ?all\<rparr>) = added_keys ?s \<union> path_key ` set ps" "added_wf (?s\<lparr>ts_added := Some ?all\<rparr>)"
    using added_keys_append [OF wf, of ps] ps by auto
  have cov: "fs_get fs0 k = None \<or> fs_get (ts_backup ?s) k \<noteq> None" if "k \<in> path_key ` set ps" for k
  proof -
    have k: "k \<in> F" "k \<notin> W" "fs_get (w_fs w) k = None" "k \<notin> H" using ps that layout_hypD(4) [OF L] by auto
    show ?thesis using U(5) [of k] U(7) [OF k(4)] U(9) [OF k(1)] k(3)
      by (cases "k \<in> added_keys ?s") (auto simp: dsim_def dirish_def)
  qed
  have new: "undo_inv fs0 F H W (w_fs w) (ts_backup ?s) (added_keys ?s \<union> path_key ` set ps)"
  proof (rule undo_invI [OF U(1,2)])
    show "fs_get fs0 k = None \<or> fs_get (ts_backup ?s) k \<noteq> None" if "k \<in> added_keys ?s \<union> path_key ` set ps" for k
      using that U(5) [of k] cov [of k] by (elim UnE) simp_all
    show "fs_get (w_fs w) k = None" if "k \<in> added_keys ?s \<union> path_key ` set ps" "k \<notin> W" for k
      using that U(6) [OF _ that(2)] ps by (elim UnE imageE) simp_all
    show "added_keys ?s \<union> path_key ` set ps \<subseteq> F" using U(3) ps by blast
  qed (use U(4,7-9) in blast)+
  consider "w' = w" "ps = [] \<or> rc \<noteq> SALT_OK" | "w' = upd_state i (\<lambda>s. s\<lparr>ts_added := Some ?all\<rparr>) w"
    using a by (auto simp: append_added_def Let_def split: if_splits)
  then show "winv fs0 F H W i w'" "w_fs w' = w_fs w" "w_db w' = w_db w"
    "ts_backup (state_of w' i) = ts_backup ?s" "rc = SALT_OK \<Longrightarrow> path_key ` set ps \<subseteq> added_keys (state_of w' i)"
    using inv new A by (cases; auto simp: winv_def)+
qed

lemma scan_manifest_inv:
  assumes L: "layout_hyp env fs0 F D H"
    and rows: "rows_in_layout F D (w_tab w)" "owners_unique (w_tab w)" "written_by W N (w_tab w)"
      "pm_name (ar_meta ar) \<notin> N"
    and inv: "winv fs0 F H W i w"
    and man: "list_all (entry_in_layout F D) (ar_manifest ar)" "list_all (\<lambda>e. salt_path_is_confined (me_path e)) (ar_manifest ar)"
    and st: "scan_manifest env i ar w = (rc, w')"
  shows "winv fs0 F H W i w'"
    and "rc = SALT_OK \<Longrightarrow> w_db w' = w_db w \<and> (\<forall>e \<in> set (ar_manifest ar). me_typeflag e \<noteq> SALT_TAR_DIR \<longrightarrow>
           owner_passes (w_tab w) (pm_name (ar_meta ar)) (me_path e) \<and> path_key (me_path e) \<notin> W \<and>
           (fs_get (ts_backup (state_of w' i)) (path_key (me_path e)) \<noteq> None \<or>
            path_key (me_path e) \<in> added_keys (state_of w' i) \<or> fs_get fs0 (path_key (me_path e)) = Some NDir))"
proof -
  let ?n = "pm_name (ar_meta ar)" let ?P = "scan_inv fs0 F H W i ?n w"
  obtain rc1 added w1 where f: "rc_fold (scan_entry env i ?n) (ar_manifest ar) ([], w) = (rc1, added, w1)"
    by (metis prod.exhaust)
  have init: "?P {} ([], w)" using inv by (auto simp: scan_inv_def intro!: exI [of _ "[]"])
  have step: "if rc = SALT_OK then ?P (insert e E) s' else winv fs0 F H W i (snd s')"
    if "e \<in> set (ar_manifest ar)" "?P E s" "scan_entry env i ?n e s = (rc, s')" for e E s rc s'
    using scan_entry_inv [OF L rows that(2) _ _ that(3)] man that(1) by (auto simp: list_all_iff)
  have R: "if rc1 = SALT_OK then ?P ({} \<union> set (ar_manifest ar)) (added, w1)
      else winv fs0 F H W i (snd (added, w1))"
    by (rule rc_fold_acc [where P = ?P and Q = "\<lambda>s. winv fs0 F H W i (snd s)", OF f init]) (rule step)
  have res: "and_then (rc1, w1) (append_added env i added) = (rc, w')"
    using st f by (simp add: scan_manifest_def)
  show "winv fs0 F H W i w'"
  proof (cases "rc1 = SALT_OK")
    case True
    then obtain ps where "winv fs0 F H W i w1" "w_fs w1 = w_fs w" "added = lines_of ps"
      "\<forall>p \<in> set ps. salt_path_is_confined p \<and> CHR 0x0A \<notin> set p \<and> path_key p \<in> F - W \<and>
        fs_get (w_fs w) (path_key p) = None"
      using R by (auto simp: scan_inv_def)
    then show ?thesis using append_added_inv(1) [OF L, of W i w1 ps] res True by (auto simp: and_then_def)
  next
    case False
    then show ?thesis using R res by (auto simp: and_then_def)
  qed
  assume ok: "rc = SALT_OK"
  then have ok1: "rc1 = SALT_OK" "append_added env i added w1 = (SALT_OK, w')"
    using res by (auto simp: and_then_def split: if_splits)
  then have P: "?P (set (ar_manifest ar)) (added, w1)" using R by simp
  then obtain ps where ps: "winv fs0 F H W i w1" "w_fs w1 = w_fs w" "w_db w1 = w_db w" "added = lines_of ps"
      "\<forall>p \<in> set ps. salt_path_is_confined p \<and> CHR 0x0A \<notin> set p \<and> path_key p \<in> F - W \<and>
        fs_get (w_fs w) (path_key p) = None"
      "\<forall>e \<in> set (ar_manifest ar). me_typeflag e \<noteq> SALT_TAR_DIR \<longrightarrow>
        owner_passes (w_tab w) ?n (me_path e) \<and> path_key (me_path e) \<notin> W \<and>
        (fs_get (ts_backup (state_of w1 i)) (path_key (me_path e)) \<noteq> None \<or>
         path_key (me_path e) \<in> path_key ` set ps \<or> fs_get fs0 (path_key (me_path e)) = Some NDir)"
    unfolding scan_inv_def by auto
  note AA = append_added_inv [OF L ps(1) _ ok1(2) [unfolded ps(4)]]
  have "path_key ` set ps \<subseteq> added_keys (state_of w' i)" "w_db w' = w_db w1"
    "ts_backup (state_of w' i) = ts_backup (state_of w1 i)"
    using AA(3-5) ps(2,5) by auto
  then show "w_db w' = w_db w \<and> (\<forall>e \<in> set (ar_manifest ar). me_typeflag e \<noteq> SALT_TAR_DIR \<longrightarrow>
           owner_passes (w_tab w) ?n (me_path e) \<and> path_key (me_path e) \<notin> W \<and>
           (fs_get (ts_backup (state_of w' i)) (path_key (me_path e)) \<noteq> None \<or>
            path_key (me_path e) \<in> added_keys (state_of w' i) \<or> fs_get fs0 (path_key (me_path e)) = Some NDir))"
    using ps(3,6) by (metis subsetD)
qed

lemma upd_fs_extract_inv:
  assumes L: "layout_hyp env fs0 F D H" and inv: "winv fs0 F H W i w" and M: "M \<subseteq> F" "M \<subseteq> W"
    and cov: "\<And>k. k \<in> M \<Longrightarrow> fs_get (ts_backup (state_of w i)) k \<noteq> None \<or> k \<in> added_keys (state_of w i) \<or>
        fs_get fs0 k = Some NDir"
    and pay: "list_all (payload_entry_ok M D) (payload_of env ar)"
  shows "winv fs0 F H W i (snd (upd_fs (salt_archive_extract_payload (env_zst env) (env_io env) ar) w))"
    and "w_db (snd (upd_fs g w)) = w_db w"
proof -
  have I: "undo_inv fs0 F H W (w_fs w) (ts_backup (state_of w i)) (added_keys (state_of w i))" "added_wf (state_of w i)"
    using inv by (auto simp: winv_def)
  show "winv fs0 F H W i (snd (upd_fs (salt_archive_extract_payload (env_zst env) (env_io env) ar) w))"
    using extract_payload_inv [OF I(1) layout_hypD(1) [OF L] M cov pay, of "env_io env"] I(2)
    by (auto simp: winv_def upd_fs_def split: prod.splits)
  show "w_db (snd (upd_fs g w)) = w_db w" by (simp add: upd_fs_def split: prod.splits)
qed

lemma drop_obsolete_inv:
  assumes L: "layout_hyp env fs0 F D H" and inv: "winv fs0 F H W i w"
    and e: "entry_in_layout F D e"
      "me_typeflag e \<noteq> SALT_TAR_DIR \<Longrightarrow> \<not> manifest_has new (me_path e) \<Longrightarrow> path_key (me_path e) \<notin> W"
  shows "winv fs0 F H W i (snd (drop_obsolete env i new e w)) \<and> w_db (snd (drop_obsolete env i new e w)) = w_db w"
proof (cases "me_typeflag e = SALT_TAR_DIR \<or> manifest_has new (me_path e)")
  case True
  then show ?thesis using inv by (auto simp: drop_obsolete_def)
next
  case False
  then have k: "path_key (me_path e) \<in> F" "path_key (me_path e) \<notin> W" using e by (auto simp: entry_in_layout_def)
  obtain rc w' where b: "backup_in env i (me_path e) w = (rc, w')" by fastforce
  note B = backup_in_inv [OF L inv k b]
  show ?thesis using False inv B(1,3,7) by (auto simp: drop_obsolete_def b and_then_def)
qed

lemma install_hook_inv:
  assumes "layout_hyp env fs0 F D H" "winv fs0 F H W i w"
  shows "winv fs0 F H W i (snd (install_hook env ar u ov w)) \<and> w_db (snd (install_hook env ar u ov w)) = w_db w"
  using assms run_hook_inv by (auto simp: install_hook_def Let_def split: option.splits)

lemma obsolete_unwritten:
  assumes rows: "rows_in_layout F D t" "owners_unique t" "written_by W N t" "n \<notin> N"
    and man: "list_all (entry_in_layout F D) new"
    and e: "e \<in> set (salt_db_pkg_manifest t n)" "me_typeflag e \<noteq> SALT_TAR_DIR" "\<not> manifest_has new (me_path e)"
  shows "path_key (me_path e) \<notin> W \<union> file_keys new"
proof -
  obtain r where r: "r \<in> set (t_files t)" "fr_name r = n" "e = manifest_entry_of r"
    using e(1) by (auto simp: pkg_manifest_rows)
  have "path_key (me_path e) \<notin> W"
    using own_row_unwritten [OF rows r(1) _ r(2)] e(2) r(3) by (simp add: row_file_def)
  moreover have "path_key (me_path e) \<notin> file_keys new"
  proof
    assume "path_key (me_path e) \<in> file_keys new"
    then obtain e' where e': "e' \<in> set new" "path_key (me_path e') = path_key (me_path e)"
      by (auto simp: file_keys_def)
    have "me_path e' = me_path e"
      using canon_inj [of "me_path e'" "me_path e"] e'(2) row_canon [OF rows(1) r(1)] r(3) man e'(1)
      by (auto simp: list_all_iff entry_in_layout_def)
    then show False using e(3) e'(1) by (auto simp: manifest_has_def list_ex_iff)
  qed
  ultimately show ?thesis by simp
qed

lemma salt_install_archive_inv:
  assumes L: "layout_hyp env fs0 F D H" and inv: "winv fs0 F H W i w"
    and rows: "rows_in_layout F D (w_tab w)" "owners_unique (w_tab w)" "written_by W N (w_tab w)"
      "pm_name (ar_meta ar) \<notin> N"
    and ar: "archive_in_layout env F D ar"
    and st: "salt_install_archive env ar repo sig i w = (rc, w')"
  shows "winv fs0 F H (W \<union> file_keys (ar_manifest ar)) i w'"
    and "rc = SALT_OK \<Longrightarrow> rows_in_layout F D (w_tab w') \<and> owners_unique (w_tab w') \<and>
          written_by (W \<union> file_keys (ar_manifest ar)) (insert (pm_name (ar_meta ar)) N) (w_tab w')"
proof -
  let ?man = "ar_manifest ar" and ?n = "pm_name (ar_meta ar)"
  let ?M = "file_keys ?man" let ?W = "W \<union> ?M"
  have man: "list_all (entry_in_layout F D) ?man" and pay: "list_all (payload_entry_ok ?M D) (payload_of env ar)"
    using ar by (auto simp: archive_in_layout_def)
  have MF: "?M \<subseteq> F" using man by (auto simp: file_keys_def list_all_iff entry_in_layout_def)
  let ?up = "salt_db_is_installed (w_tab w) ?n"
  let ?old = "if ?up then salt_db_pkg_manifest (w_tab w) ?n else []"
  let ?ov = "if ?up then map_option dp_version (salt_db_get_pkg (w_tab w) ?n) else None"
  define P where "P v \<longleftrightarrow> winv fs0 F H ?W i v \<and> w_db v = w_db w" for v
  obtain rc1 w1 where scan: "scan_manifest env i ar w = (rc1, w1)" by fastforce
  have "winv fs0 F H ?W i w' \<and> (rc = SALT_OK \<longrightarrow> rows_in_layout F D (w_tab w') \<and> owners_unique (w_tab w') \<and>
          written_by ?W (insert ?n N) (w_tab w'))"
  proof (cases "list_all (\<lambda>e. salt_path_is_confined (me_path e)) ?man")
    case False
    then have "rc = SALT_ERR_FORMAT" "w' = w" using st by (auto simp: salt_install_archive_def manifest_check_confined_def)
    then show ?thesis using winv_mono [OF inv, of ?W] by simp
  next
    case conf: True
    note S = scan_manifest_inv [OF L rows inv man conf scan]
    show ?thesis
    proof (cases "rc1 = SALT_OK")
      case False
      then have "rc = rc1" "w' = w1"
        using st conf scan by (auto simp: salt_install_archive_def manifest_check_confined_def Let_def and_then_def)
      then show ?thesis using winv_mono [OF S(1), of ?W] False by simp
    next
      case ok: True
      note C = S(2) [OF ok]
      have cov: "fs_get (ts_backup (state_of w1 i)) k \<noteq> None \<or> k \<in> added_keys (state_of w1 i) \<or> fs_get fs0 k = Some NDir"
        if "k \<in> ?M" for k using C that by (auto simp: file_keys_def)
      let ?x = "upd_fs (salt_archive_extract_payload (env_zst env) (env_io env) ar) w1"
      let ?y = "and_then ?x (rc_fold (drop_obsolete env i ?man) ?old)"
      let ?z = "and_then ?y (install_hook env ar ?up ?ov)"
      have Px: "P (snd ?x)"
        using upd_fs_extract_inv [OF L winv_mono [OF S(1), of ?W] MF _ cov pay] C by (simp add: P_def)
      have step: "P (snd (drop_obsolete env i ?man e v))" if "e \<in> set ?old" "P v" for e v
      proof -
        have e: "e \<in> set (salt_db_pkg_manifest (w_tab w) ?n)" using that(1) by (auto split: if_splits)
        then have "entry_in_layout F D e" using rows(1) by (auto simp: pkg_manifest_rows rows_in_layout_def list_all_iff)
        then show ?thesis
          using drop_obsolete_inv [OF L _ _ obsolete_unwritten [OF rows man e]] that(2) unfolding P_def by metis
      qed
      have Py: "P (snd ?y)"
        by (rule and_then_inv [where P = P, OF Px]) (rule rc_fold_inv [where P = P], auto intro: step)
      have hook: "P (snd (install_hook env ar u ov v))" if "P v" for u ov v
        using install_hook_inv [OF L] that unfolding P_def by metis
      have Pz: "P (snd ?z)"
        by (rule and_then_inv [where P = P, OF Py]) (rule hook)
      have res: "and_then ?z (upd_tab (salt_db_record_install (env_sql env) (ar_meta ar) ?man repo sig i)) = (rc, w')"
        using st conf scan ok by (simp add: salt_install_archive_def manifest_check_confined_def Let_def)
      have wi: "winv fs0 F H ?W i w'"
        using Pz arg_cong [OF res, of snd] by (auto simp: P_def and_then_def split: if_splits)
      moreover have "rows_in_layout F D (w_tab w') \<and> owners_unique (w_tab w') \<and> written_by ?W (insert ?n N) (w_tab w')"
        if rcok: "rc = SALT_OK"
      proof -
        from res rcok obtain v where v: "?z = (SALT_OK, v)"
          "upd_tab (salt_db_record_install (env_sql env) (ar_meta ar) ?man repo sig i) v = (SALT_OK, w')"
          by (auto simp: and_then_OK)
        then have "salt_db_record_install (env_sql env) (ar_meta ar) ?man repo sig i (w_tab w) = (SALT_OK, w_tab w')"
          using Pz by (auto simp: P_def upd_tab_def split: prod.splits)
        then show ?thesis
          using layout_install [OF rows(1,2) layout_hypD(2) [OF L] rows(3,4) man] C by (simp add: owner_passes_def)
      qed
      ultimately show ?thesis by blast
    qed
  qed
  then show "winv fs0 F H ?W i w'" "rc = SALT_OK \<Longrightarrow> rows_in_layout F D (w_tab w') \<and> owners_unique (w_tab w') \<and>
          written_by ?W (insert ?n N) (w_tab w')" by auto
qed

section \<open>Undoing restores the files\<close>

lemma mkdirs_from_dirlike:
  assumes "dirlike fs pre"
    and "\<And>r s. k = r @ s \<Longrightarrow> r \<noteq> [] \<Longrightarrow> (fs_get fs (pre @ r) = None \<or> dirlike fs (pre @ r)) \<and> io_ok io IoMkdir (pre @ r)"
  shows "dirlike (snd (mkdirs_from io pre k fs)) (pre @ k)"
  using assms
proof (induction io pre k fs rule: mkdirs_from.induct)
  case (2 io pre c cs fs)
  have sub: "fs_get fs ((pre @ [c]) @ r) = None \<or> dirlike fs ((pre @ [c]) @ r)"
    "io_ok io IoMkdir ((pre @ [c]) @ r)" if "cs = r @ s" for r s
    using 2(4) [of "c # r" s] that by auto
  have first: "fs_get fs (pre @ [c]) = None \<or> dirlike fs (pre @ [c])" "io_ok io IoMkdir (pre @ [c])"
    using 2(4) [of "[c]" cs] by auto
  show ?case
  proof (cases "fs_get fs (pre @ [c])")
    case (Some n)
    then have "dirlike (snd (mkdirs_from io (pre @ [c]) cs fs)) ((pre @ [c]) @ cs)"
      using 2(2) [OF _ Some] 2(3) first sub by (simp add: Some)
    then show ?thesis using Some 2(3) by simp
  next
    case None
    let ?fs = "fs_put (pre @ [c]) NDir fs"
    have "dirlike ?fs (pre @ [c])" by (simp add: dirlike_def)
    moreover have "(fs_get ?fs ((pre @ [c]) @ r) = None \<or> dirlike ?fs ((pre @ [c]) @ r)) \<and> io_ok io IoMkdir ((pre @ [c]) @ r)"
      if "cs = r @ s" "r \<noteq> []" for r s
      using sub [OF that(1)] that(2) by (auto simp: dirlike_def)
    ultimately have "dirlike (snd (mkdirs_from io (pre @ [c]) cs ?fs)) ((pre @ [c]) @ cs)"
      using 2(1) [OF _ None first(2)] 2(3) by blast
    then show ?thesis using None first(2) 2(3) by simp
  qed
qed simp

definition restore_io_ok :: "env \<Rightarrow> key set \<Rightarrow> bool" where
  "restore_io_ok env F \<longleftrightarrow> (\<forall>f \<in> F. io_ok (env_io env) IoRestore f \<and> io_ok (env_io env) IoUnlink f \<and>
     (\<forall>p. prefix p f \<longrightarrow> io_ok (env_io env) IoMkdir p))"

text \<open>Outside the files of the layout only directories have come and gone.\<close>

definition base_ok :: "fs \<Rightarrow> key set \<Rightarrow> key set \<Rightarrow> fs \<Rightarrow> bool" where
  "base_ok fs0 F H fs \<longleftrightarrow> (\<forall>k. k \<notin> F \<longrightarrow> k \<notin> H \<longrightarrow> dsim (fs_get fs k) (fs_get fs0 k)) \<and>
     (\<forall>k \<in> F. fs_get fs k = Some NDir \<longrightarrow> fs_get fs0 k = Some NDir)"

lemma parent_made:
  assumes L: "layout_hyp env fs0 F D H" and io: "restore_io_ok env F" and b: "base_ok fs0 F H fs"
    and k: "k \<in> F" "fs_get fs0 k \<noteq> None"
  shows "dirlike (snd (salt_mkdirs (env_io env) (butlast k) fs)) (butlast k)"
proof -
  have pre: "fs_get fs p = None \<or> dirlike fs p" if "strict_prefix p k" for p
  proof -
    have "dirlike fs0 p" "p \<notin> H" "p \<notin> F"
      using L k that by (auto simp: layout_hyp_def file_tree_def)
    then show ?thesis using b by (auto simp: base_ok_def dsim_def dirish_def dirlike_def)
  qed
  have kne: "k \<noteq> []" using L k by (auto simp: layout_hyp_def file_tree_def)
  have sp: "strict_prefix r k" if "butlast k = r @ s" for r s
  proof -
    have "k = r @ (s @ [last k])" using that append_butlast_last_id [OF kne] by (metis append.assoc)
    then show ?thesis by (metis append_is_Nil_conv not_Cons_self2 strict_prefixI' append_self_conv
          prefixI strict_prefix_def)
  qed
  have "dirlike (snd (mkdirs_from (env_io env) [] (butlast k) fs)) ([] @ butlast k)"
  proof (rule mkdirs_from_dirlike)
    fix r s assume r: "butlast k = r @ s" "r \<noteq> []"
    have "io_ok (env_io env) IoMkdir r" using io k sp [OF r(1)] by (auto simp: restore_io_ok_def)
    then show "(fs_get fs ([] @ r) = None \<or> dirlike fs ([] @ r)) \<and> io_ok (env_io env) IoMkdir ([] @ r)"
      using pre [OF sp [OF r(1)]] by simp
  qed (simp add: dirlike_def)
  then show ?thesis by (simp add: salt_mkdirs_def)
qed

lemma restore_node_ok:
  assumes L: "layout_hyp env fs0 F D H" and io: "restore_io_ok env F" and b: "base_ok fs0 F H fs"
    and k: "k \<in> F" "fs_get fs0 k = Some n0" "n0 \<noteq> NDir" "n0 \<noteq> NOther"
  defines "fs' \<equiv> restore_node env k (mask_node n0) fs"
  shows "base_ok fs0 F H fs'" "fs_get fs' k = Some (mask_node n0)" "\<And>q. q \<in> F \<Longrightarrow> q \<noteq> k \<Longrightarrow> fs_get fs' q = fs_get fs q"
proof -
  let ?fs1 = "snd (salt_mkdirs (env_io env) (butlast k) fs)"
  have tree: "file_tree F D" and kne: "k \<noteq> []" using L k(1) by (auto simp: layout_hyp_def file_tree_def)
  have bk: "butlast k \<noteq> k" using kne by (metis append_butlast_last_id append_self_conv not_Cons_self)
  have same: "fs_get ?fs1 q = fs_get fs q" if "q \<in> F" for q
    using salt_mkdirs_file [OF tree _ butlast_prefix, of k q "env_io env" fs] k(1) bk that by auto
  have dir: "dirlike ?fs1 (butlast k)" using parent_made [OF L io b k(1)] k(2) by simp
  have nd: "fs_get ?fs1 k \<noteq> Some NDir" using same [OF k(1)] b k by (auto simp: base_ok_def)
  have ok: "io_ok (env_io env) IoRestore k" "io_ok (env_io env) IoUnlink k" using io k(1) by (auto simp: restore_io_ok_def)
  have dk: "dirlike (fs_unlink (env_io env) k ?fs1) (butlast k)"
    using dir bk by (simp add: dirlike_def fs_get_unlink)
  have get: "fs_get fs' q = (if q = k then Some (mask_node n0) else fs_get ?fs1 q)" for q
    using k(3,4) dir nd ok dk unfolding fs'_def
    by (cases n0) (auto simp: restore_node_def salt_write_file_def Let_def fs_symlink_def fs_get_unlink)
  show "fs_get fs' k = Some (mask_node n0)" by (simp add: get)
  show "\<And>q. q \<in> F \<Longrightarrow> q \<noteq> k \<Longrightarrow> fs_get fs' q = fs_get fs q" by (simp add: get same)
  have "mask_node n0 \<noteq> NDir" using k(3) by (cases n0) auto
  then show "base_ok fs0 F H fs'"
    using b k(1) same only_new_dirs_dsim [OF salt_mkdirs_only, of "env_io env" "butlast k" fs]
    by (auto simp: base_ok_def get intro: dsim_trans)
qed

lemma restore_tree_ok:
  assumes L: "layout_hyp env fs0 F D H" and io: "restore_io_ok env F" and b: "base_ok fs0 F H fs"
    and B: "distinct (map fst B)" "fst ` set B \<subseteq> F"
      "\<And>k n. (k, n) \<in> set B \<Longrightarrow> \<exists>n0. fs_get fs0 k = Some n0 \<and> n = mask_node n0 \<and> n0 \<noteq> NDir \<and> n0 \<noteq> NOther"
  shows "base_ok fs0 F H (restore_tree env B fs) \<and>
    (\<forall>k n. (k, n) \<in> set B \<longrightarrow> fs_get (restore_tree env B fs) k = Some n) \<and>
    (\<forall>k \<in> F - fst ` set B. fs_get (restore_tree env B fs) k = fs_get fs k)"
  using b B
proof (induction B arbitrary: fs)
  case Nil
  then show ?case by (simp add: restore_tree_def)
next
  case (Cons p B)
  obtain k n where p: "p = (k, n)" by fastforce
  obtain n0 where n0: "fs_get fs0 k = Some n0" "n = mask_node n0" "n0 \<noteq> NDir" "n0 \<noteq> NOther"
    using Cons.prems(4) [of k n] p by auto
  let ?fs = "restore_node env k n fs"
  have kF: "k \<in> F" using Cons.prems(3) p by simp
  note R = restore_node_ok [OF L io Cons.prems(1) kF n0(1,3,4), folded n0(2)]
  have rt: "restore_tree env (p # B) fs = restore_tree env B ?fs" by (simp add: restore_tree_def p)
  have IH: "base_ok fs0 F H (restore_tree env B ?fs) \<and>
    (\<forall>k n. (k, n) \<in> set B \<longrightarrow> fs_get (restore_tree env B ?fs) k = Some n) \<and>
    (\<forall>k \<in> F - fst ` set B. fs_get (restore_tree env B ?fs) k = fs_get ?fs k)"
    by (rule Cons.IH [OF R(1)]) (use Cons.prems(2-4) in auto)
  have "k \<notin> fst ` set B" using Cons.prems(2) p by simp
  then show ?case unfolding rt using IH R(2,3) kF p by auto
qed

lemma unlink_added_fold:
  assumes "\<And>l. l \<in> set ls \<Longrightarrow> salt_path_is_confined l \<Longrightarrow> io_ok (env_io env) IoUnlink (path_key l)"
  shows "fs_get (fold (unlink_added env) ls fs) k =
    (if k \<in> path_key ` {l \<in> set ls. salt_path_is_confined l} \<and> fs_get fs k \<noteq> Some NDir then None else fs_get fs k)"
  using assms
  by (induction ls arbitrary: fs) (auto simp: unlink_added_def fs_get_unlink)

lemma revert_files_restores:
  assumes L: "layout_hyp env fs0 F D H" and io: "restore_io_ok env F" and inv: "winv fs0 F H W i w"
  shows "files_restored fs0 H (w_fs (snd (salt_txn_revert_files env i w)))"
proof -
  let ?s = "state_of w i" let ?B = "ts_backup ?s" and ?A = "added_keys ?s"
  let ?fs1 = "case ts_added ?s of None \<Rightarrow> w_fs w | Some a \<Rightarrow> fold (unlink_added env) (split_on (CHR 0x0A) a) (w_fs w)"
  let ?fs2 = "restore_tree env ?B ?fs1"
  have I: "undo_inv fs0 F H W (w_fs w) ?B ?A" using inv by (simp add: winv_def)
  note U = undo_invD [OF I]
  have fs1: "fs_get ?fs1 k = (if k \<in> ?A \<and> fs_get (w_fs w) k \<noteq> Some NDir then None else fs_get (w_fs w) k)" for k
  proof (cases "ts_added ?s")
    case (Some a)
    have "io_ok (env_io env) IoUnlink (path_key l)" if "l \<in> set (split_on (CHR 0x0A) a)" "salt_path_is_confined l" for l
      using U(3) io that by (auto simp: added_keys_def Some restore_io_ok_def)
    then show ?thesis using unlink_added_fold [of "split_on (CHR 0x0A) a" env "w_fs w" k]
      by (simp add: Some added_keys_def)
  qed (simp add: added_keys_def)
  have nB: "fs_get ?B k = None" if "k \<notin> F" for k using U(2) that by (auto simp: fs_get_None_notin)
  have base: "base_ok fs0 F H ?fs1"
    unfolding base_ok_def
  proof (intro conjI allI ballI impI)
    show "dsim (fs_get ?fs1 k) (fs_get fs0 k)" if "k \<notin> F" "k \<notin> H" for k
      using U(7) [OF that(2) nB [OF that(1)]] U(3) that(1) by (auto simp: fs1)
    show "fs_get fs0 k = Some NDir" if "k \<in> F" "fs_get ?fs1 k = Some NDir" for k
      using U(9) [OF that(1)] that(2) by (auto simp: fs1 split: if_splits)
  qed
  have Bget: "(k, n) \<in> set ?B \<longleftrightarrow> fs_get ?B k = Some n" for k n
    using U(1) by (simp add: fs_get_def map_of_eq_Some_iff)
  have R: "base_ok fs0 F H ?fs2" "\<And>k n. fs_get ?B k = Some n \<Longrightarrow> fs_get ?fs2 k = Some n"
    "\<And>k. k \<in> F \<Longrightarrow> fs_get ?B k = None \<Longrightarrow> fs_get ?fs2 k = fs_get ?fs1 k"
    using restore_tree_ok [OF L io base U(1,2)] U(4) Bget by (auto simp: fs_get_None_notin)
  have "dsim (fs_get ?fs2 k) (fs_get fs0 k) \<or> fs_get ?fs2 k = map_option mask_node (fs_get fs0 k)" if "k \<notin> H" for k
  proof (cases "fs_get ?B k")
    case (Some n)
    then show ?thesis using R(2) U(4) by fastforce
  next
    case None
    have "dsim (fs_get ?fs1 k) (fs_get fs0 k)" if "k \<in> F"
      using U(7) [OF \<open>k \<notin> H\<close> None] U(5) [of k] U(9) [OF that] None fs1 [of k]
      by (cases "k \<in> ?A") auto
    then show ?thesis using R(1) R(3) [OF _ None] \<open>k \<notin> H\<close> by (cases "k \<in> F") (auto simp: base_ok_def)
  qed
  then show ?thesis by (simp add: files_restored_def salt_txn_revert_files_def Let_def)
qed

end
