(* ===== verification/Salt_Native.thy ===== *)
theory Salt_Native
  imports Salt_Boot Salt_Resolve Salt_Archive Salt_Atomic
begin

text \<open>
  The native package commands (\<^verbatim>\<open>src/salt/cmd_install.cpp\<close>): \<^verbatim>\<open>sync\<close>, the transaction that every
  install, update and remove goes through, and the commands that build its plan.  Foreign
  packages belong to the strata subsystem, whose operations are parameters (\<open>strata\<close>).

  The package manager's own files (repository index, signature, package cache, key file) are
  \<open>w_files\<close>, by path; what they hold may be anything.
\<close>

section \<open>Fetching\<close>

text \<open>\<^verbatim>\<open>s.c_str ()\<close> handed to a C function ends at the first NUL: \<^const>\<open>c_str\<close>.\<close>

definition put_file :: "string \<Rightarrow> string \<Rightarrow> world \<Rightarrow> world" where
  "put_file p d w = w\<lparr>w_files := (w_files w)(p \<mapsto> d)\<rparr>"

definition del_file :: "string \<Rightarrow> world \<Rightarrow> world" where
  "del_file p w = w\<lparr>w_files := (w_files w)(p := None)\<rparr>"

definition salt_fetch :: "sys \<Rightarrow> string \<Rightarrow> world \<Rightarrow> string option" where
  "salt_fetch y url w =
     (if starts_with url ''http://'' \<or> starts_with url ''https://'' then sys_http y url
      else w_files w (if starts_with url ''file://'' then drop 7 url else url))"

definition salt_fetch_to_file :: "sys \<Rightarrow> string \<Rightarrow> string \<Rightarrow> world \<Rightarrow> salt_rc \<times> world" where
  "salt_fetch_to_file y url dest w =
     (case salt_fetch y url w of
        None \<Rightarrow> (SALT_ERR_IO, w)
      | Some d \<Rightarrow> if sys_write_ok y dest then (SALT_OK, put_file dest d w) else (SALT_ERR_IO, w))"

definition repo_url :: "sys \<Rightarrow> RepoConf \<Rightarrow> string \<Rightarrow> string" where
  "repo_url y c rel =
     (let s = rc_source c;
          s1 = (if s \<noteq> [] \<and> last s = CHR ''/'' then butlast s else s)
      in s1 @ ''/'' @ arch_detect y @ ''/'' @ rel)"

definition read_key :: "string \<Rightarrow> world \<Rightarrow> string" where
  "read_key k w =
     (if k = [] then []
      else case w_files w k of
             Some s \<Rightarrow> strip_back (\<lambda>c. c = CHR 0x0A \<or> c = CHR 0x0D \<or> c = CHR '' '') s
           | None \<Rightarrow> k)"

definition strip_newlines :: "string \<Rightarrow> string" where
  "strip_newlines s = strip_back (\<lambda>c. c = CHR 0x0A \<or> c = CHR 0x0D) s"

definition salt_verify_file :: "sys \<Rightarrow> string \<Rightarrow> string \<Rightarrow> string \<Rightarrow> world \<Rightarrow> bool" where
  "salt_verify_file y p sig key w =
     (case w_files w p of None \<Rightarrow> False | Some d \<Rightarrow> sys_verify y d (c_str sig) (c_str key))"

definition salt_sha256_file :: "sys \<Rightarrow> string \<Rightarrow> world \<Rightarrow> string option" where
  "salt_sha256_file y p w = map_option (sys_sha256 y) (w_files w p)"

section \<open>Flags\<close>

record TxnFlags =
  tf_allow_unverified :: bool
  tf_download_only :: bool
  tf_locked :: bool
  tf_cascade :: bool
  tf_nodeps :: bool
  tf_dry_run :: bool
  tf_lockfile :: string

definition default_flags :: TxnFlags where
  "default_flags = \<lparr>tf_allow_unverified = False, tf_download_only = False, tf_locked = False,
     tf_cascade = False, tf_nodeps = False, tf_dry_run = False, tf_lockfile = []\<rparr>"

fun parse_txn_flags :: "string list \<Rightarrow> TxnFlags \<Rightarrow> (TxnFlags \<times> string list) option" where
  "parse_txn_flags [] f = Some (f, [])"
| "parse_txn_flags (a # as) f =
     (if a = ''--allow-unverified'' then parse_txn_flags as (f\<lparr>tf_allow_unverified := True\<rparr>)
      else if a = ''--download-only'' then parse_txn_flags as (f\<lparr>tf_download_only := True\<rparr>)
      else if a = ''--locked'' then parse_txn_flags as (f\<lparr>tf_locked := True\<rparr>)
      else if a = ''--lockfile'' \<and> as \<noteq> []
        then parse_txn_flags (tl as) (f\<lparr>tf_locked := True, tf_lockfile := hd as\<rparr>)
      else if a = ''--cascade'' then parse_txn_flags as (f\<lparr>tf_cascade := True\<rparr>)
      else if a = ''--nodeps'' then parse_txn_flags as (f\<lparr>tf_nodeps := True\<rparr>)
      else if a = ''--dry-run'' \<or> a = ''-n'' then parse_txn_flags as (f\<lparr>tf_dry_run := True\<rparr>)
      else if a \<noteq> [] \<and> hd a = CHR ''-'' then None
      else map_option (\<lambda>(g, rest). (g, a # rest)) (parse_txn_flags as f))"

section \<open>salt sync\<close>

definition index_file_ok :: "sys \<Rightarrow> string \<Rightarrow> world \<Rightarrow> bool" where
  "index_file_ok y p w =
     (case w_files w p of
        None \<Rightarrow> False
      | Some d \<Rightarrow> (case salt_repo_index_load (sys_toml y) d of
                    None \<Rightarrow> False | Some idx \<Rightarrow> fst (salt_repo_index_verify idx) = SALT_OK))"

text \<open>
  The checks of \<^verbatim>\<open>cmd_sync\<close> between the downloads and the rename, on the temporary files.
\<close>

definition sync_checks :: "sys \<Rightarrow> RepoConf \<Rightarrow> string \<Rightarrow> string \<Rightarrow> bool \<Rightarrow> world \<Rightarrow> bool" where
  "sync_checks y c tmp tmpsig have_sig w =
     (let key = read_key (rc_key c) w in
      (key \<noteq> [] \<longrightarrow>
         have_sig \<and>
         (case w_files w tmpsig of None \<Rightarrow> False | Some sig \<Rightarrow> salt_verify_file y tmp (strip_newlines sig) key w)) \<and>
      index_file_ok y tmp w)"

definition cmd_sync :: "sys \<Rightarrow> Options \<Rightarrow> world \<Rightarrow> int \<times> world" where
  "cmd_sync y opt w =
     (let c = load_repo_conf y opt;
          idxp = index_path_for y opt;
          sigp = idxp @ ''.sig'';
          tmp = idxp @ ''.new'';
          tmpsig = sigp @ ''.new''
      in if rc_source c = [] then (1, w)
         else let (rc, w1) = salt_fetch_to_file y (repo_url y c ''index.toml'') tmp w in
           if rc \<noteq> SALT_OK then (1, w1)
           else let (src, w2) = salt_fetch_to_file y (repo_url y c ''index.toml.sig'') tmpsig w1;
                    have_sig = (src = SALT_OK)
                in if \<not> sync_checks y c tmp tmpsig have_sig w2
                   then (1, if read_key (rc_key c) w2 \<noteq> [] \<and> \<not> have_sig then del_file tmp w2
                            else del_file tmpsig (del_file tmp w2))
                   else if \<not> sys_rename_ok y idxp then (1, del_file tmpsig (del_file tmp w2))
                   else let w3 = del_file tmp (put_file idxp (the (w_files w2 tmp)) w2)
                        in (0, if have_sig
                               then (if sys_rename_ok y sigp
                                     then del_file tmpsig (put_file sigp (the (w_files w3 tmpsig)) w3) else w3)
                               else del_file sigp w3))"

definition index_signed_ok :: "sys \<Rightarrow> Options \<Rightarrow> RepoConf \<Rightarrow> world \<Rightarrow> bool" where
  "index_signed_ok y opt c w =
     (let key = read_key (rc_key c) w;
          idxp = index_path_for y opt
      in key \<noteq> [] \<and>
         (case w_files w (idxp @ ''.sig'') of
            None \<Rightarrow> False
          | Some sig \<Rightarrow> salt_verify_file y idxp (strip_newlines sig) key w))"

section \<open>The native transaction\<close>

definition entry_src :: "sys \<Rightarrow> RepoConf \<Rightarrow> salt_repo_entry \<Rightarrow> string" where
  "entry_src y c e =
     (case re_url e of
        Some u \<Rightarrow> if u \<noteq> [] then u else repo_url y c (''packages/'' @ re_filename e)
      | None \<Rightarrow> repo_url y c (''packages/'' @ re_filename e))"

definition fetch_and_verify ::
    "sys \<Rightarrow> Options \<Rightarrow> RepoConf \<Rightarrow> TxnFlags \<Rightarrow> salt_repo_entry \<Rightarrow> world \<Rightarrow> salt_rc \<times> (string \<times> string) \<times> world" where
  "fetch_and_verify y opt c f e w =
     (let dest = path_join (cache_dir_for y opt) (re_filename e);
          have_hash = salt_repo_entry_hash_ok e;
          cached = (have_hash \<and> salt_sha256_file y dest w = Some (re_sha256 e));
          src = entry_src y c e
      in if \<not> have_hash \<and> \<not> tf_allow_unverified f then (SALT_ERR_VERIFY, ([], []), w)
         else let (rc, w1) = (if cached then (SALT_OK, w) else salt_fetch_to_file y src dest w) in
           if rc \<noteq> SALT_OK then (SALT_ERR_IO, ([], []), w1)
           else case salt_sha256_file y dest w1 of
                  None \<Rightarrow> (SALT_ERR_IO, ([], []), w1)
                | Some hex \<Rightarrow>
                    if have_hash \<and> hex \<noteq> re_sha256 e then (SALT_ERR_VERIFY, ([], []), del_file dest w1)
                    else (SALT_OK, (dest, hex), w1))"

fun fetch_all :: "sys \<Rightarrow> Options \<Rightarrow> RepoConf \<Rightarrow> TxnFlags \<Rightarrow> salt_repo_entry list \<Rightarrow> world \<Rightarrow>
    salt_rc \<times> (string \<times> string) list \<times> world" where
  "fetch_all y opt c f [] w = (SALT_OK, [], w)"
| "fetch_all y opt c f (e # es) w =
     (let (rc, r, w1) = fetch_and_verify y opt c f e w in
      if rc \<noteq> SALT_OK then (rc, [], w1)
      else let (rc2, rs, w2) = fetch_all y opt c f es w1 in (rc2, r # rs, w2))"

definition install_one ::
    "sys \<Rightarrow> RepoConf \<Rightarrow> bool \<Rightarrow> int \<Rightarrow> salt_repo_entry \<times> string \<times> string \<Rightarrow> world \<Rightarrow> salt_rc \<times> world" where
  "install_one y c signed_ok i it w =
     (let (e, dest, sha) = it; env = sys_env y in
      case (case w_files w dest of None \<Rightarrow> None | Some d \<Rightarrow> salt_archive_open (sys_toml y) d) of
        None \<Rightarrow> (SALT_ERR_FORMAT, w)
      | Some ar \<Rightarrow>
          if pm_arch (ar_meta ar) \<noteq> arch_detect y \<and> pm_arch (ar_meta ar) \<noteq> ''any'' then (SALT_ERR, w)
          else if pm_name (ar_meta ar) \<noteq> re_name e then (SALT_ERR_VERIFY, w)
          else let sig_status = (if \<not> salt_repo_entry_hash_ok e then ''unverified''
                                 else if signed_ok then ''signed'' else ''unsigned'')
               in and_then (salt_install_archive env ar (rc_name c) sig_status i w)
                    (upd_tab (salt_db_set_pkg_artifact (env_sql env) (pm_name (ar_meta ar)) (re_filename e) sha)))"

definition upd_db :: "(salt_db \<Rightarrow> salt_rc \<times> salt_db) \<Rightarrow> world \<Rightarrow> salt_rc \<times> world" where
  "upd_db f w = (let (rc, d) = f (w_db w) in (rc, w\<lparr>w_db := d\<rparr>))"

text \<open>From \<^verbatim>\<open>BEGIN\<close> to \<^verbatim>\<open>COMMIT\<close>.\<close>

definition txn_body ::
    "sys \<Rightarrow> RepoConf \<Rightarrow> bool \<Rightarrow> string list \<Rightarrow> (salt_repo_entry \<times> string \<times> string) list \<Rightarrow> int \<Rightarrow> world \<Rightarrow> salt_rc \<times> world" where
  "txn_body y c signed_ok removes items i w =
     (let env = sys_env y; q = env_sql env in
      and_then (and_then (and_then (and_then
        (upd_db (salt_db_sql_begin q) w)
        (rc_fold (\<lambda>n. salt_remove_pkg env n i) removes))
        (rc_fold (install_one y c signed_ok i) items))
        (upd_tab (salt_db_txn_finish q i ''ok'')))
        (upd_db (salt_db_sql_commit q)))"

text \<open>The failure branch: SQL rollback, files put back, the transaction marked failed.\<close>

definition txn_abort :: "sys \<Rightarrow> int \<Rightarrow> world \<Rightarrow> world" where
  "txn_abort y i w =
     (let env = sys_env y; q = env_sql env;
          w1 = snd (upd_db (salt_db_sql_rollback q) w);
          w2 = snd (salt_txn_revert_files env i w1)
      in snd (upd_tab (salt_db_txn_finish q i ''failed'') w2))"

definition txn_run ::
    "sys \<Rightarrow> Options \<Rightarrow> RepoConf \<Rightarrow> salt_ctx \<Rightarrow> bool \<Rightarrow> string list \<Rightarrow> (salt_repo_entry \<times> string \<times> string) list \<Rightarrow>
     int \<Rightarrow> world \<Rightarrow> int \<times> world" where
  "txn_run y opt c ctx signed_ok removes items i w =
     (let (rc, w1) = txn_body y c signed_ok removes items i w
      in if rc = SALT_OK then (0, snd (deploy_post_txn y opt ctx i w1)) else (1, txn_abort y i w1))"

definition native_transaction ::
    "sys \<Rightarrow> Options \<Rightarrow> RepoConf \<Rightarrow> salt_ctx \<Rightarrow> NativePlan \<Rightarrow> string \<Rightarrow> TxnFlags \<Rightarrow> world \<Rightarrow> int \<times> world" where
  "native_transaction y opt c ctx plan op f w =
     (let env = sys_env y; q = env_sql env in
      if pl_remove plan = [] \<and> pl_install plan = [] then (0, w)
      else if \<not> check_conflicts (w_tab w) plan then (1, w)
      else if \<not> check_dangling (w_tab w) plan then (1, w)
      else if tf_dry_run f then (0, w)
      else if \<not> tf_download_only f \<and> \<not> confirm y opt then (1, w)
      else let signed_ok = index_signed_ok y opt c w;
               (frc, got, w1) = fetch_all y opt c f (pl_install plan) w
           in if frc \<noteq> SALT_OK then (1, w1)
              else if tf_download_only f then (0, w1)
              else case salt_db_txn_new q op (w_tab w1) of
                     (None, t) \<Rightarrow> (1, w1)
                   | (Some i, t) \<Rightarrow>
                       (let (snap, w2) = salt_snapshot_create env ctx i (w1\<lparr>w_db := (w_db w1)\<lparr>db_tab := t\<rparr>\<rparr>)
                        in case snap of
                             None \<Rightarrow> (1, snd (upd_tab (salt_db_txn_finish q i ''failed'') w2))
                           | Some s \<Rightarrow>
                               txn_run y opt c ctx signed_ok (pl_remove plan) (zip (pl_install plan) got) i
                                 (snd (upd_tab (salt_db_txn_set_snapshot q i s) w2))))"

section \<open>Plans\<close>

definition update_wanted :: "salt_repo_index \<Rightarrow> salt_db_pkg \<Rightarrow> bool" where
  "update_wanted idx p =
     (case salt_repo_index_find idx (dp_name p) of
        None \<Rightarrow> False
      | Some e \<Rightarrow> (let vc = salt_vercmp (re_version e) (dp_version p)
                   in vc > 0 \<or> (vc = 0 \<and> re_release e > dp_release p)))"

definition update_targets :: "salt_repo_index \<Rightarrow> tables \<Rightarrow> string list" where
  "update_targets idx t = map dp_name (filter (update_wanted idx) (salt_db_list_installed t))"

text \<open>
  \<open>resolve_targets\<close> is \<^const>\<open>None\<close> only when its fuel runs out, which never happens; the branch stands
  for the failure exit.
\<close>

definition do_install :: "sys \<Rightarrow> Options \<Rightarrow> string list \<Rightarrow> bool \<Rightarrow> TxnFlags \<Rightarrow> bool \<Rightarrow> world \<Rightarrow> int \<times> world" where
  "do_install y opt names is_update f check_only w =
     (let c = load_repo_conf y opt; env = sys_env y in
      case (case w_files w (index_path_for y opt) of
              None \<Rightarrow> None | Some d \<Rightarrow> salt_repo_index_load (sys_toml y) d) of
        None \<Rightarrow> (1, w)
      | Some idx \<Rightarrow>
          if \<not> sql_ok (env_sql env) SqlOpen then (1, w)
          else let targets = (if is_update then update_targets idx (w_tab w) else names) in
               if is_update \<and> (targets = [] \<or> check_only) then (if targets = [] then 0 else 100, w)
               else case resolve_targets idx (w_tab w) targets (tf_nodeps f) of
                      None \<Rightarrow> (1, w)
                    | Some s \<Rightarrow>
                        if rs_problems s \<noteq> [] then (1, w)
                        else native_transaction y opt c (salt_ctx_init env (o_root opt))
                               \<lparr>pl_remove = [], pl_install = rs_order s\<rparr>
                               (if is_update then ''update'' else ''install'') f w)"

definition native_index_has :: "sys \<Rightarrow> Options \<Rightarrow> string \<Rightarrow> world \<Rightarrow> bool" where
  "native_index_has y opt name w =
     (case w_files w (index_path_for y opt) of
        None \<Rightarrow> False
      | Some d \<Rightarrow> (case salt_repo_index_load (sys_toml y) d of
                    None \<Rightarrow> False | Some idx \<Rightarrow> salt_repo_index_find idx name \<noteq> None))"

definition native_remove :: "sys \<Rightarrow> Options \<Rightarrow> string list \<Rightarrow> TxnFlags \<Rightarrow> world \<Rightarrow> int \<times> world" where
  "native_remove y opt args f w =
     (let env = sys_env y; t = w_tab w in
      if \<not> sql_ok (env_sql env) SqlOpen then (1, w)
      else if list_ex (\<lambda>n. \<not> salt_db_is_installed t n) args then (1, w)
      else case remove_order t (remove_set t args (tf_cascade f)) of
             None \<Rightarrow> (1, w)
           | Some ord \<Rightarrow>
               native_transaction y opt (load_repo_conf y opt) (salt_ctx_init env (o_root opt))
                 \<lparr>pl_remove = ord, pl_install = []\<rparr> ''remove'' f w)"

section \<open>The commands\<close>

text \<open>The operations of the strata subsystem that these commands call.\<close>

record strata =
  so_install :: "string \<Rightarrow> string list \<Rightarrow> world \<Rightarrow> int \<times> world"
  so_remove :: "string \<Rightarrow> string list \<Rightarrow> world \<Rightarrow> int \<times> world"
  so_update :: "string \<Rightarrow> world \<Rightarrow> int \<times> world"
  so_choose :: "string \<Rightarrow> world \<Rightarrow> string"

text \<open>\<^verbatim>\<open>int n = f (); if (n) rc = n;\<close>\<close>

definition keep_rc :: "(world \<Rightarrow> int \<times> world) \<Rightarrow> int \<times> world \<Rightarrow> int \<times> world" where
  "keep_rc f s = (let (n, w) = f (snd s) in (if n \<noteq> 0 then n else fst s, w))"

text \<open>A \<^verbatim>\<open>std::map\<close> from stratum to the packages named for it, in the order of the strata.\<close>

fun group_put :: "string \<Rightarrow> string \<Rightarrow> (string \<times> string list) list \<Rightarrow> (string \<times> string list) list" where
  "group_put k v [] = [(k, [v])]"
| "group_put k v ((k', vs) # g) =
     (if k = k' then (k, vs @ [v]) # g
      else if k < k' then (k, [v]) # (k', vs) # g
      else (k', vs) # group_put k v g)"

definition group_foreign :: "string list \<Rightarrow> (string \<times> string list) list" where
  "group_foreign args =
     fold (\<lambda>a. let r = parse_pkgref a in if pr_foreign r then group_put (pr_stratum r) (pr_pkg r) else id) args []"

definition native_args :: "string list \<Rightarrow> string list" where
  "native_args args = filter (\<lambda>a. \<not> pr_foreign (parse_pkgref a)) args"

definition cmd_update :: "strata \<Rightarrow> sys \<Rightarrow> Options \<Rightarrow> string list \<Rightarrow> world \<Rightarrow> int \<times> world" where
  "cmd_update st y opt args w =
     (if args = [''--check''] then do_install y opt [] True default_flags True w
      else case parse_txn_flags args default_flags of
             None \<Rightarrow> (2, w)
           | Some (f, rest) \<Rightarrow>
               if rest \<noteq> [] then
                 fold (\<lambda>a. keep_rc (so_update st (if pr_foreign (parse_pkgref a) then pr_stratum (parse_pkgref a) else a)))
                   rest (0, w)
               else do_install y opt [] True f False w)"

definition cmd_remove :: "strata \<Rightarrow> sys \<Rightarrow> Options \<Rightarrow> string list \<Rightarrow> world \<Rightarrow> int \<times> world" where
  "cmd_remove st y opt args w =
     (case parse_txn_flags args default_flags of
        None \<Rightarrow> (2, w)
      | Some (f, rest) \<Rightarrow>
          if rest = [] then (2, w)
          else let native = native_args rest;
                   s1 = (if native \<noteq> [] then keep_rc (native_remove y opt native f) (0, w) else (0, w))
               in fold (\<lambda>kv. keep_rc (so_remove st (fst kv) (snd kv))) (group_foreign rest) s1)"

end
