(* ===== verification/Salt_Commit.thy ===== *)
theory Salt_Commit
  imports Salt_Native
begin

text \<open>
  What a native transaction leaves behind: after a failure the files and the tables of the packages
  are as they were, after a success the installed packages are exactly what the plan says, and
  every archive it read has the hash the repository index gives.
\<close>

section \<open>Frames\<close>

text \<open>The tables that say what is installed.\<close>

definition same_pkgs :: "tables \<Rightarrow> tables \<Rightarrow> bool" where
  "same_pkgs t t' \<longleftrightarrow> t_packages t' = t_packages t \<and> t_files t' = t_files t \<and> t_deps t' = t_deps t \<and>
     t_conflicts t' = t_conflicts t \<and> t_hooks t' = t_hooks t"

lemma same_pkgs_refl [simp]: "same_pkgs t t"
  by (simp add: same_pkgs_def)

lemma same_pkgs_trans: "same_pkgs a b \<Longrightarrow> same_pkgs b c \<Longrightarrow> same_pkgs a c"
  by (simp add: same_pkgs_def)

lemma same_pkgs_log:
  "same_pkgs t (snd (salt_db_txn_new q op t))" "same_pkgs t (snd (salt_db_txn_finish q i s t))"
  "same_pkgs t (snd (salt_db_txn_set_snapshot q i snap t))"
  by (simp_all add: same_pkgs_def salt_db_txn_new_def salt_db_txn_finish_def salt_db_txn_set_snapshot_def
      update_txn_def Let_def)

text \<open>Downloading touches the package manager's own files only.\<close>

definition root_same :: "world \<Rightarrow> world \<Rightarrow> bool" where
  "root_same w w' \<longleftrightarrow> w_fs w' = w_fs w \<and> w_db w' = w_db w \<and> w_state w' = w_state w"

lemma root_same_refl [simp]: "root_same w w"
  by (simp add: root_same_def)

lemma root_same_file [simp]: "root_same w (put_file p d w)" "root_same w (del_file p w)"
  by (simp_all add: root_same_def put_file_def del_file_def)

lemma root_same_trans: "root_same a b \<Longrightarrow> root_same b c \<Longrightarrow> root_same a c"
  by (simp add: root_same_def)

lemma root_same_fetch: "root_same w (snd (salt_fetch_to_file y u d w))"
  by (simp add: salt_fetch_to_file_def split: option.splits)

lemma root_same_fetch_del: "root_same w (del_file p (snd (salt_fetch_to_file y u d w)))"
  by (rule root_same_trans [OF root_same_fetch root_same_file(2)])

lemma root_same_verify [simp]: "root_same w (snd (snd (fetch_and_verify y opt c f e w)))"
  unfolding fetch_and_verify_def Let_def
  by (simp add: split_beta root_same_fetch root_same_fetch_del split: option.split)

lemma root_same_all: "root_same w (snd (snd (fetch_all y opt c f es w)))"
proof (induction es arbitrary: w)
  case (Cons e es)
  show ?case
    using Cons.IH [of "snd (snd (fetch_and_verify y opt c f e w))"] root_same_verify [of w y opt c f e]
    root_same_trans [OF root_same_verify Cons.IH]
    by (simp add: split_beta Let_def)
qed simp

lemma install_one_frame: "txn_frame i w (snd (install_one y c s i it w))"
proof -
  obtain e dest sha where it: "it = (e, dest, sha)" by (cases it)
  have "txn_frame i v (snd (upd_tab g v))" for v g by (simp add: txn_frame_def upd_tab_def split_beta state_of_def)
  then show ?thesis unfolding install_one_def it
    by (auto simp: Let_def split: option.splits intro!: and_then_frame txn_frame_install)
qed

section \<open>Items of a transaction\<close>

text \<open>Every archive the transaction opens describes files of the layout.\<close>

definition items_in_layout :: "sys \<Rightarrow> key set \<Rightarrow> key set \<Rightarrow> (salt_repo_entry \<times> string \<times> string) list \<Rightarrow>
    (string \<Rightarrow> string option) \<Rightarrow> bool" where
  "items_in_layout y F D items files \<longleftrightarrow>
     (\<forall>it \<in> set items. \<forall>d ar. files (fst (snd it)) = Some d \<longrightarrow> salt_archive_open (sys_toml y) d = Some ar \<longrightarrow>
        archive_in_layout (sys_env y) F D ar)"

lemma artifact_files: "t_files (snd (salt_db_set_pkg_artifact q n f s t)) = t_files t"
  by (simp add: salt_db_set_pkg_artifact_def)

lemma winv_upd_tab [simp]: "winv fs0 F H W i (snd (upd_tab g w)) = winv fs0 F H W i w"
  by (simp add: winv_def upd_tab_def split_beta state_of_def)

definition install_ready :: "fs \<Rightarrow> key set \<Rightarrow> key set \<Rightarrow> key set \<Rightarrow> int \<Rightarrow> string set \<Rightarrow> world \<Rightarrow> bool" where
  "install_ready fs0 F D H i N w \<longleftrightarrow>
     (\<exists>W. winv fs0 F H W i w \<and> rows_in_layout F D (w_tab w) \<and> owners_unique (w_tab w) \<and> written_by W N (w_tab w))"

lemma install_one_inv:
  assumes L: "layout_hyp (sys_env y) fs0 F D H" and r: "install_ready fs0 F D H i N w"
    and it: "items_in_layout y F D [it] (w_files w)" and n: "re_name (fst it) \<notin> N"
    and st: "install_one y c s i it w = (rc, w')"
  shows "\<exists>W. winv fs0 F H W i w'"
    and "rc = SALT_OK \<Longrightarrow> install_ready fs0 F D H i (insert (re_name (fst it)) N) w'"
proof -
  obtain e dest sha where i: "it = (e, dest, sha)" by (cases it)
  obtain W where W: "winv fs0 F H W i w" "rows_in_layout F D (w_tab w)" "owners_unique (w_tab w)" "written_by W N (w_tab w)"
    using r by (auto simp: install_ready_def)
  let ?ar = "case w_files w dest of None \<Rightarrow> None | Some d \<Rightarrow> salt_archive_open (sys_toml y) d"
  have "(\<exists>W. winv fs0 F H W i w') \<and> (rc = SALT_OK \<longrightarrow> install_ready fs0 F D H i (insert (re_name e) N) w')"
  proof (cases "w' = w \<and> rc \<noteq> SALT_OK")
    case False
    then obtain d ar sig where d: "w_files w dest = Some d" "salt_archive_open (sys_toml y) d = Some ar"
        "pm_name (ar_meta ar) = re_name e"
        "and_then (salt_install_archive (sys_env y) ar (rc_name c) sig i w)
          (upd_tab (salt_db_set_pkg_artifact (env_sql (sys_env y)) (re_name e) (re_filename e) sha)) = (rc, w')"
      using st unfolding install_one_def i by (auto simp: Let_def split: option.splits if_splits)
    obtain rc1 w1 where w1: "salt_install_archive (sys_env y) ar (rc_name c) sig i w = (rc1, w1)"
      by (cases "salt_install_archive (sys_env y) ar (rc_name c) sig i w")
    have lay: "archive_in_layout (sys_env y) F D ar" using it d by (auto simp: items_in_layout_def i)
    have nm: "pm_name (ar_meta ar) \<notin> N" using n d(3) by (simp add: i)
    note I = salt_install_archive_inv [OF L W nm lay w1]
    show ?thesis
    proof (cases "rc1 = SALT_OK")
      case True
      let ?u = "upd_tab (salt_db_set_pkg_artifact (env_sql (sys_env y)) (re_name e) (re_filename e) sha)"
      have w': "w' = snd (?u w1)" "rc = fst (?u w1)" using d(4) w1 True by (auto dest: sym)
      have "t_files (w_tab w') = t_files (w_tab w1)"
        using w' artifact_files by (simp add: upd_tab_def split_beta)
      then have "rows_in_layout F D (w_tab w') = rows_in_layout F D (w_tab w1)"
        "owners_unique (w_tab w') = owners_unique (w_tab w1)"
        "written_by X N' (w_tab w') = written_by X N' (w_tab w1)" for X N'
        by (simp_all add: rows_in_layout_def owners_unique_def written_by_def)
      then show ?thesis using I True d(3) w' unfolding install_ready_def by (metis winv_upd_tab)
    next
      case False
      then show ?thesis using I(1) d(4) w1 by auto
    qed
  qed (use W in auto)
  then show "\<exists>W. winv fs0 F H W i w'" "rc = SALT_OK \<Longrightarrow> install_ready fs0 F D H i (insert (re_name (fst it)) N) w'"
    by (auto simp: i)
qed

lemma installs_inv:
  assumes L: "layout_hyp (sys_env y) fs0 F D H"
  shows "install_ready fs0 F D H i N w \<Longrightarrow> items_in_layout y F D items (w_files w) \<Longrightarrow>
    distinct (map (re_name \<circ> fst) items) \<Longrightarrow> N \<inter> (re_name \<circ> fst) ` set items = {} \<Longrightarrow>
    \<exists>W. winv fs0 F H W i (snd (rc_fold (install_one y c s i) items w))"
proof (induction items arbitrary: w N)
  case Nil
  then show ?case by (auto simp: install_ready_def)
next
  case (Cons it items)
  obtain rc w' where st: "install_one y c s i it w = (rc, w')" by (cases "install_one y c s i it w")
  have it: "items_in_layout y F D [it] (w_files w)" "re_name (fst it) \<notin> N"
    using Cons.prems by (auto simp: items_in_layout_def)
  note I = install_one_inv [OF L Cons.prems(1) it st]
  show ?case
  proof (cases "rc = SALT_OK")
    case True
    have "w_files w' = w_files w" using install_one_frame [of i w y c s it] st by (simp add: txn_frame_def)
    then have "items_in_layout y F D items (w_files w')" using Cons.prems(2) by (simp add: items_in_layout_def)
    then show ?thesis using Cons.IH [OF I(2) [OF True]] Cons.prems True st by auto
  next
    case False
    then show ?thesis using I(1) st by simp
  qed
qed

section \<open>Failure\<close>

text \<open>The state in which a transaction body stops: what the undo needs of it.\<close>

definition body_inv :: "fs \<Rightarrow> key set \<Rightarrow> key set \<Rightarrow> int \<Rightarrow> tables \<Rightarrow> world \<Rightarrow> bool" where
  "body_inv fs0 F H i t0 w \<longleftrightarrow> (\<exists>W. winv fs0 F H W i w) \<and>
     (db_saved (w_db w) = Some t0 \<or> db_saved (w_db w) = None \<and> same_pkgs t0 (w_tab w))"

lemma removes_inv:
  assumes L: "layout_hyp env fs0 F D H" and w: "winv fs0 F H {} i w" "rows_in_layout F D (w_tab w)" "owners_unique (w_tab w)"
  shows "install_ready fs0 F D H i {} (snd (rc_fold (\<lambda>n. salt_remove_pkg env n i) ns w))"
proof -
  let ?P = "\<lambda>w. winv fs0 F H {} i w \<and> rows_in_layout F D (w_tab w) \<and> owners_unique (w_tab w)"
  have "?P (snd (rc_fold (\<lambda>n. salt_remove_pkg env n i) ns w))"
    by (rule rc_fold_inv [where P = ?P]) (use w salt_remove_pkg_inv [OF L _ _ _ refl] in auto)
  then show ?thesis by (auto simp: install_ready_def written_by_def)
qed

lemma removes_frame: "txn_frame i w (snd (rc_fold (\<lambda>n. salt_remove_pkg env n i) ns w))"
  by (rule rc_fold_frame) (rule txn_frame_remove)

lemma installs_frame: "txn_frame i w (snd (rc_fold (install_one y c s i) items w))"
  by (rule rc_fold_frame) (rule install_one_frame)

lemma body_inv_tab: "db_saved (w_db w) = Some t0 \<Longrightarrow> body_inv fs0 F H i t0 (snd (upd_tab g w)) = (\<exists>W. winv fs0 F H W i w)"
  by (simp add: body_inv_def) (simp add: upd_tab_def split_beta)

lemma upd_tab_saved [simp]: "db_saved (w_db (snd (upd_tab g w))) = db_saved (w_db w)"
  by (simp add: upd_tab_def split_beta)

lemma winv_db: "winv fs0 F H W i (w\<lparr>w_db := d\<rparr>) = winv fs0 F H W i w"
  by (simp add: winv_def state_of_def)

lemma txn_body_failed:
  assumes L: "layout_hyp (sys_env y) fs0 F D H"
    and w: "winv fs0 F H {} i w" "rows_in_layout F D (w_tab w)" "owners_unique (w_tab w)" "db_saved (w_db w) = None"
    and items: "items_in_layout y F D items (w_files w)" "distinct (map (re_name \<circ> fst) items)"
    and st: "txn_body y c s removes items i w = (rc, w')" "rc \<noteq> SALT_OK"
  shows "body_inv fs0 F H i (w_tab w) w'"
proof -
  let ?q = "env_sql (sys_env y)"
  obtain rc0 w0 where b: "upd_db (salt_db_sql_begin ?q) w = (rc0, w0)" by (cases "upd_db (salt_db_sql_begin ?q) w")
  define w1 where "w1 = rc_fold (\<lambda>n. salt_remove_pkg (sys_env y) n i) removes w0"
  define w2 where "w2 = rc_fold (install_one y c s i) items (snd w1)"
  define w3 where "w3 = upd_tab (salt_db_txn_finish ?q i ''ok'') (snd w2)"
  define w4 where "w4 = upd_db (salt_db_sql_commit ?q) (snd w3)"
  have body: "(rc, w') = (if rc0 \<noteq> SALT_OK then (rc0, w0) else if fst w1 \<noteq> SALT_OK then w1
      else if fst w2 \<noteq> SALT_OK then w2 else if fst w3 \<noteq> SALT_OK then w3 else w4)"
    using st(1) unfolding txn_body_def w1_def w2_def w3_def w4_def Let_def b and_then_def by (auto split: if_splits)
  show ?thesis
  proof (cases "rc0 = SALT_OK")
    case False
    then have "w' = w" using body b
      by (auto simp: upd_db_def salt_db_sql_begin_def split_beta split: if_splits)
    then show ?thesis using w by (auto simp: body_inv_def)
  next
    case True
    then have w0: "w0 = w\<lparr>w_db := (w_db w)\<lparr>db_saved := Some (w_tab w)\<rparr>\<rparr>" using b
      by (auto simp: upd_db_def salt_db_sql_begin_def split_beta split: if_splits)
    have inv0: "winv fs0 F H {} i w0" "rows_in_layout F D (w_tab w0)" "owners_unique (w_tab w0)" "w_files w0 = w_files w"
      using w by (simp_all add: w0 winv_db)
    have r1: "install_ready fs0 F D H i {} (snd w1)" "txn_frame i w0 (snd w1)"
      unfolding w1_def by (rule removes_inv [OF L inv0(1-3)], rule removes_frame)
    then have s1: "db_saved (w_db (snd w1)) = Some (w_tab w)" "w_files (snd w1) = w_files w"
      using w0 by (simp_all add: txn_frame_def)
    have i2: "\<exists>W. winv fs0 F H W i (snd w2)" "txn_frame i (snd w1) (snd w2)"
      unfolding w2_def using installs_inv [OF L r1(1)] items s1(2) installs_frame by auto
    then have s2: "db_saved (w_db (snd w2)) = Some (w_tab w)" using s1 by (simp add: txn_frame_def)
    have i1: "\<exists>W. winv fs0 F H W i (snd w1)" using r1(1) by (auto simp: install_ready_def)
    have i3: "\<exists>W. winv fs0 F H W i (snd w3)" "db_saved (w_db (snd w3)) = Some (w_tab w)"
      using i2 s2 by (simp_all add: w3_def)
    have i4: "w4 = (rc, w') \<Longrightarrow> w' = snd w3"
      using st(2) by (auto simp: w4_def upd_db_def salt_db_sql_commit_def split_beta split: if_splits)
    show ?thesis using body True i1 s1 i2 s2 i3 i4 by (auto simp: body_inv_def split: if_splits dest: sym)
  qed
qed

lemma txn_abort_restores:
  assumes L: "layout_hyp (sys_env y) fs0 F D H" and io: "restore_io_ok (sys_env y) F"
    and rb: "sql_ok (env_sql (sys_env y)) SqlRollback" and b: "body_inv fs0 F H i t0 w"
  shows "files_restored fs0 H (w_fs (txn_abort y i w)) \<and> same_pkgs t0 (w_tab (txn_abort y i w))"
proof -
  let ?w1 = "snd (upd_db (salt_db_sql_rollback (env_sql (sys_env y))) w)"
  let ?w2 = "snd (salt_txn_revert_files (sys_env y) i ?w1)"
  obtain W where W: "winv fs0 F H W i w" using b by (auto simp: body_inv_def)
  then have "winv fs0 F H W i ?w1" by (simp add: upd_db_def split_beta winv_db)
  note f = revert_files_restores [OF L io this]
  have "same_pkgs t0 (w_tab ?w1)"
    using b rb by (auto simp: body_inv_def upd_db_def salt_db_sql_rollback_def)
  moreover have "w_tab ?w2 = w_tab ?w1" by (simp add: salt_txn_revert_files_def Let_def)
  ultimately have "same_pkgs t0 (w_tab (snd (upd_tab (salt_db_txn_finish (env_sql (sys_env y)) i ''failed'') ?w2)))"
    using same_pkgs_log(2) same_pkgs_trans by (auto simp: upd_tab_def split_beta)
  moreover have "w_fs (txn_abort y i w) = w_fs ?w2" by (simp add: txn_abort_def Let_def upd_tab_def split_beta)
  ultimately show ?thesis using f by (simp add: txn_abort_def Let_def)
qed

definition cache_file :: "sys \<Rightarrow> Options \<Rightarrow> salt_repo_entry \<Rightarrow> string" where
  "cache_file y opt e = path_join (cache_dir_for y opt) (re_filename e)"

lemma fetch_and_verify_dest:
  "fetch_and_verify y opt c f e w = (SALT_OK, (dest, sha), w') \<Longrightarrow> dest = cache_file y opt e"
  unfolding fetch_and_verify_def Let_def cache_file_def
  by (simp add: split_beta split: if_splits option.splits)

lemma fetch_all_dest:
  "fetch_all y opt c f es w = (SALT_OK, got, w') \<Longrightarrow> map fst got = map (cache_file y opt) es"
proof (induction es arbitrary: w got)
  case (Cons e es)
  obtain rc d sha w1 where 1: "fetch_and_verify y opt c f e w = (rc, (d, sha), w1)"
    by (cases "fetch_and_verify y opt c f e w") auto
  obtain rc2 rs w2 where 2: "fetch_all y opt c f es w1 = (rc2, rs, w2)"
    by (cases "fetch_all y opt c f es w1") auto
  have "rc = SALT_OK" "rc2 = SALT_OK" "got = (d, sha) # rs" using Cons.prems 1 2 by (auto split: if_splits)
  then show ?case using Cons.IH [of w1 rs] 1 2 Cons.prems fetch_and_verify_dest by auto
qed simp

text \<open>
  What atomicity rests on.  \<open>F\<close> are the files that packages may own, \<open>D\<close> the directories, \<open>H\<close> what
  hooks may touch: no file is an ancestor of another, and hooks stay off the packages' files
  (\<open>layout_hyp\<close>); undoing meets no I/O error and no SQL error; the installed packages and the archives of the
  plan own files of \<open>F\<close> in canonical spelling, no two packages the same one; no SQL transaction
  is open and the new transaction's directory does not exist yet.
\<close>

definition atomic_hyp :: "sys \<Rightarrow> Options \<Rightarrow> RepoConf \<Rightarrow> TxnFlags \<Rightarrow> NativePlan \<Rightarrow> key set \<Rightarrow> key set \<Rightarrow> key set \<Rightarrow> world \<Rightarrow> bool" where
  "atomic_hyp y opt c f plan F D H w \<longleftrightarrow>
     layout_hyp (sys_env y) (w_fs w) F D H \<and> restore_io_ok (sys_env y) F \<and>
     sql_ok (env_sql (sys_env y)) SqlRollback \<and>
     rows_in_layout F D (w_tab w) \<and> owners_unique (w_tab w) \<and>
     db_saved (w_db w) = None \<and> w_state w (t_seq (w_tab w) + 1) = None \<and>
     distinct (map re_name (pl_install plan)) \<and>
     (\<forall>e \<in> set (pl_install plan). \<forall>d ar.
        w_files (snd (snd (fetch_all y opt c f (pl_install plan) w))) (cache_file y opt e) = Some d \<longrightarrow>
        salt_archive_open (sys_toml y) d = Some ar \<longrightarrow> archive_in_layout (sys_env y) F D ar)"

lemma files_restored_refl [simp]: "files_restored fs H fs"
  by (simp add: files_restored_def dsim_def)

lemma same_pkgs_layout:
  "same_pkgs t t' \<Longrightarrow> rows_in_layout F D t' = rows_in_layout F D t \<and> owners_unique t' = owners_unique t"
  by (simp add: same_pkgs_def rows_in_layout_def owners_unique_def)

lemma snapshot_create_frame:
  assumes "salt_snapshot_create env ctx i w = (r, w')"
  shows "w_fs w' = w_fs w" "w_db w' = w_db w" "w_files w' = w_files w"
    "ts_backup (state_of w' i) = ts_backup (state_of w i)" "ts_added (state_of w' i) = ts_added (state_of w i)"
  using assms by (auto simp: salt_snapshot_create_def upd_state_def state_of_def Let_def split: if_splits option.splits)

lemma native_start:
  assumes hyp: "w_state w (t_seq (w_tab w) + 1) = None"
    and n: "salt_db_txn_new q op (w_tab w) = (Some i, t)"
    and s: "salt_snapshot_create env ctx i (w\<lparr>w_db := (w_db w)\<lparr>db_tab := t\<rparr>\<rparr>) = (r, w2)"
    and w3: "w3 = snd (upd_tab (salt_db_txn_set_snapshot q' i snap) w2)"
  shows "winv (w_fs w) F H {} i w3" "same_pkgs (w_tab w) (w_tab w3)" "db_saved (w_db w3) = db_saved (w_db w)"
    "w_files w3 = w_files w" "w_fs w3 = w_fs w" "same_pkgs (w_tab w) (w_tab w2)" "w_fs w2 = w_fs w"
proof -
  have t: "t = snd (salt_db_txn_new q op (w_tab w))" using n by simp
  have i: "i = t_seq (w_tab w) + 1" using n by (auto simp: salt_db_txn_new_def Let_def split: if_splits)
  note fr = snapshot_create_frame [OF s]
  have e: "state_of (w\<lparr>w_db := (w_db w)\<lparr>db_tab := t\<rparr>\<rparr>) i = empty_state" using hyp i by (simp add: state_of_def)
  have st: "state_of w3 i = state_of w2 i" by (simp add: w3 upd_tab_def split_beta state_of_def)
  show "w_fs w3 = w_fs w" using fr by (simp add: w3 upd_tab_def split_beta)
  then show "winv (w_fs w) F H {} i w3"
    using fr e st undo_inv_init by (simp add: winv_def added_wf_def added_keys_def empty_state_def)
  show s2: "same_pkgs (w_tab w) (w_tab w2)" using fr same_pkgs_log(1) [of "w_tab w" q op] t by simp
  show "same_pkgs (w_tab w) (w_tab w3)"
    using same_pkgs_trans [OF s2 same_pkgs_log(3)] by (simp add: w3 upd_tab_def split_beta)
  show "db_saved (w_db w3) = db_saved (w_db w)" "w_files w3 = w_files w" "w_fs w2 = w_fs w"
    using fr by (simp_all add: w3) (simp add: upd_tab_def split_beta)
qed

lemma items_of_plan:
  assumes "fetch_all y opt c f es w = (SALT_OK, got, w1)" "distinct (map re_name es)"
    "\<forall>e \<in> set es. \<forall>d ar. w_files w1 (cache_file y opt e) = Some d \<longrightarrow>
        salt_archive_open (sys_toml y) d = Some ar \<longrightarrow> archive_in_layout (sys_env y) F D ar"
  shows "items_in_layout y F D (zip es got) (w_files w1)" "distinct (map (re_name \<circ> fst) (zip es got))"
proof -
  have g: "map fst got = map (cache_file y opt) es" by (rule fetch_all_dest [OF assms(1)])
  then have len: "length got = length es" by (metis length_map)
  have "fst (snd it) = cache_file y opt (fst it) \<and> fst it \<in> set es" if it: "it \<in> set (zip es got)" for it
  proof -
    obtain k where k: "k < length es" "it = (es ! k, got ! k)" using it len by (auto simp: set_zip)
    then have "map fst got ! k = map (cache_file y opt) es ! k" using g by simp
    then show ?thesis using k len by simp
  qed
  then show "items_in_layout y F D (zip es got) (w_files w1)" using assms(3)
    unfolding items_in_layout_def by metis
  have "map (re_name \<circ> fst) (zip es got) = map re_name es"
    using len by (simp flip: map_map)
  then show "distinct (map (re_name \<circ> fst) (zip es got))" using assms(2) by simp
qed


text \<open>An installed package with one file, removed in a transaction whose commit fails.\<close>

definition ex_row_file :: "string \<Rightarrow> string \<Rightarrow> file_row" where
  "ex_row_file n p = \<lparr>fr_name = n, fr_path = p, fr_mode = 420, fr_size = 1, fr_sha256 = [], fr_type = ''0'', fr_linkname = []\<rparr>"

definition ex_world :: world where
  "ex_world = \<lparr>w_fs = [([''usr''], NDir), ([''usr'', ''app''], NReg ''A'' 420)], w_files = \<lambda>p. None,
     w_db = \<lparr>db_tab = (ex_tables [''app''] [])\<lparr>t_files := [ex_row_file ''app'' ''usr/app'']\<rparr>, db_saved = None\<rparr>,
     w_state = \<lambda>i. None\<rparr>"

definition ex_no_commit :: sys where
  "ex_no_commit = ex_sys\<lparr>sys_env := ex_env\<lparr>env_sql := \<lparr>sql_ok = \<lambda>s. s \<noteq> SqlCommit, sql_now = 0\<rparr>\<rparr>\<rparr>"

definition ex_opts :: Options where
  "ex_opts = default_options\<lparr>o_yes := True\<rparr>"

definition ex_remove :: NativePlan where
  "ex_remove = \<lparr>pl_remove = [''app''], pl_install = []\<rparr>"

definition ex_conf_repo :: RepoConf where
  "ex_conf_repo = \<lparr>rc_name = ''current'', rc_source = [], rc_key = []\<rparr>"

definition ex_ctx :: salt_ctx where
  "ex_ctx = salt_ctx_init ex_env ''/''"

lemma ex_strict_prefix: "strict_prefix p [''usr'', ''app''] \<longleftrightarrow> p = [] \<or> p = [''usr'']"
  by (auto simp: strict_prefix_def prefix_Cons)

lemma ex_atomic_hyp:
  "atomic_hyp ex_no_commit ex_opts ex_conf_repo default_flags ex_remove {[''usr'', ''app'']} {[''usr'']} {} ex_world"
proof -
  have "rows_in_layout {[''usr'', ''app'']} {[''usr'']} (w_tab ex_world)" "owners_unique (w_tab ex_world)"
    by code_simp+
  then show ?thesis
    by (simp add: atomic_hyp_def layout_hyp_def file_tree_def restore_io_ok_def ex_no_commit_def ex_sys_def ex_env_def
        ex_world_def ex_remove_def fs_get_def dirlike_def ex_strict_prefix)
qed

lemma ex_remove_fails:
  "fst (native_transaction ex_no_commit ex_opts ex_conf_repo ex_ctx ex_remove ''remove'' default_flags ex_world) = 1"
  by code_simp


section \<open>Success\<close>

subsection \<open>What was downloaded\<close>

lemma fetch_to_file_other: "p \<noteq> dest \<Longrightarrow> w_files (snd (salt_fetch_to_file y u dest w)) p = w_files w p"
  by (simp add: salt_fetch_to_file_def put_file_def split: option.splits)

lemma fetch_and_verify_other:
  "p \<noteq> cache_file y opt e \<Longrightarrow> w_files (snd (snd (fetch_and_verify y opt c f e w))) p = w_files w p"
  unfolding fetch_and_verify_def Let_def cache_file_def
  by (simp add: split_beta fetch_to_file_other del_file_def split: option.split)

lemma fetch_and_verify_ok:
  assumes "fetch_and_verify y opt c f e w = (SALT_OK, (dest, sha), w')"
  shows "\<exists>d. w_files w' (cache_file y opt e) = Some d \<and> sys_sha256 y d = sha \<and>
    (salt_repo_entry_hash_ok e \<longrightarrow> sha = re_sha256 e) \<and> (salt_repo_entry_hash_ok e \<or> tf_allow_unverified f)"
  using assms unfolding fetch_and_verify_def Let_def cache_file_def
  by (auto simp: split_beta salt_sha256_file_def split: if_splits option.splits)

lemma fetch_all_other:
  "p \<notin> cache_file y opt ` set es \<Longrightarrow> w_files (snd (snd (fetch_all y opt c f es w))) p = w_files w p"
proof (induction es arbitrary: w)
  case (Cons e es)
  then show ?case
    using Cons.IH [of "snd (snd (fetch_and_verify y opt c f e w))"] fetch_and_verify_other [of p y opt e c f w]
    by (simp add: split_beta Let_def)
qed simp

definition fetched_ok :: "sys \<Rightarrow> Options \<Rightarrow> TxnFlags \<Rightarrow> (string \<Rightarrow> string option) \<Rightarrow> salt_repo_entry \<times> string \<times> string \<Rightarrow> bool" where
  "fetched_ok y opt f files it \<longleftrightarrow>
     (let (e, dest, sha) = it in dest = cache_file y opt e \<and>
      (\<exists>d. files dest = Some d \<and> sys_sha256 y d = sha \<and>
        (salt_repo_entry_hash_ok e \<longrightarrow> sha = re_sha256 e) \<and> (salt_repo_entry_hash_ok e \<or> tf_allow_unverified f)))"

lemma fetch_all_ok:
  "fetch_all y opt c f es w = (SALT_OK, got, w') \<Longrightarrow> distinct (map (cache_file y opt) es) \<Longrightarrow>
   it \<in> set (zip es got) \<Longrightarrow> fetched_ok y opt f (w_files w') it"
proof (induction es arbitrary: w got)
  case (Cons e es)
  obtain rc d sha w1 where 1: "fetch_and_verify y opt c f e w = (rc, (d, sha), w1)"
    by (cases "fetch_and_verify y opt c f e w") auto
  obtain rc2 rs w2 where 2: "fetch_all y opt c f es w1 = (rc2, rs, w2)"
    by (cases "fetch_all y opt c f es w1") auto
  have g: "rc = SALT_OK" "rc2 = SALT_OK" "got = (d, sha) # rs" "w' = w2"
    using Cons.prems(1) 1 2 by (auto split: if_splits)
  have "w_files w2 (cache_file y opt e) = w_files w1 (cache_file y opt e)"
    using fetch_all_other [of "cache_file y opt e" y opt es c f w1] Cons.prems(2) 2 by simp
  then have "fetched_ok y opt f (w_files w2) (e, d, sha)"
    using fetch_and_verify_ok [of y opt c f e w d sha w1] fetch_and_verify_dest [of y opt c f e w d sha w1] 1 g
    by (simp add: fetched_ok_def)
  then show ?case using Cons.IH [of w1 rs] Cons.prems 2 g by auto
qed simp

subsection \<open>What was installed\<close>

definition item_archive :: "sys \<Rightarrow> (string \<Rightarrow> string option) \<Rightarrow> salt_repo_entry \<times> string \<times> string \<Rightarrow> salt_archive option" where
  "item_archive y files it =
     (case files (fst (snd it)) of None \<Rightarrow> None | Some d \<Rightarrow> salt_archive_open (sys_toml y) d)"

definition item_sig :: "bool \<Rightarrow> salt_repo_entry \<Rightarrow> string" where
  "item_sig signed_ok e =
     (if \<not> salt_repo_entry_hash_ok e then ''unverified'' else if signed_ok then ''signed'' else ''unsigned'')"

definition item_pkg :: "sys \<Rightarrow> RepoConf \<Rightarrow> bool \<Rightarrow> int \<Rightarrow> (string \<Rightarrow> string option) \<Rightarrow>
    salt_repo_entry \<times> string \<times> string \<Rightarrow> pkg_abs" where
  "item_pkg y c s i files it =
     (let (e, dest, sha) = it;
          ar = the (item_archive y files it);
          a = abs_pkg (env_sql (sys_env y)) (ar_meta ar) (ar_manifest ar) (rc_name c) (item_sig s e) i
      in a\<lparr>pa_row := (pa_row a)\<lparr>dp_filename := re_filename e, dp_sha256 := sha\<rparr>\<rparr>)"

lemma upd_tab_OK: "upd_tab g w = (SALT_OK, w') \<Longrightarrow> \<exists>t. g (w_tab w) = (SALT_OK, t) \<and> w_tab w' = t"
  by (auto simp: upd_tab_def split: prod.splits)

text \<open>The file operations leave the database alone.\<close>

lemma db_and_then:
  "w_db (snd r) = w_db w \<Longrightarrow> (\<And>s. w_db (snd (f s)) = w_db s) \<Longrightarrow> w_db (snd (and_then r f)) = w_db w"
  by (rule and_then_inv [where P = "\<lambda>s. w_db s = w_db w"]) auto

lemma db_rc_fold: "(\<And>x s. w_db (snd (f x s)) = w_db s) \<Longrightarrow> w_db (snd (rc_fold f xs w)) = w_db w"
  by (rule rc_fold_inv [where P = "\<lambda>s. w_db s = w_db w"]) auto

lemma db_file_ops [simp]:
  "w_db (snd (run_hook env a b o1 k d w)) = w_db w"
  "w_db (snd (opt_hook env a b k o2 w)) = w_db w"
  "w_db (snd (backup_in env i p w)) = w_db w"
  "w_db (snd (append_added env i s w)) = w_db w"
  "w_db (snd (upd_fs g w)) = w_db w"
  "w_db (snd (install_hook env ar u ov w)) = w_db w"
  by (simp_all add: run_hook_def opt_hook_def backup_in_def append_added_def upd_fs_def install_hook_def
      upd_state_def Let_def split_beta split: option.split)

lemma db_entries [simp]: "w_db (snd (remove_entry env i e w)) = w_db w" "w_db (snd (drop_obsolete env i m e w)) = w_db w"
  by (simp_all add: remove_entry_def drop_obsolete_def db_and_then)

lemma db_scan_entry: "w_db (snd (snd (scan_entry env i n e s))) = w_db (snd s)"
  by (cases s) (simp add: scan_entry_def Let_def split_beta)

lemma db_scan [simp]: "w_db (snd (scan_manifest env i ar w)) = w_db w"
proof -
  let ?r = "rc_fold (scan_entry env i (pm_name (ar_meta ar))) (ar_manifest ar) ([], w)"
  have "w_db (snd (snd ?r)) = w_db w"
    by (rule rc_fold_inv [where P = "\<lambda>s. w_db (snd s) = w_db w"]) (auto simp: db_scan_entry)
  then show ?thesis by (cases ?r) (auto simp: scan_manifest_def intro!: db_and_then)
qed

lemma remove_pkg_tab:
  assumes "salt_remove_pkg env n i w = (SALT_OK, w')"
  shows "salt_db_record_remove (env_sql env) n (w_tab w) = (SALT_OK, w_tab w')"
proof -
  obtain a b where a: "w_db a = w_db w" "upd_tab (salt_db_record_remove (env_sql env) n) a = (SALT_OK, b)" "w_db w' = w_db b"
  proof -
    let ?v = "map_option dp_version (salt_db_get_pkg (w_tab w) n)"
    let ?a = "and_then (opt_hook env n ?v SALT_HOOK_PRE_REMOVE (salt_db_pkg_hook (w_tab w) n SALT_HOOK_PRE_REMOVE) w)
      (rc_fold (remove_entry env i) (salt_db_pkg_manifest (w_tab w) n))"
    have "w_db (snd ?a) = w_db w" by (intro db_and_then db_rc_fold) simp_all
    then show ?thesis using assms that
      by (fastforce simp: salt_remove_pkg_def Let_def and_then_OK split: if_splits)
  qed
  then show ?thesis using upd_tab_OK [OF a(2)] by auto
qed

lemma install_archive_tab:
  assumes "salt_install_archive env ar repo sig i w = (SALT_OK, w')"
  shows "salt_db_record_install (env_sql env) (ar_meta ar) (ar_manifest ar) repo sig i (w_tab w) = (SALT_OK, w_tab w')"
proof -
  obtain a where a: "w_db a = w_db w"
      "upd_tab (salt_db_record_install (env_sql env) (ar_meta ar) (ar_manifest ar) repo sig i) a = (SALT_OK, w')"
  proof -
    define A where "A u old ov = and_then (and_then (and_then (scan_manifest env i ar w)
       (upd_fs (salt_archive_extract_payload (env_zst env) (env_io env) ar)))
       (rc_fold (drop_obsolete env i (ar_manifest ar)) old)) (install_hook env ar u ov)" for u old ov
    have "w_db (snd (A u old ov)) = w_db w" for u old ov unfolding A_def by (intro db_and_then db_rc_fold) simp_all
    moreover have "\<exists>u old ov. and_then (A u old ov)
       (upd_tab (salt_db_record_install (env_sql env) (ar_meta ar) (ar_manifest ar) repo sig i)) = (SALT_OK, w')"
      using assms unfolding salt_install_archive_def A_def Let_def by (auto split: if_splits)
    ultimately show ?thesis using that by (metis and_then_OK snd_conv)
  qed
  then show ?thesis using upd_tab_OK [OF a(2)] by auto
qed

text \<open>The world is a package store too: its operations are those of the transaction.\<close>

definition store_wf :: "sys \<Rightarrow> (string \<Rightarrow> string option) \<Rightarrow> world \<Rightarrow> bool" where
  "store_wf y files w \<longleftrightarrow> db_wf (w_tab w) \<and> (\<forall>n. deletes_ok (env_sql (sys_env y)) n) \<and> w_files w = files"

lemma remove_step:
  assumes "store_wf y files w" "salt_remove_pkg (sys_env y) n i w = (SALT_OK, w')"
  shows "store_wf y files w' \<and> pkg_view (w_tab w') = (pkg_view (w_tab w))(n := None)"
  using tab.rem_ok [of "w_tab w" "env_sql (sys_env y)" n "w_tab w'"] remove_pkg_tab [OF assms(2)] assms(1)
    txn_frame_remove [of i w "sys_env y" n] assms(2)
  by (auto simp: store_wf_def txn_frame_def)

lemma install_step:
  assumes wf: "store_wf y files w" and st: "install_one y c s i it w = (SALT_OK, w')"
  shows "store_wf y files w' \<and> pkg_view (w_tab w') = (pkg_view (w_tab w))(re_name (fst it) \<mapsto> item_pkg y c s i files it)"
proof -
  let ?q = "env_sql (sys_env y)"
  obtain e dest sha where it: "it = (e, dest, sha)" by (cases it)
  obtain ar w1 where ar: "item_archive y files it = Some ar" "pm_name (ar_meta ar) = re_name e"
    and w1: "salt_install_archive (sys_env y) ar (rc_name c) (item_sig s e) i w = (SALT_OK, w1)"
      "upd_tab (salt_db_set_pkg_artifact ?q (re_name e) (re_filename e) sha) w1 = (SALT_OK, w')"
    using st wf unfolding install_one_def it store_wf_def
    by (auto simp: Let_def and_then_OK item_archive_def item_sig_def split: option.splits if_splits)
  note r = install_archive_tab [OF w1(1)]
  have del: "deletes_ok ?q n" for n using wf by (simp add: store_wf_def)
  have v1: "pkg_view (w_tab w1) = (pkg_view (w_tab w))(re_name e \<mapsto>
      abs_pkg ?q (ar_meta ar) (ar_manifest ar) (rc_name c) (item_sig s e) i)" "db_wf (w_tab w1)"
    using record_install_view [OF r del] record_install_wf [OF r del] wf ar(2) by (auto simp: store_wf_def)
  obtain t where t: "salt_db_set_pkg_artifact ?q (re_name e) (re_filename e) sha (w_tab w1) = (SALT_OK, t)" "w_tab w' = t"
    using upd_tab_OK [OF w1(2)] by auto
  have f: "w_files w' = files" using install_one_frame [of i w y c s it] st wf by (simp add: txn_frame_def store_wf_def)
  show ?thesis using set_pkg_artifact_view [OF t(1)] v1 t(2) f del
    by (simp add: store_wf_def it item_pkg_def ar(1)[unfolded it] Let_def)
qed

interpretation wst: pkg_store "store_wf y files" "\<lambda>w. pkg_view (w_tab w)" "install_one y c s i"
    "\<lambda>n. salt_remove_pkg (sys_env y) n i" "\<lambda>it. re_name (fst it)" "item_pkg y c s i files" for y files c s i
  by (rule pkg_store.intro) (rule install_step remove_step; assumption)+

subsection \<open>After the commit\<close>

lemma pkg_view_same: "same_pkgs t t' \<Longrightarrow> pkg_view t' = pkg_view t"
  by (simp add: same_pkgs_def pkg_view_def salt_db_get_pkg_def fun_eq_iff)

lemma record_with_before_same: "same_pkgs t (snd (record_with_before q i b fs t))"
  by (simp add: record_with_before_def record_changes_def put_meta_def same_pkgs_def Let_def split: option.split)

lemma prune_one_same: "same_pkgs t (w_tab (snd s)) \<Longrightarrow> same_pkgs t (w_tab (snd (prune_one env ctx d s)))"
  by (cases s) (simp add: prune_one_def Let_def upd_tab_def upd_state_def update_txn_def same_pkgs_def split_beta)

lemma prune_same: "same_pkgs (w_tab w) (w_tab (snd (snd (salt_deploy_prune env ctx keep w))))"
proof -
  have "same_pkgs t (w_tab (snd (fold (prune_one env ctx) ds s)))" if "same_pkgs t (w_tab (snd s))" for t ds s
    using that by (induction ds arbitrary: s) (simp_all add: prune_one_same)
  then show ?thesis by (simp add: salt_deploy_prune_def)
qed

lemma boot_files_db [simp]:
  "w_db (retain_running_kernel y opt ctx i w) = w_db w" "w_db (drop_stale_kernels y opt c w) = w_db w"
  "w_db (snd (boot_update_root y opt a b w)) = w_db w"
  by (simp_all add: retain_running_kernel_def drop_stale_kernels_def boot_update_root_def Let_def split_beta split: option.split)

lemma deploy_post_txn_same: "same_pkgs (w_tab w) (w_tab (snd (deploy_post_txn y opt ctx i w)))"
proof -
  let ?w1 = "snd (salt_deploy_record (sys_env y) i w)"
  have 1: "same_pkgs (w_tab w) (w_tab ?w1)"
    using record_with_before_same by (simp add: salt_deploy_record_def upd_tab_def split_beta)
  have "same_pkgs (w_tab w) (w_tab v) \<Longrightarrow> same_pkgs (w_tab w) (w_tab (snd (snd (salt_deploy_prune (sys_env y) ctx k v))))" for v k
    using same_pkgs_trans prune_same by blast
  then show ?thesis using 1 by (simp add: deploy_post_txn_def Let_def split_beta)
qed

lemma txn_body_ok:
  assumes wf: "db_wf (w_tab w)" "\<forall>n. deletes_ok (env_sql (sys_env y)) n"
    and st: "txn_body y c s removes items i w = (SALT_OK, w')" and d: "distinct (map (re_name \<circ> fst) items)"
  shows "db_wf (w_tab w')" "w_files w' = w_files w" "db_saved (w_db w') = None"
    and "it \<in> set items \<Longrightarrow> pkg_view (w_tab w') (re_name (fst it)) = Some (item_pkg y c s i (w_files w) it)"
    and "n \<notin> (re_name \<circ> fst) ` set items \<Longrightarrow>
      pkg_view (w_tab w') n = (if n \<in> set removes then None else pkg_view (w_tab w) n)"
proof -
  let ?q = "env_sql (sys_env y)"
  obtain w0 w2 w3 where b: "upd_db (salt_db_sql_begin ?q) w = (SALT_OK, w0)"
    and r: "and_then (rc_fold (\<lambda>n. salt_remove_pkg (sys_env y) n i) removes w0) (rc_fold (install_one y c s i) items) = (SALT_OK, w2)"
    and fin: "upd_tab (salt_db_txn_finish ?q i ''ok'') w2 = (SALT_OK, w3)"
    and com: "upd_db (salt_db_sql_commit ?q) w3 = (SALT_OK, w')"
    using st unfolding txn_body_def Let_def by (auto simp: and_then_OK)
  have w0: "w_tab w0 = w_tab w" "w_files w0 = w_files w"
    using b by (auto simp: upd_db_def salt_db_sql_begin_def split: if_splits)
  have wf0: "store_wf y (w_files w) w0" using wf w0 by (simp add: store_wf_def)
  have d': "distinct (map (\<lambda>it. re_name (fst it)) items)" using d by (simp add: comp_def)
  note P = wst.plan_effect [OF wf0 r d']
  have w3: "w_tab w3 = snd (salt_db_txn_finish ?q i ''ok'' (w_tab w2))" "w_files w3 = w_files w2"
    using fin by (auto simp: upd_tab_def split: prod.splits)
  have w': "w_tab w' = w_tab w3" "w_files w' = w_files w3" "db_saved (w_db w') = None"
    using com by (auto simp: upd_db_def salt_db_sql_commit_def split: if_splits)
  have same: "same_pkgs (w_tab w2) (w_tab w')" using w'(1) w3(1) same_pkgs_log(2) by simp
  show "db_saved (w_db w') = None" by (rule w'(3))
  show "w_files w' = w_files w" using w'(2) w3(2) P(1) by (simp add: store_wf_def)
  show "db_wf (w_tab w')" using P(1) same
    by (auto simp: store_wf_def db_wf_def same_pkgs_def salt_db_is_installed_def salt_db_get_pkg_def)
  show "it \<in> set items \<Longrightarrow> pkg_view (w_tab w') (re_name (fst it)) = Some (item_pkg y c s i (w_files w) it)"
    using P(2) pkg_view_same [OF same] by simp
  show "n \<notin> (re_name \<circ> fst) ` set items \<Longrightarrow>
      pkg_view (w_tab w') n = (if n \<in> set removes then None else pkg_view (w_tab w) n)"
    using P(3) pkg_view_same [OF same] w0 by (simp add: comp_def)
qed

text \<open>A transaction that returns 0 and was not asked to stop early has run its body to the end.\<close>

definition real_run :: "NativePlan \<Rightarrow> TxnFlags \<Rightarrow> bool" where
  "real_run plan f \<longleftrightarrow> (pl_remove plan \<noteq> [] \<or> pl_install plan \<noteq> []) \<and> \<not> tf_dry_run f \<and> \<not> tf_download_only f"

lemma native_success:
  assumes st: "native_transaction y opt c ctx plan op f w = (0, w')" and r: "real_run plan f"
  obtains got w1 i w3 bw where "fetch_all y opt c f (pl_install plan) w = (SALT_OK, got, w1)"
    "txn_body y c (index_signed_ok y opt c w) (pl_remove plan) (zip (pl_install plan) got) i w3 = (SALT_OK, bw)"
    "same_pkgs (w_tab w) (w_tab w3)" "w_files w3 = w_files w1" "same_pkgs (w_tab bw) (w_tab w')"
proof -
  let ?q = "env_sql (sys_env y)"
  obtain frc got w1 where fa: "fetch_all y opt c f (pl_install plan) w = (frc, got, w1)"
    by (cases "fetch_all y opt c f (pl_install plan) w") auto
  have same: "w_db w1 = w_db w"
    using root_same_all [of w y opt c f "pl_install plan"] fa by (auto simp: root_same_def)
  have ok: "frc = SALT_OK" using st r fa unfolding native_transaction_def real_run_def Let_def by (auto split: if_splits)
  obtain i t where n: "salt_db_txn_new ?q op (w_tab w1) = (Some i, t)"
    using st r fa ok unfolding native_transaction_def real_run_def Let_def
    by (auto split: if_splits prod.splits option.splits)
  obtain snap w2 where s: "salt_snapshot_create (sys_env y) ctx i (w1\<lparr>w_db := (w_db w1)\<lparr>db_tab := t\<rparr>\<rparr>) = (snap, w2)"
    by (cases "salt_snapshot_create (sys_env y) ctx i (w1\<lparr>w_db := (w_db w1)\<lparr>db_tab := t\<rparr>\<rparr>)")
  obtain sn where sn: "snap = Some sn"
    using st r fa ok n s unfolding native_transaction_def real_run_def Let_def by (auto split: if_splits option.splits)
  let ?w3 = "snd (upd_tab (salt_db_txn_set_snapshot ?q i sn) w2)"
  let ?so = "index_signed_ok y opt c w" and ?items = "zip (pl_install plan) got"
  have run: "txn_run y opt c ctx ?so (pl_remove plan) ?items i ?w3 = (0, w')"
    using st r fa ok n s sn unfolding native_transaction_def real_run_def Let_def by (auto split: if_splits)
  obtain brc bw where b: "txn_body y c ?so (pl_remove plan) ?items i ?w3 = (brc, bw)"
    by (cases "txn_body y c ?so (pl_remove plan) ?items i ?w3")
  have br: "brc = SALT_OK" "w' = snd (deploy_post_txn y opt ctx i bw)"
    using run b by (auto simp: txn_run_def split: if_splits)
  have w2: "w_tab w2 = t" "w_files w2 = w_files w1" using snapshot_create_frame [OF s] by simp_all
  have "same_pkgs (w_tab w) t" using same_pkgs_log(1) [of "w_tab w" ?q op] n same by simp
  then have 3: "same_pkgs (w_tab w) (w_tab ?w3)" "w_files ?w3 = w_files w1"
    using same_pkgs_trans [OF _ same_pkgs_log(3)] w2 by (simp_all add: upd_tab_def split_beta)
  show thesis
    using that [OF fa [unfolded ok] b [unfolded br] 3] deploy_post_txn_same br(2) by simp
qed

lemma same_pkgs_wf: "same_pkgs t t' \<Longrightarrow> db_wf t' = db_wf t"
  by (simp add: same_pkgs_def db_wf_def salt_db_is_installed_def salt_db_get_pkg_def)

lemma native_commit_view:
  assumes "db_wf (w_tab w)" "\<forall>n. deletes_ok (env_sql (sys_env y)) n" "distinct (map re_name (pl_install plan))"
    and "native_transaction y opt c ctx plan op f w = (0, w')" "real_run plan f"
  shows "\<exists>got w1 i. fetch_all y opt c f (pl_install plan) w = (SALT_OK, got, w1) \<and> db_wf (w_tab w') \<and>
    (\<forall>it \<in> set (zip (pl_install plan) got). pkg_view (w_tab w') (re_name (fst it)) =
        Some (item_pkg y c (index_signed_ok y opt c w) i (w_files w1) it)) \<and>
    (\<forall>n. n \<notin> re_name ` set (pl_install plan) \<longrightarrow>
        pkg_view (w_tab w') n = (if n \<in> set (pl_remove plan) then None else pkg_view (w_tab w) n))"
proof -
  obtain got w1 i w3 bw where s: "fetch_all y opt c f (pl_install plan) w = (SALT_OK, got, w1)"
    "txn_body y c (index_signed_ok y opt c w) (pl_remove plan) (zip (pl_install plan) got) i w3 = (SALT_OK, bw)"
    "same_pkgs (w_tab w) (w_tab w3)" "w_files w3 = w_files w1" "same_pkgs (w_tab bw) (w_tab w')"
    by (rule native_success [OF assms(4,5)])
  have len: "length got = length (pl_install plan)" using fetch_all_dest [OF s(1)] by (metis length_map)
  then have nm: "map (re_name \<circ> fst) (zip (pl_install plan) got) = map re_name (pl_install plan)"
    by (simp flip: map_map)
  have wf3: "db_wf (w_tab w3)" using assms(1) same_pkgs_wf [OF s(3)] by simp
  have d: "distinct (map (re_name \<circ> fst) (zip (pl_install plan) got))" using assms(3) nm by simp
  note B = txn_body_ok [OF wf3 assms(2) s(2) d]
  have img: "(re_name \<circ> fst) ` set (zip (pl_install plan) got) = re_name ` set (pl_install plan)"
    using arg_cong [OF nm, of set] by simp
  show ?thesis
    using s(1,4) B pkg_view_same [OF s(5)] pkg_view_same [OF s(3)] same_pkgs_wf [OF s(5)] img
    by (intro exI [of _ got] exI [of _ w1] exI [of _ i]) (auto split: if_splits)
qed

text \<open>
  C2. A native transaction that returns success has done exactly its plan: every package of the plan is
  recorded with the rows of the archive that was downloaded for it (its manifest, dependencies,
  conflicts and hooks), every package it removes and does not install is gone, every other
  package is untouched, and the tables are well formed again.
\<close>

theorem native_transaction_commits:
  assumes "db_wf (w_tab w)" "\<forall>n. deletes_ok (env_sql (sys_env y)) n" "distinct (map re_name (pl_install plan))"
    and "native_transaction y opt c ctx plan op f w = (0, w')" "real_run plan f"
  shows "\<exists>got w1 i. fetch_all y opt c f (pl_install plan) w = (SALT_OK, got, w1) \<and> db_wf (w_tab w') \<and>
    (\<forall>it \<in> set (zip (pl_install plan) got). pkg_view (w_tab w') (re_name (fst it)) =
        Some (item_pkg y c (index_signed_ok y opt c w) i (w_files w1) it)) \<and>
    (\<forall>n. n \<notin> re_name ` set (pl_install plan) \<longrightarrow>
        pkg_view (w_tab w') n = (if n \<in> set (pl_remove plan) then None else pkg_view (w_tab w) n))"
  using assms by (rule native_commit_view)

lemma installs_open:
  "store_wf y files w \<Longrightarrow> rc_fold (install_one y c s i) items w = (SALT_OK, w') \<Longrightarrow> it \<in> set items \<Longrightarrow>
   \<exists>ar. item_archive y files it = Some ar \<and> pm_name (ar_meta ar) = re_name (fst it)"
proof (induction items arbitrary: w)
  case (Cons x xs)
  then obtain v where v: "install_one y c s i x w = (SALT_OK, v)" "rc_fold (install_one y c s i) xs v = (SALT_OK, w')"
    by (auto simp: and_then_OK)
  obtain e dest sha where x: "x = (e, dest, sha)" by (cases x)
  have "\<exists>ar. item_archive y files x = Some ar \<and> pm_name (ar_meta ar) = re_name (fst x)"
    using v(1) Cons.prems(1) unfolding install_one_def x store_wf_def
    by (auto simp: Let_def item_archive_def split: option.splits if_splits)
  then show ?case using Cons.IH [OF _ v(2)] install_step [OF Cons.prems(1) v(1)] Cons.prems(3) by auto
qed simp

lemma txn_body_open:
  assumes wf: "db_wf (w_tab w)" "\<forall>n. deletes_ok (env_sql (sys_env y)) n"
    and st: "txn_body y c s removes items i w = (SALT_OK, w')" and it: "it \<in> set items"
  shows "\<exists>ar. item_archive y (w_files w) it = Some ar \<and> pm_name (ar_meta ar) = re_name (fst it)"
proof -
  let ?q = "env_sql (sys_env y)"
  obtain w0 w1 w2 where b: "upd_db (salt_db_sql_begin ?q) w = (SALT_OK, w0)"
    and r: "rc_fold (\<lambda>n. salt_remove_pkg (sys_env y) n i) removes w0 = (SALT_OK, w1)"
      "rc_fold (install_one y c s i) items w1 = (SALT_OK, w2)"
    using st unfolding txn_body_def Let_def by (auto simp: and_then_OK)
  have "w_tab w0 = w_tab w" "w_files w0 = w_files w"
    using b by (auto simp: upd_db_def salt_db_sql_begin_def split: if_splits)
  then have "store_wf y (w_files w) w0" using wf by (simp add: store_wf_def)
  then have "store_wf y (w_files w) w1" using wst.removals [OF _ r(1)] by blast
  from installs_open [OF this r(2) it] show ?thesis .
qed

lemma native_installs_verified:
  assumes "db_wf (w_tab w)" "\<forall>n. deletes_ok (env_sql (sys_env y)) n" "distinct (map re_name (pl_install plan))"
    "distinct (map (cache_file y opt) (pl_install plan))"
    and "native_transaction y opt c ctx plan op f w = (0, w')" "real_run plan f" "\<not> tf_allow_unverified f"
    and "e \<in> set (pl_install plan)"
  shows "\<exists>d ar a. sys_sha256 y d = re_sha256 e \<and> salt_archive_open (sys_toml y) d = Some ar \<and>
    pm_name (ar_meta ar) = re_name e \<and> pkg_view (w_tab w') (re_name e) = Some a \<and>
    pa_files a = map (file_row_of (re_name e)) (ar_manifest ar) \<and> dp_version (pa_row a) = pm_version (ar_meta ar) \<and>
    dp_release (pa_row a) = pm_release (ar_meta ar) \<and>
    dp_sha256 (pa_row a) = re_sha256 e"
proof -
  obtain got w1 i w3 bw where s: "fetch_all y opt c f (pl_install plan) w = (SALT_OK, got, w1)"
    "txn_body y c (index_signed_ok y opt c w) (pl_remove plan) (zip (pl_install plan) got) i w3 = (SALT_OK, bw)"
    "same_pkgs (w_tab w) (w_tab w3)" "w_files w3 = w_files w1" "same_pkgs (w_tab bw) (w_tab w')"
    by (rule native_success [OF assms(5,6)])
  have len: "length got = length (pl_install plan)" using fetch_all_dest [OF s(1)] by (metis length_map)
  obtain dest sha where it: "(e, dest, sha) \<in> set (zip (pl_install plan) got)"
    using assms(8) len by (metis in_set_impl_in_set_zip1 surj_pair)
  have wf3: "db_wf (w_tab w3)" using assms(1) same_pkgs_wf [OF s(3)] by simp
  have nm: "distinct (map (re_name \<circ> fst) (zip (pl_install plan) got))" using assms(3) len by (simp flip: map_map)
  have "fetched_ok y opt f (w_files w1) (e, dest, sha)" by (rule fetch_all_ok [OF s(1) assms(4) it])
  then obtain d where d: "w_files w1 dest = Some d" "sys_sha256 y d = sha" "sha = re_sha256 e"
    using assms(7) by (auto simp: fetched_ok_def)
  obtain ar where ar: "item_archive y (w_files w3) (e, dest, sha) = Some ar" "pm_name (ar_meta ar) = re_name e"
    using txn_body_open [OF wf3 assms(2) s(2) it] by auto
  have v: "pkg_view (w_tab w') (re_name e) = Some (item_pkg y c (index_signed_ok y opt c w) i (w_files w3) (e, dest, sha))"
    using txn_body_ok(4) [OF wf3 assms(2) s(2) nm it] pkg_view_same [OF s(5)] by simp
  have op: "salt_archive_open (sys_toml y) d = Some ar" using ar(1) d(1) s(4) by (simp add: item_archive_def)
  show ?thesis
    using d v op ar by (intro exI [of _ d] exI [of _ ar]) (simp add: item_pkg_def abs_pkg_def pkg_row_of_def Let_def)
qed

text \<open>
  C3. Without \<^verbatim>\<open>--allow-unverified\<close>, a transaction that succeeds has installed for every entry of
  its plan the contents of an archive whose bytes hash to the SHA-256 the repository index gives, that
  contains the package of that name, and it has recorded that hash.  Cache file names of the
  plan are distinct.
\<close>

theorem installs_only_verified:
  assumes "db_wf (w_tab w)" "\<forall>n. deletes_ok (env_sql (sys_env y)) n" "distinct (map re_name (pl_install plan))"
    "distinct (map (cache_file y opt) (pl_install plan))"
    and "native_transaction y opt c ctx plan op f w = (0, w')" "real_run plan f" "\<not> tf_allow_unverified f"
    and "e \<in> set (pl_install plan)"
  shows "\<exists>d ar a. sys_sha256 y d = re_sha256 e \<and> salt_archive_open (sys_toml y) d = Some ar \<and>
    pm_name (ar_meta ar) = re_name e \<and> pkg_view (w_tab w') (re_name e) = Some a \<and>
    pa_files a = map (file_row_of (re_name e)) (ar_manifest ar) \<and> dp_version (pa_row a) = pm_version (ar_meta ar) \<and>
    dp_release (pa_row a) = pm_release (ar_meta ar) \<and>
    dp_sha256 (pa_row a) = re_sha256 e"
  using assms by (rule native_installs_verified)

text \<open>A small package.\<close>

definition ex_grain :: string where
  "ex_grain = ex_header ''metadata.toml'' @ ex_block (CHR ''M'') @ ex_header ''manifest.toml'' @ ex_block (CHR ''F'')"

definition ex_toml :: "string \<Rightarrow> salt_toml option" where
  "ex_toml s = (if s = ''M'' then Some (TTable [(''name'', TString ''new''), (''version'', TString ''1.0''), (''arch'', TString ''any'')])
     else if s = ''F'' then Some (TTable []) else None)"

text \<open>The rest of \<^const>\<open>install_one\<close> once the archive is open, and a transaction that installs it.\<close>

definition install_ar :: "sys \<Rightarrow> RepoConf \<Rightarrow> string \<Rightarrow> int \<Rightarrow> salt_repo_entry \<Rightarrow> string \<Rightarrow> salt_archive \<Rightarrow> world \<Rightarrow> salt_rc \<times> world" where
  "install_ar y c sig i e sha ar w =
     and_then (salt_install_archive (sys_env y) ar (rc_name c) sig i w)
       (upd_tab (salt_db_set_pkg_artifact (env_sql (sys_env y)) (pm_name (ar_meta ar)) (re_filename e) sha))"

lemma install_one_ar:
  assumes "item_archive y (w_files w) (e, dest, sha) = Some ar" "pm_arch (ar_meta ar) = ''any''"
    "pm_name (ar_meta ar) = re_name e"
  shows "install_one y c s i (e, dest, sha) w = install_ar y c (item_sig s e) i e sha ar w"
  using assms by (simp add: install_one_def install_ar_def item_archive_def item_sig_def Let_def split: option.splits)

definition ex_meta :: salt_pkg_meta where
  "ex_meta = the (salt_pkg_meta_from_toml ex_toml ''M'')"

definition ex_ar :: salt_archive where
  "ex_ar = \<lparr>ar_meta = ex_meta, ar_manifest = [], ar_payload = [], ar_scripts = []\<rparr>"

lemma ex_grain_ar: "salt_archive_open ex_toml ex_grain = Some ex_ar"
proof -
  have nil: "tar_entries None None [] = ([], SALT_OK)" by (subst tar_entries.simps) (simp add: TAR_BLOCK_def)
  obtain e2 where e2: "tar_entries None None (ex_header ''manifest.toml'' @ ex_block (CHR ''F'') @ []) = ([e2], SALT_OK)"
      "te_path e2 = ''manifest.toml''" "te_data e2 = ''F''"
    using ex_tar_entry [of "''manifest.toml''" "CHR ''F''" "[]"] by (auto simp: nil)
  obtain e1 where e1: "tar_entries None None ex_grain = ([e1, e2], SALT_OK)"
      "te_path e1 = ''metadata.toml''" "te_data e1 = ''M''"
    using ex_tar_entry [of "''metadata.toml''" "CHR ''M''" "ex_header ''manifest.toml'' @ ex_block (CHR ''F'')"] e2(1)
    by (auto simp: ex_grain_def)
  have "salt_pkg_meta_from_toml ex_toml ''M'' \<noteq> None" "salt_manifest_from_toml ex_toml ''F'' = (SALT_OK, [])"
    by code_simp+
  then show ?thesis using e1 e2
    by (auto simp: salt_archive_open_def salt_tar_read_def open_cb_def ex_ar_def ex_meta_def)
qed

definition ex_sha :: string where "ex_sha = replicate 64 (CHR ''0'')"

definition ex_new :: salt_repo_entry where
  "ex_new = (ex_entry ''new'' [])\<lparr>re_sha256 := ex_sha\<rparr>"

definition ex_install :: NativePlan where
  "ex_install = \<lparr>pl_remove = [], pl_install = [ex_new]\<rparr>"

definition ex_net :: sys where
  "ex_net = ex_sys\<lparr>sys_toml := ex_toml, sys_sha256 := \<lambda>d. ex_sha\<rparr>"

definition ex_files :: "(string \<Rightarrow> string option) \<Rightarrow> world" where
  "ex_files files = ex_world\<lparr>w_files := files\<rparr>"

definition ex_cache :: "string \<Rightarrow> string option" where
  "ex_cache = [cache_file ex_net ex_opts ex_new \<mapsto> ex_grain]"

text \<open>The world at the start of the transaction's body.\<close>

definition ex_started :: "(string \<Rightarrow> string option) \<Rightarrow> world" where
  "ex_started files =
     (let w = ex_files files; (i, t) = salt_db_txn_new (env_sql ex_env) ''install'' (w_tab w);
          (s, w2) = salt_snapshot_create ex_env ex_ctx (the i) (w\<lparr>w_db := (w_db w)\<lparr>db_tab := t\<rparr>\<rparr>)
      in snd (upd_tab (salt_db_txn_set_snapshot (env_sql ex_env) (the i) (the s)) w2))"

lemma ex_body:
  "fst (and_then (and_then (and_then (upd_db (salt_db_sql_begin (env_sql ex_env)) (ex_started files))
      (install_ar ex_net ex_conf_repo ''unsigned'' 2 ex_new ex_sha ex_ar))
      (upd_tab (salt_db_txn_finish (env_sql ex_env) 2 ''ok'')))
      (upd_db (salt_db_sql_commit (env_sql ex_env)))) = SALT_OK"
  by code_simp

lemma ex_checks:
  "check_conflicts (w_tab (ex_files files)) ex_install" "check_dangling (w_tab (ex_files files)) ex_install"
  by code_simp+

lemma ex_fetch:
  "fetch_all ex_net ex_opts ex_conf_repo default_flags [ex_new] (ex_files ex_cache) =
     (SALT_OK, [(cache_file ex_net ex_opts ex_new, ex_sha)], ex_files ex_cache)"
proof -
  have "salt_repo_entry_hash_ok ex_new" "re_sha256 ex_new = ex_sha" by code_simp+
  then show ?thesis
    by (simp add: fetch_and_verify_def Let_def salt_sha256_file_def ex_files_def ex_cache_def ex_net_def
        flip: cache_file_def)
qed

lemma ex_install_succeeds:
  "fst (native_transaction ex_net ex_opts ex_conf_repo ex_ctx ex_install ''install'' default_flags (ex_files ex_cache)) = 0"
proof -
  have so: "\<not> index_signed_ok ex_net ex_opts ex_conf_repo (ex_files ex_cache)"
    by (simp add: index_signed_ok_def read_key_def ex_conf_repo_def)
  have sig: "item_sig False ex_new = ''unsigned''" by code_simp
  have names: "pm_arch (ar_meta ex_ar) = ''any''" "pm_name (ar_meta ex_ar) = re_name ex_new" by code_simp+
  have files: "w_files (ex_started files) = files" for files
    by (simp add: ex_started_def ex_files_def Let_def upd_tab_def split_beta salt_snapshot_create_def upd_state_def)
  have ar: "item_archive ex_net (w_files w) (ex_new, cache_file ex_net ex_opts ex_new, ex_sha) = Some ex_ar"
    if "w_files w = ex_cache" for w
    using that ex_grain_ar by (simp add: item_archive_def ex_cache_def ex_net_def)
  have env: "sys_env ex_net = ex_env" by (simp add: ex_net_def ex_sys_def)
  have "w_files (snd (upd_db g w)) = w_files w" for g w by (simp add: upd_db_def split_beta)
  then have one: "install_one ex_net ex_conf_repo False 2 (ex_new, cache_file ex_net ex_opts ex_new, ex_sha)
      (snd (upd_db (salt_db_sql_begin (env_sql ex_env)) (ex_started ex_cache))) =
      install_ar ex_net ex_conf_repo ''unsigned'' 2 ex_new ex_sha ex_ar
        (snd (upd_db (salt_db_sql_begin (env_sql ex_env)) (ex_started ex_cache)))"
    using install_one_ar [OF ar names, of _ ex_conf_repo False 2] files sig by simp
  have body: "fst (txn_body ex_net ex_conf_repo False [] [(ex_new, cache_file ex_net ex_opts ex_new, ex_sha)] 2 (ex_started ex_cache)) = SALT_OK"
    using ex_body [of ex_cache] one by (simp add: txn_body_def Let_def env and_then_def split: if_splits)
  obtain t where t: "salt_db_txn_new (env_sql ex_env) ''install'' (w_tab (ex_files ex_cache)) = (Some 2, t)"
    by (simp add: salt_db_txn_new_def ex_env_def ex_files_def ex_world_def ex_tables_def)
  obtain s w2 where s: "salt_snapshot_create ex_env ex_ctx 2 ((ex_files ex_cache)\<lparr>w_db := (w_db (ex_files ex_cache))\<lparr>db_tab := t\<rparr>\<rparr>) = (Some s, w2)"
    by (simp add: salt_snapshot_create_def ex_ctx_def salt_ctx_init_def ex_env_def Let_def)
  have "ex_started ex_cache = snd (upd_tab (salt_db_txn_set_snapshot (env_sql ex_env) 2 s) w2)"
    using t s by (simp add: ex_started_def)
  then show ?thesis using ex_fetch ex_checks [of ex_cache] body so t s
    by (simp add: native_transaction_def ex_install_def env default_flags_def ex_opts_def confirm_def txn_run_def split_beta Let_def)
qed

lemma ex_install_runs:
  "native_transaction ex_net ex_opts ex_conf_repo ex_ctx ex_install ''install'' default_flags (ex_files ex_cache) =
     (0, snd (native_transaction ex_net ex_opts ex_conf_repo ex_ctx ex_install ''install'' default_flags (ex_files ex_cache)))"
  using ex_install_succeeds by (metis prod.collapse)

lemma ex_deletes: "\<forall>n. deletes_ok (env_sql (sys_env ex_net)) n"
  by (simp add: deletes_ok_def ex_net_def ex_sys_def ex_env_def)

lemma ex_wf: "db_wf (w_tab (ex_files files))"
  by code_simp

theorem installs_only_verified_witness:
  "\<exists>d ar a. sys_sha256 ex_net d = re_sha256 ex_new \<and> salt_archive_open (sys_toml ex_net) d = Some ar \<and>
    pm_name (ar_meta ar) = re_name ex_new \<and>
    pkg_view (w_tab (snd (native_transaction ex_net ex_opts ex_conf_repo ex_ctx ex_install ''install'' default_flags (ex_files ex_cache))))
      (re_name ex_new) = Some a \<and>
    pa_files a = map (file_row_of (re_name ex_new)) (ar_manifest ar) \<and> dp_version (pa_row a) = pm_version (ar_meta ar) \<and> dp_release (pa_row a) = pm_release (ar_meta ar) \<and>
    dp_sha256 (pa_row a) = re_sha256 ex_new"
proof (rule installs_only_verified)
  show "db_wf (w_tab (ex_files ex_cache))" by (rule ex_wf)
  show "\<forall>n. deletes_ok (env_sql (sys_env ex_net)) n" by (rule ex_deletes)
  show "distinct (map re_name (pl_install ex_install))" "distinct (map (cache_file ex_net ex_opts) (pl_install ex_install))"
    by (simp_all add: ex_install_def)
  show "native_transaction ex_net ex_opts ex_conf_repo ex_ctx ex_install ''install'' default_flags (ex_files ex_cache) =
      (0, snd (native_transaction ex_net ex_opts ex_conf_repo ex_ctx ex_install ''install'' default_flags (ex_files ex_cache)))"
    by (rule ex_install_runs)
  show "real_run ex_install default_flags" "\<not> tf_allow_unverified default_flags" "ex_new \<in> set (pl_install ex_install)"
    by (simp_all add: real_run_def default_flags_def ex_install_def)
qed

theorem native_transaction_commits_witness:
  "\<exists>got w1 i. fetch_all ex_net ex_opts ex_conf_repo default_flags (pl_install ex_install) (ex_files ex_cache) = (SALT_OK, got, w1) \<and>
    db_wf (w_tab (snd (native_transaction ex_net ex_opts ex_conf_repo ex_ctx ex_install ''install'' default_flags (ex_files ex_cache)))) \<and>
    (\<forall>it \<in> set (zip (pl_install ex_install) got).
      pkg_view (w_tab (snd (native_transaction ex_net ex_opts ex_conf_repo ex_ctx ex_install ''install'' default_flags (ex_files ex_cache))))
        (re_name (fst it)) =
        Some (item_pkg ex_net ex_conf_repo (index_signed_ok ex_net ex_opts ex_conf_repo (ex_files ex_cache)) i (w_files w1) it)) \<and>
    (\<forall>n. n \<notin> re_name ` set (pl_install ex_install) \<longrightarrow>
      pkg_view (w_tab (snd (native_transaction ex_net ex_opts ex_conf_repo ex_ctx ex_install ''install'' default_flags (ex_files ex_cache)))) n =
        (if n \<in> set (pl_remove ex_install) then None else pkg_view (w_tab (ex_files ex_cache)) n))"
proof (rule native_transaction_commits)
  show "db_wf (w_tab (ex_files ex_cache))" by (rule ex_wf)
  show "\<forall>n. deletes_ok (env_sql (sys_env ex_net)) n" by (rule ex_deletes)
  show "distinct (map re_name (pl_install ex_install))" by (simp add: ex_install_def)
  show "native_transaction ex_net ex_opts ex_conf_repo ex_ctx ex_install ''install'' default_flags (ex_files ex_cache) =
      (0, snd (native_transaction ex_net ex_opts ex_conf_repo ex_ctx ex_install ''install'' default_flags (ex_files ex_cache)))"
    by (rule ex_install_runs)
  show "real_run ex_install default_flags" by (simp add: real_run_def default_flags_def ex_install_def)
qed

end
