(* ===== verification/Salt_Toml_Parse.thy ===== *)
theory Salt_Toml_Parse
  imports Salt_Toml "HOL-Library.Word"
begin

unbundle bit_operations_syntax

text \<open>
  The TOML reader (\<^verbatim>\<open>src/halite/src/toml.c\<close>, from \<^verbatim>\<open>skip_ws_inline\<close> to \<^verbatim>\<open>salt_toml_parse\<close>).

  The pair of pointers \<^verbatim>\<open>p\<close>, \<^verbatim>\<open>end\<close> is the list of bytes between them; the line counter only serves
  messages.  \<open>nxt\<close> is the byte at \<^verbatim>\<open>end\<close>, which the readers of multi-line strings look at: the
  terminating zero when the text is a \<^verbatim>\<open>salt_buf\<close>, another byte of the archive when the text is a
  piece of it.  A null pointer is \<^const>\<open>None\<close>.  A string node is a C string: what follows a zero byte
  is not seen by anybody who reads the node.

  \<^verbatim>\<open>parse_value\<close>, \<^verbatim>\<open>parse_array\<close> and \<^verbatim>\<open>parse_inline_table\<close> call each other, and the loop of
  \<^verbatim>\<open>parse_array\<close> does not move on a closing brace.  They have a fuel argument and a third outcome,
  \<open>PMore\<close>, for a fuel that is used up.  \<open>salt_toml_parse\<close> takes a fuel which is shown to decide: if it
  is not enough then no fuel is.
\<close>

section \<open>Characters and strings\<close>

definition tolower :: "char \<Rightarrow> char" where
  "tolower c = (if isupper c then char_of ((of_char c :: nat) + 32) else c)"

definition ws_inline :: "char \<Rightarrow> bool" where
  "ws_inline c \<longleftrightarrow> c = CHR '' '' \<or> c = CHR 0x09"

definition skip_ws_inline :: "string \<Rightarrow> string" where
  "skip_ws_inline s = dropWhile ws_inline s"

definition skip_line :: "string \<Rightarrow> string" where
  "skip_line s = dropWhile (\<lambda>c. c \<noteq> CHR 0x0A) s"

function skip_ws_and_comments :: "string \<Rightarrow> string" where
  "skip_ws_and_comments [] = []"
| "skip_ws_and_comments (c # s) =
     (if c = CHR '' '' \<or> c = CHR 0x09 \<or> c = CHR 0x0D \<or> c = CHR 0x0A then skip_ws_and_comments s
      else if c = CHR ''#'' then skip_ws_and_comments (skip_line s)
      else c # s)"
  by pat_completeness auto
termination
  by (relation "measure length") (simp_all add: skip_line_def length_dropWhile_le le_imp_less_Suc)

definition append_utf8 :: "32 word \<Rightarrow> string" where
  "append_utf8 cp =
     (if cp < 0x80 then [char_of (unat cp)]
      else if cp < 0x800 then
        [char_of (unat (0xC0 OR drop_bit 6 cp)), char_of (unat (0x80 OR (cp AND 0x3F)))]
      else if cp < 0x10000 then
        [char_of (unat (0xE0 OR drop_bit 12 cp)), char_of (unat (0x80 OR (drop_bit 6 cp AND 0x3F))),
         char_of (unat (0x80 OR (cp AND 0x3F)))]
      else
        [char_of (unat (0xF0 OR drop_bit 18 cp)), char_of (unat (0x80 OR (drop_bit 12 cp AND 0x3F))),
         char_of (unat (0x80 OR (drop_bit 6 cp AND 0x3F))), char_of (unat (0x80 OR (cp AND 0x3F)))])"

definition hex_val :: "char \<Rightarrow> nat" where
  "hex_val h = (if (of_char h :: nat) \<le> 57 then of_char h - 48 else of_char (tolower h) - 97 + 10)"

fun hex_digits :: "nat \<Rightarrow> 32 word \<Rightarrow> string \<Rightarrow> (32 word \<times> string) option" where
  "hex_digits 0 cp s = Some (cp, s)"
| "hex_digits (Suc n) cp [] = None"
| "hex_digits (Suc n) cp (h # s) =
     (if isxdigit h then hex_digits n (cp * 16 + of_nat (hex_val h)) s else None)"

text \<open>What the escape appends, and the rest.  The text starts with the backslash.\<close>

definition parse_escape :: "string \<Rightarrow> (string \<times> string) option" where
  "parse_escape s =
     (case tl s of
        [] \<Rightarrow> None
      | c # r \<Rightarrow>
          if c = CHR ''b'' then Some ([CHR 0x08], r)
          else if c = CHR ''t'' then Some ([CHR 0x09], r)
          else if c = CHR ''n'' then Some ([CHR 0x0A], r)
          else if c = CHR ''f'' then Some ([CHR 0x0C], r)
          else if c = CHR ''r'' then Some ([CHR 0x0D], r)
          else if c = CHR 0x22 then Some ([CHR 0x22], r)
          else if c = CHR 0x5C then Some ([CHR 0x5C], r)
          else if c = CHR ''u'' \<or> c = CHR ''U'' then
            (case hex_digits (if c = CHR ''u'' then 4 else 8) 0 r of
               None \<Rightarrow> None
             | Some (cp, r') \<Rightarrow> Some (append_utf8 cp, r'))
          else None)"

lemma hex_digits_length: "hex_digits n cp s = Some (cp', r) \<Longrightarrow> length r + n = length s"
  by (induction n cp s rule: hex_digits.induct) (auto split: if_splits)

lemma parse_escape_shorter: "parse_escape s = Some (e, r) \<Longrightarrow> length r < length s"
  by (cases s; cases "tl s") (auto simp: parse_escape_def dest!: hex_digits_length split: if_splits option.splits)

section \<open>The four kinds of strings\<close>

text \<open>\<open>b\<close> is the buffer of the loop.\<close>

function basic_body :: "string \<Rightarrow> string \<Rightarrow> (string \<times> string) option" where
  "basic_body b [] = None"
| "basic_body b (c # s) =
     (if c = CHR 0x22 then Some (b, s)
      else if c = CHR 0x5C then
        (case parse_escape (c # s) of
           None \<Rightarrow> None
         | Some (e, r) \<Rightarrow> basic_body (b @ e) r)
      else if c = CHR 0x0A then None
      else basic_body (b @ [c]) s)"
  by pat_completeness auto
termination
  by (relation "measure (\<lambda>(b, s). length s)") (auto dest: parse_escape_shorter)

definition parse_basic_string :: "string \<Rightarrow> (string \<times> string) option" where
  "parse_basic_string s = map_option (apfst c_str) (basic_body [] (tl s))"

definition blank :: "char \<Rightarrow> bool" where
  "blank c \<longleftrightarrow> c = CHR '' '' \<or> c = CHR 0x09 \<or> c = CHR 0x0D"

definition skip_first_newline :: "string \<Rightarrow> string" where
  "skip_first_newline s =
     (if s \<noteq> [] \<and> hd s = CHR 0x0A then tl s
      else if 1 < length s \<and> s ! 0 = CHR 0x0D \<and> s ! 1 = CHR 0x0A then drop 2 s
      else s)"

text \<open>
  The two tests for the closing quotes: three quotes and no fourth one, or two quotes at the very
  end with the byte after the end a quote too.
\<close>

definition ml_basic_closed :: "char \<Rightarrow> string \<Rightarrow> bool" where
  "ml_basic_closed nxt s \<longleftrightarrow>
     2 < length s \<and> s ! 0 = CHR 0x22 \<and> s ! 1 = CHR 0x22 \<and> s ! 2 = CHR 0x22 \<and> \<not> (3 < length s \<and> s ! 3 = CHR 0x22) \<or>
     length s = 2 \<and> s ! 0 = CHR 0x22 \<and> s ! 1 = CHR 0x22 \<and> nxt = CHR 0x22"

function ml_basic_body :: "char \<Rightarrow> string \<Rightarrow> string \<Rightarrow> (string \<times> string) option" where
  "ml_basic_body nxt b [] = None"
| "ml_basic_body nxt b (c # s) =
     (if ml_basic_closed nxt (c # s) then Some (b, drop 3 (c # s))
      else if c = CHR 0x5C then
        (let q = dropWhile blank s in
         if q \<noteq> [] \<and> hd q = CHR 0x0A
         then ml_basic_body nxt b (dropWhile (\<lambda>x. blank x \<or> x = CHR 0x0A) (tl q))
         else case parse_escape (c # s) of
                None \<Rightarrow> None
              | Some (e, r) \<Rightarrow> ml_basic_body nxt (b @ e) r)
      else ml_basic_body nxt (b @ [c]) s)"
  by pat_completeness auto
termination
proof (relation "measure (\<lambda>(nxt, b, s). length s)", goal_cases)
  case (2 nxt b c s q)
  have "length (dropWhile (\<lambda>x. blank x \<or> x = CHR 0x0A) (tl q)) \<le> length q"
    by (rule le_trans [OF length_dropWhile_le]) simp
  also have "\<dots> \<le> length s" using 2 by (simp add: length_dropWhile_le)
  finally show ?case by simp
qed (auto dest: parse_escape_shorter)

definition parse_multiline_basic :: "char \<Rightarrow> string \<Rightarrow> (string \<times> string) option" where
  "parse_multiline_basic nxt s = map_option (apfst c_str) (ml_basic_body nxt [] (skip_first_newline (drop 3 s)))"

fun literal_body :: "string \<Rightarrow> string \<Rightarrow> (string \<times> string) option" where
  "literal_body b [] = None"
| "literal_body b (c # s) =
     (if c = CHR 0x27 then Some (b, s)
      else if c = CHR 0x0A then None
      else literal_body (b @ [c]) s)"

definition parse_literal_string :: "string \<Rightarrow> (string \<times> string) option" where
  "parse_literal_string s = map_option (apfst c_str) (literal_body [] (tl s))"

definition ml_literal_closed :: "char \<Rightarrow> string \<Rightarrow> bool" where
  "ml_literal_closed nxt s \<longleftrightarrow>
     2 < length s \<and> s ! 0 = CHR 0x27 \<and> s ! 1 = CHR 0x27 \<and> s ! 2 = CHR 0x27 \<or>
     length s = 2 \<and> s ! 0 = CHR 0x27 \<and> s ! 1 = CHR 0x27 \<and> nxt = CHR 0x27"

fun ml_literal_body :: "char \<Rightarrow> string \<Rightarrow> string \<Rightarrow> (string \<times> string) option" where
  "ml_literal_body nxt b [] = None"
| "ml_literal_body nxt b (c # s) =
     (if ml_literal_closed nxt (c # s) then Some (b, drop 3 (c # s))
      else ml_literal_body nxt (b @ [c]) s)"

definition parse_multiline_literal :: "char \<Rightarrow> string \<Rightarrow> (string \<times> string) option" where
  "parse_multiline_literal nxt s =
     map_option (apfst c_str) (ml_literal_body nxt []
       (let r = drop 3 s in if r \<noteq> [] \<and> hd r = CHR 0x0A then tl r else r))"

section \<open>Scalars and keys\<close>

text \<open>\<^verbatim>\<open>strtoll\<close>, which saturates.\<close>

definition c_strtoll :: "string \<Rightarrow> int" where
  "c_strtoll s = max (- (2 ^ 63)) (min (2 ^ 63 - 1) (fst (c_strtol s)))"

definition scalar_end :: "char \<Rightarrow> bool" where
  "scalar_end c \<longleftrightarrow> c \<in> {CHR '','', CHR '']'', CHR ''}'', CHR 0x0A, CHR ''#'', CHR '' '', CHR 0x09, CHR 0x0D}"

definition scalar_is_int :: "string \<Rightarrow> bool" where
  "scalar_is_int tok \<longleftrightarrow>
     (let t = (if tok \<noteq> [] \<and> (hd tok = CHR ''+'' \<or> hd tok = CHR ''-'') then tl tok else tok)
      in t \<noteq> [] \<and> list_all (\<lambda>c. c = CHR ''_'' \<or> isdigit c) t)"

definition scalar_node :: "string \<Rightarrow> salt_toml" where
  "scalar_node tok =
     (if tok = ''true'' then TBool True
      else if tok = ''false'' then TBool False
      else if scalar_is_int tok then TInt (c_strtoll (take 63 (filter (\<lambda>c. c \<noteq> CHR ''_'') tok)))
      else TString tok)"

definition parse_scalar_token :: "string \<Rightarrow> salt_toml \<times> string" where
  "parse_scalar_token s =
     (scalar_node (c_str (takeWhile (\<lambda>c. \<not> scalar_end c) s)), dropWhile (\<lambda>c. \<not> scalar_end c) s)"

definition key_char :: "char \<Rightarrow> bool" where
  "key_char c \<longleftrightarrow> isalnum c \<or> c = CHR ''_'' \<or> c = CHR ''-''"

definition parse_key_token :: "string \<Rightarrow> (string \<times> string) option" where
  "parse_key_token s0 =
     (let s = skip_ws_inline s0 in
      if s = [] then None
      else if hd s = CHR 0x22 then parse_basic_string s
      else if hd s = CHR 0x27 then parse_literal_string s
      else let k = takeWhile key_char s in
           if k = [] then None else Some (k, dropWhile key_char s))"

section \<open>Values\<close>

datatype 'a presult = POk 'a string | PErr | PMore

definition string_node :: "(string \<times> string) option \<Rightarrow> salt_toml presult" where
  "string_node r = (case r of None \<Rightarrow> PErr | Some (v, rest) \<Rightarrow> POk (TString v) rest)"

text \<open>\<^verbatim>\<open>table_set\<close>: the value of an existing key is replaced in place, a new key goes to the end.\<close>

fun table_set :: "string \<Rightarrow> salt_toml \<Rightarrow> (string \<times> salt_toml) list \<Rightarrow> (string \<times> salt_toml) list" where
  "table_set k v [] = [(k, v)]"
| "table_set k v ((k', v') # t) = (if k' = k then (k', v) # t else (k', v') # table_set k v t)"

text \<open>
  \<open>parse_array\<close> and \<open>parse_inline_table\<close> are the bodies of the two loops, with the node built so far.
\<close>

fun parse_value :: "nat \<Rightarrow> char \<Rightarrow> string \<Rightarrow> salt_toml presult"
and parse_array :: "nat \<Rightarrow> char \<Rightarrow> salt_toml list \<Rightarrow> string \<Rightarrow> salt_toml presult"
and parse_inline_table :: "nat \<Rightarrow> char \<Rightarrow> (string \<times> salt_toml) list \<Rightarrow> string \<Rightarrow> salt_toml presult" where
  "parse_value 0 nxt s0 = PMore"
| "parse_value (Suc n) nxt s0 =
     (let s = skip_ws_inline s0 in
      case s of
        [] \<Rightarrow> PErr
      | c # r \<Rightarrow>
          if c = CHR 0x22 then
            string_node (if 2 < length s \<and> s ! 1 = CHR 0x22 \<and> s ! 2 = CHR 0x22
                         then parse_multiline_basic nxt s else parse_basic_string s)
          else if c = CHR 0x27 then
            string_node (if 2 < length s \<and> s ! 1 = CHR 0x27 \<and> s ! 2 = CHR 0x27
                         then parse_multiline_literal nxt s else parse_literal_string s)
          else if c = CHR ''['' then parse_array n nxt [] r
          else if c = CHR ''{'' then
            (let r1 = skip_ws_inline r in
             if r1 \<noteq> [] \<and> hd r1 = CHR ''}'' then POk (TTable []) (tl r1) else parse_inline_table n nxt [] r1)
          else (case parse_scalar_token s of (v, rest) \<Rightarrow> POk v rest))"
| "parse_array 0 nxt xs s0 = PMore"
| "parse_array (Suc n) nxt xs s0 =
     (let s = skip_ws_and_comments s0 in
      if s = [] then PErr
      else if hd s = CHR '']'' then POk (TArray xs) (tl s)
      else case parse_value n nxt s of
             PErr \<Rightarrow> PErr
           | PMore \<Rightarrow> PMore
           | POk v r \<Rightarrow>
               (let s1 = skip_ws_and_comments r in
                if s1 \<noteq> [] \<and> hd s1 = CHR '','' then parse_array n nxt (xs @ [v]) (tl s1)
                else let s2 = skip_ws_and_comments s1 in
                  if s2 \<noteq> [] \<and> hd s2 = CHR '']'' then POk (TArray (xs @ [v])) (tl s2)
                  else parse_array n nxt (xs @ [v]) s2))"
| "parse_inline_table 0 nxt kvs s0 = PMore"
| "parse_inline_table (Suc n) nxt kvs s0 =
     (case parse_key_token (skip_ws_inline s0) of
        None \<Rightarrow> PErr
      | Some (k, r) \<Rightarrow>
          (let s1 = skip_ws_inline r in
           if s1 = [] \<or> hd s1 \<noteq> CHR ''='' then PErr
           else case parse_value n nxt (skip_ws_inline (tl s1)) of
                  PErr \<Rightarrow> PErr
                | PMore \<Rightarrow> PMore
                | POk v r2 \<Rightarrow>
                    (let s2 = skip_ws_inline r2; kvs' = table_set k v kvs in
                     if s2 \<noteq> [] \<and> hd s2 = CHR '','' then parse_inline_table n nxt kvs' (tl s2)
                     else if s2 \<noteq> [] \<and> hd s2 = CHR ''}'' then POk (TTable kvs') (tl s2)
                     else PErr)))"

section \<open>Documents\<close>

lemma basic_body_shorter: "basic_body b s = Some (v, r) \<Longrightarrow> length r < length s"
  by (induction b s rule: basic_body.induct)
    (fastforce split: if_splits option.splits dest!: parse_escape_shorter)+

lemma literal_body_shorter: "literal_body b s = Some (v, r) \<Longrightarrow> length r < length s"
  by (induction b s rule: literal_body.induct) (auto split: if_splits)

lemma skip_ws_inline_len: "length (skip_ws_inline s) \<le> length s"
  by (simp add: skip_ws_inline_def length_dropWhile_le)

lemma dropWhile_taken: "takeWhile P s \<noteq> [] \<Longrightarrow> length (dropWhile P s) < length s"
  by (cases s) (auto simp: length_dropWhile_le less_Suc_eq_le split: if_splits)

lemma parse_key_token_shorter: "parse_key_token s = Some (k, r) \<Longrightarrow> length r < length s"
proof -
  assume a: "parse_key_token s = Some (k, r)"
  let ?s = "skip_ws_inline s"
  have ne: "?s \<noteq> []" using a by (auto simp: parse_key_token_def Let_def split: if_splits)
  then have "length r < length ?s" using a
    by (auto simp: parse_key_token_def Let_def parse_basic_string_def parse_literal_string_def dropWhile_taken
        dest!: basic_body_shorter literal_body_shorter split: if_splits)
  then show ?thesis using skip_ws_inline_len [of s] by simp
qed

function parse_dotted_path :: "string \<Rightarrow> (string list \<times> string) option" where
  "parse_dotted_path s =
     (case parse_key_token s of
        None \<Rightarrow> None
      | Some (k, r) \<Rightarrow>
          (let s1 = skip_ws_inline r in
           if s1 \<noteq> [] \<and> hd s1 = CHR ''.''
           then (case parse_dotted_path (tl s1) of None \<Rightarrow> None | Some (ks, r') \<Rightarrow> Some (k # ks, r'))
           else Some ([k], s1)))"
  by pat_completeness auto
termination
proof (relation "measure length", goal_cases)
  case (2 s kr k r s1)
  then have "length r < length s" using parse_key_token_shorter [of s k r] by simp
  moreover have "length s1 \<le> length r" using 2 by (simp add: skip_ws_inline_len)
  ultimately show ?case by simp
qed simp

declare parse_dotted_path.simps [simp del]

text \<open>
  \<^verbatim>\<open>descend_table\<close> walks from a table along keys, creating missing tables and entering the last element
  of an array, and returns a pointer to the table it ends at.  \<open>descend_table aot f ks kvs\<close> is the table
  \<open>kvs\<close> after that walk with \<open>f\<close> applied to the table the pointer names.
\<close>

fun descend_table ::
    "bool \<Rightarrow> ((string \<times> salt_toml) list \<Rightarrow> (string \<times> salt_toml) list) \<Rightarrow> string list \<Rightarrow>
     (string \<times> salt_toml) list \<Rightarrow> (string \<times> salt_toml) list option" where
  "descend_table aot f [] kvs = Some (f kvs)"
| "descend_table aot f (k # ks) kvs =
     (if ks = [] \<and> aot then
        (case map_of kvs k of
           None \<Rightarrow> Some (table_set k (TArray [TTable (f [])]) kvs)
         | Some (TArray xs) \<Rightarrow> Some (table_set k (TArray (xs @ [TTable (f [])])) kvs)
         | Some _ \<Rightarrow> None)
      else
        (case map_of kvs k of
           None \<Rightarrow> map_option (\<lambda>t. table_set k (TTable t) kvs) (descend_table aot f ks [])
         | Some (TTable t) \<Rightarrow> map_option (\<lambda>t. table_set k (TTable t) kvs) (descend_table aot f ks t)
         | Some (TArray xs) \<Rightarrow>
             (if xs = [] then None
              else case last xs of
                     TTable t \<Rightarrow> map_option (\<lambda>t. table_set k (TArray (butlast xs @ [TTable t])) kvs) (descend_table aot f ks t)
                   | _ \<Rightarrow> None)
         | Some _ \<Rightarrow> None))"

text \<open>
  The loop of \<^verbatim>\<open>salt_toml_parse\<close>.  \<open>cur\<close> is the path from the root to the table of the last header: the
  pointer \<^verbatim>\<open>current\<close>, which stays valid and stays at the end of that path because the assignments up
  to the next header only change what is below it.
\<close>

definition header_step :: "(string \<times> salt_toml) list \<Rightarrow> string \<Rightarrow> (string list \<times> (string \<times> salt_toml) list \<times> string) option" where
  "header_step root s0 =
     (let s = tl s0;
          aot = (s \<noteq> [] \<and> hd s = CHR ''['')
      in case parse_dotted_path (if aot then tl s else s) of
           None \<Rightarrow> None
         | Some (ks, r) \<Rightarrow>
             (let r1 = skip_ws_inline r;
                  r2 = (if r1 \<noteq> [] \<and> hd r1 = CHR '']'' then tl r1 else r1);
                  r3 = (if aot \<and> r2 \<noteq> [] \<and> hd r2 = CHR '']'' then tl r2 else r2)
              in map_option (\<lambda>root'. (ks, root', r3)) (descend_table aot (\<lambda>t. t) ks root)))"

definition assign_step :: "nat \<Rightarrow> char \<Rightarrow> string list \<Rightarrow> (string \<times> salt_toml) list \<Rightarrow> string \<Rightarrow>
    (string \<times> salt_toml) list presult" where
  "assign_step n nxt cur root s =
     (case parse_dotted_path s of
        None \<Rightarrow> PErr
      | Some (ks, r) \<Rightarrow>
          (let r1 = skip_ws_inline r in
           if r1 = [] \<or> hd r1 \<noteq> CHR ''='' then PErr
           else case parse_value n nxt (tl r1) of
                  PErr \<Rightarrow> PErr
                | PMore \<Rightarrow> PMore
                | POk v r2 \<Rightarrow>
                    (case descend_table False (table_set (last ks) v) (cur @ butlast ks) root of
                       None \<Rightarrow> PErr
                     | Some root' \<Rightarrow>
                         (let r3 = skip_ws_inline r2
                          in POk root' (if r3 \<noteq> [] \<and> hd r3 = CHR ''#'' then skip_line r3 else r3)))))"

fun toml_loop :: "nat \<Rightarrow> char \<Rightarrow> string list \<Rightarrow> (string \<times> salt_toml) list \<Rightarrow> string \<Rightarrow> (string \<times> salt_toml) list presult" where
  "toml_loop 0 nxt cur root s0 = PMore"
| "toml_loop (Suc n) nxt cur root s0 =
     (let s = skip_ws_and_comments s0 in
      if s = [] then POk root []
      else if hd s = CHR ''['' then
        (case header_step root s of
           None \<Rightarrow> PErr
         | Some (cur', root', r) \<Rightarrow> toml_loop n nxt cur' root' r)
      else
        (case assign_step n nxt cur root s of
           PErr \<Rightarrow> PErr
         | PMore \<Rightarrow> PMore
         | POk root' r \<Rightarrow> toml_loop n nxt cur root' r))"

text \<open>The outcome: \<^const>\<open>None\<close> when the function does not return, \<open>Some None\<close> for the null pointer.\<close>

definition toml_fuel :: "string \<Rightarrow> nat" where
  "toml_fuel text = 2 * length text + 2"

definition salt_toml_parse :: "char \<Rightarrow> string \<Rightarrow> salt_toml option option" where
  "salt_toml_parse nxt text =
     (case toml_loop (toml_fuel text) nxt [] [] text of
        PMore \<Rightarrow> None
      | PErr \<Rightarrow> Some None
      | POk root _ \<Rightarrow> Some (Some (TTable root)))"

section \<open>Progress\<close>

lemma skip_ws_and_comments_len: "length (skip_ws_and_comments s) \<le> length s"
proof (induction s rule: skip_ws_and_comments.induct)
  case (2 c s)
  have "length (skip_line s) \<le> length s" by (simp add: skip_line_def length_dropWhile_le)
  then show ?case using 2 by auto
qed simp

lemma skip_ws_and_comments_hd:
  "skip_ws_and_comments s = c # r \<Longrightarrow> c \<notin> {CHR '' '', CHR 0x09, CHR 0x0D, CHR 0x0A, CHR ''#''}"
  by (induction s rule: skip_ws_and_comments.induct) (auto split: if_splits)

lemma skip_ws_and_comments_idem [simp]:
  "skip_ws_and_comments (skip_ws_and_comments s) = skip_ws_and_comments s"
  by (cases "skip_ws_and_comments s") (auto dest: skip_ws_and_comments_hd)

lemma skip_ws_inline_skipped: "skip_ws_and_comments s = c # r \<Longrightarrow> skip_ws_inline (c # r) = c # r"
  using skip_ws_and_comments_hd [of s c r] by (simp add: skip_ws_inline_def ws_inline_def)

section \<open>More fuel gives the same result\<close>

lemmas parse_induct = parse_value_parse_array_parse_inline_table.induct

lemma parse_fuel_step:
  "parse_value n nxt s \<noteq> PMore \<Longrightarrow> parse_value (Suc n) nxt s = parse_value n nxt s"
  "parse_array n nxt xs s \<noteq> PMore \<Longrightarrow> parse_array (Suc n) nxt xs s = parse_array n nxt xs s"
  "parse_inline_table n nxt kvs s \<noteq> PMore \<Longrightarrow> parse_inline_table (Suc n) nxt kvs s = parse_inline_table n nxt kvs s"
proof (induction n nxt s and n nxt xs s and n nxt kvs s rule: parse_induct)
  case (2 n nxt s0)
  then show ?case
    unfolding parse_value.simps(2) [of "Suc n" nxt s0] parse_value.simps(2) [of n nxt s0]
    by (cases "skip_ws_inline s0") (auto simp: Let_def split: if_splits simp del: parse_array.simps parse_inline_table.simps)
next
  case (4 n nxt xs s0)
  note IH = "4.IH" and ne = "4.prems"
  let ?s = "skip_ws_and_comments s0"
  show ?case
  proof (cases "?s = [] \<or> hd ?s = CHR '']''")
    case False
    then have pv: "parse_value n nxt ?s \<noteq> PMore"
      using ne by (auto simp: Let_def)
    show ?thesis
    proof (cases "parse_value n nxt ?s")
      case (POk v r)
      then show ?thesis
        using ne IH(1) [OF refl _ _ pv] IH(2) [OF refl _ _ POk refl] IH(3) [OF refl _ _ POk refl _ refl] False
        unfolding parse_array.simps(2) [of "Suc n" nxt xs s0] parse_array.simps(2) [of n nxt xs s0]
        by (auto simp: Let_def split: if_splits simp del: parse_array.simps parse_value.simps)
    qed (use pv IH(1) [OF refl _ _ pv] False in \<open>auto simp: Let_def\<close>)
  qed (auto simp: Let_def)
next
  case (6 n nxt kvs s0)
  note IH = "6.IH" and ne = "6.prems"
  show ?case
  proof (cases "parse_key_token (skip_ws_inline s0)")
    case (Some kr)
    obtain k r where kr: "kr = (k, r)" by fastforce
    let ?s = "skip_ws_inline (tl (skip_ws_inline r))"
    show ?thesis
    proof (cases "skip_ws_inline r = [] \<or> hd (skip_ws_inline r) \<noteq> CHR ''=''")
      case False
      then have pv: "parse_value n nxt ?s \<noteq> PMore" using ne Some kr by (auto simp: Let_def)
      note IH1 = IH(1) [OF Some kr [symmetric] refl False pv]
      show ?thesis
      proof (cases "parse_value n nxt ?s")
        case (POk v r2)
        then show ?thesis
          using ne IH1 IH(2) [OF Some kr [symmetric] refl False POk refl refl] Some kr False
          unfolding parse_inline_table.simps(2) [of "Suc n" nxt kvs s0] parse_inline_table.simps(2) [of n nxt kvs s0]
          by (auto simp: Let_def split: if_splits simp del: parse_inline_table.simps parse_value.simps)
      qed (use pv IH1 Some kr False in \<open>auto simp: Let_def\<close>)
    qed (use Some kr in \<open>auto simp: Let_def\<close>)
  qed auto
qed simp_all

lemma parse_fuel_mono:
  "n \<le> m \<Longrightarrow> parse_value n nxt s \<noteq> PMore \<Longrightarrow> parse_value m nxt s = parse_value n nxt s"
  "n \<le> m \<Longrightarrow> parse_array n nxt xs s \<noteq> PMore \<Longrightarrow> parse_array m nxt xs s = parse_array n nxt xs s"
  "n \<le> m \<Longrightarrow> parse_inline_table n nxt kvs s \<noteq> PMore \<Longrightarrow> parse_inline_table m nxt kvs s = parse_inline_table n nxt kvs s"
  by (induction m rule: dec_induct; simp add: parse_fuel_step del: parse_value.simps parse_array.simps parse_inline_table.simps)+

text \<open>Two runs that both return agree.\<close>

lemma parse_value_det:
  "parse_value n nxt s = POk v r \<Longrightarrow> parse_value m nxt s = PMore \<or> parse_value m nxt s = POk v r"
  using parse_fuel_mono(1) [of n m nxt s] parse_fuel_mono(1) [of m n nxt s]
  by (metis linear presult.distinct(3))

lemma ml_basic_body_shorter: "ml_basic_body nxt b s = Some (v, r) \<Longrightarrow> length r < length s"
proof (induction nxt b s rule: ml_basic_body.induct)
  case (2 nxt b c s)
  let ?q = "dropWhile blank s" and ?d = "dropWhile (\<lambda>x. blank x \<or> x = CHR 0x0A)"
  have q: "length (?d (tl ?q)) \<le> length s"
    using length_dropWhile_le [of "\<lambda>x. blank x \<or> x = CHR 0x0A" "tl ?q"] length_dropWhile_le [of blank s] by simp
  consider (cl) "ml_basic_closed nxt (c # s)" | (nl) "\<not> ml_basic_closed nxt (c # s)" "c = CHR 0x5C" "?q \<noteq> [] \<and> hd ?q = CHR 0x0A"
    | (esc) "\<not> ml_basic_closed nxt (c # s)" "c = CHR 0x5C" "\<not> (?q \<noteq> [] \<and> hd ?q = CHR 0x0A)"
    | (ch) "\<not> ml_basic_closed nxt (c # s)" "c \<noteq> CHR 0x5C" by blast
  then show ?case
  proof cases
    case cl
    then show ?thesis using "2.prems" by auto
  next
    case nl
    then show ?thesis using "2.IH"(1) [OF nl(1,2) refl nl(3)] "2.prems" q by simp
  next
    case esc
    then obtain e r' where e: "parse_escape (c # s) = Some (e, r')" "ml_basic_body nxt (b @ e) r' = Some (v, r)"
      using "2.prems" by (auto split: option.splits if_splits)
    then have "length r < length r'" using "2.IH"(2) [OF esc(1,2) refl esc(3) e(1) refl] by simp
    then show ?thesis using parse_escape_shorter [OF e(1)] by simp
  next
    case ch
    then show ?thesis using "2.IH"(3) [OF ch] "2.prems" by simp
  qed
qed simp

lemma ml_literal_body_shorter: "ml_literal_body nxt b s = Some (v, r) \<Longrightarrow> length r < length s"
  by (induction nxt b s rule: ml_literal_body.induct) (auto split: if_splits)

lemma skip_first_newline_len: "length (skip_first_newline s) \<le> length s"
  by (auto simp: skip_first_newline_def)

lemma string_node_shorter:
  assumes "c = CHR 0x22 \<or> c = CHR 0x27"
    and "string_node (if c = CHR 0x22 then if b then parse_multiline_basic nxt (c # s) else parse_basic_string (c # s)
                      else if b then parse_multiline_literal nxt (c # s) else parse_literal_string (c # s)) = POk v r"
  shows "length r < length (c # s)"
proof -
  have nl: "length (skip_first_newline (drop 2 s)) \<le> length s"
    using skip_first_newline_len [of "drop 2 s"] by simp
  show ?thesis using assms nl
    by (auto simp: string_node_def parse_multiline_basic_def parse_basic_string_def parse_multiline_literal_def
        parse_literal_string_def Let_def split: option.splits if_splits
        dest!: ml_basic_body_shorter basic_body_shorter ml_literal_body_shorter literal_body_shorter)
qed

lemma scalar_len: "length (snd (parse_scalar_token s)) \<le> length s"
  by (simp add: parse_scalar_token_def length_dropWhile_le)

lemma scalar_shorter: "s \<noteq> [] \<Longrightarrow> \<not> scalar_end (hd s) \<Longrightarrow> length (snd (parse_scalar_token s)) < length s"
  unfolding parse_scalar_token_def snd_conv by (rule dropWhile_taken) (cases s; simp)

lemma parse_shorter:
  "parse_value n nxt s = POk v r \<Longrightarrow>
     length r \<le> length s \<and> (skip_ws_inline s \<noteq> [] \<and> \<not> scalar_end (hd (skip_ws_inline s)) \<longrightarrow> length r < length s)"
  "parse_array n nxt xs s = POk v r \<Longrightarrow> length r < length s"
  "parse_inline_table n nxt kvs s = POk v r \<Longrightarrow> length r < length s"
proof (induction n nxt s and n nxt xs s and n nxt kvs s arbitrary: v r and v r and v r rule: parse_induct)
  case (2 n nxt s0)
  let ?s = "skip_ws_inline s0"
  note len = skip_ws_inline_len [of s0]
  obtain c t where s: "?s = c # t" using "2.prems" by (cases ?s) auto
  consider (str) "c = CHR 0x22 \<or> c = CHR 0x27" | (arr) "c = CHR ''[''" | (tab) "c = CHR ''{''"
    | (sc) "c \<notin> {CHR 0x22, CHR 0x27, CHR ''['', CHR ''{''}" by blast
  then show ?case
  proof cases
    case str
    let ?b = "2 < length ?s \<and> ?s ! 1 = c \<and> ?s ! 2 = c"
    have "length r < length (c # t)"
      by (rule string_node_shorter [OF str, of ?b nxt t v r])
        (use "2.prems" str s in \<open>auto simp: Let_def split: if_splits\<close>)
    then show ?thesis using s len by simp
  next
    case arr
    then have "parse_array n nxt [] t = POk v r" using "2.prems" s by (simp add: Let_def)
    then have "length r < length t" using "2.IH"(1) [OF refl s] arr by simp
    then show ?thesis using s len by simp
  next
    case tab
    show ?thesis
    proof (cases "skip_ws_inline t \<noteq> [] \<and> hd (skip_ws_inline t) = CHR ''}''")
      case True
      then show ?thesis using "2.prems" s tab len skip_ws_inline_len [of t] by (auto simp: Let_def)
    next
      case False
      then have "parse_inline_table n nxt [] (skip_ws_inline t) = POk v r" using "2.prems" s tab by (auto simp: Let_def)
      then have "length r < length (skip_ws_inline t)" using "2.IH"(2) [OF refl s _ _ _ _ refl False] tab by simp
      then show ?thesis using s len skip_ws_inline_len [of t] by simp
    qed
  next
    case sc
    then have "r = snd (parse_scalar_token ?s)" using "2.prems" s by (auto simp: Let_def split: prod.splits)
    then show ?thesis using scalar_len [of ?s] scalar_shorter [of ?s] len s by auto
  qed
next
  case (4 n nxt xs s0)
  let ?s = "skip_ws_and_comments s0"
  note len = skip_ws_and_comments_len [of s0]
  show ?case
  proof (cases "?s = [] \<or> hd ?s = CHR '']''")
    case True
    then show ?thesis using "4.prems" len by (cases ?s) (auto simp: Let_def)
  next
    case False
    then obtain v1 r1 where pv: "parse_value n nxt ?s = POk v1 r1"
      using "4.prems" by (auto simp: Let_def split: presult.splits)
    let ?s1 = "skip_ws_and_comments r1"
    have l1: "length r1 \<le> length ?s" using "4.IH"(1) [OF refl _ _ pv] False by simp
    have l2: "length ?s1 \<le> length r1" by (rule skip_ws_and_comments_len)
    show ?thesis
    proof (cases "?s1 \<noteq> [] \<and> hd ?s1 = CHR '',''")
      case True
      then have "parse_array n nxt (xs @ [v1]) (tl ?s1) = POk v r" using "4.prems" False pv by (simp add: Let_def)
      then have "length r < length (tl ?s1)" using "4.IH"(2) [OF refl _ _ pv refl True] False by simp
      then show ?thesis using l1 l2 len by simp
    next
      case nc: False
      show ?thesis
      proof (cases "?s1 \<noteq> [] \<and> hd ?s1 = CHR '']''")
        case True
        then show ?thesis using "4.prems" False pv l1 l2 len by (cases ?s1) (auto simp: Let_def)
      next
        case nb: False
        then have "parse_array n nxt (xs @ [v1]) ?s1 = POk v r" using "4.prems" False pv nc by (auto simp: Let_def)
        then have "length r < length ?s1" using "4.IH"(3) [OF refl _ _ pv refl nc refl] False nb by simp
        then show ?thesis using l1 l2 len by simp
      qed
    qed
  qed
next
  case (6 n nxt kvs s0)
  obtain k r0 where k: "parse_key_token (skip_ws_inline s0) = Some (k, r0)"
    using "6.prems" by (auto split: option.splits)
  let ?s1 = "skip_ws_inline r0"
  have eq: "?s1 \<noteq> []" "hd ?s1 = CHR ''=''" using "6.prems" k by (auto simp: Let_def split: if_splits)
  obtain v1 r1 where pv: "parse_value n nxt (skip_ws_inline (tl ?s1)) = POk v1 r1"
    using "6.prems" k eq by (auto simp: Let_def split: presult.splits)
  have "length r1 \<le> length (skip_ws_inline (tl ?s1))" using "6.IH"(1) [OF k refl refl _ pv] eq by simp
  also have "\<dots> \<le> length (tl ?s1)" by (rule skip_ws_inline_len)
  also have "\<dots> < length s0"
    using parse_key_token_shorter [OF k] skip_ws_inline_len [of s0] skip_ws_inline_len [of r0] eq(1)
    by (cases ?s1) auto
  finally have l: "length r1 < length s0" .
  let ?s2 = "skip_ws_inline r1"
  have l2: "length ?s2 \<le> length r1" by (rule skip_ws_inline_len)
  show ?case
  proof (cases "?s2 \<noteq> [] \<and> hd ?s2 = CHR '',''")
    case True
    then have "parse_inline_table n nxt (table_set k v1 kvs) (tl ?s2) = POk v r" using "6.prems" k eq pv by (simp add: Let_def)
    then have "length r < length (tl ?s2)" using "6.IH"(2) [OF k refl refl _ pv refl refl True] eq by simp
    then show ?thesis using l l2 by simp
  next
    case False
    then show ?thesis using "6.prems" k eq pv l l2 by (auto simp: Let_def split: if_splits)
  qed
qed simp_all

section \<open>The fuel decides\<close>

text \<open>In front of a closing brace the loop of \<^verbatim>\<open>parse_array\<close> adds empty strings for ever.\<close>

lemma parse_value_brace: "parse_value (Suc n) nxt (CHR ''}'' # t) = POk (TString []) (CHR ''}'' # t)"
  by (simp add: skip_ws_inline_def ws_inline_def parse_scalar_token_def scalar_end_def scalar_node_def
      scalar_is_int_def c_str_def)

lemma parse_array_stuck: "skip_ws_and_comments s = CHR ''}'' # t \<Longrightarrow> parse_array n nxt xs s = PMore"
proof (induction n arbitrary: xs s)
  case (Suc n)
  have "parse_array n nxt (xs @ [TString []]) (CHR ''}'' # t) = PMore" by (rule Suc.IH) simp
  then show ?case using Suc.prems by (cases n) (simp_all add: Let_def parse_value_brace del: parse_value.simps(2) parse_array.simps(2) add: parse_array.simps(2) [of _ nxt xs s])
qed simp

lemma parse_value_more_or:
  assumes "parse_value n nxt s = POk v r"
  obtains "parse_value m nxt s = PMore" | "parse_value m nxt s = POk v r"
  using parse_value_det [OF assms, of m] by blast

text \<open>Anywhere else an element that is not followed by a comma has used up some of the text.\<close>

lemma array_progress:
  assumes ns: "skip_ws_and_comments s0 \<noteq> []" "hd (skip_ws_and_comments s0) \<noteq> CHR '']''" "hd (skip_ws_and_comments s0) \<noteq> CHR ''}''"
    and pv: "parse_value (Suc n) nxt (skip_ws_and_comments s0) = POk v r"
    and nc: "\<not> (skip_ws_and_comments r \<noteq> [] \<and> hd (skip_ws_and_comments r) = CHR '','')"
  shows "length r < length (skip_ws_and_comments s0)"
proof -
  let ?s = "skip_ws_and_comments s0"
  have sk: "skip_ws_inline ?s = ?s" using ns(1) by (cases ?s) (auto simp: skip_ws_inline_skipped)
  show ?thesis
  proof (cases "hd ?s = CHR '',''")
    case True
    then obtain t where t: "?s = CHR '','' # t" using ns(1) by (cases ?s) auto
    have "r = ?s" using pv t sk by (auto simp: Let_def parse_scalar_token_def scalar_end_def)
    then show ?thesis using nc t by auto
  next
    case False
    have "hd ?s \<notin> {CHR '' '', CHR 0x09, CHR 0x0D, CHR 0x0A, CHR ''#''}"
      using skip_ws_and_comments_hd [of s0] ns(1) by (cases ?s) auto
    then have "\<not> scalar_end (hd ?s)" using ns False by (auto simp: scalar_end_def)
    then show ?thesis using parse_shorter(1) [OF pv] ns(1) sk by simp
  qed
qed

lemma parse_fuel_decides:
  "parse_value n nxt s = PMore \<Longrightarrow> 2 * length s + 1 \<le> n \<Longrightarrow> parse_value m nxt s = PMore"
  "parse_array n nxt xs s = PMore \<Longrightarrow> 2 * length s + 2 \<le> n \<Longrightarrow> parse_array m nxt ys s = PMore"
  "parse_inline_table n nxt kvs s = PMore \<Longrightarrow> 2 * length s + 2 \<le> n \<Longrightarrow> parse_inline_table m nxt lvs s = PMore"
proof (induction n nxt s and n nxt xs s and n nxt kvs s arbitrary: m and m ys and m lvs rule: parse_induct)
  case (2 n nxt s0)
  let ?s = "skip_ws_inline s0"
  note len = skip_ws_inline_len [of s0]
  obtain c t where s: "?s = c # t" using "2.prems" by (cases ?s) auto
  show ?case
  proof (cases m)
    case (Suc m')
    consider (arr) "c = CHR ''[''" "parse_array n nxt [] t = PMore"
      | (tab) "c = CHR ''{''" "\<not> (skip_ws_inline t \<noteq> [] \<and> hd (skip_ws_inline t) = CHR ''}'')"
          "parse_inline_table n nxt [] (skip_ws_inline t) = PMore"
      using "2.prems"(1) s by (auto simp: Let_def string_node_def split: if_splits option.splits prod.splits)
    then show ?thesis
    proof cases
      case arr
      then have "parse_array m' nxt [] t = PMore" using "2.IH"(1) [OF refl s] "2.prems"(2) s len by simp
      then show ?thesis using s arr Suc by (simp add: Let_def)
    next
      case tab
      then have "parse_inline_table m' nxt [] (skip_ws_inline t) = PMore"
        using "2.IH"(2) [OF refl s _ _ _ _ refl tab(2)] "2.prems"(2) s len skip_ws_inline_len [of t] by simp
      then show ?thesis using s tab Suc by (auto simp: Let_def)
    qed
  qed simp
next
  case (4 n nxt xs s0)
  let ?s = "skip_ws_and_comments s0"
  note len = skip_ws_and_comments_len [of s0]
  have ns: "?s \<noteq> []" "hd ?s \<noteq> CHR '']''" using "4.prems"(1) by (auto simp: Let_def split: if_splits)
  show ?case
  proof (cases m)
    case (Suc m')
    show ?thesis
    proof (cases "parse_value n nxt ?s")
      case PMore
      then have "parse_value m' nxt ?s = PMore" using "4.IH"(1) [OF refl _ _ PMore] ns "4.prems"(2) len by simp
      then show ?thesis using Suc ns by (simp add: Let_def)
    next
      case (POk v r)
      let ?s1 = "skip_ws_and_comments r"
      have l1: "length ?s1 \<le> length r" by (rule skip_ws_and_comments_len)
      note l0 = parse_shorter(1) [OF POk]
      from POk show ?thesis
      proof (rule parse_value_more_or [of n nxt ?s v r m'])
        assume "parse_value m' nxt ?s = PMore"
        then show ?thesis using Suc ns by (simp add: Let_def)
      next
        assume pv: "parse_value m' nxt ?s = POk v r"
        show ?thesis
        proof (cases "?s1 \<noteq> [] \<and> hd ?s1 = CHR '',''")
          case True
          then have "parse_array n nxt (xs @ [v]) (tl ?s1) = PMore" using "4.prems"(1) ns POk by (simp add: Let_def)
          moreover have "length (tl ?s1) < length ?s1" using True by (cases ?s1) auto
          ultimately have "parse_array m' nxt (ys @ [v]) (tl ?s1) = PMore"
            using "4.IH"(2) [OF refl _ _ POk refl True] ns "4.prems"(2) len l0 l1 by simp
          then show ?thesis using Suc ns pv True by (simp add: Let_def)
        next
          case nc: False
          then have nb: "\<not> (?s1 \<noteq> [] \<and> hd ?s1 = CHR '']'')" and more: "parse_array n nxt (xs @ [v]) ?s1 = PMore"
            using "4.prems"(1) ns POk by (auto simp: Let_def split: if_splits)
          show ?thesis
          proof (cases "hd ?s = CHR ''}''")
            case True
            then obtain t where "?s = CHR ''}'' # t" using ns(1) by (cases ?s) auto
            then show ?thesis by (rule parse_array_stuck)
          next
            case False
            from "4.prems"(2) obtain n' where "n = Suc n'" by (cases n) auto
            then have "length r < length ?s" using array_progress [of s0 n' nxt v r] ns False POk nc by simp
            then have "parse_array m' nxt (ys @ [v]) ?s1 = PMore"
              using "4.IH"(3) [OF refl _ _ POk refl nc refl] nb ns "4.prems"(2) len l1 more by simp
            then show ?thesis using Suc ns pv nc nb by (auto simp: Let_def)
          qed
        qed
      qed
    qed (use "4.prems"(1) ns in \<open>auto simp: Let_def\<close>)
  qed simp
next
  case (6 n nxt kvs s0)
  obtain k r0 where k: "parse_key_token (skip_ws_inline s0) = Some (k, r0)"
    using "6.prems"(1) by (auto split: option.splits)
  let ?s1 = "skip_ws_inline r0"
  have eq: "?s1 \<noteq> []" "hd ?s1 = CHR ''=''" using "6.prems"(1) k by (auto simp: Let_def split: if_splits)
  let ?s = "skip_ws_inline (tl ?s1)"
  have l: "length ?s < length s0"
    using parse_key_token_shorter [OF k] skip_ws_inline_len [of s0] skip_ws_inline_len [of r0]
      skip_ws_inline_len [of "tl ?s1"] eq(1) by (cases ?s1) auto
  show ?case
  proof (cases m)
    case (Suc m')
    show ?thesis
    proof (cases "parse_value n nxt ?s")
      case PMore
      then have "parse_value m' nxt ?s = PMore" using "6.IH"(1) [OF k refl refl _ PMore] eq "6.prems"(2) l by simp
      then show ?thesis using Suc k eq by (simp add: Let_def)
    next
      case (POk v r)
      let ?s2 = "skip_ws_inline r"
      note l1 = parse_shorter(1) [OF POk] and l2 = skip_ws_inline_len [of r]
      from POk show ?thesis
      proof (rule parse_value_more_or [of n nxt ?s v r m'])
        assume "parse_value m' nxt ?s = PMore"
        then show ?thesis using Suc k eq by (simp add: Let_def)
      next
        assume pv: "parse_value m' nxt ?s = POk v r"
        have c: "?s2 \<noteq> [] \<and> hd ?s2 = CHR '',''" and more: "parse_inline_table n nxt (table_set k v kvs) (tl ?s2) = PMore"
          using "6.prems"(1) k eq POk by (auto simp: Let_def split: if_splits)
        have "2 * length (tl ?s2) + 2 \<le> n" using c "6.prems"(2) l l1 l2 by (cases ?s2) auto
        then have "parse_inline_table m' nxt (table_set k v lvs) (tl ?s2) = PMore"
          using "6.IH"(2) [OF k refl refl _ POk refl refl c] eq more by simp
        then show ?thesis using Suc k eq pv c by (simp add: Let_def)
      qed
    qed (use "6.prems"(1) k eq in \<open>auto simp: Let_def\<close>)
  qed simp
qed simp_all

section \<open>Documents\<close>

lemma parse_dotted_path_shorter: "parse_dotted_path s = Some (ks, r) \<Longrightarrow> length r < length s"
proof (induction s arbitrary: ks r rule: parse_dotted_path.induct)
  case (1 s)
  obtain k r0 where k: "parse_key_token s = Some (k, r0)"
    using 1 by (auto simp: parse_dotted_path.simps [of s] split: option.splits)
  note l = parse_key_token_shorter [OF k] skip_ws_inline_len [of r0]
  show ?case
  proof (cases "skip_ws_inline r0 \<noteq> [] \<and> hd (skip_ws_inline r0) = CHR ''.''")
    case True
    then obtain ks' where "parse_dotted_path (tl (skip_ws_inline r0)) = Some (ks', r)"
      using 1 k by (auto simp: parse_dotted_path.simps [of s] Let_def split: option.splits)
    then have "length r < length (tl (skip_ws_inline r0))" using "1.IH" [OF k refl refl True] by simp
    then show ?thesis using l by simp
  next
    case False
    then show ?thesis using 1 k l by (auto simp: parse_dotted_path.simps [of s] Let_def)
  qed
qed

lemma skip_line_len: "length (skip_line s) \<le> length s"
  by (simp add: skip_line_def length_dropWhile_le)

lemma header_step_shorter:
  assumes "header_step root s = Some (cur, root', r)" "s \<noteq> []" shows "length r < length s"
proof -
  let ?t = "if tl s \<noteq> [] \<and> hd (tl s) = CHR ''['' then tl (tl s) else tl s"
  obtain ks r0 where d: "parse_dotted_path ?t = Some (ks, r0)"
    using assms(1) by (auto simp: header_step_def Let_def split: option.splits)
  have "length r \<le> length (skip_ws_inline r0)" using assms(1) d by (auto simp: header_step_def Let_def)
  also have "\<dots> \<le> length r0" by (rule skip_ws_inline_len)
  also have "\<dots> < length s" using parse_dotted_path_shorter [OF d] assms(2) by (auto split: if_splits)
  finally show ?thesis .
qed

lemma assign_step_shorter: "assign_step n nxt cur root s = POk root' r \<Longrightarrow> length r < length s"
proof -
  assume a: "assign_step n nxt cur root s = POk root' r"
  obtain ks r0 where d: "parse_dotted_path s = Some (ks, r0)" using a by (auto simp: assign_step_def split: option.splits)
  obtain v r2 where pv: "parse_value n nxt (tl (skip_ws_inline r0)) = POk v r2"
    using a d by (auto simp: assign_step_def Let_def split: presult.splits if_splits)
  have "length r \<le> length r2"
    using a d pv skip_ws_inline_len [of r2] skip_line_len [of "skip_ws_inline r2"]
    by (auto simp: assign_step_def Let_def split: if_splits option.splits)
  then show ?thesis
    using parse_shorter(1) [OF pv] skip_ws_inline_len [of r0] parse_dotted_path_shorter [OF d] by simp linarith
qed

lemma assign_step_decides:
  assumes "assign_step n nxt cur root s = PMore" "2 * length s + 1 \<le> n"
  shows "assign_step m nxt cur root s = PMore"
proof -
  obtain ks r0 where d: "parse_dotted_path s = Some (ks, r0)" using assms(1) by (auto simp: assign_step_def split: option.splits)
  have eq: "\<not> (skip_ws_inline r0 = [] \<or> hd (skip_ws_inline r0) \<noteq> CHR ''='')"
    using assms(1) d by (auto simp: assign_step_def Let_def split: if_splits)
  then have "parse_value n nxt (tl (skip_ws_inline r0)) = PMore"
    using assms(1) d by (auto simp: assign_step_def Let_def split: presult.splits option.splits if_splits)
  then have "parse_value m nxt (tl (skip_ws_inline r0)) = PMore"
    by (rule parse_fuel_decides(1)) (use assms(2) parse_dotted_path_shorter [OF d] skip_ws_inline_len [of r0] in simp)
  then show ?thesis using d eq by (simp add: assign_step_def Let_def)
qed

lemma assign_step_mono:
  "n \<le> m \<Longrightarrow> assign_step n nxt cur root s \<noteq> PMore \<Longrightarrow> assign_step m nxt cur root s = assign_step n nxt cur root s"
proof (cases "parse_dotted_path s")
  case (Some kr)
  assume a: "n \<le> m" "assign_step n nxt cur root s \<noteq> PMore"
  obtain ks r0 where kr: "kr = (ks, r0)" by fastforce
  show ?thesis
  proof (cases "skip_ws_inline r0 = [] \<or> hd (skip_ws_inline r0) \<noteq> CHR ''=''")
    case False
    then have "parse_value n nxt (tl (skip_ws_inline r0)) \<noteq> PMore" using a(2) Some kr by (auto simp: assign_step_def Let_def)
    then show ?thesis using Some kr False parse_fuel_mono(1) [OF a(1)] by (simp add: assign_step_def Let_def)
  qed (use Some kr in \<open>auto simp: assign_step_def Let_def\<close>)
qed (simp add: assign_step_def)

lemma assign_step_det:
  "assign_step n nxt cur root s = POk root' r \<Longrightarrow>
     assign_step m nxt cur root s = PMore \<or> assign_step m nxt cur root s = POk root' r"
  using assign_step_mono [of n m nxt cur root s] assign_step_mono [of m n nxt cur root s]
  by (metis linear presult.distinct(3))

lemma toml_loop_mono:
  "n \<le> m \<Longrightarrow> toml_loop n nxt cur root s \<noteq> PMore \<Longrightarrow> toml_loop m nxt cur root s = toml_loop n nxt cur root s"
proof (induction n arbitrary: m cur root s)
  case (Suc n)
  then obtain m' where m: "m = Suc m'" "n \<le> m'" by (cases m) auto
  let ?s = "skip_ws_and_comments s"
  show ?case
  proof (cases "?s = []")
    case ne: False
    show ?thesis
    proof (cases "hd ?s = CHR ''[''")
      case True
      show ?thesis
      proof (cases "header_step root ?s")
        case (Some h)
        obtain cur' root' r where h: "h = (cur', root', r)" by (cases h) auto
        then have "toml_loop n nxt cur' root' r \<noteq> PMore" using Suc.prems ne True Some by (simp add: Let_def)
        from Suc.IH [OF m(2) this] show ?thesis using m(1) ne True Some h by (simp add: Let_def)
      qed (use m(1) ne True in \<open>simp add: Let_def\<close>)
    next
      case False
      then have a: "assign_step n nxt cur root ?s \<noteq> PMore" using Suc.prems ne by (auto simp: Let_def)
      note b = assign_step_mono [OF m(2) a]
      show ?thesis
      proof (cases "assign_step n nxt cur root ?s")
        case (POk root' r)
        then have "toml_loop n nxt cur root' r \<noteq> PMore" using Suc.prems ne False by (simp add: Let_def)
        from Suc.IH [OF m(2) this] show ?thesis using m(1) ne False POk b by (simp add: Let_def)
      qed (use m(1) ne False a b in \<open>simp_all add: Let_def\<close>)
    qed
  qed (use m(1) in \<open>simp add: Let_def\<close>)
qed simp

lemma toml_loop_decides:
  "toml_loop n nxt cur root s = PMore \<Longrightarrow> 2 * length s + 2 \<le> n \<Longrightarrow> toml_loop m nxt cur root s = PMore"
proof (induction n arbitrary: m cur root s)
  case (Suc n)
  let ?s = "skip_ws_and_comments s"
  note len = skip_ws_and_comments_len [of s]
  have ne: "?s \<noteq> []" using Suc.prems(1) by (auto simp: Let_def)
  show ?case
  proof (cases m)
    case m: (Suc m')
    show ?thesis
    proof (cases "hd ?s = CHR ''[''")
      case True
      then obtain cur' root' r where h: "header_step root ?s = Some (cur', root', r)" "toml_loop n nxt cur' root' r = PMore"
        using Suc.prems(1) ne by (auto simp: Let_def split: option.splits)
      then have "toml_loop m' nxt cur' root' r = PMore"
        using Suc.IH [OF h(2)] header_step_shorter [OF h(1) ne] Suc.prems(2) len by simp
      then show ?thesis using m ne True h(1) by (simp add: Let_def)
    next
      case False
      then consider (more) "assign_step n nxt cur root ?s = PMore"
        | (ok) root' r where "assign_step n nxt cur root ?s = POk root' r" "toml_loop n nxt cur root' r = PMore"
        using Suc.prems(1) ne by (auto simp: Let_def split: presult.splits)
      then show ?thesis
      proof cases
        case more
        then have "assign_step m' nxt cur root ?s = PMore" by (rule assign_step_decides) (use Suc.prems(2) len in simp)
        then show ?thesis using m ne False by (simp add: Let_def)
      next
        case ok
        then have "toml_loop m' nxt cur root' r = PMore"
          using Suc.IH [OF ok(2)] assign_step_shorter [OF ok(1)] Suc.prems(2) len by simp
        then show ?thesis using m ne False assign_step_det [OF ok(1), of m'] by (auto simp: Let_def)
      qed
    qed
  qed simp
qed simp


text \<open>
  There are texts on which it never returns: an array with a closing brace in the place of an
  element.
\<close>

theorem toml_array_brace_hangs: "salt_toml_parse nxt (''a = ['' @ CHR ''}'' # rest) = None"
proof -
  let ?t = "''a = ['' @ CHR ''}'' # rest"
  have dp: "parse_dotted_path ?t = Some ([''a''], ''= ['' @ CHR ''}'' # rest)"
    by (subst parse_dotted_path.simps) (simp add: parse_key_token_def skip_ws_inline_def ws_inline_def Let_def key_char_def
        isalnum_def isdigit_def islower_def isupper_def)
  have pv: "parse_value (Suc n) nxt ('' ['' @ CHR ''}'' # rest) = PMore" for n
    unfolding parse_value.simps(2)
    by (simp add: skip_ws_inline_def ws_inline_def Let_def parse_array_stuck del: parse_array.simps)
  have a: "assign_step (Suc n) nxt [] [] ?t = PMore" for n
    using pv [of n] unfolding assign_step_def dp
    by (simp add: skip_ws_inline_def ws_inline_def Let_def del: parse_value.simps)
  have "toml_loop (Suc (Suc n)) nxt [] [] ?t = PMore" for n
    unfolding toml_loop.simps(2) [of "Suc n"] using a [of n] by simp
  from this [of "toml_fuel ?t - 2"] show ?thesis
    by (simp add: salt_toml_parse_def toml_fuel_def del: toml_loop.simps)
qed

end
