(* ===== verification/Salt_Toml_Write.thy ===== *)
theory Salt_Toml_Write
  imports Salt_Toml_Parse Salt_Archive
begin

text \<open>
  Writing package metadata and manifests (\<^verbatim>\<open>src/halite/src/pkg.c\<close>: \<^verbatim>\<open>toml_escape\<close>, \<^verbatim>\<open>emit_str_array\<close>,
  \<^verbatim>\<open>salt_pkg_meta_to_toml\<close>, \<^verbatim>\<open>salt_manifest_to_toml\<close>), and the rules by which a printed document is read
  back.  \<open>toml_reads nxt cur root s t\<close> says that the reader, at the text \<open>s\<close> with the tables read so far in
  \<open>root\<close> and the current table at the path \<open>cur\<close>, ends with \<open>t\<close>; \<open>val_reads nxt s v\<close> that \<open>s\<close> followed by the
  end of the line is the value \<open>v\<close>.
\<close>

abbreviation NL :: char where "NL \<equiv> CHR 0x0A"
abbreviation DQ :: char where "DQ \<equiv> CHR 0x22"

section \<open>The writers\<close>

definition escape_char :: "char \<Rightarrow> string" where
  "escape_char c =
     (if c = DQ \<or> c = CHR 0x5C then [CHR 0x5C, c]
      else if c = NL then [CHR 0x5C, CHR ''n'']
      else if c = CHR 0x09 then [CHR 0x5C, CHR ''t'']
      else if c = CHR 0x0D then [CHR 0x5C, CHR ''r'']
      else [c])"

definition toml_escape :: "string \<Rightarrow> string" where
  "toml_escape s = DQ # concat (map escape_char s) @ [DQ]"

fun comma_sep :: "string list \<Rightarrow> string" where
  "comma_sep [] = []"
| "comma_sep [s] = s"
| "comma_sep (s # t # ts) = s @ '', '' @ comma_sep (t # ts)"

definition str_array :: "(string \<Rightarrow> string) \<Rightarrow> string list \<Rightarrow> string" where
  "str_array quote l = ''['' @ comma_sep (map quote l) @ '']''"

definition emit_str_array :: "string \<Rightarrow> string list \<Rightarrow> string" where
  "emit_str_array key l = key @ '' = '' @ str_array toml_escape l @ [NL]"

definition emit_kv :: "string \<Rightarrow> string \<Rightarrow> string" where
  "emit_kv key v = key @ '' = '' @ v @ [NL]"

definition emit_hooks :: "salt_pkg_meta \<Rightarrow> string" where
  "emit_hooks m =
     (let ks = filter (\<lambda>k. pm_hooks m k \<noteq> None) hook_kinds
      in if ks = [] then []
         else NL # ''[hooks]'' @ NL # concat (map (\<lambda>k. emit_kv (salt_hook_name k) (toml_escape (the (pm_hooks m k)))) ks))"

definition salt_pkg_meta_to_toml :: "salt_pkg_meta \<Rightarrow> string" where
  "salt_pkg_meta_to_toml m =
     emit_kv ''name'' (toml_escape (pm_name m)) @
     emit_kv ''version'' (toml_escape (pm_version m)) @
     emit_kv ''release'' (int_to_string (pm_release m)) @
     emit_kv ''arch'' (toml_escape (pm_arch m)) @
     emit_kv ''summary'' (toml_escape (pm_summary m)) @
     emit_kv ''license'' (toml_escape (pm_license m)) @
     emit_str_array ''deps'' (pm_deps m) @
     (if pm_conflicts m = [] then [] else emit_str_array ''conflicts'' (pm_conflicts m)) @
     NL # ''[reproducibility]'' @ NL # emit_kv ''status'' (toml_escape (pm_repro_status m)) @
     (case pm_repro_reason m of
        None \<Rightarrow> []
      | Some r \<Rightarrow> if r = [] then [] else emit_kv ''reason'' (toml_escape r)) @
     emit_hooks m"

text \<open>\<^verbatim>\<open>%04o\<close>\<close>

fun octal_digits :: "nat \<Rightarrow> string" where
  "octal_digits n = (if n < 8 then [char_of (48 + n)] else octal_digits (n div 8) @ [char_of (48 + n mod 8)])"

declare octal_digits.simps [simp del]

definition octal4 :: "nat \<Rightarrow> string" where
  "octal4 n = (let d = octal_digits n in replicate (4 - length d) CHR ''0'' @ d)"

definition manifest_entry_to_toml :: "salt_manifest_entry \<Rightarrow> string" where
  "manifest_entry_to_toml e =
     ''[[file]]'' @ NL # emit_kv ''path'' (toml_escape (me_path e)) @
     emit_kv ''type'' (DQ # (if me_typeflag e = CHR 0x00 then CHR ''0'' else me_typeflag e) # [DQ]) @
     emit_kv ''mode'' (DQ # octal4 (me_mode e mod 4096) @ [DQ]) @
     emit_kv ''size'' (nat_digits (me_size e)) @
     (case me_sha256 e of None \<Rightarrow> [] | Some h \<Rightarrow> if h = [] then [] else emit_kv ''sha256'' (DQ # h @ [DQ])) @
     (case me_linkname e of None \<Rightarrow> [] | Some l \<Rightarrow> if l = [] then [] else emit_kv ''linkname'' (toml_escape l)) @
     [NL]"

definition salt_manifest_to_toml :: "salt_manifest \<Rightarrow> string" where
  "salt_manifest_to_toml m = concat (map manifest_entry_to_toml m)"

section \<open>Reading values back\<close>

lemma basic_body_escaped: "basic_body b (concat (map escape_char s) @ DQ # rest) = Some (b @ s, rest)"
proof (induction s arbitrary: b)
  case (Cons c s)
  show ?case using Cons.IH [of "b @ [c]"]
    by (cases "c = DQ \<or> c = CHR 0x5C \<or> c = NL \<or> c = CHR 0x09 \<or> c = CHR 0x0D")
      (auto simp: escape_char_def parse_escape_def)
qed simp

definition plain_string :: "string \<Rightarrow> bool" where
  "plain_string s \<longleftrightarrow> list_all (\<lambda>c. c \<noteq> DQ \<and> c \<noteq> CHR 0x5C \<and> c \<noteq> NL \<and> c \<noteq> CHR 0x00) s"

lemma basic_body_plain: "plain_string s \<Longrightarrow> basic_body b (s @ DQ # rest) = Some (b @ s, rest)"
  by (induction s arbitrary: b) (auto simp: plain_string_def)

definition no_nul :: "string \<Rightarrow> bool" where
  "no_nul s \<longleftrightarrow> list_all (\<lambda>c. c \<noteq> CHR 0x00) s"

lemma c_str_no_nul [simp]: "no_nul s \<Longrightarrow> c_str s = s"
  by (induction s) (auto simp: no_nul_def c_str_def)

lemma plain_no_nul: "plain_string s \<Longrightarrow> no_nul s"
  by (auto simp: plain_string_def no_nul_def list_all_iff)

text \<open>A quoted string that is followed by something other than a quote.\<close>

lemma parse_value_quoted:
  assumes body: "\<And>b. basic_body b (q @ DQ # rest) = Some (b @ s, rest)" and "no_nul s"
    and "q = [] \<or> hd q \<noteq> DQ" "rest = [] \<or> hd rest \<noteq> DQ" and ws: "list_all ws_inline w"
  shows "parse_value (Suc n) nxt (w @ DQ # q @ DQ # rest) = POk (TString s) rest"
proof -
  let ?s = "DQ # q @ DQ # rest"
  have "\<not> (2 < length ?s \<and> ?s ! 1 = DQ \<and> ?s ! 2 = DQ)"
    using assms(3,4) by (cases q; cases rest) auto
  moreover have "skip_ws_inline (w @ ?s) = ?s"
    using ws by (induction w) (auto simp: skip_ws_inline_def ws_inline_def)
  moreover have "parse_basic_string ?s = Some (s, rest)" using body [of "[]"] assms(2) by (simp add: parse_basic_string_def)
  ultimately show ?thesis by (auto simp: Let_def string_node_def)
qed

lemma escaped_hd: "concat (map escape_char s) = [] \<or> hd (concat (map escape_char s)) \<noteq> DQ"
  by (cases s) (auto simp: escape_char_def)

lemma parse_value_escaped:
  "no_nul s \<Longrightarrow> rest = [] \<or> hd rest \<noteq> DQ \<Longrightarrow> list_all ws_inline w \<Longrightarrow>
     parse_value (Suc n) nxt (w @ toml_escape s @ rest) = POk (TString s) rest"
  using parse_value_quoted [of "concat (map escape_char s)" rest s w n nxt, OF basic_body_escaped _ escaped_hd]
  by (simp add: toml_escape_def)

lemma parse_value_plain:
  "plain_string s \<Longrightarrow> rest = [] \<or> hd rest \<noteq> DQ \<Longrightarrow> list_all ws_inline w \<Longrightarrow>
     parse_value (Suc n) nxt (w @ DQ # s @ DQ # rest) = POk (TString s) rest"
  using parse_value_quoted [of s rest s w n nxt, OF basic_body_plain plain_no_nul]
  by (cases s) (auto simp: plain_string_def)

text \<open>An array of strings, for any quoting that reads back.\<close>

lemma parse_array_space: "parse_array n nxt xs (CHR '' '' # s) = parse_array n nxt xs s"
  by (cases n) simp_all

lemma parse_array_strings:
  assumes q: "\<And>x n rest. x \<in> set l \<Longrightarrow> rest \<noteq> [] \<Longrightarrow> hd rest \<noteq> DQ \<Longrightarrow> parse_value (Suc n) nxt (quote x @ rest) = POk (TString x) rest"
    and hd: "\<And>x. \<exists>t. quote x = DQ # t"
  shows "parse_array (Suc (Suc (length l))) nxt xs (comma_sep (map quote l) @ '']'' @ rest) = POk (TArray (xs @ map TString l)) rest"
  using q
proof (induction l arbitrary: xs)
  case (Cons x l)
  obtain t where t: "quote x = DQ # t" using hd by blast
  show ?case
  proof (cases l)
    case Nil
    have "parse_value (Suc (Suc 0)) nxt (quote x @ '']'' @ rest) = POk (TString x) ('']'' @ rest)"
      by (rule Cons.prems) auto
    then show ?thesis
      unfolding parse_array.simps(2) [of _ nxt xs] using Nil t by (simp add: Let_def del: parse_value.simps)
  next
    case (Cons y l')
    let ?r = "comma_sep (map quote l) @ '']'' @ rest"
    have pv: "parse_value (Suc (Suc (length l))) nxt (quote x @ '', '' @ ?r) = POk (TString x) ('', '' @ ?r)"
      by (rule Cons.prems) auto
    have "parse_array (Suc (Suc (length l))) nxt (xs @ [TString x]) (CHR '' '' # ?r) =
        POk (TArray ((xs @ [TString x]) @ map TString l)) rest"
      unfolding parse_array_space by (rule Cons.IH) (use Cons.prems in auto)
    then show ?thesis
      unfolding parse_array.simps(2) [of _ nxt xs] using Cons t pv
      by (simp add: Let_def del: parse_value.simps parse_array.simps)
  qed
qed (simp add: Let_def)

section \<open>Numbers\<close>

lemma isdigit_char_of: "(n :: nat) < 10 \<Longrightarrow> isdigit (char_of (48 + n))"
  by (simp add: isdigit_def of_char_of)

lemma nat_digits_digits: "list_all isdigit (nat_digits n)"
  by (induction n rule: nat_digits.induct) (subst nat_digits.simps, auto simp: isdigit_char_of)

lemma nat_digits_nonempty [simp]: "nat_digits n \<noteq> []"
  by (subst nat_digits.simps) simp

lemma nat_digits_val: "foldl (\<lambda>v c. 10 * v + (int (of_char c) - 48)) 0 (nat_digits n) = int n"
proof (induction n rule: nat_digits.induct)
  case (1 n)
  have c: "int (of_char (char_of (48 + m) :: char)) = 48 + int m" if "m < 10" for m :: nat
    using that by (simp add: of_char_of)
  show ?case
  proof (cases "n < 10")
    case True
    then show ?thesis using c [of n] by (subst nat_digits.simps) simp
  next
    case False
    have "10 * int (n div 10) + int (n mod 10) = int n" by presburger
    then show ?thesis using False 1 c [of "n mod 10"] by (subst nat_digits.simps) simp
  qed
qed

lemma nat_digits_length: "n < 10 ^ Suc k \<Longrightarrow> length (nat_digits n) \<le> Suc k"
proof (induction k arbitrary: n)
  case 0
  then show ?case by (subst nat_digits.simps) simp
next
  case (Suc k)
  have "n div 10 < 10 ^ Suc k" using Suc.prems by (simp add: less_mult_imp_div_less mult.commute)
  then show ?case using Suc.IH [of "n div 10"] by (subst nat_digits.simps) simp
qed

lemma digit_chars:
  assumes "isdigit c"
  shows "\<not> c_isspace c" "c \<noteq> CHR ''-''" "c \<noteq> CHR ''+''" "\<not> scalar_end c" "c \<noteq> CHR ''_''" "c \<noteq> CHR ''t''" "c \<noteq> CHR ''f''"
    "c \<noteq> CHR 0x00" "\<not> ws_inline c" "c \<noteq> DQ" "c \<noteq> CHR 0x27" "c \<noteq> CHR ''[''" "c \<noteq> CHR ''{''"
  using assms by (auto simp: isdigit_def c_isspace_def scalar_end_def ws_inline_def)

lemma c_strtol_digits: "list_all isdigit ds \<Longrightarrow> ds \<noteq> [] \<Longrightarrow>
    c_strtol ds = (foldl (\<lambda>v c. 10 * v + (int (of_char c) - 48)) 0 ds, []) \<and>
    c_strtol (CHR ''-'' # ds) = (- foldl (\<lambda>v c. 10 * v + (int (of_char c) - 48)) 0 ds, [])"
proof -
  assume a: "list_all isdigit ds" "ds \<noteq> []"
  then obtain d t where d: "ds = d # t" "isdigit d" by (cases ds) auto
  have w: "takeWhile isdigit t = t" "dropWhile isdigit t = []" using a d by (auto simp: list_all_iff)
  show ?thesis using d digit_chars [OF d(2)]
    by (simp add: c_strtol_def Let_def c_isspace_def w)
qed

lemma c_strtol_int_to_string: "c_strtol (int_to_string i) = (i, [])"
  using c_strtol_digits [OF nat_digits_digits nat_digits_nonempty, of "nat i"]
    c_strtol_digits [OF nat_digits_digits nat_digits_nonempty, of "nat (- i)"]
  by (auto simp: int_to_string_def nat_digits_val)

definition c_long_long :: "int \<Rightarrow> bool" where
  "c_long_long i \<longleftrightarrow> - (2 ^ 63) \<le> i \<and> i < 2 ^ 63"

lemma int_to_string_chars: "c \<in> set (int_to_string i) \<Longrightarrow> isdigit c \<or> c = CHR ''-''"
  using nat_digits_digits [of "nat i"] nat_digits_digits [of "nat (- i)"]
  by (auto simp: int_to_string_def list_all_iff split: if_splits)

lemma int_to_string_length: "c_long_long i \<Longrightarrow> length (int_to_string i) \<le> 63"
proof -
  assume a: "c_long_long i"
  then have "nat (abs i) \<le> 2 ^ 63" by (auto simp: c_long_long_def abs_if nat_le_iff)
  also have "(2 :: nat) ^ 63 < 10 ^ Suc 19" by simp
  finally have "length (nat_digits (nat (abs i))) \<le> Suc 19" by (rule nat_digits_length)
  then show ?thesis by (auto simp: int_to_string_def abs_if split: if_splits)
qed

lemma scalar_node_int: "c_long_long i \<Longrightarrow> scalar_node (int_to_string i) = TInt i"
proof -
  assume a: "c_long_long i"
  have nu: "filter (\<lambda>c. c \<noteq> CHR ''_'') (int_to_string i) = int_to_string i"
    by (rule filter_True) (use int_to_string_chars digit_chars(5) in blast)
  have hd: "hd (int_to_string i) \<noteq> CHR ''t'' \<and> hd (int_to_string i) \<noteq> CHR ''f'' \<and> int_to_string i \<noteq> []"
    using int_to_string_chars [of "hd (int_to_string i)" i] digit_chars(6,7)
    by (cases "int_to_string i") (auto simp: int_to_string_def split: if_splits)
  have dig: "list_all isdigit (nat_digits n)" "isdigit (hd (nat_digits n))" for n
    using nat_digits_digits [of n] by (cases "nat_digits n"; auto)+
  have "scalar_is_int (int_to_string i)"
    using dig [of "nat i"] dig [of "nat (- i)"] digit_chars(2,3) [OF dig(2), of "nat i"]
    by (auto simp: scalar_is_int_def int_to_string_def Let_def list_all_iff)
  moreover have "c_strtoll (int_to_string i) = i" using a by (simp add: c_strtoll_def c_strtol_int_to_string c_long_long_def)
  ultimately show ?thesis using hd nu int_to_string_length [OF a] by (auto simp: scalar_node_def)
qed

lemma parse_value_int:
  assumes "c_long_long i" "rest \<noteq> []" "scalar_end (hd rest)"
  shows "parse_value (Suc n) nxt (CHR '' '' # int_to_string i @ rest) = POk (TInt i) rest"
proof -
  let ?t = "int_to_string i"
  obtain c t where t: "?t = c # t" by (cases ?t) (auto simp: int_to_string_def split: if_splits)
  then have c: "isdigit c \<or> c = CHR ''-''" using int_to_string_chars [of c i] by simp
  have sk: "skip_ws_inline (CHR '' '' # ?t @ rest) = ?t @ rest"
    using t c digit_chars(9) [of c] by (auto simp: skip_ws_inline_def ws_inline_def)
  have se: "\<not> scalar_end x" if "x \<in> set ?t" for x
    using int_to_string_chars [OF that] digit_chars(4) [of x] by (auto simp: scalar_end_def)
  have "takeWhile (\<lambda>c. \<not> scalar_end c) (?t @ rest) = ?t" "dropWhile (\<lambda>c. \<not> scalar_end c) (?t @ rest) = rest"
    using se assms(2,3) by (cases rest; simp add: takeWhile_append2 dropWhile_append2)+
  moreover have "c_str ?t = ?t"
    unfolding c_str_def by (rule takeWhile_eq_all_conv [THEN iffD2]) (use int_to_string_chars digit_chars(8) in fastforce)
  ultimately have "parse_scalar_token (?t @ rest) = (TInt i, rest)"
    using scalar_node_int [OF assms(1)] by (simp add: parse_scalar_token_def)
  moreover have "c \<noteq> DQ" "c \<noteq> CHR 0x27" "c \<noteq> CHR ''[''" "c \<noteq> CHR ''{''" using c digit_chars(10-13) [of c] by auto
  ultimately show ?thesis using sk t by (simp add: Let_def)
qed

section \<open>Reading documents back\<close>

definition val_reads :: "char \<Rightarrow> string \<Rightarrow> salt_toml \<Rightarrow> bool" where
  "val_reads nxt vt v \<longleftrightarrow> (\<forall>rest. \<exists>n. parse_value n nxt (CHR '' '' # vt @ NL # rest) = POk v (NL # rest))"

definition toml_reads :: "char \<Rightarrow> string list \<Rightarrow> (string \<times> salt_toml) list \<Rightarrow> string \<Rightarrow> (string \<times> salt_toml) list \<Rightarrow> bool" where
  "toml_reads nxt cur root s t \<longleftrightarrow> (\<exists>n. toml_loop n nxt cur root s = POk t [])"

lemma toml_reads_parse:
  assumes "toml_reads nxt [] [] text t" shows "salt_toml_parse nxt text = Some (Some (TTable t))"
proof -
  obtain n where n: "toml_loop n nxt [] [] text = POk t []" using assms by (auto simp: toml_reads_def)
  have ne: "toml_loop (toml_fuel text) nxt [] [] text \<noteq> PMore"
  proof
    assume "toml_loop (toml_fuel text) nxt [] [] text = PMore"
    then have "toml_loop n nxt [] [] text = PMore" by (rule toml_loop_decides) (simp add: toml_fuel_def)
    with n show False by simp
  qed
  have "toml_loop (toml_fuel text) nxt [] [] text = POk t []"
  proof (cases "n \<le> toml_fuel text")
    case True
    then show ?thesis using toml_loop_mono [OF True, of nxt "[]" "[]" "text"] n by simp
  next
    case False
    then have "toml_fuel text \<le> n" by simp
    from toml_loop_mono [OF this ne] show ?thesis using n by simp
  qed
  then show ?thesis by (simp add: salt_toml_parse_def)
qed

lemma val_reads_escaped: "no_nul s \<Longrightarrow> val_reads nxt (toml_escape s) (TString s)"
  unfolding val_reads_def
proof (intro allI exI)
  fix rest assume "no_nul s"
  then show "parse_value (Suc 0) nxt (CHR '' '' # toml_escape s @ NL # rest) = POk (TString s) (NL # rest)"
    using parse_value_escaped [of s "NL # rest" "'' ''" 0 nxt] by (simp add: ws_inline_def del: parse_value.simps)
qed

lemma val_reads_plain: "plain_string s \<Longrightarrow> val_reads nxt (DQ # s @ [DQ]) (TString s)"
  unfolding val_reads_def
proof (intro allI exI)
  fix rest assume "plain_string s"
  then show "parse_value (Suc 0) nxt (CHR '' '' # (DQ # s @ [DQ]) @ NL # rest) = POk (TString s) (NL # rest)"
    using parse_value_plain [of s "NL # rest" "'' ''" 0 nxt] by (simp add: ws_inline_def del: parse_value.simps)
qed

lemma val_reads_int: "c_long_long i \<Longrightarrow> val_reads nxt (int_to_string i) (TInt i)"
  unfolding val_reads_def
proof (intro allI exI)
  fix rest assume "c_long_long i"
  then show "parse_value (Suc 0) nxt (CHR '' '' # int_to_string i @ NL # rest) = POk (TInt i) (NL # rest)"
    using parse_value_int [of i "NL # rest" 0 nxt] by (simp add: scalar_end_def del: parse_value.simps)
qed

lemma val_reads_str_array:
  assumes q: "\<And>x n rest. x \<in> set l \<Longrightarrow> rest \<noteq> [] \<Longrightarrow> hd rest \<noteq> DQ \<Longrightarrow> parse_value (Suc n) nxt (quote x @ rest) = POk (TString x) rest"
    and hd: "\<And>x. \<exists>t. quote x = DQ # t"
  shows "val_reads nxt (str_array quote l) (TArray (map TString l))"
  unfolding val_reads_def
proof (intro allI exI)
  fix rest
  show "parse_value (Suc (Suc (Suc (length l)))) nxt (CHR '' '' # str_array quote l @ NL # rest) =
      POk (TArray (map TString l)) (NL # rest)"
    unfolding parse_value.simps(2) str_array_def
    using parse_array_strings [of l nxt quote "[]" "NL # rest", OF q hd]
    by (simp add: Let_def skip_ws_inline_def ws_inline_def del: parse_array.simps)
qed

lemma val_reads_escaped_array: "list_all no_nul l \<Longrightarrow> val_reads nxt (str_array toml_escape l) (TArray (map TString l))"
  by (rule val_reads_str_array)
    (use parse_value_escaped [of _ _ "[]" _ nxt] in \<open>auto simp: list_all_iff toml_escape_def simp del: parse_value.simps\<close>)

lemma toml_reads_nil: "toml_reads nxt cur root [] root"
  unfolding toml_reads_def by (rule exI [of _ 1]) simp

lemma toml_reads_nl: "toml_reads nxt cur root s t \<Longrightarrow> toml_reads nxt cur root (NL # s) t"
proof -
  assume "toml_reads nxt cur root s t"
  then obtain n where n: "toml_loop n nxt cur root s = POk t []" by (auto simp: toml_reads_def)
  then obtain n' where "n = Suc n'" by (cases n) auto
  then have "toml_loop n nxt cur root (NL # s) = POk t []" using n by simp
  then show ?thesis unfolding toml_reads_def by blast
qed

definition bare_key :: "string \<Rightarrow> bool" where
  "bare_key k \<longleftrightarrow> k \<noteq> [] \<and> list_all key_char k"

lemma key_char_plain:
  assumes "key_char c"
  shows "\<not> ws_inline c" "c \<noteq> DQ" "c \<noteq> CHR 0x27" "c \<noteq> CHR ''[''" "c \<noteq> CHR ''#''" "c \<notin> {CHR '' '', CHR 0x09, CHR 0x0D, CHR 0x0A}"
  using assms by (auto simp: key_char_def isalnum_def isdigit_def isupper_def islower_def ws_inline_def)

lemma dotted_bare:
  assumes "bare_key k" "rest \<noteq> []" "\<not> key_char (hd rest)"
    and "\<not> (skip_ws_inline rest \<noteq> [] \<and> hd (skip_ws_inline rest) = CHR ''.'')"
  shows "parse_dotted_path (k @ rest) = Some ([k], skip_ws_inline rest)"
proof -
  obtain c t where k: "k = c # t" "key_char c" "list_all key_char t" using assms(1) by (cases k) (auto simp: bare_key_def)
  have "takeWhile key_char (k @ rest) = k" "dropWhile key_char (k @ rest) = rest"
    using assms by (cases rest; simp add: takeWhile_append2 dropWhile_append2 bare_key_def list_all_iff)+
  moreover have "skip_ws_inline (k @ rest) = k @ rest" using k key_char_plain [of c] by (simp add: skip_ws_inline_def)
  ultimately have "parse_key_token (k @ rest) = Some (k, rest)"
    using k key_char_plain [of c] by (simp add: parse_key_token_def Let_def del: takeWhile.simps dropWhile.simps)
  then show ?thesis using assms(4) by (subst parse_dotted_path.simps) (auto simp: Let_def)
qed

text \<open>\<open>cursor cur put\<close>: the table at the path \<open>cur\<close> of \<open>put kvs\<close> is \<open>kvs\<close>.\<close>

definition cursor :: "string list \<Rightarrow> ((string \<times> salt_toml) list \<Rightarrow> (string \<times> salt_toml) list) \<Rightarrow> bool" where
  "cursor cur put \<longleftrightarrow> (\<forall>f kvs. descend_table False f cur (put kvs) = Some (put (f kvs)))"

lemma table_set_fresh: "k \<notin> fst ` set kvs \<Longrightarrow> table_set k v kvs = kvs @ [(k, v)]"
  by (induction kvs) auto

lemma table_set_last: "k \<notin> fst ` set kvs \<Longrightarrow> table_set k v (kvs @ [(k, v')]) = kvs @ [(k, v)]"
  by (induction kvs) auto

lemma map_of_last: "k \<notin> fst ` set kvs \<Longrightarrow> map_of (kvs @ [(k, v)]) k = Some v"
  by (induction kvs) auto

lemma cursor_root: "cursor [] (\<lambda>kvs. kvs)"
  by (simp add: cursor_def)

lemma cursor_table: "h \<notin> fst ` set base \<Longrightarrow> cursor [h] (\<lambda>kvs. base @ [(h, TTable kvs)])"
  by (simp add: cursor_def map_of_last table_set_last del: map_of_append)

lemma cursor_array: "h \<notin> fst ` set base \<Longrightarrow> cursor [h] (\<lambda>kvs. base @ [(h, TArray (xs @ [TTable kvs]))])"
  by (simp add: cursor_def map_of_last table_set_last del: map_of_append)

lemma toml_reads_assign:
  assumes "bare_key k" "val_reads nxt vt v" "cursor cur put"
    and "toml_reads nxt cur (put (table_set k v kvs)) s t"
  shows "toml_reads nxt cur (put kvs) (emit_kv k vt @ s) t"
proof -
  obtain c k' where k: "k = c # k'" "key_char c" using assms(1) by (cases k) (auto simp: bare_key_def)
  let ?s = "emit_kv k vt @ s"
  have s: "?s = k @ '' = '' @ vt @ NL # s" by (simp add: emit_kv_def)
  have sk: "skip_ws_and_comments ?s = ?s" "?s \<noteq> []" "hd ?s \<noteq> CHR ''[''"
    unfolding s using k key_char_plain(4-6) [OF k(2)] by auto
  have dp: "parse_dotted_path ?s = Some ([k], ''= '' @ vt @ NL # s)"
    using dotted_bare [OF assms(1), of "'' = '' @ vt @ NL # s"]
    by (simp add: s skip_ws_inline_def ws_inline_def key_char_def isalnum_def isdigit_def isupper_def islower_def)
  obtain n1 where n1: "parse_value n1 nxt (CHR '' '' # vt @ NL # s) = POk v (NL # s)"
    using assms(2) by (auto simp: val_reads_def)
  obtain n2 where n2: "toml_loop n2 nxt cur (put (table_set k v kvs)) (NL # s) = POk t []"
    using toml_reads_nl [OF assms(4)] by (auto simp: toml_reads_def)
  let ?n = "max n1 n2"
  have pv: "parse_value ?n nxt (CHR '' '' # vt @ NL # s) = POk v (NL # s)"
    using parse_fuel_mono(1) [of n1 ?n nxt] n1 by simp
  have "assign_step ?n nxt cur (put kvs) ?s = POk (put (table_set k v kvs)) (NL # s)"
    using dp pv assms(3) by (simp add: assign_step_def Let_def skip_ws_inline_def ws_inline_def cursor_def del: parse_value.simps)
  moreover have "toml_loop ?n nxt cur (put (table_set k v kvs)) (NL # s) = POk t []"
    using toml_loop_mono [of n2 ?n nxt] n2 by simp
  ultimately have "toml_loop (Suc ?n) nxt cur (put kvs) ?s = POk t []" using sk by (auto simp: Let_def)
  then show ?thesis unfolding toml_reads_def by blast
qed

text \<open>A run of lines with new keys.\<close>

definition line_ok :: "char \<Rightarrow> string \<times> string \<times> salt_toml \<Rightarrow> bool" where
  "line_ok nxt l \<longleftrightarrow> bare_key (fst l) \<and> val_reads nxt (fst (snd l)) (snd (snd l))"

definition line_text :: "string \<times> string \<times> salt_toml \<Rightarrow> string" where
  "line_text l = emit_kv (fst l) (fst (snd l))"

definition line_kv :: "string \<times> string \<times> salt_toml \<Rightarrow> string \<times> salt_toml" where
  "line_kv l = (fst l, snd (snd l))"

lemma toml_reads_lines:
  assumes "cursor cur put" "list_all (line_ok nxt) ls" "distinct (map fst ls)" "set (map fst ls) \<inter> fst ` set kvs = {}"
    and "toml_reads nxt cur (put (kvs @ map line_kv ls)) s t"
  shows "toml_reads nxt cur (put kvs) (concat (map line_text ls) @ s) t"
  using assms(2-)
proof (induction ls arbitrary: kvs)
  case (Cons l ls)
  have "toml_reads nxt cur (put (kvs @ [line_kv l])) (concat (map line_text ls) @ s) t"
    by (rule Cons.IH) (use Cons.prems in \<open>auto simp: line_kv_def\<close>)
  moreover have "table_set (fst l) (snd (snd l)) kvs = kvs @ [line_kv l]"
    unfolding line_kv_def by (rule table_set_fresh) (use Cons.prems in auto)
  ultimately have "toml_reads nxt cur (put kvs) (emit_kv (fst l) (fst (snd l)) @ concat (map line_text ls) @ s) t"
    using toml_reads_assign [of "fst l" nxt "fst (snd l)" "snd (snd l)" cur put kvs] Cons.prems assms(1)
    by (simp add: line_ok_def)
  then show ?case by (simp add: line_text_def [of l])
qed simp

lemma header_reads:
  assumes "bare_key h" "descend_table aot (\<lambda>t. t) [h] root = Some root'"
    and "toml_reads nxt [h] root' s t"
  shows "toml_reads nxt cur root ((if aot then ''[['' else ''['') @ h @ (if aot then '']]'' else '']'') @ NL # s) t"
proof -
  let ?e = "(if aot then '']]'' else '']'') @ NL # s"
  let ?s = "(if aot then ''[['' else ''['') @ h @ ?e"
  obtain c k' where k: "h = c # k'" "key_char c" using assms(1) by (cases h) (auto simp: bare_key_def)
  have "parse_dotted_path (h @ ?e) = Some ([h], ?e)"
    using dotted_bare [OF assms(1), of ?e]
    by (simp add: skip_ws_inline_def ws_inline_def key_char_def isalnum_def isdigit_def isupper_def islower_def split: if_splits)
  then have hs: "header_step root ?s = Some ([h], root', NL # s)"
    using assms(2) k key_char_plain(4) [OF k(2)]
    by (cases aot) (simp_all add: header_step_def Let_def skip_ws_inline_def ws_inline_def del: descend_table.simps)
  obtain n where n: "toml_loop n nxt [h] root' (NL # s) = POk t []"
    using toml_reads_nl [OF assms(3)] by (auto simp: toml_reads_def)
  have "toml_loop (Suc n) nxt cur root ?s = POk t []"
    using hs n by (cases aot) (simp_all add: Let_def del: append.simps add: append.simps(1) append_Cons)
  then show ?thesis unfolding toml_reads_def by blast
qed

lemma toml_reads_table:
  assumes "bare_key h" "h \<notin> fst ` set root" "toml_reads nxt [h] (root @ [(h, TTable [])]) s t"
  shows "toml_reads nxt cur root (''['' @ h @ '']'' @ NL # s) t"
proof -
  have "map_of root h = None" using assms(2) by (simp add: map_of_eq_None_iff)
  then show ?thesis
    using header_reads [of h False root "root @ [(h, TTable [])]" nxt s t cur] assms by (simp add: table_set_fresh)
qed

lemma toml_reads_array_first:
  assumes "bare_key h" "h \<notin> fst ` set root" "toml_reads nxt [h] (root @ [(h, TArray [TTable []])]) s t"
  shows "toml_reads nxt cur root (''[['' @ h @ '']]'' @ NL # s) t"
proof -
  have "map_of root h = None" using assms(2) by (simp add: map_of_eq_None_iff)
  then show ?thesis
    using header_reads [of h True root "root @ [(h, TArray [TTable []])]" nxt s t cur] assms by (simp add: table_set_fresh)
qed

lemma toml_reads_array_next:
  assumes "bare_key h" "h \<notin> fst ` set root" "toml_reads nxt [h] (root @ [(h, TArray (xs @ [TTable []]))]) s t"
  shows "toml_reads nxt cur (root @ [(h, TArray xs)]) (''[['' @ h @ '']]'' @ NL # s) t"
  using header_reads [of h True "root @ [(h, TArray xs)]" "root @ [(h, TArray (xs @ [TTable []]))]" nxt s t cur] assms
  by (simp add: table_set_last map_of_last del: map_of_append)

section \<open>Metadata\<close>

definition meta_ok :: "salt_pkg_meta \<Rightarrow> bool" where
  "meta_ok m \<longleftrightarrow> no_nul (pm_name m) \<and> no_nul (pm_version m) \<and> no_nul (pm_arch m) \<and> no_nul (pm_summary m) \<and>
     no_nul (pm_license m) \<and> no_nul (pm_repro_status m) \<and> list_all no_nul (pm_deps m) \<and> list_all no_nul (pm_conflicts m) \<and>
     pred_option no_nul (pm_repro_reason m) \<and> pm_repro_reason m \<noteq> Some [] \<and>
     list_all (\<lambda>k. pred_option no_nul (pm_hooks m k)) hook_kinds \<and> - (2 ^ 31) \<le> pm_release m \<and> pm_release m < 2 ^ 31"

definition str_line :: "string \<Rightarrow> string \<Rightarrow> string \<times> string \<times> salt_toml" where
  "str_line k s = (k, toml_escape s, TString s)"

definition arr_line :: "string \<Rightarrow> string list \<Rightarrow> string \<times> string \<times> salt_toml" where
  "arr_line k l = (k, str_array toml_escape l, TArray (map TString l))"

definition int_line :: "string \<Rightarrow> int \<Rightarrow> string \<times> string \<times> salt_toml" where
  "int_line k i = (k, int_to_string i, TInt i)"

lemma line_ok_simps:
  "line_ok nxt (str_line k s) \<longleftrightarrow> bare_key k \<and> val_reads nxt (toml_escape s) (TString s)"
  "line_ok nxt (arr_line k l) \<longleftrightarrow> bare_key k \<and> val_reads nxt (str_array toml_escape l) (TArray (map TString l))"
  "line_ok nxt (int_line k i) \<longleftrightarrow> bare_key k \<and> val_reads nxt (int_to_string i) (TInt i)"
  by (simp_all add: line_ok_def str_line_def arr_line_def int_line_def)

definition meta_lines :: "salt_pkg_meta \<Rightarrow> (string \<times> string \<times> salt_toml) list" where
  "meta_lines m = [str_line ''name'' (pm_name m), str_line ''version'' (pm_version m), int_line ''release'' (pm_release m),
     str_line ''arch'' (pm_arch m), str_line ''summary'' (pm_summary m), str_line ''license'' (pm_license m),
     arr_line ''deps'' (pm_deps m)] @ (if pm_conflicts m = [] then [] else [arr_line ''conflicts'' (pm_conflicts m)])"

definition repro_lines :: "salt_pkg_meta \<Rightarrow> (string \<times> string \<times> salt_toml) list" where
  "repro_lines m = str_line ''status'' (pm_repro_status m) #
     (case pm_repro_reason m of None \<Rightarrow> [] | Some r \<Rightarrow> if r = [] then [] else [str_line ''reason'' r])"

definition hook_lines :: "salt_pkg_meta \<Rightarrow> (string \<times> string \<times> salt_toml) list" where
  "hook_lines m = map (\<lambda>k. str_line (salt_hook_name k) (the (pm_hooks m k))) (filter (\<lambda>k. pm_hooks m k \<noteq> None) hook_kinds)"

lemma meta_text:
  "salt_pkg_meta_to_toml m = concat (map line_text (meta_lines m)) @ NL # ''['' @ ''reproducibility'' @ '']'' @ NL #
     concat (map line_text (repro_lines m)) @
     (if hook_lines m = [] then [] else NL # ''['' @ ''hooks'' @ '']'' @ NL # concat (map line_text (hook_lines m)))"
  by (simp add: salt_pkg_meta_to_toml_def meta_lines_def repro_lines_def hook_lines_def emit_hooks_def Let_def line_text_def
      str_line_def arr_line_def int_line_def emit_str_array_def emit_kv_def comp_def split: option.split)

lemma bare_keys [simp]:
  "bare_key ''name''" "bare_key ''version''" "bare_key ''release''" "bare_key ''arch''" "bare_key ''summary''"
  "bare_key ''license''" "bare_key ''deps''" "bare_key ''conflicts''" "bare_key ''status''" "bare_key ''reason''"
  "bare_key ''reproducibility''" "bare_key ''hooks''" "bare_key (salt_hook_name k)"
  by (cases k; simp add: bare_key_def key_char_def isalnum_def isdigit_def isupper_def islower_def)+

lemma meta_lines_ok:
  assumes "meta_ok m"
  shows "list_all (line_ok nxt) (meta_lines m)" "list_all (line_ok nxt) (repro_lines m)" "list_all (line_ok nxt) (hook_lines m)"
proof -
  have "c_long_long (pm_release m)" using assms by (simp add: meta_ok_def c_long_long_def)
  then show "list_all (line_ok nxt) (meta_lines m)" "list_all (line_ok nxt) (repro_lines m)"
    using assms by (auto simp: meta_lines_def repro_lines_def meta_ok_def line_ok_simps val_reads_escaped val_reads_escaped_array
        val_reads_int split: option.split)
  show "list_all (line_ok nxt) (hook_lines m)"
    using assms by (auto simp: hook_lines_def meta_ok_def line_ok_simps list_all_iff intro!: val_reads_escaped)
qed

definition meta_tree :: "salt_pkg_meta \<Rightarrow> (string \<times> salt_toml) list" where
  "meta_tree m = map line_kv (meta_lines m) @ [(''reproducibility'', TTable (map line_kv (repro_lines m)))] @
     (if hook_lines m = [] then [] else [(''hooks'', TTable (map line_kv (hook_lines m)))])"

lemma hook_names_distinct: "distinct (map fst (hook_lines m))"
  by (simp add: hook_lines_def hook_kinds_def str_line_def)

lemma meta_keys: "fst ` set (map line_kv (meta_lines m)) \<subseteq> {''name'', ''version'', ''release'', ''arch'', ''summary'', ''license'', ''deps'', ''conflicts''}"
  by (auto simp: meta_lines_def str_line_def arr_line_def int_line_def line_kv_def)

lemma meta_reads:
  assumes "meta_ok m" shows "toml_reads nxt [] [] (salt_pkg_meta_to_toml m) (meta_tree m)"
proof -
  note ok = meta_lines_ok [OF assms, of nxt]
  let ?b = "map line_kv (meta_lines m)" and ?r = "map line_kv (repro_lines m)" and ?h = "map line_kv (hook_lines m)"
  let ?rb = "?b @ [(''reproducibility'', TTable ?r)]"
  have fresh: "''reproducibility'' \<notin> fst ` set ?b" "''hooks'' \<notin> fst ` set ?rb" using meta_keys [of m] by auto
  have hooks: "toml_reads nxt [''reproducibility''] ?rb
      (if hook_lines m = [] then [] else NL # ''['' @ ''hooks'' @ '']'' @ NL # concat (map line_text (hook_lines m))) (meta_tree m)"
  proof (cases "hook_lines m = []")
    case True
    then show ?thesis by (simp add: meta_tree_def toml_reads_nil)
  next
    case False
    have "toml_reads nxt [''hooks''] (?rb @ [(''hooks'', TTable [])]) (concat (map line_text (hook_lines m)) @ []) (meta_tree m)"
      by (rule toml_reads_lines [where put = "\<lambda>kvs. ?rb @ [(''hooks'', TTable kvs)]"])
        (use False ok(3) hook_names_distinct cursor_table [OF fresh(2)] in \<open>auto simp: meta_tree_def toml_reads_nil\<close>)
    then show ?thesis using False
      by (simp only: if_False append_Nil2) (intro toml_reads_nl toml_reads_table fresh(2) bare_keys)
  qed
  have "toml_reads nxt [''reproducibility''] (?b @ [(''reproducibility'', TTable [])])
      (concat (map line_text (repro_lines m)) @ (if hook_lines m = [] then [] else NL # ''['' @ ''hooks'' @ '']'' @ NL # concat (map line_text (hook_lines m)))) (meta_tree m)"
    by (rule toml_reads_lines [where put = "\<lambda>kvs. ?b @ [(''reproducibility'', TTable kvs)]"])
      (use ok(2) hooks cursor_table [OF fresh(1)] in \<open>auto simp: repro_lines_def str_line_def split: option.split\<close>)
  then have "toml_reads nxt [] ([] @ ?b) (NL # ''['' @ ''reproducibility'' @ '']'' @ NL # concat (map line_text (repro_lines m)) @
      (if hook_lines m = [] then [] else NL # ''['' @ ''hooks'' @ '']'' @ NL # concat (map line_text (hook_lines m)))) (meta_tree m)"
    by (simp only: append_Nil) (intro toml_reads_nl toml_reads_table fresh(1) bare_keys)
  then show ?thesis unfolding meta_text
    by (rule toml_reads_lines [where put = "\<lambda>kvs. kvs", rotated 4])
      (use ok(1) cursor_root in \<open>auto simp: meta_lines_def str_line_def arr_line_def int_line_def\<close>)
qed

text \<open>
  \<open>toml_parser parse\<close>: \<open>parse\<close> is \<^verbatim>\<open>salt_toml_parse\<close> wherever that returns, whatever byte follows the text.
\<close>

definition toml_parser :: "(string \<Rightarrow> salt_toml option) \<Rightarrow> bool" where
  "toml_parser parse \<longleftrightarrow> (\<forall>txt. \<exists>nxt. \<forall>r. salt_toml_parse nxt txt = Some r \<longrightarrow> parse txt = r)"

definition toml_text :: "char \<Rightarrow> string \<Rightarrow> salt_toml option" where
  "toml_text nxt txt = (case salt_toml_parse nxt txt of Some r \<Rightarrow> r | None \<Rightarrow> None)"

lemma toml_parser_text: "toml_parser (toml_text nxt)"
  unfolding toml_parser_def by (intro allI exI [of _ nxt]) (simp add: toml_text_def)

lemma toml_parser_reads:
  assumes "toml_parser parse" "\<And>nxt. toml_reads nxt [] [] txt t" shows "parse txt = Some (TTable t)"
proof -
  obtain nxt where "\<forall>r. salt_toml_parse nxt txt = Some r \<longrightarrow> parse txt = r" using assms(1) by (auto simp: toml_parser_def)
  then show ?thesis using toml_reads_parse [OF assms(2)] by simp
qed

lemma path_key1: "k \<noteq> [] \<Longrightarrow> CHR ''.'' \<notin> set k \<Longrightarrow> length k \<le> 255 \<Longrightarrow> salt_toml_path (Some (TTable kvs)) k = map_of kvs k"
  by (simp add: salt_toml_path_simple)

lemma path_key2:
  assumes "h \<noteq> []" "CHR ''.'' \<notin> set h" "length h \<le> 255" "k \<noteq> []" "CHR ''.'' \<notin> set k" "length k \<le> 255"
  shows "salt_toml_path (Some (TTable kvs)) (h @ ''.'' @ k) = (case map_of kvs h of None \<Rightarrow> None | Some t \<Rightarrow> salt_toml_path (Some t) k)"
proof -
  obtain c cs where h: "h = c # cs" using assms(1) by (cases h) auto
  have "takeWhile (\<lambda>x. x \<noteq> CHR ''.'') (h @ ''.'' @ k) = h"
    using assms(2) by (subst takeWhile_append2) auto
  then have "salt_toml_path (Some (TTable kvs)) (h @ ''.'' @ k) = salt_toml_path (toml_segment (TTable kvs) h) k"
    using assms(3) by (simp add: h Let_def)
  then show ?thesis by (auto split: option.split)
qed

lemma string_array_TString: "List.map_filter (\<lambda>x. case x of TString s \<Rightarrow> Some s | _ \<Rightarrow> None) (map TString l) = l"
  by (induction l) (auto simp: map_filter_def)

lemma read_hooks_lines: "read_hooks (map line_kv (hook_lines m)) (\<lambda>_. None) = Some (pm_hooks m)"
proof -
  have *: "read_hooks (map line_kv (map (\<lambda>k. str_line (salt_hook_name k) (the (pm_hooks m k))) ks)) h =
      Some (\<lambda>k. if k \<in> set ks then Some (the (pm_hooks m k)) else h k)" if "set ks \<subseteq> set hook_kinds" for ks h
    using that
  proof (induction ks arbitrary: h)
    case (Cons k ks)
    have "salt_hook_from_name (salt_hook_name k) = Some k" by (cases k) (auto simp: salt_hook_from_name_def hook_kinds_def)
    then show ?case using Cons by (auto simp: line_kv_def str_line_def salt_toml_as_string_def fun_eq_iff)
  qed simp
  have "k \<in> set hook_kinds" for k by (cases k) (auto simp: hook_kinds_def)
  then show ?thesis unfolding hook_lines_def by (subst *) (auto simp: fun_eq_iff)
qed

lemma meta_read_back:
  assumes "meta_ok m" "toml_parser parse"
  shows "salt_pkg_meta_from_toml parse (salt_pkg_meta_to_toml m) = Some m"
proof -
  have p: "parse (salt_pkg_meta_to_toml m) = Some (TTable (meta_tree m))"
    by (rule toml_parser_reads [OF assms(2)]) (rule meta_reads [OF assms(1)])
  have c: "c_int (pm_release m) = pm_release m" using assms(1) by (simp add: meta_ok_def c_int_def)
  have mt: "map_of (meta_tree m) ''name'' = Some (TString (pm_name m))"
    "map_of (meta_tree m) ''version'' = Some (TString (pm_version m))" "map_of (meta_tree m) ''release'' = Some (TInt (pm_release m))"
    "map_of (meta_tree m) ''arch'' = Some (TString (pm_arch m))" "map_of (meta_tree m) ''summary'' = Some (TString (pm_summary m))"
    "map_of (meta_tree m) ''license'' = Some (TString (pm_license m))" "map_of (meta_tree m) ''deps'' = Some (TArray (map TString (pm_deps m)))"
    "map_of (meta_tree m) ''conflicts'' = (if pm_conflicts m = [] then None else Some (TArray (map TString (pm_conflicts m))))"
    "map_of (meta_tree m) ''reproducibility'' = Some (TTable (map line_kv (repro_lines m)))"
    "map_of (meta_tree m) ''hooks'' = (if hook_lines m = [] then None else Some (TTable (map line_kv (hook_lines m))))"
    by (simp_all add: meta_tree_def meta_lines_def line_kv_def str_line_def arr_line_def int_line_def)
  have rp: "salt_toml_path (Some (TTable (meta_tree m))) ''reproducibility.status'' = Some (TString (pm_repro_status m))"
    "salt_toml_path (Some (TTable (meta_tree m))) ''reproducibility.reason'' = map_option TString (pm_repro_reason m)"
    using path_key2 [of "''reproducibility''" "''status''" "meta_tree m"] path_key2 [of "''reproducibility''" "''reason''" "meta_tree m"] assms(1)
    by (cases "pm_repro_reason m"; auto simp: mt(9) repro_lines_def line_kv_def str_line_def meta_ok_def Let_def)+
  have h: "(case salt_toml_get (Some (TTable (meta_tree m))) ''hooks'' of Some (TTable kvs) \<Rightarrow> read_hooks kvs (\<lambda>_. None) | _ \<Rightarrow> Some (\<lambda>_. None)) =
      Some (pm_hooks m)"
    using read_hooks_lines [of m] by (auto simp: salt_toml_get_def mt)
  show ?thesis
    unfolding salt_pkg_meta_from_toml_def p option.case h
    unfolding option.map option.inject
    by (rule salt_pkg_meta.equality)
      (simp_all add: salt_toml_string_def salt_toml_string_opt_def salt_toml_int_def path_key1 mt rp salt_toml_as_string_def
        salt_toml_as_int_def c string_array_or_empty_def salt_toml_string_array_def string_array_TString option.map_comp
        del: salt_toml_path.simps split: option.split)
qed

text \<open>
  C28. Package metadata survives being written and read: for metadata without zero bytes, with a release that
  fits an \<^verbatim>\<open>int\<close>, and without an empty reason, \<^verbatim>\<open>salt_pkg_meta_from_toml\<close> reads what
  \<^verbatim>\<open>salt_pkg_meta_to_toml\<close> wrote as the same metadata, hooks with line breaks and quotes included.
\<close>

theorem pkg_meta_round_trip:
  assumes "meta_ok m" "toml_parser parse"
  shows "salt_pkg_meta_from_toml parse (salt_pkg_meta_to_toml m) = Some m"
  using assms by (rule meta_read_back)

definition ex_vim_meta :: salt_pkg_meta where
  "ex_vim_meta = \<lparr>pm_name = ''vim'', pm_version = ''9.1'', pm_release = 2, pm_arch = ''x86_64'', pm_summary = ''an '' @ [DQ] @ ''editor'' @ [DQ],
     pm_license = [], pm_repro_status = ''unverified'', pm_repro_reason = None, pm_deps = [''libc''], pm_conflicts = [],
     pm_hooks = (\<lambda>k. if k = SALT_HOOK_POST_INSTALL then Some (''echo a'' @ [NL] @ ''true'') else None)\<rparr>"

theorem pkg_meta_round_trip_witness:
  "salt_pkg_meta_from_toml (toml_text CHR 0x00) (salt_pkg_meta_to_toml ex_vim_meta) = Some ex_vim_meta"
  by (rule pkg_meta_round_trip)
    (simp_all add: toml_parser_text meta_ok_def ex_vim_meta_def no_nul_def hook_kinds_def)

section \<open>Arrays of tables\<close>

lemma toml_reads_nls: "toml_reads nxt cur root s t \<Longrightarrow> toml_reads nxt cur root (replicate i NL @ s) t"
  by (induction i) (auto intro: toml_reads_nl)

definition block_text :: "nat \<Rightarrow> string \<Rightarrow> nat \<Rightarrow> (string \<times> string \<times> salt_toml) list \<Rightarrow> string" where
  "block_text i h j ls = replicate i NL @ ''[['' @ h @ '']]'' @ NL # concat (map line_text ls) @ replicate j NL"

definition block_table :: "(string \<times> string \<times> salt_toml) list \<Rightarrow> salt_toml" where
  "block_table ls = TTable (map line_kv ls)"

definition block_ok :: "char \<Rightarrow> (string \<times> string \<times> salt_toml) list \<Rightarrow> bool" where
  "block_ok nxt ls \<longleftrightarrow> list_all (line_ok nxt) ls \<and> distinct (map fst ls)"

lemma toml_reads_more_blocks:
  assumes h: "bare_key h" "h \<notin> fst ` set root" and "list_all (block_ok nxt) bs"
    and s: "toml_reads nxt [h] (root @ [(h, TArray (xs @ map block_table bs))]) s t"
  shows "toml_reads nxt [h] (root @ [(h, TArray xs)]) (concat (map (block_text i h j) bs) @ s) t"
  using assms(3,4)
proof (induction bs arbitrary: xs)
  case (Cons b bs)
  let ?s = "concat (map (block_text i h j) bs) @ s"
  have "toml_reads nxt [h] (root @ [(h, TArray (xs @ [block_table b]))]) ?s t"
    by (rule Cons.IH) (use Cons.prems in auto)
  then have "toml_reads nxt [h] (root @ [(h, TArray (xs @ [TTable ([] @ map line_kv b)]))]) (replicate j NL @ ?s) t"
    by (simp add: block_table_def toml_reads_nls)
  then have "toml_reads nxt [h] (root @ [(h, TArray (xs @ [TTable []]))]) (concat (map line_text b) @ replicate j NL @ ?s) t"
    by (rule toml_reads_lines [where put = "\<lambda>kvs. root @ [(h, TArray (xs @ [TTable kvs]))]", rotated 4])
      (use Cons.prems cursor_array [OF h(2)] in \<open>auto simp: block_ok_def\<close>)
  then have "toml_reads nxt [h] (root @ [(h, TArray xs)])
      (replicate i NL @ ''[['' @ h @ '']]'' @ NL # concat (map line_text b) @ replicate j NL @ ?s) t"
    by (intro toml_reads_nls toml_reads_array_next h)
  then show ?case by (simp add: block_text_def [of i h j b])
qed simp

lemma toml_reads_blocks:
  assumes h: "bare_key h" "h \<notin> fst ` set root" and bs: "list_all (block_ok nxt) bs" "bs \<noteq> []"
    and s: "toml_reads nxt [h] (root @ [(h, TArray (map block_table bs))]) s t"
  shows "toml_reads nxt cur root (concat (map (block_text i h j) bs) @ s) t"
proof -
  obtain b bs' where b: "bs = b # bs'" using bs(2) by (cases bs) auto
  let ?s = "concat (map (block_text i h j) bs') @ s"
  have "toml_reads nxt [h] (root @ [(h, TArray [block_table b])]) ?s t"
    by (rule toml_reads_more_blocks [OF h]) (use bs s b in auto)
  then have "toml_reads nxt [h] (root @ [(h, TArray ([] @ [TTable ([] @ map line_kv b)]))]) (replicate j NL @ ?s) t"
    by (simp add: block_table_def toml_reads_nls)
  then have "toml_reads nxt [h] (root @ [(h, TArray ([] @ [TTable []]))]) (concat (map line_text b) @ replicate j NL @ ?s) t"
    by (rule toml_reads_lines [where put = "\<lambda>kvs. root @ [(h, TArray ([] @ [TTable kvs]))]", rotated 4])
      (use bs(1) b cursor_array [OF h(2), of "[]"] in \<open>auto simp: block_ok_def\<close>)
  then have "toml_reads nxt cur root (replicate i NL @ ''[['' @ h @ '']]'' @ NL # concat (map line_text b) @ replicate j NL @ ?s) t"
    unfolding append_Nil by (intro toml_reads_nls toml_reads_array_first h)
  then show ?thesis by (simp add: block_text_def [of i h j b] b)
qed

section \<open>Manifests\<close>

lemma octal_digits_octal: "list_all is_octal (octal_digits n)"
proof (induction n rule: octal_digits.induct)
  case (1 n)
  have "is_octal (char_of (48 + m))" if "m < 8" for m :: nat using that by (simp add: is_octal_def of_char_of)
  then show ?case using 1 by (subst octal_digits.simps) auto
qed

lemma octal_digits_val: "foldl (\<lambda>v c. 8 * v + (int (of_char c) - 48)) 0 (octal_digits n) = int n"
proof (induction n rule: octal_digits.induct)
  case (1 n)
  have c: "int (of_char (char_of (48 + m) :: char)) = 48 + int m" if "m < 8" for m :: nat
    using that by (simp add: of_char_of)
  show ?case
  proof (cases "n < 8")
    case True
    then show ?thesis using c [of n] by (subst octal_digits.simps) simp
  next
    case False
    have "8 * int (n div 8) + int (n mod 8) = int n" by presburger
    then show ?thesis using False 1 c [of "n mod 8"] by (subst octal_digits.simps) simp
  qed
qed

lemma octal4_chars: "list_all is_octal (octal4 n)"
proof -
  have "is_octal CHR ''0''" by (simp add: is_octal_def)
  then show ?thesis using octal_digits_octal [of n] by (auto simp: octal4_def Let_def list_all_iff)
qed

lemma c_strtoul8_octal4: "n < 4096 \<Longrightarrow> c_strtoul8 (octal4 n) = n"
proof -
  assume n: "n < 4096"
  have z: "foldl (\<lambda>v c. 8 * v + (int (of_char c) - 48)) 0 (replicate k CHR ''0'') = 0" for k
    by (induction k) auto
  have v: "foldl (\<lambda>v c. 8 * v + (int (of_char c) - 48)) 0 (octal4 n) = int n"
    by (simp add: octal4_def Let_def z octal_digits_val)
  have "octal4 n \<noteq> []" by (subst octal4_def, subst octal_digits.simps) (simp add: Let_def)
  then obtain d t where d: "octal4 n = d # t" by (cases "octal4 n") auto
  then have o: "is_octal d" "list_all is_octal t" using octal4_chars [of n] by simp_all
  have tw: "takeWhile is_octal t = t" using o(2) by (auto simp: list_all_iff)
  have "\<not> c_isspace d" "d \<noteq> CHR ''-''" "d \<noteq> CHR ''+''" using o(1) by (auto simp: is_octal_def c_isspace_def)
  then show ?thesis using d o v n by (simp add: c_strtoul8_def Let_def tw)
qed

definition entry_ok :: "salt_manifest_entry \<Rightarrow> bool" where
  "entry_ok e \<longleftrightarrow> no_nul (me_path e) \<and> plain_string [me_typeflag e] \<and> me_mode e < 4096 \<and> me_size e < 2 ^ 63 \<and>
     pred_option plain_string (me_sha256 e) \<and> pred_option no_nul (me_linkname e) \<and> me_sha256 e \<noteq> Some [] \<and> me_linkname e \<noteq> Some []"

definition raw_line :: "string \<Rightarrow> string \<Rightarrow> string \<times> string \<times> salt_toml" where
  "raw_line k s = (k, DQ # s @ [DQ], TString s)"

lemma line_simps [simp]:
  "fst (str_line k s) = k" "fst (raw_line k s) = k" "fst (int_line k i) = k" "fst (arr_line k l) = k"
  "line_kv (str_line k s) = (k, TString s)" "line_kv (raw_line k s) = (k, TString s)" "line_kv (int_line k i) = (k, TInt i)"
  "line_kv (arr_line k l) = (k, TArray (map TString l))"
  by (simp_all add: str_line_def raw_line_def int_line_def arr_line_def line_kv_def)

lemma line_okI [simp]:
  "bare_key k \<Longrightarrow> no_nul s \<Longrightarrow> line_ok nxt (str_line k s)"
  "bare_key k \<Longrightarrow> plain_string s \<Longrightarrow> line_ok nxt (raw_line k s)"
  "bare_key k \<Longrightarrow> c_long_long i \<Longrightarrow> line_ok nxt (int_line k i)"
  "bare_key k \<Longrightarrow> list_all no_nul l \<Longrightarrow> line_ok nxt (arr_line k l)"
  by (simp_all add: line_ok_def str_line_def raw_line_def int_line_def arr_line_def val_reads_escaped val_reads_plain val_reads_int
      val_reads_escaped_array)

definition entry_lines :: "salt_manifest_entry \<Rightarrow> (string \<times> string \<times> salt_toml) list" where
  "entry_lines e = [str_line ''path'' (me_path e), raw_line ''type'' [me_typeflag e], raw_line ''mode'' (octal4 (me_mode e)),
     int_line ''size'' (int (me_size e))] @
     (case me_sha256 e of None \<Rightarrow> [] | Some h \<Rightarrow> [raw_line ''sha256'' h]) @
     (case me_linkname e of None \<Rightarrow> [] | Some l \<Rightarrow> [str_line ''linkname'' l])"

lemma bare_keys_manifest [simp]: "bare_key ''file''" "bare_key ''path''" "bare_key ''type''" "bare_key ''mode''" "bare_key ''size''"
  "bare_key ''sha256''" "bare_key ''linkname''"
  by (simp_all add: bare_key_def key_char_def isalnum_def isdigit_def isupper_def islower_def)

lemma octal_plain: "list_all is_octal s \<Longrightarrow> plain_string s"
  unfolding plain_string_def list_all_iff by (auto simp: is_octal_def)

lemma entry_text: "entry_ok e \<Longrightarrow> manifest_entry_to_toml e = block_text 0 ''file'' 1 (entry_lines e)"
  by (auto simp: manifest_entry_to_toml_def block_text_def entry_lines_def entry_ok_def line_text_def str_line_def raw_line_def
      int_line_def int_to_string_def emit_kv_def plain_string_def split: option.split)

lemma entry_lines_ok: "entry_ok e \<Longrightarrow> block_ok nxt (entry_lines e)"
proof -
  assume a: "entry_ok e"
  then have "c_long_long (int (me_size e))" by (simp add: entry_ok_def c_long_long_def)
  moreover have "int (me_size e) < 2 ^ 63" using a by (simp add: entry_ok_def)
  ultimately show ?thesis using a octal_plain [OF octal4_chars]
    by (auto simp: block_ok_def entry_lines_def entry_ok_def split: option.split)
qed

lemma manifest_reads:
  assumes "list_all entry_ok man"
  shows "toml_reads nxt [] [] (salt_manifest_to_toml man)
    (if man = [] then [] else [(''file'', TArray (map (\<lambda>e. block_table (entry_lines e)) man))])"
proof (cases "man = []")
  case False
  have t: "map manifest_entry_to_toml man = map (block_text 0 ''file'' 1) (map entry_lines man)"
    using assms entry_text by (auto simp: list_all_iff)
  have "toml_reads nxt [] [] (concat (map (block_text 0 ''file'' 1) (map entry_lines man)) @ [])
      [(''file'', TArray (map (\<lambda>e. block_table (entry_lines e)) man))]"
    by (rule toml_reads_blocks)
      (use assms False entry_lines_ok toml_reads_nil in \<open>auto simp: list_all_iff comp_def\<close>)
  then show ?thesis using False unfolding salt_manifest_to_toml_def t by simp
qed (simp add: salt_manifest_to_toml_def toml_reads_nil)

lemma entry_from_lines: "entry_ok e \<Longrightarrow> manifest_entry_from_toml (Some (block_table (entry_lines e))) = e"
proof -
  assume a: "entry_ok e"
  have mt: "map_of (map line_kv (entry_lines e)) ''path'' = Some (TString (me_path e))"
    "map_of (map line_kv (entry_lines e)) ''type'' = Some (TString [me_typeflag e])"
    "map_of (map line_kv (entry_lines e)) ''mode'' = Some (TString (octal4 (me_mode e)))"
    "map_of (map line_kv (entry_lines e)) ''size'' = Some (TInt (int (me_size e)))"
    "map_of (map line_kv (entry_lines e)) ''sha256'' = map_option TString (me_sha256 e)"
    "map_of (map line_kv (entry_lines e)) ''linkname'' = map_option TString (me_linkname e)"
    by (auto simp: entry_lines_def split: option.split)
  have "c_strtoul8 (octal4 (me_mode e)) = me_mode e" "int (me_size e) mod 2 ^ 64 = int (me_size e)"
    using a by (simp_all add: entry_ok_def c_strtoul8_octal4)
  then show ?thesis
    by (intro salt_manifest_entry.equality)
      (simp_all add: manifest_entry_from_toml_def block_table_def salt_toml_string_def salt_toml_string_opt_def salt_toml_int_def
        path_key1 mt salt_toml_as_string_def salt_toml_as_int_def option.map_comp del: salt_toml_path.simps split: option.split)
qed

lemma manifest_read_back:
  assumes "list_all entry_ok man" "toml_parser parse"
  shows "salt_manifest_from_toml parse (salt_manifest_to_toml man) = (SALT_OK, man)"
proof -
  let ?t = "if man = [] then [] else [(''file'', TArray (map (\<lambda>e. block_table (entry_lines e)) man))]"
  have "parse (salt_manifest_to_toml man) = Some (TTable ?t)"
    by (rule toml_parser_reads [OF assms(2)]) (rule manifest_reads [OF assms(1)])
  moreover have "map (\<lambda>e. manifest_entry_from_toml (Some (block_table (entry_lines e)))) man = man"
    using assms(1) entry_from_lines by (intro map_idI) (auto simp: list_all_iff)
  ultimately show ?thesis by (simp add: salt_manifest_from_toml_def salt_toml_get_def comp_def)
qed

text \<open>
  A manifest survives being written and read: for entries without zero bytes in their names, with twelve mode
  bits and a size that fits a signed 64-bit integer, \<^verbatim>\<open>salt_manifest_from_toml\<close> reads what
  \<^verbatim>\<open>salt_manifest_to_toml\<close> wrote as the same list of entries in the same order.
\<close>

theorem manifest_round_trip:
  assumes "list_all entry_ok man" "toml_parser parse"
  shows "salt_manifest_from_toml parse (salt_manifest_to_toml man) = (SALT_OK, man)"
  using assms by (rule manifest_read_back)

theorem manifest_round_trip_witness:
  "salt_manifest_from_toml (toml_text CHR 0x00) (salt_manifest_to_toml
     [\<lparr>me_path = ''usr/bin'', me_typeflag = SALT_TAR_DIR, me_mode = 493, me_size = 0, me_sha256 = None, me_linkname = None\<rparr>]) =
   (SALT_OK, [\<lparr>me_path = ''usr/bin'', me_typeflag = SALT_TAR_DIR, me_mode = 493, me_size = 0, me_sha256 = None, me_linkname = None\<rparr>])"
  by (rule manifest_round_trip) (simp_all add: toml_parser_text entry_ok_def no_nul_def plain_string_def SALT_TAR_DIR_def)

section \<open>Nested arrays of tables\<close>

lemma map_of_table_set: "map_of (table_set k v kvs) k' = (if k' = k then Some v else map_of kvs k')"
  by (induction kvs) auto

text \<open>A run of lines whose keys may repeat.\<close>

definition lines_table :: "(string \<times> string \<times> salt_toml) list \<Rightarrow> (string \<times> salt_toml) list" where
  "lines_table ls = fold (\<lambda>l. table_set (fst l) (snd (snd l))) ls []"

lemma toml_reads_lines_table:
  assumes "cursor cur put" "list_all (line_ok nxt) ls" "toml_reads nxt cur (put (lines_table ls)) s t"
  shows "toml_reads nxt cur (put []) (concat (map line_text ls) @ s) t"
proof -
  have "toml_reads nxt cur (put kvs) (concat (map line_text ls) @ s) t"
    if "toml_reads nxt cur (put (fold (\<lambda>l. table_set (fst l) (snd (snd l))) ls kvs)) s t" for kvs
    using assms(2) that
  proof (induction ls arbitrary: kvs)
    case (Cons l ls)
    then have "toml_reads nxt cur (put (table_set (fst l) (snd (snd l)) kvs)) (concat (map line_text ls) @ s) t" by simp
    then show ?case
      using toml_reads_assign [of "fst l" nxt "fst (snd l)" "snd (snd l)" cur put kvs "concat (map line_text ls) @ s" t] Cons.prems assms(1)
      by (simp add: line_ok_def line_text_def [of l])
  qed simp
  then show ?thesis using assms(3) by (simp add: lines_table_def)
qed

lemma lines_table_snoc: "lines_table (ls @ [l]) = table_set (fst l) (snd (snd l)) (lines_table ls)"
  by (simp add: lines_table_def)

lemma table_set_keys: "map fst (table_set k v kvs) = (if k \<in> fst ` set kvs then map fst kvs else map fst kvs @ [k])"
  by (induction kvs) (auto simp: rev_image_eqI)

lemma lines_table_keys: "fst ` set (lines_table ls) = fst ` set ls"
proof (induction ls rule: rev_induct)
  case (snoc l ls)
  have "fst ` set (table_set k v kvs) = insert k (fst ` set kvs)" for k v kvs
    using arg_cong [OF table_set_keys [of k v kvs], of set] by auto
  then show ?case using snoc by (simp add: lines_table_snoc)
qed (simp add: lines_table_def)

lemma fst_line_kv [simp]: "fst (line_kv l) = fst l"
  by (simp add: line_kv_def)

lemma lines_table_distinct: "distinct (map fst ls) \<Longrightarrow> lines_table ls = map line_kv ls"
proof (induction ls rule: rev_induct)
  case (snoc l ls)
  then have "fst l \<notin> fst ` set (map line_kv ls)" by (simp add: image_image)
  then show ?case using snoc by (simp add: lines_table_snoc table_set_fresh) (simp add: line_kv_def)
qed (simp add: lines_table_def)

lemma lines_table_append_other:
  "k \<notin> fst ` set ls2 \<Longrightarrow> map_of (lines_table (ls1 @ ls2)) k = map_of (lines_table ls1) k"
  by (induction ls2 rule: rev_induct) (auto simp: lines_table_snoc map_of_table_set simp flip: append_assoc)

text \<open>An array of tables that does not exist while it is empty.\<close>

definition arr_root :: "(string \<times> salt_toml) list \<Rightarrow> string \<Rightarrow> salt_toml list \<Rightarrow> (string \<times> salt_toml) list" where
  "arr_root base h xs = (if xs = [] then base else base @ [(h, TArray xs)])"

lemma toml_reads_array:
  assumes "bare_key h" "h \<notin> fst ` set base" "toml_reads nxt [h] (base @ [(h, TArray (xs @ [TTable []]))]) s t"
  shows "toml_reads nxt cur (arr_root base h xs) (''[['' @ h @ '']]'' @ NL # s) t"
  using assms toml_reads_array_first [of h base nxt s t cur] toml_reads_array_next [of h base nxt xs s t cur]
  by (auto simp: arr_root_def)

lemma bare_key_token:
  assumes "bare_key k" "rest \<noteq> []" "\<not> key_char (hd rest)"
  shows "parse_key_token (k @ rest) = Some (k, rest)"
proof -
  obtain c t where k: "k = c # t" "key_char c" using assms(1) by (cases k) (auto simp: bare_key_def)
  have "takeWhile key_char (k @ rest) = k" "dropWhile key_char (k @ rest) = rest"
    using assms by (cases rest; simp add: takeWhile_append2 dropWhile_append2 bare_key_def list_all_iff)+
  moreover have "skip_ws_inline (k @ rest) = k @ rest" using k key_char_plain [of c] by (simp add: skip_ws_inline_def)
  ultimately show ?thesis
    using k key_char_plain [of c] by (simp add: parse_key_token_def Let_def del: takeWhile.simps dropWhile.simps)
qed

lemma not_key_chars [simp]: "\<not> key_char CHR ''.''" "\<not> key_char CHR '']''"
  by (simp_all add: key_char_def isalnum_def isdigit_def isupper_def islower_def)

lemma dotted_two:
  assumes "bare_key h" "bare_key k"
  shows "parse_dotted_path (h @ CHR ''.'' # k @ CHR '']'' # rest) = Some ([h, k], CHR '']'' # rest)"
proof -
  have "parse_key_token (h @ CHR ''.'' # k @ CHR '']'' # rest) = Some (h, CHR ''.'' # k @ CHR '']'' # rest)"
    by (rule bare_key_token [OF assms(1)]) simp_all
  moreover have "parse_dotted_path (k @ CHR '']'' # rest) = Some ([k], skip_ws_inline (CHR '']'' # rest))"
    by (rule dotted_bare [OF assms(2)]) (simp_all add: skip_ws_inline_def ws_inline_def)
  ultimately show ?thesis
    by (subst parse_dotted_path.simps) (simp add: skip_ws_inline_def ws_inline_def)
qed

text \<open>A table appended to the array \<open>k\<close> of the last table of the array \<open>h\<close>.\<close>

lemma toml_reads_sub_array:
  assumes hk: "bare_key h" "bare_key k" "h \<notin> fst ` set base" "k \<notin> fst ` set kvs"
    and s: "toml_reads nxt [h, k] (base @ [(h, TArray (xs @ [TTable (kvs @ [(k, TArray (ps @ [TTable []]))])]))]) s t"
  shows "toml_reads nxt cur (base @ [(h, TArray (xs @ [TTable (arr_root kvs k ps)]))]) (''[['' @ h @ ''.'' @ k @ '']]'' @ NL # s) t"
proof -
  let ?s = "''[['' @ h @ ''.'' @ k @ '']]'' @ NL # s"
  let ?root = "base @ [(h, TArray (xs @ [TTable (arr_root kvs k ps)]))]"
  let ?root' = "base @ [(h, TArray (xs @ [TTable (kvs @ [(k, TArray (ps @ [TTable []]))])]))]"
  have kk: "map_of kvs k = None" using hk(4) by (simp add: map_of_eq_None_iff)
  have "descend_table True (\<lambda>t. t) [k] (arr_root kvs k ps) = Some (kvs @ [(k, TArray (ps @ [TTable []]))])"
    using hk(4) kk by (auto simp: arr_root_def table_set_fresh table_set_last map_of_last simp del: map_of_append)
  then have d: "descend_table True (\<lambda>t. t) [h, k] ?root = Some ?root'"
    using hk(3) by (simp add: table_set_last map_of_last del: map_of_append descend_table.simps add: descend_table.simps(2) [of _ _ h])
  have "header_step ?root ?s = Some ([h, k], ?root', NL # s)"
    using dotted_two [OF hk(1,2), of "CHR '']'' # NL # s"] d
    by (simp add: header_step_def Let_def skip_ws_inline_def ws_inline_def del: descend_table.simps)
  moreover obtain n where n: "toml_loop n nxt [h, k] ?root' (NL # s) = POk t []"
    using toml_reads_nl [OF s] by (auto simp: toml_reads_def)
  ultimately have "toml_loop (Suc n) nxt cur ?root ?s = POk t []" by (simp add: Let_def)
  then show ?thesis unfolding toml_reads_def by blast
qed

lemma cursor_sub_array:
  assumes "h \<notin> fst ` set base" "k \<notin> fst ` set kvs"
  shows "cursor [h, k] (\<lambda>kv. base @ [(h, TArray (xs @ [TTable (kvs @ [(k, TArray (ps @ [TTable kv]))])]))])"
  using assms by (simp add: cursor_def table_set_last map_of_last del: map_of_append)

definition sub_text :: "string \<Rightarrow> string \<Rightarrow> (string \<times> string \<times> salt_toml) list \<Rightarrow> string" where
  "sub_text h k ls = ''[['' @ h @ ''.'' @ k @ '']]'' @ NL # concat (map line_text ls) @ [NL]"

lemma toml_reads_sub_blocks:
  assumes hk: "bare_key h" "bare_key k" "h \<notin> fst ` set base" "k \<notin> fst ` set kvs" and "list_all (block_ok nxt) bs"
    and s: "\<And>cur. toml_reads nxt cur (base @ [(h, TArray (xs @ [TTable (arr_root kvs k (ps @ map block_table bs))]))]) s t"
  shows "toml_reads nxt cur (base @ [(h, TArray (xs @ [TTable (arr_root kvs k ps)]))]) (concat (map (sub_text h k) bs) @ s) t"
  using assms(5,6)
proof (induction bs arbitrary: ps cur)
  case (Cons b bs)
  let ?s = "concat (map (sub_text h k) bs) @ s"
  have "toml_reads nxt [h, k] (base @ [(h, TArray (xs @ [TTable (arr_root kvs k (ps @ [block_table b]))]))]) ?s t"
    by (rule Cons.IH) (use Cons.prems in auto)
  then have "toml_reads nxt [h, k] (base @ [(h, TArray (xs @ [TTable (kvs @ [(k, TArray (ps @ [TTable (lines_table b)]))])]))]) ([NL] @ ?s) t"
    using Cons.prems(1) toml_reads_nl by (simp add: block_table_def arr_root_def block_ok_def lines_table_distinct)
  then have "toml_reads nxt [h, k] (base @ [(h, TArray (xs @ [TTable (kvs @ [(k, TArray (ps @ [TTable []]))])]))])
      (concat (map line_text b) @ [NL] @ ?s) t"
    by (rule toml_reads_lines_table [OF cursor_sub_array [OF hk(3,4)], rotated]) (use Cons.prems(1) in \<open>simp add: block_ok_def\<close>)
  from toml_reads_sub_array [OF hk this] show ?case by (simp add: sub_text_def [of h k b])
qed simp

end
