(* ===== verification/Salt_Index.thy ===== *)
theory Salt_Index
  imports Salt_Toml_Write
begin

text \<open>
  Writing the repository index (\<^verbatim>\<open>src/halite/src/repo.c\<close>: \<^verbatim>\<open>toml_quote\<close>, \<^verbatim>\<open>emit_list\<close>,
  \<^verbatim>\<open>salt_repo_index_to_toml\<close>, \<^verbatim>\<open>salt_repo_build_index\<close>, \<^verbatim>\<open>salt_repo_publish\<close>).
\<close>

definition quote_char :: "char \<Rightarrow> string" where
  "quote_char c =
     (if c = DQ \<or> c = CHR 0x5C then [CHR 0x5C, c]
      else if c = NL then [CHR 0x5C, CHR ''n'']
      else [c])"

definition toml_quote :: "string \<Rightarrow> string" where
  "toml_quote s = DQ # concat (map quote_char s) @ [DQ]"

definition emit_list :: "string \<Rightarrow> string list \<Rightarrow> string" where
  "emit_list key l = key @ '' = '' @ str_array toml_quote l @ [NL]"

definition raw_kv :: "string \<Rightarrow> string \<Rightarrow> string" where
  "raw_kv key s = key @ '' = '' @ DQ # s @ DQ # [NL]"

definition repo_entry_to_toml :: "salt_repo_entry \<Rightarrow> string" where
  "repo_entry_to_toml e =
     NL # ''[[package]]'' @ NL # raw_kv ''name'' (re_name e) @ raw_kv ''version'' (re_version e) @
     emit_kv ''release'' (int_to_string (re_release e)) @ raw_kv ''arch'' (re_arch e) @ raw_kv ''filename'' (re_filename e) @
     (case re_url e of None \<Rightarrow> [] | Some u \<Rightarrow> if u = [] then [] else raw_kv ''url'' u) @
     raw_kv ''sha256'' (re_sha256 e) @ emit_kv ''size'' (nat_digits (re_size e)) @
     emit_kv ''summary'' (toml_quote (re_summary e)) @ emit_list ''deps'' (re_deps e) @
     (if re_conflicts e = [] then [] else emit_list ''conflicts'' (re_conflicts e))"

definition salt_repo_index_to_toml :: "salt_repo_index \<Rightarrow> string" where
  "salt_repo_index_to_toml idx =
     raw_kv ''repo'' (ri_repo_name idx) @ raw_kv ''arch'' (ri_arch idx) @ concat (map repo_entry_to_toml (ri_items idx))"

text \<open>
  \<open>files\<close> is what \<^verbatim>\<open>readdir\<close> and \<^verbatim>\<open>salt_read_file\<close> give for the package directory, in directory order,
  \<open>sha256\<close> the digest of a file.  Archives that cannot be opened are left out.
\<close>

definition entry_of_archive :: "(string \<Rightarrow> string) \<Rightarrow> (string \<Rightarrow> salt_toml option) \<Rightarrow> string \<times> string \<Rightarrow> salt_repo_entry option" where
  "entry_of_archive sha256 parse f =
     map_option (\<lambda>ar.
       \<lparr>re_name = pm_name (ar_meta ar), re_version = pm_version (ar_meta ar), re_release = pm_release (ar_meta ar),
        re_arch = pm_arch (ar_meta ar), re_filename = fst f, re_url = None, re_sha256 = sha256 (snd f),
        re_size = length (snd f), re_summary = pm_summary (ar_meta ar), re_deps = pm_deps (ar_meta ar),
        re_conflicts = pm_conflicts (ar_meta ar)\<rparr>) (salt_archive_open parse (snd f))"

definition salt_repo_build_index :: "(string \<Rightarrow> string) \<Rightarrow> (string \<Rightarrow> salt_toml option) \<Rightarrow> (string \<times> string) list option \<Rightarrow>
    string \<Rightarrow> string \<Rightarrow> salt_repo_index option" where
  "salt_repo_build_index sha256 parse dir repo_name arch =
     map_option (\<lambda>files.
       \<lparr>ri_items = List.map_filter (entry_of_archive sha256 parse)
          (sort_key fst (filter (\<lambda>f. 6 < length (fst f) \<and> ends_with (fst f) ''.grain'') files)),
        ri_repo_name = repo_name, ri_arch = arch\<rparr>) dir"

definition with_url :: "string \<Rightarrow> salt_repo_entry \<Rightarrow> salt_repo_entry" where
  "with_url base e = (if base = [] then e
     else e\<lparr>re_url := Some (base @ (if last base = CHR ''/'' then [] else ''/'') @ re_filename e)\<rparr>)"

text \<open>
  The code and the files written below the output directory.  \<open>wr\<close> is the result of \<^verbatim>\<open>salt_write_file\<close> on a file
  of that directory, \<open>sign\<close> stands for \<^verbatim>\<open>salt_sign_buf\<close> (libsodium); an absent URL base or key is the empty string.
\<close>

definition published_index :: "string \<Rightarrow> salt_repo_index \<Rightarrow> salt_repo_index" where
  "published_index url_base idx = idx\<lparr>ri_items := map (with_url url_base) (ri_items idx)\<rparr>"

definition salt_repo_publish :: "(string \<Rightarrow> salt_rc) \<Rightarrow> (string \<Rightarrow> string \<Rightarrow> salt_rc \<times> string) \<Rightarrow> (string \<Rightarrow> string) \<Rightarrow>
    (string \<Rightarrow> salt_toml option) \<Rightarrow> (string \<times> string) list option \<Rightarrow> string \<Rightarrow> string \<Rightarrow> string \<Rightarrow> string \<Rightarrow>
    salt_rc \<times> (string \<times> string) list" where
  "salt_repo_publish wr sign sha256 parse dir repo_name arch url_base sec_key =
     (case salt_repo_build_index sha256 parse dir repo_name arch of
        None \<Rightarrow> (SALT_ERR_IO, [])
      | Some idx \<Rightarrow>
          (let toml = salt_repo_index_to_toml (published_index url_base idx);
               rc = wr ''index.toml''
           in if rc \<noteq> SALT_OK then (rc, [])
              else if sec_key = [] then (SALT_OK, [(''index.toml'', toml)])
              else let (rc2, sig) = sign toml sec_key in
                if rc2 \<noteq> SALT_OK then (rc2, [(''index.toml'', toml)])
                else (wr ''index.toml.sig'', (''index.toml'', toml) #
                        (if wr ''index.toml.sig'' = SALT_OK then [(''index.toml.sig'', sig)] else []))))"

section \<open>Reading the index back\<close>

lemma basic_body_quoted: "basic_body b (concat (map quote_char s) @ DQ # rest) = Some (b @ s, rest)"
proof (induction s arbitrary: b)
  case (Cons c s)
  show ?case using Cons.IH [of "b @ [c]"]
    by (cases "c = DQ \<or> c = CHR 0x5C \<or> c = NL") (auto simp: quote_char_def parse_escape_def)
qed simp

lemma parse_value_toml_quote:
  "no_nul s \<Longrightarrow> rest = [] \<or> hd rest \<noteq> DQ \<Longrightarrow> list_all ws_inline w \<Longrightarrow>
     parse_value (Suc n) nxt (w @ toml_quote s @ rest) = POk (TString s) rest"
proof -
  have "concat (map quote_char s) = [] \<or> hd (concat (map quote_char s)) \<noteq> DQ" by (cases s) (auto simp: quote_char_def)
  then show "no_nul s \<Longrightarrow> rest = [] \<or> hd rest \<noteq> DQ \<Longrightarrow> list_all ws_inline w \<Longrightarrow>
     parse_value (Suc n) nxt (w @ toml_quote s @ rest) = POk (TString s) rest"
    using parse_value_quoted [of "concat (map quote_char s)" rest s w n nxt, OF basic_body_quoted] by (simp add: toml_quote_def)
qed

definition quote_line :: "string \<Rightarrow> string \<Rightarrow> string \<times> string \<times> salt_toml" where
  "quote_line k s = (k, toml_quote s, TString s)"

definition list_line :: "string \<Rightarrow> string list \<Rightarrow> string \<times> string \<times> salt_toml" where
  "list_line k l = (k, str_array toml_quote l, TArray (map TString l))"

lemma quote_line_simps [simp]:
  "fst (quote_line k s) = k" "line_kv (quote_line k s) = (k, TString s)"
  "fst (list_line k l) = k" "line_kv (list_line k l) = (k, TArray (map TString l))"
  by (simp_all add: quote_line_def list_line_def line_kv_def)

lemma quote_line_ok [simp]: "bare_key k \<Longrightarrow> no_nul s \<Longrightarrow> line_ok nxt (quote_line k s)"
  unfolding line_ok_def quote_line_def fst_conv snd_conv val_reads_def
proof (intro conjI allI exI)
  fix rest assume "no_nul s"
  then show "parse_value (Suc 0) nxt (CHR '' '' # toml_quote s @ NL # rest) = POk (TString s) (NL # rest)"
    using parse_value_toml_quote [of s "NL # rest" "'' ''" 0 nxt] by (simp add: ws_inline_def del: parse_value.simps)
qed

lemma list_line_ok [simp]: "bare_key k \<Longrightarrow> list_all no_nul l \<Longrightarrow> line_ok nxt (list_line k l)"
  unfolding line_ok_def list_line_def fst_conv snd_conv
  by (intro conjI val_reads_str_array)
    (use parse_value_toml_quote [of _ _ "[]" _ nxt] in \<open>auto simp: list_all_iff toml_quote_def simp del: parse_value.simps\<close>)

definition repo_entry_ok :: "salt_repo_entry \<Rightarrow> bool" where
  "repo_entry_ok e \<longleftrightarrow> plain_string (re_name e) \<and> plain_string (re_version e) \<and> plain_string (re_arch e) \<and>
     plain_string (re_filename e) \<and> pred_option plain_string (re_url e) \<and> re_url e \<noteq> Some [] \<and> plain_string (re_sha256 e) \<and>
     no_nul (re_summary e) \<and> list_all no_nul (re_deps e) \<and> list_all no_nul (re_conflicts e) \<and>
     - (2 ^ 31) \<le> re_release e \<and> re_release e < 2 ^ 31 \<and> re_size e < 2 ^ 63"

definition index_lines :: "salt_repo_entry \<Rightarrow> (string \<times> string \<times> salt_toml) list" where
  "index_lines e = [raw_line ''name'' (re_name e), raw_line ''version'' (re_version e), int_line ''release'' (re_release e),
     raw_line ''arch'' (re_arch e), raw_line ''filename'' (re_filename e)] @
     (case re_url e of None \<Rightarrow> [] | Some u \<Rightarrow> [raw_line ''url'' u]) @
     [raw_line ''sha256'' (re_sha256 e), int_line ''size'' (int (re_size e)), quote_line ''summary'' (re_summary e),
      list_line ''deps'' (re_deps e)] @
     (if re_conflicts e = [] then [] else [list_line ''conflicts'' (re_conflicts e)])"

lemma bare_keys_index [simp]: "bare_key ''repo''" "bare_key ''filename''" "bare_key ''url''" "bare_key ''package''"
  by (simp_all add: bare_key_def key_char_def isalnum_def isdigit_def isupper_def islower_def)

lemma index_entry_text: "repo_entry_ok e \<Longrightarrow> repo_entry_to_toml e = block_text 1 ''package'' 0 (index_lines e)"
  by (auto simp: repo_entry_to_toml_def block_text_def index_lines_def repo_entry_ok_def line_text_def raw_line_def int_line_def
      quote_line_def list_line_def int_to_string_def emit_kv_def raw_kv_def emit_list_def split: option.split)

lemma index_lines_ok: "repo_entry_ok e \<Longrightarrow> block_ok nxt (index_lines e)"
proof -
  assume a: "repo_entry_ok e"
  then have "c_long_long (int (re_size e))" "c_long_long (re_release e)" by (simp_all add: repo_entry_ok_def c_long_long_def)
  then show ?thesis using a by (auto simp: block_ok_def index_lines_def repo_entry_ok_def split: option.split)
qed

definition index_ok :: "salt_repo_index \<Rightarrow> bool" where
  "index_ok idx \<longleftrightarrow> plain_string (ri_repo_name idx) \<and> plain_string (ri_arch idx) \<and> list_all repo_entry_ok (ri_items idx)"

definition index_tree :: "salt_repo_index \<Rightarrow> (string \<times> salt_toml) list" where
  "index_tree idx = [(''repo'', TString (ri_repo_name idx)), (''arch'', TString (ri_arch idx))] @
     (if ri_items idx = [] then [] else [(''package'', TArray (map (\<lambda>e. block_table (index_lines e)) (ri_items idx)))])"

lemma index_reads:
  assumes "index_ok idx" shows "toml_reads nxt [] [] (salt_repo_index_to_toml idx) (index_tree idx)"
proof -
  let ?h = "[raw_line ''repo'' (ri_repo_name idx), raw_line ''arch'' (ri_arch idx)]"
  let ?bs = "map index_lines (ri_items idx)"
  have t: "map repo_entry_to_toml (ri_items idx) = map (block_text 1 ''package'' 0) ?bs"
    using assms index_entry_text by (auto simp: index_ok_def list_all_iff)
  have "toml_reads nxt [] ([] @ map line_kv ?h) (concat (map (block_text 1 ''package'' 0) ?bs) @ []) (index_tree idx)"
  proof (cases "ri_items idx = []")
    case False
    then show ?thesis
      by (intro toml_reads_blocks)
        (use assms index_lines_ok toml_reads_nil in \<open>auto simp: index_ok_def list_all_iff index_tree_def comp_def\<close>)
  qed (simp add: index_tree_def toml_reads_nil)
  then have "toml_reads nxt [] [] (concat (map line_text ?h) @ concat (map (block_text 1 ''package'' 0) ?bs) @ []) (index_tree idx)"
    by (rule toml_reads_lines [where put = "\<lambda>kvs. kvs", rotated 4])
      (use assms in \<open>simp_all add: cursor_root index_ok_def\<close>)
  then show ?thesis unfolding salt_repo_index_to_toml_def t by (simp add: raw_kv_def line_text_def raw_line_def emit_kv_def)
qed

lemma entry_from_index_lines: "repo_entry_ok e \<Longrightarrow> repo_entry_from_toml (Some (block_table (index_lines e))) = e"
proof -
  assume a: "repo_entry_ok e"
  let ?m = "map_of (map line_kv (index_lines e))"
  have mt: "?m ''name'' = Some (TString (re_name e))" "?m ''version'' = Some (TString (re_version e))"
    "?m ''release'' = Some (TInt (re_release e))" "?m ''arch'' = Some (TString (re_arch e))"
    "?m ''filename'' = Some (TString (re_filename e))" "?m ''url'' = map_option TString (re_url e)"
    "?m ''sha256'' = Some (TString (re_sha256 e))" "?m ''size'' = Some (TInt (int (re_size e)))"
    "?m ''summary'' = Some (TString (re_summary e))" "?m ''deps'' = Some (TArray (map TString (re_deps e)))"
    "?m ''conflicts'' = (if re_conflicts e = [] then None else Some (TArray (map TString (re_conflicts e))))"
    by (auto simp: index_lines_def split: option.split)
  have "c_int (re_release e) = re_release e" "int (re_size e) mod 2 ^ 64 = int (re_size e)" "re_url e \<noteq> Some []"
    using a by (simp_all add: repo_entry_ok_def c_int_def)
  then show ?thesis
    by (intro salt_repo_entry.equality)
      (auto simp: repo_entry_from_toml_def Let_def block_table_def salt_toml_string_def salt_toml_string_opt_def salt_toml_int_def
        path_key1 mt salt_toml_as_string_def salt_toml_as_int_def string_array_or_empty_def salt_toml_string_array_def
        string_array_TString simp del: salt_toml_path.simps split: option.split)
qed

lemma index_reads_back:
  assumes "index_ok idx" "toml_parser parse"
  shows "salt_repo_index_load parse (salt_repo_index_to_toml idx) = Some idx"
proof -
  have p: "parse (salt_repo_index_to_toml idx) = Some (TTable (index_tree idx))"
    by (rule toml_parser_reads [OF assms(2)]) (rule index_reads [OF assms(1)])
  have "map (\<lambda>e. repo_entry_from_toml (Some (block_table (index_lines e)))) (ri_items idx) = ri_items idx"
    using assms(1) entry_from_index_lines by (intro map_idI) (auto simp: index_ok_def list_all_iff)
  then show ?thesis
    unfolding salt_repo_index_load_def p option.case option.inject
    by (intro salt_repo_index.equality)
      (auto simp: index_tree_def salt_toml_get_def comp_def salt_toml_string_def salt_toml_string_opt_def path_key1
        salt_toml_as_string_def simp del: salt_toml_path.simps)
qed

section \<open>Publishing\<close>

lemma built_items:
  assumes "salt_repo_build_index sha256 parse (Some files) repo_name arch = Some idx"
  shows "e \<in> set (ri_items idx) \<longleftrightarrow>
    (\<exists>f \<in> set files. 6 < length (fst f) \<and> ends_with (fst f) ''.grain'' \<and> entry_of_archive sha256 parse f = Some e)"
proof -
  have "ri_items idx = List.map_filter (entry_of_archive sha256 parse)
      (sort_key fst (filter (\<lambda>f. 6 < length (fst f) \<and> ends_with (fst f) ''.grain'') files))"
    using assms by (auto simp: salt_repo_build_index_def)
  then show ?thesis by (simp only: in_map_filter set_sort set_filter) blast
qed

text \<open>
  C27. What \<^verbatim>\<open>salt_repo_publish\<close> writes is what a client loads: the index read back has an entry for every
  package file that opens, with the name and version of its metadata and the digest of its bytes, and no
  entry without such a file.
\<close>

theorem publish_then_load:
  assumes "salt_repo_publish wr sign sha256 parse (Some files) repo_name arch url_base sec_key = (rc, out)" "rc = SALT_OK"
    and "salt_repo_build_index sha256 parse (Some files) repo_name arch = Some idx0"
    and "index_ok (published_index url_base idx0)" "toml_parser parse"
  shows "\<exists>toml idx. map_of out ''index.toml'' = Some toml \<and> salt_repo_index_load parse toml = Some idx \<and>
    (\<forall>e. e \<in> set (ri_items idx) \<longleftrightarrow>
       (\<exists>f \<in> set files. \<exists>ar. 6 < length (fst f) \<and> ends_with (fst f) ''.grain'' \<and> salt_archive_open parse (snd f) = Some ar \<and>
          e = with_url url_base
            \<lparr>re_name = pm_name (ar_meta ar), re_version = pm_version (ar_meta ar), re_release = pm_release (ar_meta ar),
             re_arch = pm_arch (ar_meta ar), re_filename = fst f, re_url = None, re_sha256 = sha256 (snd f),
             re_size = length (snd f), re_summary = pm_summary (ar_meta ar), re_deps = pm_deps (ar_meta ar),
             re_conflicts = pm_conflicts (ar_meta ar)\<rparr>))"
proof -
  let ?idx = "published_index url_base idx0"
  have "map_of out ''index.toml'' = Some (salt_repo_index_to_toml ?idx)"
    using assms(1-3) by (auto simp: salt_repo_publish_def Let_def split: if_splits prod.splits)
  moreover have "salt_repo_index_load parse (salt_repo_index_to_toml ?idx) = Some ?idx"
    using index_reads_back assms(4,5) by blast
  moreover have "e \<in> set (ri_items ?idx) \<longleftrightarrow>
      (\<exists>f \<in> set files. \<exists>ar. 6 < length (fst f) \<and> ends_with (fst f) ''.grain'' \<and> salt_archive_open parse (snd f) = Some ar \<and>
          e = with_url url_base
            \<lparr>re_name = pm_name (ar_meta ar), re_version = pm_version (ar_meta ar), re_release = pm_release (ar_meta ar),
             re_arch = pm_arch (ar_meta ar), re_filename = fst f, re_url = None, re_sha256 = sha256 (snd f),
             re_size = length (snd f), re_summary = pm_summary (ar_meta ar), re_deps = pm_deps (ar_meta ar),
             re_conflicts = pm_conflicts (ar_meta ar)\<rparr>)" (is "_ \<longleftrightarrow> ?R e") for e
  proof -
    have "e \<in> set (ri_items ?idx) \<longleftrightarrow> (\<exists>e0. e0 \<in> set (ri_items idx0) \<and> e = with_url url_base e0)"
      by (auto simp: published_index_def)
    also have "\<dots> \<longleftrightarrow> (\<exists>e0. (\<exists>f \<in> set files. 6 < length (fst f) \<and> ends_with (fst f) ''.grain'' \<and>
        entry_of_archive sha256 parse f = Some e0) \<and> e = with_url url_base e0)"
      by (simp only: built_items [OF assms(3)])
    also have "\<dots> \<longleftrightarrow> ?R e" by (auto simp: entry_of_archive_def)
    finally show ?thesis .
  qed
  ultimately show ?thesis by blast
qed

text \<open>A package file with empty metadata and an empty manifest.\<close>

definition ex_empty_grain :: string where
  "ex_empty_grain = ex_header ''metadata.toml'' @ ex_block NL @ ex_header ''manifest.toml'' @ ex_block NL"

lemma ex_empty_grain_open: "\<exists>ar. salt_archive_open (toml_text CHR 0x00) ex_empty_grain = Some ar \<and>
    pm_name (ar_meta ar) = [] \<and> pm_version (ar_meta ar) = [] \<and> pm_release (ar_meta ar) = 1 \<and> pm_arch (ar_meta ar) = [] \<and>
    pm_summary (ar_meta ar) = [] \<and> pm_deps (ar_meta ar) = [] \<and> pm_conflicts (ar_meta ar) = []"
proof -
  have nil: "tar_entries None None [] = ([], SALT_OK)" by (subst tar_entries.simps) (simp add: TAR_BLOCK_def)
  obtain e2 where e2: "tar_entries None None (ex_header ''manifest.toml'' @ ex_block NL @ []) = ([e2], SALT_OK)"
      "te_path e2 = ''manifest.toml''" "te_data e2 = [NL]"
    using ex_tar_entry [of "''manifest.toml''" NL "[]"] by (auto simp: nil)
  obtain e1 where e1: "tar_entries None None ex_empty_grain = ([e1, e2], SALT_OK)" "te_path e1 = ''metadata.toml''" "te_data e1 = [NL]"
    using ex_tar_entry [of "''metadata.toml''" NL "ex_header ''manifest.toml'' @ ex_block NL"] e2(1) by (auto simp: ex_empty_grain_def)
  have t: "toml_text CHR 0x00 [NL] = Some (TTable [])" by code_simp
  show ?thesis using e1 e2
    by (simp add: salt_archive_open_def salt_tar_read_def open_cb_def salt_pkg_meta_from_toml_def t salt_manifest_from_toml_def
        salt_toml_string_def salt_toml_string_opt_def salt_toml_int_def path_key1 salt_toml_as_string_def salt_toml_as_int_def
        string_array_or_empty_def salt_toml_string_array_def salt_toml_get_def c_int_def del: salt_toml_path.simps)
qed

theorem publish_then_load_witness:
  "\<exists>toml idx. map_of (snd (salt_repo_publish (\<lambda>_. SALT_OK) (\<lambda>_ _. (SALT_OK, [])) (\<lambda>_. ''00'') (toml_text CHR 0x00)
       (Some [(''vim.grain'', ex_empty_grain)]) ''core'' ''any'' [] [])) ''index.toml'' = Some toml \<and>
     salt_repo_index_load (toml_text CHR 0x00) toml = Some idx \<and>
     (\<exists>e \<in> set (ri_items idx). re_filename e = ''vim.grain'' \<and> re_sha256 e = ''00'')"
proof -
  let ?files = "[(''vim.grain'', ex_empty_grain)]" and ?parse = "toml_text CHR 0x00" and ?sha = "\<lambda>_ :: string. ''00''"
  let ?pub = "salt_repo_publish (\<lambda>_. SALT_OK) (\<lambda>_ _. (SALT_OK, [])) ?sha ?parse (Some ?files) ''core'' ''any'' [] []"
  obtain ar where ar: "salt_archive_open ?parse ex_empty_grain = Some ar" "pm_name (ar_meta ar) = []" "pm_version (ar_meta ar) = []"
      "pm_release (ar_meta ar) = 1" "pm_arch (ar_meta ar) = []" "pm_summary (ar_meta ar) = []" "pm_deps (ar_meta ar) = []"
      "pm_conflicts (ar_meta ar) = []"
    using ex_empty_grain_open by blast
  define e where "e = \<lparr>re_name = [], re_version = [], re_release = 1, re_arch = [], re_filename = ''vim.grain'', re_url = None,
      re_sha256 = ''00'', re_size = length ex_empty_grain, re_summary = [], re_deps = [], re_conflicts = []\<rparr>"
  have b: "salt_repo_build_index ?sha ?parse (Some ?files) ''core'' ''any'' = Some \<lparr>ri_items = [e], ri_repo_name = ''core'', ri_arch = ''any''\<rparr>"
    by (simp add: salt_repo_build_index_def ends_with_def entry_of_archive_def ar e_def map_filter_def)
  have l: "length ex_empty_grain = 2048" by (simp add: ex_empty_grain_def ex_header_def ex_block_def)
  have ok: "index_ok (published_index [] \<lparr>ri_items = [e], ri_repo_name = ''core'', ri_arch = ''any''\<rparr>)"
    by (simp add: index_ok_def published_index_def with_url_def repo_entry_ok_def e_def plain_string_def no_nul_def l)
  have "fst ?pub = SALT_OK" by (simp add: salt_repo_publish_def b)
  from publish_then_load [OF prod.collapse [symmetric] this b ok toml_parser_text]
  obtain toml idx where x: "map_of (snd ?pub) ''index.toml'' = Some toml" "salt_repo_index_load ?parse toml = Some idx"
    and it: "\<forall>e. e \<in> set (ri_items idx) \<longleftrightarrow> (\<exists>f \<in> set ?files. \<exists>ar. 6 < length (fst f) \<and> ends_with (fst f) ''.grain'' \<and>
        salt_archive_open ?parse (snd f) = Some ar \<and> e = with_url []
            \<lparr>re_name = pm_name (ar_meta ar), re_version = pm_version (ar_meta ar), re_release = pm_release (ar_meta ar),
             re_arch = pm_arch (ar_meta ar), re_filename = fst f, re_url = None, re_sha256 = ''00'',
             re_size = length (snd f), re_summary = pm_summary (ar_meta ar), re_deps = pm_deps (ar_meta ar),
             re_conflicts = pm_conflicts (ar_meta ar)\<rparr>)"
    by blast
  have "e \<in> set (ri_items idx)" unfolding it [rule_format] by (simp add: ends_with_def ar e_def with_url_def)
  then have "\<exists>e \<in> set (ri_items idx). re_filename e = ''vim.grain'' \<and> re_sha256 e = ''00''" by (rule rev_bexI) (simp add: e_def)
  with x show ?thesis by blast
qed

end
