(* ===== verification/Salt_Lock.thy ===== *)
theory Salt_Lock
  imports Salt_Commit Salt_Index
begin

text \<open>
  The lock file (\<^verbatim>\<open>src/salt/cmd_lock.cpp\<close>): writing the installed packages with their digests, loading it,
  comparing a system with it and making a system match it, and \<^verbatim>\<open>cmd_install\<close> (\<^verbatim>\<open>cmd_install.cpp\<close>), which can
  install from it.  The packages of the strata are kept by foreign package managers: the operations on
  them are parameters (\<open>foreign\<close>).  The lock file is one of \<open>w_files\<close>.
\<close>

section \<open>Types\<close>

record LockEntry =
  le_name :: string
  le_version :: string
  le_release :: int
  le_arch :: string
  le_sha256 :: string
  le_repo :: string
  le_filename :: string

record ForeignPin =
  fp_name :: string
  fp_version :: string
  fp_digest :: string

record StratumLock =
  sl_name :: string
  sl_family :: string
  sl_package_manager :: string
  sl_packages :: "ForeignPin list"

record LockCompare =
  lc_extra :: "string list"
  lc_missing :: "LockEntry list"
  lc_changed :: "(LockEntry \<times> string) list"
  lc_matched :: nat

record StratumCompare =
  sc_missing :: "ForeignPin list"
  sc_changed :: "ForeignPin list"
  sc_changed_from :: "string list"
  sc_extra :: "string list"
  sc_matched :: nat

text \<open>
  What the strata subsystem is asked.  \<open>fo_open\<close> opens the strata database, \<open>fo_list\<close> lists the strata (name,
  family, package manager), \<open>fo_get\<close> looks one up, \<open>fo_recipe\<close> gives the bootstrap URL, its digest and the
  repository URLs of a recipe that loads, \<open>fo_query\<close> lists the installed packages with their digests (a
  digest may be missing), \<open>fo_ensure\<close> bootstraps a stratum, \<open>fo_snapshot\<close> and \<open>fo_rollback\<close> take and restore a
  snapshot, \<open>fo_remove\<close> and \<open>fo_install_exact\<close> run the package manager and give its exit status.
\<close>

type_synonym live_pkg = "string \<times> string \<times> string option"

record foreign =
  fo_open :: "world \<Rightarrow> bool"
  fo_list :: "world \<Rightarrow> (string \<times> string option \<times> string option) list option"
  fo_get :: "string \<Rightarrow> world \<Rightarrow> bool"
  fo_recipe :: "string \<Rightarrow> (string \<times> string \<times> string list) option"
  fo_query :: "string \<Rightarrow> world \<Rightarrow> live_pkg list option"
  fo_ensure :: "string \<Rightarrow> world \<Rightarrow> int \<times> world"
  fo_snapshot :: "string \<Rightarrow> world \<Rightarrow> int option \<times> world"
  fo_remove :: "string \<Rightarrow> string list \<Rightarrow> world \<Rightarrow> (salt_rc \<times> int) \<times> world"
  fo_install_exact :: "string \<Rightarrow> ForeignPin list \<Rightarrow> world \<Rightarrow> (salt_rc \<times> int) \<times> world"
  fo_rollback :: "string \<Rightarrow> int \<Rightarrow> world \<Rightarrow> salt_rc \<times> world"

section \<open>Paths\<close>

definition lock_path_for :: "Options \<Rightarrow> string \<Rightarrow> string" where
  "lock_path_for opt override_path =
     (if override_path \<noteq> [] then override_path else path_join (o_root opt) ''etc/salt/system.lock.toml'')"

definition system_config_path :: "sys \<Rightarrow> Options \<Rightarrow> string" where
  "system_config_path y opt =
     (let lua = path_join (o_root opt) ''etc/salt/system.lua'';
          legacy = path_join (o_root opt) ''etc/salt/system.toml''
      in if \<not> sys_access y lua \<and> sys_access y legacy then legacy else lua)"

definition strip_sha_prefix :: "string \<Rightarrow> string" where
  "strip_sha_prefix s = (if starts_with s ''sha256:'' then drop 7 s else s)"

section \<open>Writing\<close>

definition load_index :: "sys \<Rightarrow> Options \<Rightarrow> world \<Rightarrow> salt_repo_index option" where
  "load_index y opt w =
     (case w_files w (index_path_for y opt) of None \<Rightarrow> None | Some d \<Rightarrow> salt_repo_index_load (sys_toml y) d)"

text \<open>The digest and the file name a package is pinned with; \<^const>\<open>None\<close> when it cannot be.\<close>

definition native_pin :: "salt_repo_index option \<Rightarrow> salt_db_pkg \<Rightarrow> (string \<times> string) option" where
  "native_pin idx p =
     (if salt_sha256_hex_valid (dp_sha256 p) then Some (dp_sha256 p, dp_filename p)
      else case (case idx of None \<Rightarrow> None
                  | Some ix \<Rightarrow> salt_repo_index_find_exact ix (dp_name p) (dp_version p) (dp_release p)) of
             None \<Rightarrow> None
           | Some e \<Rightarrow> if salt_repo_entry_hash_ok e then Some (re_sha256 e, re_filename e) else None)"

definition raw_quote :: "string \<Rightarrow> string" where
  "raw_quote s = DQ # s @ [DQ]"

definition native_entry_text :: "tables \<Rightarrow> salt_db_pkg \<Rightarrow> string \<times> string \<Rightarrow> string" where
  "native_entry_text t p pin =
     ''[[native]]'' @ NL # raw_kv ''name'' (dp_name p) @ raw_kv ''version'' (dp_version p) @
     emit_kv ''release'' (int_to_string (dp_release p)) @ raw_kv ''arch'' (dp_arch p) @
     raw_kv ''grain_sha256'' (''sha256:'' @ fst pin) @
     (if snd pin = [] then [] else raw_kv ''filename'' (snd pin)) @
     raw_kv ''repo'' (dp_repo p) @
     (let deps = salt_db_pkg_deps t (dp_name p)
      in if deps = [] then [] else emit_kv ''deps'' (str_array raw_quote deps)) @
     [NL]"

definition emit_native :: "sys \<Rightarrow> Options \<Rightarrow> world \<Rightarrow> int \<times> string" where
  "emit_native y opt w =
     (if \<not> sql_ok (env_sql (sys_env y)) SqlOpen then (1, [])
      else let idx = load_index y opt w;
               head = (case salt_sha256_file y (index_path_for y opt) w of
                         Some h \<Rightarrow> raw_kv ''repo_index_sha256'' (''sha256:'' @ h) @ [NL] | None \<Rightarrow> []);
               installed = salt_db_list_installed (w_tab w)
           in (if list_all (\<lambda>p. native_pin idx p \<noteq> None) installed then 0 else 1,
               head @ concat (map (\<lambda>p. case native_pin idx p of
                                         Some pin \<Rightarrow> native_entry_text (w_tab w) p pin | None \<Rightarrow> []) installed)))"

definition stratum_text :: "foreign \<Rightarrow> string \<times> string option \<times> string option \<Rightarrow> string" where
  "stratum_text fo s =
     (let (name, family, pm) = s in
      ''[[stratum]]'' @ NL # raw_kv ''name'' name @
      (case family of Some x \<Rightarrow> raw_kv ''family'' x | None \<Rightarrow> []) @
      (case pm of Some x \<Rightarrow> raw_kv ''package_manager'' x | None \<Rightarrow> []) @
      (case fo_recipe fo name of
         None \<Rightarrow> []
       | Some (url, sha, repos) \<Rightarrow>
           (if url = [] then [] else raw_kv ''bootstrap_url'' url) @
           (if sha = [] then [] else raw_kv ''bootstrap_sha256'' sha) @
           concat (map (raw_kv ''repo_snapshot'') repos)) @
      [NL])"

definition foreign_pkg_text :: "live_pkg \<Rightarrow> string" where
  "foreign_pkg_text p =
     (let (name, version, digest) = p in
      ''[[stratum.package]]'' @ NL # raw_kv ''name'' name @ raw_kv ''version'' version @
      raw_kv ''digest'' (case digest of Some d \<Rightarrow> d | None \<Rightarrow> ''(null)'') @ [NL])"

fun emit_strata_list :: "foreign \<Rightarrow> world \<Rightarrow> (string \<times> string option \<times> string option) list \<Rightarrow> int \<times> string" where
  "emit_strata_list fo w [] = (0, [])"
| "emit_strata_list fo w (s # ss) =
     (case fo_query fo (fst s) w of
        None \<Rightarrow> (1, stratum_text fo s)
      | Some pkgs \<Rightarrow>
          (let (rc, rest) = emit_strata_list fo w ss
           in (rc, stratum_text fo s @ concat (map foreign_pkg_text pkgs) @ rest)))"

definition emit_strata :: "foreign \<Rightarrow> world \<Rightarrow> int \<times> string" where
  "emit_strata fo w = (if \<not> fo_open fo w then (0, []) else
     case fo_list fo w of None \<Rightarrow> (0, []) | Some l \<Rightarrow> emit_strata_list fo w l)"

text \<open>\<open>now\<close> is the output of \<^verbatim>\<open>iso_now\<close>.\<close>

definition lock_write :: "string \<Rightarrow> foreign \<Rightarrow> sys \<Rightarrow> Options \<Rightarrow> string \<Rightarrow> bool \<Rightarrow> world \<Rightarrow> int \<times> world" where
  "lock_write now fo y opt out_path update_existing w =
     (if update_existing \<and> w_files w out_path = None then (1, w)
      else let head = emit_kv ''schema'' (int_to_string 2) @ raw_kv ''generated'' now @ raw_kv ''arch'' (arch_detect y) @
                 (case salt_sha256_file y (system_config_path y opt) w of
                    Some h \<Rightarrow> raw_kv ''config_hash'' (''sha256:'' @ h) | None \<Rightarrow> []);
               (rc1, native) = emit_native y opt w
           in if rc1 \<noteq> 0 then (1, w)
              else let (rc2, strata) = emit_strata fo w in
                if rc2 \<noteq> 0 then (1, w)
                else if \<not> sys_write_ok y out_path then (1, w)
                else (0, put_file out_path (head @ native @ strata) w))"

section \<open>Loading\<close>

definition salt_toml_parse_file :: "sys \<Rightarrow> string \<Rightarrow> world \<Rightarrow> salt_toml option" where
  "salt_toml_parse_file y path w =
     (if ends_with path ''.lua'' then sys_conf_load y path
      else case w_files w path of None \<Rightarrow> None | Some d \<Rightarrow> sys_toml y d)"

definition lock_entry_of :: "salt_toml \<Rightarrow> LockEntry option" where
  "lock_entry_of t =
     (let nm = salt_toml_string (Some t) ''name'' [];
          ver = salt_toml_string (Some t) ''version'' [];
          sha = (case salt_toml_string_opt (Some t) ''grain_sha256'' of
                   Some s \<Rightarrow> Some s | None \<Rightarrow> salt_toml_string_opt (Some t) ''sha256'');
          hex = (case sha of Some s \<Rightarrow> strip_sha_prefix s | None \<Rightarrow> [])
      in if nm = [] then None
         else if ver = [] then None
         else if \<not> salt_sha256_hex_valid hex then None
         else Some \<lparr>le_name = nm, le_version = ver, le_release = c_int (salt_toml_int (Some t) ''release'' 1),
                    le_arch = salt_toml_string (Some t) ''arch'' [], le_sha256 = hex,
                    le_repo = salt_toml_string (Some t) ''repo'' ''current'',
                    le_filename = salt_toml_string (Some t) ''filename'' []\<rparr>)"

fun load_native :: "string set \<Rightarrow> salt_toml list \<Rightarrow> LockEntry list option" where
  "load_native seen [] = Some []"
| "load_native seen (t # ts) =
     (case lock_entry_of t of
        None \<Rightarrow> None
      | Some le \<Rightarrow>
          if le_name le \<in> seen then None
          else map_option (\<lambda>l. le # l) (load_native (insert (le_name le) seen) ts))"

text \<open>A digest has a colon with something after it: \<^verbatim>\<open>strchr (d, ':')[1] != 0\<close>.\<close>

definition digest_ok :: "string \<Rightarrow> bool" where
  "digest_ok d \<longleftrightarrow> (case find_char (CHR '':'') d of None \<Rightarrow> False | Some i \<Rightarrow> i + 1 < length d)"

definition foreign_pin_of :: "salt_toml \<Rightarrow> ForeignPin option" where
  "foreign_pin_of t =
     (let nm = salt_toml_string (Some t) ''name'' [];
          ver = salt_toml_string (Some t) ''version'' [];
          dig = salt_toml_string (Some t) ''digest'' []
      in if nm = [] \<or> ver = [] \<or> dig = [] \<or> \<not> digest_ok dig then None
         else Some \<lparr>fp_name = nm, fp_version = ver, fp_digest = dig\<rparr>)"

fun load_pins :: "string set \<Rightarrow> salt_toml list \<Rightarrow> ForeignPin list option" where
  "load_pins seen [] = Some []"
| "load_pins seen (t # ts) =
     (case foreign_pin_of t of
        None \<Rightarrow> None
      | Some p \<Rightarrow> if fp_name p \<in> seen then None
                  else map_option (\<lambda>l. p # l) (load_pins (insert (fp_name p) seen) ts))"

fun load_strata :: "string set \<Rightarrow> salt_toml list \<Rightarrow> StratumLock list option" where
  "load_strata seen [] = Some []"
| "load_strata seen (t # ts) =
     (let nm = salt_toml_string (Some t) ''name'' [] in
      if nm = [] \<or> nm \<in> seen then None
      else case (case salt_toml_get (Some t) ''package'' of
                   None \<Rightarrow> Some [] | Some (TArray ps) \<Rightarrow> load_pins {} ps | Some _ \<Rightarrow> None) of
             None \<Rightarrow> None
           | Some ps \<Rightarrow>
               map_option (\<lambda>l. \<lparr>sl_name = nm, sl_family = salt_toml_string (Some t) ''family'' [],
                                sl_package_manager = salt_toml_string (Some t) ''package_manager'' [],
                                sl_packages = ps\<rparr> # l)
                 (load_strata (insert nm seen) ts))"

definition lock_load :: "sys \<Rightarrow> string \<Rightarrow> world \<Rightarrow> (LockEntry list \<times> StratumLock list) option" where
  "lock_load y path w =
     (case salt_toml_parse_file y path w of
        None \<Rightarrow> None
      | Some root \<Rightarrow>
          (case (case salt_toml_get (Some root) ''native'' of
                   None \<Rightarrow> Some [] | Some (TArray ts) \<Rightarrow> load_native {} ts | Some _ \<Rightarrow> None) of
             None \<Rightarrow> None
           | Some native \<Rightarrow>
               map_option (\<lambda>strata. (native, strata))
                 (case salt_toml_get (Some root) ''stratum'' of
                    None \<Rightarrow> Some [] | Some (TArray ts) \<Rightarrow> load_strata {} ts | Some _ \<Rightarrow> None)))"

section \<open>Comparing\<close>

definition pkg_cur :: "salt_db_pkg \<Rightarrow> string" where
  "pkg_cur p = dp_version p @ ''-'' @ int_to_string (dp_release p)"

definition same_ver :: "LockEntry \<Rightarrow> salt_db_pkg \<Rightarrow> bool" where
  "same_ver le p \<longleftrightarrow> le_version le = dp_version p \<and> le_release le = dp_release p"

definition same_sha :: "LockEntry \<Rightarrow> salt_db_pkg \<Rightarrow> bool" where
  "same_sha le p \<longleftrightarrow> \<not> salt_sha256_hex_valid (dp_sha256 p) \<or> le_sha256 le = dp_sha256 p"

definition compare_entry :: "tables \<Rightarrow> LockEntry \<Rightarrow> LockCompare \<Rightarrow> LockCompare" where
  "compare_entry t le c =
     (case salt_db_get_pkg t (le_name le) of
        None \<Rightarrow> c\<lparr>lc_missing := lc_missing c @ [le]\<rparr>
      | Some p \<Rightarrow>
          if same_ver le p \<and> same_sha le p then c\<lparr>lc_matched := lc_matched c + 1\<rparr>
          else if \<not> same_ver le p then c\<lparr>lc_changed := lc_changed c @ [(le, pkg_cur p)]\<rparr>
          else c\<lparr>lc_changed := lc_changed c @ [(le, pkg_cur p @ '' (sha256 '' @ dp_sha256 p @ '')'')]\<rparr>)"

definition compare_lock :: "tables \<Rightarrow> LockEntry list \<Rightarrow> LockCompare" where
  "compare_lock t lock =
     (let c = fold (compare_entry t) lock \<lparr>lc_extra = [], lc_missing = [], lc_changed = [], lc_matched = 0\<rparr>
      in c\<lparr>lc_extra := map dp_name (filter (\<lambda>p. dp_name p \<notin> le_name ` set lock) (salt_db_list_installed t))\<rparr>)"

definition sc_diffs :: "StratumCompare \<Rightarrow> nat" where
  "sc_diffs c = length (sc_missing c) + length (sc_changed c) + length (sc_extra c)"

definition compare_pin :: "live_pkg list \<Rightarrow> ForeignPin \<Rightarrow> StratumCompare \<Rightarrow> StratumCompare" where
  "compare_pin live p c =
     (case find (\<lambda>l. fst l = fp_name p) live of
        None \<Rightarrow> c\<lparr>sc_missing := sc_missing c @ [p]\<rparr>
      | Some (_, version, digest) \<Rightarrow>
          if fp_version p \<noteq> version
          then c\<lparr>sc_changed := sc_changed c @ [p], sc_changed_from := sc_changed_from c @ [version]\<rparr>
          else (case digest of
                  Some d \<Rightarrow>
                    if fp_digest p \<noteq> d
                    then c\<lparr>sc_changed := sc_changed c @ [p],
                           sc_changed_from := sc_changed_from c @ [version @ '' ('' @ d @ '')'']\<rparr>
                    else c\<lparr>sc_matched := sc_matched c + 1\<rparr>
                | None \<Rightarrow> c\<lparr>sc_matched := sc_matched c + 1\<rparr>))"

definition compare_stratum :: "StratumLock \<Rightarrow> live_pkg list \<Rightarrow> StratumCompare" where
  "compare_stratum sl live =
     (let c = fold (compare_pin live) (sl_packages sl)
                \<lparr>sc_missing = [], sc_changed = [], sc_changed_from = [], sc_extra = [], sc_matched = 0\<rparr>
      in c\<lparr>sc_extra := map fst (filter (\<lambda>l. fst l \<notin> fp_name ` set (sl_packages sl)) live)\<rparr>)"

definition query_stratum :: "foreign \<Rightarrow> string \<Rightarrow> world \<Rightarrow> int \<times> live_pkg list" where
  "query_stratum fo name w =
     (if \<not> fo_open fo w then (2, [])
      else if \<not> fo_get fo name w then (1, [])
      else case fo_query fo name w of None \<Rightarrow> (2, []) | Some l \<Rightarrow> (0, l))"

text \<open>The differences of the strata; \<^const>\<open>None\<close> is the early return with code 2.\<close>

fun strata_diffs :: "foreign \<Rightarrow> world \<Rightarrow> StratumLock list \<Rightarrow> nat option" where
  "strata_diffs fo w [] = Some 0"
| "strata_diffs fo w (sl # sls) =
     (let (q, live) = query_stratum fo (sl_name sl) w in
      if q = 2 then None
      else map_option (\<lambda>n. (if q = 1 then 1 else sc_diffs (compare_stratum sl live)) + n) (strata_diffs fo w sls))"

definition lock_diff :: "foreign \<Rightarrow> sys \<Rightarrow> string \<Rightarrow> world \<Rightarrow> int" where
  "lock_diff fo y path w =
     (case lock_load y path w of
        None \<Rightarrow> 2
      | Some (lock, strata) \<Rightarrow>
          if \<not> sql_ok (env_sql (sys_env y)) SqlOpen then 2
          else let c = compare_lock (w_tab w) lock;
                   diffs = length (lc_extra c) + length (lc_missing c) + length (lc_changed c)
               in case strata_diffs fo w strata of
                    None \<Rightarrow> 2
                  | Some n \<Rightarrow> if diffs + n = 0 then 0 else 1)"

section \<open>Applying\<close>

text \<open>The three steps between the snapshot and the check for convergence, each skipped after a failure.\<close>

definition stratum_steps :: "foreign \<Rightarrow> StratumLock \<Rightarrow> StratumCompare \<Rightarrow> world \<Rightarrow> int \<times> world" where
  "stratum_steps fo sl cmp w =
     (let (rc1, w1) = (if sc_extra cmp = [] then (0, w)
                       else let ((rc, st), w') = fo_remove fo (sl_name sl) (sc_extra cmp) w
                            in (if rc \<noteq> SALT_OK \<or> st \<noteq> 0 then 1 else 0, w'));
          (rc2, w2) = (if rc1 = 0 \<and> (sc_missing cmp \<noteq> [] \<or> sc_changed cmp \<noteq> [])
                       then let ((rc, st), w') = fo_install_exact fo (sl_name sl) (sc_missing cmp @ sc_changed cmp) w1
                            in (if rc \<noteq> SALT_OK \<or> st \<noteq> 0 then 1 else 0, w')
                       else (rc1, w1))
      in if rc2 \<noteq> 0 then (rc2, w2)
         else case fo_query fo (sl_name sl) w2 of
                None \<Rightarrow> (1, w2)
              | Some live \<Rightarrow> (if sc_diffs (compare_stratum sl live) \<noteq> 0 then 1 else 0, w2))"

definition apply_stratum :: "foreign \<Rightarrow> TxnFlags \<Rightarrow> StratumLock \<Rightarrow> world \<Rightarrow> int \<times> world" where
  "apply_stratum fo f sl w =
     (if \<not> fo_open fo w then (1, w)
      else let present = fo_get fo (sl_name sl) w in
      if \<not> present \<and> tf_dry_run f then (0, w)
      else let (erc, w1) = (if present then (0, w) else fo_ensure fo (sl_name sl) w) in
      if erc \<noteq> 0 then (1, w1)
      else let (q, live) = query_stratum fo (sl_name sl) w1 in
      if q \<noteq> 0 then (1, w1)
      else let cmp = compare_stratum sl live in
      if sc_diffs cmp = 0 then (0, w1)
      else if tf_dry_run f then (0, w1)
      else if \<not> fo_open fo w1 \<or> \<not> fo_get fo (sl_name sl) w1 then (1, w1)
      else let (snap, w2) = fo_snapshot fo (sl_name sl) w1;
               (rc, w3) = stratum_steps fo sl cmp w2
           in case snap of
                Some i \<Rightarrow> if rc \<noteq> 0 \<and> 0 < i then (rc, snd (fo_rollback fo (sl_name sl) i w3)) else (rc, w3)
              | None \<Rightarrow> (rc, w3))"

definition apply_strata :: "foreign \<Rightarrow> TxnFlags \<Rightarrow> StratumLock list \<Rightarrow> world \<Rightarrow> int \<times> world" where
  "apply_strata fo f strata w =
     fold (\<lambda>sl s. let (n, w') = apply_stratum fo f sl (snd s) in (if n \<noteq> 0 then 1 else fst s, w')) strata (0, w)"

definition lock_install_entry :: "salt_repo_index \<Rightarrow> LockEntry \<Rightarrow> salt_repo_entry option" where
  "lock_install_entry idx le =
     (case salt_repo_index_find_exact idx (le_name le) (le_version le) (le_release le) of
        None \<Rightarrow> None
      | Some e \<Rightarrow> if \<not> salt_repo_entry_hash_ok e \<or> le_sha256 le \<noteq> re_sha256 e then None else Some e)"

text \<open>
  The native part of \<^verbatim>\<open>lock_apply\<close>.  \<open>order_by_deps\<close> is \<^const>\<open>None\<close> only when its fuel runs out, which never
  happens.
\<close>

definition lock_wanted :: "LockCompare \<Rightarrow> LockEntry list" where
  "lock_wanted cmp = lc_missing cmp @ map fst (lc_changed cmp)"

definition lock_plan :: "salt_repo_index option \<Rightarrow> LockCompare \<Rightarrow> NativePlan option" where
  "lock_plan idx cmp =
     (case idx of
        None \<Rightarrow> if lock_wanted cmp \<noteq> [] then None else Some \<lparr>pl_remove = lc_extra cmp, pl_install = []\<rparr>
      | Some ix \<Rightarrow>
          if list_ex (\<lambda>le. lock_install_entry ix le = None) (lock_wanted cmp) then None
          else map_option (\<lambda>es. \<lparr>pl_remove = lc_extra cmp, pl_install = es\<rparr>)
                 (order_by_deps (map (\<lambda>le. the (lock_install_entry ix le)) (lock_wanted cmp))))"

definition lock_apply :: "foreign \<Rightarrow> sys \<Rightarrow> Options \<Rightarrow> string \<Rightarrow> TxnFlags \<Rightarrow> world \<Rightarrow> int \<times> world" where
  "lock_apply fo y opt path f w =
     (case lock_load y path w of
        None \<Rightarrow> (1, w)
      | Some (lock, strata) \<Rightarrow>
          if \<not> sql_ok (env_sql (sys_env y)) SqlOpen then (1, w)
          else case lock_plan (load_index y opt w) (compare_lock (w_tab w) lock) of
                 None \<Rightarrow> (1, w)
               | Some plan \<Rightarrow>
                   (let (rc, w1) = (if pl_install plan = [] \<and> pl_remove plan = [] then (0, w)
                                    else native_transaction y opt (load_repo_conf y opt)
                                           (salt_ctx_init (sys_env y) (o_root opt)) plan ''lock-apply''
                                           (f\<lparr>tf_allow_unverified := False\<rparr>) w)
                    in if rc \<noteq> 0 \<or> tf_download_only f then (rc, w1)
                       else let (n, w2) = apply_strata fo f strata w1 in (if n \<noteq> 0 then 1 else rc, w2)))"

section \<open>The commands\<close>

fun lock_diff_args :: "string list \<Rightarrow> string \<Rightarrow> string option" where
  "lock_diff_args [] file = Some file"
| "lock_diff_args (a # as) file =
     (if a = ''--quiet'' \<or> a = ''-q'' then lock_diff_args as file
      else if a \<noteq> [] \<and> hd a = CHR ''-'' then None
      else if file = [] then lock_diff_args as a
      else None)"

fun lock_write_args :: "string list \<Rightarrow> string \<Rightarrow> bool \<Rightarrow> (string \<times> bool) option" where
  "lock_write_args [] out upd = Some (out, upd)"
| "lock_write_args (a # as) out upd =
     (if a = ''--output'' \<and> as \<noteq> [] then lock_write_args (tl as) (hd as) upd
      else if a = ''--update'' then lock_write_args as out True
      else None)"

definition cmd_lock :: "string \<Rightarrow> foreign \<Rightarrow> sys \<Rightarrow> Options \<Rightarrow> string list \<Rightarrow> world \<Rightarrow> int \<times> world" where
  "cmd_lock now fo y opt args w =
     (if args \<noteq> [] \<and> hd args = ''apply'' then
        (case parse_txn_flags (tl args) default_flags of
           None \<Rightarrow> (2, w)
         | Some (f, rest) \<Rightarrow>
             if 1 < length rest then (2, w)
             else lock_apply fo y opt (lock_path_for opt (if rest = [] then [] else hd rest)) f w)
      else if args \<noteq> [] \<and> hd args = ''diff'' then
        (case lock_diff_args (tl args) [] of
           None \<Rightarrow> (2, w)
         | Some file \<Rightarrow> (lock_diff fo y (lock_path_for opt file) w, w))
      else
        (case lock_write_args args [] False of
           None \<Rightarrow> (2, w)
         | Some (out, upd) \<Rightarrow> lock_write now fo y opt (lock_path_for opt out) upd w))"

definition install_fallback :: "strata \<Rightarrow> string \<Rightarrow> int \<times> world \<Rightarrow> int \<times> world" where
  "install_fallback st name s =
     (let stratum = so_choose st name (snd s)
      in if stratum = [] then (1, snd s) else keep_rc (so_install st stratum [name]) s)"

definition cmd_install :: "foreign \<Rightarrow> strata \<Rightarrow> sys \<Rightarrow> Options \<Rightarrow> string list \<Rightarrow> world \<Rightarrow> int \<times> world" where
  "cmd_install fo st y opt in_args w =
     (case parse_txn_flags in_args default_flags of
        None \<Rightarrow> (2, w)
      | Some (f, args) \<Rightarrow>
          if tf_locked f then
            (if args \<noteq> [] then (2, w) else lock_apply fo y opt (lock_path_for opt (tf_lockfile f)) f w)
          else if args = [] then (2, w)
          else let plain = native_args args;
                   native = filter (\<lambda>a. native_index_has y opt a w) plain;
                   fallback = filter (\<lambda>a. \<not> native_index_has y opt a w) plain;
                   s1 = (if native \<noteq> [] then keep_rc (do_install y opt native False f False) (0, w) else (0, w));
                   s2 = fold (\<lambda>kv. keep_rc (so_install st (fst kv) (snd kv))) (group_foreign args) s1
               in fold (install_fallback st) fallback s2)"

end
