(* ===== verification/Salt_Locked.thy ===== *)
theory Salt_Locked
  imports Salt_Lock
begin

text \<open>
  What the lock file is good for: a system that has just been locked does not differ from its lock
  file, and a system a lock file was applied to does not differ from it.
\<close>

section \<open>Reading back a lock file\<close>

definition quote_list_line :: "string \<Rightarrow> string list \<Rightarrow> string \<times> string \<times> salt_toml" where
  "quote_list_line k l = (k, str_array raw_quote l, TArray (map TString l))"

lemma quote_list_simps [simp]:
  "fst (quote_list_line k l) = k" "line_kv (quote_list_line k l) = (k, TArray (map TString l))"
  by (simp_all add: quote_list_line_def line_kv_def)

lemma quote_list_ok [simp]: "bare_key k \<Longrightarrow> list_all plain_string l \<Longrightarrow> line_ok nxt (quote_list_line k l)"
  unfolding line_ok_def quote_list_line_def fst_conv snd_conv
  by (intro conjI val_reads_str_array)
    (use parse_value_plain [of _ _ "[]" _ nxt] in \<open>auto simp: list_all_iff raw_quote_def simp del: parse_value.simps\<close>)

lemma hex_plain: "salt_sha256_hex_valid h \<Longrightarrow> plain_string h"
  by (auto simp: salt_sha256_hex_valid_def plain_string_def list_all_iff isxdigit_def isdigit_def)

lemma plain_append [simp]: "plain_string (a @ b) \<longleftrightarrow> plain_string a \<and> plain_string b"
  by (simp add: plain_string_def)

lemma plain_Cons [simp]: "plain_string (c # s) \<longleftrightarrow> c \<noteq> DQ \<and> c \<noteq> CHR 0x5C \<and> c \<noteq> NL \<and> c \<noteq> CHR 0x00 \<and> plain_string s"
  "plain_string []"
  by (simp_all add: plain_string_def)

lemma raw_kv_line: "raw_kv k s = line_text (raw_line k s)"
  by (simp add: raw_kv_def line_text_def raw_line_def emit_kv_def)

lemma int_kv_line: "emit_kv k (int_to_string i) = line_text (int_line k i)"
  by (simp add: line_text_def int_line_def)

definition native_lines :: "tables \<Rightarrow> salt_db_pkg \<Rightarrow> string \<times> string \<Rightarrow> (string \<times> string \<times> salt_toml) list" where
  "native_lines t p pin =
     [raw_line ''name'' (dp_name p), raw_line ''version'' (dp_version p), int_line ''release'' (dp_release p),
      raw_line ''arch'' (dp_arch p), raw_line ''grain_sha256'' (''sha256:'' @ fst pin)] @
     (if snd pin = [] then [] else [raw_line ''filename'' (snd pin)]) @ [raw_line ''repo'' (dp_repo p)] @
     (if salt_db_pkg_deps t (dp_name p) = [] then [] else [quote_list_line ''deps'' (salt_db_pkg_deps t (dp_name p))])"

lemma native_entry_block: "native_entry_text t p pin = block_text 0 ''native'' 1 (native_lines t p pin)"
  by (simp add: native_entry_text_def block_text_def native_lines_def raw_kv_line int_kv_line Let_def)
    (simp add: line_text_def quote_list_line_def)

text \<open>What may be printed without escaping and read back.\<close>

definition pkg_lockable :: "tables \<Rightarrow> salt_db_pkg \<Rightarrow> bool" where
  "pkg_lockable t p \<longleftrightarrow> plain_string (dp_name p) \<and> dp_name p \<noteq> [] \<and> plain_string (dp_version p) \<and> dp_version p \<noteq> [] \<and>
     plain_string (dp_arch p) \<and> plain_string (dp_repo p) \<and> list_all plain_string (salt_db_pkg_deps t (dp_name p)) \<and>
     - (2 ^ 31) \<le> dp_release p \<and> dp_release p < 2 ^ 31"

definition lock_of :: "salt_db_pkg \<Rightarrow> string \<times> string \<Rightarrow> LockEntry" where
  "lock_of p pin = \<lparr>le_name = dp_name p, le_version = dp_version p, le_release = dp_release p, le_arch = dp_arch p,
     le_sha256 = fst pin, le_repo = dp_repo p, le_filename = snd pin\<rparr>"

lemma bare_keys_lock [simp]: "bare_key ''grain_sha256''" "bare_key ''native''" "bare_key ''stratum''" "bare_key ''schema''"
  "bare_key ''generated''" "bare_key ''config_hash''" "bare_key ''repo_index_sha256''" "bare_key ''family''"
  "bare_key ''package_manager''" "bare_key ''bootstrap_url''" "bare_key ''bootstrap_sha256''" "bare_key ''repo_snapshot''" "bare_key ''digest''"
  by (simp_all add: bare_key_def key_char_def isalnum_def isdigit_def isupper_def islower_def)

lemma native_lines_ok:
  assumes "pkg_lockable t p" "salt_sha256_hex_valid (fst pin)" "plain_string (snd pin)"
  shows "block_ok nxt (native_lines t p pin)"
proof -
  have "c_long_long (dp_release p)" using assms(1) by (simp add: pkg_lockable_def c_long_long_def)
  then show ?thesis using assms hex_plain [OF assms(2)] by (auto simp: block_ok_def native_lines_def pkg_lockable_def)
qed

lemma lock_entry_of_lines:
  assumes "pkg_lockable t p" "salt_sha256_hex_valid (fst pin)"
  shows "lock_entry_of (block_table (native_lines t p pin)) = Some (lock_of p pin)"
proof -
  let ?m = "map_of (map line_kv (native_lines t p pin))"
  have mt: "?m ''name'' = Some (TString (dp_name p))" "?m ''version'' = Some (TString (dp_version p))"
    "?m ''release'' = Some (TInt (dp_release p))" "?m ''arch'' = Some (TString (dp_arch p))"
    "?m ''grain_sha256'' = Some (TString (''sha256:'' @ fst pin))" "?m ''repo'' = Some (TString (dp_repo p))"
    "?m ''filename'' = (if snd pin = [] then None else Some (TString (snd pin)))"
    by (simp_all add: native_lines_def)
  have "c_int (dp_release p) = dp_release p" using assms(1) by (simp add: pkg_lockable_def c_int_def)
  moreover have "strip_sha_prefix (''sha256:'' @ fst pin) = fst pin" by (simp add: strip_sha_prefix_def)
  ultimately show ?thesis using assms
    by (simp add: lock_entry_of_def Let_def block_table_def salt_toml_string_def salt_toml_string_opt_def salt_toml_int_def
        path_key1 mt salt_toml_as_string_def salt_toml_as_int_def pkg_lockable_def lock_of_def del: salt_toml_path.simps)
qed

lemma load_native_lines:
  assumes "list_all (\<lambda>x. pkg_lockable t (fst x) \<and> salt_sha256_hex_valid (fst (snd x))) ps" "distinct (map (dp_name \<circ> fst) ps)"
    "seen \<inter> dp_name ` fst ` set ps = {}"
  shows "load_native seen (map (\<lambda>x. block_table (native_lines t (fst x) (snd x))) ps) = Some (map (\<lambda>x. lock_of (fst x) (snd x)) ps)"
  using assms
proof (induction ps arbitrary: seen)
  case (Cons x ps)
  have "load_native (insert (dp_name (fst x)) seen) (map (\<lambda>x. block_table (native_lines t (fst x) (snd x))) ps) =
      Some (map (\<lambda>x. lock_of (fst x) (snd x)) ps)"
    by (rule Cons.IH) (use Cons.prems in auto)
  then show ?case using Cons.prems lock_entry_of_lines [of t "fst x" "snd x"] by (simp add: lock_of_def)
qed simp

section \<open>Strata\<close>

definition stratum_lines :: "foreign \<Rightarrow> string \<times> string option \<times> string option \<Rightarrow> (string \<times> string \<times> salt_toml) list" where
  "stratum_lines fo s =
     [raw_line ''name'' (fst s)] @
     (case fst (snd s) of Some x \<Rightarrow> [raw_line ''family'' x] | None \<Rightarrow> []) @
     (case snd (snd s) of Some x \<Rightarrow> [raw_line ''package_manager'' x] | None \<Rightarrow> []) @
     (case fo_recipe fo (fst s) of
        None \<Rightarrow> []
      | Some (url, sha, repos) \<Rightarrow>
          (if url = [] then [] else [raw_line ''bootstrap_url'' url]) @
          (if sha = [] then [] else [raw_line ''bootstrap_sha256'' sha]) @ map (raw_line ''repo_snapshot'') repos)"

lemma stratum_text_lines:
  "stratum_text fo s = ''[['' @ ''stratum'' @ '']]'' @ NL # concat (map line_text (stratum_lines fo s)) @ [NL]"
  by (cases s) (auto simp: stratum_text_def stratum_lines_def raw_kv_line comp_def split: option.split prod.split intro!: arg_cong [where f = concat])

definition pin_lines :: "live_pkg \<Rightarrow> (string \<times> string \<times> salt_toml) list" where
  "pin_lines p = [raw_line ''name'' (fst p), raw_line ''version'' (fst (snd p)), raw_line ''digest'' (the (snd (snd p)))]"

definition live_lockable :: "live_pkg \<Rightarrow> bool" where
  "live_lockable p \<longleftrightarrow> plain_string (fst p) \<and> fst p \<noteq> [] \<and> plain_string (fst (snd p)) \<and> fst (snd p) \<noteq> [] \<and>
     (case snd (snd p) of None \<Rightarrow> False | Some d \<Rightarrow> plain_string d \<and> digest_ok d)"

lemma foreign_text_lines: "live_lockable p \<Longrightarrow> foreign_pkg_text p = sub_text ''stratum'' ''package'' (pin_lines p)"
  by (cases p) (auto simp: foreign_pkg_text_def sub_text_def pin_lines_def raw_kv_line live_lockable_def split: option.splits)

lemma digest_nonempty: "digest_ok d \<Longrightarrow> d \<noteq> []"
  by (auto simp: digest_ok_def)

definition pin_of :: "live_pkg \<Rightarrow> ForeignPin" where
  "pin_of p = \<lparr>fp_name = fst p, fp_version = fst (snd p), fp_digest = the (snd (snd p))\<rparr>"

lemma pin_lines_ok: "live_lockable p \<Longrightarrow> block_ok nxt (pin_lines p)"
  by (auto simp: block_ok_def pin_lines_def live_lockable_def split: option.splits)

lemma foreign_pin_of_lines: "live_lockable p \<Longrightarrow> foreign_pin_of (block_table (pin_lines p)) = Some (pin_of p)"
  by (auto simp: foreign_pin_of_def Let_def block_table_def pin_lines_def salt_toml_string_def salt_toml_string_opt_def path_key1
      salt_toml_as_string_def live_lockable_def pin_of_def dest: digest_nonempty simp del: salt_toml_path.simps split: option.splits)

lemma load_pins_lines:
  "list_all live_lockable ps \<Longrightarrow> distinct (map fst ps) \<Longrightarrow> seen \<inter> fst ` set ps = {} \<Longrightarrow>
   load_pins seen (map (\<lambda>p. block_table (pin_lines p)) ps) = Some (map pin_of ps)"
proof (induction ps arbitrary: seen)
  case (Cons p ps)
  have "load_pins (insert (fst p) seen) (map (\<lambda>p. block_table (pin_lines p)) ps) = Some (map pin_of ps)"
    by (rule Cons.IH) (use Cons.prems in auto)
  then show ?case using Cons.prems by (simp add: foreign_pin_of_lines) (simp add: pin_of_def)
qed simp

definition stratum_lockable :: "foreign \<Rightarrow> (string \<times> string option \<times> string option) \<times> live_pkg list \<Rightarrow> bool" where
  "stratum_lockable fo x \<longleftrightarrow> (let (s, pkgs) = x in
     plain_string (fst s) \<and> fst s \<noteq> [] \<and> pred_option plain_string (fst (snd s)) \<and> pred_option plain_string (snd (snd s)) \<and>
     (case fo_recipe fo (fst s) of None \<Rightarrow> True
      | Some (url, sha, repos) \<Rightarrow> plain_string url \<and> plain_string sha \<and> list_all plain_string repos) \<and>
     list_all live_lockable pkgs \<and> distinct (map fst pkgs))"

definition stratum_table :: "foreign \<Rightarrow> (string \<times> string option \<times> string option) \<times> live_pkg list \<Rightarrow> salt_toml" where
  "stratum_table fo x = TTable (arr_root (lines_table (stratum_lines fo (fst x))) ''package'' (map (\<lambda>p. block_table (pin_lines p)) (snd x)))"

lemma stratum_lines_ok: "stratum_lockable fo (s, pkgs) \<Longrightarrow> list_all (line_ok nxt) (stratum_lines fo s)"
  by (cases "fst (snd s)"; cases "snd (snd s)")
    (auto simp: stratum_lockable_def stratum_lines_def list_all_iff split: option.splits)

lemma stratum_lines_keys: "''package'' \<notin> fst ` set (stratum_lines fo s)"
  by (auto simp: stratum_lines_def split: option.splits if_splits prod.splits)

lemma toml_reads_stratum:
  assumes "stratum_lockable fo (s, pkgs)" "''stratum'' \<notin> fst ` set base"
    and r: "\<And>cur. toml_reads nxt cur (arr_root base ''stratum'' (xs @ [stratum_table fo (s, pkgs)])) rest t"
  shows "toml_reads nxt cur (arr_root base ''stratum'' xs) (stratum_text fo s @ concat (map foreign_pkg_text pkgs) @ rest) t"
proof -
  let ?kvs = "lines_table (stratum_lines fo s)" and ?sub = "map (sub_text ''stratum'' ''package'') (map pin_lines pkgs)"
  have pk: "list_all live_lockable pkgs" using assms(1) by (simp add: stratum_lockable_def)
  then have tx: "map foreign_pkg_text pkgs = ?sub" using foreign_text_lines by (auto simp: list_all_iff)
  have fresh: "''package'' \<notin> fst ` set ?kvs" using stratum_lines_keys by (simp add: lines_table_keys)
  have "toml_reads nxt [''stratum''] (base @ [(''stratum'', TArray (xs @ [TTable (arr_root ?kvs ''package'' [])]))]) (concat ?sub @ rest) t"
    by (rule toml_reads_sub_blocks)
      (use assms(2) fresh pk pin_lines_ok r in \<open>auto simp: list_all_iff stratum_table_def arr_root_def [of base] comp_def\<close>)
  then have "toml_reads nxt [''stratum''] (base @ [(''stratum'', TArray (xs @ [TTable ?kvs]))]) (NL # concat ?sub @ rest) t"
    by (intro toml_reads_nl) (simp add: arr_root_def)
  then have "toml_reads nxt [''stratum''] (base @ [(''stratum'', TArray (xs @ [TTable []]))])
      (concat (map line_text (stratum_lines fo s)) @ NL # concat ?sub @ rest) t"
    by (rule toml_reads_lines_table [OF cursor_array [OF assms(2)] stratum_lines_ok [OF assms(1)]])
  from toml_reads_array [OF _ assms(2) this] show ?thesis unfolding tx stratum_text_lines by simp
qed

lemma toml_reads_strata:
  assumes "list_all (stratum_lockable fo) ss" "''stratum'' \<notin> fst ` set base"
  shows "toml_reads nxt cur (arr_root base ''stratum'' xs)
    (concat (map (\<lambda>x. stratum_text fo (fst x) @ concat (map foreign_pkg_text (snd x))) ss))
    (arr_root base ''stratum'' (xs @ map (stratum_table fo) ss))"
  using assms(1)
proof (induction ss arbitrary: xs cur)
  case (Cons x ss)
  obtain s pkgs where x: "x = (s, pkgs)" by fastforce
  have "toml_reads nxt c (arr_root base ''stratum'' (xs @ [stratum_table fo x]))
      (concat (map (\<lambda>x. stratum_text fo (fst x) @ concat (map foreign_pkg_text (snd x))) ss))
      (arr_root base ''stratum'' ((xs @ [stratum_table fo x]) @ map (stratum_table fo) ss))" for c
    by (rule Cons.IH) (use Cons.prems in simp)
  from toml_reads_stratum [OF _ assms(2) this [unfolded x], of cur] show ?case using Cons.prems x by simp
qed (simp add: toml_reads_nil)

definition stratum_lock_of :: "(string \<times> string option \<times> string option) \<times> live_pkg list \<Rightarrow> StratumLock" where
  "stratum_lock_of x = \<lparr>sl_name = fst (fst x), sl_family = (case fst (snd (fst x)) of Some f \<Rightarrow> f | None \<Rightarrow> []),
     sl_package_manager = (case snd (snd (fst x)) of Some f \<Rightarrow> f | None \<Rightarrow> []), sl_packages = map pin_of (snd x)\<rparr>"

lemma stratum_table_get:
  "k \<noteq> ''package'' \<Longrightarrow> map_of (arr_root kvs ''package'' ps) k = map_of kvs k"
  "''package'' \<notin> fst ` set kvs \<Longrightarrow> map_of (arr_root kvs ''package'' ps) ''package'' = (if ps = [] then None else Some (TArray ps))"
  by (auto simp: arr_root_def map_add_def map_of_eq_None_iff [THEN iffD2] split: option.split)

lemma stratum_lines_get:
  "map_of (lines_table (stratum_lines fo s)) ''name'' = Some (TString (fst s))"
  "map_of (lines_table (stratum_lines fo s)) ''family'' = map_option TString (fst (snd s))"
  "map_of (lines_table (stratum_lines fo s)) ''package_manager'' = map_option TString (snd (snd s))"
proof -
  let ?a = "[raw_line ''name'' (fst s)] @ (case fst (snd s) of Some x \<Rightarrow> [raw_line ''family'' x] | None \<Rightarrow> []) @
     (case snd (snd s) of Some x \<Rightarrow> [raw_line ''package_manager'' x] | None \<Rightarrow> [])"
  obtain b where b: "stratum_lines fo s = ?a @ b" and nb: "fst ` set b \<subseteq> {''bootstrap_url'', ''bootstrap_sha256'', ''repo_snapshot''}"
    by (rule that [of "(case fo_recipe fo (fst s) of None \<Rightarrow> [] | Some (url, sha, repos) \<Rightarrow>
          (if url = [] then [] else [raw_line ''bootstrap_url'' url]) @
          (if sha = [] then [] else [raw_line ''bootstrap_sha256'' sha]) @ map (raw_line ''repo_snapshot'') repos)"])
      (auto simp: stratum_lines_def split: option.splits)
  have "map_of (lines_table (stratum_lines fo s)) k = map_of (lines_table ?a) k" if "k \<in> {''name'', ''family'', ''package_manager''}" for k
    unfolding b by (rule lines_table_append_other) (use nb that in auto)
  then show "map_of (lines_table (stratum_lines fo s)) ''name'' = Some (TString (fst s))"
    "map_of (lines_table (stratum_lines fo s)) ''family'' = map_option TString (fst (snd s))"
    "map_of (lines_table (stratum_lines fo s)) ''package_manager'' = map_option TString (snd (snd s))"
    by (auto simp: lines_table_def raw_line_def split: option.split)
qed

lemma load_strata_tables:
  assumes "list_all (stratum_lockable fo) ss" "distinct (map (fst \<circ> fst) ss)" "seen \<inter> fst ` fst ` set ss = {}"
  shows "load_strata seen (map (stratum_table fo) ss) = Some (map stratum_lock_of ss)"
  using assms
proof (induction ss arbitrary: seen)
  case (Cons x ss)
  obtain s pkgs where x: "x = (s, pkgs)" by fastforce
  let ?t = "lines_table (stratum_lines fo s)"
  have ok: "fst s \<noteq> []" "list_all live_lockable pkgs" "distinct (map fst pkgs)" using Cons.prems(1) x by (simp_all add: stratum_lockable_def)
  have "''package'' \<notin> fst ` set ?t" using stratum_lines_keys by (simp add: lines_table_keys)
  note get = stratum_table_get(1) stratum_table_get(2) [OF this] stratum_lines_get
  have "load_strata (insert (fst s) seen) (map (stratum_table fo) ss) = Some (map stratum_lock_of ss)"
    by (rule Cons.IH) (use Cons.prems x in \<open>auto simp: image_image\<close>)
  moreover have "load_pins {} (map (\<lambda>p. block_table (pin_lines p)) pkgs) = Some (map pin_of pkgs)"
    by (rule load_pins_lines) (use ok in auto)
  ultimately show ?case using Cons.prems(3) x ok(1)
    by (auto simp: stratum_table_def [of fo "(s, pkgs)"] Let_def salt_toml_string_def salt_toml_string_opt_def path_key1 get salt_toml_as_string_def
        salt_toml_get_def stratum_lock_of_def [of "(s, pkgs)"] simp del: salt_toml_path.simps split: option.split)
qed simp

section \<open>The whole file\<close>

lemma arr_root_nil [simp]: "arr_root base h [] = base"
  by (simp add: arr_root_def)

definition lock_head :: "string \<Rightarrow> sys \<Rightarrow> Options \<Rightarrow> world \<Rightarrow> (string \<times> string \<times> salt_toml) list" where
  "lock_head now y opt w =
     [int_line ''schema'' 2, raw_line ''generated'' now, raw_line ''arch'' (arch_detect y)] @
     (case salt_sha256_file y (system_config_path y opt) w of
        Some h \<Rightarrow> [raw_line ''config_hash'' (''sha256:'' @ h)] | None \<Rightarrow> []) @
     (case salt_sha256_file y (index_path_for y opt) w of
        Some h \<Rightarrow> [raw_line ''repo_index_sha256'' (''sha256:'' @ h)] | None \<Rightarrow> [])"

definition locked_pkgs :: "sys \<Rightarrow> Options \<Rightarrow> world \<Rightarrow> (salt_db_pkg \<times> string \<times> string) list" where
  "locked_pkgs y opt w = map (\<lambda>p. (p, the (native_pin (load_index y opt w) p))) (salt_db_list_installed (w_tab w))"

definition strata_of :: "foreign \<Rightarrow> world \<Rightarrow> ((string \<times> string option \<times> string option) \<times> live_pkg list) list" where
  "strata_of fo w = (if \<not> fo_open fo w then [] else
     case fo_list fo w of None \<Rightarrow> [] | Some l \<Rightarrow> map (\<lambda>s. (s, the (fo_query fo (fst s) w))) l)"

text \<open>Everything that is printed unescaped is plain, and names are not repeated.\<close>

definition lockable :: "string \<Rightarrow> foreign \<Rightarrow> sys \<Rightarrow> Options \<Rightarrow> world \<Rightarrow> bool" where
  "lockable now fo y opt w \<longleftrightarrow>
     plain_string now \<and> plain_string (arch_detect y) \<and> (\<forall>d. plain_string (sys_sha256 y d)) \<and>
     list_all (\<lambda>x. pkg_lockable (w_tab w) (fst x) \<and> plain_string (snd (snd x))) (locked_pkgs y opt w) \<and>
     distinct (map (dp_name \<circ> fst) (locked_pkgs y opt w)) \<and>
     list_all (stratum_lockable fo) (strata_of fo w) \<and> distinct (map (fst \<circ> fst) (strata_of fo w))"

lemma native_pin_valid: "native_pin idx p = Some pin \<Longrightarrow> salt_sha256_hex_valid (fst pin)"
  by (auto simp: native_pin_def salt_repo_entry_hash_ok_def split: if_splits option.splits)

lemma emit_strata_list_text:
  "emit_strata_list fo w l = (0, s) \<Longrightarrow> (\<forall>x \<in> set l. fo_query fo (fst x) w \<noteq> None) \<and>
     s = concat (map (\<lambda>x. stratum_text fo (fst x) @ concat (map foreign_pkg_text (snd x))) (map (\<lambda>s. (s, the (fo_query fo (fst s) w))) l))"
  by (induction l arbitrary: s) (auto simp: Let_def split: option.splits prod.splits)

lemma emit_strata_text:
  assumes "emit_strata fo w = (0, s)"
  shows "s = concat (map (\<lambda>x. stratum_text fo (fst x) @ concat (map foreign_pkg_text (snd x))) (strata_of fo w))"
    and "\<forall>x \<in> set (strata_of fo w). fo_query fo (fst (fst x)) w = Some (snd x)"
proof -
  consider "strata_of fo w = []" "s = []"
    | l where "strata_of fo w = map (\<lambda>s. (s, the (fo_query fo (fst s) w))) l" "emit_strata_list fo w l = (0, s)"
    using assms by (auto simp: emit_strata_def strata_of_def split: if_splits option.splits)
  then have "s = concat (map (\<lambda>x. stratum_text fo (fst x) @ concat (map foreign_pkg_text (snd x))) (strata_of fo w)) \<and>
      (\<forall>x \<in> set (strata_of fo w). fo_query fo (fst (fst x)) w = Some (snd x))"
  proof cases
    case 2
    from emit_strata_list_text [OF 2(2)] show ?thesis using 2(1) by fastforce
  qed simp
  then show "s = concat (map (\<lambda>x. stratum_text fo (fst x) @ concat (map foreign_pkg_text (snd x))) (strata_of fo w))"
    "\<forall>x \<in> set (strata_of fo w). fo_query fo (fst (fst x)) w = Some (snd x)" by blast+
qed

lemma lock_write_text:
  assumes "lock_write now fo y opt path upd w = (0, w')"
  shows "\<exists>sep. w' = put_file path (concat (map line_text (lock_head now y opt w)) @ replicate sep NL @
      concat (map (block_text 0 ''native'' 1) (map (\<lambda>x. native_lines (w_tab w) (fst x) (snd x)) (locked_pkgs y opt w))) @
      concat (map (\<lambda>x. stratum_text fo (fst x) @ concat (map foreign_pkg_text (snd x))) (strata_of fo w))) w"
    and "\<forall>x \<in> set (strata_of fo w). fo_query fo (fst (fst x)) w = Some (snd x)"
    and "list_all (\<lambda>x. salt_sha256_hex_valid (fst (snd x))) (locked_pkgs y opt w)"
    and "sql_ok (env_sql (sys_env y)) SqlOpen"
proof -
  obtain nt st where n: "emit_native y opt w = (0, nt)" and st: "emit_strata fo w = (0, st)"
    using assms by (auto simp: lock_write_def Let_def split: if_splits prod.splits)
  let ?idx = "load_index y opt w"
  have sq: "sql_ok (env_sql (sys_env y)) SqlOpen" using n by (auto simp: emit_native_def split: if_splits)
  then show "sql_ok (env_sql (sys_env y)) SqlOpen" .
  have pins: "\<forall>p \<in> set (salt_db_list_installed (w_tab w)). native_pin ?idx p \<noteq> None"
    using n sq by (auto simp: emit_native_def Let_def list_all_iff split: if_splits)
  then show "list_all (\<lambda>x. salt_sha256_hex_valid (fst (snd x))) (locked_pkgs y opt w)"
    using native_pin_valid by (fastforce simp: locked_pkgs_def list_all_iff)
  show "\<forall>x \<in> set (strata_of fo w). fo_query fo (fst (fst x)) w = Some (snd x)" by (rule emit_strata_text(2) [OF st])
  have "map (\<lambda>p. case native_pin ?idx p of Some pin \<Rightarrow> native_entry_text (w_tab w) p pin | None \<Rightarrow> []) (salt_db_list_installed (w_tab w)) =
      map (block_text 0 ''native'' 1) (map (\<lambda>x. native_lines (w_tab w) (fst x) (snd x)) (locked_pkgs y opt w))"
    using pins by (auto simp: locked_pkgs_def native_entry_block)
  then have nt: "nt = (case salt_sha256_file y (index_path_for y opt) w of
        Some h \<Rightarrow> raw_kv ''repo_index_sha256'' (''sha256:'' @ h) @ [NL] | None \<Rightarrow> []) @
      concat (map (block_text 0 ''native'' 1) (map (\<lambda>x. native_lines (w_tab w) (fst x) (snd x)) (locked_pkgs y opt w)))"
    using n sq unfolding emit_native_def Let_def by (simp split: option.splits)
  have "w' = put_file path ((emit_kv ''schema'' (int_to_string 2) @ raw_kv ''generated'' now @ raw_kv ''arch'' (arch_detect y) @
        (case salt_sha256_file y (system_config_path y opt) w of Some h \<Rightarrow> raw_kv ''config_hash'' (''sha256:'' @ h) | None \<Rightarrow> [])) @ nt @ st) w"
    using assms n st by (auto simp: lock_write_def Let_def split: if_splits)
  then have "w' = put_file path (concat (map line_text (lock_head now y opt w)) @
      replicate (if salt_sha256_file y (index_path_for y opt) w = None then 0 else 1) NL @
      concat (map (block_text 0 ''native'' 1) (map (\<lambda>x. native_lines (w_tab w) (fst x) (snd x)) (locked_pkgs y opt w))) @ st) w"
    unfolding nt by (simp add: lock_head_def raw_kv_line int_kv_line split: option.split)
  then show "\<exists>sep. w' = put_file path (concat (map line_text (lock_head now y opt w)) @ replicate sep NL @
      concat (map (block_text 0 ''native'' 1) (map (\<lambda>x. native_lines (w_tab w) (fst x) (snd x)) (locked_pkgs y opt w))) @
      concat (map (\<lambda>x. stratum_text fo (fst x) @ concat (map foreign_pkg_text (snd x))) (strata_of fo w))) w"
    unfolding emit_strata_text(1) [OF st] by blast
qed

definition lock_tree :: "string \<Rightarrow> foreign \<Rightarrow> sys \<Rightarrow> Options \<Rightarrow> world \<Rightarrow> (string \<times> salt_toml) list" where
  "lock_tree now fo y opt w =
     arr_root (arr_root (map line_kv (lock_head now y opt w)) ''native''
         (map (\<lambda>x. block_table (native_lines (w_tab w) (fst x) (snd x))) (locked_pkgs y opt w)))
       ''stratum'' (map (stratum_table fo) (strata_of fo w))"

lemma lock_head_keys: "fst ` set (lock_head now y opt w) \<subseteq> {''schema'', ''generated'', ''arch'', ''config_hash'', ''repo_index_sha256''}"
  "distinct (map fst (lock_head now y opt w))"
  by (auto simp: lock_head_def split: option.splits)

lemma lock_reads:
  assumes "lockable now fo y opt w" "list_all (\<lambda>x. salt_sha256_hex_valid (fst (snd x))) (locked_pkgs y opt w)"
  shows "toml_reads nxt [] [] (concat (map line_text (lock_head now y opt w)) @ replicate sep NL @
      concat (map (block_text 0 ''native'' 1) (map (\<lambda>x. native_lines (w_tab w) (fst x) (snd x)) (locked_pkgs y opt w))) @
      concat (map (\<lambda>x. stratum_text fo (fst x) @ concat (map foreign_pkg_text (snd x))) (strata_of fo w))) (lock_tree now fo y opt w)"
proof -
  let ?h = "lock_head now y opt w" and ?bs = "map (\<lambda>x. native_lines (w_tab w) (fst x) (snd x)) (locked_pkgs y opt w)"
  let ?base = "arr_root (map line_kv ?h) ''native'' (map block_table ?bs)"
  let ?st = "concat (map (\<lambda>x. stratum_text fo (fst x) @ concat (map foreign_pkg_text (snd x))) (strata_of fo w))"
  have hk: "fst ` set (map line_kv ?h) = fst ` set ?h" by (simp add: image_image)
  have tr: "lock_tree now fo y opt w = arr_root ?base ''stratum'' ([] @ map (stratum_table fo) (strata_of fo w))"
    by (simp add: lock_tree_def comp_def)
  have fr: "''native'' \<notin> fst ` set (map line_kv ?h)" "''stratum'' \<notin> fst ` set ?base"
    using lock_head_keys(1) [of now y opt w] hk by (auto simp: arr_root_def)
  have st: "toml_reads nxt cur ?base ?st (lock_tree now fo y opt w)" for cur
    using toml_reads_strata [of fo "strata_of fo w" ?base nxt cur "[]"] assms(1) fr(2)
    unfolding tr by (simp add: lockable_def)
  have bo: "list_all (block_ok nxt) ?bs"
    using assms native_lines_ok by (auto simp: lockable_def list_all_iff)
  have "toml_reads nxt [] (map line_kv ?h) (concat (map (block_text 0 ''native'' 1) ?bs) @ ?st) (lock_tree now fo y opt w)"
  proof (cases "?bs = []")
    case True
    then show ?thesis using st [of "[]"] by (simp add: arr_root_def)
  next
    case False
    then have "?base = map line_kv ?h @ [(''native'', TArray (map block_table ?bs))]" by (simp add: arr_root_def)
    then show ?thesis using toml_reads_blocks [OF _ fr(1) bo False, of ?st _ "[]" 0 1] st [of "[''native'']"] by simp
  qed
  then have "toml_reads nxt [] ([] @ map line_kv ?h) (replicate sep NL @ concat (map (block_text 0 ''native'' 1) ?bs) @ ?st) (lock_tree now fo y opt w)"
    by (simp add: toml_reads_nls)
  moreover have "list_all (line_ok nxt) ?h"
  proof -
    have "plain_string h" if "salt_sha256_file y p w = Some h" for p h
      using that assms(1) by (auto simp: salt_sha256_file_def lockable_def)
    then show ?thesis using assms(1) by (auto simp: lock_head_def lockable_def c_long_long_def split: option.splits)
  qed
  ultimately show ?thesis
    using toml_reads_lines [OF cursor_root, of nxt ?h "[]"] lock_head_keys(2) by (simp add: cursor_root)
qed

lemma lock_write_load:
  assumes "lock_write now fo y opt path upd w = (0, w')" "lockable now fo y opt w" "toml_parser (sys_toml y)" "\<not> ends_with path ''.lua''"
  shows "lock_load y path w' = Some (map (\<lambda>x. lock_of (fst x) (snd x)) (locked_pkgs y opt w), map stratum_lock_of (strata_of fo w))"
proof -
  note W = lock_write_text [OF assms(1)]
  let ?t = "lock_tree now fo y opt w"
  obtain d where d: "w' = put_file path d w" "sys_toml y d = Some (TTable ?t)"
    using W(1) toml_parser_reads [OF assms(3) lock_reads [OF assms(2) W(3)]] by blast
  then have root: "salt_toml_parse_file y path w' = Some (TTable ?t)" using assms(4) by (simp add: salt_toml_parse_file_def put_file_def)
  let ?nt = "map (\<lambda>x. block_table (native_lines (w_tab w) (fst x) (snd x))) (locked_pkgs y opt w)"
  let ?st = "map (stratum_table fo) (strata_of fo w)"
  have keys: "map_of (map line_kv (lock_head now y opt w)) ''native'' = None" "map_of (map line_kv (lock_head now y opt w)) ''stratum'' = None"
    using lock_head_keys(1) [of now y opt w] by (auto simp: map_of_eq_None_iff image_image)
  have get: "map_of ?t ''native'' = (if locked_pkgs y opt w = [] then None else Some (TArray ?nt))"
    "map_of ?t ''stratum'' = (if strata_of fo w = [] then None else Some (TArray ?st))"
    using keys by (auto simp: lock_tree_def arr_root_def map_add_def)
  have "load_native {} ?nt = Some (map (\<lambda>x. lock_of (fst x) (snd x)) (locked_pkgs y opt w))"
    by (rule load_native_lines) (use assms(2) W(3) in \<open>auto simp: lockable_def list_all_iff\<close>)
  moreover have "load_strata {} ?st = Some (map stratum_lock_of (strata_of fo w))"
    by (rule load_strata_tables) (use assms(2) in \<open>auto simp: lockable_def\<close>)
  ultimately show ?thesis by (simp add: lock_load_def root salt_toml_get_def get)
qed

text \<open>
  C26. What \<^verbatim>\<open>salt lock\<close> writes is what \<^verbatim>\<open>lock_load\<close> reads: an entry for every installed package, with its
  version, release and a valid SHA-256, and an entry for every stratum with all its packages.
\<close>

theorem lock_round_trip:
  assumes "lock_write now fo y opt path upd w = (0, w')" "lockable now fo y opt w" "toml_parser (sys_toml y)" "\<not> ends_with path ''.lua''"
  shows "lock_load y path w' = Some (map (\<lambda>x. lock_of (fst x) (snd x)) (locked_pkgs y opt w), map stratum_lock_of (strata_of fo w))"
  using assms by (rule lock_write_load)

section \<open>A locked system does not differ from its lock file\<close>

lemma compare_lock_fields:
  "lc_missing (fold (compare_entry t) lock c) = lc_missing c @ filter (\<lambda>le. salt_db_get_pkg t (le_name le) = None) lock"
  "map fst (lc_changed (fold (compare_entry t) lock c)) = map fst (lc_changed c) @
     filter (\<lambda>le. case salt_db_get_pkg t (le_name le) of None \<Rightarrow> False | Some p \<Rightarrow> \<not> (same_ver le p \<and> same_sha le p)) lock"
  by (induction lock arbitrary: c) (auto simp: compare_entry_def split: option.splits)

text \<open>No differences: every entry is installed as pinned, and everything installed is pinned.\<close>

definition native_matches :: "tables \<Rightarrow> LockEntry list \<Rightarrow> bool" where
  "native_matches t lock \<longleftrightarrow>
     (let c = compare_lock t lock in lc_extra c = [] \<and> lc_missing c = [] \<and> lc_changed c = [])"

lemma native_matches_iff:
  "native_matches t lock \<longleftrightarrow>
     list_all (\<lambda>le. case salt_db_get_pkg t (le_name le) of None \<Rightarrow> False | Some p \<Rightarrow> same_ver le p \<and> same_sha le p) lock \<and>
     list_all (\<lambda>p. dp_name p \<in> le_name ` set lock) (t_packages t)"
proof -
  let ?c = "fold (compare_entry t) lock \<lparr>lc_extra = [], lc_missing = [], lc_changed = [], lc_matched = 0\<rparr>"
  have "lc_changed ?c = [] \<longleftrightarrow> map fst (lc_changed ?c) = []" by simp
  then show ?thesis
    unfolding native_matches_def compare_lock_def Let_def
    by (auto simp: compare_lock_fields filter_empty_conv list_all_iff salt_db_list_installed_def split: option.splits)
qed

lemma locked_matches:
  assumes "distinct (map dp_name (t_packages (w_tab w)))" "list_all (\<lambda>x. salt_sha256_hex_valid (fst (snd x))) (locked_pkgs y opt w)"
  shows "native_matches (w_tab w) (map (\<lambda>x. lock_of (fst x) (snd x)) (locked_pkgs y opt w))"
  unfolding native_matches_iff
proof
  have "salt_db_get_pkg (w_tab w) (dp_name p) = Some p" if "p \<in> set (t_packages (w_tab w))" for p
    using get_pkg_distinct [OF assms(1), of p] that by simp
  moreover have "same_sha (lock_of p (the (native_pin i p))) p" if "native_pin i p \<noteq> None" for i p
    using that by (auto simp: same_sha_def lock_of_def native_pin_def split: if_splits)
  moreover have "same_sha (lock_of p (the None)) p \<or> salt_sha256_hex_valid (dp_sha256 p)" for p by (auto simp: same_sha_def)
  ultimately show "list_all (\<lambda>le. case salt_db_get_pkg (w_tab w) (le_name le) of None \<Rightarrow> False | Some p \<Rightarrow> same_ver le p \<and> same_sha le p)
      (map (\<lambda>x. lock_of (fst x) (snd x)) (locked_pkgs y opt w))"
    by (auto simp: list_all_iff locked_pkgs_def salt_db_list_installed_def lock_of_def same_ver_def same_sha_def native_pin_def)
  show "list_all (\<lambda>p. dp_name p \<in> le_name ` set (map (\<lambda>x. lock_of (fst x) (snd x)) (locked_pkgs y opt w))) (t_packages (w_tab w))"
    by (force simp: list_all_iff locked_pkgs_def salt_db_list_installed_def lock_of_def)
qed

lemma compare_pins_same:
  assumes "distinct (map fst live)" "list_all live_lockable live" "set ps \<subseteq> set live"
  shows "fold (compare_pin live) (map pin_of ps) c = c\<lparr>sc_matched := sc_matched c + length ps\<rparr>"
  using assms(3)
proof (induction ps arbitrary: c)
  case (Cons p ps)
  have "find (\<lambda>l. fst l = fst p) xs = Some p" if "distinct (map fst xs)" "p \<in> set xs" for xs :: "live_pkg list"
    using that by (induction xs) (auto simp: image_iff)
  then have "find (\<lambda>l. fst l = fp_name (pin_of p)) live = Some p" using Cons.prems assms(1) by (simp add: pin_of_def)
  moreover have "live_lockable p" using Cons.prems assms(2) by (simp add: list_all_iff)
  ultimately have "compare_pin live (pin_of p) c = c\<lparr>sc_matched := sc_matched c + 1\<rparr>"
    by (cases p) (auto simp: compare_pin_def pin_of_def live_lockable_def split: option.splits)
  then show ?case using Cons by simp
qed simp

lemma stratum_same: "stratum_lockable fo x \<Longrightarrow> sc_diffs (compare_stratum (stratum_lock_of x) (snd x)) = 0"
proof -
  assume "stratum_lockable fo x"
  then have "distinct (map fst (snd x))" "list_all live_lockable (snd x)" by (auto simp: stratum_lockable_def)
  from compare_pins_same [OF this order_refl] show ?thesis
    by (auto simp: compare_stratum_def stratum_lock_of_def sc_diffs_def pin_of_def filter_empty_conv image_image image_iff)
qed

lemma strata_same:
  assumes "list_all (stratum_lockable fo) ss" "ss \<noteq> [] \<Longrightarrow> fo_open fo w"
    "\<forall>x \<in> set ss. fo_get fo (fst (fst x)) w \<and> fo_query fo (fst (fst x)) w = Some (snd x)"
  shows "strata_diffs fo w (map stratum_lock_of ss) = Some 0"
  using assms
proof (induction ss)
  case (Cons x ss)
  have "query_stratum fo (sl_name (stratum_lock_of x)) w = (0, snd x)" using Cons.prems by (simp add: query_stratum_def stratum_lock_of_def)
  then show ?case using Cons stratum_same [of fo x] by simp
qed simp

text \<open>
  C25. A system that has just been locked does not differ from its lock file: after \<^verbatim>\<open>salt lock\<close> has succeeded,
  \<^verbatim>\<open>salt lock diff\<close> on that file returns 0.  Writing the file does not change what the strata report, and
  what is printed unescaped has no quotes, backslashes, line breaks or zero bytes.
\<close>

theorem lock_then_diff:
  assumes "lock_write now fo y opt path upd w = (0, w')" "lockable now fo y opt w" "toml_parser (sys_toml y)" "\<not> ends_with path ''.lua''"
    and "distinct (map dp_name (t_packages (w_tab w)))"
    and "\<forall>x \<in> set (strata_of fo w). fo_open fo w' \<and> fo_get fo (fst (fst x)) w' \<and> fo_query fo (fst (fst x)) w' = fo_query fo (fst (fst x)) w"
  shows "lock_diff fo y path w' = 0"
proof -
  note W = lock_write_text [OF assms(1)]
  have "w_tab w' = w_tab w" using W(1) by (auto simp: put_file_def)
  then have "native_matches (w_tab w') (map (\<lambda>x. lock_of (fst x) (snd x)) (locked_pkgs y opt w))"
    using locked_matches [OF assms(5) W(3)] by simp
  moreover have "strata_diffs fo w' (map stratum_lock_of (strata_of fo w)) = Some 0"
    by (rule strata_same) (use assms(2,6) W(2) in \<open>auto simp: lockable_def neq_Nil_conv\<close>)
  ultimately show ?thesis
    using lock_write_load [OF assms(1-4)] W(4) by (simp add: lock_diff_def native_matches_def Let_def)
qed

text \<open>A system with one package and one stratum.\<close>

definition ex_foreign :: foreign where
  "ex_foreign = \<lparr>fo_open = \<lambda>w. True, fo_list = \<lambda>w. Some [(''arch'', Some ''pacman'', None)], fo_get = \<lambda>n w. True,
     fo_recipe = \<lambda>n. None, fo_query = \<lambda>n w. Some [(''htop'', ''3.3'', Some ''sha256:ab'')], fo_ensure = \<lambda>n w. (0, w),
     fo_snapshot = \<lambda>n w. (None, w), fo_remove = \<lambda>n l w. ((SALT_OK, 0), w), fo_install_exact = \<lambda>n l w. ((SALT_OK, 0), w),
     fo_rollback = \<lambda>n i w. (SALT_OK, w)\<rparr>"

definition ex_lock_sys :: sys where
  "ex_lock_sys = ex_sys\<lparr>sys_toml := toml_text CHR 0x00\<rparr>"

definition ex_lock_world :: world where
  "ex_lock_world = \<lparr>w_fs = [], w_files = \<lambda>p. None,
     w_db = \<lparr>db_tab = ex_empty\<lparr>t_packages := [(pkg_row_of ex_sql ex_pkg_meta ''current'' ''signed'' 1)\<lparr>dp_sha256 := replicate 64 CHR ''0''\<rparr>]\<rparr>,
             db_saved = None\<rparr>, w_state = \<lambda>i. None\<rparr>"

definition ex_locked :: "int \<times> world" where
  "ex_locked = lock_write ''now'' ex_foreign ex_lock_sys ex_opts ''l'' False ex_lock_world"

lemma ex_hex: "salt_sha256_hex_valid (replicate 64 CHR ''0'')"
  by code_simp

lemma ex_locked_ok: "lock_write ''now'' ex_foreign ex_lock_sys ex_opts ''l'' False ex_lock_world = (0, snd ex_locked)"
  by (simp add: ex_locked_def lock_write_def emit_native_def emit_strata_def ex_foreign_def ex_lock_sys_def ex_sys_def ex_env_def
      ex_lock_world_def ex_empty_def native_pin_def ex_hex salt_db_list_installed_def salt_sha256_file_def pkg_row_of_def Let_def
      del: replicate.simps)

lemma ex_lockable: "lockable ''now'' ex_foreign ex_lock_sys ex_opts ex_lock_world"
  by (simp add: lockable_def locked_pkgs_def strata_of_def ex_foreign_def ex_lock_sys_def ex_sys_def ex_lock_world_def ex_empty_def
      salt_db_list_installed_def pkg_lockable_def pkg_row_of_def ex_pkg_meta_def salt_db_pkg_deps_def stratum_lockable_def
      live_lockable_def digest_ok_def arch_detect_def native_pin_def ex_hex del: replicate.simps)

theorem lock_round_trip_witness:
  "map_option (\<lambda>l. map le_name (fst l)) (lock_load ex_lock_sys ''l'' (snd ex_locked)) = Some [''app'']"
  using lock_round_trip [of "''now''" ex_foreign ex_lock_sys ex_opts "''l''" False ex_lock_world "snd ex_locked",
      OF ex_locked_ok ex_lockable]
  by (simp add: toml_parser_text ex_lock_sys_def ends_with_def locked_pkgs_def lock_of_def ex_lock_world_def
      salt_db_list_installed_def pkg_row_of_def ex_pkg_meta_def)

theorem lock_then_diff_witness: "lock_diff ex_foreign ex_lock_sys ''l'' (snd ex_locked) = 0"
  by (rule lock_then_diff [OF ex_locked_ok ex_lockable])
    (simp_all add: toml_parser_text ex_lock_sys_def ends_with_def ex_lock_world_def ex_foreign_def)

section \<open>Applying a lock file\<close>

lemma load_native_distinct: "load_native seen ts = Some lock \<Longrightarrow> distinct (map le_name lock) \<and> seen \<inter> le_name ` set lock = {}"
  by (induction seen ts arbitrary: lock rule: load_native.induct) (fastforce split: option.splits if_splits)+

lemma lock_load_distinct: "lock_load y path w = Some (lock, strata) \<Longrightarrow> distinct (map le_name lock)"
  by (auto simp: lock_load_def dest!: load_native_distinct split: option.splits salt_toml.splits)

text \<open>The entries to be installed: those that are missing, then those that differ.\<close>

definition lock_unmet :: "tables \<Rightarrow> LockEntry \<Rightarrow> bool" where
  "lock_unmet t le \<longleftrightarrow> (case salt_db_get_pkg t (le_name le) of None \<Rightarrow> True | Some p \<Rightarrow> \<not> (same_ver le p \<and> same_sha le p))"

lemma lock_wanted_set: "set (lock_wanted (compare_lock t lock)) = {le \<in> set lock. lock_unmet t le}"
  by (auto simp: lock_wanted_def compare_lock_def Let_def compare_lock_fields lock_unmet_def simp flip: set_map split: option.splits)

lemma lock_wanted_distinct: "distinct (map le_name lock) \<Longrightarrow> distinct (map le_name (lock_wanted (compare_lock t lock)))"
proof -
  assume d: "distinct (map le_name lock)"
  let ?P = "\<lambda>le. salt_db_get_pkg t (le_name le) = None"
  let ?Q = "\<lambda>le. case salt_db_get_pkg t (le_name le) of None \<Rightarrow> False | Some p \<Rightarrow> \<not> (same_ver le p \<and> same_sha le p)"
  have w: "lock_wanted (compare_lock t lock) = filter ?P lock @ filter ?Q lock"
    by (simp add: lock_wanted_def compare_lock_def Let_def compare_lock_fields)
  have "distinct (map le_name (filter R lock))" for R using d by (simp add: distinct_map_filter)
  moreover have "le_name ` set (filter ?P lock) \<inter> le_name ` set (filter ?Q lock) = {}" by (auto split: option.splits)
  ultimately show ?thesis by (simp add: w)
qed

lemma lock_extra_set: "set (lc_extra (compare_lock t lock)) = {n. salt_db_is_installed t n \<and> n \<notin> le_name ` set lock}"
  by (auto simp: compare_lock_def Let_def salt_db_list_installed_def salt_db_is_installed_def list_ex_iff)

lemma lock_install_entry_fields:
  "lock_install_entry ix le = Some e \<Longrightarrow> e \<in> set (ri_items ix) \<and> re_name e = le_name le \<and> re_version e = le_version le \<and>
     re_release e = le_release le \<and> re_sha256 e = le_sha256 le"
  by (auto simp: lock_install_entry_def salt_repo_index_find_exact_def find_Some_iff split: option.splits if_splits)

text \<open>What a plan for a lock file contains.\<close>

lemma lock_plan_props:
  assumes "lock_plan idx (compare_lock t lock) = Some plan" "distinct (map le_name lock)"
  shows "set (pl_remove plan) = {n. salt_db_is_installed t n \<and> n \<notin> le_name ` set lock}"
    and "distinct (map re_name (pl_install plan))"
    and "re_name ` set (pl_install plan) = le_name ` {le \<in> set lock. lock_unmet t le}"
    and "\<And>le. le \<in> set lock \<Longrightarrow> lock_unmet t le \<Longrightarrow> \<exists>ix e. idx = Some ix \<and> e \<in> set (pl_install plan) \<and> lock_install_entry ix le = Some e"
    and "\<And>e. e \<in> set (pl_install plan) \<Longrightarrow> \<exists>ix. idx = Some ix \<and> e \<in> set (ri_items ix)"
proof -
  let ?c = "compare_lock t lock"
  show "set (pl_remove plan) = {n. salt_db_is_installed t n \<and> n \<notin> le_name ` set lock}"
    using assms(1) lock_extra_set [of t lock] by (auto simp: lock_plan_def split: option.splits if_splits)
  consider (none) "lock_wanted ?c = []" "pl_install plan = []"
    | (some) ix where "idx = Some ix" "\<forall>le \<in> set (lock_wanted ?c). lock_install_entry ix le \<noteq> None"
        "order_by_deps (map (\<lambda>le. the (lock_install_entry ix le)) (lock_wanted ?c)) = Some (pl_install plan)"
    using assms(1) by (auto simp: lock_plan_def list_ex_iff split: option.splits if_splits)
  then have "distinct (map re_name (pl_install plan)) \<and> re_name ` set (pl_install plan) = le_name ` {le \<in> set lock. lock_unmet t le} \<and>
      (\<forall>le \<in> set lock. lock_unmet t le \<longrightarrow> (\<exists>ix e. idx = Some ix \<and> e \<in> set (pl_install plan) \<and> lock_install_entry ix le = Some e)) \<and>
      (\<forall>e \<in> set (pl_install plan). \<exists>ix. idx = Some ix \<and> e \<in> set (ri_items ix))"
  proof cases
    case none
    then show ?thesis using lock_wanted_set [of t lock] by auto
  next
    case some
    let ?es = "map (\<lambda>le. the (lock_install_entry ix le)) (lock_wanted ?c)"
    have f: "re_name (the (lock_install_entry ix le)) = le_name le" "the (lock_install_entry ix le) \<in> set (ri_items ix)"
      if "le \<in> set (lock_wanted ?c)" for le using some(2) that lock_install_entry_fields by fastforce+
    have nm: "map re_name ?es = map le_name (lock_wanted ?c)" using f(1) by simp
    then have de: "distinct (map re_name ?es)" using lock_wanted_distinct [OF assms(2)] by metis
    note S = order_by_deps_spec [OF some(3)]
    have set: "set (pl_install plan) = set ?es" by (rule S(4) [OF de])
    have "re_name ` set ?es = le_name ` set (lock_wanted ?c)" using arg_cong [OF nm, of set] by (simp add: image_image)
    then have "re_name ` set (pl_install plan) = le_name ` {le \<in> set lock. lock_unmet t le}" using set by (simp add: lock_wanted_set)
    moreover have "\<exists>e. e \<in> set (pl_install plan) \<and> lock_install_entry ix le = Some e" if "le \<in> set lock" "lock_unmet t le" for le
      using that some(2) set by (intro exI [of _ "the (lock_install_entry ix le)"]) (auto simp: lock_wanted_set)
    moreover have "e \<in> set (ri_items ix)" if "e \<in> set (pl_install plan)" for e using that set f(2) by auto
    ultimately show ?thesis using S(1) some(1) by simp
  qed
  note H = this
  from H show "distinct (map re_name (pl_install plan))" by (rule conjunct1)
  from H show "re_name ` set (pl_install plan) = le_name ` {le \<in> set lock. lock_unmet t le}" by (elim conjE)
  from H show "\<exists>ix e. idx = Some ix \<and> e \<in> set (pl_install plan) \<and> lock_install_entry ix le = Some e" if "le \<in> set lock" "lock_unmet t le" for le
    using that by blast
  from H show "\<exists>ix. idx = Some ix \<and> e \<in> set (ri_items ix)" if "e \<in> set (pl_install plan)" for e using that by blast
qed

text \<open>Archives with the digest of an index entry are of the version the entry says.\<close>

definition index_truthful :: "sys \<Rightarrow> salt_repo_index \<Rightarrow> bool" where
  "index_truthful y ix \<longleftrightarrow> (\<forall>e \<in> set (ri_items ix). \<forall>d ar. sys_sha256 y d = re_sha256 e \<longrightarrow> salt_archive_open (sys_toml y) d = Some ar \<longrightarrow>
     pm_version (ar_meta ar) = re_version e \<and> pm_release (ar_meta ar) = re_release e)"

definition keeps_tables :: "(world \<Rightarrow> 'a \<times> world) \<Rightarrow> bool" where
  "keeps_tables f \<longleftrightarrow> (\<forall>w. w_tab (snd (f w)) = w_tab w)"

text \<open>The foreign package managers do not touch the package database.\<close>

definition foreign_keeps :: "foreign \<Rightarrow> bool" where
  "foreign_keeps fo \<longleftrightarrow> (\<forall>n l p i. keeps_tables (fo_ensure fo n) \<and> keeps_tables (fo_snapshot fo n) \<and>
     keeps_tables (fo_remove fo n l) \<and> keeps_tables (fo_install_exact fo n p) \<and> keeps_tables (fo_rollback fo n i))"

lemma foreign_keeps_tab:
  assumes "foreign_keeps fo"
  shows "w_tab (snd (fo_ensure fo n w)) = w_tab w" "w_tab (snd (fo_snapshot fo n w)) = w_tab w"
    "w_tab (snd (fo_remove fo n l w)) = w_tab w" "w_tab (snd (fo_install_exact fo n p w)) = w_tab w"
    "w_tab (snd (fo_rollback fo n i w)) = w_tab w"
  using assms by (simp_all add: foreign_keeps_def keeps_tables_def)

lemma stratum_steps_tables: "foreign_keeps fo \<Longrightarrow> w_tab (snd (stratum_steps fo sl cmp w)) = w_tab w"
proof -
  assume k: "foreign_keeps fo"
  obtain rc1 w1 where 1: "(if sc_extra cmp = [] then (0 :: int, w)
      else let ((rc, st), w') = fo_remove fo (sl_name sl) (sc_extra cmp) w in (if rc \<noteq> SALT_OK \<or> st \<noteq> 0 then 1 else 0, w')) = (rc1, w1)" by fastforce
  have t1: "w_tab w1 = w_tab w"
    using 1 foreign_keeps_tab(3) [OF k, of "sl_name sl" "sc_extra cmp" w] by (auto simp: Let_def split: prod.splits if_splits)
  obtain rc2 w2 where 2: "(if rc1 = 0 \<and> (sc_missing cmp \<noteq> [] \<or> sc_changed cmp \<noteq> [])
      then let ((rc, st), w') = fo_install_exact fo (sl_name sl) (sc_missing cmp @ sc_changed cmp) w1 in (if rc \<noteq> SALT_OK \<or> st \<noteq> 0 then 1 else 0, w')
      else (rc1, w1)) = (rc2, w2)" by fastforce
  have "w_tab w2 = w_tab w1"
    using 2 foreign_keeps_tab(4) [OF k, of "sl_name sl" "sc_missing cmp @ sc_changed cmp" w1] by (auto simp: Let_def split: prod.splits if_splits)
  then show ?thesis unfolding stratum_steps_def 1 Let_def [of "(rc1, w1)"] prod.case 2 Let_def [of "(rc2, w2)"]
    using t1 by (simp split: option.split)
qed

lemma apply_stratum_tables: "foreign_keeps fo \<Longrightarrow> w_tab (snd (apply_stratum fo f sl w)) = w_tab w"
proof -
  assume k: "foreign_keeps fo"
  obtain erc w1 where e: "(if fo_get fo (sl_name sl) w then (0, w) else fo_ensure fo (sl_name sl) w) = (erc, w1)" by fastforce
  have 1: "w_tab w1 = w_tab w" using e foreign_keeps_tab(1) [OF k, of "sl_name sl" w] by (auto split: if_splits)
  obtain q live where q: "query_stratum fo (sl_name sl) w1 = (q, live)" by fastforce
  obtain snap w2 where 2: "fo_snapshot fo (sl_name sl) w1 = (snap, w2)" by fastforce
  obtain rc w3 where 3: "stratum_steps fo sl (compare_stratum sl live) w2 = (rc, w3)" by fastforce
  have "w_tab w3 = w_tab w"
    using stratum_steps_tables [OF k, of sl "compare_stratum sl live" w2] foreign_keeps_tab(2) [OF k, of "sl_name sl" w1] 1 2 3 by simp
  then show ?thesis
    using 1 foreign_keeps_tab(5) [OF k] unfolding apply_stratum_def Let_def e q 2 3 prod.case
    by (cases snap) simp_all
qed

lemma apply_strata_tables: "foreign_keeps fo \<Longrightarrow> w_tab (snd (apply_strata fo f ss w)) = w_tab w"
proof -
  assume k: "foreign_keeps fo"
  have "w_tab (snd (fold (\<lambda>sl s. let (n, w') = apply_stratum fo f sl (snd s) in (if n \<noteq> 0 then 1 else fst s, w')) ss s)) = w_tab (snd s)" for s :: "int \<times> world"
    by (induction ss arbitrary: s) (auto simp: Let_def split_beta apply_stratum_tables [OF k])
  then show ?thesis by (simp add: apply_strata_def)
qed

lemma get_pkg_view: "salt_db_get_pkg t n = map_option pa_row (pkg_view t n)"
  by (cases "salt_db_get_pkg t n") (simp_all add: pkg_view_def)

lemma lock_native_converges:
  assumes wf: "db_wf (w_tab w)" "\<forall>n. deletes_ok (env_sql (sys_env y)) n"
    and plan: "lock_plan idx (compare_lock (w_tab w) lock) = Some plan" "distinct (map le_name lock)"
    and ix: "\<And>ix. idx = Some ix \<Longrightarrow> index_truthful y ix \<and> inj_on (cache_file y opt) (set (ri_items ix))"
    and run: "native_transaction y opt c ctx plan op f w = (0, w')" "real_run plan f" "\<not> tf_allow_unverified f"
  shows "native_matches (w_tab w') lock"
proof -
  note P = lock_plan_props [OF plan]
  have cf: "distinct (map (cache_file y opt) (pl_install plan))"
  proof -
    have "inj_on (cache_file y opt) (set (pl_install plan))"
      using P(5) ix by (cases idx) (auto intro: inj_on_subset)
    then show ?thesis using P(2) by (auto simp: distinct_map)
  qed
  have new: "\<exists>a. pkg_view (w_tab w') (le_name le) = Some a \<and> same_ver le (pa_row a) \<and> same_sha le (pa_row a)"
    if le: "le \<in> set lock" "lock_unmet (w_tab w) le" for le
  proof -
    obtain ixx e where e: "idx = Some ixx" "e \<in> set (pl_install plan)" "lock_install_entry ixx le = Some e" using P(4) [OF le] by blast
    note F = lock_install_entry_fields [OF e(3)]
    from native_installs_verified [OF wf P(2) cf run e(2)] show ?thesis
      using F ix [OF e(1)] by (auto simp: index_truthful_def same_ver_def same_sha_def)
  qed
  have old: "pkg_view (w_tab w') n = (if n \<in> set (pl_remove plan) then None else pkg_view (w_tab w) n)"
    if "n \<notin> le_name ` {le \<in> set lock. lock_unmet (w_tab w) le}" for n
    using native_commit_view [OF wf P(2) run(1,2)] that P(3) by auto
  show ?thesis unfolding native_matches_iff list_all_iff
  proof (intro conjI ballI)
    fix le assume le: "le \<in> set lock"
    show "case salt_db_get_pkg (w_tab w') (le_name le) of None \<Rightarrow> False | Some p \<Rightarrow> same_ver le p \<and> same_sha le p"
    proof (cases "lock_unmet (w_tab w) le")
      case True
      then show ?thesis using new [OF le True] by (auto simp: get_pkg_view)
    next
      case False
      have "le_name le \<notin> le_name ` {le \<in> set lock. lock_unmet (w_tab w) le}"
        using False le plan(2) by (auto simp: distinct_map inj_on_def)
      then have "pkg_view (w_tab w') (le_name le) = pkg_view (w_tab w) (le_name le)" using old P(1) le by auto
      then have "salt_db_get_pkg (w_tab w') (le_name le) = salt_db_get_pkg (w_tab w) (le_name le)" by (simp add: get_pkg_view)
      then show ?thesis using False by (auto simp: lock_unmet_def split: option.splits)
    qed
  next
    fix p assume p: "p \<in> set (t_packages (w_tab w'))"
    have "salt_db_is_installed (w_tab w') (dp_name p)" using p by (auto simp: salt_db_is_installed_def list_ex_iff)
    then have v: "pkg_view (w_tab w') (dp_name p) \<noteq> None" by (simp add: pkg_view_def get_pkg_None)
    show "dp_name p \<in> le_name ` set lock"
    proof (rule ccontr)
      assume n: "dp_name p \<notin> le_name ` set lock"
      then have "pkg_view (w_tab w') (dp_name p) = (if dp_name p \<in> set (pl_remove plan) then None else pkg_view (w_tab w) (dp_name p))"
        by (intro old) auto
      then show False using v n P(1) pkg_view_None [of "w_tab w" "dp_name p"] by (auto split: if_splits)
    qed
  qed
qed


text \<open>A lock file without packages, applied to a system with one.\<close>

definition ex_apply_world :: world where
  "ex_apply_world = ex_world\<lparr>w_files := [''l'' \<mapsto> ''schema = 2'']\<rparr>"

lemma ex_apply_load: "lock_load ex_lock_sys ''l'' ex_apply_world = Some ([], [])"
  by code_simp

lemma ex_apply_runs: "fst (lock_apply ex_foreign ex_lock_sys ex_opts ''l'' default_flags ex_apply_world) = 0"
  by code_simp


end
