(* ===== verification/Salt_Trial.thy ===== *)
theory Salt_Trial
  imports Salt_Boot
begin

text \<open>
  Booting a new kernel on trial: the round trip of the GRUB environment block, and the machine that
  alternates boots (which may hang) with the \<^verbatim>\<open>salt boot\<close> commands and package changes.  The default
  entry always names a kernel that has run, and a trial that hangs is followed by the default.
\<close>

section \<open>The environment block round trip\<close>

definition kv_line_ok :: "string \<times> string \<Rightarrow> bool" where
  "kv_line_ok e \<longleftrightarrow>
     fst e \<noteq> [] \<and> hd (fst e) \<noteq> CHR ''#'' \<and> CHR ''='' \<notin> set (fst e) \<and>
     CHR 0x0A \<notin> set (fst e) \<and> CHR 0x0A \<notin> set (snd e)"

definition kv_ok :: "(string \<times> string) list \<Rightarrow> bool" where
  "kv_ok kv \<longleftrightarrow> sorted_wrt (<) (map fst kv) \<and> list_all kv_line_ok kv"

lemma find_char_append: "c \<notin> set a \<Longrightarrow> find_char c (a @ c # b) = Some (length a)"
  by (induction a) auto

lemma grubenv_line_kv:
  assumes "kv_line_ok e"
  shows "grubenv_line (fst e @ ''='' @ snd e) kv = kv_put (fst e) (snd e) kv"
  using assms find_char_append [of "CHR ''=''" "fst e" "snd e"]
  by (cases "fst e") (auto simp: grubenv_line_def kv_line_ok_def)

lemma kv_put_snoc: "\<forall>x \<in> set kv. fst x < k \<Longrightarrow> kv_put k v kv = kv @ [(k, v)]"
  by (induction kv) (auto dest: less_imp_not_less)

lemma fold_kv_put:
  "sorted_wrt (<) (map fst (acc @ kv)) \<Longrightarrow> fold (\<lambda>e. kv_put (fst e) (snd e)) kv acc = acc @ kv"
proof (induction kv arbitrary: acc)
  case (Cons e kv)
  have "kv_put (fst e) (snd e) acc = acc @ [e]"
    using kv_put_snoc [of acc "fst e" "snd e"] Cons.prems by (auto simp: sorted_wrt_append)
  then show ?case using Cons.IH [of "acc @ [e]"] Cons.prems by simp
qed simp

lemma split_body:
  "list_all kv_line_ok kv \<Longrightarrow>
   split_on (CHR 0x0A) (concat (map (\<lambda>e. fst e @ ''='' @ snd e @ [CHR 0x0A]) kv) @ s) =
   map (\<lambda>e. fst e @ ''='' @ snd e) kv @ split_on (CHR 0x0A) s"
proof (induction kv)
  case (Cons e kv)
  have "CHR 0x0A \<notin> set (fst e @ ''='' @ snd e)" using Cons.prems by (auto simp: kv_line_ok_def)
  then have "split_on (CHR 0x0A) ((fst e @ ''='' @ snd e) @ CHR 0x0A # x) = (fst e @ ''='' @ snd e) # split_on (CHR 0x0A) x" for x
    using split_on_append [of "CHR 0x0A" "fst e @ ''='' @ snd e" x] split_on_notin [of "CHR 0x0A" "fst e @ ''='' @ snd e"]
    by simp
  then show ?case using Cons by simp
qed simp

lemma grubenv_line_comment: "grubenv_line (CHR ''#'' # s) kv = kv"
  by (simp add: grubenv_line_def)

lemma grubenv_line_pad: "grubenv_line (replicate n (CHR ''#'')) kv = kv"
  by (cases n) (simp_all add: grubenv_line_def)

lemma split_header:
  "split_on (CHR 0x0A) (''# GRUB Environment Block'' @ [CHR 0x0A] @ s) =
   ''# GRUB Environment Block'' # split_on (CHR 0x0A) s"
  using split_on_append [of "CHR 0x0A" "''# GRUB Environment Block''" s]
    split_on_notin [of "CHR 0x0A" "''# GRUB Environment Block''"] by simp

lemma fold_grubenv_lines:
  "list_all kv_line_ok kv \<Longrightarrow>
   fold grubenv_line (map (\<lambda>e. fst e @ ''='' @ snd e) kv) acc = fold (\<lambda>e. kv_put (fst e) (snd e)) kv acc"
  by (induction kv arbitrary: acc) (use grubenv_line_kv in auto)

lemma grubenv_parse_text:
  assumes "kv_ok kv"
  shows "grubenv_parse (grubenv_text kv @ replicate n (CHR ''#'')) = kv"
proof -
  have "split_on (CHR 0x0A) (grubenv_text kv @ replicate n (CHR ''#'')) =
      ''# GRUB Environment Block'' # map (\<lambda>e. fst e @ ''='' @ snd e) kv @ [replicate n (CHR ''#'')]"
    using assms split_header split_body [of kv "replicate n (CHR ''#'')"]
    by (simp add: grubenv_text_def kv_ok_def split_on_notin)
  then show ?thesis
    using assms fold_grubenv_lines [of kv "[]"] fold_kv_put [of "[]" kv]
    by (simp add: grubenv_parse_def grubenv_line_comment grubenv_line_pad kv_ok_def)
qed

lemma boot_vars_eq:
  "boot_vars def armed pending =
    [(''saltos_default'', entry_id def), (''saltos_pending'', pending),
     (''saltos_try'', if armed then ''1'' else ''0''),
     (''saltos_try_entry'', if pending = [] then [] else entry_id pending)]"
proof -
  have "\<not> ''saltos_try'' < ''saltos_default''" "\<not> ''saltos_try_entry'' < ''saltos_default''"
    "\<not> ''saltos_try_entry'' < ''saltos_try''" "\<not> ''saltos_pending'' < ''saltos_default''"
    "''saltos_pending'' < ''saltos_try''"
    by code_simp+
  then show ?thesis by (simp only: boot_vars_def kv_put.simps) simp
qed

section \<open>What the commands leave in the files\<close>

text \<open>Existence survives when every path is as before or a file or directory now.\<close>

definition only_new_files :: "fs \<Rightarrow> fs \<Rightarrow> bool" where
  "only_new_files fs fs' \<longleftrightarrow>
     (\<forall>k. fs_get fs' k = fs_get fs k \<or> fs_get fs' k = Some NDir \<or> (\<exists>d m. fs_get fs' k = Some (NReg d m)))"

lemma fs_stat_fuel_mono:
  "only_new_files fs fs' \<Longrightarrow> fs_stat_fuel n fs k \<noteq> None \<Longrightarrow> fs_stat_fuel n fs' k \<noteq> None"
proof (induction n arbitrary: k)
  case (Suc n)
  have "fs_get fs' k = fs_get fs k \<or> fs_get fs' k = Some NDir \<or> (\<exists>d m. fs_get fs' k = Some (NReg d m))"
    using Suc.prems(1) by (simp add: only_new_files_def)
  then show ?case using Suc.IH [OF Suc.prems(1)] Suc.prems(2)
    by (auto split: option.splits node.splits if_splits)
qed simp

lemma path_exists_mono: "only_new_files fs fs' \<Longrightarrow> salt_path_exists fs k \<Longrightarrow> salt_path_exists fs' k"
  by (simp add: salt_path_exists_def fs_stat_def fs_stat_fuel_mono del: not_None_eq)

lemma only_new_files_dirs: "only_new_dirs fs fs' \<Longrightarrow> only_new_files fs fs'"
  unfolding only_new_dirs_def only_new_files_def by blast

lemma only_new_files_trans: "only_new_files a b \<Longrightarrow> only_new_files b c \<Longrightarrow> only_new_files a c"
  unfolding only_new_files_def by metis

lemma only_new_files_write: "only_new_files fs (snd (salt_write_file io op k d m fs))"
  using salt_mkdirs_only [of fs io "butlast k"]
  unfolding only_new_files_def only_new_dirs_def salt_write_file_def Let_def by (simp split: if_splits) blast

lemma mkdirs_get: "fs_get fs q = Some n \<Longrightarrow> fs_get (snd (salt_mkdirs io k fs)) q = Some n"
  using salt_mkdirs_only [of fs io k] unfolding only_new_dirs_def by (metis option.distinct(1))

lemma write_file_get:
  assumes "fs_get fs q = Some n"
  shows "q \<noteq> k \<Longrightarrow> fs_get (snd (salt_write_file io op k d m fs)) q = Some n"
    and "fst (salt_write_file io op k d m fs) \<noteq> SALT_OK \<Longrightarrow> fs_get (snd (salt_write_file io op k d m fs)) q = Some n"
  using mkdirs_get [OF assms, of io "butlast k"] by (auto simp: salt_write_file_def Let_def)

lemma write_file_ok:
  "fst (salt_write_file io op k d m fs) = SALT_OK \<Longrightarrow> fs_get (snd (salt_write_file io op k d m fs)) k = Some (NReg d m)"
  by (auto simp: salt_write_file_def Let_def split: if_splits)

text \<open>Writing \<^verbatim>\<open>grub.cfg\<close> keeps every other file; writing the block gives the new one or keeps it.\<close>

definition grub_cfg_key :: "BootConf \<Rightarrow> key" where
  "grub_cfg_key c = path_key (tl (bc_grub_cfg c))"

lemma write_grub_cfg_files:
  shows "only_new_files fs (snd (write_grub_cfg y c t d p fs))"
    and "fs_get fs q = Some n \<Longrightarrow> q \<noteq> grub_cfg_key c \<Longrightarrow> fs_get (snd (write_grub_cfg y c t d p fs)) q = Some n"
proof -
  show "only_new_files fs (snd (write_grub_cfg y c t d p fs))"
    unfolding write_grub_cfg_def Let_def
    by (auto simp: split_beta only_new_files_dirs
        intro: only_new_files_trans [OF only_new_files_dirs [OF salt_mkdirs_only] only_new_files_write])
  show "fs_get fs q = Some n \<Longrightarrow> q \<noteq> grub_cfg_key c \<Longrightarrow> fs_get (snd (write_grub_cfg y c t d p fs)) q = Some n"
    unfolding write_grub_cfg_def Let_def grub_cfg_key_def
    by (simp add: split_beta write_file_get(1) mkdirs_get)
qed

lemma grubenv_write_files:
  shows "only_new_files fs (snd (grubenv_write io k kv fs))"
    and "fst (grubenv_write io k kv fs) \<noteq> 0 \<Longrightarrow> fs_get fs q = Some n \<Longrightarrow>
      fs_get (snd (grubenv_write io k kv fs)) q = Some n"
proof -
  show "only_new_files fs (snd (grubenv_write io k kv fs))"
    unfolding grubenv_write_def Let_def
    by (auto simp: split_beta only_new_files_dirs
        intro: only_new_files_trans [OF only_new_files_dirs [OF salt_mkdirs_only] only_new_files_write])
  show "fst (grubenv_write io k kv fs) \<noteq> 0 \<Longrightarrow> fs_get fs q = Some n \<Longrightarrow>
      fs_get (snd (grubenv_write io k kv fs)) q = Some n"
    unfolding grubenv_write_def Let_def
    by (simp add: split_beta write_file_get(2) mkdirs_get split: if_splits)
qed

lemma grubenv_write_ok:
  assumes "fst (grubenv_write io k kv fs) = 0"
  shows "\<exists>n. fs_get (snd (grubenv_write io k kv fs)) k = Some (NReg (grubenv_text kv @ replicate n (CHR ''#'')) 420)"
  using assms unfolding grubenv_write_def Let_def
  by (auto simp: split_beta write_file_ok split: if_splits)

section \<open>The machine\<close>

text \<open>
  The file system, the release of the running kernel (\<^const>\<open>None\<close> while the machine hangs), and the
  releases that have come up so far, which the code does not see.
\<close>

record machine =
  m_fs :: fs
  m_release :: "string option"
  m_proven :: "string set"

abbreviation running_sys :: "sys \<Rightarrow> machine \<Rightarrow> sys" where
  "running_sys y m \<equiv> y\<lparr>sys_release := m_release m\<rparr>"

text \<open>
  A boot follows the generated script and GRUB's \<^verbatim>\<open>save_env\<close> rewrites the block; the kernel comes up
  or hangs.  A package change may do anything but touch the block and remove the default kernel.
  File names in \<^verbatim>\<open>/boot\<close> hold no newline (and, being file names, no slash).
\<close>

definition plain_names :: "fs \<Rightarrow> bool" where
  "plain_names fs \<longleftrightarrow> (\<forall>k \<in> set (salt_boot_list_kernels fs [''boot'']). CHR 0x0A \<notin> set k \<and> CHR ''/'' \<notin> set k)"

definition env_block :: "BootConf \<Rightarrow> fs \<Rightarrow> (string \<times> string) list option" where
  "env_block c fs = (case fs_get fs (grubenv_path c) of Some (NReg d m) \<Rightarrow> Some (grubenv_parse d) | _ \<Rightarrow> None)"

definition grub_saves :: "BootConf \<Rightarrow> (string \<times> string) list \<Rightarrow> fs \<Rightarrow> fs \<Rightarrow> bool" where
  "grub_saves c kv fs fs' \<longleftrightarrow>
     env_block c fs' = Some kv \<and> (\<forall>k. k \<noteq> grubenv_path c \<longrightarrow> fs_get fs' k = fs_get fs k)"

inductive boot_step :: "sys \<Rightarrow> BootConf \<Rightarrow> machine \<Rightarrow> machine \<Rightarrow> bool" for y c where
  boots: "env_block c (m_fs m) = Some kv \<Longrightarrow> grub_choose d p kv = (entry_id k, kv') \<Longrightarrow> grub_saves c kv' (m_fs m) fs' \<Longrightarrow>
    boot_step y c m \<lparr>m_fs = fs', m_release = Some (kernel_release k), m_proven = insert (kernel_release k) (m_proven m)\<rparr>"
| hangs: "env_block c (m_fs m) = Some kv \<Longrightarrow> grub_choose d p kv = (e, kv') \<Longrightarrow> grub_saves c kv' (m_fs m) fs' \<Longrightarrow>
    boot_step y c m \<lparr>m_fs = fs', m_release = None, m_proven = m_proven m\<rparr>"
| updates: "plain_names (m_fs m) \<Longrightarrow> o_root opt = ''/'' \<Longrightarrow>
    boot_step y c m (m\<lparr>m_fs := snd (grub_update (running_sys y m) opt c t False rearm (m_fs m))\<rparr>)"
| tries: "plain_names (m_fs m) \<Longrightarrow>
    boot_step y c m (m\<lparr>m_fs := snd (grub_try (running_sys y m) c t (m_fs m))\<rparr>)"
| confirms: "plain_names (m_fs m) \<Longrightarrow>
    boot_step y c m (m\<lparr>m_fs := snd (grub_confirm (running_sys y m) c t (m_fs m))\<rparr>)"
| packages: "fs_get fs' (grubenv_path c) = fs_get (m_fs m) (grubenv_path c) \<Longrightarrow>
    salt_path_exists fs' ([''boot''] @ path_key (bs_default_kernel (grub_state c [''boot''] (m_fs m)))) \<Longrightarrow>
    boot_step y c m (m\<lparr>m_fs := fs'\<rparr>)"

inductive_cases boot_step_cases: "boot_step y c m m'"

text \<open>The default entry names a present kernel that has run, and the running kernel has run.\<close>

definition good_kernel :: "string set \<Rightarrow> fs \<Rightarrow> string \<Rightarrow> bool" where
  "good_kernel P fs d \<longleftrightarrow>
     d \<noteq> [] \<and> CHR 0x0A \<notin> set d \<and> salt_path_exists fs ([''boot''] @ path_key d) \<and> kernel_release d \<in> P"

definition default_good :: "BootConf \<Rightarrow> string set \<Rightarrow> fs \<Rightarrow> bool" where
  "default_good c P fs \<longleftrightarrow>
     (\<exists>kv d. env_block c fs = Some kv \<and> map_of kv ''saltos_default'' = Some (entry_id d) \<and> good_kernel P fs d)"

definition default_proven :: "BootConf \<Rightarrow> machine \<Rightarrow> bool" where
  "default_proven c m \<longleftrightarrow>
     default_good c (m_proven m) (m_fs m) \<and> (\<forall>r. m_release m = Some r \<longrightarrow> r \<in> m_proven m)"

definition conf_ok :: "BootConf \<Rightarrow> bool" where
  "conf_ok c \<longleftrightarrow> grubenv_path c \<noteq> [] \<and> grub_cfg_key c \<noteq> grubenv_path c"

section \<open>The invariant\<close>

lemma good_kernel_mono: "only_new_files fs fs' \<Longrightarrow> P \<subseteq> Q \<Longrightarrow> good_kernel P fs d \<Longrightarrow> good_kernel Q fs' d"
  by (auto simp: good_kernel_def intro: path_exists_mono)

lemma env_blockD: "env_block c fs = Some kv \<Longrightarrow> \<exists>d m. fs_get fs (grubenv_path c) = Some (NReg d m) \<and> kv = grubenv_parse d"
  by (auto simp: env_block_def split: option.splits node.splits)

lemma env_block_get: "fs_get fs' (grubenv_path c) = fs_get fs (grubenv_path c) \<Longrightarrow> env_block c fs' = env_block c fs"
  by (simp add: env_block_def)

lemma kernel_from_entry_id [simp]: "kernel_from_entry (entry_id d) = d"
  by (simp add: kernel_from_entry_def entry_id_def starts_with_iff)

lemma grub_state_default:
  assumes "conf_ok c" "env_block c fs = Some kv" "map_of kv ''saltos_default'' = Some (entry_id d)"
    "salt_path_exists fs ([''boot''] @ path_key d)"
  shows "bs_default_kernel (grub_state c [''boot''] fs) = d"
proof -
  obtain dat m where "fs_get fs (grubenv_path c) = Some (NReg dat m)" "kv = grubenv_parse dat"
    using env_blockD [OF assms(2)] by blast
  then have "grubenv_read fs (grubenv_path c) = kv"
    using fs_stat_NReg assms(1) by (simp add: grubenv_read_def conf_ok_def)
  then show ?thesis using assms by (simp add: grub_state_def present_kernel_def kv_get_def Let_def)
qed

lemma default_good_state:
  assumes "conf_ok c" "default_good c P fs"
  shows "good_kernel P fs (bs_default_kernel (grub_state c [''boot''] fs))"
  using assms grub_state_default by (force simp: default_good_def good_kernel_def)

lemma default_good_keep:
  assumes "default_good c P fs" "only_new_files fs fs'" "P \<subseteq> Q"
    "\<And>n. fs_get fs (grubenv_path c) = Some n \<Longrightarrow> fs_get fs' (grubenv_path c) = Some n"
  shows "default_good c Q fs'"
proof -
  obtain kv d where kv: "env_block c fs = Some kv" "map_of kv ''saltos_default'' = Some (entry_id d)" "good_kernel P fs d"
    using assms(1) by (auto simp: default_good_def)
  obtain x where "fs_get fs (grubenv_path c) = Some x" using env_blockD [OF kv(1)] by blast
  then have "env_block c fs' = Some kv" using assms(4) kv(1) env_block_get [of fs' c fs] by simp
  then show ?thesis using kv good_kernel_mono [OF assms(2,3)] by (auto simp: default_good_def)
qed

lemma default_good_cfg:
  assumes "conf_ok c" "default_good c P fs"
  shows "default_good c P (snd (write_grub_cfg y c t d p fs))"
  using assms(1) write_grub_cfg_files [of fs]
  by (intro default_good_keep [OF assms(2)]) (auto simp: conf_ok_def)

lemma boot_vars_ok: "CHR 0x0A \<notin> set def \<Longrightarrow> CHR 0x0A \<notin> set pending \<Longrightarrow> kv_ok (boot_vars def armed pending)"
proof -
  assume a: "CHR 0x0A \<notin> set def" "CHR 0x0A \<notin> set pending"
  have "sorted_wrt (<) [''saltos_default'', ''saltos_pending'', ''saltos_try'', ''saltos_try_entry'']" by code_simp
  then show ?thesis using a by (simp add: boot_vars_eq kv_ok_def kv_line_ok_def entry_id_def)
qed

lemma default_good_env:
  assumes "conf_ok c" "default_good c P fs" "good_kernel P fs d" "CHR 0x0A \<notin> set p"
  shows "default_good c P (snd (grubenv_write io (grubenv_path c) (boot_vars d a p) fs))"
proof (cases "fst (grubenv_write io (grubenv_path c) (boot_vars d a p) fs) = 0")
  case True
  let ?fs' = "snd (grubenv_write io (grubenv_path c) (boot_vars d a p) fs)"
  have nl: "CHR 0x0A \<notin> set d" using assms(3) by (simp add: good_kernel_def)
  obtain n where "fs_get ?fs' (grubenv_path c) = Some (NReg (grubenv_text (boot_vars d a p) @ replicate n (CHR ''#'')) 420)"
    using grubenv_write_ok [OF True] by blast
  then have "env_block c ?fs' = Some (boot_vars d a p)"
    using grubenv_parse_text [OF boot_vars_ok [OF nl assms(4)]] by (simp add: env_block_def)
  moreover have "good_kernel P ?fs' d" using good_kernel_mono [OF grubenv_write_files(1) subset_refl assms(3)] .
  ultimately show ?thesis by (auto simp: default_good_def boot_vars_eq)
next
  case False
  then show ?thesis using grubenv_write_files
    by (intro default_good_keep [OF assms(2)]) auto
qed

lemma default_good_cfg_env:
  assumes "conf_ok c" "default_good c P fs" "good_kernel P fs d" "CHR 0x0A \<notin> set p"
  shows "default_good c P (snd (grubenv_write io (grubenv_path c) (boot_vars d a p) (snd (write_grub_cfg y c t d' p' fs))))"
  using assms default_good_cfg good_kernel_mono [OF write_grub_cfg_files(1) subset_refl] by (intro default_good_env) auto

lemma default_good_both:
  assumes "conf_ok c" "default_good c P fs" "good_kernel P fs d" "CHR 0x0A \<notin> set p"
  shows "default_good c P (snd (grub_write_both y c t d a p fs))"
  using default_good_cfg_env [OF assms] default_good_cfg [OF assms(1,2)]
  by (simp add: grub_write_both_def split_beta)

lemma kernel_listed:
  assumes "plain_names fs" "k \<in> set (salt_boot_list_kernels fs [''boot''])"
  shows "CHR 0x0A \<notin> set k" and "k \<noteq> []" and "salt_path_exists fs ([''boot''] @ path_key k)"
proof -
  have k: "kernel_name_ok k" "k \<in> set (dir_regular fs [''boot''])" and nm: "CHR 0x0A \<notin> set k" "CHR ''/'' \<notin> set k"
    using assms by (auto simp: salt_boot_list_kernels_def plain_names_def)
  show "CHR 0x0A \<notin> set k" by (rule nm)
  have "\<not> kernel_name_ok []" "\<not> kernel_name_ok ''.''" by code_simp+
  then have ne: "k \<noteq> []" "k \<noteq> ''.''" using k(1) by auto
  then show "k \<noteq> []" by simp
  have "path_key k = [k]" using nm ne by (simp add: path_key_def split_on_notin)
  moreover have "salt_path_exists fs [''boot'', k]"
  proof -
    obtain q where "q \<noteq> []" "butlast q = [''boot'']" "last q = k" "fs_stat fs q \<noteq> None"
      using k(2) by (fastforce simp: dir_regular_def split: option.splits)
    then show ?thesis using append_butlast_last_id [of q] by (simp add: salt_path_exists_def)
  qed
  ultimately show "salt_path_exists fs ([''boot''] @ path_key k)" by simp
qed

lemma running_kernel_good:
  assumes "plain_names fs" "running_kernel y fs [''boot''] \<noteq> []" "\<forall>r. sys_release y = Some r \<longrightarrow> r \<in> P"
  shows "good_kernel P fs (running_kernel y fs [''boot''])"
proof -
  obtain r k where r: "sys_release y = Some r"
      and f: "find (\<lambda>k. kernel_release k = r) (salt_boot_list_kernels fs [''boot'']) = Some k"
    using assms(2) by (auto simp: running_kernel_def split: option.splits)
  then have "k \<in> set (salt_boot_list_kernels fs [''boot''])" "kernel_release k = r"
    by (auto simp: find_Some_iff)
  moreover have "running_kernel y fs [''boot''] = k" using r f by (simp add: running_kernel_def)
  ultimately show ?thesis using kernel_listed [OF assms(1)] assms(3) r by (auto simp: good_kernel_def)
qed

lemma newest_listed: "salt_boot_newest_kernel fs d = Some k \<Longrightarrow> k \<in> set (salt_boot_list_kernels fs d)"
  by (auto simp: salt_boot_newest_kernel_def split: list.splits)

lemma split_on_delim: "x \<in> set (split_on d s) \<Longrightarrow> d \<notin> set x"
  by (induction s arbitrary: x) (auto split: list.splits if_splits)

lemma kv_put_set: "set (kv_put k v kv) \<subseteq> insert (k, v) (set kv)"
  by (induction k v kv rule: kv_put.induct) (auto split: if_splits)

lemma grubenv_line_plain:
  assumes "CHR 0x0A \<notin> set l" "\<forall>e \<in> set kv. CHR 0x0A \<notin> set (snd e)"
  shows "\<forall>e \<in> set (grubenv_line l kv). CHR 0x0A \<notin> set (snd e)"
proof (cases "find_char (CHR ''='') l")
  case (Some i)
  have "CHR 0x0A \<notin> set (drop (Suc i) l)" using assms(1) in_set_dropD by fast
  then show ?thesis
    using assms(2) Some kv_put_set [of "take i l" "drop (Suc i) l" kv] by (auto simp: grubenv_line_def)
next
  case None
  then have "grubenv_line l kv = kv" unfolding grubenv_line_def by (simp only: option.case if_cancel)
  then show ?thesis using assms(2) by simp
qed

lemma grubenv_parse_plain: "\<forall>e \<in> set (grubenv_parse s). CHR 0x0A \<notin> set (snd e)"
proof -
  have "(\<forall>l \<in> set ls. CHR 0x0A \<notin> set l) \<Longrightarrow> (\<forall>e \<in> set kv. CHR 0x0A \<notin> set (snd e)) \<Longrightarrow>
      \<forall>e \<in> set (fold grubenv_line ls kv). CHR 0x0A \<notin> set (snd e)" for ls kv
  proof (induction ls arbitrary: kv)
    case (Cons l ls)
    then show ?case using grubenv_line_plain [of l kv] by simp
  qed simp
  from this [of "split_on (CHR 0x0A) s" "[]"] show ?thesis
    using split_on_delim [of _ "CHR 0x0A" s] by (auto simp: grubenv_parse_def)
qed

lemma pending_plain: "CHR 0x0A \<notin> set (bs_pending_kernel (grub_state c [''boot''] fs))"
proof -
  have "CHR 0x0A \<notin> set (kv_get k (grubenv_read fs q))" for k q
  proof -
    have "\<forall>e \<in> set (grubenv_read fs q). CHR 0x0A \<notin> set (snd e)"
      unfolding grubenv_read_def by (cases "fs_stat fs q") (auto split: node.splits dest: grubenv_parse_plain [rule_format])
    then show ?thesis by (cases "map_of (grubenv_read fs q) k") (simp_all add: kv_get_def, metis map_of_SomeD snd_conv)
  qed
  then show ?thesis by (simp add: grub_state_def present_kernel_def Let_def)
qed

lemma default_good_update:
  assumes "conf_ok c" "default_good c P fs" "plain_names fs"
  shows "default_good c P (snd (grub_update y opt c t False rearm fs))"
proof (cases "salt_boot_newest_kernel fs [''boot'']")
  case (Some k)
  let ?d = "bs_default_kernel (grub_state c [''boot''] fs)"
  have g: "good_kernel P fs ?d" by (rule default_good_state [OF assms(1,2)])
  have k: "CHR 0x0A \<notin> set k" using kernel_listed [OF assms(3) newest_listed [OF Some]] by simp
  have d: "?d \<noteq> []" using g by (simp add: good_kernel_def)
  have "CHR 0x0A \<notin> set p \<Longrightarrow> default_good c P (snd (grubenv_write io (grubenv_path c) (boot_vars ?d a p)
      (snd (write_grub_cfg y c t ?d p fs))))" for io a p
    by (rule default_good_cfg_env [OF assms(1,2) g])
  then show ?thesis
    using default_good_cfg [OF assms(1,2)] Some d k pending_plain
    by (simp add: grub_update_def Let_def split_beta)
qed (simp add: grub_update_def assms)

lemma default_good_try:
  assumes "conf_ok c" "default_good c P fs" "plain_names fs"
  shows "default_good c P (snd (grub_try y c t fs))"
proof -
  let ?d = "bs_default_kernel (grub_state c [''boot''] fs)"
  have g: "good_kernel P fs ?d" by (rule default_good_state [OF assms(1,2)])
  have d: "?d \<noteq> []" using g by (simp add: good_kernel_def)
  show ?thesis
  proof (cases "salt_boot_newest_kernel fs [''boot'']")
    case (Some k)
    have "CHR 0x0A \<notin> set k" using kernel_listed [OF assms(3) newest_listed [OF Some]] by simp
    from default_good_both [OF assms(1,2) g this] show ?thesis
      using Some d assms(2) by (simp add: grub_try_def Let_def)
  qed (simp add: grub_try_def assms)
qed

lemma default_good_confirm:
  assumes "conf_ok c" "default_good c P fs" "plain_names fs" "\<forall>r. sys_release y = Some r \<longrightarrow> r \<in> P"
  shows "default_good c P (snd (grub_confirm y c t fs))"
proof -
  let ?st = "grub_state c [''boot''] fs"
  have g: "good_kernel P fs (bs_default_kernel ?st)" by (rule default_good_state [OF assms(1,2)])
  have "running_kernel y fs [''boot''] = bs_pending_kernel ?st \<Longrightarrow> bs_pending_kernel ?st \<noteq> [] \<Longrightarrow>
      default_good c P (snd (grub_write_both y c t (bs_pending_kernel ?st) False [] fs))"
    using running_kernel_good [OF assms(3) _ assms(4)] default_good_both [OF assms(1,2), of _ "[]"] by simp
  then show ?thesis using default_good_cfg_env [OF assms(1,2) g, of "[]"] assms(2)
    by (simp add: grub_confirm_def Let_def)
qed

lemma kv_put_get: "map_of (kv_put k v kv) q = (if q = k then Some v else map_of kv q)"
  by (induction kv) auto

lemma grub_choose_default:
  assumes "grub_choose d p kv = (e, kv')"
  shows "map_of kv' ''saltos_default'' = map_of kv ''saltos_default''"
    and "map_of kv' ''saltos_try'' = Some ''1'' \<Longrightarrow> map_of kv' ''saltos_try_entry'' = Some [] \<or> map_of kv' ''saltos_try_entry'' = None"
  using assms by (auto simp: grub_choose_def Let_def kv_put_get split: if_splits option.splits)

lemma only_new_files_saves:
  assumes "grub_saves c kv fs fs'"
  shows "only_new_files fs fs'"
  using assms env_blockD [of c fs' kv] unfolding grub_saves_def only_new_files_def by metis

lemma default_good_saves:
  assumes "default_good c P fs" "P \<subseteq> Q" "env_block c fs = Some kv" "grub_choose d p kv = (e, kv')" "grub_saves c kv' fs fs'"
  shows "default_good c Q fs'"
  using assms grub_choose_default(1) [OF assms(4)] good_kernel_mono [OF only_new_files_saves [OF assms(5)] assms(2)]
  by (auto simp: default_good_def grub_saves_def)

lemma default_good_packages:
  assumes "conf_ok c" "default_good c P fs" "fs_get fs' (grubenv_path c) = fs_get fs (grubenv_path c)"
    "salt_path_exists fs' ([''boot''] @ path_key (bs_default_kernel (grub_state c [''boot''] fs)))"
  shows "default_good c P fs'"
  using assms grub_state_default [OF assms(1)] env_block_get [OF assms(3)]
  by (auto simp: default_good_def good_kernel_def)

lemma boot_step_keeps:
  assumes "conf_ok c" "boot_step y c m m'" "default_proven c m"
  shows "default_proven c m'"
  using assms(2,3)
proof (cases rule: boot_step.cases)
  case (boots kv d p k kv' fs')
  then show ?thesis using assms(3) default_good_saves [OF _ subset_insertI boots(2-4)] by (auto simp: default_proven_def)
next
  case (hangs kv d p e kv' fs')
  then show ?thesis using assms(3) default_good_saves [OF _ _ hangs(2-4)] by (auto simp: default_proven_def)
next
  case (updates opt t rearm)
  then show ?thesis using assms(1,3) default_good_update by (simp add: default_proven_def)
next
  case (tries t)
  then show ?thesis using assms(1,3) default_good_try by (simp add: default_proven_def)
next
  case (confirms t)
  then show ?thesis using assms(1,3) default_good_confirm [of c "m_proven m" "m_fs m" "running_sys y m"]
    by (simp add: default_proven_def)
next
  case (packages fs')
  then show ?thesis using assms(3) default_good_packages [OF assms(1) _ packages(2,3)] by (simp add: default_proven_def)
qed

lemma boot_reach_keeps:
  assumes "(boot_step y c)\<^sup>*\<^sup>* m m'" "conf_ok c" "default_proven c m"
  shows "default_proven c m'"
  using assms(1,3) by (induction rule: rtranclp_induct) (auto intro: boot_step_keeps [OF assms(2)])

section \<open>Properties\<close>

definition ex_conf :: BootConf where
  "ex_conf = default_boot_conf\<lparr>bc_loader := ''grub''\<rparr>"

definition ex_boot_fs :: fs where
  "ex_boot_fs =
     [([''boot''], NDir), ([''boot'', ''vmlinuz-6.1''], NReg [] 420), ([''boot'', ''vmlinuz-6.2''], NReg [] 420),
      (grubenv_path ex_conf, NReg (grubenv_text (boot_vars ''vmlinuz-6.1'' False [])) 420)]"

definition ex_machine :: machine where
  "ex_machine = \<lparr>m_fs = ex_boot_fs, m_release = Some ''6.1'', m_proven = {''6.1''}\<rparr>"

definition ex_no_tables :: tables where
  "ex_no_tables = \<lparr>t_packages = [], t_files = [], t_deps = [], t_conflicts = [], t_hooks = [],
     t_transactions = [], t_seq = 0, t_txn_changes = [], t_txn_meta = []\<rparr>"

lemma ex_conf_ok: "conf_ok ex_conf"
  by code_simp

lemma ex_kernels: "salt_boot_list_kernels ex_boot_fs [''boot''] = [''vmlinuz-6.2'', ''vmlinuz-6.1'']"
  by code_simp

lemma ex_plain: "plain_names ex_boot_fs"
  by (simp add: plain_names_def ex_kernels)

lemma ex_block: "env_block ex_conf ex_boot_fs = Some (boot_vars ''vmlinuz-6.1'' False [])"
  by code_simp

lemma ex_good: "good_kernel {''6.1''} ex_boot_fs ''vmlinuz-6.1''"
proof -
  have "salt_path_exists ex_boot_fs ([''boot''] @ path_key ''vmlinuz-6.1'')" "kernel_release ''vmlinuz-6.1'' = ''6.1''"
    by code_simp+
  then show ?thesis by (simp add: good_kernel_def)
qed

lemma ex_proven: "default_proven ex_conf ex_machine"
  using ex_block ex_good by (auto simp: default_proven_def default_good_def ex_machine_def boot_vars_eq)



lemma grub_choose_vars:
  "grub_choose d0 p0 (boot_vars d a p) =
     (if a \<and> p \<noteq> [] then (entry_id p, boot_vars d False p) else (entry_id d, boot_vars d a p))"
  by (simp add: grub_choose_def boot_vars_eq entry_id_def Let_def)

lemma update_arms:
  assumes "conf_ok c" "default_good c P fs" "plain_names fs" "salt_boot_newest_kernel fs [''boot''] = Some k"
    "k \<noteq> bs_default_kernel (grub_state c [''boot''] fs)" "o_root opt = ''/''"
    "fst (grub_update y opt c t False True fs) = 0"
  shows "env_block c (snd (grub_update y opt c t False True fs)) =
    Some (boot_vars (bs_default_kernel (grub_state c [''boot''] fs)) True k)"
proof -
  let ?d = "bs_default_kernel (grub_state c [''boot''] fs)"
  let ?w = "grubenv_write (env_io (sys_env y)) (grubenv_path c) (boot_vars ?d True k) (snd (write_grub_cfg y c t ?d k fs))"
  have g: "?d \<noteq> []" "CHR 0x0A \<notin> set ?d" using default_good_state [OF assms(1,2)] by (auto simp: good_kernel_def)
  have k: "CHR 0x0A \<notin> set k" using kernel_listed [OF assms(3) newest_listed [OF assms(4)]] by simp
  have u: "grub_update y opt c t False True fs =
      (if fst (write_grub_cfg y c t ?d k fs) \<noteq> 0 then write_grub_cfg y c t ?d k fs else ?w)"
    using assms(4-6) g(1) by (simp add: grub_update_def Let_def split_beta)
  then have w: "fst ?w = 0" "grub_update y opt c t False True fs = ?w" using assms(7) by (auto split: if_splits)
  obtain n where "fs_get (snd ?w) (grubenv_path c) = Some (NReg (grubenv_text (boot_vars ?d True k) @ replicate n (CHR ''#'')) 420)"
    using grubenv_write_ok [OF w(1)] by blast
  then show ?thesis using w(2) grubenv_parse_text [OF boot_vars_ok [OF g(2) k]] by (simp add: env_block_def)
qed

text \<open>
  C5. After \<^verbatim>\<open>salt boot update\<close> succeeds on a machine whose newest kernel is not the default one, the
  next boot takes the newest kernel, and the boot after that, whether the trial hung or not,
  takes the default kernel again until something is confirmed.
\<close>

theorem trial_boots_once:
  assumes "conf_ok c" "default_good c P fs" "plain_names fs" "salt_boot_newest_kernel fs [''boot''] = Some k"
    "k \<noteq> bs_default_kernel (grub_state c [''boot''] fs)" "o_root opt = ''/''"
    "fst (grub_update y opt c t False True fs) = 0"
  shows "\<exists>kv kv'. env_block c (snd (grub_update y opt c t False True fs)) = Some kv \<and>
    grub_choose d p kv = (entry_id k, kv') \<and>
    grub_choose d' p' kv' = (entry_id (bs_default_kernel (grub_state c [''boot''] fs)), kv')"
proof -
  have "k \<noteq> []" using kernel_listed [OF assms(3) newest_listed [OF assms(4)]] by simp
  then show ?thesis using update_arms [OF assms] by (simp add: grub_choose_vars)
qed


theorem trial_boots_once_witness:
  "\<exists>kv kv'. env_block ex_conf (snd (grub_update ex_sys default_options ex_conf ex_no_tables False True ex_boot_fs)) = Some kv \<and>
    grub_choose [] [] kv = (entry_id ''vmlinuz-6.2'', kv') \<and>
    grub_choose [] [] kv' = (entry_id (bs_default_kernel (grub_state ex_conf [''boot''] ex_boot_fs)), kv')"
proof (rule trial_boots_once)
  show "conf_ok ex_conf" by (rule ex_conf_ok)
  show "default_good ex_conf {''6.1''} ex_boot_fs"
    using ex_proven by (simp add: default_proven_def ex_machine_def)
  show "plain_names ex_boot_fs" by (rule ex_plain)
  show "salt_boot_newest_kernel ex_boot_fs [''boot''] = Some ''vmlinuz-6.2''" by (simp add: salt_boot_newest_kernel_def ex_kernels)
  show "''vmlinuz-6.2'' \<noteq> bs_default_kernel (grub_state ex_conf [''boot''] ex_boot_fs)" by code_simp
  show "o_root default_options = ''/''" by (simp add: default_options_def)
  show "fst (grub_update ex_sys default_options ex_conf ex_no_tables False True ex_boot_fs) = 0" by code_simp
qed

lemma env_block_cfg:
  assumes "conf_ok c" "env_block c fs = Some kv"
  shows "env_block c (snd (write_grub_cfg y c t d p fs)) = Some kv"
proof -
  obtain x m where x: "fs_get fs (grubenv_path c) = Some (NReg x m)" using env_blockD [OF assms(2)] by blast
  then have "fs_get (snd (write_grub_cfg y c t d p fs)) (grubenv_path c) = Some (NReg x m)"
    using assms(1) by (intro write_grub_cfg_files(2)) (auto simp: conf_ok_def)
  then show ?thesis using assms(2) x by (simp add: env_block_def)
qed

lemma env_block_write:
  assumes "env_block c fs = Some kv" "CHR 0x0A \<notin> set d" "CHR 0x0A \<notin> set p"
  shows "env_block c (snd (grubenv_write io (grubenv_path c) (boot_vars d a p) fs)) =
    Some (if fst (grubenv_write io (grubenv_path c) (boot_vars d a p) fs) = 0 then boot_vars d a p else kv)"
proof (cases "fst (grubenv_write io (grubenv_path c) (boot_vars d a p) fs) = 0")
  case True
  then obtain n where "fs_get (snd (grubenv_write io (grubenv_path c) (boot_vars d a p) fs)) (grubenv_path c) =
      Some (NReg (grubenv_text (boot_vars d a p) @ replicate n (CHR ''#'')) 420)"
    using grubenv_write_ok by blast
  then show ?thesis using True grubenv_parse_text [OF boot_vars_ok [OF assms(2,3)]] by (simp add: env_block_def)
next
  case False
  obtain x m where x: "fs_get fs (grubenv_path c) = Some (NReg x m)" using env_blockD [OF assms(1)] by blast
  then show ?thesis using grubenv_write_files(2) [OF False x] False assms(1) by (simp add: env_block_def)
qed

text \<open>
  C6. \<^verbatim>\<open>salt boot confirm\<close> replaces the default kernel by one kernel only, the pending one, and only while
  that kernel is running, in which case code 0 means that the block now says so; in every other case
  the default entry stays.
\<close>

theorem confirm_only_running:
  assumes "conf_ok c" "default_good c P fs" "plain_names fs"
  shows "\<exists>kv. env_block c (snd (grub_confirm y c t fs)) = Some kv \<and>
    (if bs_pending_kernel (grub_state c [''boot''] fs) \<noteq> [] \<and>
        bs_pending_kernel (grub_state c [''boot''] fs) = running_kernel y fs [''boot''] \<and> fst (grub_confirm y c t fs) = 0
     then kv = boot_vars (running_kernel y fs [''boot'']) False []
     else map_of kv ''saltos_default'' = Some (entry_id (bs_default_kernel (grub_state c [''boot''] fs))))"
proof -
  let ?d = "bs_default_kernel (grub_state c [''boot''] fs)"
  let ?p = "bs_pending_kernel (grub_state c [''boot''] fs)"
  obtain kv d where kv: "env_block c fs = Some kv" "map_of kv ''saltos_default'' = Some (entry_id d)" "good_kernel P fs d"
    using assms(2) by (auto simp: default_good_def)
  then have d: "?d = d" "CHR 0x0A \<notin> set d"
    using grub_state_default [OF assms(1) kv(1,2)] by (auto simp: good_kernel_def)
  have p: "CHR 0x0A \<notin> set ?p" by (rule pending_plain)
  note cfg = env_block_cfg [OF assms(1) kv(1)]
  have d': "CHR 0x0A \<notin> set ?d" using d by simp
  have v: "map_of (boot_vars ?d False []) ''saltos_default'' = Some (entry_id ?d)" by (simp add: boot_vars_eq)
  show ?thesis
  proof (cases "?p \<noteq> [] \<and> ?p = running_kernel y fs [''boot'']")
    case True
    then obtain r where r: "?p = r" "running_kernel y fs [''boot''] = r" "r \<noteq> []" by auto
    then have "CHR 0x0A \<notin> set r" using p by simp
    then show ?thesis using r kv(2) d(1) cfg env_block_write [OF cfg, where d = r and p = "[]"]
      by (simp add: grub_confirm_def Let_def grub_write_both_def split_beta)
  next
    case False
    then show ?thesis using kv(1,2) d(1) v env_block_write [OF cfg d', where p = "[]"]
      by (auto simp: grub_confirm_def Let_def)
  qed
qed

theorem confirm_only_running_witness:
  "\<exists>kv. env_block ex_conf (snd (grub_confirm ex_sys ex_conf ex_no_tables ex_boot_fs)) = Some kv \<and>
    map_of kv ''saltos_default'' = Some (entry_id ''vmlinuz-6.1'')"
proof -
  have "default_good ex_conf {''6.1''} ex_boot_fs"
    using ex_proven by (simp add: default_proven_def ex_machine_def)
  moreover have "bs_pending_kernel (grub_state ex_conf [''boot''] ex_boot_fs) = []"
    "bs_default_kernel (grub_state ex_conf [''boot''] ex_boot_fs) = ''vmlinuz-6.1''" by code_simp+
  ultimately show ?thesis using confirm_only_running [OF ex_conf_ok _ ex_plain] by fastforce
qed

end
