(* ===== verification/Salt_Pack.thy ===== *)
theory Salt_Pack
  imports Salt_Index
begin

text \<open>
  Writing packages: the tar writer (\<^verbatim>\<open>salt_tar_writer_add\<close> and its helpers, \<^verbatim>\<open>tar.c\<close>), the bytes of an
  archive (\<^verbatim>\<open>salt_archive_write\<close>) and its construction from a staging directory (\<^verbatim>\<open>archive.c\<close>), and
  that what is written is what the reader of \<open>Salt_Tar\<close> and \<open>Salt_Archive\<close> reads.
\<close>

section \<open>The tar writer\<close>

text \<open>\<open>put_bytes\<close> is \<^verbatim>\<open>memcpy (h + off, bs, n)\<close>; \<open>strncpy_field\<close> the bytes \<^verbatim>\<open>strncpy\<close> writes.\<close>

definition put_bytes :: "nat \<Rightarrow> string \<Rightarrow> string \<Rightarrow> string" where
  "put_bytes off bs h = take off h @ bs @ drop (off + length bs) h"

definition strncpy_field :: "nat \<Rightarrow> string \<Rightarrow> string" where
  "strncpy_field n s = (let c = take n (c_str s) in c @ replicate (n - length c) CHR 0x00)"

definition zero_padded :: "nat \<Rightarrow> nat \<Rightarrow> string" where
  "zero_padded w v = (let d = octal_digits v in replicate (w - length d) CHR ''0'' @ d)"

definition octal :: "nat \<Rightarrow> nat \<Rightarrow> string" where
  "octal width val = take (width - 1) (zero_padded (width - 1) val) @ [CHR 0x00]"

definition header_sum :: "string \<Rightarrow> nat" where
  "header_sum h = sum_list (map of_char h) mod 2 ^ 32"

definition fill_header :: "string \<Rightarrow> char \<Rightarrow> nat \<Rightarrow> nat \<Rightarrow> string \<Rightarrow> string" where
  "fill_header name typeflag mode sz linkname =
     (let h = replicate TAR_BLOCK CHR 0x00;
          h = put_bytes 0 (strncpy_field 100 name) h;
          h = put_bytes 100 (octal 8 (mode mod 4096)) h;
          h = put_bytes 108 (octal 8 0) h;
          h = put_bytes 116 (octal 8 0) h;
          h = put_bytes 124 (octal 12 sz) h;
          h = put_bytes 136 (octal 12 0) h;
          h = put_bytes 156 [typeflag] h;
          h = put_bytes 157 (strncpy_field 100 linkname) h;
          h = put_bytes 257 (''ustar'' @ [CHR 0x00]) h;
          h = put_bytes 263 ''00'' h;
          h = put_bytes 148 (replicate 8 (CHR '' '')) h;
          chk = zero_padded 6 (header_sum h);
          h = put_bytes 148 (take 6 chk) h;
          h = put_bytes 154 [CHR 0x00] h
      in put_bytes 155 [CHR '' ''] h)"

definition block_pad :: "nat \<Rightarrow> string" where
  "block_pad n = replicate (round_up_block n - n) CHR 0x00"

definition write_longname :: "string \<Rightarrow> string" where
  "write_longname name =
     (let nl = length name + 1
      in fill_header ''././@LongLink'' (CHR ''L'') 420 nl [] @ name @ [CHR 0x00] @ block_pad nl)"

text \<open>A missing link name is the empty one: the field is zero either way.\<close>

definition salt_tar_writer_add :: "salt_tar_entry \<Rightarrow> string" where
  "salt_tar_writer_add e =
     (let sz = (if te_typeflag e = SALT_TAR_FILE then te_size e else 0)
      in (if length (te_path e) > 100 then write_longname (te_path e) else []) @
         (if length (te_linkname e) > 100 then write_longname (te_linkname e) else []) @
         fill_header (te_path e) (te_typeflag e) (te_mode e) sz (te_linkname e) @
         (if te_typeflag e = SALT_TAR_FILE \<and> te_size e > 0 then take (te_size e) (te_data e) @ block_pad (te_size e) else []))"

definition salt_tar_writer_finish :: string where
  "salt_tar_writer_finish = replicate (TAR_BLOCK * 2) CHR 0x00"

definition tar_written :: "salt_tar_entry list \<Rightarrow> string" where
  "tar_written es = concat (map salt_tar_writer_add es) @ salt_tar_writer_finish"

section \<open>Headers read back\<close>

lemma octal_char_val: "(m :: nat) < 8 \<Longrightarrow> (of_char (char_of (48 + m) :: char) :: nat) = 48 + m"
  by (simp add: of_char_of)

lemma parse_octal_digits: "parse_octal (octal_digits n) = n"
proof (induction n rule: octal_digits.induct)
  case (1 n)
  show ?case
  proof (cases "n < 8")
    case True
    then show ?thesis by (subst octal_digits.simps) (simp add: parse_octal_def octal_char_val)
  next
    case False
    then show ?thesis using 1 octal_char_val [of "n mod 8"]
      by (subst octal_digits.simps) (simp add: parse_octal_def)
  qed
qed

lemma octal_digits_length: "n < 8 ^ Suc w \<Longrightarrow> length (octal_digits n) \<le> Suc w"
proof (induction w arbitrary: n)
  case (Suc w)
  then have "n div 8 < 8 ^ Suc w" by (simp add: less_mult_imp_div_less)
  then show ?case using Suc.IH [of "n div 8"] by (subst octal_digits.simps) auto
qed (subst octal_digits.simps, simp)

lemma zero_padded_length: "n < 8 ^ w \<Longrightarrow> 0 < w \<Longrightarrow> length (zero_padded w n) = w"
  using octal_digits_length [of n "w - 1"] by (simp add: zero_padded_def Let_def)

lemma zero_padded_length_ge: "w \<le> length (zero_padded w n)"
  by (simp add: zero_padded_def Let_def)

lemma parse_octal_zeros: "parse_octal (replicate k CHR ''0'' @ s) = parse_octal s"
  by (induction k) (auto simp: parse_octal_def)

lemma octal_length: "0 < w \<Longrightarrow> length (octal w n) = w"
  using zero_padded_length_ge [of "w - 1" n] by (simp add: octal_def min_def)

lemma parse_octal_octal: "n < 8 ^ (w - 1) \<Longrightarrow> 1 < w \<Longrightarrow> parse_octal (octal w n) = n"
proof -
  assume "n < 8 ^ (w - 1)" "1 < w"
  then have "octal w n = zero_padded (w - 1) n @ [CHR 0x00]" using zero_padded_length [of n "w - 1"] by (simp add: octal_def)
  then have "parse_octal (octal w n) = parse_octal (zero_padded (w - 1) n)" by (simp add: parse_octal_def)
  then show ?thesis by (simp add: zero_padded_def Let_def parse_octal_zeros parse_octal_digits)
qed

lemma strncpy_field_length [simp]: "length (strncpy_field n s) = n"
  by (simp add: strncpy_field_def Let_def min_def)

lemma c_str_strncpy: "no_nul s \<Longrightarrow> c_str (strncpy_field n s) = take n s"
proof -
  assume "no_nul s"
  then have "\<forall>c \<in> set (take n s). c \<noteq> CHR 0x00" by (auto simp: no_nul_def list_all_iff dest: in_set_takeD)
  then have "takeWhile (\<lambda>c. c \<noteq> CHR 0x00) (take n s @ replicate k CHR 0x00) = take n s" for k
    by (induction k) (auto simp: takeWhile_append takeWhile_eq_Nil_iff)
  then show ?thesis using \<open>no_nul s\<close> by (simp add: strncpy_field_def Let_def c_str_def [of "_ @ _"])
qed

lemma put_bytes_length: "off + length bs \<le> length h \<Longrightarrow> length (put_bytes off bs h) = length h"
  by (simp add: put_bytes_def)

lemma put_bytes_append:
  "length a = off \<Longrightarrow> length b = length bs \<Longrightarrow> put_bytes off bs (a @ b @ c) = a @ bs @ c"
  by (simp add: put_bytes_def)

text \<open>The header as the sequence of its fields.\<close>

definition header_fields :: "string \<Rightarrow> char \<Rightarrow> nat \<Rightarrow> nat \<Rightarrow> string \<Rightarrow> string \<Rightarrow> string" where
  "header_fields name typeflag mode sz linkname chk =
     strncpy_field 100 name @ octal 8 (mode mod 4096) @ octal 8 0 @ octal 8 0 @ octal 12 sz @ octal 12 0 @
     chk @ [typeflag] @ strncpy_field 100 linkname @ (''ustar'' @ [CHR 0x00]) @ ''00'' @ replicate 247 CHR 0x00"

lemma replicate_split: "a \<le> n \<Longrightarrow> replicate n x = replicate a x @ replicate (n - a) x"
  by (metis le_add_diff_inverse replicate_add)

lemma fill_header_fields:
  "\<exists>chk. length chk = 8 \<and> fill_header name typeflag mode sz linkname = header_fields name typeflag mode sz linkname chk"
proof -
  have l: "length (octal 8 n) = 8" "length (octal 12 n) = 12" "length (take 6 (zero_padded 6 n)) = 6" for n
    using zero_padded_length_ge [of 6 n] by (simp_all add: octal_length min_def)
  have z: "replicate TAR_BLOCK CHR 0x00 = replicate 100 CHR 0x00 @ replicate 8 CHR 0x00 @ replicate 8 CHR 0x00 @
      replicate 8 CHR 0x00 @ replicate 12 CHR 0x00 @ replicate 12 CHR 0x00 @ replicate 8 CHR 0x00 @ replicate 1 CHR 0x00 @
      replicate 100 CHR 0x00 @ replicate 6 CHR 0x00 @ replicate 2 CHR 0x00 @ replicate 247 CHR 0x00"
    unfolding TAR_BLOCK_def replicate_add [symmetric] by (rule arg_cong [where f = "\<lambda>n. replicate n CHR 0x00"]) simp
  show ?thesis
    unfolding fill_header_def Let_def z header_fields_def
    by (simp add: put_bytes_def l del: replicate.simps add: replicate.simps(1))
qed

lemma fill_header_read:
  assumes h: "h = fill_header name tf mode sz linkname"
  shows "length h = TAR_BLOCK" "take 100 h = strncpy_field 100 name" "take 8 (drop 100 h) = octal 8 (mode mod 4096)"
    "take 12 (drop 124 h) = octal 12 sz" "h ! 156 = tf" "take 100 (drop 157 h) = strncpy_field 100 linkname"
    "c_str (take 155 (drop 345 h)) = []" "\<not> list_all (\<lambda>c. c = CHR 0x00) h"
proof -
  obtain chk where c: "length chk = 8" "h = header_fields name tf mode sz linkname chk" using fill_header_fields h by blast
  have l: "length (octal 8 n) = 8" "length (octal 12 n) = 12" for n by (simp_all add: octal_length)
  note s = c(2) header_fields_def l c(1)
  show "length h = TAR_BLOCK" by (simp add: s TAR_BLOCK_def)
  show "take 100 h = strncpy_field 100 name" by (simp add: s)
  show "take 8 (drop 100 h) = octal 8 (mode mod 4096)" by (simp add: s)
  show "take 12 (drop 124 h) = octal 12 sz" by (simp add: s)
  show "h ! 156 = tf" by (simp add: s nth_append)
  show "take 100 (drop 157 h) = strncpy_field 100 linkname" by (simp add: s)
  show "c_str (take 155 (drop 345 h)) = []" by (simp add: s c_str_def)
  show "\<not> list_all (\<lambda>c. c = CHR 0x00) h" by (simp add: s)
qed

section \<open>Entries read back\<close>

lemma round_up_ge: "n \<le> round_up_block n"
  unfolding round_up_block_def TAR_BLOCK_def using dividend_less_times_div [of 512 "n + 511"] by (simp add: mult.commute)

lemma block_pad_length: "n + length (block_pad n) = round_up_block n"
  using round_up_ge [of n] by (simp add: block_pad_def)

lemma data_drop: "length d = n \<Longrightarrow> drop (round_up_block n) (d @ block_pad n @ rest) = rest"
  using block_pad_length [of n] by (simp add: drop_append)

lemma tar_entries_longname:
  assumes "no_nul name" "length name + 1 < 8 ^ 11"
  shows "tar_entries ln ll (write_longname name @ rest) = tar_entries (Some name) ll rest"
proof -
  let ?n = "length name + 1"
  obtain h where h: "h = fill_header ''././@LongLink'' (CHR ''L'') 420 ?n []" by blast
  note f = fill_header_read [OF h]
  have z: "parse_octal (octal 12 ?n) = ?n" by (rule parse_octal_octal) (use assms(2) in simp_all)
  have w: "write_longname name @ rest = h @ (name @ [CHR 0x00]) @ block_pad ?n @ rest" by (simp add: write_longname_def Let_def h)
  have c: "c_str (name @ [CHR 0x00]) = name" using assms(1) by (auto simp: c_str_def no_nul_def list_all_iff takeWhile_append)
  have d: "drop (round_up_block ?n) ((name @ [CHR 0x00]) @ block_pad ?n @ rest) = rest" by (rule data_drop) simp
  show ?thesis
    unfolding w using f z c d
    by (subst tar_entries.simps) (simp add: Let_def TAR_BLOCK_def del: append_assoc)
qed

definition tar_entry_ok :: "salt_tar_entry \<Rightarrow> bool" where
  "tar_entry_ok e \<longleftrightarrow> no_nul (te_path e) \<and> length (te_path e) + 1 < 8 ^ 11 \<and> no_nul (te_linkname e) \<and>
     length (te_linkname e) \<le> 100 \<and> te_mode e < 4096 \<and> te_size e < 8 ^ 11 \<and> length (te_data e) = te_size e \<and>
     (te_typeflag e = SALT_TAR_FILE \<or> te_size e = 0 \<and> (te_typeflag e = SALT_TAR_DIR \<or> te_typeflag e = SALT_TAR_SYMLINK))"

lemma octal12: "n < 8 ^ 11 \<Longrightarrow> parse_octal (octal 12 n) = n" and octal8: "n < 4096 \<Longrightarrow> parse_octal (octal 8 n) = n"
  by (auto intro!: parse_octal_octal)

text \<open>The header and the data of an entry, with a pending long name or none.\<close>

lemma tar_entries_header:
  assumes "no_nul name" "no_nul link" "mode < 4096" "length d < 8 ^ 11"
    and tf: "tf = SALT_TAR_FILE \<or> d = [] \<and> (tf = SALT_TAR_DIR \<or> tf = SALT_TAR_SYMLINK)"
  shows "tar_entries ln None (fill_header name tf mode (length d) link @ d @ block_pad (length d) @ rest) =
    (let r = tar_entries None None rest in
     (\<lparr>te_path = (case ln of Some s \<Rightarrow> s | None \<Rightarrow> take 100 name), te_typeflag = tf, te_mode = mode, te_size = length d,
        te_linkname = take 100 link, te_data = d\<rparr> # fst r, snd r))"
proof -
  obtain h where h: "h = fill_header name tf mode (length d) link" by blast
  note f = fill_header_read [OF h]
  have d: "drop (round_up_block (length d)) (d @ block_pad (length d) @ rest) = rest" by (rule data_drop) simp
  have n: "d = [] \<Longrightarrow> d @ block_pad (length d) @ rest = rest" by (simp add: block_pad_def round_up_block_def TAR_BLOCK_def)
  have p: "header_path ln h = (case ln of Some s \<Rightarrow> s | None \<Rightarrow> take 100 name)"
    using f(2,7) assms(1) by (auto simp: header_path_def c_str_strncpy split: option.split)
  have e: "header_entry ln None h (d @ block_pad (length d) @ rest) =
      \<lparr>te_path = (case ln of Some s \<Rightarrow> s | None \<Rightarrow> take 100 name), te_typeflag = tf, te_mode = mode, te_size = length d,
        te_linkname = take 100 link, te_data = d\<rparr>"
    using f p assms octal12 octal8 by (auto simp: header_entry_def Let_def c_str_strncpy)
  have tfs: "tf \<noteq> CHR ''L''" "tf \<noteq> CHR ''K''" "tf \<noteq> CHR 0x00" using tf by (auto simp: SALT_TAR_FILE_def SALT_TAR_DIR_def SALT_TAR_SYMLINK_def)
  have "tar_entries ln None (h @ d @ block_pad (length d) @ rest) =
      (let r = tar_entries None None rest in (header_entry ln None h (d @ block_pad (length d) @ rest) # fst r, snd r))"
    using f d n tfs tf octal12 [OF assms(4)]
    by (subst tar_entries.simps) (auto simp: Let_def TAR_BLOCK_def)
  then show ?thesis unfolding e unfolding h .
qed


lemma tar_entries_written:
  "tar_entry_ok e \<Longrightarrow> tar_entries None None (salt_tar_writer_add e @ rest) =
     (e # fst (tar_entries None None rest), snd (tar_entries None None rest))"
proof -
  assume a: "tar_entry_ok e"
  let ?ln = "if length (te_path e) > 100 then Some (te_path e) else None"
  let ?h = "fill_header (te_path e) (te_typeflag e) (te_mode e) (te_size e) (te_linkname e)"
  have sz: "(if te_typeflag e = SALT_TAR_FILE then te_size e else 0) = te_size e" using a by (auto simp: tar_entry_ok_def)
  have dat: "(if te_typeflag e = SALT_TAR_FILE \<and> te_size e > 0 then take (te_size e) (te_data e) @ block_pad (te_size e) else []) =
      te_data e @ block_pad (te_size e)"
    using a by (auto simp: tar_entry_ok_def block_pad_def round_up_block_def TAR_BLOCK_def)
  have "tar_entries None None (salt_tar_writer_add e @ rest) = tar_entries ?ln None (?h @ te_data e @ block_pad (te_size e) @ rest)"
    using a tar_entries_longname [of "te_path e" None None] unfolding salt_tar_writer_add_def Let_def sz dat
    by (simp add: tar_entry_ok_def)
  also have "\<dots> = (let r = tar_entries None None rest in (e # fst r, snd r))"
    using tar_entries_header [of "te_path e" "te_linkname e" "te_mode e" "te_data e" "te_typeflag e" ?ln rest] a
    by (cases e) (auto simp: tar_entry_ok_def)
  finally show ?thesis by (simp add: Let_def)
qed

lemma tar_entries_finish: "tar_entries None None salt_tar_writer_finish = ([], SALT_OK)"
  by (subst tar_entries.simps) (simp add: salt_tar_writer_finish_def TAR_BLOCK_def Let_def list_all_iff del: replicate.simps)

lemma tar_read_back: "list_all tar_entry_ok es \<Longrightarrow> tar_entries None None (tar_written es) = (es, SALT_OK)"
  by (induction es) (simp_all add: tar_written_def tar_entries_finish tar_entries_written)

text \<open>
  What the tar writer writes, the tar reader reads: path (also one too long for the header), type, mode,
  link target and contents of every entry, in order, up to the end of the archive.
\<close>

theorem tar_round_trip:
  assumes "list_all tar_entry_ok es"
  shows "tar_entries None None (tar_written es) = (es, SALT_OK)"
  using assms by (rule tar_read_back)

theorem tar_round_trip_witness:
  "tar_entries None None (tar_written
     [\<lparr>te_path = replicate 120 (CHR ''a''), te_typeflag = SALT_TAR_FILE, te_mode = 493, te_size = 2, te_linkname = [], te_data = ''hi''\<rparr>]) =
   ([\<lparr>te_path = replicate 120 (CHR ''a''), te_typeflag = SALT_TAR_FILE, te_mode = 493, te_size = 2, te_linkname = [], te_data = ''hi''\<rparr>], SALT_OK)"
  by (rule tar_round_trip) (simp add: tar_entry_ok_def no_nul_def list_all_iff del: replicate.simps)

text \<open>
  A symbolic link whose target is longer than a header field is not written faithfully: the
  target goes into a long \<^emph>\<open>name\<close> record, so the reader takes the target for the path of the link and the
  first hundred bytes of the target for its target.
\<close>

theorem long_link_misread:
  assumes "te_typeflag e = SALT_TAR_SYMLINK" "te_size e = 0" "no_nul (te_path e)" "no_nul (te_linkname e)" "te_mode e < 4096"
    and "length (te_path e) + 1 < 8 ^ 11" "100 < length (te_linkname e)" "length (te_linkname e) + 1 < 8 ^ 11"
  shows "fst (tar_entries None None (tar_written [e])) =
    [e\<lparr>te_path := te_linkname e, te_linkname := take 100 (te_linkname e), te_data := []\<rparr>]"
proof -
  let ?h = "fill_header (te_path e) SALT_TAR_SYMLINK (te_mode e) 0 (te_linkname e)"
  have ne: "SALT_TAR_SYMLINK \<noteq> SALT_TAR_FILE" by (simp add: SALT_TAR_SYMLINK_def SALT_TAR_FILE_def)
  have b: "block_pad 0 = []" by (simp add: block_pad_def round_up_block_def TAR_BLOCK_def)
  have "tar_entries None None (tar_written [e]) = tar_entries (Some (te_linkname e)) None (?h @ salt_tar_writer_finish)"
    using assms tar_entries_longname ne by (simp add: tar_written_def salt_tar_writer_add_def Let_def)
  then show ?thesis
    using tar_entries_header [of "te_path e" "te_linkname e" "te_mode e" "[]" SALT_TAR_SYMLINK "Some (te_linkname e)" salt_tar_writer_finish]
      assms b by (cases e) (simp add: tar_entries_finish)
qed

theorem long_link_misread_witness:
  "map te_path (fst (tar_entries None None (tar_written
     [\<lparr>te_path = ''usr/lib/x'', te_typeflag = SALT_TAR_SYMLINK, te_mode = 511, te_size = 0,
       te_linkname = replicate 120 (CHR ''a''), te_data = []\<rparr>]))) = [replicate 120 (CHR ''a'')]"
  by (subst long_link_misread) (simp_all add: no_nul_def list_all_iff del: replicate.simps)

section \<open>Archives\<close>

definition file_entry :: "string \<Rightarrow> string \<Rightarrow> salt_tar_entry" where
  "file_entry path data = \<lparr>te_path = path, te_typeflag = SALT_TAR_FILE, te_mode = 420, te_size = length data, te_linkname = [], te_data = data\<rparr>"

definition archive_bytes :: "salt_archive \<Rightarrow> string" where
  "archive_bytes a = tar_written
     [file_entry ''metadata.toml'' (salt_pkg_meta_to_toml (ar_meta a)),
      file_entry ''manifest.toml'' (salt_manifest_to_toml (ar_manifest a)),
      file_entry ''files.tar.zst'' (ar_payload a)]"

definition salt_archive_write :: "io_env \<Rightarrow> salt_archive \<Rightarrow> key \<Rightarrow> fs \<Rightarrow> salt_rc \<times> fs" where
  "salt_archive_write io a out_path fs = salt_write_file io IoWrite out_path (archive_bytes a) 420 fs"

definition archive_ok :: "salt_archive \<Rightarrow> bool" where
  "archive_ok a \<longleftrightarrow> meta_ok (ar_meta a) \<and> list_all entry_ok (ar_manifest a) \<and> length (ar_payload a) < 8 ^ 11 \<and>
     length (salt_pkg_meta_to_toml (ar_meta a)) < 8 ^ 11 \<and> length (salt_manifest_to_toml (ar_manifest a)) < 8 ^ 11"

lemma archive_read_back:
  assumes "archive_ok a" "toml_parser parse"
  shows "salt_archive_open parse (archive_bytes a) = Some (a\<lparr>ar_scripts := []\<rparr>)"
proof -
  let ?m = "salt_pkg_meta_to_toml (ar_meta a)" and ?f = "salt_manifest_to_toml (ar_manifest a)"
  have ok: "tar_entry_ok (file_entry p d)" if "p \<in> {''metadata.toml'', ''manifest.toml'', ''files.tar.zst''}" "length d < 8 ^ 11" for p d
    using that by (auto simp: tar_entry_ok_def file_entry_def no_nul_def)
  have "tar_entries None None (archive_bytes a) =
      ([file_entry ''metadata.toml'' ?m, file_entry ''manifest.toml'' ?f, file_entry ''files.tar.zst'' (ar_payload a)], SALT_OK)"
    unfolding archive_bytes_def by (rule tar_read_back) (use assms(1) ok in \<open>simp add: archive_ok_def\<close>)
  moreover have "salt_pkg_meta_from_toml parse ?m = Some (ar_meta a)" "salt_manifest_from_toml parse ?f = (SALT_OK, ar_manifest a)"
    using assms by (simp_all add: archive_ok_def meta_read_back manifest_read_back)
  ultimately show ?thesis
    by (simp add: salt_archive_open_def salt_tar_read_def open_cb_def file_entry_def)
qed

section \<open>Building from a staging directory\<close>

text \<open>
  The staging directory is a tree of nodes below it.  \<open>children\<close> is the sorted listing of a directory,
  \<open>key_text\<close> the relative path \<^verbatim>\<open>collect_paths\<close> puts together on the way down.
\<close>

definition children :: "fs \<Rightarrow> key \<Rightarrow> string list" where
  "children st k = sort (map (\<lambda>p. last (fst p)) (filter (\<lambda>p. fst p \<noteq> [] \<and> butlast (fst p) = k) st))"

definition key_text :: "key \<Rightarrow> string" where
  "key_text k = foldl (\<lambda>rel n. if rel \<noteq> [] then salt_join_path rel n else n) [] k"

lemma children_iff: "n \<in> set (children st k) \<longleftrightarrow> k @ [n] \<in> fst ` set st"
  by (force simp: children_def image_iff)

function collect_paths :: "fs \<Rightarrow> key \<Rightarrow> key list" where
  "collect_paths st k =
     concat (map (\<lambda>n. case fs_get st (k @ [n]) of
                        None \<Rightarrow> []
                      | Some nd \<Rightarrow> (k @ [n]) # (if nd = NDir then collect_paths st (k @ [n]) else []))
       (children st k))"
  by pat_completeness auto
termination
proof (relation "measure (\<lambda>(st, k). Suc (Max (insert 0 ((length \<circ> fst) ` set st))) - length k)")
  fix st k n nd
  assume "n \<in> set (children st k)"
  then have "length (k @ [n]) \<in> insert 0 ((length \<circ> fst) ` set st)" by (force simp: children_iff)
  then have "length (k @ [n]) \<le> Max (insert 0 ((length \<circ> fst) ` set st))" by (intro Max_ge) auto
  then show "((st, k @ [n]), st, k) \<in> measure (\<lambda>(st, k). Suc (Max (insert 0 ((length \<circ> fst) ` set st))) - length k)"
    by simp
qed simp

declare collect_paths.simps [simp del]

text \<open>
  What is written for a node: \<open>lmode\<close> are the mode bits of directories and links, \<open>readable\<close> whether the link
  or file can be read; one that cannot is left out.
\<close>

definition staged_entry :: "(string \<Rightarrow> string) \<Rightarrow> (key \<Rightarrow> nat) \<Rightarrow> (key \<Rightarrow> bool) \<Rightarrow> fs \<Rightarrow> key \<Rightarrow>
    (salt_tar_entry \<times> salt_manifest_entry) option" where
  "staged_entry sha256 lmode readable st k =
     (let p = key_text k; m = lmode k mod 4096 in
      case fs_get st k of
        None \<Rightarrow> None
      | Some NDir \<Rightarrow>
          Some (\<lparr>te_path = p, te_typeflag = SALT_TAR_DIR, te_mode = m, te_size = 0, te_linkname = [], te_data = []\<rparr>,
                \<lparr>me_path = p, me_typeflag = SALT_TAR_DIR, me_mode = m, me_size = 0, me_sha256 = None, me_linkname = None\<rparr>)
      | Some (NLnk t) \<Rightarrow>
          if \<not> readable k then None
          else let t1 = take 1023 t in
            Some (\<lparr>te_path = p, te_typeflag = SALT_TAR_SYMLINK, te_mode = m, te_size = 0, te_linkname = t1, te_data = []\<rparr>,
                  \<lparr>me_path = p, me_typeflag = SALT_TAR_SYMLINK, me_mode = m, me_size = 0, me_sha256 = None, me_linkname = Some t1\<rparr>)
      | Some (NReg d fm) \<Rightarrow>
          if \<not> readable k then None
          else
            Some (\<lparr>te_path = p, te_typeflag = SALT_TAR_FILE, te_mode = fm mod 4096, te_size = length d, te_linkname = [], te_data = d\<rparr>,
                  \<lparr>me_path = p, me_typeflag = SALT_TAR_FILE, me_mode = fm mod 4096, me_size = length d,
                   me_sha256 = Some (sha256 d), me_linkname = None\<rparr>)
      | Some NOther \<Rightarrow> None)"

text \<open>\<open>compress\<close> is \<^verbatim>\<open>salt_zst_compress\<close>; \<open>scripts\<close> the names in the scripts directory; no staging directory is \<^const>\<open>None\<close>.\<close>

definition salt_archive_build_from_dir ::
    "(string \<Rightarrow> salt_rc \<times> string) \<Rightarrow> (string \<Rightarrow> string) \<Rightarrow> (key \<Rightarrow> nat) \<Rightarrow> (key \<Rightarrow> bool) \<Rightarrow> fs option \<Rightarrow>
     salt_pkg_meta \<Rightarrow> string list \<Rightarrow> salt_rc \<times> salt_archive option" where
  "salt_archive_build_from_dir compress sha256 lmode readable staging meta scripts =
     (case staging of
        None \<Rightarrow> (SALT_ERR_IO, None)
      | Some st \<Rightarrow>
          let es = List.map_filter (staged_entry sha256 lmode readable st) (collect_paths st []);
              (rc, payload) = compress (tar_written (map fst es))
          in if rc \<noteq> SALT_OK then (rc, None)
             else (SALT_OK, Some \<lparr>ar_meta = meta, ar_manifest = map snd es, ar_payload = payload,
                                   ar_scripts = filter (\<lambda>n. \<not> starts_with n ''.'') scripts\<rparr>))"

section \<open>The traversal\<close>

fun parents_first :: "key set \<Rightarrow> key list \<Rightarrow> bool" where
  "parents_first S [] = True"
| "parents_first S (k # ks) = (butlast k \<in> S \<and> parents_first (insert k S) ks)"

lemma parents_first_mono: "parents_first S ks \<Longrightarrow> S \<subseteq> T \<Longrightarrow> parents_first T ks"
proof (induction ks arbitrary: S T)
  case (Cons k ks)
  then show ?case using Cons.IH [of "insert k S" "insert k T"] by auto
qed simp

lemma parents_first_concat:
  "(\<And>x. x \<in> set xs \<Longrightarrow> parents_first S x) \<Longrightarrow> parents_first S (concat xs)"
proof (induction xs)
  case (Cons x xs)
  have "parents_first S (a @ concat xs)" if "parents_first S a" "parents_first S (concat xs)" for a
    using that
  proof (induction a arbitrary: S)
    case (Cons k a)
    then show ?case using parents_first_mono [of S "concat xs" "insert k S"] by auto
  qed simp
  then show ?case using Cons by simp
qed simp

lemma collect_parents_first: "k \<in> S \<Longrightarrow> parents_first S (collect_paths st k)"
proof (induction st k arbitrary: S rule: collect_paths.induct)
  case (1 st k)
  show ?case
    by (subst collect_paths.simps, rule parents_first_concat)
      (use 1 in \<open>auto split: option.split\<close>)
qed

lemma collect_iff:
  "q \<in> set (collect_paths st k) \<longleftrightarrow> (\<exists>c \<in> set (children st k). \<exists>nd. fs_get st (k @ [c]) = Some nd \<and>
     (q = k @ [c] \<or> nd = NDir \<and> q \<in> set (collect_paths st (k @ [c]))))"
proof -
  have "set (collect_paths st k) = (\<Union>n \<in> set (children st k). set (case fs_get st (k @ [n]) of
      None \<Rightarrow> [] | Some nd \<Rightarrow> (k @ [n]) # (if nd = NDir then collect_paths st (k @ [n]) else [])))"
    by (subst collect_paths.simps) simp
  moreover have "q \<in> set (case fs_get st (k @ [n]) of None \<Rightarrow> []
        | Some nd \<Rightarrow> (k @ [n]) # (if nd = NDir then collect_paths st (k @ [n]) else [])) \<longleftrightarrow>
      (\<exists>nd. fs_get st (k @ [n]) = Some nd \<and> (q = k @ [n] \<or> nd = NDir \<and> q \<in> set (collect_paths st (k @ [n]))))" for n
    by (cases "fs_get st (k @ [n])") auto
  ultimately show ?thesis by simp
qed

lemma collect_child: "k @ [n] \<in> fst ` set st \<Longrightarrow> k @ [n] \<in> set (collect_paths st k)"
proof -
  assume a: "k @ [n] \<in> fst ` set st"
  then obtain nd where "fs_get st (k @ [n]) = Some nd" by (cases "fs_get st (k @ [n])") (auto simp: fs_get_def map_of_eq_None_iff)
  then show ?thesis using a [folded children_iff] by (subst collect_iff) blast
qed

lemma collect_below:
  "q \<in> set (collect_paths st k) \<Longrightarrow> fs_get st q = Some NDir \<Longrightarrow> q @ [n] \<in> fst ` set st \<Longrightarrow> q @ [n] \<in> set (collect_paths st k)"
proof (induction st k rule: collect_paths.induct)
  case (1 st k)
  obtain c nd where c: "c \<in> set (children st k)" "fs_get st (k @ [c]) = Some nd"
      "q = k @ [c] \<or> nd = NDir \<and> q \<in> set (collect_paths st (k @ [c]))"
    using "1.prems"(1) by (subst (asm) collect_iff) blast
  then have "nd = NDir" using "1.prems"(2) by auto
  moreover have "q @ [n] \<in> set (collect_paths st (k @ [c]))"
    using c "1.IH" [OF c(1,2) \<open>nd = NDir\<close>] "1.prems"(2,3) collect_child [of q n st] by auto
  ultimately show ?case using c(1,2) by (subst collect_iff) blast
qed

definition tree_wf :: "fs \<Rightarrow> bool" where
  "tree_wf st \<longleftrightarrow> (\<forall>k \<in> fst ` set st. k \<noteq> [] \<and> (butlast k = [] \<or> fs_get st (butlast k) = Some NDir))"

lemma collect_complete: "tree_wf st \<Longrightarrow> k \<in> fst ` set st \<Longrightarrow> k \<in> set (collect_paths st [])"
proof (induction k rule: rev_induct)
  case (snoc n k)
  show ?case
  proof (cases "k = []")
    case True
    then show ?thesis using snoc.prems(2) collect_child [of "[]" n st] by simp
  next
    case False
    then have d: "fs_get st k = Some NDir" using snoc.prems by (force simp: tree_wf_def)
    then have "k \<in> fst ` set st" by (force simp: fs_get_def dest: map_of_SomeD)
    then show ?thesis using collect_below [OF snoc.IH [OF snoc.prems(1)] d snoc.prems(2)] by simp
  qed
qed (force simp: tree_wf_def)

lemma collect_sound: "q \<in> set (collect_paths st k) \<Longrightarrow> fs_get st q \<noteq> None"
proof (induction st k rule: collect_paths.induct)
  case (1 st k)
  obtain c nd where c: "c \<in> set (children st k)" "fs_get st (k @ [c]) = Some nd"
      "q = k @ [c] \<or> nd = NDir \<and> q \<in> set (collect_paths st (k @ [c]))"
    using "1.prems"(1) by (subst (asm) collect_iff) blast
  then show ?case using "1.IH" [OF c(1,2)] by auto
qed

section \<open>Paths of a tree\<close>

definition component_ok :: "string \<Rightarrow> bool" where
  "component_ok n \<longleftrightarrow> n \<noteq> [] \<and> CHR ''/'' \<notin> set n \<and> n \<noteq> ''.'' \<and> n \<noteq> ''..'' \<and> no_nul n"

lemma key_text_split:
  "list_all component_ok k \<Longrightarrow> k \<noteq> [] \<Longrightarrow>
     split_on CHR ''/'' (key_text k) = k \<and> key_text k \<noteq> [] \<and> last (key_text k) \<noteq> CHR ''/'' \<and> no_nul (key_text k)"
proof (induction k rule: rev_induct)
  case (snoc n k)
  have n: "n \<noteq> []" "CHR ''/'' \<notin> set n" "no_nul n" using snoc.prems by (auto simp: component_ok_def)
  have l: "last n \<noteq> CHR ''/''" using n last_in_set by metis
  show ?case
  proof (cases "k = []")
    case True
    then show ?thesis using n l by (auto simp: key_text_def split_on_notin)
  next
    case False
    then have IH: "split_on CHR ''/'' (key_text k) = k" "key_text k \<noteq> []" "last (key_text k) \<noteq> CHR ''/''" "no_nul (key_text k)"
      using snoc by auto
    have "dropWhile (\<lambda>c. c = CHR ''/'') n = n" using n by (cases n) auto
    then have "key_text (k @ [n]) = key_text k @ CHR ''/'' # n"
      using IH n by (simp add: key_text_def salt_join_path_def)
    then show ?thesis using IH n l by (simp add: split_on_append split_on_notin no_nul_def)
  qed
qed simp

lemma key_text_path:
  assumes "list_all component_ok k" "k \<noteq> []"
  shows "path_key (key_text k) = k" "salt_path_is_confined (key_text k)" "strip_dot_slash (key_text k) = key_text k"
proof -
  note s = key_text_split [OF assms]
  have f: "filter (\<lambda>c. c \<noteq> [] \<and> c \<noteq> ''.'') k = k" using assms(1) by (auto simp: filter_id_conv list_all_iff component_ok_def)
  then show p: "path_key (key_text k) = k" using s by (simp add: path_key_def)
  have "hd (key_text k) \<noteq> CHR ''/''"
  proof
    assume "hd (key_text k) = CHR ''/''"
    then obtain r where "key_text k = CHR ''/'' # r" using s by (cases "key_text k") auto
    then have "[] \<in> set k" using s by (metis list.set_intros(1) split_on.simps(2))
    then show False using assms(1) by (auto simp: list_all_iff component_ok_def)
  qed
  moreover have "''..'' \<notin> set k" using assms(1) by (auto simp: list_all_iff component_ok_def)
  ultimately show "salt_path_is_confined (key_text k)" using s p assms(2) by (simp add: salt_path_is_confined_iff)
  have "\<not> starts_with (key_text k) ''./''"
  proof
    assume "starts_with (key_text k) ''./''"
    then obtain r where "key_text k = ''.'' @ CHR ''/'' # r" by (auto simp: starts_with_iff)
    then have "''.'' \<in> set k" using s split_on_append [of "CHR ''/''" "''.''" r] by (auto simp: split_on_notin)
    then show False using assms(1) by (auto simp: list_all_iff component_ok_def)
  qed
  then show "strip_dot_slash (key_text k) = key_text k" by (subst strip_dot_slash.simps) simp
qed

section \<open>Extracting a tree\<close>

definition dirs_to :: "fs \<Rightarrow> key \<Rightarrow> bool" where
  "dirs_to fs k \<longleftrightarrow> (\<forall>q. prefix q k \<and> q \<noteq> [] \<longrightarrow> fs_get fs q = Some NDir)"

lemma mkdirs_from_existing:
  assumes "\<And>r. prefix r cs \<Longrightarrow> r \<noteq> [] \<Longrightarrow> r \<noteq> cs \<Longrightarrow> fs_get fs (pre @ r) = Some NDir" "dirlike fs pre" "cs \<noteq> []"
    and "fs_get fs (pre @ cs) \<noteq> None \<or> io_ok io IoMkdir (pre @ cs)"
  shows "mkdirs_from io pre cs fs = (SALT_OK, if fs_get fs (pre @ cs) = None then fs_put (pre @ cs) NDir fs else fs)"
  using assms
proof (induction cs arbitrary: pre)
  case (Cons c cs)
  show ?case
  proof (cases "cs = []")
    case True
    then show ?thesis using Cons.prems by (auto split: option.split)
  next
    case False
    then have c: "fs_get fs (pre @ [c]) = Some NDir" using Cons.prems(1) [of "[c]"] by simp
    then have d: "dirlike fs (pre @ [c])" by (simp add: dirlike_def)
    have "fs_get fs ((pre @ [c]) @ r) = Some NDir" if "prefix r cs" "r \<noteq> []" "r \<noteq> cs" for r
      using Cons.prems(1) [of "c # r"] that by simp
    then show ?thesis using Cons.IH [of "pre @ [c]"] Cons.prems(2,4) c d False by simp
  qed
qed simp

lemma mkdirs_existing:
  assumes "dirs_to fs (butlast k)" "k \<noteq> []" "fs_get fs k \<noteq> None \<or> io_ok io IoMkdir k"
  shows "salt_mkdirs io k fs = (SALT_OK, if fs_get fs k = None then fs_put k NDir fs else fs)"
proof -
  have "fs_get fs r = Some NDir" if "prefix r k" "r \<noteq> []" "r \<noteq> k" for r
  proof -
    have "prefix r (butlast k)" using that assms(2) prefix_snoc [of r "butlast k" "last k"] by simp
    then show ?thesis using assms(1) that(2) by (simp add: dirs_to_def)
  qed
  then show ?thesis unfolding salt_mkdirs_def using assms mkdirs_from_existing [of k fs "[]" io] by (simp add: dirlike_def)
qed

lemma mkdirs_dirs: "dirs_to fs k \<Longrightarrow> salt_mkdirs io k fs = (SALT_OK, fs)"
proof (cases "k = []")
  case False
  assume d: "dirs_to fs k"
  then have "dirs_to fs (butlast k)" "fs_get fs k = Some NDir"
    using False by (auto simp: dirs_to_def intro: prefix_order.trans [OF _ prefixeq_butlast])
  then show ?thesis using mkdirs_existing False by simp
qed (simp add: salt_mkdirs_def)

text \<open>No system call fails, and a path through directories only stays inside the root.\<close>

definition io_fine :: "io_env \<Rightarrow> bool" where
  "io_fine io \<longleftrightarrow> (\<forall>op k. io_ok io op k) \<and> (\<forall>fs k. dirs_to fs k \<longrightarrow> io_within io fs k)"

definition staged_ok :: "(key \<Rightarrow> bool) \<Rightarrow> key \<Rightarrow> node \<Rightarrow> bool" where
  "staged_ok readable k nd \<longleftrightarrow> list_all component_ok k \<and> k \<noteq> [] \<and> length (key_text k) + 1 < 8 ^ 11 \<and>
     (case nd of NDir \<Rightarrow> True | NLnk t \<Rightarrow> readable k \<and> no_nul t \<and> length t \<le> 100
      | NReg d m \<Rightarrow> readable k \<and> 0 < m \<and> m < 4096 \<and> length d < 8 ^ 11 | NOther \<Rightarrow> False)"

lemma staged_entry_ok:
  assumes "fs_get st k = Some nd" "staged_ok readable k nd"
  shows "\<exists>te me. staged_entry sha lmode readable st k = Some (te, me) \<and> tar_entry_ok te \<and> te_path te = key_text k \<and>
    te_typeflag te = (case nd of NDir \<Rightarrow> SALT_TAR_DIR | NLnk _ \<Rightarrow> SALT_TAR_SYMLINK | _ \<Rightarrow> SALT_TAR_FILE) \<and>
    (case nd of NReg d m \<Rightarrow> te_data te = d \<and> te_mode te = m | NLnk t \<Rightarrow> te_linkname te = t | _ \<Rightarrow> True)"
proof -
  have "no_nul (key_text k)" using assms(2) key_text_split [of k] by (simp add: staged_ok_def)
  then show ?thesis using assms
    by (cases nd) (simp_all add: staged_entry_def staged_ok_def tar_entry_ok_def no_nul_def Let_def)
qed

lemma extract_staged:
  assumes "io_fine io" "dirs_to fs (butlast k)" "staged_ok readable k nd" "fs_get fs k = None \<or> fs_get fs k = Some nd"
    and te: "te_path te = key_text k"
    "te_typeflag te = (case nd of NDir \<Rightarrow> SALT_TAR_DIR | NLnk _ \<Rightarrow> SALT_TAR_SYMLINK | _ \<Rightarrow> SALT_TAR_FILE)"
    "case nd of NReg d m \<Rightarrow> te_data te = d \<and> te_mode te = m | NLnk t \<Rightarrow> te_linkname te = t | _ \<Rightarrow> True"
  shows "\<exists>fs'. extract_cb io te fs = (SALT_OK, fs') \<and> fs_get fs' = (fs_get fs)(k \<mapsto> nd)"
proof -
  have ok: "list_all component_ok k" "k \<noteq> []" using assms(3) by (auto simp: staged_ok_def)
  note p = key_text_path [OF ok]
  have io: "io_ok io op q" "dirs_to fs q \<Longrightarrow> io_within io fs q" for op q using assms(1) by (auto simp: io_fine_def)
  have bk: "butlast k \<noteq> k" using ok(2) by (metis append_butlast_last_id append_self_conv not_Cons_self2)
  have par: "dirlike fs (butlast k)" using assms(2) by (auto simp: dirs_to_def dirlike_def)
  have "existing_ancestor_within io fs (butlast k)"
    using assms(2) io(2) by (subst existing_ancestor_within.simps) (auto simp: dirs_to_def)
  then have "confine_parent io k fs = (SALT_OK, fs)"
    using mkdirs_dirs [OF assms(2), of io] io(2) [OF assms(2)] by (simp add: confine_parent_def)
  then have e: "extract_cb io te fs = extract_node io te k fs" using p te(1) by (simp add: extract_cb_def Let_def)
  show ?thesis
  proof (cases nd)
    case (NReg d m)
    have "te_typeflag te \<noteq> SALT_TAR_DIR" "te_typeflag te \<noteq> SALT_TAR_SYMLINK"
      using te(2) NReg by (auto simp: SALT_TAR_FILE_def SALT_TAR_DIR_def SALT_TAR_SYMLINK_def)
    then show ?thesis unfolding e using NReg te par io(1) assms(3,4) mkdirs_dirs [OF assms(2), of io]
      by (auto simp: extract_node_def salt_write_file_def staged_ok_def Let_def)
  next
    case (NLnk t)
    have "te_typeflag te \<noteq> SALT_TAR_DIR" using te(2) NLnk by (simp add: SALT_TAR_DIR_def SALT_TAR_SYMLINK_def)
    then show ?thesis unfolding e using NLnk te par io(1) assms(4) bk
      by (auto simp: extract_node_def fs_symlink_def fs_unlink_def dirlike_def Let_def)
  next
    case NDir
    have "salt_mkdirs io k fs = (SALT_OK, if fs_get fs k = None then fs_put k NDir fs else fs)"
      by (rule mkdirs_existing [OF assms(2) ok(2)]) (simp add: io)
    then show ?thesis unfolding e using NDir te assms(4) by (auto simp: extract_node_def fun_eq_iff)
  next
    case NOther
    then show ?thesis using assms(3) by (simp add: staged_ok_def)
  qed
qed


lemma tree_ancestors:
  "tree_wf st \<Longrightarrow> k \<in> fst ` set st \<Longrightarrow> prefix q k \<Longrightarrow> q \<noteq> [] \<Longrightarrow> q \<noteq> k \<Longrightarrow> fs_get st q = Some NDir"
proof (induction k rule: rev_induct)
  case (snoc n k)
  then have q: "prefix q k" by simp
  then have "fs_get st k = Some NDir" using snoc.prems(1,2,4) by (force simp: tree_wf_def)
  then show ?case using snoc q by (cases "q = k") (force simp: fs_get_def dest: map_of_SomeD)+
qed simp

lemma closed_prefix: "\<forall>q \<in> S. butlast q \<in> S \<Longrightarrow> k \<in> S \<Longrightarrow> prefix q k \<Longrightarrow> q \<in> S"
proof (induction k rule: rev_induct)
  case (snoc n k)
  then show ?case by (metis butlast_snoc prefix_snoc)
qed simp

lemma extract_tree:
  assumes io: "io_fine io" and wf: "tree_wf st" and ok: "\<And>k nd. fs_get st k = Some nd \<Longrightarrow> staged_ok readable k nd"
  shows "parents_first S ks \<Longrightarrow> \<forall>k \<in> set ks. fs_get st k \<noteq> None \<Longrightarrow> \<forall>q \<in> S. butlast q \<in> S \<Longrightarrow> fs_get fs = fs_get st |` S \<Longrightarrow>
    \<exists>fs'. rc_fold (extract_cb io) (map fst (List.map_filter (staged_entry sha lmode readable st) ks)) fs = (SALT_OK, fs') \<and>
      fs_get fs' = fs_get st |` (S \<union> set ks)"
proof (induction ks arbitrary: S fs)
  case (Cons k ks)
  obtain nd where nd: "fs_get st k = Some nd" using Cons.prems(2) by auto
  then have k: "k \<in> fst ` set st" "staged_ok readable k nd" using ok by (force simp: fs_get_def dest: map_of_SomeD)+
  then have ne: "k \<noteq> []" by (simp add: staged_ok_def)
  obtain te me where te: "staged_entry sha lmode readable st k = Some (te, me)" "te_path te = key_text k"
    "te_typeflag te = (case nd of NDir \<Rightarrow> SALT_TAR_DIR | NLnk _ \<Rightarrow> SALT_TAR_SYMLINK | _ \<Rightarrow> SALT_TAR_FILE)"
    "case nd of NReg d m \<Rightarrow> te_data te = d \<and> te_mode te = m | NLnk t \<Rightarrow> te_linkname te = t | _ \<Rightarrow> True"
    using staged_entry_ok [OF nd k(2), of sha lmode] by blast
  have "fs_get fs q = Some NDir" if "prefix q (butlast k)" "q \<noteq> []" for q
  proof -
    have "q \<in> S" using closed_prefix [OF Cons.prems(3) _ that(1)] Cons.prems(1) by simp
    moreover have "length q < length k" using prefix_length_le [OF that(1)] ne by (cases k rule: rev_cases) auto
    then have "q \<noteq> k" by auto
    then have "fs_get st q = Some NDir"
      using tree_ancestors [OF wf k(1) _ that(2)] prefix_order.trans [OF that(1) prefixeq_butlast] by blast
    ultimately show ?thesis using Cons.prems(4) by simp
  qed
  then have d: "dirs_to fs (butlast k)" by (simp add: dirs_to_def)
  have "fs_get fs k = None \<or> fs_get fs k = Some nd" using Cons.prems(4) nd by (simp add: restrict_map_def)
  then obtain fs1 where fs1: "extract_cb io te fs = (SALT_OK, fs1)" "fs_get fs1 = (fs_get fs)(k \<mapsto> nd)"
    using extract_staged [OF io d k(2) _ te(2-4)] by blast
  have "fs_get fs1 = fs_get st |` insert k S" using fs1(2) Cons.prems(4) nd by (auto simp: restrict_map_def fun_eq_iff)
  then show ?case using Cons.IH [of "insert k S" fs1] Cons.prems fs1(1) te(1) by (auto simp: map_filter_simps)
qed (simp add: map_filter_simps)

lemma staged_entries_ok:
  assumes "\<And>k nd. fs_get st k = Some nd \<Longrightarrow> staged_ok readable k nd"
  shows "list_all tar_entry_ok (map fst (List.map_filter (staged_entry sha lmode readable st) ks))"
proof (induction ks)
  case (Cons k ks)
  show ?case
  proof (cases "fs_get st k")
    case None
    then show ?thesis using Cons by (simp add: map_filter_simps staged_entry_def)
  next
    case (Some nd)
    then show ?thesis using Cons staged_entry_ok [OF Some assms [OF Some], of sha lmode] by (auto simp: map_filter_simps)
  qed
qed (simp add: map_filter_simps)



definition ex_tree :: fs where
  "ex_tree = [([''bin''], NDir), ([''bin'', ''vi''], NReg ''hi'' 493)]"

definition ex_manifest :: salt_manifest where
  "ex_manifest =
       [\<lparr>me_path = ''bin'', me_typeflag = SALT_TAR_DIR, me_mode = 493, me_size = 0, me_sha256 = None, me_linkname = None\<rparr>,
        \<lparr>me_path = ''bin/vi'', me_typeflag = SALT_TAR_FILE, me_mode = 493, me_size = 2, me_sha256 = Some ''00'', me_linkname = None\<rparr>]"

definition ex_archive :: salt_archive where
  "ex_archive = \<lparr>ar_meta = ex_vim_meta, ar_manifest = ex_manifest, ar_payload = tar_written
       [\<lparr>te_path = ''bin'', te_typeflag = SALT_TAR_DIR, te_mode = 493, te_size = 0, te_linkname = [], te_data = []\<rparr>,
        file_entry ''bin/vi'' ''hi''\<lparr>te_mode := 493\<rparr>], ar_scripts = []\<rparr>"

lemma ex_tree_builds:
  "salt_archive_build_from_dir (Pair SALT_OK) (\<lambda>_. ''00'') (\<lambda>_. 493) (\<lambda>_. True) (Some ex_tree) ex_vim_meta [] = (SALT_OK, Some ex_archive)"
proof -
  have "collect_paths ex_tree [] = [[''bin''], [''bin'', ''vi'']]" by code_simp
  then show ?thesis
    by (simp add: salt_archive_build_from_dir_def map_filter_simps staged_entry_def ex_tree_def fs_get_def key_text_def
        salt_join_path_def ex_archive_def ex_manifest_def file_entry_def Let_def)
qed

lemma fill_header_length: "length (fill_header n tf m s l) = 512"
  using fill_header_read(1) [OF refl] by (simp add: TAR_BLOCK_def)

lemma ex_archive_ok: "archive_ok ex_archive"
proof -
  have "length (salt_pkg_meta_to_toml ex_vim_meta) < 500" by code_simp
  moreover have "length (salt_manifest_to_toml ex_manifest) < 500" by code_simp
  moreover have "length (ar_payload ex_archive) < 8 ^ 11"
    by (simp add: ex_archive_def tar_written_def salt_tar_writer_add_def file_entry_def fill_header_length block_pad_def
        round_up_block_def TAR_BLOCK_def salt_tar_writer_finish_def SALT_TAR_FILE_def SALT_TAR_DIR_def Let_def del: replicate.simps)
  moreover have "meta_ok ex_vim_meta" by (simp add: meta_ok_def ex_vim_meta_def no_nul_def hook_kinds_def)
  moreover have "list_all entry_ok ex_manifest"
    by (simp add: ex_manifest_def entry_ok_def no_nul_def plain_string_def SALT_TAR_DIR_def SALT_TAR_FILE_def)
  moreover have "ar_meta ex_archive = ex_vim_meta" "ar_manifest ex_archive = ex_manifest" by (simp_all add: ex_archive_def)
  ultimately show ?thesis by (simp add: archive_ok_def)
qed


end
