(* ===== verification/Salt_Gc.thy ===== *)
theory Salt_Gc
  imports Salt_Native
begin

text \<open>
  Garbage collection (\<^verbatim>\<open>src/halite/src/gc.c\<close>, \<^verbatim>\<open>src/salt/cmd_gc.cpp\<close>): old generations lose their saved files,
  and the download cache the artifacts no kept generation refers to.

  A record \<open>gc_env\<close> holds what the code asks of the system: the lines of \<^verbatim>\<open>/proc/self/mountinfo\<close>, the size of the
  directory of a transaction, what is left of it when removing it fails, the names in a directory of the
  cache and whether one is a directory, and whether a file can be unlinked.  The messages of the report
  are not modelled, its counters are.
\<close>

record gc_env =
  ge_mountinfo :: "string list option"
  ge_tree_size :: "int \<Rightarrow> nat"
  ge_rm_fails :: "int \<Rightarrow> txn_state option option"
  ge_list :: "string \<Rightarrow> string list option"
  ge_is_dir :: "string \<Rightarrow> bool"
  ge_unlink_ok :: "string \<Rightarrow> bool"

record salt_gc_report =
  gr_generations_removed :: nat
  gr_cache_files_removed :: nat
  gr_bytes_freed :: nat

record salt_gc_opts =
  go_keep :: int
  go_pinned :: "int list"
  go_dry_run :: bool

definition empty_report :: salt_gc_report where
  "empty_report = \<lparr>gr_generations_removed = 0, gr_cache_files_removed = 0, gr_bytes_freed = 0\<rparr>"

section \<open>The booted generation\<close>

definition words :: "string \<Rightarrow> string list" where
  "words s = filter (\<lambda>w. w \<noteq> []) (split_on CHR '' '' (map (\<lambda>c. if c_isspace c then CHR '' '' else c) s))"

text \<open>What follows the first occurrence: \<^verbatim>\<open>strstr (s, t) + strlen (t)\<close>.\<close>

fun after_sub :: "string \<Rightarrow> string \<Rightarrow> string option" where
  "after_sub t s = (if starts_with s t then Some (drop (length t) s) else case s of [] \<Rightarrow> None | c # cs \<Rightarrow> after_sub t cs)"

declare after_sub.simps [simp del]

text \<open>A line of the kernel: mount id, parent id, device, subvolume, mount point, ...\<close>

definition booted_of_line :: "string \<Rightarrow> int option" where
  "booted_of_line line =
     (case words line of
        _ # _ # _ # subvol # mnt # _ \<Rightarrow>
          if take 1023 mnt \<noteq> ''/'' then None
          else map_option c_atol (after_sub ''/.snapshots/root-'' (take 1023 subvol))
      | _ \<Rightarrow> None)"

definition salt_gc_booted_generation :: "gc_env \<Rightarrow> salt_ctx \<Rightarrow> int" where
  "salt_gc_booted_generation g ctx =
     (if cx_root ctx \<noteq> ''/'' then -1
      else case ge_mountinfo g of
             None \<Rightarrow> -1
           | Some ls \<Rightarrow> (case List.map_filter booted_of_line ls of [] \<Rightarrow> -1 | i # _ \<Rightarrow> i))"

section \<open>Generations\<close>

definition prune_generation :: "gc_env \<Rightarrow> env \<Rightarrow> salt_ctx \<Rightarrow> bool \<Rightarrow> salt_deployment \<Rightarrow> salt_gc_report \<times> world \<Rightarrow>
    salt_rc \<times> salt_gc_report \<times> world" where
  "prune_generation g env ctx dry_run d s =
     (let (r, w) = s; q = env_sql env; i = td_id d;
          snap = (case td_snapshot d of Some n \<Rightarrow> n | None \<Rightarrow> []);
          full = cx_snapshot_dir ctx @ ''/'' @ snap;
          had_snapshot = (cx_use_btrfs ctx \<and> snap \<noteq> [] \<and> CHR ''/'' \<notin> set snap \<and> env_is_dir env full);
          bytes = ge_tree_size g i;
          (rc, w1) =
            (if dry_run then (SALT_OK, w)
             else if had_snapshot \<and> \<not> env_btrfs_delete env full then (SALT_ERR_IO, w)
             else case ge_rm_fails g i of
                    Some left \<Rightarrow> (SALT_ERR_IO, w\<lparr>w_state := (w_state w)(i := left)\<rparr>)
                  | None \<Rightarrow>
                      (let w2 = w\<lparr>w_state := (w_state w)(i := None)\<rparr>;
                           w3 = snd (upd_tab (salt_db_txn_finish q i ''pruned'') w2)
                       in (SALT_OK, snd (upd_tab (salt_db_txn_set_snapshot q i []) w3))))
      in (rc, if rc = SALT_OK
              then r\<lparr>gr_generations_removed := gr_generations_removed r + 1, gr_bytes_freed := gr_bytes_freed r + bytes\<rparr> else r, w1))"

section \<open>The cache\<close>

definition sweep_file :: "gc_env \<Rightarrow> string list option \<Rightarrow> bool \<Rightarrow> string \<Rightarrow> string \<Rightarrow> salt_gc_report \<times> world \<Rightarrow>
    salt_rc \<times> salt_gc_report \<times> world" where
  "sweep_file g keep dry_run dir name s =
     (let (r, w) = s; full = salt_join_path dir name in
      if name = ''.'' \<or> name = ''..'' then (SALT_OK, s)
      else if (case keep of Some ks \<Rightarrow> name \<in> set ks | None \<Rightarrow> False) then (SALT_OK, s)
      else case w_files w full of
             None \<Rightarrow> (SALT_OK, s)
           | Some d \<Rightarrow>
               if \<not> dry_run \<and> \<not> ge_unlink_ok g full then (SALT_ERR_IO, s)
               else (SALT_OK, r\<lparr>gr_cache_files_removed := gr_cache_files_removed r + 1,
                                gr_bytes_freed := gr_bytes_freed r + length d\<rparr>,
                     if dry_run then w else del_file full w))"

definition sweep_cache_dir :: "gc_env \<Rightarrow> string list option \<Rightarrow> bool \<Rightarrow> string \<Rightarrow> salt_gc_report \<times> world \<Rightarrow>
    salt_rc \<times> salt_gc_report \<times> world" where
  "sweep_cache_dir g keep dry_run dir s =
     (case ge_list g dir of None \<Rightarrow> (SALT_OK, s) | Some ns \<Rightarrow> rc_fold (sweep_file g keep dry_run dir) ns s)"

definition sweep_sub :: "gc_env \<Rightarrow> string list option \<Rightarrow> bool \<Rightarrow> string \<Rightarrow> string \<Rightarrow> salt_gc_report \<times> world \<Rightarrow>
    salt_rc \<times> salt_gc_report \<times> world" where
  "sweep_sub g keep dry_run cache name s =
     (if name = ''.'' \<or> name = ''..'' \<or> name = ''strata'' then (SALT_OK, s)
      else let sub = salt_join_path cache name
           in if ge_is_dir g sub then sweep_cache_dir g keep dry_run sub s else (SALT_OK, s))"

definition sweep_cache :: "gc_env \<Rightarrow> salt_ctx \<Rightarrow> string list option \<Rightarrow> bool \<Rightarrow> salt_gc_report \<times> world \<Rightarrow>
    salt_rc \<times> salt_gc_report \<times> world" where
  "sweep_cache g ctx keep dry_run s =
     (let cache = salt_join_path (cx_root ctx) ''var/lib/salt/cache'' in
      case ge_list g cache of None \<Rightarrow> (SALT_OK, s) | Some ns \<Rightarrow> rc_fold (sweep_sub g keep dry_run cache) ns s)"

section \<open>A run\<close>

text \<open>The loop that decides which generations are kept; \<open>ok_seen\<close> counts the successful ones.  The
  mark of a pinned generation is not seen when its table cannot be read.\<close>

fun kept_ids :: "sql_env \<Rightarrow> tables \<Rightarrow> int \<Rightarrow> int list \<Rightarrow> int \<Rightarrow> int \<Rightarrow> int \<Rightarrow> salt_deployment list \<Rightarrow> int list" where
  "kept_ids q t booted pinned newest keep ok_seen [] = []"
| "kept_ids q t booted pinned newest keep ok_seen (d # ds) =
     (let recent = (td_status d = ''ok'' \<and> ok_seen < keep);
          keep_it = (recent \<or> td_id d = booted \<or> td_id d \<in> set pinned \<or> sql_ok q SqlSchema \<and> snd (salt_deploy_meta t (td_id d)) \<or>
                     td_status d = ''started'' \<and> td_id d = newest)
      in (if keep_it then [td_id d] else []) @
         kept_ids q t booted pinned newest keep (if recent then ok_seen + 1 else ok_seen) ds)"

definition gc_kept :: "gc_env \<Rightarrow> sql_env \<Rightarrow> salt_ctx \<Rightarrow> salt_gc_opts \<Rightarrow> tables \<Rightarrow> int list" where
  "gc_kept g q ctx opts t =
     (let deps = salt_db_deployments t
      in kept_ids q t (salt_gc_booted_generation g ctx) (go_pinned opts) (case deps of [] \<Rightarrow> 0 | d # _ \<Rightarrow> td_id d)
           (if go_keep opts < 1 then 1 else go_keep opts) 0 deps)"

text \<open>The artifacts of the installed packages and of the databases saved with the kept generations.\<close>

definition gc_referenced :: "int list \<Rightarrow> world \<Rightarrow> string list" where
  "gc_referenced kept w =
     filter (\<lambda>f. f \<noteq> []) (map dp_filename (salt_db_list_installed (w_tab w))) @
     concat (map (\<lambda>i. case w_state w i of
                        Some s \<Rightarrow> (case ts_before s of Some b \<Rightarrow> salt_db_snapshot_filenames b | None \<Rightarrow> [])
                      | None \<Rightarrow> []) kept)"

definition salt_gc_run :: "gc_env \<Rightarrow> env \<Rightarrow> salt_ctx \<Rightarrow> salt_gc_opts \<Rightarrow> world \<Rightarrow> salt_rc \<times> salt_gc_report \<times> world" where
  "salt_gc_run g env ctx opts w =
     (let kept = gc_kept g (env_sql env) ctx opts (w_tab w);
          referenced = gc_referenced kept w;
          victims = filter (\<lambda>d. td_status d \<noteq> ''pruned'' \<and> td_id d \<notin> set kept) (salt_db_deployments (w_tab w))
      in and_then (rc_fold (prune_generation g env ctx (go_dry_run opts)) victims (empty_report, w))
           (sweep_cache g ctx (Some referenced) (go_dry_run opts)))"

definition salt_cache_clean :: "gc_env \<Rightarrow> salt_ctx \<Rightarrow> string \<Rightarrow> bool \<Rightarrow> world \<Rightarrow> salt_rc \<times> salt_gc_report \<times> world" where
  "salt_cache_clean g ctx cache_dir dry_run w =
     (if cache_dir \<noteq> [] then sweep_cache_dir g None dry_run cache_dir (empty_report, w)
      else sweep_cache g ctx None dry_run (empty_report, w))"

section \<open>The commands\<close>

definition gc_keep_from_conf :: "sys \<Rightarrow> Options \<Rightarrow> int \<times> int list" where
  "gc_keep_from_conf y opt =
     (case load_salt_conf y (o_root opt) ''salt'' of
        None \<Rightarrow> (3, [])
      | Some t \<Rightarrow>
          (let keep = c_int (salt_toml_int (Some t) ''gc.keep'' 3);
               pinned = (case salt_toml_path (Some t) ''gc.pinned'' of
                           Some (TArray xs) \<Rightarrow> filter (\<lambda>i. 0 < i) (map (\<lambda>x. salt_toml_as_int (Some x) (-1)) xs)
                         | _ \<Rightarrow> [])
           in (if keep < 1 then 1 else keep, pinned)))"

fun gc_args :: "string list \<Rightarrow> salt_gc_opts \<Rightarrow> salt_gc_opts option" where
  "gc_args [] opts = Some opts"
| "gc_args (a # as) opts =
     (if a = ''--keep'' \<and> as \<noteq> [] then
        let (v, rest) = c_strtol (hd as)
        in if rest \<noteq> [] \<or> v < 1 then None else gc_args (tl as) (opts\<lparr>go_keep := c_int v\<rparr>)
      else if a = ''--pin'' \<and> as \<noteq> [] then
        let (v, rest) = c_strtol (hd as)
        in if rest \<noteq> [] \<or> v < 1 then None else gc_args (tl as) (opts\<lparr>go_pinned := go_pinned opts @ [v]\<rparr>)
      else if a = ''--dry-run'' \<or> a = ''-n'' then gc_args as (opts\<lparr>go_dry_run := True\<rparr>)
      else None)"

definition cmd_gc :: "gc_env \<Rightarrow> sys \<Rightarrow> Options \<Rightarrow> string list \<Rightarrow> world \<Rightarrow> int \<times> world" where
  "cmd_gc g y opt args w =
     (let (keep, pinned) = gc_keep_from_conf y opt in
      case gc_args args \<lparr>go_keep = keep, go_pinned = pinned, go_dry_run = False\<rparr> of
        None \<Rightarrow> (2, w)
      | Some opts \<Rightarrow>
          if \<not> sql_ok (env_sql (sys_env y)) SqlOpen then (1, w)
          else let (rc, r, w') = salt_gc_run g (sys_env y) (salt_ctx_init (sys_env y) (o_root opt)) opts w
               in (if rc = SALT_OK then 0 else 1, w'))"

definition cmd_clean :: "gc_env \<Rightarrow> sys \<Rightarrow> Options \<Rightarrow> string list \<Rightarrow> world \<Rightarrow> int \<times> world" where
  "cmd_clean g y opt args w =
     (if list_ex (\<lambda>a. a \<notin> {''--dry-run'', ''-n'', ''--all''}) args then (2, w)
      else let dry_run = list_ex (\<lambda>a. a = ''--dry-run'' \<or> a = ''-n'') args; all = list_ex (\<lambda>a. a = ''--all'') args;
               (rc, r, w') = salt_cache_clean g (salt_ctx_init (sys_env y) (o_root opt))
                               (if all then [] else cache_dir_for y opt) dry_run w
           in (if rc = SALT_OK then 0 else 1, w'))"

section \<open>What a run leaves alone\<close>

text \<open>Pruning generations outside \<open>K\<close>: the files stay, and so do the rows and the saved state of \<open>K\<close>.\<close>

definition txn_row :: "tables \<Rightarrow> int \<Rightarrow> salt_deployment list" where
  "txn_row t i = filter (\<lambda>d. td_id d = i) (t_transactions t)"

definition prune_frame :: "int set \<Rightarrow> world \<Rightarrow> world \<Rightarrow> bool" where
  "prune_frame K w w' \<longleftrightarrow> w_fs w' = w_fs w \<and> w_files w' = w_files w \<and>
     (w_tab w')\<lparr>t_transactions := []\<rparr> = (w_tab w)\<lparr>t_transactions := []\<rparr> \<and>
     (\<forall>i \<in> K. w_state w' i = w_state w i \<and> txn_row (w_tab w') i = txn_row (w_tab w) i)"

lemma txn_row_update: "i \<noteq> j \<Longrightarrow> (\<And>d. td_id (f d) = td_id d) \<Longrightarrow> txn_row (update_txn j f t) i = txn_row t i"
proof -
  assume a: "i \<noteq> j" "\<And>d. td_id (f d) = td_id d"
  have "filter (\<lambda>d. td_id d = i) (map (\<lambda>d. if td_id d = j then f d else d) ds) = filter (\<lambda>d. td_id d = i) ds" for ds
    using a by (induction ds) auto
  then show ?thesis by (simp add: txn_row_def update_txn_def)
qed

lemma txn_rows_frame:
  "i \<noteq> j \<Longrightarrow> txn_row (snd (salt_db_txn_finish q j s t)) i = txn_row t i"
  "i \<noteq> j \<Longrightarrow> txn_row (snd (salt_db_txn_set_snapshot q j n t)) i = txn_row t i"
  by (auto simp: salt_db_txn_finish_def salt_db_txn_set_snapshot_def txn_row_update)

lemma txn_tables_frame:
  "(snd (salt_db_txn_finish q j s t))\<lparr>t_transactions := []\<rparr> = t\<lparr>t_transactions := []\<rparr>"
  "(snd (salt_db_txn_set_snapshot q j n t))\<lparr>t_transactions := []\<rparr> = t\<lparr>t_transactions := []\<rparr>"
  by (auto simp: salt_db_txn_finish_def salt_db_txn_set_snapshot_def update_txn_def)

lemma prune_generation_frame:
  assumes "td_id d \<notin> K"
  shows "prune_frame K (snd s) (snd (snd (prune_generation g env ctx dry d s)))"
proof -
  have ne: "i \<noteq> td_id d" if "i \<in> K" for i using assms that by auto
  show ?thesis
    unfolding prune_generation_def Let_def split_beta prune_frame_def
    by (auto simp: upd_tab_def split_beta txn_tables_frame txn_rows_frame ne split: option.split)
qed


lemma prune_frame_refl: "prune_frame K w w"
  by (simp add: prune_frame_def)

lemma prune_frame_trans: "prune_frame K u v \<Longrightarrow> prune_frame K v w \<Longrightarrow> prune_frame K u w"
  by (simp add: prune_frame_def)

lemma prune_all_frame:
  assumes "\<forall>d \<in> set ds. td_id d \<notin> K"
  shows "prune_frame K (snd s) (snd (snd (rc_fold (prune_generation g env ctx dry) ds s)))"
  by (rule rc_fold_inv [where P = "\<lambda>s'. prune_frame K (snd s) (snd s')"])
    (use assms prune_frame_refl prune_frame_trans prune_generation_frame in blast)+

text \<open>Sweeping unlinks files whose name is not to be kept, and does nothing else.\<close>

definition sweep_frame :: "string set \<Rightarrow> world \<Rightarrow> world \<Rightarrow> bool" where
  "sweep_frame N w w' \<longleftrightarrow> w_fs w' = w_fs w \<and> w_db w' = w_db w \<and> w_state w' = w_state w \<and>
     (\<forall>p. w_files w' p = w_files w p \<or>
        w_files w' p = None \<and> (\<exists>dir name. dir \<noteq> [] \<and> p = salt_join_path dir name \<and> name \<notin> N \<and> name \<noteq> [] \<and> CHR ''/'' \<notin> set name))"

lemma sweep_frame_refl: "sweep_frame N w w"
  by (simp add: sweep_frame_def)

lemma sweep_frame_trans: "sweep_frame N u v \<Longrightarrow> sweep_frame N v w \<Longrightarrow> sweep_frame N u w"
  unfolding sweep_frame_def by metis

definition dirents_ok :: "gc_env \<Rightarrow> bool" where
  "dirents_ok g \<longleftrightarrow> (\<forall>dir ns n. ge_list g dir = Some ns \<longrightarrow> n \<in> set ns \<longrightarrow> n \<noteq> [] \<and> CHR ''/'' \<notin> set n)"

lemma sweep_file_frame:
  "dir \<noteq> [] \<Longrightarrow> name \<noteq> [] \<Longrightarrow> CHR ''/'' \<notin> set name \<Longrightarrow>
   sweep_frame (case keep of Some ks \<Rightarrow> set ks | None \<Rightarrow> {}) (snd s) (snd (snd (sweep_file g keep dry dir name s)))"
  unfolding sweep_file_def Let_def split_beta sweep_frame_def
  by (auto simp: del_file_def split: option.split)

lemma sweep_cache_dir_frame:
  "dir \<noteq> [] \<Longrightarrow> dirents_ok g \<Longrightarrow>
   sweep_frame (case keep of Some ks \<Rightarrow> set ks | None \<Rightarrow> {}) (snd s) (snd (snd (sweep_cache_dir g keep dry dir s)))"
proof (cases "ge_list g dir")
  case (Some ns)
  assume a: "dir \<noteq> []" "dirents_ok g"
  let ?N = "case keep of Some ks \<Rightarrow> set ks | None \<Rightarrow> {}"
  have "sweep_frame ?N (snd s) (snd (snd (rc_fold (sweep_file g keep dry dir) ns s)))"
    by (rule rc_fold_inv [where P = "\<lambda>s'. sweep_frame ?N (snd s) (snd s')"])
      (use a Some sweep_frame_refl sweep_frame_trans sweep_file_frame [of dir _ keep _ g dry] in \<open>auto simp: dirents_ok_def\<close>)
  then show ?thesis using Some by (simp add: sweep_cache_dir_def)
qed (simp add: sweep_cache_dir_def sweep_frame_refl)

lemma join_nonempty: "b \<noteq> [] \<Longrightarrow> salt_join_path a b \<noteq> []"
  by (auto simp: salt_join_path_def)

lemma sweep_cache_frame:
  assumes "dirents_ok g"
  shows "sweep_frame (case keep of Some ks \<Rightarrow> set ks | None \<Rightarrow> {}) (snd s) (snd (snd (sweep_cache g ctx keep dry s)))"
proof (cases "ge_list g (salt_join_path (cx_root ctx) ''var/lib/salt/cache'')")
  case (Some ns)
  let ?N = "case keep of Some ks \<Rightarrow> set ks | None \<Rightarrow> {}" and ?c = "salt_join_path (cx_root ctx) ''var/lib/salt/cache''"
  have sub: "sweep_frame ?N (snd s) (snd (snd (sweep_sub g keep dry ?c n s)))" if "n \<in> set ns" for n s
    using sweep_cache_dir_frame [OF _ assms, of "salt_join_path ?c n" keep s dry] join_nonempty [of n ?c] that Some assms
    by (auto simp: sweep_sub_def sweep_frame_refl Let_def dirents_ok_def)
  have "sweep_frame ?N (snd s) (snd (snd (rc_fold (sweep_sub g keep dry ?c) ns s)))"
    by (rule rc_fold_inv [where P = "\<lambda>s'. sweep_frame ?N (snd s) (snd s')"])
      (use sweep_frame_refl sweep_frame_trans sub in blast)+
  then show ?thesis using Some by (simp add: sweep_cache_def Let_def)
qed (simp add: sweep_cache_def sweep_frame_refl)

text \<open>A name without a slash is the last component of a joined path.\<close>

lemma join_last:
  assumes "a \<noteq> []" "CHR ''/'' \<notin> set b" "b \<noteq> []"
  shows "rev (takeWhile (\<lambda>c. c \<noteq> CHR ''/'') (rev (salt_join_path a b))) = b"
proof -
  have d: "dropWhile (\<lambda>c. c = CHR ''/'') b = b" using assms(2,3) by (cases b) auto
  obtain a' where j: "salt_join_path a b = a' @ CHR ''/'' # b"
  proof (cases "last a = CHR ''/''")
    case True
    then have "salt_join_path a b = butlast a @ CHR ''/'' # b" using assms d append_butlast_last_id [OF assms(1)]
      by (simp add: salt_join_path_def)
    then show thesis by (rule that)
  next
    case False
    then show thesis using assms d by (intro that [of a]) (simp add: salt_join_path_def)
  qed
  have "takeWhile (\<lambda>c. c \<noteq> CHR ''/'') (rev b @ CHR ''/'' # r) = rev b" for r
    using assms(2) by (subst takeWhile_append2) auto
  then show ?thesis by (simp add: j)
qed

lemma join_name_inj:
  "a \<noteq> [] \<Longrightarrow> a' \<noteq> [] \<Longrightarrow> CHR ''/'' \<notin> set b \<Longrightarrow> CHR ''/'' \<notin> set b' \<Longrightarrow> b \<noteq> [] \<Longrightarrow> b' \<noteq> [] \<Longrightarrow>
   salt_join_path a b = salt_join_path a' b' \<Longrightarrow> b = b'"
  using join_last [of a b] join_last [of a' b'] by simp


section \<open>The generations kept\<close>

lemma kept_ids_marked:
  "d \<in> set ds \<Longrightarrow> td_id d = booted \<or> td_id d \<in> set pinned \<or> sql_ok q SqlSchema \<and> snd (salt_deploy_meta t (td_id d)) \<Longrightarrow>
   td_id d \<in> set (kept_ids q t booted pinned newest keep ok_seen ds)"
  by (induction ds arbitrary: ok_seen) (auto simp: Let_def)

lemma kept_ids_recent:
  "td_status d = ''ok'' \<Longrightarrow> ok_seen + int (length (filter (\<lambda>e. td_status e = ''ok'') xs)) < keep \<Longrightarrow>
   td_id d \<in> set (kept_ids q t booted pinned newest keep ok_seen (xs @ d # ys))"
proof (induction xs arbitrary: ok_seen)
  case (Cons x xs)
  let ?r = "td_status x = ''ok'' \<and> ok_seen < keep"
  have "(if ?r then ok_seen + 1 else ok_seen) + int (length (filter (\<lambda>e. td_status e = ''ok'') xs)) < keep"
    using Cons.prems(2) by (auto split: if_splits)
  then show ?case using Cons.IH [OF Cons.prems(1)] by (simp add: Let_def)
qed (simp add: Let_def)

text \<open>What a run must not touch: booted, pinned, or one of the \<open>keep\<close> most recent successful generations.\<close>

definition gc_protected :: "gc_env \<Rightarrow> sql_env \<Rightarrow> salt_ctx \<Rightarrow> salt_gc_opts \<Rightarrow> tables \<Rightarrow> salt_deployment \<Rightarrow> bool" where
  "gc_protected g q ctx opts t d \<longleftrightarrow> d \<in> set (t_transactions t) \<and>
     (td_id d = salt_gc_booted_generation g ctx \<or> td_id d \<in> set (go_pinned opts) \<or>
      sql_ok q SqlSchema \<and> snd (salt_deploy_meta t (td_id d)) \<or>
      td_status d = ''ok'' \<and>
      int (length (filter (\<lambda>e. td_status e = ''ok'' \<and> td_id d < td_id e) (t_transactions t))) < max 1 (go_keep opts))"

lemma protected_kept:
  assumes "gc_protected g q ctx opts t d" "distinct (map td_id (t_transactions t))"
  shows "td_id d \<in> set (gc_kept g q ctx opts t)"
proof -
  let ?ds = "salt_db_deployments t" and ?keep = "if go_keep opts < 1 then 1 else go_keep opts"
  have d: "d \<in> set ?ds" using assms(1) by (simp add: gc_protected_def salt_db_deployments_def)
  have m: "max 1 (go_keep opts) = ?keep" by (simp add: max_def)
  consider "td_id d = salt_gc_booted_generation g ctx \<or> td_id d \<in> set (go_pinned opts) \<or>
      sql_ok q SqlSchema \<and> snd (salt_deploy_meta t (td_id d))"
    | (recent) "td_status d = ''ok''"
        "int (length (filter (\<lambda>e. td_status e = ''ok'' \<and> td_id d < td_id e) (t_transactions t))) < ?keep"
    using assms(1) unfolding gc_protected_def m by blast
  then show ?thesis
  proof cases
    case 1
    then show ?thesis using kept_ids_marked [OF d] by (simp add: gc_kept_def Let_def)
  next
    case recent
    obtain xs ys where s: "?ds = xs @ d # ys" using d by (meson split_list)
    have "sorted (map (\<lambda>d. - td_id d) ?ds)" "distinct (map td_id ?ds)"
      using assms(2) by (simp_all add: salt_db_deployments_def distinct_map)
    then have "\<forall>e \<in> set xs. td_id d < td_id e" using s by (force simp: sorted_append)
    then have "length (filter (\<lambda>e. td_status e = ''ok'') xs) =
        length (filter (\<lambda>e. td_status e = ''ok'' \<and> td_id d < td_id e) xs)"
      by (intro arg_cong [of _ _ length] filter_cong) auto
    also have "\<dots> \<le> length (filter (\<lambda>e. td_status e = ''ok'' \<and> td_id d < td_id e) ?ds)" by (simp add: s)
    also have "\<dots> = length (filter (\<lambda>e. td_status e = ''ok'' \<and> td_id d < td_id e) (t_transactions t))"
      by (simp add: salt_db_deployments_def filter_sort)
    finally show ?thesis using recent kept_ids_recent [OF recent(1), of 0 xs ?keep] s
      by (simp add: gc_kept_def Let_def)
  qed
qed

lemma gc_run_frames:
  assumes "salt_gc_run g env ctx opts w = (rc, r, w')" "dirents_ok g"
  defines "K \<equiv> gc_kept g (env_sql env) ctx opts (w_tab w)"
  shows "\<exists>w1. prune_frame (set K) w w1 \<and> sweep_frame (set (gc_referenced K w)) w1 w'"
proof -
  let ?v = "filter (\<lambda>d. td_status d \<noteq> ''pruned'' \<and> td_id d \<notin> set K) (salt_db_deployments (w_tab w))"
  obtain rc1 r1 w1 where p: "rc_fold (prune_generation g env ctx (go_dry_run opts)) ?v (empty_report, w) = (rc1, r1, w1)"
    by (cases "rc_fold (prune_generation g env ctx (go_dry_run opts)) ?v (empty_report, w)") auto
  have "prune_frame (set K) w w1"
    using prune_all_frame [of ?v "set K" "(empty_report, w)" g env ctx "go_dry_run opts"] p by simp
  moreover have "sweep_frame (set (gc_referenced K w)) w1 w'"
    using assms(1) p sweep_cache_frame [OF assms(2), of "Some (gc_referenced K w)" "(r1, w1)" ctx "go_dry_run opts"]
    by (auto simp: salt_gc_run_def Let_def and_then_def K_def sweep_frame_refl split: if_splits)
  ultimately show ?thesis by blast
qed

text \<open>
  C33. Garbage collection never takes what a rollback needs: however it ends, a generation that is booted,
  pinned, or one of the \<open>keep\<close> most recent successful ones keeps its row and its saved files and database; the
  artifacts in the cache of the installed packages and of the packages in that saved database stay,
  as do the installed files and the package tables.
\<close>

theorem gc_keeps_protected:
  assumes "salt_gc_run g env ctx opts w = (rc, r, w')" "dirents_ok g" "distinct (map td_id (t_transactions (w_tab w)))"
    and "gc_protected g (env_sql env) ctx opts (w_tab w) d"
  shows "w_fs w' = w_fs w \<and> t_packages (w_tab w') = t_packages (w_tab w) \<and> t_files (w_tab w') = t_files (w_tab w) \<and>
    txn_row (w_tab w') (td_id d) = txn_row (w_tab w) (td_id d) \<and> w_state w' (td_id d) = w_state w (td_id d) \<and>
    (\<forall>p \<in> set (t_packages (w_tab w)) \<union>
        (case w_state w (td_id d) of Some s \<Rightarrow> (case ts_before s of Some b \<Rightarrow> set (t_packages b) | None \<Rightarrow> {}) | None \<Rightarrow> {}).
      \<forall>dir. dir \<noteq> [] \<and> dp_filename p \<noteq> [] \<and> CHR ''/'' \<notin> set (dp_filename p) \<longrightarrow>
        w_files w' (salt_join_path dir (dp_filename p)) = w_files w (salt_join_path dir (dp_filename p)))"
proof -
  let ?K = "gc_kept g (env_sql env) ctx opts (w_tab w)"
  obtain w1 where f: "prune_frame (set ?K) w w1" "sweep_frame (set (gc_referenced ?K w)) w1 w'"
    using gc_run_frames [OF assms(1,2)] by blast
  have k: "td_id d \<in> set ?K" by (rule protected_kept [OF assms(4,3)])
  have ref: "w_files w' (salt_join_path dir n) = w_files w (salt_join_path dir n)"
    if "n \<in> set (gc_referenced ?K w)" "dir \<noteq> []" "n \<noteq> []" "CHR ''/'' \<notin> set n" for dir n
    using f that join_name_inj unfolding prune_frame_def sweep_frame_def by metis
  have inst: "n \<in> set (gc_referenced ?K w)" if "p \<in> set (t_packages (w_tab w))" "n = dp_filename p" "n \<noteq> []" for n p
    using that by (auto simp: gc_referenced_def salt_db_list_installed_def)
  have saved: "n \<in> set (gc_referenced ?K w)"
    if "w_state w (td_id d) = Some s" "ts_before s = Some b" "p \<in> set (t_packages b)" "n = dp_filename p" "n \<noteq> []" for n p s b
  proof -
    have "n \<in> set (salt_db_snapshot_filenames b)" using that by (auto simp: salt_db_snapshot_filenames_def)
    then show ?thesis unfolding gc_referenced_def using k that(1,2) by (auto intro!: bexI [of _ "td_id d"])
  qed
  have tabs: "(w_tab w')\<lparr>t_transactions := []\<rparr> = (w_tab w)\<lparr>t_transactions := []\<rparr>" using f by (simp add: prune_frame_def sweep_frame_def)
  then have "t_packages (w_tab w') = t_packages (w_tab w)" "t_files (w_tab w') = t_files (w_tab w)"
    by (metis tables.select_convs(1) tables.surjective tables.update_convs(6)) (metis tables.select_convs(2) tables.surjective tables.update_convs(6) tabs)
  moreover have "txn_row (w_tab w') (td_id d) = txn_row (w_tab w) (td_id d)" "w_state w' (td_id d) = w_state w (td_id d)" "w_fs w' = w_fs w"
    using f k by (auto simp: prune_frame_def sweep_frame_def)
  ultimately show ?thesis using ref inst saved by (auto split: option.splits)
qed


section \<open>What a run frees\<close>

lemma prune_generation_frees:
  assumes "prune_generation g env ctx False d s = (SALT_OK, r', w')"
  shows "gr_generations_removed r' = gr_generations_removed (fst s) + 1 \<and> w_state w' = (w_state (snd s))(td_id d := None)"
  using assms by (auto simp: prune_generation_def Let_def split_beta upd_tab_def split: if_splits option.splits)

lemma prune_all_frees:
  "rc_fold (prune_generation g env ctx False) ds s = (SALT_OK, r', w') \<Longrightarrow>
   gr_generations_removed r' = gr_generations_removed (fst s) + length ds \<and>
   (\<forall>i. w_state w' i = (if i \<in> td_id ` set ds then None else w_state (snd s) i))"
proof (induction ds arbitrary: s)
  case (Cons d ds)
  obtain r1 w1 where 1: "prune_generation g env ctx False d s = (SALT_OK, r1, w1)"
      "rc_fold (prune_generation g env ctx False) ds (r1, w1) = (SALT_OK, r', w')"
    using Cons.prems by (auto simp: and_then_OK)
  show ?case using Cons.IH [OF 1(2)] prune_generation_frees [OF 1(1)] by auto
qed auto

lemma sweep_dry: "snd (snd (sweep_file g keep True dir n s)) = snd s" "fst (sweep_file g keep True dir n s) = SALT_OK"
  by (auto simp: sweep_file_def Let_def split_beta split: option.splits)

lemma rc_fold_pure:
  assumes "\<And>x s. x \<in> set xs \<Longrightarrow> fst (f x s) = SALT_OK \<and> snd (snd (f x s)) = snd s"
  shows "fst (rc_fold f xs s) = SALT_OK \<and> snd (snd (rc_fold f xs s)) = snd s"
  using assms by (induction xs arbitrary: s) (simp_all add: and_then_def)

lemma sweep_cache_dry: "fst (sweep_cache g ctx keep True s) = SALT_OK \<and> snd (snd (sweep_cache g ctx keep True s)) = snd s"
proof -
  have "fst (sweep_cache_dir g keep True dir s) = SALT_OK \<and> snd (snd (sweep_cache_dir g keep True dir s)) = snd s" for dir s
    using rc_fold_pure [of _ "sweep_file g keep True dir"] by (auto simp: sweep_cache_dir_def sweep_dry split: option.split)
  then have "fst (sweep_sub g keep True c n s) = SALT_OK \<and> snd (snd (sweep_sub g keep True c n s)) = snd s" for c n s
    by (simp add: sweep_sub_def Let_def)
  then show ?thesis
    using rc_fold_pure [of _ "sweep_sub g keep True (salt_join_path (cx_root ctx) ''var/lib/salt/cache'')"]
    by (auto simp: sweep_cache_def Let_def split: option.split)
qed

lemma sweep_cache_counts:
  "gr_generations_removed (fst (snd (sweep_cache g ctx keep dry s))) = gr_generations_removed (fst s) \<and>
   w_state (snd (snd (sweep_cache g ctx keep dry s))) = w_state (snd s)"
proof -
  let ?P = "\<lambda>s s'. gr_generations_removed (fst s') = gr_generations_removed (fst s) \<and> w_state (snd s') = w_state (snd s)"
  have fle: "?P s (snd (sweep_file g keep dry dir n s))" for dir n s
    by (auto simp: sweep_file_def Let_def split_beta del_file_def split: option.split)
  have fold: "?P s (snd (rc_fold f xs s))" if "\<And>x s. ?P s (snd (f x s))"
    for f :: "string \<Rightarrow> salt_gc_report \<times> world \<Rightarrow> salt_rc \<times> salt_gc_report \<times> world" and xs s
    by (rule rc_fold_inv [where P = "?P s"]) (use that in auto)
  have "?P s (snd (sweep_cache_dir g keep dry dir s))" for dir s
    using fold [OF fle] by (simp add: sweep_cache_dir_def split: option.split)
  then have "?P s (snd (sweep_sub g keep dry c n s))" for c n s by (simp add: sweep_sub_def Let_def)
  then show ?thesis using fold by (simp add: sweep_cache_def Let_def split: option.split)
qed



section \<open>An example\<close>

definition ex_gc_txn :: "int \<Rightarrow> salt_deployment" where
  "ex_gc_txn i = \<lparr>td_id = i, td_op = ''install'', td_status = ''ok'', td_time = 0, td_snapshot = None\<rparr>"

definition ex_gc_world :: world where
  "ex_gc_world = \<lparr>w_fs = [], w_files = [''/var/lib/salt/cache/x86_64/a.grain'' \<mapsto> ''old''],
     w_db = \<lparr>db_tab = \<lparr>t_packages = [], t_files = [], t_deps = [], t_conflicts = [], t_hooks = [],
       t_transactions = [ex_gc_txn 1, ex_gc_txn 2], t_seq = 2, t_txn_changes = [], t_txn_meta = []\<rparr>, db_saved = None\<rparr>,
     w_state = \<lambda>i. if i \<in> {1, 2} then Some empty_state else None\<rparr>"

definition ex_gc_env :: gc_env where
  "ex_gc_env = \<lparr>ge_mountinfo = None, ge_tree_size = \<lambda>i. 7, ge_rm_fails = \<lambda>i. None,
     ge_list = \<lambda>d. if d = ''/var/lib/salt/cache'' then Some [''.'', ''x86_64'']
                   else if d = ''/var/lib/salt/cache/x86_64'' then Some [''a.grain''] else None,
     ge_is_dir = \<lambda>d. True, ge_unlink_ok = \<lambda>f. True\<rparr>"

definition ex_gc_opts :: salt_gc_opts where
  "ex_gc_opts = \<lparr>go_keep = 1, go_pinned = [], go_dry_run = False\<rparr>"

definition ex_gc_run :: "salt_rc \<times> salt_gc_report \<times> world" where
  "ex_gc_run = salt_gc_run ex_gc_env ex_env (salt_ctx_init ex_env []) ex_gc_opts ex_gc_world"

lemma ex_gc_result: "fst ex_gc_run = SALT_OK" "gc_kept ex_gc_env (env_sql ex_env) (salt_ctx_init ex_env []) ex_gc_opts (w_tab ex_gc_world) = [2]"
  by code_simp+

lemma ex_gc_dirents: "dirents_ok ex_gc_env"
  by (auto simp: dirents_ok_def ex_gc_env_def split: if_splits)

theorem gc_keeps_protected_witness: "w_state (snd (snd ex_gc_run)) 2 = Some empty_state"
proof -
  have p: "gc_protected ex_gc_env (env_sql ex_env) (salt_ctx_init ex_env []) ex_gc_opts (w_tab ex_gc_world) (ex_gc_txn 2)"
    by (simp add: gc_protected_def ex_gc_world_def ex_gc_opts_def ex_gc_txn_def)
  have r: "salt_gc_run ex_gc_env ex_env (salt_ctx_init ex_env []) ex_gc_opts ex_gc_world = (fst ex_gc_run, fst (snd ex_gc_run), snd (snd ex_gc_run))"
    by (simp add: ex_gc_run_def)
  have "w_state (snd (snd ex_gc_run)) (td_id (ex_gc_txn 2)) = w_state ex_gc_world (td_id (ex_gc_txn 2))"
    using gc_keeps_protected [OF r ex_gc_dirents _ p] by (simp add: ex_gc_world_def ex_gc_txn_def)
  then show ?thesis by (simp add: ex_gc_world_def ex_gc_txn_def)
qed


end
