(* ===== verification/Salt_Strata.thy ===== *)
theory Salt_Strata
  imports Salt_Locked
begin

text \<open>
  The registry of strata, the commands they expose to the host and the providers of components
  (\<^verbatim>\<open>src/halite/src/stratum.c\<close>, \<^verbatim>\<open>src/salt/cmd_expose.cpp\<close>, \<^verbatim>\<open>src/salt/cmd_provider.cpp\<close>).  The database is a record of
  tables, the files are named by their paths.  Every SQL statement and every write may fail (\<open>strata_env\<close>); shell
  commands and the processes that hold a stratum's namespaces are parameters.
\<close>

section \<open>State\<close>

record salt_stratum =
  sm_name :: string
  sm_family :: string
  sm_arch :: string
  sm_root :: string
  sm_package_manager :: string
  sm_bootstrap :: string
  sm_trust :: string
  sm_state :: string
  sm_graphics :: bool
  sm_audio :: bool
  sm_dbus :: bool
  sm_created :: int

record salt_stratum_recipe =
  sr_name :: string
  sr_family :: string
  sr_arch :: string
  sr_root :: string
  sr_package_manager :: string
  sr_bootstrap :: string
  sr_trust :: string
  sr_rootfs_url :: string
  sr_rootfs_sha256 :: string
  sr_rootfs_strip :: int
  sr_graphics :: bool
  sr_audio :: bool
  sr_dbus :: bool
  sr_repos :: "(string \<times> string) list"

record salt_exposed =
  ex_alias :: string
  ex_stratum :: string
  ex_command :: string
  ex_kind :: string
  ex_shim_path :: string
  ex_created :: int

record salt_provider =
  pv_component :: string
  pv_provider :: string
  pv_source :: string
  pv_trust :: string
  pv_rollback_target :: int
  pv_time :: int

record provider_row =
  ph_id :: int
  ph_component :: string
  ph_provider :: string
  ph_source :: string
  ph_trust :: string

record salt_stratum_snapshot =
  ns_id :: int
  ns_stratum :: string
  ns_label :: string
  ns_path :: string
  ns_kind :: string
  ns_time :: int

record strata_db =
  sd_strata :: "salt_stratum list"
  sd_repos :: "(string \<times> string \<times> string) list"
  sd_snapshots :: "salt_stratum_snapshot list"
  sd_snap_seq :: int
  sd_exposed :: "salt_exposed list"
  sd_providers :: "salt_provider list"
  sd_history :: "provider_row list"
  sd_hist_seq :: int

record strata_state =
  ss_db :: strata_db
  ss_files :: "string \<Rightarrow> string option"

datatype strata_stmt =
    InsStratum | DelStratum | DelRepos | InsRepo | UpdState | InsExposed | DelExposed | InsHistory | InsProvider | InsSnapshot | DelSnapshots
  | SelExposed

text \<open>
  \<open>se_sql\<close> says whether a statement succeeds, \<open>se_write_ok\<close> and \<open>se_unlink_ok\<close> whether a file can be written or removed,
  \<open>se_dir\<close> lists a directory with a mark for what can be executed, \<open>se_shell\<close> runs a shell command, \<open>se_ns_stop\<close> stops the
  holder of a stratum, \<open>se_now\<close> is \<^verbatim>\<open>time\<close> and \<open>se_stamp\<close> the text \<^verbatim>\<open>snapshot_timestamp\<close> makes of it.
\<close>

record strata_env =
  se_sql :: "strata_stmt \<Rightarrow> bool"
  se_open :: bool
  se_write_ok :: "string \<Rightarrow> bool"
  se_unlink_ok :: "string \<Rightarrow> bool"
  se_dir :: "string \<Rightarrow> (string \<times> bool) list option"
  se_shell :: "string \<Rightarrow> strata_state \<Rightarrow> bool \<times> strata_state"
  se_ns_stop :: "salt_stratum \<Rightarrow> strata_state \<Rightarrow> strata_state"
  se_now :: int
  se_stamp :: "string option"

abbreviation upd_sdb :: "(strata_db \<Rightarrow> strata_db) \<Rightarrow> strata_state \<Rightarrow> strata_state" where
  "upd_sdb f s \<equiv> s\<lparr>ss_db := f (ss_db s)\<rparr>"

text \<open>A statement whose result is not looked at.\<close>

definition sql_try :: "strata_env \<Rightarrow> strata_stmt \<Rightarrow> (strata_db \<Rightarrow> strata_db) \<Rightarrow> strata_state \<Rightarrow> strata_state" where
  "sql_try e q f s = (if se_sql e q then upd_sdb f s else s)"

definition put_sfile :: "string \<Rightarrow> string \<Rightarrow> strata_state \<Rightarrow> strata_state" where
  "put_sfile p d s = s\<lparr>ss_files := (ss_files s)(p \<mapsto> d)\<rparr>"

definition del_sfile :: "strata_env \<Rightarrow> string \<Rightarrow> strata_state \<Rightarrow> strata_state" where
  "del_sfile e p s = (if se_unlink_ok e p then s\<lparr>ss_files := (ss_files s)(p := None)\<rparr> else s)"

section \<open>Recipes\<close>

definition salt_host_arch :: "sys \<Rightarrow> string" where
  "salt_host_arch y =
     (case sys_machine y of
        Some m \<Rightarrow> if m = ''aarch64'' \<or> m = ''arm64'' then ''aarch64'' else if m = ''x86_64'' \<or> m = ''amd64'' then ''x86_64'' else take 31 m
      | None \<Rightarrow> ''x86_64'')"

fun salt_subst :: "string \<Rightarrow> string \<Rightarrow> string \<Rightarrow> nat \<Rightarrow> string" where
  "salt_subst [] tok val k = []"
| "salt_subst (c # s) tok val (Suc k) = salt_subst s tok val k"
| "salt_subst (c # s) tok val 0 =
     (if starts_with (c # s) tok then val @ salt_subst s tok val (length tok - 1) else c # salt_subst s tok val 0)"

definition recipe_arch :: "sys \<Rightarrow> salt_toml \<Rightarrow> string" where
  "recipe_arch y t = (let a = salt_toml_string (Some t) ''arch'' ''{arch}'' in if a = [] \<or> a = ''{arch}'' then salt_host_arch y else a)"

definition recipe_of_toml :: "sys \<Rightarrow> salt_toml \<Rightarrow> salt_stratum_recipe" where
  "recipe_of_toml y t =
     (let str = (\<lambda>k. salt_toml_string (Some t) k []); arch = recipe_arch y t
      in \<lparr>sr_name = str ''name'', sr_family = str ''family'', sr_arch = arch, sr_root = str ''root'',
          sr_package_manager = str ''package_manager'', sr_bootstrap = str ''bootstrap.method'', sr_trust = str ''trust'',
          sr_rootfs_url = salt_subst (str ''bootstrap.url'') ''{arch}'' arch 0, sr_rootfs_sha256 = str ''bootstrap.sha256'',
          sr_rootfs_strip = c_int (salt_toml_int (Some t) ''bootstrap.strip'' 0),
          sr_graphics = salt_toml_bool (Some t) ''integration.graphics'' False, sr_audio = salt_toml_bool (Some t) ''integration.audio'' False,
          sr_dbus = salt_toml_bool (Some t) ''integration.dbus'' False,
          sr_repos = (case salt_toml_get (Some t) ''repository'' of
             Some (TArray rs) \<Rightarrow> map (\<lambda>r. (salt_toml_string (Some r) ''name'' [], salt_subst (salt_toml_string (Some r) ''url'' []) ''{arch}'' arch 0)) rs
           | _ \<Rightarrow> [])\<rparr>)"

definition salt_stratum_recipe_load :: "sys \<Rightarrow> string \<Rightarrow> world \<Rightarrow> salt_stratum_recipe option" where
  "salt_stratum_recipe_load y path w = map_option (recipe_of_toml y) (salt_toml_parse_file y path w)"

definition salt_stratum_recipe_lint :: "sys \<Rightarrow> string \<Rightarrow> world \<Rightarrow> salt_rc \<times> string list" where
  "salt_stratum_recipe_lint y path w =
     (case salt_stratum_recipe_load y path w of
        None \<Rightarrow> (SALT_ERR, [''recipe could not be parsed''])
      | Some r \<Rightarrow>
          (let problems = map snd (filter (\<lambda>p. fst p = []) [(sr_name r, ''missing name''), (sr_family r, ''missing family''),
                 (sr_arch r, ''missing arch''), (sr_root r, ''missing root''), (sr_package_manager r, ''missing package_manager''),
                 (sr_bootstrap r, ''missing bootstrap method'')])
           in (if problems = [] then SALT_OK else SALT_ERR, problems)))"

section \<open>The registry\<close>

definition stratum_of_recipe :: "int \<Rightarrow> salt_stratum_recipe \<Rightarrow> salt_stratum" where
  "stratum_of_recipe now r = \<lparr>sm_name = sr_name r, sm_family = sr_family r, sm_arch = sr_arch r, sm_root = sr_root r,
     sm_package_manager = sr_package_manager r, sm_bootstrap = sr_bootstrap r, sm_trust = sr_trust r, sm_state = ''active'',
     sm_graphics = sr_graphics r, sm_audio = sr_audio r, sm_dbus = sr_dbus r, sm_created = now\<rparr>"

definition del_repos :: "string \<Rightarrow> strata_db \<Rightarrow> strata_db" where
  "del_repos n d = d\<lparr>sd_repos := filter (\<lambda>x. fst x \<noteq> n) (sd_repos d)\<rparr>"

definition salt_stratum_register :: "strata_env \<Rightarrow> salt_stratum_recipe \<Rightarrow> strata_state \<Rightarrow> salt_rc \<times> strata_state" where
  "salt_stratum_register e r s =
     (if \<not> se_sql e InsStratum then (SALT_ERR, s)
      else let s1 = upd_sdb (\<lambda>d. d\<lparr>sd_strata := stratum_of_recipe (se_now e) r # filter (\<lambda>x. sm_name x \<noteq> sr_name r) (sd_strata d)\<rparr>) s;
               s2 = sql_try e DelRepos (del_repos (sr_name r)) s1
           in (SALT_OK, fold (\<lambda>x. sql_try e InsRepo (\<lambda>d. d\<lparr>sd_repos := sd_repos d @ [(sr_name r, x)]\<rparr>)) (sr_repos r) s2))"

definition salt_stratum_unregister :: "strata_env \<Rightarrow> string \<Rightarrow> strata_state \<Rightarrow> salt_rc \<times> strata_state" where
  "salt_stratum_unregister e n s =
     (SALT_OK, sql_try e DelRepos (del_repos n) (sql_try e DelStratum (\<lambda>d. d\<lparr>sd_strata := filter (\<lambda>x. sm_name x \<noteq> n) (sd_strata d)\<rparr>) s))"

definition salt_stratum_get :: "strata_state \<Rightarrow> string \<Rightarrow> salt_stratum option" where
  "salt_stratum_get s n = find (\<lambda>x. sm_name x = n) (sd_strata (ss_db s))"

definition salt_stratum_list_all :: "strata_state \<Rightarrow> salt_stratum list" where
  "salt_stratum_list_all s = sort_key sm_name (sd_strata (ss_db s))"

definition salt_stratum_set_state :: "strata_env \<Rightarrow> string \<Rightarrow> string \<Rightarrow> strata_state \<Rightarrow> salt_rc \<times> strata_state" where
  "salt_stratum_set_state e n st s =
     (if se_sql e UpdState
      then (SALT_OK, upd_sdb (\<lambda>d. d\<lparr>sd_strata := map (\<lambda>x. if sm_name x = n then x\<lparr>sm_state := st\<rparr> else x) (sd_strata d)\<rparr>) s)
      else (SALT_ERR, s))"

definition stratum_exists :: "strata_state \<Rightarrow> string \<Rightarrow> bool" where
  "stratum_exists s n = list_ex (\<lambda>x. sm_name x = n) (sd_strata (ss_db s))"

definition salt_stratum_name_ok :: "string \<Rightarrow> bool" where
  "salt_stratum_name_ok n \<longleftrightarrow> n \<noteq> [] \<and> hd n \<noteq> CHR ''-'' \<and> hd n \<noteq> CHR ''.'' \<and>
     list_all (\<lambda>c. islower c \<or> isupper c \<or> isdigit c \<or> c = CHR ''.'' \<or> c = CHR ''_'' \<or> c = CHR ''-'') n"

section \<open>Exposed commands\<close>

definition shim_dir :: "string \<Rightarrow> string" where
  "shim_dir root = salt_join_path root ''usr/local/salt/shims''"

definition shim_of :: "string \<Rightarrow> string \<Rightarrow> string" where
  "shim_of root alias = salt_join_path (shim_dir root) alias"

definition shim_text :: "string \<Rightarrow> string \<Rightarrow> string \<Rightarrow> string" where
  "shim_text verb stratum command =
     ''#!/bin/sh'' @ NL # ''exec salt '' @ verb @ '' '' @ stratum @ '' '' @ command @ '' '' @ DQ # ''$@'' @ DQ # [NL]"

definition put_exposed :: "salt_exposed \<Rightarrow> strata_db \<Rightarrow> strata_db" where
  "put_exposed x d = d\<lparr>sd_exposed := x # filter (\<lambda>y. ex_alias y \<noteq> ex_alias x) (sd_exposed d)\<rparr>"

text \<open>The common part of \<^verbatim>\<open>salt_expose_add\<close> and \<^verbatim>\<open>salt_expose_pm\<close>: the shim, then the row.\<close>

definition expose_with :: "strata_env \<Rightarrow> string \<Rightarrow> string \<Rightarrow> string \<Rightarrow> string \<Rightarrow> string \<Rightarrow> string \<Rightarrow> strata_state \<Rightarrow> salt_rc \<times> strata_state" where
  "expose_with e verb root stratum command alias kind s =
     (let shimpath = shim_of root alias in
      if \<not> stratum_exists s stratum then (SALT_ERR_NOTFOUND, s)
      else if \<not> se_write_ok e shimpath then (SALT_ERR_IO, s)
      else let s1 = put_sfile shimpath (shim_text verb stratum command) s
           in if \<not> se_sql e InsExposed then (SALT_ERR, s1)
              else (SALT_OK, upd_sdb (put_exposed \<lparr>ex_alias = alias, ex_stratum = stratum, ex_command = command, ex_kind = kind,
                       ex_shim_path = shimpath, ex_created = se_now e\<rparr>) s1))"

definition salt_expose_add :: "strata_env \<Rightarrow> string \<Rightarrow> string \<Rightarrow> string \<Rightarrow> string \<Rightarrow> string \<Rightarrow> strata_state \<Rightarrow> salt_rc \<times> strata_state" where
  "salt_expose_add e root stratum command alias kind s = expose_with e ''run'' root stratum command alias kind s"

definition salt_expose_pm :: "strata_env \<Rightarrow> string \<Rightarrow> string \<Rightarrow> string \<Rightarrow> strata_state \<Rightarrow> salt_rc \<times> strata_state" where
  "salt_expose_pm e root stratum binary s = expose_with e ''pm'' root stratum binary binary ''pm'' s"

definition host_has_command :: "string \<Rightarrow> string \<Rightarrow> strata_state \<Rightarrow> bool" where
  "host_has_command root name s =
     list_ex (\<lambda>d. ss_files s (salt_join_path (salt_join_path root d) name) \<noteq> None) [''usr/bin'', ''bin'', ''usr/local/bin'', ''usr/sbin'', ''sbin'']"

definition exposed_alias_exists :: "strata_env \<Rightarrow> strata_state \<Rightarrow> string \<Rightarrow> bool" where
  "exposed_alias_exists e s alias \<longleftrightarrow> se_sql e SelExposed \<and> list_ex (\<lambda>x. ex_alias x = alias) (sd_exposed (ss_db s))"

definition expose_entry :: "strata_env \<Rightarrow> string \<Rightarrow> string \<Rightarrow> string \<times> bool \<Rightarrow> nat \<times> strata_state \<Rightarrow> nat \<times> strata_state" where
  "expose_entry e root stratum d ns =
     (let (n, s) = ns; name = fst d in
      if starts_with name ''.'' \<or> \<not> snd d \<or> host_has_command root name s \<or> exposed_alias_exists e s name then ns
      else let (rc, s1) = salt_expose_add e root stratum name name ''cli'' s in (if rc = SALT_OK then n + 1 else n, s1))"

definition stratum_base :: "string \<Rightarrow> salt_stratum \<Rightarrow> string" where
  "stratum_base root st = (if root \<noteq> ''/'' then salt_join_path root (sm_root st) else sm_root st)"

definition salt_expose_all :: "strata_env \<Rightarrow> string \<Rightarrow> salt_stratum \<Rightarrow> strata_state \<Rightarrow> salt_rc \<times> nat \<times> strata_state" where
  "salt_expose_all e root st s =
     (if \<not> stratum_exists s (sm_name st) then (SALT_ERR_NOTFOUND, 0, s)
      else (SALT_OK, fold (\<lambda>b ns. case se_dir e (salt_join_path (stratum_base root st) b) of
                                     None \<Rightarrow> ns | Some ds \<Rightarrow> fold (expose_entry e root (sm_name st)) ds ns)
                       [''usr/bin'', ''bin'', ''usr/local/bin''] (0, s)))"

definition salt_expose_remove :: "strata_env \<Rightarrow> string \<Rightarrow> strata_state \<Rightarrow> salt_rc \<times> strata_state" where
  "salt_expose_remove e alias s =
     (case find (\<lambda>x. ex_alias x = alias) (sd_exposed (ss_db s)) of
        None \<Rightarrow> (SALT_ERR_NOTFOUND, s)
      | Some x \<Rightarrow>
          (let s1 = (if ex_shim_path x \<noteq> [] then del_sfile e (ex_shim_path x) s else s)
           in (SALT_OK, sql_try e DelExposed (\<lambda>d. d\<lparr>sd_exposed := filter (\<lambda>y. ex_alias y \<noteq> alias) (sd_exposed d)\<rparr>) s1)))"

definition salt_expose_list :: "strata_state \<Rightarrow> salt_exposed list" where
  "salt_expose_list s = sort_key ex_alias (sd_exposed (ss_db s))"

text \<open>The lines of a desktop entry, with the command to run replaced.\<close>

fun desktop_lines :: "string \<Rightarrow> bool \<Rightarrow> string \<Rightarrow> string" where
  "desktop_lines name at_start [] = []"
| "desktop_lines name at_start (c # cs) =
     (if at_start \<and> starts_with (c # cs) ''Exec='' then ''Exec=salt run '' @ name @ '' '' @ desktop_lines name False (drop 4 cs)
      else c # desktop_lines name (c = NL) cs)"

definition salt_expose_desktop :: "strata_env \<Rightarrow> salt_stratum \<Rightarrow> string \<Rightarrow> string \<Rightarrow> strata_state \<Rightarrow> salt_rc \<times> strata_state" where
  "salt_expose_desktop e st root app s =
     (let src = salt_join_path (stratum_base root st) (''usr/share/applications/'' @ app @ ''.desktop'');
          dst = salt_join_path root (''usr/local/share/applications/'' @ sm_name st @ ''-'' @ app @ ''.desktop'')
      in case ss_files s src of
           None \<Rightarrow> (SALT_ERR_NOTFOUND, s)
         | Some content \<Rightarrow>
             if \<not> se_write_ok e dst then (SALT_ERR_IO, s)
             else (SALT_OK, snd (salt_expose_add e root (sm_name st) app app ''cli''
                     (put_sfile dst (desktop_lines (sm_name st) True content) s))))"

section \<open>Snapshots\<close>

definition stratum_target :: "string \<Rightarrow> string \<Rightarrow> string" where
  "stratum_target root recipe_root = (if root = ''/'' then recipe_root else salt_join_path root recipe_root)"

record salt_strata_ctx =
  sx_root :: string
  sx_strata_root :: string
  sx_cache_dir :: string
  sx_use_btrfs :: bool

text \<open>\<open>btrfs\<close>: whether the tool is there and the directory is on such a file system.\<close>

definition salt_strata_ctx_init :: "(string \<Rightarrow> bool) \<Rightarrow> string \<Rightarrow> salt_strata_ctx" where
  "salt_strata_ctx_init btrfs root =
     (let sroot = (if root = ''/'' then ''/strata'' else salt_join_path root ''strata'')
      in \<lparr>sx_root = root, sx_strata_root = sroot, sx_cache_dir = salt_join_path root ''var/lib/salt/cache/strata'', sx_use_btrfs = btrfs sroot\<rparr>)"

definition snap_dir :: "salt_strata_ctx \<Rightarrow> string \<Rightarrow> string" where
  "snap_dir c name = salt_join_path (sx_strata_root c) (''.snapshots/'' @ name)"

definition sq :: "string \<Rightarrow> string" where
  "sq s = CHR 0x27 # s @ [CHR 0x27]"

definition salt_stratum_snapshot_create :: "strata_env \<Rightarrow> salt_strata_ctx \<Rightarrow> string \<Rightarrow> string \<Rightarrow> strata_state \<Rightarrow> (salt_rc \<times> int) \<times> strata_state" where
  "salt_stratum_snapshot_create e c name label s =
     (case (salt_stratum_get s name, se_stamp e) of
        (None, _) \<Rightarrow> ((SALT_ERR_NOTFOUND, 0), s)
      | (Some st, None) \<Rightarrow> ((SALT_ERR, 0), s)
      | (Some st, Some ts) \<Rightarrow>
          (let target = stratum_target (sx_root c) (sm_root st);
               path = salt_join_path (snap_dir c name) (label @ ''-'' @ ts);
               kind = (if sx_use_btrfs c then ''btrfs'' else ''copy'');
               (ok, s1) = se_shell e (if sx_use_btrfs c then ''btrfs subvolume snapshot -r '' @ sq target @ '' '' @ sq path
                             else ''cp -ax --reflink=auto '' @ sq (target @ ''/.'') @ '' '' @ sq (path @ ''/'')) s
           in if \<not> ok then ((SALT_ERR, 0), s1)
              else if \<not> se_sql e InsSnapshot then ((SALT_ERR, 0), s1)
              else let i = sd_snap_seq (ss_db s1) + 1
                   in ((SALT_OK, i), upd_sdb (\<lambda>d. d\<lparr>sd_snap_seq := i, sd_snapshots := sd_snapshots d @ [\<lparr>ns_id = i, ns_stratum = name,
                          ns_label = label, ns_path = path, ns_kind = kind, ns_time = se_now e\<rparr>]\<rparr>) s1)))"

definition salt_stratum_snapshot_list_all :: "strata_state \<Rightarrow> string \<Rightarrow> salt_stratum_snapshot list" where
  "salt_stratum_snapshot_list_all s name =
     rev (sort_key ns_id (filter (\<lambda>x. ns_stratum x = name) (sd_snapshots (ss_db s))))"

definition pick_snapshot :: "strata_state \<Rightarrow> string \<Rightarrow> int \<Rightarrow> salt_stratum_snapshot option" where
  "pick_snapshot s name i =
     (if i > 0 then find (\<lambda>x. ns_stratum x = name \<and> ns_id x = i) (sd_snapshots (ss_db s))
      else case salt_stratum_snapshot_list_all s name of [] \<Rightarrow> None | x # _ \<Rightarrow> Some x)"

definition salt_stratum_rollback :: "strata_env \<Rightarrow> salt_strata_ctx \<Rightarrow> string \<Rightarrow> int \<Rightarrow> strata_state \<Rightarrow> salt_rc \<times> strata_state" where
  "salt_stratum_rollback e c name i s =
     (case salt_stratum_get s name of
        None \<Rightarrow> (SALT_ERR_NOTFOUND, s)
      | Some st \<Rightarrow>
          (let target = stratum_target (sx_root c) (sm_root st); s1 = se_ns_stop e st s in
           case pick_snapshot s1 name i of
             None \<Rightarrow> (SALT_ERR_NOTFOUND, s1)
           | Some sn \<Rightarrow>
               (let (ok, s2) =
                  (if ns_kind sn = ''btrfs'' then
                     let sa = (case se_stamp e of
                                 Some ts \<Rightarrow> snd (se_shell e (''btrfs subvolume snapshot -r '' @ sq target @ '' '' @
                                              sq (snap_dir c name @ ''/prerollback-'' @ ts)) s1)
                               | None \<Rightarrow> s1);
                         sb = snd (se_shell e (''btrfs subvolume delete '' @ sq target) sa)
                     in se_shell e (''btrfs subvolume snapshot '' @ sq (ns_path sn) @ '' '' @ sq target) sb
                   else
                     let sa = snd (se_shell e (''find '' @ sq target @ '' -mindepth 1 -delete'') s1)
                     in se_shell e (if ns_kind sn = ''tar'' then ''tar -xpf '' @ sq (ns_path sn) @ '' -C '' @ sq target
                          else ''cp -a --reflink=auto '' @ sq (ns_path sn @ ''/.'') @ '' '' @ sq (target @ ''/'')) sa)
                in (if ok then SALT_OK else SALT_ERR, s2))))"

text \<open>\<^verbatim>\<open>salt_remove_recursive\<close>: the path and everything below it.\<close>

definition rm_tree :: "string \<Rightarrow> strata_state \<Rightarrow> strata_state" where
  "rm_tree p s = s\<lparr>ss_files := (\<lambda>q. if q = p \<or> starts_with q (p @ ''/'') then None else ss_files s q)\<rparr>"

definition drop_shims :: "strata_env \<Rightarrow> string \<Rightarrow> strata_state \<Rightarrow> strata_state" where
  "drop_shims e name s =
     fold (\<lambda>x. if ex_shim_path x \<noteq> [] then del_sfile e (ex_shim_path x) else id) (filter (\<lambda>x. ex_stratum x = name) (sd_exposed (ss_db s))) s"

definition salt_stratum_destroy :: "strata_env \<Rightarrow> salt_strata_ctx \<Rightarrow> string \<Rightarrow> strata_state \<Rightarrow> salt_rc \<times> strata_state" where
  "salt_stratum_destroy e c name s =
     (case salt_stratum_get s name of
        None \<Rightarrow> (SALT_ERR_NOTFOUND, s)
      | Some st \<Rightarrow>
          (let target = stratum_target (sx_root c) (sm_root st);
               s1 = se_ns_stop e st s;
               s2 = (if sx_use_btrfs c
                     then let (ok, sa) = se_shell e (''btrfs subvolume delete '' @ sq target) s1 in if ok then sa else rm_tree target sa
                     else rm_tree target s1);
               s3 = drop_shims e name (rm_tree (snap_dir c name) s2);
               s4 = sql_try e DelStratum (\<lambda>d. d\<lparr>sd_strata := filter (\<lambda>x. sm_name x \<noteq> name) (sd_strata d)\<rparr>) s3;
               s5 = sql_try e DelRepos (del_repos name) s4;
               s6 = sql_try e DelSnapshots (\<lambda>d. d\<lparr>sd_snapshots := filter (\<lambda>x. ns_stratum x \<noteq> name) (sd_snapshots d)\<rparr>) s5
           in (SALT_OK, sql_try e DelExposed (\<lambda>d. d\<lparr>sd_exposed := filter (\<lambda>x. ex_stratum x \<noteq> name) (sd_exposed d)\<rparr>) s6)))"

section \<open>Providers\<close>

definition last_history :: "strata_state \<Rightarrow> string \<Rightarrow> int" where
  "last_history s cmp = fold (\<lambda>h m. if ph_component h = cmp \<and> ph_id h > m then ph_id h else m) (sd_history (ss_db s)) 0"

definition salt_provider_set :: "strata_env \<Rightarrow> string \<Rightarrow> string \<Rightarrow> string \<Rightarrow> string \<Rightarrow> strata_state \<Rightarrow> salt_rc \<times> strata_state" where
  "salt_provider_set e cmp prov src trust s =
     (let prior = last_history s cmp in
      if \<not> se_sql e InsHistory then (SALT_ERR, s)
      else let i = sd_hist_seq (ss_db s) + 1;
               s1 = upd_sdb (\<lambda>d. d\<lparr>sd_hist_seq := i, sd_history := sd_history d @
                      [\<lparr>ph_id = i, ph_component = cmp, ph_provider = prov, ph_source = src, ph_trust = trust\<rparr>]\<rparr>) s
           in if \<not> se_sql e InsProvider then (SALT_ERR, s1)
              else (SALT_OK, upd_sdb (\<lambda>d. d\<lparr>sd_providers := \<lparr>pv_component = cmp, pv_provider = prov, pv_source = src, pv_trust = trust,
                       pv_rollback_target = prior, pv_time = se_now e\<rparr> # filter (\<lambda>p. pv_component p \<noteq> cmp) (sd_providers d)\<rparr>) s1))"

definition salt_provider_get :: "strata_state \<Rightarrow> string \<Rightarrow> salt_provider option" where
  "salt_provider_get s cmp = find (\<lambda>p. pv_component p = cmp) (sd_providers (ss_db s))"

definition salt_provider_list_all :: "strata_state \<Rightarrow> salt_provider list" where
  "salt_provider_list_all s = sort_key pv_component (sd_providers (ss_db s))"

definition salt_provider_rollback :: "strata_env \<Rightarrow> string \<Rightarrow> strata_state \<Rightarrow> salt_rc \<times> strata_state" where
  "salt_provider_rollback e cmp s =
     (let target = (case salt_provider_get s cmp of Some p \<Rightarrow> pv_rollback_target p | None \<Rightarrow> 0) in
      if target \<le> 0 then (SALT_ERR, s)
      else case find (\<lambda>h. ph_id h = target) (sd_history (ss_db s)) of
             None \<Rightarrow> (SALT_ERR_NOTFOUND, s)
           | Some h \<Rightarrow> salt_provider_set e (ph_component h) (ph_provider h) (ph_source h) (ph_trust h) s)"

section \<open>Commands\<close>

definition basename_of :: "string \<Rightarrow> string" where
  "basename_of p = rev (takeWhile (\<lambda>c. c \<noteq> CHR ''/'') (rev p))"

fun after_as :: "string list \<Rightarrow> string" where
  "after_as (a # b # l) = (if a = ''as'' then b else after_as (b # l))"
| "after_as _ = []"

definition rc_code :: "salt_rc \<times> 'a \<Rightarrow> int \<times> 'a" where
  "rc_code r = (if fst r = SALT_OK then 0 else 1, snd r)"

definition cmd_expose :: "strata_env \<Rightarrow> string \<Rightarrow> string list \<Rightarrow> strata_state \<Rightarrow> int \<times> strata_state" where
  "cmd_expose e root args s =
     (case args of
        stratum # command # etc \<Rightarrow>
          (let a = after_as etc; alias = (if a = [] then basename_of command else a)
           in if \<not> se_open e then (1, s) else rc_code (salt_expose_add e root stratum command alias ''cli'' s))
      | _ \<Rightarrow> (2, s))"

definition cmd_unexpose :: "strata_env \<Rightarrow> string list \<Rightarrow> strata_state \<Rightarrow> int \<times> strata_state" where
  "cmd_unexpose e args s =
     (case args of [] \<Rightarrow> (2, s) | a # _ \<Rightarrow> if \<not> se_open e then (1, s) else rc_code (salt_expose_remove e a s))"

definition cmd_expose_all :: "strata_env \<Rightarrow> string \<Rightarrow> string list \<Rightarrow> strata_state \<Rightarrow> int \<times> strata_state" where
  "cmd_expose_all e root args s =
     (case args of
        [] \<Rightarrow> (2, s)
      | n # _ \<Rightarrow>
          if \<not> se_open e then (1, s)
          else case salt_stratum_get s n of
                 None \<Rightarrow> (1, s)
               | Some st \<Rightarrow> (let (rc, _, s1) = salt_expose_all e root st s in rc_code (rc, s1)))"

definition cmd_expose_desktop :: "strata_env \<Rightarrow> string \<Rightarrow> string list \<Rightarrow> strata_state \<Rightarrow> int \<times> strata_state" where
  "cmd_expose_desktop e root args s =
     (case args of
        n # app # _ \<Rightarrow>
          if \<not> se_open e then (1, s)
          else (case salt_stratum_get s n of None \<Rightarrow> (1, s) | Some st \<Rightarrow> rc_code (salt_expose_desktop e st root app s))
      | _ \<Rightarrow> (2, s))"

text \<open>\<open>yes\<close>: the answer to the question whether to adopt the provider.\<close>

definition cmd_provider :: "bool \<Rightarrow> strata_env \<Rightarrow> string list \<Rightarrow> strata_state \<Rightarrow> int \<times> strata_state" where
  "cmd_provider yes e args s =
     (case args of
        [] \<Rightarrow> (2, s)
      | sub # rest \<Rightarrow>
          if \<not> se_open e then (1, s)
          else if sub = ''list'' then (0, s)
          else if sub = ''set'' then
            (case rest of
               cmp # src # etc \<Rightarrow>
                 (let prov = takeWhile (\<lambda>c. c \<noteq> CHR ''/'') src;
                      trust = (case etc of t # _ \<Rightarrow> t | [] \<Rightarrow> if src = ''native'' then ''native'' else ''foreign'')
                  in if \<not> yes then (1, s) else rc_code (salt_provider_set e cmp prov src trust s))
             | _ \<Rightarrow> (2, s))
          else if sub = ''status'' then (case rest of [] \<Rightarrow> 0 | cmp # _ \<Rightarrow> if salt_provider_get s cmp = None then 1 else 0, s)
          else if sub = ''rollback'' then (case rest of [] \<Rightarrow> (2, s) | cmp # _ \<Rightarrow> rc_code (salt_provider_rollback e cmp s))
          else (2, s))"

section \<open>Shims and rows\<close>

text \<open>A name that is one component of a path.\<close>

definition name_ok :: "string \<Rightarrow> bool" where
  "name_ok a \<longleftrightarrow> a \<noteq> [] \<and> CHR ''/'' \<notin> set a \<and> a \<noteq> ''.'' \<and> a \<noteq> ''..''"

definition row_verb :: "salt_exposed \<Rightarrow> string" where
  "row_verb x = (if ex_kind x = ''pm'' then ''pm'' else ''run'')"

definition shim_ok :: "string \<Rightarrow> strata_state \<Rightarrow> salt_exposed \<Rightarrow> bool" where
  "shim_ok root s x \<longleftrightarrow> name_ok (ex_alias x) \<and> ex_shim_path x = shim_of root (ex_alias x) \<and>
     ss_files s (ex_shim_path x) = Some (shim_text (row_verb x) (ex_stratum x) (ex_command x))"

definition shims_ok :: "string \<Rightarrow> strata_state \<Rightarrow> bool" where
  "shims_ok root s \<longleftrightarrow> distinct (map ex_alias (sd_exposed (ss_db s))) \<and> list_all (shim_ok root s) (sd_exposed (ss_db s))"

definition root_pre :: "string \<Rightarrow> string" where
  "root_pre root = (if root = [] then [] else root @ (if last root = CHR ''/'' then [] else ''/''))"

lemma join_usr: "salt_join_path root (CHR ''u'' # x) = root_pre root @ CHR ''u'' # x"
  by (simp add: salt_join_path_def root_pre_def)

lemma dropWhile_slash: "name_ok a \<Longrightarrow> dropWhile (\<lambda>c. c = CHR ''/'') a = a"
  by (cases a) (auto simp: name_ok_def)

lemma shim_of_eq: "name_ok a \<Longrightarrow> shim_of root a = root_pre root @ ''usr/local/salt/shims/'' @ a"
  unfolding shim_of_def shim_dir_def join_usr
  by (simp add: salt_join_path_def dropWhile_slash) (simp add: name_ok_def)

lemma shim_of_inj: "name_ok a \<Longrightarrow> name_ok b \<Longrightarrow> shim_of root a = shim_of root b \<longleftrightarrow> a = b"
  by (auto simp: shim_of_eq)

lemma desktop_not_shim: "name_ok a \<Longrightarrow> salt_join_path root (''usr/local/share/applications/'' @ x) \<noteq> shim_of root a"
  by (simp add: shim_of_eq join_usr)

lemma shims_ok_files:
  assumes "shims_ok root s" "ss_db s' = ss_db s" "\<And>a. name_ok a \<Longrightarrow> ss_files s' (shim_of root a) = ss_files s (shim_of root a)"
  shows "shims_ok root s'"
  using assms by (auto simp: shims_ok_def list_all_iff shim_ok_def)

lemma expose_with_ok:
  assumes "shims_ok root s" "se_sql e InsExposed" "name_ok alias" "kind = ''pm'' \<longleftrightarrow> verb = ''pm''" "verb = ''run'' \<or> verb = ''pm''"
  shows "shims_ok root (snd (expose_with e verb root stratum command alias kind s))"
proof (cases "stratum_exists s stratum \<and> se_write_ok e (shim_of root alias)")
  case True
  let ?x = "\<lparr>ex_alias = alias, ex_stratum = stratum, ex_command = command, ex_kind = kind, ex_shim_path = shim_of root alias, ex_created = se_now e\<rparr>"
  let ?s = "upd_sdb (put_exposed ?x) (put_sfile (shim_of root alias) (shim_text verb stratum command) s)"
  have "shim_ok root ?s ?x" using assms(3-5) by (auto simp: shim_ok_def row_verb_def put_sfile_def)
  moreover have "shim_ok root ?s y" if "y \<in> set (sd_exposed (ss_db s))" "ex_alias y \<noteq> alias" for y
  proof -
    have y: "shim_ok root s y" using that(1) assms(1) by (auto simp: shims_ok_def list_all_iff)
    then have "shim_of root (ex_alias y) \<noteq> shim_of root alias" using shim_of_inj assms(3) that(2) by (auto simp: shim_ok_def)
    then show ?thesis using y by (auto simp: shim_ok_def put_sfile_def)
  qed
  ultimately have "shims_ok root ?s"
    using assms(1) by (auto simp: shims_ok_def put_exposed_def list_all_iff put_sfile_def distinct_map_filter)
  then show ?thesis using True assms(2) by (simp add: expose_with_def Let_def)
qed (use assms(1) in \<open>auto simp: expose_with_def Let_def\<close>)

lemma expose_add_ok:
  "shims_ok root s \<Longrightarrow> se_sql e InsExposed \<Longrightarrow> name_ok alias \<Longrightarrow> kind \<noteq> ''pm'' \<Longrightarrow>
   shims_ok root (snd (salt_expose_add e root stratum command alias kind s))"
  unfolding salt_expose_add_def by (rule expose_with_ok) simp_all

lemma expose_pm_ok:
  "shims_ok root s \<Longrightarrow> se_sql e InsExposed \<Longrightarrow> name_ok binary \<Longrightarrow> shims_ok root (snd (salt_expose_pm e root stratum binary s))"
  unfolding salt_expose_pm_def by (rule expose_with_ok) simp_all

text \<open>A directory lists names without a slash.\<close>

definition dir_names_ok :: "strata_env \<Rightarrow> bool" where
  "dir_names_ok e \<longleftrightarrow> (\<forall>p ds. se_dir e p = Some ds \<longrightarrow> (\<forall>d \<in> set ds. fst d \<noteq> [] \<and> CHR ''/'' \<notin> set (fst d)))"

lemma fold_inv: "P s \<Longrightarrow> (\<And>x s. x \<in> set xs \<Longrightarrow> P s \<Longrightarrow> P (f x s)) \<Longrightarrow> P (fold f xs s)"
  by (induction xs arbitrary: s) simp_all

lemma expose_entry_ok:
  assumes "shims_ok root (snd ns)" "se_sql e InsExposed" "fst d \<noteq> []" "CHR ''/'' \<notin> set (fst d)"
  shows "shims_ok root (snd (expose_entry e root stratum d ns))"
proof -
  have "name_ok (fst d)" if "\<not> starts_with (fst d) ''.''" using that assms(3,4) by (cases "fst d") (auto simp: name_ok_def starts_with_iff)
  then show ?thesis using assms(1,2) expose_add_ok [of root "snd ns" e "fst d" "''cli''" stratum "fst d"]
    by (auto simp: expose_entry_def Let_def split: prod.splits)
qed

lemma expose_all_ok:
  assumes "shims_ok root s" "se_sql e InsExposed" "dir_names_ok e"
  shows "shims_ok root (snd (snd (salt_expose_all e root st s)))"
proof -
  have "shims_ok root (snd (fold (\<lambda>b ns. case se_dir e (salt_join_path (stratum_base root st) b) of
      None \<Rightarrow> ns | Some ds \<Rightarrow> fold (expose_entry e root (sm_name st)) ds ns) bs (0, s)))" for bs
    by (rule fold_inv [where P = "\<lambda>ns. shims_ok root (snd ns)"])
      (use assms in \<open>auto split: option.split simp: dir_names_ok_def intro!: fold_inv [where P = "\<lambda>ns. shims_ok root (snd ns)"] expose_entry_ok\<close>)
  from this [of "[''usr/bin'', ''bin'', ''usr/local/bin'']"] show ?thesis
    using assms(1) unfolding salt_expose_all_def by (cases "stratum_exists s (sm_name st)") (simp_all only: snd_conv if_True if_False not_True_eq_False not_False_eq_True)
qed

lemma expose_desktop_ok:
  assumes "shims_ok root s" "se_sql e InsExposed" "name_ok app"
  shows "shims_ok root (snd (salt_expose_desktop e st root app s))"
proof -
  have "shims_ok root (put_sfile (salt_join_path root (''usr/local/share/applications/'' @ sm_name st @ ''-'' @ app @ ''.desktop'')) d s)" for d
    by (rule shims_ok_files [OF assms(1)]) (use desktop_not_shim [of _ root] in \<open>force simp: put_sfile_def\<close>)+
  then show ?thesis using assms by (auto simp: salt_expose_desktop_def Let_def split: option.split intro!: expose_add_ok)
qed

lemma expose_remove_ok:
  assumes "shims_ok root s" "se_sql e DelExposed"
  shows "shims_ok root (snd (salt_expose_remove e alias s))"
proof (cases "find (\<lambda>x. ex_alias x = alias) (sd_exposed (ss_db s))")
  case None
  then show ?thesis using assms(1) by (simp add: salt_expose_remove_def)
next
  case (Some x)
  let ?s1 = "if ex_shim_path x \<noteq> [] then del_sfile e (ex_shim_path x) s else s"
  have x: "x \<in> set (sd_exposed (ss_db s))" "ex_alias x = alias" using Some by (auto simp: find_Some_iff)
  then have sx: "name_ok alias" "ex_shim_path x = shim_of root alias" using assms(1) by (auto simp: shims_ok_def list_all_iff shim_ok_def)
  have "shim_ok root (upd_sdb g ?s1) y" if "y \<in> set (sd_exposed (ss_db s))" "ex_alias y \<noteq> alias" for y g
  proof -
    have y: "shim_ok root s y" using that(1) assms(1) by (auto simp: shims_ok_def list_all_iff)
    then have "ex_shim_path y \<noteq> ex_shim_path x" using shim_of_inj sx that(2) by (auto simp: shim_ok_def)
    then show ?thesis using y by (auto simp: shim_ok_def del_sfile_def)
  qed
  moreover have "ss_db ?s1 = ss_db s" by (simp add: del_sfile_def)
  ultimately show ?thesis using Some assms by (auto simp: salt_expose_remove_def Let_def sql_try_def shims_ok_def list_all_iff distinct_map_filter)
qed

text \<open>The commands that change what is exposed, with names that are one component of a path.\<close>

inductive expose_reach :: "strata_env \<Rightarrow> string \<Rightarrow> strata_state \<Rightarrow> strata_state \<Rightarrow> bool"
  for e root s0 where
  start: "expose_reach e root s0 s0"
| expose: "expose_reach e root s0 s \<Longrightarrow> name_ok alias \<Longrightarrow> kind \<noteq> ''pm'' \<Longrightarrow> expose_reach e root s0 (snd (salt_expose_add e root st c alias kind s))"
| pm: "expose_reach e root s0 s \<Longrightarrow> name_ok b \<Longrightarrow> expose_reach e root s0 (snd (salt_expose_pm e root st b s))"
| all: "expose_reach e root s0 s \<Longrightarrow> expose_reach e root s0 (snd (snd (salt_expose_all e root stm s)))"
| desktop: "expose_reach e root s0 s \<Longrightarrow> name_ok app \<Longrightarrow> expose_reach e root s0 (snd (salt_expose_desktop e stm root app s))"
| remove: "expose_reach e root s0 s \<Longrightarrow> expose_reach e root s0 (snd (salt_expose_remove e alias s))"

text \<open>
  C38.  Every exposed command has its shim: over every sequence of operations that expose commands, package managers,
  whole strata and desktop entries or take exposures back, an alias is exposed at most once and its shim is the
  script that runs the recorded command in the recorded stratum (through \<^verbatim>\<open>salt pm\<close> for a package manager, through
  \<^verbatim>\<open>salt run\<close> for everything else).  The statements that insert and delete rows of exposed commands succeed; the
  aliases are single components of a path.  Writing and removing files may fail.
\<close>

theorem shims_match_rows:
  assumes "expose_reach e root s0 s" "shims_ok root s0" "se_sql e InsExposed" "se_sql e DelExposed" "dir_names_ok e"
  shows "shims_ok root s"
  using assms(1)
proof (induction rule: expose_reach.induct)
  case (expose s al kind st c) then show ?case by (intro expose_add_ok assms(3))
next
  case (pm s b st) then show ?case by (intro expose_pm_ok assms(3))
next
  case (all s stm) then show ?case by (intro expose_all_ok assms(3,5))
next
  case (desktop s app stm) then show ?case by (intro expose_desktop_ok assms(3))
next
  case (remove s al) then show ?case by (intro expose_remove_ok assms(4))
qed (rule assms(2))

section \<open>Providers\<close>

text \<open>The history of a component is numbered by a counter that only grows.\<close>

definition history_ok :: "strata_state \<Rightarrow> bool" where
  "history_ok s \<longleftrightarrow> distinct (map ph_id (sd_history (ss_db s))) \<and> list_all (\<lambda>h. 0 < ph_id h \<and> ph_id h \<le> sd_hist_seq (ss_db s)) (sd_history (ss_db s)) \<and>
     0 \<le> sd_hist_seq (ss_db s)"

text \<open>What is in force for a component: provider, source and trust; and the last entry of the history says the same.\<close>

definition provider_of :: "strata_state \<Rightarrow> string \<Rightarrow> (string \<times> string \<times> string) option" where
  "provider_of s c = map_option (\<lambda>p. (pv_provider p, pv_source p, pv_trust p)) (salt_provider_get s c)"

definition history_of :: "strata_state \<Rightarrow> int \<Rightarrow> (string \<times> string \<times> string \<times> string) option" where
  "history_of s i = map_option (\<lambda>h. (ph_component h, ph_provider h, ph_source h, ph_trust h)) (find (\<lambda>h. ph_id h = i) (sd_history (ss_db s)))"

lemma find_append: "find P (xs @ ys) = (case find P xs of None \<Rightarrow> find P ys | Some x \<Rightarrow> Some x)"
  by (induction xs) auto

lemma last_history_snoc:
  assumes "history_ok s" "salt_provider_set e c p src t s = (SALT_OK, s')"
  shows "last_history s' c = sd_hist_seq (ss_db s) + 1" "history_ok s'" "history_of s' (sd_hist_seq (ss_db s) + 1) = Some (c, p, src, t)"
    "\<And>i. i \<le> sd_hist_seq (ss_db s) \<Longrightarrow> history_of s' i = history_of s i" "sd_hist_seq (ss_db s') = sd_hist_seq (ss_db s) + 1"
    "salt_provider_get s' c \<noteq> None" "provider_of s' c = Some (p, src, t)" "map_option pv_rollback_target (salt_provider_get s' c) = Some (last_history s c)"
proof -
  let ?i = "sd_hist_seq (ss_db s) + 1" and ?h = "sd_history (ss_db s)"
  let ?new = "\<lparr>ph_id = ?i, ph_component = c, ph_provider = p, ph_source = src, ph_trust = t\<rparr>"
  have h: "sd_history (ss_db s') = ?h @ [?new]" "sd_hist_seq (ss_db s') = ?i"
    "sd_providers (ss_db s') = \<lparr>pv_component = c, pv_provider = p, pv_source = src, pv_trust = t, pv_rollback_target = last_history s c, pv_time = se_now e\<rparr> #
      filter (\<lambda>p. pv_component p \<noteq> c) (sd_providers (ss_db s))"
    using assms(2) by (auto simp: salt_provider_set_def Let_def split: if_splits)
  have le: "\<forall>x \<in> set ?h. 0 < ph_id x \<and> ph_id x \<le> sd_hist_seq (ss_db s)" "0 \<le> sd_hist_seq (ss_db s)" "distinct (map ph_id ?h)"
    using assms(1) by (auto simp: history_ok_def list_all_iff)
  have "fold (\<lambda>h m. if ph_component h = c \<and> ph_id h > m then ph_id h else m) hs m \<le> sd_hist_seq (ss_db s)"
    if "\<forall>x \<in> set hs. ph_id x \<le> sd_hist_seq (ss_db s)" "m \<le> sd_hist_seq (ss_db s)" for hs m
    using that by (induction hs arbitrary: m) auto
  then have "fold (\<lambda>h m. if ph_component h = c \<and> ph_id h > m then ph_id h else m) ?h 0 \<le> sd_hist_seq (ss_db s)" using le by blast
  then show "last_history s' c = ?i" by (simp add: last_history_def h)
  show "sd_hist_seq (ss_db s') = ?i" by (rule h)
  show "history_ok s'" using le by (auto simp: history_ok_def h list_all_iff)
  have nf: "find (\<lambda>h. ph_id h = ?i) ?h = None" using le by (auto simp: find_None_iff)
  then show "history_of s' ?i = Some (c, p, src, t)" by (simp add: history_of_def h find_append)
  show "history_of s' i = history_of s i" if "i \<le> sd_hist_seq (ss_db s)" for i
    using that by (auto simp: history_of_def h find_append split: option.split)
  show "salt_provider_get s' c \<noteq> None" "provider_of s' c = Some (p, src, t)" "map_option pv_rollback_target (salt_provider_get s' c) = Some (last_history s c)"
    by (simp_all add: salt_provider_get_def provider_of_def h)
qed

lemma provider_rollback_to:
  assumes "salt_provider_get s c = Some p" "pv_rollback_target p = i" "0 < i" "history_of s i = Some (c, v)"
    "se_sql e InsHistory" "se_sql e InsProvider"
  shows "\<exists>s'. salt_provider_rollback e c s = (SALT_OK, s') \<and> salt_provider_set e c (fst v) (fst (snd v)) (snd (snd v)) s = (SALT_OK, s')"
proof -
  obtain h where "find (\<lambda>h. ph_id h = i) (sd_history (ss_db s)) = Some h" "ph_component h = c" "(ph_provider h, ph_source h, ph_trust h) = v"
    using assms(4) by (auto simp: history_of_def)
  then show ?thesis using assms by (auto simp: salt_provider_rollback_def salt_provider_set_def Let_def)
qed

text \<open>
  Rolling a provider back undoes the last change and can be undone itself: after a component has been given the
  provider \<open>v\<close> and then the provider \<open>u\<close>, \<^verbatim>\<open>salt provider rollback\<close> succeeds and puts \<open>v\<close> in force again, and a second one
  puts \<open>u\<close> back (it does not go further into the history).  The two statements that write the tables succeed.
\<close>

theorem provider_rollback_toggles:
  assumes "history_ok s" "salt_provider_set e c (fst v) (fst (snd v)) (snd (snd v)) s = (SALT_OK, s1)"
    and "salt_provider_set e c (fst u) (fst (snd u)) (snd (snd u)) s1 = (SALT_OK, s2)" "se_sql e InsHistory" "se_sql e InsProvider"
  shows "\<exists>s3 s4. salt_provider_rollback e c s2 = (SALT_OK, s3) \<and> provider_of s3 c = Some v \<and>
    salt_provider_rollback e c s3 = (SALT_OK, s4) \<and> provider_of s4 c = Some u"
proof -
  let ?i = "sd_hist_seq (ss_db s) + 1"
  note A = last_history_snoc [OF assms(1,2)]
  note B = last_history_snoc [OF A(2) assms(3)]
  have i: "0 < ?i" using assms(1) by (simp add: history_ok_def)
  obtain p where p: "salt_provider_get s2 c = Some p" "pv_rollback_target p = ?i" using B(6,8) A(1) by auto
  have "history_of s2 ?i = Some (c, v)" using B(4) [of ?i] A(3,5) by simp
  from provider_rollback_to [OF p i this assms(4,5)] obtain s3 where
    s3: "salt_provider_rollback e c s2 = (SALT_OK, s3)" "salt_provider_set e c (fst v) (fst (snd v)) (snd (snd v)) s2 = (SALT_OK, s3)" by blast
  note C = last_history_snoc [OF B(2) s3(2)]
  obtain q where q: "salt_provider_get s3 c = Some q" "pv_rollback_target q = ?i + 1" using C(6,8) B(1) A(5) by auto
  have "history_of s3 (?i + 1) = Some (c, u)" using C(4) [of "?i + 1"] B(3,5) A(5) by simp
  from provider_rollback_to [OF q _ this assms(4,5)] i obtain s4 where
    s4: "salt_provider_rollback e c s3 = (SALT_OK, s4)" "salt_provider_set e c (fst u) (fst (snd u)) (snd (snd u)) s3 = (SALT_OK, s4)" by auto
  note D = last_history_snoc [OF C(2) s4(2)]
  show ?thesis using s3(1) C(7) s4(1) D(7) by simp
qed

section \<open>An example\<close>

definition ex_strata_env :: strata_env where
  "ex_strata_env = \<lparr>se_sql = \<lambda>q. True, se_open = True, se_write_ok = \<lambda>p. True, se_unlink_ok = \<lambda>p. True,
     se_dir = \<lambda>p. if p = ''/strata/arch/usr/bin'' then Some [(''htop'', True)] else None, se_shell = \<lambda>c s. (True, s),
     se_ns_stop = \<lambda>st s. s, se_now = 7, se_stamp = Some ''t''\<rparr>"

definition ex_arch :: salt_stratum_recipe where
  "ex_arch = \<lparr>sr_name = ''arch'', sr_family = ''arch'', sr_arch = ''x86_64'', sr_root = ''/strata/arch'', sr_package_manager = ''pacman'',
     sr_bootstrap = ''tar'', sr_trust = [], sr_rootfs_url = [], sr_rootfs_sha256 = [], sr_rootfs_strip = 0, sr_graphics = False,
     sr_audio = False, sr_dbus = False, sr_repos = []\<rparr>"

definition ex_strata_empty :: strata_state where
  "ex_strata_empty = \<lparr>ss_db = \<lparr>sd_strata = [], sd_repos = [], sd_snapshots = [], sd_snap_seq = 0, sd_exposed = [], sd_providers = [],
     sd_history = [], sd_hist_seq = 0\<rparr>, ss_files = \<lambda>p. None\<rparr>"

definition ex_strata_start :: strata_state where
  "ex_strata_start = snd (salt_stratum_register ex_strata_env ex_arch ex_strata_empty)"

definition ex_strata_exposed :: strata_state where
  "ex_strata_exposed = snd (salt_expose_pm ex_strata_env ''/'' ''arch'' ''pacman''
     (snd (snd (salt_expose_all ex_strata_env ''/'' (stratum_of_recipe 7 ex_arch) ex_strata_start))))"

lemma ex_strata_start_simps: "ss_db ex_strata_start = (ss_db ex_strata_empty)\<lparr>sd_strata := [stratum_of_recipe 7 ex_arch]\<rparr>" "ss_files ex_strata_start = (\<lambda>p. None)"
  by (simp_all add: ex_strata_start_def salt_stratum_register_def Let_def ex_strata_env_def sql_try_def del_repos_def ex_strata_empty_def ex_arch_def)

lemma ex_exposed_aliases: "map ex_alias (sd_exposed (ss_db ex_strata_exposed)) = [''pacman'', ''htop'']"
  by code_simp

theorem shims_match_rows_witness:
  "shims_ok ''/'' ex_strata_exposed \<and> map ex_alias (sd_exposed (ss_db ex_strata_exposed)) = [''pacman'', ''htop'']"
proof -
  have "expose_reach ex_strata_env ''/'' ex_strata_start ex_strata_exposed"
    unfolding ex_strata_exposed_def by (intro expose_reach.pm expose_reach.all expose_reach.start) (simp add: name_ok_def)
  moreover have "shims_ok ''/'' ex_strata_start" by (simp add: shims_ok_def ex_strata_start_simps ex_strata_empty_def)
  moreover have "dir_names_ok ex_strata_env" by (simp add: dir_names_ok_def ex_strata_env_def)
  ultimately show ?thesis using shims_match_rows [of ex_strata_env "''/''" ex_strata_start ex_strata_exposed] ex_exposed_aliases
    by (simp add: ex_strata_env_def)
qed

theorem provider_rollback_toggles_witness:
  "\<exists>s2 s3 s4. salt_provider_rollback ex_strata_env ''libc'' s2 = (SALT_OK, s3) \<and> provider_of s3 ''libc'' = Some (''native'', ''native'', ''native'') \<and>
     salt_provider_rollback ex_strata_env ''libc'' s3 = (SALT_OK, s4) \<and> provider_of s4 ''libc'' = Some (''arch'', ''arch/glibc'', ''foreign'')"
proof -
  let ?v = "(''native'', ''native'', ''native'')" and ?u = "(''arch'', ''arch/glibc'', ''foreign'')"
  obtain s1 where s1: "salt_provider_set ex_strata_env ''libc'' (fst ?v) (fst (snd ?v)) (snd (snd ?v)) ex_strata_empty = (SALT_OK, s1)"
    by (simp add: salt_provider_set_def ex_strata_env_def Let_def)
  obtain s2 where s2: "salt_provider_set ex_strata_env ''libc'' (fst ?u) (fst (snd ?u)) (snd (snd ?u)) s1 = (SALT_OK, s2)"
    by (simp add: salt_provider_set_def ex_strata_env_def Let_def)
  have "history_ok ex_strata_empty" by (simp add: history_ok_def ex_strata_empty_def)
  from provider_rollback_toggles [OF this s1 s2] show ?thesis by (auto simp: ex_strata_env_def)
qed

end
