(* ===== verification/Salt_Config.thy ===== *)
theory Salt_Config
  imports Salt_Gc Salt_Strata
begin

text \<open>
  The declarative configuration (\<^verbatim>\<open>src/salt/cmd_config.cpp\<close>): loading and checking \<^verbatim>\<open>system.lua\<close>, computing the
  native packages it asks for with their dependencies, and making the system match it, through the lock
  file when there is one.  An error of the loader is a value of \<open>config_error\<close>.  The exposed commands are reached
  through the operations \<open>expose_ops\<close> on a state \<open>'s\<close>, so that the loop over them can be run on the tables of
  \<open>Salt_Strata\<close>; bootstrapping a stratum is a parameter (\<open>ensure_ops\<close>).
\<close>

section \<open>Types\<close>

record StratumConfig =
  sg_name :: string
  sg_recipe :: string
  sg_packages :: "string list"

record ExposeConfig =
  ec_stratum :: string
  ec_command :: string
  ec_alias :: string
  ec_desktop :: bool

record SystemConfig =
  cf_have_native :: bool
  cf_repo :: string
  cf_packages :: "string list"
  cf_pins :: "(string \<times> string) list"
  cf_have_strata :: bool
  cf_strata :: "StratumConfig list"
  cf_have_expose :: bool
  cf_expose :: "ExposeConfig list"
  cf_require_signed_native :: bool
  cf_allow_unverified_repro :: bool
  cf_on_missing_artifact :: string

definition empty_config :: SystemConfig where
  "empty_config = \<lparr>cf_have_native = False, cf_repo = [], cf_packages = [], cf_pins = [], cf_have_strata = False, cf_strata = [],
     cf_have_expose = False, cf_expose = [], cf_require_signed_native = False, cf_allow_unverified_repro = False,
     cf_on_missing_artifact = ''fail''\<rparr>"

text \<open>The reasons for which a configuration is refused; the string says which part it is about.\<close>

datatype config_error =
    EParse | EUnknownKey string string | ESchema int | EType string | ENoPackages | EEmpty string | ETwice string string
  | EPin string | ENoName nat | EExposeKey string | EAlias string string | EMissing string

type_synonym 'a checked = "config_error + 'a"

definition ebind :: "'a checked \<Rightarrow> ('a \<Rightarrow> 'b checked) \<Rightarrow> 'b checked" where
  "ebind r f = (case r of Inl e \<Rightarrow> Inl e | Inr a \<Rightarrow> f a)"

lemma ebind_simps [simp]: "ebind (Inl e) f = Inl e" "ebind (Inr a) f = f a"
  by (simp_all add: ebind_def)

lemma ebind_Inr: "ebind r f = Inr b \<longleftrightarrow> (\<exists>a. r = Inr a \<and> f a = Inr b)"
  by (cases r) auto

text \<open>A loop that stops at the first error.\<close>

primrec efold :: "('a \<Rightarrow> 's \<Rightarrow> 's checked) \<Rightarrow> 'a list \<Rightarrow> 's \<Rightarrow> 's checked" where
  "efold f [] s = Inr s"
| "efold f (x # xs) s = ebind (f x s) (efold f xs)"

lemma efold_inv:
  "efold f xs s = Inr s' \<Longrightarrow> P s \<Longrightarrow> (\<And>x s s'. x \<in> set xs \<Longrightarrow> f x s = Inr s' \<Longrightarrow> P s \<Longrightarrow> P s') \<Longrightarrow> P s'"
proof (induction xs arbitrary: s)
  case (Cons x xs)
  obtain t where t: "f x s = Inr t" "efold f xs t = Inr s'" using Cons.prems(1) by (auto simp: ebind_Inr)
  have "P t" using Cons.prems(3) [OF _ t(1) Cons.prems(2)] by simp
  then show ?case by (rule Cons.IH [OF t(2)]) (use Cons.prems(3) in auto)
qed simp

section \<open>Loading\<close>

definition add_string :: "string \<Rightarrow> salt_toml \<Rightarrow> string list \<Rightarrow> string list checked" where
  "add_string what v acc =
     (case salt_toml_as_string (Some v) of
        None \<Rightarrow> Inl (EEmpty what)
      | Some s \<Rightarrow> if s = [] then Inl (EEmpty what) else if s \<in> set acc then Inl (ETwice what s) else Inr (acc @ [s]))"

definition toml_strings :: "salt_toml \<Rightarrow> string \<Rightarrow> string list checked" where
  "toml_strings arr what = (case arr of TArray vs \<Rightarrow> efold (add_string what) vs [] | _ \<Rightarrow> Inl (EType what))"

definition config_check_keys :: "salt_toml \<Rightarrow> string \<Rightarrow> string list \<Rightarrow> unit checked" where
  "config_check_keys tab what allowed =
     (case tab of
        TTable kvs \<Rightarrow> (case find (\<lambda>k. k \<notin> set allowed) (map fst kvs) of None \<Rightarrow> Inr () | Some k \<Rightarrow> Inl (EUnknownKey what k))
      | _ \<Rightarrow> Inr ())"

definition is_table :: "salt_toml \<Rightarrow> bool" where
  "is_table t \<longleftrightarrow> (case t of TTable _ \<Rightarrow> True | _ \<Rightarrow> False)"

definition is_bool :: "salt_toml option \<Rightarrow> bool" where
  "is_bool t \<longleftrightarrow> (case t of Some (TBool _) \<Rightarrow> True | _ \<Rightarrow> False)"

text \<open>\<^verbatim>\<open>cfg.pins[k] = v\<close>: a later pin of the same name replaces an earlier one.\<close>

definition add_pin :: "string \<times> salt_toml \<Rightarrow> (string \<times> string) list \<Rightarrow> (string \<times> string) list checked" where
  "add_pin kv pins =
     (case salt_toml_as_string (Some (snd kv)) of
        None \<Rightarrow> Inl (EPin (fst kv))
      | Some v \<Rightarrow> if v = [] then Inl (EPin (fst kv)) else Inr ((fst kv, v) # filter (\<lambda>p. fst p \<noteq> fst kv) pins))"

definition load_native_cfg :: "salt_toml \<Rightarrow> SystemConfig \<Rightarrow> SystemConfig checked" where
  "load_native_cfg t cfg =
     (case salt_toml_get (Some t) ''native'' of
        None \<Rightarrow> Inr cfg
      | Some nat' \<Rightarrow>
          if \<not> is_table nat' then Inl (EType ''[native]'')
          else ebind (config_check_keys nat' ''[native]'' [''repo'', ''packages'', ''pin'']) (\<lambda>_.
            case salt_toml_get (Some nat') ''packages'' of
              None \<Rightarrow> Inl ENoPackages
            | Some pk \<Rightarrow> ebind (toml_strings pk ''native.packages'') (\<lambda>pkgs.
                ebind (case salt_toml_get (Some nat') ''pin'' of
                         None \<Rightarrow> Inr []
                       | Some (TTable kvs) \<Rightarrow> efold add_pin kvs []
                       | Some _ \<Rightarrow> Inl (EType ''[native.pin]'')) (\<lambda>pins.
                  Inr (cfg\<lparr>cf_have_native := True, cf_repo := salt_toml_string (Some nat') ''repo'' [],
                           cf_packages := pkgs, cf_pins := pins\<rparr>)))))"

definition add_stratum :: "salt_toml \<Rightarrow> StratumConfig list \<Rightarrow> StratumConfig list checked" where
  "add_stratum s acc =
     (if \<not> is_table s then Inl (EType ''[[strata]]'')
      else ebind (config_check_keys s ''[[strata]]'' [''name'', ''recipe'', ''packages'']) (\<lambda>_.
        let nm = salt_toml_string (Some s) ''name'' [] in
        if nm = [] then Inl (ENoName (length acc))
        else if nm \<in> sg_name ` set acc then Inl (ETwice ''[[strata]]'' nm)
        else ebind (case salt_toml_get (Some s) ''packages'' of
                      None \<Rightarrow> Inr [] | Some pk \<Rightarrow> toml_strings pk (''strata.'' @ nm @ ''.packages'')) (\<lambda>pkgs.
          Inr (acc @ [\<lparr>sg_name = nm, sg_recipe = salt_toml_string (Some s) ''recipe'' nm, sg_packages = pkgs\<rparr>]))))"

definition load_strata_cfg :: "salt_toml \<Rightarrow> SystemConfig \<Rightarrow> SystemConfig checked" where
  "load_strata_cfg t cfg =
     (case salt_toml_get (Some t) ''strata'' of
        None \<Rightarrow> Inr cfg
      | Some (TArray ss) \<Rightarrow> ebind (efold add_stratum ss []) (\<lambda>l. Inr (cfg\<lparr>cf_have_strata := True, cf_strata := l\<rparr>))
      | Some _ \<Rightarrow> Inl (EType ''[[strata]]''))"

text \<open>The alias and the desktop flag of an entry: a string, or a table with both.\<close>

definition expose_value :: "string \<Rightarrow> salt_toml \<Rightarrow> (string \<times> bool) checked" where
  "expose_value key v =
     (case v of
        TString s \<Rightarrow> Inr (s, False)
      | TTable _ \<Rightarrow> ebind (config_check_keys v (''[expose] '' @ key) [''alias'', ''desktop'']) (\<lambda>_.
          let d = salt_toml_get (Some v) ''desktop'' in
          if d \<noteq> None \<and> \<not> is_bool d then Inl (EType (''[expose] '' @ key))
          else Inr (salt_toml_string (Some v) ''alias'' [], salt_toml_as_bool d False))
      | _ \<Rightarrow> Inl (EType (''[expose] '' @ key)))"

definition add_expose :: "string \<times> salt_toml \<Rightarrow> ExposeConfig list \<Rightarrow> ExposeConfig list checked" where
  "add_expose kv acc =
     (let key = fst kv; st = takeWhile (\<lambda>c. c \<noteq> CHR ''/'') key; cmd = drop (length st + 1) key in
      if CHR ''/'' \<notin> set key \<or> st = [] \<or> cmd = [] then Inl (EExposeKey key)
      else ebind (expose_value key (snd kv)) (\<lambda>(al, desk).
        let alias = (if al = [] then cmd else al) in
        if CHR ''/'' \<in> set alias then Inl (EAlias key alias)
        else if alias \<in> ec_alias ` set acc then Inl (ETwice ''[expose]'' alias)
        else Inr (acc @ [\<lparr>ec_stratum = st, ec_command = cmd, ec_alias = alias, ec_desktop = desk\<rparr>])))"

definition load_expose_cfg :: "salt_toml \<Rightarrow> SystemConfig \<Rightarrow> SystemConfig checked" where
  "load_expose_cfg t cfg =
     (case salt_toml_get (Some t) ''expose'' of
        None \<Rightarrow> Inr cfg
      | Some (TTable kvs) \<Rightarrow> ebind (efold add_expose kvs []) (\<lambda>l. Inr (cfg\<lparr>cf_have_expose := True, cf_expose := l\<rparr>))
      | Some _ \<Rightarrow> Inl (EType ''[expose]''))"

definition load_policy_cfg :: "salt_toml \<Rightarrow> SystemConfig \<Rightarrow> SystemConfig checked" where
  "load_policy_cfg t cfg =
     (case salt_toml_get (Some t) ''policy'' of
        None \<Rightarrow> Inr cfg
      | Some pol \<Rightarrow>
          if \<not> is_table pol then Inl (EType ''[policy]'')
          else ebind (config_check_keys pol ''[policy]'' [''require_signed_native'', ''allow_unverified_repro'', ''on_missing_artifact'']) (\<lambda>_.
            let b1 = salt_toml_get (Some pol) ''require_signed_native''; b2 = salt_toml_get (Some pol) ''allow_unverified_repro'';
                om = salt_toml_string (Some pol) ''on_missing_artifact'' ''fail''
            in if b1 \<noteq> None \<and> \<not> is_bool b1 then Inl (EType ''require_signed_native'')
               else if b2 \<noteq> None \<and> \<not> is_bool b2 then Inl (EType ''allow_unverified_repro'')
               else if om \<noteq> ''fail'' \<and> om \<noteq> ''skip'' then Inl (EMissing om)
               else Inr (cfg\<lparr>cf_require_signed_native := salt_toml_as_bool b1 False,
                             cf_allow_unverified_repro := salt_toml_as_bool b2 False, cf_on_missing_artifact := om\<rparr>)))"

definition config_tree :: "salt_toml \<Rightarrow> SystemConfig checked" where
  "config_tree t =
     ebind (config_check_keys t ''system.lua''
       [''schema'', ''system'', ''kernel'', ''stratum'', ''native'', ''strata'', ''expose'', ''policy'']) (\<lambda>_.
     if salt_toml_get (Some t) ''schema'' \<noteq> None \<and> salt_toml_int (Some t) ''schema'' 0 \<noteq> 1
     then Inl (ESchema (salt_toml_int (Some t) ''schema'' 0))
     else ebind (load_native_cfg t empty_config) (\<lambda>c. ebind (load_strata_cfg t c) (\<lambda>c.
       ebind (load_expose_cfg t c) (load_policy_cfg t))))"

definition config_load :: "sys \<Rightarrow> string \<Rightarrow> world \<Rightarrow> SystemConfig checked" where
  "config_load y path w = (case salt_toml_parse_file y path w of None \<Rightarrow> Inl EParse | Some t \<Rightarrow> config_tree t)"

section \<open>The packages asked for\<close>

text \<open>A pin is a version, or a version and a release after the last dash.\<close>

definition pin_parts :: "string \<Rightarrow> string \<times> int option" where
  "pin_parts v =
     (let rel = rev (takeWhile (\<lambda>c. c \<noteq> CHR ''-'') (rev v))
      in if CHR ''-'' \<in> set v \<and> rel \<noteq> [] \<and> list_all isdigit rel
         then (take (length v - length rel - 1) v, Some (c_int (c_atol rel))) else (v, None))"

definition pin_matches :: "string \<Rightarrow> string \<times> int option \<Rightarrow> salt_repo_entry \<Rightarrow> bool" where
  "pin_matches name p e \<longleftrightarrow> re_name e = name \<and> re_version e = fst p \<and>
     (case snd p of Some rel \<Rightarrow> 0 \<le> rel \<longrightarrow> re_release e = rel | None \<Rightarrow> True)"

definition higher_release :: "salt_repo_entry \<Rightarrow> salt_repo_entry option \<Rightarrow> salt_repo_entry option" where
  "higher_release e best = (case best of None \<Rightarrow> Some e | Some b \<Rightarrow> if re_release b < re_release e then Some e else best)"

definition find_pinned :: "salt_repo_index \<Rightarrow> (string \<times> string) list \<Rightarrow> string \<Rightarrow> salt_repo_entry option" where
  "find_pinned idx pins name =
     (case map_of pins name of
        None \<Rightarrow> salt_repo_index_find idx name
      | Some v \<Rightarrow> fold higher_release (filter (pin_matches name (pin_parts v)) (ri_items idx)) None)"

text \<open>
  \<^verbatim>\<open>resolve_cfg\<close>: the map of desired packages and the names that could not be found.  A package is entered
  before its dependencies are visited; a missing one is not entered.
\<close>

type_synonym desired = "(string \<times> salt_repo_entry) list"

primrec resolve_cfg :: "nat \<Rightarrow> salt_repo_index \<Rightarrow> (string \<times> string) list \<Rightarrow> string \<Rightarrow> desired \<times> string list \<Rightarrow>
    (desired \<times> string list) option" where
  "resolve_cfg 0 idx pins name s = None"
| "resolve_cfg (Suc n) idx pins name s =
     (if map_of (fst s) name \<noteq> None then Some s
      else case find_pinned idx pins name of
        None \<Rightarrow> Some (fst s, snd s @ [name])
      | Some e \<Rightarrow> ofold (resolve_cfg n idx pins) (re_deps e) ((name, e) # fst s, snd s))"

definition cfg_fuel :: "salt_repo_index \<Rightarrow> nat" where
  "cfg_fuel idx = length (ri_items idx) + 2"

definition resolve_root :: "salt_repo_index \<Rightarrow> (string \<times> string) list \<Rightarrow> string \<Rightarrow> (desired \<times> string list) option" where
  "resolve_root idx pins r = resolve_cfg (cfg_fuel idx) idx pins r ([], [])"

text \<open>The loop over the roots: a root with a problem is skipped, and fails the command unless the policy is \<^verbatim>\<open>skip\<close>.\<close>

definition add_root :: "salt_repo_index \<Rightarrow> SystemConfig \<Rightarrow> string \<Rightarrow> desired \<times> bool \<Rightarrow> (desired \<times> bool) option" where
  "add_root idx cfg r s =
     (case resolve_root idx (cf_pins cfg) r of
        None \<Rightarrow> None
      | Some (sub, problems) \<Rightarrow>
          Some (if problems \<noteq> [] then (fst s, snd s \<and> cf_on_missing_artifact cfg = ''skip'') else (fst s @ sub, snd s)))"

definition desired_pkgs :: "salt_repo_index \<Rightarrow> SystemConfig \<Rightarrow> (desired \<times> bool) option" where
  "desired_pkgs idx cfg =
     map_option (\<lambda>s. (fst s, snd s \<and> list_all (\<lambda>p. map_of (fst s) (fst p) \<noteq> None) (cf_pins cfg)))
       (ofold (add_root idx cfg) (cf_packages cfg) ([], True))"

definition desired_met :: "tables \<Rightarrow> string \<times> salt_repo_entry \<Rightarrow> bool" where
  "desired_met t kv =
     (case salt_db_get_pkg t (fst kv) of
        None \<Rightarrow> False | Some p \<Rightarrow> dp_version p = re_version (snd kv) \<and> dp_release p = re_release (snd kv))"

definition desired_list :: "desired \<Rightarrow> desired" where
  "desired_list d = map (\<lambda>n. (n, the (map_of d n))) (sorted_list_of_set (set (map fst d)))"

definition cfg_plan :: "tables \<Rightarrow> desired \<Rightarrow> NativePlan option" where
  "cfg_plan t d =
     map_option (\<lambda>es. \<lparr>pl_remove = filter (\<lambda>n. map_of d n = None) (map dp_name (salt_db_list_installed t)), pl_install = es\<rparr>)
       (order_by_deps (map snd (filter (\<lambda>kv. \<not> desired_met t kv) (desired_list d))))"

definition apply_native :: "sys \<Rightarrow> Options \<Rightarrow> SystemConfig \<Rightarrow> TxnFlags \<Rightarrow> world \<Rightarrow> int \<times> world" where
  "apply_native y opt cfg f w =
     (let c = load_repo_conf y opt; c = (if cf_repo cfg \<noteq> [] then c\<lparr>rc_name := cf_repo cfg\<rparr> else c) in
      case load_index y opt w of
        None \<Rightarrow> (1, w)
      | Some idx \<Rightarrow>
          if \<not> sql_ok (env_sql (sys_env y)) SqlOpen then (1, w)
          else case desired_pkgs idx cfg of
                 None \<Rightarrow> (1, w)
               | Some (d, ok) \<Rightarrow>
                   if \<not> ok then (1, w)
                   else case cfg_plan (w_tab w) d of
                          None \<Rightarrow> (1, w)
                        | Some plan \<Rightarrow>
                            if pl_install plan = [] \<and> pl_remove plan = [] then (0, w)
                            else native_transaction y opt c (salt_ctx_init (sys_env y) (o_root opt)) plan ''config-apply'' f w)"


section \<open>Strata and exposed commands\<close>

text \<open>\<open>xo_ensure\<close> bootstraps a stratum from a recipe, \<open>xo_names\<close> lists the names of its packages.\<close>

record ensure_ops =
  xo_ensure :: "string \<Rightarrow> string \<Rightarrow> world \<Rightarrow> int \<times> world"
  xo_names :: "string \<Rightarrow> world \<Rightarrow> string list option"

text \<open>
  The operations on exposed commands: \<open>xo_open\<close> opens the database, \<open>xo_get\<close> says whether a stratum is known, \<open>xo_exposed\<close>
  lists the exposed commands, \<open>xo_desktop\<close>, \<open>xo_add\<close> and \<open>xo_remove\<close> change them, \<open>xo_exists\<close> is \<^verbatim>\<open>salt_path_exists\<close> and
  \<open>xo_unlink\<close> is \<^verbatim>\<open>remove\<close> of a desktop entry.
\<close>

record 's expose_ops =
  xo_open :: "'s \<Rightarrow> bool"
  xo_get :: "string \<Rightarrow> 's \<Rightarrow> bool"
  xo_exposed :: "'s \<Rightarrow> salt_exposed list"
  xo_desktop :: "string \<Rightarrow> string \<Rightarrow> 's \<Rightarrow> salt_rc \<times> 's"
  xo_add :: "string \<Rightarrow> string \<Rightarrow> string \<Rightarrow> 's \<Rightarrow> salt_rc \<times> 's"
  xo_remove :: "string \<Rightarrow> 's \<Rightarrow> salt_rc \<times> 's"
  xo_exists :: "string \<Rightarrow> 's \<Rightarrow> bool"
  xo_unlink :: "string \<Rightarrow> 's \<Rightarrow> 's"

text \<open>The last part of an iteration: install what is declared and not there.\<close>

definition stratum_missing :: "ensure_ops \<Rightarrow> strata \<Rightarrow> TxnFlags \<Rightarrow> StratumConfig \<Rightarrow> world \<Rightarrow> int \<times> world" where
  "stratum_missing eo st f sc w =
     (case xo_names eo (sg_name sc) w of
        None \<Rightarrow> (1, w)
      | Some live \<Rightarrow>
          (let missing = filter (\<lambda>p. p \<notin> set live) (sg_packages sc)
           in if missing = [] \<or> tf_dry_run f then (0, w)
              else let (n, w') = so_install st (sg_name sc) missing w in (if n \<noteq> 0 then 1 else 0, w')))"

text \<open>A failure to open the database at the start of an iteration ends the loop with 1.\<close>

fun apply_strata_cfg :: "foreign \<Rightarrow> ensure_ops \<Rightarrow> strata \<Rightarrow> TxnFlags \<Rightarrow> StratumConfig list \<Rightarrow> int \<Rightarrow> world \<Rightarrow> int \<times> world" where
  "apply_strata_cfg fo eo st f [] rc w = (rc, w)"
| "apply_strata_cfg fo eo st f (sc # scs) rc w =
     (if \<not> fo_open fo w then (1, w)
      else if fo_get fo (sg_name sc) w then
        let (n, w1) = stratum_missing eo st f sc w in apply_strata_cfg fo eo st f scs (if n \<noteq> 0 then 1 else rc) w1
      else if tf_dry_run f then apply_strata_cfg fo eo st f scs rc w
      else let (e, w1) = xo_ensure eo (sg_name sc) (sg_recipe sc) w in
        if e \<noteq> 0 \<or> \<not> fo_open fo w1 \<or> \<not> fo_get fo (sg_name sc) w1 then apply_strata_cfg fo eo st f scs 1 w1
        else let (n, w2) = stratum_missing eo st f sc w1 in apply_strata_cfg fo eo st f scs (if n \<noteq> 0 then 1 else rc) w2)"

definition desktop_path :: "Options \<Rightarrow> string \<Rightarrow> string \<Rightarrow> string" where
  "desktop_path opt stratum command =
     path_join (o_root opt) (''usr/local/share/applications/'' @ stratum @ ''-'' @ command @ ''.desktop'')"

definition expose_same :: "'s expose_ops \<Rightarrow> Options \<Rightarrow> salt_exposed list \<Rightarrow> ExposeConfig \<Rightarrow> 's \<Rightarrow> bool" where
  "expose_same xo opt cur ec w =
     (case filter (\<lambda>e. ex_alias e = ec_alias ec) cur of
        [] \<Rightarrow> False
      | es \<Rightarrow> (let h = last es in
               ex_stratum h = ec_stratum ec \<and> ex_command h = ec_command ec \<and> ex_kind h = ''config'' \<and> xo_exists xo (ex_shim_path h) w \<and>
               (ec_desktop ec \<longrightarrow> xo_exists xo (desktop_path opt (ec_stratum ec) (ec_command ec)) w)))"

definition expose_one :: "'s expose_ops \<Rightarrow> Options \<Rightarrow> TxnFlags \<Rightarrow> salt_exposed list \<Rightarrow> ExposeConfig \<Rightarrow> int \<times> 's \<Rightarrow> int \<times> 's" where
  "expose_one xo opt f cur ec s =
     (let (rc, w) = s in
      if expose_same xo opt cur ec w \<or> tf_dry_run f then s
      else if \<not> xo_get xo (ec_stratum ec) w then (1, w)
      else let (r1, w1) = (if ec_desktop ec then xo_desktop xo (ec_stratum ec) (ec_command ec) w else (SALT_OK, w)) in
        if r1 \<noteq> SALT_OK then (1, w1)
        else let (r2, w2) = xo_add xo (ec_stratum ec) (ec_command ec) (ec_alias ec) w1
             in (if r2 \<noteq> SALT_OK then 1 else rc, w2))"

definition unexpose_one :: "'s expose_ops \<Rightarrow> Options \<Rightarrow> TxnFlags \<Rightarrow> string set \<Rightarrow> salt_exposed \<Rightarrow> int \<times> 's \<Rightarrow> int \<times> 's" where
  "unexpose_one xo opt f declared e s =
     (let (rc, w) = s in
      if ex_kind e \<noteq> ''config'' \<or> ex_alias e \<in> declared \<or> tf_dry_run f then s
      else let (r, w1) = xo_remove xo (ex_alias e) w in
        if r \<noteq> SALT_OK then (1, w1)
        else let d = desktop_path opt (ex_stratum e) (ex_command e)
             in (rc, if xo_exists xo d w1 then xo_unlink xo d w1 else w1))"

definition apply_expose :: "'s expose_ops \<Rightarrow> Options \<Rightarrow> ExposeConfig list \<Rightarrow> TxnFlags \<Rightarrow> 's \<Rightarrow> int \<times> 's" where
  "apply_expose xo opt ecs f w =
     (if \<not> xo_open xo w then (1, w)
      else let cur = xo_exposed xo w
           in fold (unexpose_one xo opt f (ec_alias ` set ecs)) cur (fold (expose_one xo opt f cur) ecs (0, w)))"

section \<open>The commands\<close>

definition config_matches_lock :: "sys \<Rightarrow> Options \<Rightarrow> string \<Rightarrow> world \<Rightarrow> bool" where
  "config_matches_lock y opt lock_path w =
     (case salt_toml_parse_file y lock_path w of
        None \<Rightarrow> True
      | Some t \<Rightarrow>
          (let want = strip_sha_prefix (salt_toml_string (Some t) ''config_hash'' []);
               cur = salt_sha256_file y (system_config_path y opt) w
           in if want = [] then cur = None else cur = Some want))"

definition config_show :: "sys \<Rightarrow> Options \<Rightarrow> world \<Rightarrow> int" where
  "config_show y opt w = (if w_files w (system_config_path y opt) = None then 1 else 0)"

definition config_check :: "sys \<Rightarrow> Options \<Rightarrow> world \<Rightarrow> int" where
  "config_check y opt w =
     (let cp = system_config_path y opt
      in if w_files w cp = None then 1 else case config_load y cp w of Inl e \<Rightarrow> 1 | Inr cfg \<Rightarrow> 0)"

definition config_diff :: "foreign \<Rightarrow> sys \<Rightarrow> Options \<Rightarrow> world \<Rightarrow> int" where
  "config_diff fo y opt w = lock_diff fo y (lock_path_for opt []) w"

text \<open>What is applied: the lock file, or the configuration itself.\<close>

definition config_converge :: "foreign \<Rightarrow> ensure_ops \<Rightarrow> strata \<Rightarrow> sys \<Rightarrow> Options \<Rightarrow> SystemConfig \<Rightarrow> TxnFlags \<Rightarrow> bool \<Rightarrow> world \<Rightarrow> int \<times> world" where
  "config_converge fo eo st y opt cfg f use_lock w =
     (if use_lock then lock_apply fo y opt (lock_path_for opt []) f w
      else let (rc, w1) = (if cf_have_native cfg then apply_native y opt cfg f w else (0, w))
           in if rc = 0 \<and> \<not> tf_download_only f \<and> cf_have_strata cfg
              then apply_strata_cfg fo eo st f (cf_strata cfg) 0 w1 else (rc, w1))"

definition config_apply :: "string \<Rightarrow> foreign \<Rightarrow> ensure_ops \<Rightarrow> world expose_ops \<Rightarrow> strata \<Rightarrow> sys \<Rightarrow> Options \<Rightarrow> string list \<Rightarrow> world \<Rightarrow> int \<times> world" where
  "config_apply now fo eo xo st y opt args w =
     (let relock = (''--relock'' \<in> set args) in
      case parse_txn_flags (filter (\<lambda>a. a \<noteq> ''--relock'') args) default_flags of
        None \<Rightarrow> (2, w)
      | Some (f, rest) \<Rightarrow>
          if rest \<noteq> [] then (2, w)
          else let cp = system_config_path y opt; lp = lock_path_for opt [];
                   have_cfg = (w_files w cp \<noteq> None); have_lock = (w_files w lp \<noteq> None)
               in if \<not> have_cfg \<and> \<not> have_lock then (1, w)
                  else case (if have_cfg then config_load y cp w else Inr empty_config) of
                    Inl e \<Rightarrow> (1, w)
                  | Inr cfg \<Rightarrow>
                      (let f = (if cf_allow_unverified_repro cfg then f\<lparr>tf_allow_unverified := True\<rparr> else f);
                           use_lock = (have_lock \<and> \<not> relock)
                       in if cf_require_signed_native cfg \<and> \<not> index_signed_ok y opt (load_repo_conf y opt) w then (1, w)
                          else if use_lock \<and> \<not> config_matches_lock y opt lp w then (1, w)
                          else let (rc, w1) = config_converge fo eo st y opt cfg f use_lock w;
                                   (rc, w2) = (if rc = 0 \<and> \<not> tf_download_only f \<and> cf_have_expose cfg
                                               then apply_expose xo opt (cf_expose cfg) f w1 else (rc, w1))
                               in if rc = 0 \<and> \<not> use_lock \<and> \<not> tf_dry_run f \<and> \<not> tf_download_only f
                                  then lock_write now fo y opt lp False w2 else (rc, w2)))"

definition cmd_config ::
    "string \<Rightarrow> foreign \<Rightarrow> ensure_ops \<Rightarrow> world expose_ops \<Rightarrow> strata \<Rightarrow> (int \<Rightarrow> string \<Rightarrow> world \<Rightarrow> (salt_rc \<times> int \<times> string) \<times> world) \<Rightarrow>
     (string \<Rightarrow> world \<Rightarrow> world) \<Rightarrow> gc_env \<Rightarrow> sys \<Rightarrow> Options \<Rightarrow> string list \<Rightarrow> world \<Rightarrow> int \<times> world" where
  "cmd_config now fo eo xo st btrfs newroot g y opt args w =
     (case args of
        [] \<Rightarrow> (2, w)
      | sub # rest \<Rightarrow>
          if sub = ''show'' then (config_show y opt w, w)
          else if sub = ''check'' then (config_check y opt w, w)
          else if sub = ''diff'' then (config_diff fo y opt w, w)
          else if sub = ''apply'' then config_apply now fo eo xo st y opt rest w
          else if sub = ''history'' then cmd_deployments y opt rest w
          else if sub = ''rollback'' then cmd_rollback btrfs newroot y opt rest w
          else if sub = ''gc'' then cmd_gc g y opt rest w
          else (2, w))"

end
