(* ===== verification/Salt_Converge.thy ===== *)
theory Salt_Converge
  imports Salt_Config
begin

text \<open>
  What the configuration commands of \<^verbatim>\<open>Salt_Config\<close> achieve: the loader accepts well-formed configurations only, the
  recursion over the dependencies of the declared packages ends within its fuel and finds exactly what they
  need, and a configuration that has been applied is what is installed.
\<close>

section \<open>The packages a root needs\<close>

text \<open>The root, and the dependencies of whatever is needed and found.\<close>

inductive cfg_needs :: "salt_repo_index \<Rightarrow> (string \<times> string) list \<Rightarrow> string \<Rightarrow> string \<Rightarrow> bool"
  for idx pins r where
  root: "cfg_needs idx pins r r"
| dep: "cfg_needs idx pins r m \<Longrightarrow> find_pinned idx pins m = Some e \<Longrightarrow> d \<in> set (re_deps e) \<Longrightarrow> cfg_needs idx pins r d"

lemma cfg_needs_trans: "cfg_needs idx pins m n \<Longrightarrow> cfg_needs idx pins r m \<Longrightarrow> cfg_needs idx pins r n"
  by (induction rule: cfg_needs.induct) (auto intro: cfg_needs.dep)

text \<open>\<open>cfg_run N s s'\<close>: a run from \<open>s\<close> to \<open>s'\<close> entered and reported only names in \<open>N\<close>, the first with their entries; without
  a report it entered all dependencies of what it entered.\<close>

definition cfg_run :: "salt_repo_index \<Rightarrow> (string \<times> string) list \<Rightarrow> (string \<Rightarrow> bool) \<Rightarrow> desired \<times> string list \<Rightarrow> desired \<times> string list \<Rightarrow> bool" where
  "cfg_run idx pins N s s' \<longleftrightarrow> (\<exists>E P. fst s' = E @ fst s \<and> snd s' = snd s @ P \<and>
     (\<forall>(m, e) \<in> set E. find_pinned idx pins m = Some e \<and> N m) \<and> (\<forall>m \<in> set P. find_pinned idx pins m = None \<and> N m) \<and>
     (snd s' = [] \<longrightarrow> (\<forall>(m, e) \<in> set E. set (re_deps e) \<subseteq> fst ` set (fst s'))))"

lemma cfg_run_refl: "cfg_run idx pins N s s"
  by (auto simp: cfg_run_def)

lemma cfg_run_trans:
  assumes "cfg_run idx pins N s t" "cfg_run idx pins N t u" shows "cfg_run idx pins N s u"
proof -
  obtain E P where 1: "fst t = E @ fst s" "snd t = snd s @ P" "\<forall>(m, e) \<in> set E. find_pinned idx pins m = Some e \<and> N m"
    "\<forall>m \<in> set P. find_pinned idx pins m = None \<and> N m" "snd t = [] \<longrightarrow> (\<forall>(m, e) \<in> set E. set (re_deps e) \<subseteq> fst ` set (fst t))"
    using assms(1) unfolding cfg_run_def by blast
  obtain E' P' where 2: "fst u = E' @ fst t" "snd u = snd t @ P'" "\<forall>(m, e) \<in> set E'. find_pinned idx pins m = Some e \<and> N m"
    "\<forall>m \<in> set P'. find_pinned idx pins m = None \<and> N m" "snd u = [] \<longrightarrow> (\<forall>(m, e) \<in> set E'. set (re_deps e) \<subseteq> fst ` set (fst u))"
    using assms(2) unfolding cfg_run_def by blast
  have "fst u = (E' @ E) @ fst s" "snd u = snd s @ (P @ P')" using 1 2 by simp_all
  moreover have "\<forall>(m, e) \<in> set (E' @ E). find_pinned idx pins m = Some e \<and> N m" "\<forall>m \<in> set (P @ P'). find_pinned idx pins m = None \<and> N m"
    using 1 2 by auto
  moreover have "snd u = [] \<longrightarrow> (\<forall>(m, e) \<in> set (E' @ E). set (re_deps e) \<subseteq> fst ` set (fst u))" using 1(5) 2(1,2,5) by fastforce
  ultimately show ?thesis unfolding cfg_run_def by blast
qed

lemma cfg_run_weaken: "cfg_run idx pins N s s' \<Longrightarrow> (\<And>m. N m \<Longrightarrow> M m) \<Longrightarrow> cfg_run idx pins M s s'"
  unfolding cfg_run_def by fastforce

lemma cfg_run_mono: "cfg_run idx pins N s s' \<Longrightarrow> fst ` set (fst s) \<subseteq> fst ` set (fst s')"
  by (auto simp: cfg_run_def)

lemma cfg_run_clean: "cfg_run idx pins N s s' \<Longrightarrow> snd s' = [] \<Longrightarrow> snd s = []"
  by (auto simp: cfg_run_def)

lemma resolve_cfg_run:
  "resolve_cfg n idx pins r s = Some s' \<Longrightarrow>
   cfg_run idx pins (cfg_needs idx pins r) s s' \<and> (snd s' = [] \<longrightarrow> r \<in> fst ` set (fst s'))"
proof (induction n arbitrary: r s s')
  case (Suc n)
  consider (old) "map_of (fst s) r \<noteq> None" "s' = s"
    | (missing) "find_pinned idx pins r = None" "s' = (fst s, snd s @ [r])"
    | (found) e where "find_pinned idx pins r = Some e" "ofold (resolve_cfg n idx pins) (re_deps e) ((r, e) # fst s, snd s) = Some s'"
    using Suc.prems by (auto split: if_splits option.splits)
  then show ?case
  proof cases
    case old
    then have "r \<in> fst ` set (fst s)" by (auto simp: map_of_eq_None_iff)
    then show ?thesis using old cfg_run_refl by simp
  next
    case missing
    then show ?thesis by (auto simp: cfg_run_def intro: cfg_needs.root)
  next
    case found
    let ?N = "cfg_needs idx pins r" and ?s = "((r, e) # fst s, snd s)"
    have step: "cfg_run idx pins ?N t t' \<and> (snd t' = [] \<longrightarrow> d \<in> fst ` set (fst t'))"
      if "d \<in> set (re_deps e)" "resolve_cfg n idx pins d t = Some t'" for d t t'
    proof -
      have "cfg_needs idx pins r d" using cfg_needs.dep [OF cfg_needs.root found(1) that(1)] .
      then show ?thesis using Suc.IH [OF that(2)] cfg_run_weaken cfg_needs_trans by blast
    qed
    have R: "cfg_run idx pins ?N ?s s' \<and> (\<forall>d \<in> set (re_deps e). snd s' = [] \<longrightarrow> d \<in> fst ` set (fst s'))"
      by (rule ofold_all [OF found(2) cfg_run_refl cfg_run_trans, where Q = "\<lambda>d t. snd t = [] \<longrightarrow> d \<in> fst ` set (fst t)"])
        (use step cfg_run_mono cfg_run_clean in blast)+
    then obtain E P where E: "fst s' = E @ (r, e) # fst s" "snd s' = snd s @ P" "\<forall>(m, e) \<in> set E. find_pinned idx pins m = Some e \<and> ?N m"
      "\<forall>m \<in> set P. find_pinned idx pins m = None \<and> ?N m" "snd s' = [] \<longrightarrow> (\<forall>(m, e) \<in> set E. set (re_deps e) \<subseteq> fst ` set (fst s'))"
      unfolding cfg_run_def by auto
    have "cfg_run idx pins ?N s s'"
      unfolding cfg_run_def
      by (intro exI [of _ "E @ [(r, e)]"] exI [of _ P]) (use E R found(1) in \<open>auto intro: cfg_needs.root\<close>)
    then show ?thesis by (simp add: E(1))
  qed
qed simp


text \<open>The fuel is enough: every nested call enters one more name of the index.\<close>

lemma find_pinned_name: "find_pinned idx pins n = Some e \<Longrightarrow> e \<in> set (ri_items idx) \<and> re_name e = n"
proof -
  assume a: "find_pinned idx pins n = Some e"
  have "fold higher_release es b = Some x \<Longrightarrow> b = Some x \<or> x \<in> set es" for es b x
    by (induction es arbitrary: b) (auto simp: higher_release_def split: option.splits if_splits)
  then have "e \<in> set (filter (pin_matches n (pin_parts v)) (ri_items idx))" if "map_of pins n = Some v" for v
    using a that by (force simp: find_pinned_def)
  then show ?thesis using a salt_repo_index_find_name [of idx n e]
    by (cases "map_of pins n") (auto simp: find_pinned_def pin_matches_def)
qed

lemma ofold_total:
  assumes "\<And>x s. x \<in> set xs \<Longrightarrow> P s \<Longrightarrow> \<exists>s'. f x s = Some s' \<and> P s'" "P s"
  shows "\<exists>s'. ofold f xs s = Some s' \<and> P s'"
  using assms
proof (induction xs arbitrary: s)
  case (Cons x xs)
  obtain t where "f x s = Some t" "P t" using Cons.prems(1) [of x s] Cons.prems(2) by auto
  then show ?case using Cons.IH [of t] Cons.prems(1) by simp
qed simp

lemma resolve_cfg_total:
  "card (re_name ` set (ri_items idx) - fst ` set (fst s)) < n \<Longrightarrow>
   \<exists>s'. resolve_cfg n idx pins r s = Some s' \<and> fst ` set (fst s) \<subseteq> fst ` set (fst s')"
proof (induction n arbitrary: r s)
  case (Suc n)
  let ?F = "re_name ` set (ri_items idx)"
  show ?case
  proof (cases "map_of (fst s) r \<noteq> None \<or> find_pinned idx pins r = None")
    case True
    then have "resolve_cfg (Suc n) idx pins r s = Some s \<or> resolve_cfg (Suc n) idx pins r s = Some (fst s, snd s @ [r])" by auto
    then show ?thesis by (elim disjE) (simp_all del: resolve_cfg.simps)
  next
    case False
    then obtain e where e: "find_pinned idx pins r = Some e" "map_of (fst s) r = None" by auto
    let ?s = "((r, e) # fst s, snd s)"
    have "r \<in> ?F - fst ` set (fst s)" using find_pinned_name [OF e(1)] e(2) by (auto simp: map_of_eq_None_iff)
    then have "?F - fst ` set (fst ?s) \<subset> ?F - fst ` set (fst s)" by auto
    then have "card (?F - fst ` set (fst ?s)) < card (?F - fst ` set (fst s))" by (rule psubset_card_mono [rotated]) simp
    then have c: "card (?F - fst ` set (fst ?s)) < n" using Suc.prems by simp
    have "\<exists>s'. ofold (resolve_cfg n idx pins) (re_deps e) ?s = Some s' \<and> fst ` set (fst ?s) \<subseteq> fst ` set (fst s')"
    proof (rule ofold_total [where P = "\<lambda>t. fst ` set (fst ?s) \<subseteq> fst ` set (fst t)"])
      fix d and t :: "desired \<times> string list" assume "fst ` set (fst ?s) \<subseteq> fst ` set (fst t)"
      moreover from this have "card (?F - fst ` set (fst t)) \<le> card (?F - fst ` set (fst ?s))" by (intro card_mono) auto
      ultimately show "\<exists>s'. resolve_cfg n idx pins d t = Some s' \<and> fst ` set (fst ?s) \<subseteq> fst ` set (fst s')"
        using Suc.IH [of t d] c by (meson le_less_trans subset_trans)
    qed simp
    then show ?thesis using e by auto
  qed
qed simp

lemma resolve_root_spec:
  obtains sub problems where "resolve_root idx pins r = Some (sub, problems)"
    "problems = [] \<longleftrightarrow> (\<forall>n. cfg_needs idx pins r n \<longrightarrow> find_pinned idx pins n \<noteq> None)"
    "problems = [] \<Longrightarrow> \<forall>n. map_of sub n = (if cfg_needs idx pins r n then find_pinned idx pins n else None)"
proof -
  have "card (re_name ` set (ri_items idx)) \<le> length (ri_items idx)" by (rule order_trans [OF card_image_le card_length]) simp
  then obtain sub problems where r: "resolve_root idx pins r = Some (sub, problems)"
    using resolve_cfg_total [of idx "([], [])" "cfg_fuel idx" pins r] by (auto simp: resolve_root_def cfg_fuel_def)
  have R: "cfg_run idx pins (cfg_needs idx pins r) ([], []) (sub, problems)" "problems = [] \<longrightarrow> r \<in> fst ` set sub"
    using resolve_cfg_run [OF r [unfolded resolve_root_def]] by auto
  have ent: "\<forall>(m, e) \<in> set sub. find_pinned idx pins m = Some e \<and> cfg_needs idx pins r m"
    and prob: "\<forall>m \<in> set problems. find_pinned idx pins m = None \<and> cfg_needs idx pins r m"
    and clo: "problems = [] \<longrightarrow> (\<forall>(m, e) \<in> set sub. set (re_deps e) \<subseteq> fst ` set sub)"
    using R(1) by (auto simp: cfg_run_def)
  have all: "n \<in> fst ` set sub" if "problems = []" "cfg_needs idx pins r n" for n
    using that(2)
  proof (induction rule: cfg_needs.induct)
    case root then show ?case using R(2) that(1) by simp
  next
    case (dep m e d)
    then have "(m, e) \<in> set sub" using ent by force
    then show ?case using clo that(1) dep.hyps(3) by blast
  qed
  have look: "map_of sub n = (if cfg_needs idx pins r n then find_pinned idx pins n else None)" if p: "problems = []" for n
  proof (cases "cfg_needs idx pins r n")
    case True
    then obtain e where "map_of sub n = Some e" using all [OF p] by (metis map_of_eq_None_iff not_None_eq)
    then show ?thesis using ent True map_of_SomeD [of sub n e] by auto
  next
    case False
    then show ?thesis using ent by (auto simp: map_of_eq_None_iff)
  qed
  show thesis
  proof (rule that [OF r])
    show "problems = [] \<longleftrightarrow> (\<forall>n. cfg_needs idx pins r n \<longrightarrow> find_pinned idx pins n \<noteq> None)"
      using prob all ent by (cases problems) fastforce+
  qed (use look in blast)
qed


section \<open>What is desired\<close>

definition root_ok :: "salt_repo_index \<Rightarrow> SystemConfig \<Rightarrow> string \<Rightarrow> bool" where
  "root_ok idx cfg r \<longleftrightarrow> (\<forall>n. cfg_needs idx (cf_pins cfg) r n \<longrightarrow> find_pinned idx (cf_pins cfg) n \<noteq> None)"

text \<open>The specification: what some root that can be resolved needs.\<close>

definition declared :: "salt_repo_index \<Rightarrow> SystemConfig \<Rightarrow> string \<Rightarrow> bool" where
  "declared idx cfg n \<longleftrightarrow> (\<exists>r \<in> set (cf_packages cfg). root_ok idx cfg r \<and> cfg_needs idx (cf_pins cfg) r n)"

lemma add_roots:
  "\<exists>d ok. ofold (add_root idx cfg) rs s = Some (d, ok) \<and>
     (\<forall>n. map_of d n = (case map_of (fst s) n of Some e \<Rightarrow> Some e
        | None \<Rightarrow> if \<exists>r \<in> set rs. root_ok idx cfg r \<and> cfg_needs idx (cf_pins cfg) r n then find_pinned idx (cf_pins cfg) n else None)) \<and>
     (ok \<longleftrightarrow> snd s \<and> (cf_on_missing_artifact cfg = ''skip'' \<or> (\<forall>r \<in> set rs. root_ok idx cfg r)))"
proof (induction rs arbitrary: s)
  case Nil
  then show ?case by (cases s) (auto split: option.split)
next
  case (Cons r rs)
  obtain sub problems where r: "resolve_root idx (cf_pins cfg) r = Some (sub, problems)" "problems = [] \<longleftrightarrow> root_ok idx cfg r"
    "problems = [] \<Longrightarrow> \<forall>n. map_of sub n = (if cfg_needs idx (cf_pins cfg) r n then find_pinned idx (cf_pins cfg) n else None)"
    using resolve_root_spec [of idx "cf_pins cfg" r] unfolding root_ok_def by metis
  let ?s = "if problems \<noteq> [] then (fst s, snd s \<and> cf_on_missing_artifact cfg = ''skip'') else (fst s @ sub, snd s)"
  have a: "add_root idx cfg r s = Some ?s" using r(1) by (simp add: add_root_def)
  obtain d ok where IH: "ofold (add_root idx cfg) rs ?s = Some (d, ok)"
     "\<forall>n. map_of d n = (case map_of (fst ?s) n of Some e \<Rightarrow> Some e
        | None \<Rightarrow> if \<exists>r \<in> set rs. root_ok idx cfg r \<and> cfg_needs idx (cf_pins cfg) r n then find_pinned idx (cf_pins cfg) n else None)"
     "ok \<longleftrightarrow> snd ?s \<and> (cf_on_missing_artifact cfg = ''skip'' \<or> (\<forall>r \<in> set rs. root_ok idx cfg r))"
    using Cons.IH [of ?s] by blast
  have "map_of d n = (case map_of (fst s) n of Some e \<Rightarrow> Some e
        | None \<Rightarrow> if \<exists>r \<in> set (r # rs). root_ok idx cfg r \<and> cfg_needs idx (cf_pins cfg) r n then find_pinned idx (cf_pins cfg) n else None)" for n
  proof (cases "problems = []")
    case True
    then show ?thesis using IH(2) r(2,3) by (auto simp: map_add_def root_ok_def split: option.splits)
  next
    case False
    then show ?thesis using IH(2) r(2) by auto
  qed
  moreover have "ok \<longleftrightarrow> snd s \<and> (cf_on_missing_artifact cfg = ''skip'' \<or> (\<forall>r \<in> set (r # rs). root_ok idx cfg r))"
    using IH(3) r(2) by auto
  ultimately show ?case using IH(1) a by auto
qed

lemma desired_pkgs_spec:
  obtains d ok where "desired_pkgs idx cfg = Some (d, ok)"
    "\<And>n. map_of d n = (if declared idx cfg n then find_pinned idx (cf_pins cfg) n else None)"
    "ok \<Longrightarrow> cf_on_missing_artifact cfg = ''skip'' \<or> (\<forall>r \<in> set (cf_packages cfg). root_ok idx cfg r)"
proof -
  obtain d ok where d: "ofold (add_root idx cfg) (cf_packages cfg) ([], True) = Some (d, ok)"
    "\<forall>n. map_of d n = (if declared idx cfg n then find_pinned idx (cf_pins cfg) n else None)"
    "ok \<longleftrightarrow> cf_on_missing_artifact cfg = ''skip'' \<or> (\<forall>r \<in> set (cf_packages cfg). root_ok idx cfg r)"
    using add_roots [of idx cfg "cf_packages cfg" "([], True)"] unfolding declared_def by simp blast
  show thesis by (rule that [of d "ok \<and> list_all (\<lambda>p. map_of d (fst p) \<noteq> None) (cf_pins cfg)"]) (use d in \<open>simp_all add: desired_pkgs_def\<close>)
qed

lemma desired_list_props:
  "(n, e) \<in> set (desired_list d) \<longleftrightarrow> map_of d n = Some e" "distinct (map fst (desired_list d))"
proof -
  have "n \<in> fst ` set d" if "map_of d n = Some e" using map_of_SomeD [OF that] by force
  moreover have "map_of d n \<noteq> None" if "n \<in> fst ` set d" using that by (simp add: map_of_eq_None_iff)
  ultimately show "(n, e) \<in> set (desired_list d) \<longleftrightarrow> map_of d n = Some e" unfolding desired_list_def by (cases "map_of d n") auto
  show "distinct (map fst (desired_list d))" by (simp add: desired_list_def comp_def)
qed

lemma cfg_plan_props:
  assumes "cfg_plan t d = Some plan" "\<forall>n e. map_of d n = Some e \<longrightarrow> re_name e = n"
  shows "set (pl_remove plan) = {n. salt_db_is_installed t n \<and> map_of d n = None}" "distinct (map re_name (pl_install plan))"
    "set (pl_install plan) = {e. map_of d (re_name e) = Some e \<and> \<not> desired_met t (re_name e, e)}"
proof -
  let ?kvs = "filter (\<lambda>kv. \<not> desired_met t kv) (desired_list d)"
  have p: "order_by_deps (map snd ?kvs) = Some (pl_install plan)"
    "pl_remove plan = filter (\<lambda>n. map_of d n = None) (map dp_name (salt_db_list_installed t))"
    using assms(1) by (auto simp: cfg_plan_def)
  have nm: "re_name (snd kv) = fst kv" if "kv \<in> set (desired_list d)" for kv
    using that assms(2) desired_list_props(1) [of "fst kv" "snd kv" d] by simp
  then have "map re_name (map snd ?kvs) = map fst ?kvs" by simp
  then have "distinct (map re_name (map snd ?kvs))" using desired_list_props(2) [of d] by (metis distinct_map_filter)
  note S = order_by_deps_spec(4) [OF p(1) this] order_by_deps_spec(1) [OF p(1)]
  show "distinct (map re_name (pl_install plan))" by (rule S)
  show "set (pl_remove plan) = {n. salt_db_is_installed t n \<and> map_of d n = None}"
    unfolding p(2) by (auto simp: salt_db_list_installed_def salt_db_is_installed_def list_ex_iff)
  show "set (pl_install plan) = {e. map_of d (re_name e) = Some e \<and> \<not> desired_met t (re_name e, e)}"
  proof (rule set_eqI)
    fix e
    have "e \<in> snd ` set ?kvs \<longleftrightarrow> (re_name e, e) \<in> set (desired_list d) \<and> \<not> desired_met t (re_name e, e)"
    proof
      assume "e \<in> snd ` set ?kvs"
      then obtain kv where "kv \<in> set (desired_list d)" "\<not> desired_met t kv" "e = snd kv" by auto
      then show "(re_name e, e) \<in> set (desired_list d) \<and> \<not> desired_met t (re_name e, e)" using nm [of kv] by simp
    next
      assume "(re_name e, e) \<in> set (desired_list d) \<and> \<not> desired_met t (re_name e, e)"
      then show "e \<in> snd ` set ?kvs" by (intro image_eqI [of _ _ "(re_name e, e)"]) simp_all
    qed
    then show "e \<in> set (pl_install plan) \<longleftrightarrow> e \<in> {e. map_of d (re_name e) = Some e \<and> \<not> desired_met t (re_name e, e)}"
      unfolding S(1) set_map desired_list_props(1) by simp
  qed
qed

section \<open>Applying the configuration\<close>

text \<open>What is installed is what is declared, at the version and release of the entry that the pins select.\<close>

definition native_declared :: "salt_repo_index \<Rightarrow> SystemConfig \<Rightarrow> tables \<Rightarrow> bool" where
  "native_declared idx cfg t \<longleftrightarrow> (\<forall>n. case salt_db_get_pkg t n of
     None \<Rightarrow> \<not> declared idx cfg n
   | Some p \<Rightarrow> declared idx cfg n \<and> (\<exists>e. find_pinned idx (cf_pins cfg) n = Some e \<and> dp_version p = re_version e \<and> dp_release p = re_release e))"

lemma declared_found: "declared idx cfg n \<Longrightarrow> find_pinned idx (cf_pins cfg) n \<noteq> None"
  by (auto simp: declared_def root_ok_def)

lemma cfg_native_converges:
  assumes wf: "db_wf (w_tab w)" "\<forall>n. deletes_ok (env_sql (sys_env y)) n"
    and d: "\<And>n. map_of d n = (if declared idx cfg n then find_pinned idx (cf_pins cfg) n else None)"
    and plan: "cfg_plan (w_tab w) d = Some plan"
    and ix: "index_truthful y idx" "inj_on (cache_file y opt) (set (ri_items idx))"
    and run: "native_transaction y opt c ctx plan op f w = (0, w')" "real_run plan f" "\<not> tf_allow_unverified f"
  shows "native_declared idx cfg (w_tab w')"
proof -
  have nm: "re_name e = n \<and> e \<in> set (ri_items idx)" if "map_of d n = Some e" for n e
    using that d find_pinned_name [of idx "cf_pins cfg" n e] by (auto split: if_splits)
  then have "\<forall>n e. map_of d n = Some e \<longrightarrow> re_name e = n" by blast
  note P = cfg_plan_props [OF plan this]
  have inst: "map_of d (re_name e) = Some e" "e \<in> set (ri_items idx)" if "e \<in> set (pl_install plan)" for e
  proof -
    show "map_of d (re_name e) = Some e" using that unfolding P(3) by simp
    then show "e \<in> set (ri_items idx)" using nm by blast
  qed
  have "inj_on (cache_file y opt) (set (pl_install plan))" by (rule inj_on_subset [OF ix(2)]) (use inst(2) in blast)
  then have cf: "distinct (map (cache_file y opt) (pl_install plan))" using P(2) by (simp add: distinct_map)
  have new: "\<exists>p. salt_db_get_pkg (w_tab w') (re_name e) = Some p \<and> dp_version p = re_version e \<and> dp_release p = re_release e"
    if e: "e \<in> set (pl_install plan)" for e
  proof -
    obtain b ar a where v: "sys_sha256 y b = re_sha256 e" "salt_archive_open (sys_toml y) b = Some ar" "pkg_view (w_tab w') (re_name e) = Some a"
      "dp_version (pa_row a) = pm_version (ar_meta ar)" "dp_release (pa_row a) = pm_release (ar_meta ar)"
      using native_installs_verified [OF wf P(2) cf run e] by blast
    then have "pm_version (ar_meta ar) = re_version e \<and> pm_release (ar_meta ar) = re_release e"
      using ix(1) inst(2) [OF e] unfolding index_truthful_def by blast
    then show ?thesis using v(3-5) by (simp add: get_pkg_view)
  qed
  have old: "salt_db_get_pkg (w_tab w') n = (if n \<in> set (pl_remove plan) then None else salt_db_get_pkg (w_tab w) n)"
    if "n \<notin> re_name ` set (pl_install plan)" for n
  proof -
    have "pkg_view (w_tab w') n = (if n \<in> set (pl_remove plan) then None else pkg_view (w_tab w) n)"
      using native_commit_view [OF wf P(2) run(1,2)] that by blast
    then show ?thesis by (simp add: get_pkg_view)
  qed
  show ?thesis unfolding native_declared_def
  proof
    fix n
    show "case salt_db_get_pkg (w_tab w') n of None \<Rightarrow> \<not> declared idx cfg n
      | Some p \<Rightarrow> declared idx cfg n \<and> (\<exists>e. find_pinned idx (cf_pins cfg) n = Some e \<and> dp_version p = re_version e \<and> dp_release p = re_release e)"
    proof (cases "declared idx cfg n")
      case False
      then have none: "map_of d n = None" using d by simp
      have "n \<notin> re_name ` set (pl_install plan)" using inst(1) none by force
      moreover have "salt_db_get_pkg (w_tab w) n = None \<or> n \<in> set (pl_remove plan)" using none P(1) by (simp add: get_pkg_None)
      ultimately show ?thesis using old [of n] False by auto
    next
      case True
      then obtain e where e: "find_pinned idx (cf_pins cfg) n = Some e" using declared_found by blast
      then have de: "map_of d n = Some e" "re_name e = n" using True d nm by auto
      show ?thesis
      proof (cases "n \<in> re_name ` set (pl_install plan)")
        case ins: True
        then obtain e' where "e' \<in> set (pl_install plan)" "n = re_name e'" by blast
        then have "e \<in> set (pl_install plan)" using inst(1) [of e'] de(1) by simp
        then show ?thesis using new [of e] True e de(2) by auto
      next
        case no: False
        then have "e \<notin> set (pl_install plan)" using de(2) by blast
        then have "desired_met (w_tab w) (n, e)" using de unfolding P(3) by simp
        moreover have "n \<notin> set (pl_remove plan)" using P(1) de(1) by simp
        ultimately show ?thesis using old [OF no] True e by (auto simp: desired_met_def split: option.splits)
      qed
    qed
  qed
qed

lemma apply_native_converges:
  assumes "apply_native y opt cfg f w = (0, w')" "load_index y opt w = Some idx"
    and "\<not> tf_dry_run f" "\<not> tf_download_only f" "\<not> tf_allow_unverified f"
    and "db_wf (w_tab w)" "\<forall>n. deletes_ok (env_sql (sys_env y)) n"
    and "index_truthful y idx" "inj_on (cache_file y opt) (set (ri_items idx))"
  shows "native_declared idx cfg (w_tab w')"
proof -
  obtain d ok where d: "desired_pkgs idx cfg = Some (d, ok)"
    "\<And>n. map_of d n = (if declared idx cfg n then find_pinned idx (cf_pins cfg) n else None)"
    by (rule desired_pkgs_spec [of idx cfg]) (rule that)
  then obtain plan where plan: "cfg_plan (w_tab w) d = Some plan"
    using assms(1,2) by (auto simp: apply_native_def Let_def split: if_splits option.splits)
  show ?thesis
  proof (cases "pl_install plan = [] \<and> pl_remove plan = []")
    case True
    have nm: "re_name e = n" if "map_of d n = Some e" for n e
      using that d(2) find_pinned_name [of idx "cf_pins cfg" n e] by (auto split: if_splits)
    then have "\<forall>n e. map_of d n = Some e \<longrightarrow> re_name e = n" by blast
    note P = cfg_plan_props [OF plan this]
    have "w' = w" using assms(1,2) d(1) plan True by (auto simp: apply_native_def Let_def split: if_splits)
    have "{n. salt_db_is_installed (w_tab w) n \<and> map_of d n = None} = {}" using P(1) True by simp
    then have "salt_db_get_pkg (w_tab w) n = None" if "\<not> declared idx cfg n" for n using that by (auto simp: get_pkg_None d(2))
    moreover have "\<exists>e. find_pinned idx (cf_pins cfg) n = Some e \<and> desired_met (w_tab w) (n, e)" if de: "declared idx cfg n" for n
    proof -
      obtain e where e: "find_pinned idx (cf_pins cfg) n = Some e" using de declared_found by blast
      then have m: "map_of d n = Some e" using de d(2) by simp
      have "e \<notin> set (pl_install plan)" using True by simp
      then have "desired_met (w_tab w) (n, e)" using m nm [OF m] unfolding P(3) by simp
      then show ?thesis using e by blast
    qed
    ultimately show ?thesis unfolding native_declared_def \<open>w' = w\<close> by (fastforce simp: desired_met_def split: option.splits)
  next
    case False
    then have "real_run plan f" using assms(3,4) by (auto simp: real_run_def)
    moreover obtain c ctx where "native_transaction y opt c ctx plan ''config-apply'' f w = (0, w')"
      using assms(1,2) d(1) plan False by (auto simp: apply_native_def Let_def split: if_splits)
    ultimately show ?thesis using cfg_native_converges [OF assms(6,7) d(2) plan assms(8,9) _ _ assms(5)] by blast
  qed
qed

text \<open>The strata subsystem does not touch the packages of the base system.\<close>

definition strata_keep :: "ensure_ops \<Rightarrow> world expose_ops \<Rightarrow> strata \<Rightarrow> bool" where
  "strata_keep eo xo st \<longleftrightarrow> (\<forall>a b c l. keeps_tables (xo_ensure eo a b) \<and> keeps_tables (so_install st a l) \<and> keeps_tables (xo_desktop xo a b) \<and>
     keeps_tables (xo_add xo a b c) \<and> keeps_tables (xo_remove xo a)) \<and> (\<forall>p w. w_tab (xo_unlink xo p w) = w_tab w)"

lemma keeps_tablesD: "keeps_tables f \<Longrightarrow> f w = (r, w') \<Longrightarrow> w_tab w' = w_tab w"
  by (metis keeps_tables_def snd_conv)

lemma strata_keep_tab:
  assumes "strata_keep eo xo st"
  shows "xo_ensure eo a b w = (n, w') \<Longrightarrow> w_tab w' = w_tab w" "so_install st a l w = (n, w') \<Longrightarrow> w_tab w' = w_tab w"
    "xo_desktop xo a b w = (r, w') \<Longrightarrow> w_tab w' = w_tab w" "xo_add xo a b c w = (r, w') \<Longrightarrow> w_tab w' = w_tab w"
    "xo_remove xo a w = (r, w') \<Longrightarrow> w_tab w' = w_tab w" "w_tab (xo_unlink xo p w) = w_tab w"
  using assms unfolding strata_keep_def by (blast intro: keeps_tablesD)+

lemma stratum_missing_tables: "w_tab (snd (stratum_missing eo st f sc w)) = w_tab w" if k: "strata_keep eo xo st"
  by (auto simp: stratum_missing_def Let_def dest: strata_keep_tab(2) [OF k] split: option.splits prod.splits)

lemma apply_strata_cfg_tables: "strata_keep eo xo st \<Longrightarrow> w_tab (snd (apply_strata_cfg fo eo st f scs rc w)) = w_tab w"
proof (induction fo eo st f scs rc w rule: apply_strata_cfg.induct)
  case (2 fo eo st f sc scs rc w)
  obtain n w1 where m: "stratum_missing eo st f sc w = (n, w1)" by fastforce
  obtain e w2 where e: "xo_ensure eo (sg_name sc) (sg_recipe sc) w = (e, w2)" by fastforce
  obtain n3 w3 where m3: "stratum_missing eo st f sc w2 = (n3, w3)" by fastforce
  have "w_tab w1 = w_tab w" "w_tab w2 = w_tab w" "w_tab w3 = w_tab w2"
    using stratum_missing_tables [OF 2(5), of f sc w] stratum_missing_tables [OF 2(5), of f sc w2] strata_keep_tab(1) [OF 2(5) e] m e m3
    by simp_all
  then show ?case using 2 m e m3 by (auto simp: Let_def)
qed simp

lemma expose_one_tables: "w_tab (snd (expose_one xo opt f cur ec s)) = w_tab (snd s)" if k: "strata_keep eo xo st"
  by (cases s) (auto simp: expose_one_def Let_def dest!: strata_keep_tab(3,4) [OF k] split: prod.splits if_splits)

lemma unexpose_one_tables: "w_tab (snd (unexpose_one xo opt f dcl e s)) = w_tab (snd s)" if k: "strata_keep eo xo st"
  by (cases s) (auto simp: unexpose_one_def Let_def strata_keep_tab(6) [OF k] dest!: strata_keep_tab(5) [OF k] split: prod.splits if_splits)

lemma fold_keeps: "(\<And>x s. g (f x s) = g s) \<Longrightarrow> g (fold f xs s) = g s"
  by (induction xs arbitrary: s) simp_all

lemma apply_expose_tables: "strata_keep eo xo st \<Longrightarrow> w_tab (snd (apply_expose xo opt ecs f w)) = w_tab w"
  using fold_keeps [of "\<lambda>s. w_tab (snd s)" "expose_one xo opt f _"] fold_keeps [of "\<lambda>s. w_tab (snd s)" "unexpose_one xo opt f _"]
  by (simp add: apply_expose_def Let_def expose_one_tables unexpose_one_tables)

lemma lock_write_tables: "lock_write now fo y opt path upd w = (0, w') \<Longrightarrow> w_tab w' = w_tab w"
  by (drule lock_write_text(1)) (auto simp: put_file_def)

text \<open>The part of \<open>config_apply\<close> after its checks.\<close>

lemma config_apply_success:
  assumes "config_apply now fo eo xo st y opt args w = (0, w')" "parse_txn_flags (filter (\<lambda>a. a \<noteq> ''--relock'') args) default_flags = Some (f, rest)"
    and "config_load y (system_config_path y opt) w = Inr cfg" "cf_have_native cfg" "\<not> cf_allow_unverified_repro cfg"
    and "w_files w (system_config_path y opt) \<noteq> None" "w_files w (lock_path_for opt []) = None \<or> ''--relock'' \<in> set args"
    and "\<not> tf_dry_run f" "\<not> tf_download_only f"
  obtains w1 w2 w3 where "apply_native y opt cfg f w = (0, w1)"
    "w2 = (if cf_have_strata cfg then snd (apply_strata_cfg fo eo st f (cf_strata cfg) 0 w1) else w1)"
    "w3 = (if cf_have_expose cfg then snd (apply_expose xo opt (cf_expose cfg) f w2) else w2)"
    "lock_write now fo y opt (lock_path_for opt []) False w3 = (0, w')"
proof -
  obtain rc1 w1 where n: "apply_native y opt cfg f w = (rc1, w1)" by fastforce
  obtain rc2 w2 where s: "(if rc1 = 0 \<and> cf_have_strata cfg then apply_strata_cfg fo eo st f (cf_strata cfg) 0 w1 else (rc1, w1)) = (rc2, w2)" by fastforce
  obtain rc3 w3 where x: "(if rc2 = 0 \<and> cf_have_expose cfg then apply_expose xo opt (cf_expose cfg) f w2 else (rc2, w2)) = (rc3, w3)" by fastforce
  have l: "(w_files w (lock_path_for opt []) \<noteq> None \<and> \<not> ''--relock'' \<in> set args) = False" using assms(7) by simp
  have cv: "config_converge fo eo st y opt cfg f False w = (rc2, w2)" using n s assms(4,9) by (simp add: config_converge_def)
  have e: "rc3 = 0" "lock_write now fo y opt (lock_path_for opt []) False w3 = (0, w')"
    using assms(1-3,5,6,8,9) cv x unfolding config_apply_def Let_def l
    by (auto split: if_splits)
  show thesis
  proof (rule that)
    have "rc2 = 0" using x e(1) by (auto split: if_splits)
    then have "rc1 = 0" using s by (auto split: if_splits)
    show "apply_native y opt cfg f w = (0, w1)" using n \<open>rc1 = 0\<close> by simp
    show "w2 = (if cf_have_strata cfg then snd (apply_strata_cfg fo eo st f (cf_strata cfg) 0 w1) else w1)"
      using s \<open>rc1 = 0\<close> by (auto split: if_splits)
    show "w3 = (if cf_have_expose cfg then snd (apply_expose xo opt (cf_expose cfg) f w2) else w2)"
      using x \<open>rc2 = 0\<close> by (auto split: if_splits)
  qed (rule e(2))
qed

text \<open>
  C30.  A configuration that is applied is what is installed: when \<^verbatim>\<open>salt config apply\<close>, run for real and without a
  lock file or with \<^verbatim>\<open>--relock\<close>, returns 0, the installed packages are exactly those that the declared packages
  need (leaving out, under the policy \<^verbatim>\<open>skip\<close>, a declared package whose dependencies cannot be found), each at
  the version and release of the entry its pin selects, or of the newest one.  The strata and the exposed
  commands, handled afterwards, and the lock file written at the end change none of it.
\<close>

theorem config_apply_converges:
  assumes "config_apply now fo eo xo st y opt args w = (0, w')" "parse_txn_flags (filter (\<lambda>a. a \<noteq> ''--relock'') args) default_flags = Some (f, rest)"
    and "config_load y (system_config_path y opt) w = Inr cfg" "cf_have_native cfg" "\<not> cf_allow_unverified_repro cfg"
    and "w_files w (system_config_path y opt) \<noteq> None" "w_files w (lock_path_for opt []) = None \<or> ''--relock'' \<in> set args"
    and "\<not> tf_dry_run f" "\<not> tf_download_only f" "\<not> tf_allow_unverified f"
    and "db_wf (w_tab w)" "\<forall>n. deletes_ok (env_sql (sys_env y)) n" "strata_keep eo xo st"
    and "load_index y opt w = Some idx" "index_truthful y idx" "inj_on (cache_file y opt) (set (ri_items idx))"
  shows "native_declared idx cfg (w_tab w')"
proof -
  obtain w1 w2 w3 where s: "apply_native y opt cfg f w = (0, w1)"
    "w2 = (if cf_have_strata cfg then snd (apply_strata_cfg fo eo st f (cf_strata cfg) 0 w1) else w1)"
    "w3 = (if cf_have_expose cfg then snd (apply_expose xo opt (cf_expose cfg) f w2) else w2)"
    "lock_write now fo y opt (lock_path_for opt []) False w3 = (0, w')"
    by (rule config_apply_success [OF assms(1-9)])
  have "native_declared idx cfg (w_tab w1)" by (rule apply_native_converges [OF s(1) assms(14,8-12,15,16)])
  moreover have "w_tab w' = w_tab w1"
    using lock_write_tables [OF s(4)] by (simp add: s(2,3) apply_strata_cfg_tables [OF assms(13)] apply_expose_tables [OF assms(13)])
  ultimately show ?thesis by simp
qed

section \<open>An example\<close>

definition ex_ensure :: ensure_ops where
  "ex_ensure = \<lparr>xo_ensure = \<lambda>n r w. (0, w), xo_names = \<lambda>n w. Some []\<rparr>"

definition ex_expose :: "world expose_ops" where
  "ex_expose = \<lparr>xo_open = \<lambda>w. True, xo_get = \<lambda>n w. True, xo_exposed = \<lambda>w. [], xo_desktop = \<lambda>s c w. (SALT_OK, w),
     xo_add = \<lambda>s c a w. (SALT_OK, w), xo_remove = \<lambda>a w. (SALT_OK, w), xo_exists = \<lambda>p w. False, xo_unlink = \<lambda>p w. w\<rparr>"

definition ex_strata_ops :: strata where
  "ex_strata_ops = \<lparr>so_install = \<lambda>n l w. (0, w), so_remove = \<lambda>n l w. (0, w), so_update = \<lambda>n w. (0, w), so_choose = \<lambda>n w. n\<rparr>"

definition ex_cfg_tree :: salt_toml where
  "ex_cfg_tree = TTable [(''native'', TTable [(''packages'', TArray [TString ''lib''])]),
     (''expose'', TTable [(''arch/htop'', TString ''top'')])]"

text \<open>The index lists \<^verbatim>\<open>lib\<close> as it is installed.\<close>

definition ex_cfg_index :: salt_toml where
  "ex_cfg_index = TTable [(''package'', TArray [TTable [(''name'', TString ''lib''), (''version'', TString ''1.0''),
     (''release'', TInt 1), (''sha256'', TString (replicate 64 CHR ''0''))]])]"

definition ex_cfg_sys :: sys where
  "ex_cfg_sys = ex_sys\<lparr>sys_conf_load := \<lambda>p. if p = ''/etc/salt/system.lua'' then Some ex_cfg_tree else None, sys_toml := \<lambda>s. Some ex_cfg_index\<rparr>"

definition ex_cfg_world :: world where
  "ex_cfg_world = ex_world\<lparr>w_files := [''/etc/salt/system.lua'' \<mapsto> [], index_path_for ex_sys ex_opts \<mapsto> []],
     w_db := \<lparr>db_tab = ex_tables [''lib''] [], db_saved = None\<rparr>\<rparr>"

lemma ex_cfg_runs: "fst (config_apply ''now'' ex_foreign ex_ensure ex_expose ex_strata_ops ex_cfg_sys ex_opts [] ex_cfg_world) = 0"
  by code_simp


lemma ex_cfg_load:
  "config_load ex_cfg_sys (system_config_path ex_cfg_sys ex_opts) ex_cfg_world =
     Inr (empty_config\<lparr>cf_have_native := True, cf_packages := [''lib''], cf_have_expose := True,
       cf_expose := [\<lparr>ec_stratum = ''arch'', ec_command = ''htop'', ec_alias = ''top'', ec_desktop = False\<rparr>]\<rparr>)"
  by code_simp

lemma ex_cfg_loaded: "map_option (\<lambda>i. map (\<lambda>e. re_sha256 e = []) (ri_items i)) (load_index ex_cfg_sys ex_opts ex_cfg_world) = Some [False]"
  by code_simp

theorem config_apply_converges_witness:
  "\<exists>idx cfg. load_index ex_cfg_sys ex_opts ex_cfg_world = Some idx \<and>
     native_declared idx cfg (w_tab (snd (config_apply ''now'' ex_foreign ex_ensure ex_expose ex_strata_ops ex_cfg_sys ex_opts [] ex_cfg_world)))"
proof -
  let ?r = "config_apply ''now'' ex_foreign ex_ensure ex_expose ex_strata_ops ex_cfg_sys ex_opts [] ex_cfg_world"
  obtain idx where idx: "load_index ex_cfg_sys ex_opts ex_cfg_world = Some idx" "\<exists>e. ri_items idx = [e] \<and> re_sha256 e \<noteq> []"
    using ex_cfg_loaded by (auto simp: map_eq_Cons_conv)
  have r: "?r = (0, snd ?r)" using ex_cfg_runs by (metis prod.collapse)
  have "parse_txn_flags (filter (\<lambda>a. a \<noteq> ''--relock'') []) default_flags = Some (default_flags, [])" by code_simp
  note C = config_apply_converges [OF r this ex_cfg_load]
  have "native_declared idx (empty_config\<lparr>cf_have_native := True, cf_packages := [''lib''], cf_have_expose := True,
       cf_expose := [\<lparr>ec_stratum = ''arch'', ec_command = ''htop'', ec_alias = ''top'', ec_desktop = False\<rparr>]\<rparr>) (w_tab (snd ?r))"
  proof (rule C)
    show "w_files ex_cfg_world (system_config_path ex_cfg_sys ex_opts) \<noteq> None" by code_simp
    have "w_files ex_cfg_world (lock_path_for ex_opts []) = None" by code_simp
    then show "w_files ex_cfg_world (lock_path_for ex_opts []) = None \<or> ''--relock'' \<in> set []" by simp
    show "db_wf (w_tab ex_cfg_world)" by code_simp
    show "\<forall>n. deletes_ok (env_sql (sys_env ex_cfg_sys)) n" by (simp add: deletes_ok_def ex_cfg_sys_def ex_sys_def ex_env_def)
    show "strata_keep ex_ensure ex_expose ex_strata_ops" by (simp add: strata_keep_def keeps_tables_def ex_ensure_def ex_expose_def ex_strata_ops_def)
    show "load_index ex_cfg_sys ex_opts ex_cfg_world = Some idx" by (rule idx(1))
    show "index_truthful ex_cfg_sys idx" using idx(2) by (auto simp: index_truthful_def ex_cfg_sys_def ex_sys_def)
    show "inj_on (cache_file ex_cfg_sys ex_opts) (set (ri_items idx))" using idx(2) by auto
  qed (simp_all add: default_flags_def empty_config_def)
  then show ?thesis using idx(1) by blast
qed

section \<open>What the loader accepts\<close>

definition names_ok :: "string list \<Rightarrow> bool" where
  "names_ok ns \<longleftrightarrow> distinct ns \<and> [] \<notin> set ns"

definition stratum_wf :: "StratumConfig \<Rightarrow> bool" where
  "stratum_wf s \<longleftrightarrow> sg_name s \<noteq> [] \<and> names_ok (sg_packages s)"

definition expose_wf :: "ExposeConfig \<Rightarrow> bool" where
  "expose_wf e \<longleftrightarrow> ec_stratum e \<noteq> [] \<and> CHR ''/'' \<notin> set (ec_stratum e) \<and> ec_command e \<noteq> [] \<and> ec_alias e \<noteq> [] \<and> CHR ''/'' \<notin> set (ec_alias e)"

definition config_wf :: "SystemConfig \<Rightarrow> bool" where
  "config_wf c \<longleftrightarrow> names_ok (cf_packages c) \<and> distinct (map fst (cf_pins c)) \<and> [] \<notin> snd ` set (cf_pins c) \<and>
     list_all stratum_wf (cf_strata c) \<and> distinct (map sg_name (cf_strata c)) \<and>
     list_all expose_wf (cf_expose c) \<and> distinct (map ec_alias (cf_expose c)) \<and> cf_on_missing_artifact c \<in> {''fail'', ''skip''}"

lemma add_strings_ok: "efold (add_string what) vs [] = Inr l \<Longrightarrow> names_ok l"
  by (erule efold_inv [where P = names_ok]) (auto simp: names_ok_def add_string_def split: option.splits if_splits)

lemma toml_strings_ok: "toml_strings v what = Inr l \<Longrightarrow> names_ok l"
  by (auto simp: toml_strings_def dest: add_strings_ok split: salt_toml.splits)

lemma add_pins_ok: "efold add_pin kvs [] = Inr ps \<Longrightarrow> distinct (map fst ps) \<and> [] \<notin> snd ` set ps"
  by (erule efold_inv [where P = "\<lambda>ps. distinct (map fst ps) \<and> [] \<notin> snd ` set ps"])
    (auto simp: add_pin_def distinct_map_filter split: option.splits if_splits)

lemma add_stratums_ok: "efold add_stratum ss [] = Inr l \<Longrightarrow> list_all stratum_wf l \<and> distinct (map sg_name l)"
  by (erule efold_inv [where P = "\<lambda>l. list_all stratum_wf l \<and> distinct (map sg_name l)"])
    (auto simp: add_stratum_def Let_def ebind_Inr stratum_wf_def names_ok_def dest: toml_strings_ok split: if_splits option.splits)

lemma add_expose_ok:
  assumes "add_expose kv l = Inr l'" "list_all expose_wf l \<and> distinct (map ec_alias l)"
  shows "list_all expose_wf l' \<and> distinct (map ec_alias l')"
proof -
  have "CHR ''/'' \<notin> set (takeWhile (\<lambda>c. c \<noteq> CHR ''/'') (fst kv))" by (auto dest: set_takeWhileD)
  then show ?thesis using assms by (auto simp: add_expose_def Let_def ebind_Inr expose_wf_def split: if_splits)
qed

lemma load_native_wf: "load_native_cfg t c = Inr c' \<Longrightarrow> config_wf c \<Longrightarrow> config_wf c'"
proof -
  assume a: "load_native_cfg t c = Inr c'" "config_wf c"
  consider "c' = c" | r pkgs pins v what where "c' = c\<lparr>cf_have_native := True, cf_repo := r, cf_packages := pkgs, cf_pins := pins\<rparr>"
      "toml_strings v what = Inr pkgs" "pins = [] \<or> (\<exists>kvs. efold add_pin kvs [] = Inr pins)"
    using a(1) unfolding load_native_cfg_def by (fastforce simp: ebind_Inr split: if_splits option.splits salt_toml.splits)
  then show ?thesis
  proof cases
    case 2
    have "distinct (map fst pins) \<and> [] \<notin> snd ` set pins" using 2(3) add_pins_ok by auto
    then show ?thesis using a(2) toml_strings_ok [OF 2(2)] by (simp add: 2(1) config_wf_def)
  qed (simp add: a(2))
qed

lemma load_strata_wf: "load_strata_cfg t c = Inr c' \<Longrightarrow> config_wf c \<Longrightarrow> config_wf c'"
  by (auto simp: load_strata_cfg_def ebind_Inr config_wf_def dest!: add_stratums_ok split: option.splits salt_toml.splits)

lemma load_expose_wf: "load_expose_cfg t c = Inr c' \<Longrightarrow> config_wf c \<Longrightarrow> config_wf c'"
proof -
  have "list_all expose_wf l \<and> distinct (map ec_alias l)" if "efold add_expose kvs [] = Inr l" for kvs l
    using that by (rule efold_inv) (use add_expose_ok in auto)
  then show "load_expose_cfg t c = Inr c' \<Longrightarrow> config_wf c \<Longrightarrow> config_wf c'"
    by (auto simp: load_expose_cfg_def ebind_Inr config_wf_def split: option.splits salt_toml.splits)
qed

lemma load_policy_wf: "load_policy_cfg t c = Inr c' \<Longrightarrow> config_wf c \<Longrightarrow> config_wf c'"
proof -
  assume a: "load_policy_cfg t c = Inr c'" "config_wf c"
  consider "c' = c" | b1 b2 om where "c' = c\<lparr>cf_require_signed_native := b1, cf_allow_unverified_repro := b2, cf_on_missing_artifact := om\<rparr>"
      "om \<in> {''fail'', ''skip''}"
    using a(1) unfolding load_policy_cfg_def Let_def by (simp only: ebind_Inr split: option.splits if_splits) blast+
  then show ?thesis by cases (use a(2) in \<open>simp_all add: config_wf_def\<close>)
qed

text \<open>
  C31.  A configuration that the loader accepts is well formed: no package is declared twice or with an empty
  name, and a package has at most one pin, which is not empty; the strata have distinct, non-empty names; every
  exposed command names a stratum and a command, and the aliases are distinct, not empty and free of slashes;
  the policy for missing packages is \<^verbatim>\<open>fail\<close> or \<^verbatim>\<open>skip\<close>.
\<close>

theorem config_load_wf:
  assumes "config_load y path w = Inr cfg"
  shows "config_wf cfg"
proof -
  obtain t where "config_tree t = Inr cfg" using assms by (auto simp: config_load_def split: option.splits)
  then obtain c1 c2 c3 where c: "load_native_cfg t empty_config = Inr c1" "load_strata_cfg t c1 = Inr c2" "load_expose_cfg t c2 = Inr c3"
    "load_policy_cfg t c3 = Inr cfg"
    by (auto simp: config_tree_def ebind_Inr split: if_splits)
  have "config_wf empty_config" by (simp add: config_wf_def empty_config_def names_ok_def)
  then show ?thesis using c load_native_wf load_strata_wf load_expose_wf load_policy_wf by blast
qed

theorem config_load_wf_witness:
  "config_wf (empty_config\<lparr>cf_have_native := True, cf_packages := [''lib''], cf_have_expose := True,
       cf_expose := [\<lparr>ec_stratum = ''arch'', ec_command = ''htop'', ec_alias = ''top'', ec_desktop = False\<rparr>]\<rparr>)"
  by (rule config_load_wf [OF ex_cfg_load])

end
