(* ===== verification/Salt_Expose.thy ===== *)
theory Salt_Expose
  imports Salt_Config
begin

text \<open>
  The exposed commands of the configuration on the tables of \<open>Salt_Strata\<close>: the interface \<open>exposure\<close> of a store of exposed
  commands, the loop of \<^verbatim>\<open>apply_expose\<close> (\<^verbatim>\<open>cmd_config.cpp\<close>) over it, and its interpretation on the operations of
  \<^verbatim>\<open>stratum.c\<close>.
\<close>

text \<open>No declared alias is the command of another entry with a desktop file.\<close>

definition desktop_apart :: "ExposeConfig list \<Rightarrow> bool" where
  "desktop_apart ecs \<longleftrightarrow> (\<forall>ec \<in> set ecs. \<forall>ec' \<in> set ecs. ec_desktop ec \<longrightarrow> ec_alias ec' = ec_command ec \<longrightarrow> ec' = ec)"

section \<open>What a store of exposed commands promises\<close>

text \<open>
  \<open>rows s alias\<close> is the stratum, the command and the kind that an alias stands for.  An operation that fails changes
  no row; making a desktop entry may expose the command under its own name as well.
\<close>

locale exposure =
  fixes xo :: "'s expose_ops" and rows :: "'s \<Rightarrow> string \<Rightarrow> (string \<times> string \<times> string) option" and inv :: "'s \<Rightarrow> bool"
  assumes listed: "inv s \<Longrightarrow> rows s a = Some (st, c, k) \<longleftrightarrow> (\<exists>x \<in> set (xo_exposed xo s). ex_alias x = a \<and> ex_stratum x = st \<and> ex_command x = c \<and> ex_kind x = k)"
    and add: "xo_add xo st c a s = (r, s') \<Longrightarrow> rows s' = (if r = SALT_OK then (rows s)(a \<mapsto> (st, c, ''config'')) else rows s)"
    and desktop: "xo_desktop xo st c s = (r, s') \<Longrightarrow> rows s' = rows s \<or> rows s' = (rows s)(c \<mapsto> (st, c, ''cli''))"
    and remove: "xo_remove xo a s = (r, s') \<Longrightarrow> rows s' = (if r = SALT_OK then (rows s)(a := None) else rows s)"
    and unlink: "rows (xo_unlink xo p s) = rows s"
begin

definition want :: "ExposeConfig \<Rightarrow> string \<times> string \<times> string" where
  "want ec = (ec_stratum ec, ec_command ec, ''config'')"

text \<open>What the loop has done after the entries \<open>done\<close>.\<close>

definition loop_inv :: "'s \<Rightarrow> ExposeConfig list \<Rightarrow> ExposeConfig list \<Rightarrow> 's \<Rightarrow> bool" where
  "loop_inv s0 ecs done s \<longleftrightarrow> (\<forall>ec \<in> set done. rows s (ec_alias ec) = Some (want ec)) \<and>
     (\<forall>ec \<in> set ecs - set done. rows s (ec_alias ec) = rows s0 (ec_alias ec)) \<and>
     (\<forall>a. a \<notin> ec_alias ` set ecs \<longrightarrow> rows s a = rows s0 a \<or> (\<exists>st c. rows s a = Some (st, c, ''cli'')))"

lemma same_row:
  assumes "expose_same xo opt (xo_exposed xo s0) ec s" "inv s0"
  shows "rows s0 (ec_alias ec) = Some (want ec)"
proof -
  let ?l = "filter (\<lambda>e. ex_alias e = ec_alias ec) (xo_exposed xo s0)"
  have l: "?l \<noteq> []" "ex_stratum (last ?l) = ec_stratum ec" "ex_command (last ?l) = ec_command ec" "ex_kind (last ?l) = ''config''"
    using assms(1) by (auto simp: expose_same_def Let_def split: list.splits)
  have "last ?l \<in> set ?l" using l(1) by (rule last_in_set)
  then show ?thesis unfolding want_def using l(2-4) listed [OF assms(2), of "ec_alias ec" "ec_stratum ec" "ec_command ec" "''config''"] by auto
qed

lemma expose_one_rows:
  assumes "expose_one xo opt f (xo_exposed xo s0) ec (rc, s) = (0, s')" "\<not> tf_dry_run f" "inv s0"
  shows "rc = 0 \<and> (s' = s \<and> rows s0 (ec_alias ec) = Some (want ec) \<or>
    (rows s' = (rows s)(ec_alias ec \<mapsto> want ec) \<or> ec_desktop ec \<and> rows s' = (rows s)(ec_command ec \<mapsto> (ec_stratum ec, ec_command ec, ''cli''), ec_alias ec \<mapsto> want ec)))"
proof (cases "expose_same xo opt (xo_exposed xo s0) ec s")
  case True
  then show ?thesis using assms same_row [OF True assms(3)] by (simp add: expose_one_def)
next
  case False
  obtain r1 s1 where 1: "(if ec_desktop ec then xo_desktop xo (ec_stratum ec) (ec_command ec) s else (SALT_OK, s)) = (r1, s1)" by fastforce
  obtain r2 s2 where 2: "xo_add xo (ec_stratum ec) (ec_command ec) (ec_alias ec) s1 = (r2, s2)" by fastforce
  have r: "rc = 0" "r1 = SALT_OK" "r2 = SALT_OK" "s' = s2"
    using assms False 1 2 by (auto simp: expose_one_def Let_def split: if_splits)
  have "rows s' = (rows s1)(ec_alias ec \<mapsto> want ec)" using add [OF 2] r by (simp add: want_def)
  moreover have "rows s1 = rows s \<or> ec_desktop ec \<and> rows s1 = (rows s)(ec_command ec \<mapsto> (ec_stratum ec, ec_command ec, ''cli''))"
    using 1 desktop [of "ec_stratum ec" "ec_command ec" s r1 s1] by (auto split: if_splits)
  ultimately show ?thesis using r(1) by auto
qed

lemma loop_inv_step:
  assumes "loop_inv s0 ecs done s" "ec \<in> set ecs" "ec \<notin> set done" "set done \<subseteq> set ecs" "inj_on ec_alias (set ecs)" "desktop_apart ecs"
    and "expose_one xo opt f (xo_exposed xo s0) ec (rc, s) = (0, s')" "\<not> tf_dry_run f" "inv s0"
  shows "rc = 0 \<and> loop_inv s0 ecs (done @ [ec]) s'"
proof -
  have ne: "ec_alias x \<noteq> ec_alias ec" if "x \<in> set ecs" "x \<noteq> ec" for x using assms(2,5) that by (auto simp: inj_on_def)
  have ap: "ec_desktop ec \<Longrightarrow> ec_alias x \<noteq> ec_command ec" if "x \<in> set ecs" "x \<noteq> ec" for x
    using assms(2,6) that by (auto simp: desktop_apart_def)
  note R = expose_one_rows [OF assms(7-9)]
  then consider (same) "s' = s" "rows s0 (ec_alias ec) = Some (want ec)" | (put) "rows s' = (rows s)(ec_alias ec \<mapsto> want ec)"
    | (both) "ec_desktop ec" "rows s' = (rows s)(ec_command ec \<mapsto> (ec_stratum ec, ec_command ec, ''cli''), ec_alias ec \<mapsto> want ec)" by blast
  then have "loop_inv s0 ecs (done @ [ec]) s'"
  proof cases
    case same
    then show ?thesis using assms(1-3) by (auto simp: loop_inv_def)
  next
    case put
    then show ?thesis using assms(1-4) ne by (auto simp: loop_inv_def put)
  next
    case both
    then show ?thesis using assms(1-4) ne ap by (auto simp: loop_inv_def both(2))
  qed
  then show ?thesis using R by blast
qed

lemma expose_loop:
  assumes "fold (expose_one xo opt f (xo_exposed xo s0)) es (rc, s) = (0, s')" "loop_inv s0 ecs done s" "ecs = done @ es"
    and "distinct (map ec_alias ecs)" "desktop_apart ecs" "\<not> tf_dry_run f" "inv s0"
  shows "rc = 0 \<and> loop_inv s0 ecs ecs s'"
  using assms(1-3)
proof (induction es arbitrary: rc s "done")
  case Nil
  then show ?case by simp
next
  case (Cons ec es)
  have inj: "inj_on ec_alias (set ecs)" "distinct ecs" using assms(4) by (simp_all add: distinct_map)
  obtain rc1 s1 where 1: "expose_one xo opt f (xo_exposed xo s0) ec (rc, s) = (rc1, s1)" by fastforce
  have "rc1 = 0 \<and> (loop_inv s0 ecs (done @ [ec]) s1 \<longrightarrow> loop_inv s0 ecs ecs s')"
  proof (cases "rc1 = 0 \<and> loop_inv s0 ecs (done @ [ec]) s1")
    case True
    then show ?thesis using Cons.IH [of rc1 s1 "done @ [ec]"] Cons.prems 1 by simp
  next
    case False
    have "fst (fold (expose_one xo opt f (xo_exposed xo s0)) es (r, t)) = 0 \<Longrightarrow> r = 0" for r t
    proof (induction es arbitrary: r t)
      case (Cons x xs)
      have "fst (expose_one xo opt f (xo_exposed xo s0) x (r, t)) = 0 \<Longrightarrow> r = 0"
        by (auto simp: expose_one_def Let_def split: if_splits prod.splits)
      then show ?case using Cons by (metis fold_simps(2) prod.collapse)
    qed simp
    then have "rc1 = 0" using Cons.prems(1) 1 by (metis fold_simps(2) fst_conv)
    then show ?thesis using False by simp
  qed
  moreover from this have "rc = 0 \<and> loop_inv s0 ecs (done @ [ec]) s1"
    by (intro loop_inv_step [OF Cons.prems(2)]) (use 1 Cons.prems(3) inj assms(5-7) in auto)
  ultimately show ?case by blast
qed

lemma unexpose_one_rows:
  assumes "unexpose_one xo opt f dcl x (rc, s) = (0, s')" "\<not> tf_dry_run f"
  shows "rc = 0 \<and> rows s' = (if ex_kind x = ''config'' \<and> ex_alias x \<notin> dcl then (rows s)(ex_alias x := None) else rows s)"
  using assms remove [of "ex_alias x" s] unlink
  by (cases "xo_remove xo (ex_alias x) s") (auto simp: unexpose_one_def Let_def split: if_splits)

lemma unexpose_loop:
  assumes "fold (unexpose_one xo opt f dcl) xs (rc, s) = (0, s')" "\<not> tf_dry_run f"
  shows "rc = 0 \<and> (\<forall>a. rows s' a = (if \<exists>x \<in> set xs. ex_alias x = a \<and> ex_kind x = ''config'' \<and> a \<notin> dcl then None else rows s a))"
  using assms(1)
proof (induction xs arbitrary: rc s)
  case (Cons x xs)
  obtain rc1 s1 where 1: "unexpose_one xo opt f dcl x (rc, s) = (rc1, s1)" by fastforce
  then have IH: "rc1 = 0 \<and> (\<forall>a. rows s' a = (if \<exists>x \<in> set xs. ex_alias x = a \<and> ex_kind x = ''config'' \<and> a \<notin> dcl then None else rows s1 a))"
    using Cons by simp
  then have "rc = 0 \<and> rows s1 = (if ex_kind x = ''config'' \<and> ex_alias x \<notin> dcl then (rows s)(ex_alias x := None) else rows s)"
    using unexpose_one_rows [of opt f dcl x rc s s1] 1 assms(2) by simp
  then show ?case using IH by auto
qed simp

lemma apply_expose_rows:
  assumes "apply_expose xo opt ecs f s = (0, s')" "\<not> tf_dry_run f" "distinct (map ec_alias ecs)" "desktop_apart ecs" "inv s"
  shows "(\<forall>ec \<in> set ecs. rows s' (ec_alias ec) = Some (ec_stratum ec, ec_command ec, ''config'')) \<and>
    (\<forall>a st c. rows s' a = Some (st, c, ''config'') \<longrightarrow> a \<in> ec_alias ` set ecs)"
proof -
  obtain rc1 s1 where 1: "fold (expose_one xo opt f (xo_exposed xo s)) ecs (0, s) = (rc1, s1)" by fastforce
  have 2: "fold (unexpose_one xo opt f (ec_alias ` set ecs)) (xo_exposed xo s) (rc1, s1) = (0, s')"
    using assms(1) 1 by (auto simp: apply_expose_def Let_def split: if_splits)
  note U = unexpose_loop [OF 2 assms(2)]
  have "loop_inv s ecs [] s" by (simp add: loop_inv_def)
  then have L: "loop_inv s ecs ecs s1" using expose_loop [of opt f s ecs 0 s s1 ecs "[]"] 1 U assms(2-5) by simp
  show ?thesis
  proof (intro conjI ballI allI impI)
    fix ec assume ec: "ec \<in> set ecs"
    then have "rows s1 (ec_alias ec) = Some (want ec)" using L by (simp add: loop_inv_def)
    then show "rows s' (ec_alias ec) = Some (ec_stratum ec, ec_command ec, ''config'')" using U ec by (simp add: want_def)
  next
    fix a st c assume r: "rows s' a = Some (st, c, ''config'')"
    show "a \<in> ec_alias ` set ecs"
    proof (rule ccontr)
      assume n: "a \<notin> ec_alias ` set ecs"
      have r1: "rows s1 a = Some (st, c, ''config'')" and gone: "\<not> (\<exists>x \<in> set (xo_exposed xo s). ex_alias x = a \<and> ex_kind x = ''config'')"
        using U r n by (auto split: if_splits)
      have "rows s a = Some (st, c, ''config'')" using L n r1 by (auto simp: loop_inv_def)
      then show False using gone listed [OF assms(5), of a st c "''config''"] by blast
    qed
  qed
qed

end

section \<open>The tables of the strata are such a store\<close>

definition exposes :: "strata_env \<Rightarrow> string \<Rightarrow> strata_state expose_ops" where
  "exposes e root = \<lparr>xo_open = \<lambda>s. se_open e, xo_get = \<lambda>n s. salt_stratum_get s n \<noteq> None, xo_exposed = salt_expose_list,
     xo_desktop = \<lambda>n c s. case salt_stratum_get s n of Some st \<Rightarrow> salt_expose_desktop e st root c s | None \<Rightarrow> (SALT_ERR_NOTFOUND, s),
     xo_add = \<lambda>n c a s. salt_expose_add e root n c a ''config'' s, xo_remove = salt_expose_remove e,
     xo_exists = \<lambda>p s. ss_files s p \<noteq> None, xo_unlink = del_sfile e\<rparr>"

definition alias_rows :: "strata_state \<Rightarrow> string \<Rightarrow> (string \<times> string \<times> string) option" where
  "alias_rows s a = map_option (\<lambda>x. (ex_stratum x, ex_command x, ex_kind x)) (find (\<lambda>x. ex_alias x = a) (sd_exposed (ss_db s)))"

text \<open>The column of the aliases is the primary key.\<close>

definition alias_key :: "strata_state \<Rightarrow> bool" where
  "alias_key s \<longleftrightarrow> distinct (map ex_alias (sd_exposed (ss_db s)))"

lemma find_alias_filter:
  "find (\<lambda>y. ex_alias y = a) (filter (\<lambda>y. ex_alias y \<noteq> b) (l :: salt_exposed list)) = (if a = b then None else find (\<lambda>y. ex_alias y = a) l)"
  by (induction l) auto

lemma find_alias_iff:
  "distinct (map ex_alias (l :: salt_exposed list)) \<Longrightarrow> find (\<lambda>y. ex_alias y = a) l = Some x \<longleftrightarrow> x \<in> set l \<and> ex_alias x = a"
  by (induction l) auto

lemma alias_rows_put: "alias_rows (upd_sdb (put_exposed x) s) = (alias_rows s)(ex_alias x \<mapsto> (ex_stratum x, ex_command x, ex_kind x))"
  by (auto simp: fun_eq_iff alias_rows_def put_exposed_def find_alias_filter)

lemma alias_rows_files [simp]: "alias_rows (put_sfile p d s) = alias_rows s" "alias_rows (del_sfile e p s) = alias_rows s"
  by (simp_all add: alias_rows_def put_sfile_def del_sfile_def fun_eq_iff)

lemma expose_add_rows:
  "salt_expose_add e root st c a k s = (r, s') \<Longrightarrow> alias_rows s' = (if r = SALT_OK then (alias_rows s)(a \<mapsto> (st, c, k)) else alias_rows s)"
  by (auto simp: salt_expose_add_def expose_with_def Let_def alias_rows_put split: if_splits)

lemma alias_rows_remove: "alias_rows (upd_sdb (\<lambda>d. d\<lparr>sd_exposed := filter (\<lambda>y. ex_alias y \<noteq> a) (sd_exposed d)\<rparr>) s) = (alias_rows s)(a := None)"
  by (auto simp: fun_eq_iff alias_rows_def find_alias_filter)

lemma expose_desktop_rows:
  assumes "salt_expose_desktop e x root c s = (r, s')"
  shows "alias_rows s' = alias_rows s \<or> alias_rows s' = (alias_rows s)(c \<mapsto> (sm_name x, c, ''cli''))"
proof -
  consider "s' = s" | p d where "s' = snd (salt_expose_add e root (sm_name x) c c ''cli'' (put_sfile p d s))"
    using assms by (auto simp: salt_expose_desktop_def Let_def split: option.splits if_splits)
  then show ?thesis
  proof cases
    case 2
    obtain r2 s2 where "salt_expose_add e root (sm_name x) c c ''cli'' (put_sfile p d s) = (r2, s2)" by fastforce
    then show ?thesis using expose_add_rows [of e root "sm_name x" c c "''cli''" "put_sfile p d s" r2 s2] 2 by (simp split: if_splits)
  qed simp
qed

lemma exposes_laws:
  assumes "se_sql e DelExposed"
  shows "exposure (exposes e root) alias_rows alias_key"
proof
  fix s a st c k assume "alias_key s"
  then show "alias_rows s a = Some (st, c, k) \<longleftrightarrow>
      (\<exists>x \<in> set (xo_exposed (exposes e root) s). ex_alias x = a \<and> ex_stratum x = st \<and> ex_command x = c \<and> ex_kind x = k)"
    unfolding alias_key_def by (auto simp: alias_rows_def exposes_def salt_expose_list_def find_alias_iff)
next
  fix st c a s r and s' :: strata_state assume "xo_add (exposes e root) st c a s = (r, s')"
  then show "alias_rows s' = (if r = SALT_OK then (alias_rows s)(a \<mapsto> (st, c, ''config'')) else alias_rows s)"
    by (simp add: exposes_def expose_add_rows)
next
  fix st c s r and s' :: strata_state assume a: "xo_desktop (exposes e root) st c s = (r, s')"
  show "alias_rows s' = alias_rows s \<or> alias_rows s' = (alias_rows s)(c \<mapsto> (st, c, ''cli''))"
  proof (cases "salt_stratum_get s st")
    case (Some x)
    then have "sm_name x = st" by (auto simp: salt_stratum_get_def find_Some_iff)
    then show ?thesis using a Some expose_desktop_rows [of e x root c s r s'] by (simp add: exposes_def)
  qed (use a in \<open>simp add: exposes_def\<close>)
next
  fix a s r and s' :: strata_state assume "xo_remove (exposes e root) a s = (r, s')"
  then show "alias_rows s' = (if r = SALT_OK then (alias_rows s)(a := None) else alias_rows s)"
    using assms by (auto simp: exposes_def salt_expose_remove_def Let_def sql_try_def alias_rows_remove split: option.splits)
next
  show "alias_rows (xo_unlink (exposes e root) p s) = alias_rows s" for p s by (simp add: exposes_def)
qed

interpretation st: exposure "exposes (e\<lparr>se_sql := (se_sql e)(DelExposed := True)\<rparr>) root" alias_rows alias_key for e root
  by (rule exposes_laws) simp


definition ex_ecs :: "ExposeConfig list" where
  "ex_ecs = [\<lparr>ec_stratum = ''arch'', ec_command = ''htop'', ec_alias = ''top'', ec_desktop = False\<rparr>]"


end
