(* ===== verification/Salt_Trust.thy ===== *)
theory Salt_Trust
  imports Salt_Locked
begin

text \<open>
  Trust in contributors and the checks of recipes (\<^verbatim>\<open>src/halite/src/trust.c\<close>, \<^verbatim>\<open>src/salt/cmd_trust.cpp\<close>).  The trust
  database is a TOML file of the \<open>world\<close>.  The Lua interpreter that evaluates a recipe, the regular expressions of
  the C library and the directory tests are parameters (\<open>recipe_env\<close>).
\<close>

section \<open>Levels\<close>

datatype salt_trust_level = SALT_TRUST_UNKNOWN | SALT_TRUST_VOUCHED | SALT_TRUST_MAINTAINER | SALT_TRUST_DENOUNCED

primrec salt_trust_level_name :: "salt_trust_level \<Rightarrow> string" where
  "salt_trust_level_name SALT_TRUST_MAINTAINER = ''maintainer''"
| "salt_trust_level_name SALT_TRUST_VOUCHED = ''vouched''"
| "salt_trust_level_name SALT_TRUST_DENOUNCED = ''denounced''"
| "salt_trust_level_name SALT_TRUST_UNKNOWN = ''unknown''"

definition salt_trust_level_parse :: "string \<Rightarrow> salt_trust_level" where
  "salt_trust_level_parse s =
     (if s = ''maintainer'' then SALT_TRUST_MAINTAINER else if s = ''vouched'' then SALT_TRUST_VOUCHED
      else if s = ''denounced'' then SALT_TRUST_DENOUNCED else SALT_TRUST_UNKNOWN)"

section \<open>The trust database\<close>

definition contributors :: "salt_toml \<Rightarrow> salt_toml list" where
  "contributors t = (case salt_toml_get (Some t) ''contributor'' of Some (TArray cs) \<Rightarrow> cs | _ \<Rightarrow> [])"

definition con_str :: "salt_toml \<Rightarrow> string \<Rightarrow> string \<Rightarrow> string" where
  "con_str c k fallback = salt_toml_string (Some c) k fallback"

text \<open>The last entry of a name counts.\<close>

definition tree_level :: "salt_toml list \<Rightarrow> string \<Rightarrow> salt_trust_level" where
  "tree_level cs contributor =
     fold (\<lambda>c lvl. if con_str c ''name'' [] = contributor then salt_trust_level_parse (con_str c ''level'' ''unknown'') else lvl)
       cs SALT_TRUST_UNKNOWN"

definition salt_trust_lookup :: "sys \<Rightarrow> string \<Rightarrow> string \<Rightarrow> world \<Rightarrow> salt_trust_level" where
  "salt_trust_lookup y trustdb contributor w =
     (case salt_toml_parse_file y trustdb w of None \<Rightarrow> SALT_TRUST_UNKNOWN | Some t \<Rightarrow> tree_level (contributors t) contributor)"

text \<open>An entry as it is printed: name, level, by, reason and time, unescaped.\<close>

definition contributor_text :: "string \<Rightarrow> string \<Rightarrow> string \<Rightarrow> string \<Rightarrow> int \<Rightarrow> string" where
  "contributor_text name lvl by reason time =
     ''[[contributor]]'' @ NL # raw_kv ''name'' name @ raw_kv ''level'' lvl @ raw_kv ''by'' by @ raw_kv ''reason'' reason @
     emit_kv ''time'' (int_to_string time) @ [NL]"

definition contributor_again :: "salt_toml \<Rightarrow> string" where
  "contributor_again c =
     contributor_text (con_str c ''name'' []) (con_str c ''level'' ''unknown'') (con_str c ''by'' []) (con_str c ''reason'' [])
       (salt_toml_int (Some c) ''time'' 0)"

text \<open>\<open>now\<close> is the result of \<^verbatim>\<open>time\<close>.  A database that cannot be read counts as an empty one.\<close>

definition trust_db_text :: "int \<Rightarrow> salt_toml option \<Rightarrow> string \<Rightarrow> salt_trust_level \<Rightarrow> string \<Rightarrow> string \<Rightarrow> string" where
  "trust_db_text now t contributor lvl by reason =
     (let cs = (case t of None \<Rightarrow> [] | Some t \<Rightarrow> contributors t);
          new = contributor_text contributor (salt_trust_level_name lvl) by reason now;
          replaced = list_ex (\<lambda>c. con_str c ''name'' [] = contributor) cs
      in concat (map (\<lambda>c. if con_str c ''name'' [] = contributor then new else contributor_again c) cs) @
         (if replaced then [] else new))"

definition salt_trust_set :: "int \<Rightarrow> sys \<Rightarrow> string \<Rightarrow> string \<Rightarrow> salt_trust_level \<Rightarrow> string \<Rightarrow> string \<Rightarrow> world \<Rightarrow> salt_rc \<times> world" where
  "salt_trust_set now y trustdb contributor lvl by reason w =
     (let d = trust_db_text now (salt_toml_parse_file y trustdb w) contributor lvl by reason
      in if \<not> sys_write_ok y trustdb then (SALT_ERR_IO, w) else (SALT_OK, put_file trustdb d w))"

definition salt_trust_vouch :: "int \<Rightarrow> sys \<Rightarrow> string \<Rightarrow> string \<Rightarrow> string \<Rightarrow> string \<Rightarrow> world \<Rightarrow> salt_rc \<times> world" where
  "salt_trust_vouch now y trustdb voucher contributor reason w =
     (let vl = salt_trust_lookup y trustdb voucher w in
      if vl \<noteq> SALT_TRUST_MAINTAINER \<and> vl \<noteq> SALT_TRUST_VOUCHED then (SALT_ERR, w)
      else if salt_trust_lookup y trustdb contributor w = SALT_TRUST_DENOUNCED then (SALT_ERR, w)
      else salt_trust_set now y trustdb contributor SALT_TRUST_VOUCHED voucher (''vouched by '' @ voucher @ '': '' @ reason) w)"

section \<open>Recipes\<close>

datatype salt_risk_severity = SALT_RISK_INFO | SALT_RISK_WARN | SALT_RISK_BLOCK

record salt_finding =
  sf_severity :: salt_risk_severity
  sf_code :: string
  sf_message :: string

definition finding :: "salt_risk_severity \<Rightarrow> string \<Rightarrow> string \<Rightarrow> salt_finding" where
  "finding sev code msg = \<lparr>sf_severity = sev, sf_code = code, sf_message = msg\<rparr>"

definition salt_findings_has_block :: "salt_finding list \<Rightarrow> bool" where
  "salt_findings_has_block f = list_ex (\<lambda>x. sf_severity x = SALT_RISK_BLOCK) f"

text \<open>
  \<open>rv_is_dir\<close> is \<^verbatim>\<open>salt_is_dir\<close>, \<open>rv_conf\<close> is \<^verbatim>\<open>salt_conf_parse\<close> on a text, \<open>rv_error\<close> the message of its last error, \<open>rv_regex\<close>
  is \<^verbatim>\<open>regex_search\<close>.
\<close>

record recipe_env =
  rv_is_dir :: "string \<Rightarrow> bool"
  rv_conf :: "string \<Rightarrow> salt_toml option"
  rv_error :: string
  rv_regex :: "string \<Rightarrow> string \<Rightarrow> bool"

definition recipe_file_path :: "recipe_env \<Rightarrow> string \<Rightarrow> string" where
  "recipe_file_path rv p = (if rv_is_dir rv p then salt_join_path p ''recipe.lua'' else p)"

definition is_hex64 :: "string \<Rightarrow> bool" where
  "is_hex64 s \<longleftrightarrow> length s = 64 \<and> list_all isxdigit s"

definition warn_if :: "bool \<Rightarrow> string \<Rightarrow> string \<Rightarrow> salt_finding list" where
  "warn_if b code msg = (if b then [finding SALT_RISK_WARN code msg] else [])"

definition block_if :: "bool \<Rightarrow> string \<Rightarrow> string \<Rightarrow> salt_finding list" where
  "block_if b code msg = (if b then [finding SALT_RISK_BLOCK code msg] else [])"

text \<open>An optional string that is missing or empty.\<close>

definition no_text :: "string option \<Rightarrow> bool" where
  "no_text s \<longleftrightarrow> s = None \<or> s = Some []"

definition lint_source :: "salt_toml \<Rightarrow> salt_finding list" where
  "lint_source t =
     (let url = salt_toml_string_opt (Some t) ''source.url''; sha = salt_toml_string_opt (Some t) ''source.sha256'';
          local_src = starts_with (case url of Some u \<Rightarrow> u | None \<Rightarrow> []) ''file://''
      in block_if (no_text url) ''source-url'' ''missing source.url'' @
         (if no_text sha then block_if (\<not> local_src) ''source-sha'' ''missing source.sha256''
          else block_if (\<not> is_hex64 (the sha)) ''source-sha-fmt'' ''source.sha256 is not a 64 hex digit checksum''))"

definition lint_repro :: "salt_toml \<Rightarrow> salt_finding list" where
  "lint_repro t =
     (case salt_toml_string_opt (Some t) ''reproducibility.status'' of
        None \<Rightarrow> [finding SALT_RISK_WARN ''repro'' ''missing reproducibility.status'']
      | Some repro \<Rightarrow>
          if repro = ''unverified'' then
            warn_if (no_text (salt_toml_string_opt (Some t) ''reproducibility.reason'')) ''repro-reason'' ''unverified reproducibility needs a reason''
          else warn_if (repro \<noteq> ''verified'') ''repro-status'' ''unknown reproducibility.status'')"

definition lint_tree :: "salt_toml \<Rightarrow> salt_finding list" where
  "lint_tree t =
     (let arch = string_array_or_empty (Some t) ''arch''
      in block_if (salt_toml_string_opt (Some t) ''name'' = None) ''name'' ''missing name'' @
         block_if (salt_toml_string_opt (Some t) ''version'' = None) ''version'' ''missing version'' @
         warn_if (salt_toml_int (Some t) ''release'' 0 < 1) ''release'' ''release should be >= 1'' @
         block_if (arch = []) ''arch'' ''no arch declared'' @
         map (finding SALT_RISK_WARN ''arch-unknown'') (filter (\<lambda>a. a \<noteq> ''x86_64'' \<and> a \<noteq> ''aarch64'') arch) @
         block_if (no_text (salt_toml_string_opt (Some t) ''license'')) ''license'' ''missing license'' @
         lint_source t @
         warn_if (salt_toml_path (Some t) ''build.deps'' = None) ''build-deps'' ''no build deps declared'' @
         lint_repro t)"

text \<open>The flag \<^verbatim>\<open>strict\<close> is not looked at.\<close>

definition lint_common :: "recipe_env \<Rightarrow> string \<Rightarrow> bool \<Rightarrow> world \<Rightarrow> salt_rc \<times> salt_finding list" where
  "lint_common rv recipe_path strict w =
     (case w_files w (recipe_file_path rv recipe_path) of
        None \<Rightarrow> (SALT_ERR_NOTFOUND, [finding SALT_RISK_BLOCK ''no-recipe'' ''recipe.lua not found''])
      | Some txt \<Rightarrow>
          (case rv_conf rv txt of
             None \<Rightarrow> (SALT_ERR_FORMAT, [finding SALT_RISK_BLOCK ''parse'' (take 511 (''recipe does not evaluate: '' @ rv_error rv))])
           | Some t \<Rightarrow> (SALT_OK, lint_tree t)))"

definition salt_recipe_lint :: "recipe_env \<Rightarrow> string \<Rightarrow> world \<Rightarrow> salt_rc \<times> salt_finding list" where
  "salt_recipe_lint rv p w = lint_common rv p False w"

definition salt_recipe_admission_check :: "recipe_env \<Rightarrow> string \<Rightarrow> world \<Rightarrow> salt_rc \<times> salt_finding list" where
  "salt_recipe_admission_check rv p w = lint_common rv p True w"

section \<open>The scanner\<close>

record salt_scan_input =
  si_recipe_path :: string
  si_prev_recipe_text :: "string option"
  si_author_level :: salt_trust_level

text \<open>Runs of at least 32 hexadecimal digits are blanked, so that a checksum is not taken for an address.\<close>

function mask_hex :: "string \<Rightarrow> string" where
  "mask_hex [] = []"
| "mask_hex (c # s) =
     (if isxdigit c then
        let run = takeWhile isxdigit (c # s)
        in (if length run \<ge> 32 then replicate (length run) (CHR '' '') else run) @ mask_hex (dropWhile isxdigit (c # s))
      else c # mask_hex s)"
  by pat_completeness auto
termination by (relation "measure length") (auto simp: length_dropWhile_le le_imp_less_Suc)

definition has_any :: "string \<Rightarrow> string list \<Rightarrow> bool" where
  "has_any s ps = list_ex (has_substring s) ps"

definition wallet_in :: "recipe_env \<Rightarrow> string \<Rightarrow> bool" where
  "wallet_in rv body \<longleftrightarrow> rv_regex rv ''0x[0-9a-fA-F]{40}([^0-9a-fA-F]|$)'' body \<or>
     rv_regex rv ''(^|[^1-9A-HJ-NP-Za-km-z])[13][1-9A-HJ-NP-Za-km-z]{25,34}([^1-9A-HJ-NP-Za-km-z]|$)'' (mask_hex body) \<or>
     rv_regex rv ''bc1[ac-hj-np-z02-9]{11,71}'' (mask_hex body)"

definition scan_hook :: "string \<times> salt_toml \<Rightarrow> salt_finding list" where
  "scan_hook kv =
     (case (salt_hook_from_name (fst kv), salt_toml_as_string (Some (snd kv))) of
        (Some _, Some hbody) \<Rightarrow>
          finding SALT_RISK_WARN ''install-hook'' (take 159 (''declares a '' @ fst kv @ '' hook (runs as root at install time; review it)'')) #
          warn_if (has_any hbody [''curl'', ''wget'', ''http://'', ''https://'']) ''hook-network''
            (take 159 (fst kv @ '' hook references the network (hooks run without network)''))
      | _ \<Rightarrow> [finding SALT_RISK_BLOCK ''undeclared-hook'' (take 159 (''[hooks] '' @ fst kv @
                '' is not a declared hook (post_install, post_upgrade, pre_remove, post_remove) or not a string''))])"

definition scan_prev_hook :: "salt_toml \<Rightarrow> salt_toml \<Rightarrow> salt_hook_kind \<Rightarrow> salt_finding list" where
  "scan_prev_hook prev t k =
     (let key = take 31 (''hooks.'' @ salt_hook_name k);
          was = salt_toml_string_opt (Some prev) key; cur = salt_toml_string_opt (Some t) key
      in warn_if (cur \<noteq> None \<and> (was = None \<or> was \<noteq> cur)) ''hook-change''
           (take 95 (salt_hook_name k @ '' hook '' @ (if was \<noteq> None then ''changed'' else ''added''))))"

definition scan_prev :: "salt_toml \<Rightarrow> salt_toml \<Rightarrow> salt_finding list" where
  "scan_prev prev t =
     (let old_url = salt_toml_string (Some prev) ''source.url'' []; new_url = salt_toml_string (Some t) ''source.url'' [];
          old_sha = salt_toml_string (Some prev) ''source.sha256'' []; new_sha = salt_toml_string (Some t) ''source.sha256'' []
      in warn_if (old_url \<noteq> new_url) ''source-url-change'' ''source.url changed'' @
         block_if (old_url = new_url \<and> old_sha \<noteq> new_sha) ''sha-change-no-url'' ''source.sha256 changed without a source.url change'' @
         concat (map (scan_prev_hook prev t) hook_kinds))"

definition scan_author :: "salt_trust_level \<Rightarrow> salt_finding list" where
  "scan_author lvl =
     (if lvl = SALT_TRUST_DENOUNCED then [finding SALT_RISK_BLOCK ''denounced'' ''author is denounced'']
      else warn_if (lvl = SALT_TRUST_UNKNOWN) ''unknown-author'' ''author is unknown; requires maintainer review'')"

definition scan_tree :: "recipe_env \<Rightarrow> salt_scan_input \<Rightarrow> salt_toml option \<Rightarrow> salt_finding list" where
  "scan_tree rv inp t =
     warn_if (has_any (case t of Some t' \<Rightarrow> salt_toml_string (Some t') ''build.script'' [] | None \<Rightarrow> [])
         [''curl'', ''wget'', ''git clone'', ''http://'', ''https://''])
       ''build-network'' ''build script appears to access the network after fetch'' @
     block_if (rv_is_dir rv (si_recipe_path inp) \<and> rv_is_dir rv (salt_join_path (si_recipe_path inp) ''scripts''))
       ''undeclared-scripts'' ''recipe ships a scripts/ directory; declare install hooks in [hooks]'' @
     (case t of None \<Rightarrow> [] | Some t' \<Rightarrow> (case salt_toml_get (Some t') ''hooks'' of Some (TTable kvs) \<Rightarrow> concat (map scan_hook kvs) | _ \<Rightarrow> [])) @
     (case (si_prev_recipe_text inp, t) of
        (Some p, Some t') \<Rightarrow> (case rv_conf rv p of Some prev \<Rightarrow> scan_prev prev t' | None \<Rightarrow> []) | _ \<Rightarrow> [])"

definition salt_supplychain_scan :: "recipe_env \<Rightarrow> salt_scan_input \<Rightarrow> world \<Rightarrow> salt_rc \<times> salt_finding list" where
  "salt_supplychain_scan rv inp w =
     (case w_files w (recipe_file_path rv (si_recipe_path inp)) of
        None \<Rightarrow> (SALT_ERR_NOTFOUND, [finding SALT_RISK_BLOCK ''no-recipe'' ''recipe.lua not found''])
      | Some txt \<Rightarrow>
          (let body = c_str txt
           in (SALT_OK,
               block_if (wallet_in rv body) ''wallet'' ''possible crypto wallet address in recipe'' @
               warn_if (has_any body [''base64 -d'', ''base64 --decode'', ''eval '', ''| sh'', ''|sh'', ''| bash''])
                 ''obfuscation'' ''recipe contains eval/pipe-to-shell/base64 decoding'' @
               scan_tree rv inp (rv_conf rv txt) @ scan_author (si_author_level inp))))"

section \<open>The command\<close>

definition cmd_trust :: "int \<Rightarrow> recipe_env \<Rightarrow> sys \<Rightarrow> Options \<Rightarrow> string list \<Rightarrow> world \<Rightarrow> int \<times> world" where
  "cmd_trust now rv y opt args w =
     (let td = trustdb_for y opt; genv = env_getenv (sys_env y) in
      case args of
        [] \<Rightarrow> (2, w)
      | sub # rest \<Rightarrow>
          if sub = ''list'' then (0, w)
          else if sub = ''show'' then (if rest = [] then 2 else 0, w)
          else if sub = ''set'' then
            (case rest of
               nm # lv # etc \<Rightarrow>
                 (let (rc, w') = salt_trust_set now y td nm (salt_trust_level_parse lv) (case genv ''USER'' of Some u \<Rightarrow> u | None \<Rightarrow> ''root'')
                        (case etc of [] \<Rightarrow> [] | r # _ \<Rightarrow> r) w
                  in (if rc = SALT_OK then 0 else 1, w'))
             | _ \<Rightarrow> (2, w))
          else if sub = ''vouch'' then
            (case rest of
               voucher # nm # etc \<Rightarrow>
                 (let (rc, w') = salt_trust_vouch now y td voucher nm (case etc of [] \<Rightarrow> [] | r # _ \<Rightarrow> r) w
                  in (if rc = SALT_OK then 0 else 1, w'))
             | _ \<Rightarrow> (2, w))
          else if sub = ''scan'' \<or> sub = ''admit'' then
            (case rest of
               [] \<Rightarrow> (2, w)
             | p # _ \<Rightarrow>
                 (let f = (if sub = ''admit'' then snd (salt_recipe_admission_check rv p w)
                           else snd (salt_supplychain_scan rv \<lparr>si_recipe_path = p, si_prev_recipe_text = None,
                                  si_author_level = (case genv ''SALT_AUTHOR'' of Some a \<Rightarrow> salt_trust_lookup y td a w | None \<Rightarrow> SALT_TRUST_UNKNOWN)\<rparr> w))
                  in (if salt_findings_has_block f then 1 else 0, w)))
          else (2, w))"

section \<open>Writing and reading the database\<close>

text \<open>The fields of an entry that are printed unescaped may hold no quote, backslash, line break or zero byte.\<close>

definition con_plain :: "salt_toml \<Rightarrow> bool" where
  "con_plain c \<longleftrightarrow> plain_string (con_str c ''name'' []) \<and> plain_string (con_str c ''level'' ''unknown'') \<and> plain_string (con_str c ''by'' []) \<and>
     plain_string (con_str c ''reason'' []) \<and> c_long_long (salt_toml_int (Some c) ''time'' 0)"

definition file_contributors :: "sys \<Rightarrow> string \<Rightarrow> world \<Rightarrow> salt_toml list" where
  "file_contributors y td w = (case salt_toml_parse_file y td w of None \<Rightarrow> [] | Some t \<Rightarrow> contributors t)"

definition trust_plain :: "sys \<Rightarrow> string \<Rightarrow> world \<Rightarrow> bool" where
  "trust_plain y td w \<longleftrightarrow> list_all con_plain (file_contributors y td w)"

definition con_lines :: "string \<Rightarrow> string \<Rightarrow> string \<Rightarrow> string \<Rightarrow> int \<Rightarrow> (string \<times> string \<times> salt_toml) list" where
  "con_lines name lvl by reason time =
     [raw_line ''name'' name, raw_line ''level'' lvl, raw_line ''by'' by, raw_line ''reason'' reason, int_line ''time'' time]"

definition again_lines :: "salt_toml \<Rightarrow> (string \<times> string \<times> salt_toml) list" where
  "again_lines c = con_lines (con_str c ''name'' []) (con_str c ''level'' ''unknown'') (con_str c ''by'' []) (con_str c ''reason'' [])
     (salt_toml_int (Some c) ''time'' 0)"

lemma bare_keys_trust: "bare_key ''contributor''" "bare_key ''level''" "bare_key ''by''" "bare_key ''reason''" "bare_key ''time''" "bare_key ''name''"
  by code_simp+

lemma contributor_text_block: "contributor_text n l b r t = block_text 0 ''contributor'' 1 (con_lines n l b r t)"
  by (simp add: contributor_text_def block_text_def con_lines_def raw_kv_line int_kv_line)

lemma con_lines_ok:
  "plain_string n \<Longrightarrow> plain_string l \<Longrightarrow> plain_string b \<Longrightarrow> plain_string r \<Longrightarrow> c_long_long t \<Longrightarrow> block_ok nxt (con_lines n l b r t)"
  by (simp add: block_ok_def con_lines_def bare_keys_trust line_ok_simps val_reads_int)

lemma con_str_lines [simp]:
  "con_str (block_table (con_lines n l b r t)) ''name'' d = n" "con_str (block_table (con_lines n l b r t)) ''level'' d = l"
  "con_str (block_table (con_lines n l b r t)) ''by'' d = b" "con_str (block_table (con_lines n l b r t)) ''reason'' d = r"
  "salt_toml_int (Some (block_table (con_lines n l b r t))) ''time'' i = t"
  by (simp_all add: con_str_def block_table_def con_lines_def salt_toml_string_def salt_toml_string_opt_def salt_toml_int_def path_key1
      salt_toml_as_string_def salt_toml_as_int_def del: salt_toml_path.simps)

lemma blocks_parse:
  assumes "toml_parser parse" "\<And>nxt. list_all (block_ok nxt) bs" "bs \<noteq> []"
  shows "parse (concat (map (block_text 0 ''contributor'' 1) bs)) = Some (TTable [(''contributor'', TArray (map block_table bs))])"
proof (rule toml_parser_reads [OF assms(1)])
  fix nxt
  have "toml_reads nxt [] [] (concat (map (block_text 0 ''contributor'' 1) bs) @ []) ([] @ [(''contributor'', TArray (map block_table bs))])"
    by (intro toml_reads_blocks bare_keys_trust(1) assms(2,3) toml_reads_nil) simp
  then show "toml_reads nxt [] [] (concat (map (block_text 0 ''contributor'' 1) bs)) [(''contributor'', TArray (map block_table bs))]" by simp
qed

text \<open>What is in the database after an entry has been set.\<close>

definition set_blocks :: "int \<Rightarrow> salt_toml list \<Rightarrow> string \<Rightarrow> salt_trust_level \<Rightarrow> string \<Rightarrow> string \<Rightarrow> (string \<times> string \<times> salt_toml) list list" where
  "set_blocks now cs c lvl by reason =
     (let new = con_lines c (salt_trust_level_name lvl) by reason now
      in map (\<lambda>x. if con_str x ''name'' [] = c then new else again_lines x) cs @
         (if list_ex (\<lambda>x. con_str x ''name'' [] = c) cs then [] else [new]))"

lemma contributor_again_block: "contributor_again c = block_text 0 ''contributor'' 1 (again_lines c)"
  by (simp only: contributor_again_def again_lines_def contributor_text_block)

lemma trust_db_text_blocks:
  "trust_db_text now t c lvl by reason =
     concat (map (block_text 0 ''contributor'' 1) (set_blocks now (case t of None \<Rightarrow> [] | Some t \<Rightarrow> contributors t) c lvl by reason))"
proof -
  let ?new = "con_lines c (salt_trust_level_name lvl) by reason now"
  have "(\<lambda>x. if con_str x ''name'' [] = c then block_text 0 ''contributor'' 1 ?new else contributor_again x) =
      block_text 0 ''contributor'' 1 \<circ> (\<lambda>x. if con_str x ''name'' [] = c then ?new else again_lines x)"
    by (auto simp: fun_eq_iff contributor_again_block)
  then show ?thesis unfolding trust_db_text_def set_blocks_def Let_def contributor_text_block by simp
qed

lemma level_name_plain: "plain_string (salt_trust_level_name lvl)"
  by (cases lvl) simp_all

lemma set_blocks_ok:
  assumes "list_all con_plain cs" "plain_string c" "plain_string by" "plain_string reason" "c_long_long now"
  shows "list_all (block_ok nxt) (set_blocks now cs c lvl by reason)"
proof -
  have n: "block_ok nxt (con_lines c (salt_trust_level_name lvl) by reason now)" using assms level_name_plain by (intro con_lines_ok)
  have "block_ok nxt (again_lines x)" if "x \<in> set cs" for x
    using that assms(1) unfolding again_lines_def by (intro con_lines_ok) (auto simp: list_all_iff con_plain_def)
  then show ?thesis using n by (auto simp: set_blocks_def Let_def list_all_iff)
qed

lemma set_blocks_nonempty: "set_blocks now cs c lvl by reason \<noteq> []"
  by (auto simp: set_blocks_def Let_def)

lemma trust_set_reads:
  assumes "salt_trust_set now y td c lvl by reason w = (SALT_OK, w')" "toml_parser (sys_toml y)" "\<not> ends_with td ''.lua''"
    and "trust_plain y td w" "plain_string c" "plain_string by" "plain_string reason" "c_long_long now"
  shows "file_contributors y td w' = map block_table (set_blocks now (file_contributors y td w) c lvl by reason)"
proof -
  let ?bs = "set_blocks now (file_contributors y td w) c lvl by reason"
  have "w' = put_file td (concat (map (block_text 0 ''contributor'' 1) ?bs)) w"
    using assms(1) by (simp add: salt_trust_set_def Let_def trust_db_text_blocks file_contributors_def split: if_splits)
  moreover have "list_all (block_ok nxt) ?bs" for nxt using assms(4-) by (intro set_blocks_ok) (simp_all add: trust_plain_def)
  then have "sys_toml y (concat (map (block_text 0 ''contributor'' 1) ?bs)) = Some (TTable [(''contributor'', TArray (map block_table ?bs))])"
    by (intro blocks_parse assms(2) set_blocks_nonempty)
  ultimately have "salt_toml_parse_file y td w' = Some (TTable [(''contributor'', TArray (map block_table ?bs))])"
    using assms(3) by (simp add: salt_toml_parse_file_def put_file_def)
  then show ?thesis by (simp add: file_contributors_def contributors_def salt_toml_get_def)
qed

section \<open>The levels as a map\<close>

definition level_of :: "salt_toml \<Rightarrow> salt_trust_level" where
  "level_of c = salt_trust_level_parse (con_str c ''level'' ''unknown'')"

definition name_level :: "salt_toml \<Rightarrow> string \<times> salt_trust_level" where
  "name_level c = (con_str c ''name'' [], level_of c)"

lemma tree_level_map: "tree_level cs n = (case map_of (rev (map name_level cs)) n of None \<Rightarrow> SALT_TRUST_UNKNOWN | Some l \<Rightarrow> l)"
proof (induction cs rule: rev_induct)
  case (snoc c cs)
  then show ?case by (simp add: tree_level_def name_level_def level_of_def)
qed (simp add: tree_level_def)

lemma lookup_tree: "salt_trust_lookup y td n w = tree_level (file_contributors y td w) n"
  by (auto simp: salt_trust_lookup_def file_contributors_def tree_level_def split: option.split)

lemma level_name_parse: "salt_trust_level_parse (salt_trust_level_name lvl) = lvl"
  by (cases lvl) (simp_all add: salt_trust_level_parse_def)

lemma set_blocks_levels:
  "map name_level (map block_table (set_blocks now cs c lvl by reason)) =
     map (\<lambda>kv. if fst kv = c then (c, lvl) else kv) (map name_level cs) @ (if c \<in> fst ` set (map name_level cs) then [] else [(c, lvl)])"
proof -
  have e: "list_ex (\<lambda>x. con_str x ''name'' [] = c) cs \<longleftrightarrow> c \<in> fst ` set (map name_level cs)" by (force simp: list_ex_iff name_level_def)
  have "name_level (block_table (con_lines c (salt_trust_level_name lvl) by reason now)) = (c, lvl)"
    by (simp add: name_level_def level_of_def level_name_parse)
  moreover have "name_level (block_table (again_lines x)) = name_level x" for x
    by (simp add: name_level_def level_of_def again_lines_def)
  ultimately show ?thesis unfolding set_blocks_def Let_def e by (simp add: if_distrib name_level_def)
qed

lemma map_of_replace:
  "map_of (rev (map (\<lambda>kv. if fst kv = c then (c, l) else kv) kvs @ (if c \<in> fst ` set kvs then [] else [(c, l)]))) n =
     (if n = c then Some l else map_of (rev kvs) n)"
proof (induction kvs rule: rev_induct)
  case (snoc kv kvs)
  then show ?case by (cases kv) (auto split: if_splits)
qed simp

lemma trust_set_lookup:
  assumes "salt_trust_set now y td c lvl by reason w = (SALT_OK, w')" "toml_parser (sys_toml y)" "\<not> ends_with td ''.lua''"
    and "trust_plain y td w" "plain_string c" "plain_string by" "plain_string reason" "c_long_long now"
  shows "salt_trust_lookup y td n w' = (if n = c then lvl else salt_trust_lookup y td n w)" "trust_plain y td w'"
proof -
  note R = trust_set_reads [OF assms]
  show "salt_trust_lookup y td n w' = (if n = c then lvl else salt_trust_lookup y td n w)"
    unfolding lookup_tree R tree_level_map set_blocks_levels map_of_replace by simp
  have "con_plain (block_table b)" if "b \<in> set (set_blocks now (file_contributors y td w) c lvl by reason)" for b
  proof -
    have "b = con_lines c (salt_trust_level_name lvl) by reason now \<or> (\<exists>x \<in> set (file_contributors y td w). b = again_lines x)"
      using that by (auto simp: set_blocks_def Let_def split: if_splits)
    then show ?thesis using assms(4-) level_name_plain by (auto simp: con_plain_def again_lines_def trust_plain_def list_all_iff)
  qed
  then show "trust_plain y td w'" by (auto simp: trust_plain_def R list_all_iff)
qed

section \<open>Properties\<close>

text \<open>
  Setting a level changes one level: after \<^verbatim>\<open>salt_trust_set\<close> has succeeded, \<^verbatim>\<open>salt_trust_lookup\<close> finds the new
  level for that contributor and for everybody else what it found before.  The names, reasons and levels in the
  file and on the command line may hold no quote, backslash, line break or zero byte; they are printed unescaped.
\<close>

theorem trust_set_updates:
  assumes "salt_trust_set now y td c lvl by reason w = (SALT_OK, w')" "toml_parser (sys_toml y)" "\<not> ends_with td ''.lua''"
    and "trust_plain y td w" "plain_string c" "plain_string by" "plain_string reason" "c_long_long now"
  shows "(\<lambda>n. salt_trust_lookup y td n w') = (\<lambda>n. salt_trust_lookup y td n w)(c := lvl)"
  using trust_set_lookup(1) [OF assms] by (simp add: fun_eq_iff)

text \<open>Any number of \<^verbatim>\<open>salt trust vouch\<close> commands, whoever gives them, with reasons that can be printed.\<close>

inductive vouch_reach :: "sys \<Rightarrow> string \<Rightarrow> world \<Rightarrow> world \<Rightarrow> bool"
  for y td w0 where
  start: "vouch_reach y td w0 w0"
| vouch: "vouch_reach y td w0 w \<Longrightarrow> plain_string v \<Longrightarrow> plain_string c \<Longrightarrow> plain_string reason \<Longrightarrow> c_long_long now \<Longrightarrow>
    salt_trust_vouch now y td v c reason w = (rc, w') \<Longrightarrow> vouch_reach y td w0 w'"

definition trusted :: "salt_trust_level \<Rightarrow> bool" where
  "trusted l \<longleftrightarrow> l = SALT_TRUST_VOUCHED \<or> l = SALT_TRUST_MAINTAINER"

lemma vouch_result:
  assumes "salt_trust_vouch now y td v c reason w = (rc, w')"
  obtains "w' = w" | "trusted (salt_trust_lookup y td v w)" "salt_trust_lookup y td c w \<noteq> SALT_TRUST_DENOUNCED"
    "salt_trust_set now y td c SALT_TRUST_VOUCHED v (''vouched by '' @ v @ '': '' @ reason) w = (SALT_OK, w')"
  using assms by (auto simp: salt_trust_vouch_def salt_trust_set_def trusted_def Let_def split: if_splits)

lemma vouch_lookup:
  assumes "salt_trust_vouch now y td v c reason w = (rc, w')" "toml_parser (sys_toml y)" "\<not> ends_with td ''.lua''"
    and "trust_plain y td w" "plain_string v" "plain_string c" "plain_string reason" "c_long_long now"
  obtains "w' = w" | "trusted (salt_trust_lookup y td v w)" "salt_trust_lookup y td c w \<noteq> SALT_TRUST_DENOUNCED" "trust_plain y td w'"
    "\<And>n. salt_trust_lookup y td n w' = (if n = c then SALT_TRUST_VOUCHED else salt_trust_lookup y td n w)"
  using assms(1)
proof (rule vouch_result)
  assume a: "trusted (salt_trust_lookup y td v w)" "salt_trust_lookup y td c w \<noteq> SALT_TRUST_DENOUNCED"
    "salt_trust_set now y td c SALT_TRUST_VOUCHED v (''vouched by '' @ v @ '': '' @ reason) w = (SALT_OK, w')"
  have "plain_string (''vouched by '' @ v @ '': '' @ reason)" using assms(5,7) by simp
  note S = trust_set_lookup [OF a(3) assms(2-4,6,5) this assms(8)]
  show thesis by (rule that(2) [OF a(1,2) S(2,1)])
qed (rule that(1))

lemma vouch_reach_inv:
  assumes "vouch_reach y td w0 w" "toml_parser (sys_toml y)" "\<not> ends_with td ''.lua''" "trust_plain y td w0"
  shows "trust_plain y td w" "salt_trust_lookup y td n w = SALT_TRUST_DENOUNCED \<longleftrightarrow> salt_trust_lookup y td n w0 = SALT_TRUST_DENOUNCED"
    "salt_trust_lookup y td n w = SALT_TRUST_MAINTAINER \<Longrightarrow> salt_trust_lookup y td n w0 = SALT_TRUST_MAINTAINER"
    "trusted (salt_trust_lookup y td n w) \<Longrightarrow> \<exists>m. trusted (salt_trust_lookup y td m w0)"
proof -
  let ?I = "\<lambda>w. trust_plain y td w \<and> (\<forall>n. (salt_trust_lookup y td n w = SALT_TRUST_DENOUNCED \<longleftrightarrow> salt_trust_lookup y td n w0 = SALT_TRUST_DENOUNCED) \<and>
      (salt_trust_lookup y td n w = SALT_TRUST_MAINTAINER \<longrightarrow> salt_trust_lookup y td n w0 = SALT_TRUST_MAINTAINER) \<and>
      (trusted (salt_trust_lookup y td n w) \<longrightarrow> (\<exists>m. trusted (salt_trust_lookup y td m w0))))"
  have "?I w"
    using assms(1)
  proof (induction rule: vouch_reach.induct)
    case start
    then show ?case using assms(4) by auto
  next
    case (vouch w v c reason now rc w')
    then have p: "trust_plain y td w" by blast
    show ?case
    proof (rule vouch_lookup [OF vouch(6) assms(2,3) p vouch(2-5)])
      assume "w' = w"
      then show ?thesis using vouch.IH by simp
    next
      assume a: "trusted (salt_trust_lookup y td v w)" "salt_trust_lookup y td c w \<noteq> SALT_TRUST_DENOUNCED" "trust_plain y td w'"
        "\<And>n. salt_trust_lookup y td n w' = (if n = c then SALT_TRUST_VOUCHED else salt_trust_lookup y td n w)"
      then show ?thesis using vouch.IH by auto
    qed
  qed
  then show "trust_plain y td w" "salt_trust_lookup y td n w = SALT_TRUST_DENOUNCED \<longleftrightarrow> salt_trust_lookup y td n w0 = SALT_TRUST_DENOUNCED"
    "salt_trust_lookup y td n w = SALT_TRUST_MAINTAINER \<Longrightarrow> salt_trust_lookup y td n w0 = SALT_TRUST_MAINTAINER"
    "trusted (salt_trust_lookup y td n w) \<Longrightarrow> \<exists>m. trusted (salt_trust_lookup y td m w0)" by blast+
qed


section \<open>What a reason can do\<close>

text \<open>A reason that closes its own string and goes on with an entry of its own.\<close>

definition crafted_reason :: "string \<Rightarrow> string" where
  "crafted_reason m = DQ # NL # ''[[contributor]]'' @ NL # raw_kv ''name'' m @ raw_kv ''level'' ''maintainer'' @ raw_kv ''by'' [] @ ''reason = '' @ [DQ]"

lemma crafted_text:
  "contributor_text c l v (a @ crafted_reason m) now =
     block_text 0 ''contributor'' 0 [raw_line ''name'' c, raw_line ''level'' l, raw_line ''by'' v, raw_line ''reason'' a] @
     block_text 0 ''contributor'' 1 (con_lines m ''maintainer'' [] [] now)"
  by (simp add: contributor_text_def crafted_reason_def block_text_def con_lines_def raw_line_def line_text_def int_line_def raw_kv_def emit_kv_def)

lemma crafted_reads:
  assumes "list_all (block_ok nxt) bs" "block_ok nxt b1" "block_ok nxt b2"
  shows "toml_reads nxt [] [] (concat (map (block_text 0 ''contributor'' 1) bs) @ block_text 0 ''contributor'' 0 b1 @ block_text 0 ''contributor'' 1 b2)
    [(''contributor'', TArray (map block_table (bs @ [b1, b2])))]"
proof -
  let ?h = "''contributor''" and ?R = "\<lambda>xs. [] @ [(''contributor'', TArray xs)]"
  have 2: "toml_reads nxt [?h] (?R xs) (concat (map (block_text 0 ?h 1) [b2]) @ []) (?R (xs @ map block_table [b2]))" for xs
    by (intro toml_reads_more_blocks bare_keys_trust(1) toml_reads_nil) (use assms(3) in simp_all)
  have 1: "toml_reads nxt [?h] (?R xs) (concat (map (block_text 0 ?h 0) [b1]) @ block_text 0 ?h 1 b2) (?R ((xs @ map block_table [b1]) @ [block_table b2]))" for xs
    by (intro toml_reads_more_blocks bare_keys_trust(1)) (use assms(2) 2 [of "xs @ [block_table b1]"] in simp_all)
  show ?thesis
  proof (cases "bs = []")
    case True
    have "toml_reads nxt [] [] (concat (map (block_text 0 ?h 0) [b1]) @ block_text 0 ?h 1 b2) (?R [block_table b1, block_table b2])"
      by (intro toml_reads_blocks bare_keys_trust(1)) (use assms(2) 2 [of "[block_table b1]"] in simp_all)
    then show ?thesis using True by simp
  next
    case False
    have "toml_reads nxt [] [] (concat (map (block_text 0 ?h 1) bs) @ block_text 0 ?h 0 b1 @ block_text 0 ?h 1 b2) (?R (map block_table (bs @ [b1, b2])))"
      by (intro toml_reads_blocks bare_keys_trust(1) assms(1) False) (use 1 [of "map block_table bs"] in simp_all)
    then show ?thesis by simp
  qed
qed

lemma fresh_db_text:
  assumes "c \<notin> fst ` set (map name_level (case t of None \<Rightarrow> [] | Some t \<Rightarrow> contributors t))"
  shows "trust_db_text now t c lvl by reason =
    concat (map (block_text 0 ''contributor'' 1) (map again_lines (case t of None \<Rightarrow> [] | Some t \<Rightarrow> contributors t))) @
    contributor_text c (salt_trust_level_name lvl) by reason now"
proof -
  let ?cs = "case t of None \<Rightarrow> [] | Some t \<Rightarrow> contributors t"
  have n: "con_str x ''name'' [] \<noteq> c" if "x \<in> set ?cs" for x using assms that by (force simp: name_level_def)
  then have A: "map (\<lambda>x. if con_str x ''name'' [] = c then contributor_text c (salt_trust_level_name lvl) by reason now else contributor_again x) ?cs =
      map (block_text 0 ''contributor'' 1) (map again_lines ?cs)"
    by (simp add: contributor_again_block)
  have "\<not> list_ex (\<lambda>x. con_str x ''name'' [] = c) ?cs" using n by (auto simp: list_ex_iff)
  then show ?thesis unfolding trust_db_text_def Let_def A by simp
qed

text \<open>
  C36.  The reason a contributor gives is not checked: whoever may vouch can make anybody a maintainer.  For every
  trusted voucher and every contributor who is not in the database there is a reason such that the database written
  by \<^verbatim>\<open>salt trust vouch\<close> has the chosen third person as a maintainer.  The reason is printed unescaped; it closes its
  string and goes on with an entry of its own.
\<close>

theorem reason_makes_maintainer:
  assumes "toml_parser (sys_toml y)" "\<not> ends_with td ''.lua''" "sys_write_ok y td" "trust_plain y td w"
    and "trusted (salt_trust_lookup y td v w)" "c \<notin> fst ` set (map name_level (file_contributors y td w))"
    and "plain_string v" "plain_string c" "plain_string m" "c_long_long now"
  shows "\<exists>reason. salt_trust_lookup y td m (snd (salt_trust_vouch now y td v c reason w)) = SALT_TRUST_MAINTAINER"
proof -
  let ?cs = "file_contributors y td w" and ?w = "snd (salt_trust_vouch now y td v c (crafted_reason m) w)"
  let ?b1 = "[raw_line ''name'' c, raw_line ''level'' ''vouched'', raw_line ''by'' v, raw_line ''reason'' (''vouched by '' @ v @ '': '')]"
  let ?b2 = "con_lines m ''maintainer'' [] [] now"
  let ?d = "concat (map (block_text 0 ''contributor'' 1) (map again_lines ?cs)) @ block_text 0 ''contributor'' 0 ?b1 @ block_text 0 ''contributor'' 1 ?b2"
  have "map_of (rev (map name_level ?cs)) c = None" using assms(6) by (simp add: map_of_eq_None_iff image_image)
  then have "salt_trust_lookup y td c w = SALT_TRUST_UNKNOWN" by (simp add: lookup_tree tree_level_map)
  moreover have "trust_db_text now (salt_toml_parse_file y td w) c SALT_TRUST_VOUCHED v (''vouched by '' @ v @ '': '' @ crafted_reason m) = ?d"
    using fresh_db_text [of c "salt_toml_parse_file y td w"] assms(6) crafted_text [of c "''vouched''" v "''vouched by '' @ v @ '': ''" m now]
    by (simp add: file_contributors_def)
  ultimately have w: "?w = put_file td ?d w"
    using assms(3,5) by (auto simp: salt_trust_vouch_def salt_trust_set_def trusted_def Let_def)
  have "list_all (block_ok nxt) (map again_lines ?cs)" for nxt
    using assms(4) con_lines_ok [of _ _ _ _ _ nxt] by (auto simp: trust_plain_def list_all_iff con_plain_def again_lines_def)
  moreover have "block_ok nxt ?b1" "block_ok nxt ?b2" for nxt
    using assms(7-10) con_lines_ok [of m "''maintainer''" "[]" "[]" now] by (simp_all add: block_ok_def bare_keys_trust)
  ultimately have "sys_toml y ?d = Some (TTable [(''contributor'', TArray (map block_table (map again_lines ?cs @ [?b1, ?b2])))])"
    by (intro toml_parser_reads [OF assms(1)] crafted_reads)
  then have "salt_toml_parse_file y td ?w = Some (TTable [(''contributor'', TArray (map block_table (map again_lines ?cs @ [?b1, ?b2])))])"
    unfolding w using assms(2) by (simp add: salt_toml_parse_file_def put_file_def)
  then have "file_contributors y td ?w = map block_table (map again_lines ?cs @ [?b1]) @ [block_table ?b2]"
    by (simp add: file_contributors_def contributors_def salt_toml_get_def)
  moreover have "name_level (block_table ?b2) = (m, SALT_TRUST_MAINTAINER)" by (simp add: name_level_def level_of_def salt_trust_level_parse_def)
  ultimately have "salt_trust_lookup y td m ?w = SALT_TRUST_MAINTAINER" by (simp add: lookup_tree tree_level_map)
  then show ?thesis by blast
qed

section \<open>An example\<close>

definition ex_trust_world :: world where
  "ex_trust_world = ex_world\<lparr>w_files := [''t'' \<mapsto> contributor_text ''ann'' ''maintainer'' [] [] 5 @ contributor_text ''eve'' ''denounced'' ''ann'' ''spam'' 6]\<rparr>"

lemma ex_trust_sys: "toml_parser (sys_toml ex_lock_sys)" "\<not> ends_with ''t'' ''.lua''" "sys_write_ok ex_lock_sys ''t''"
  by (simp_all add: toml_parser_text ex_lock_sys_def ends_with_def ex_sys_def)

lemma ex_trust_file: "file_contributors ex_lock_sys ''t'' ex_trust_world =
    map block_table [con_lines ''ann'' ''maintainer'' [] [] 5, con_lines ''eve'' ''denounced'' ''ann'' ''spam'' 6]" (is "_ = map block_table ?bs")
proof -
  have "list_all (block_ok nxt) ?bs" for nxt by (simp add: con_lines_ok c_long_long_def)
  then have "sys_toml ex_lock_sys (concat (map (block_text 0 ''contributor'' 1) ?bs)) = Some (TTable [(''contributor'', TArray (map block_table ?bs))])"
    by (intro blocks_parse ex_trust_sys(1)) simp_all
  then have "salt_toml_parse_file ex_lock_sys ''t'' ex_trust_world = Some (TTable [(''contributor'', TArray (map block_table ?bs))])"
    using ex_trust_sys(2) by (simp add: salt_toml_parse_file_def ex_trust_world_def contributor_text_block)
  then show ?thesis by (simp add: file_contributors_def contributors_def salt_toml_get_def)
qed

lemma ex_trust_levels:
  "salt_trust_lookup ex_lock_sys ''t'' ''ann'' ex_trust_world = SALT_TRUST_MAINTAINER"
  "salt_trust_lookup ex_lock_sys ''t'' ''eve'' ex_trust_world = SALT_TRUST_DENOUNCED" "trust_plain ex_lock_sys ''t'' ex_trust_world"
  "map name_level (file_contributors ex_lock_sys ''t'' ex_trust_world) = [(''ann'', SALT_TRUST_MAINTAINER), (''eve'', SALT_TRUST_DENOUNCED)]"
  by (simp_all add: lookup_tree tree_level_map ex_trust_file trust_plain_def con_plain_def name_level_def level_of_def salt_trust_level_parse_def c_long_long_def)

lemmas ex_trust = ex_trust_sys(1,2) ex_trust_levels(3)

theorem trust_set_updates_witness:
  "salt_trust_lookup ex_lock_sys ''t'' ''bob'' (snd (salt_trust_set 7 ex_lock_sys ''t'' ''bob'' SALT_TRUST_VOUCHED ''ann'' ''ok'' ex_trust_world)) = SALT_TRUST_VOUCHED"
proof -
  have "salt_trust_set 7 ex_lock_sys ''t'' ''bob'' SALT_TRUST_VOUCHED ''ann'' ''ok'' ex_trust_world =
      (SALT_OK, snd (salt_trust_set 7 ex_lock_sys ''t'' ''bob'' SALT_TRUST_VOUCHED ''ann'' ''ok'' ex_trust_world))"
    by (simp add: salt_trust_set_def Let_def ex_trust_sys(3))
  from trust_set_updates [OF this ex_trust] show ?thesis by (simp add: fun_eq_iff c_long_long_def)
qed


theorem reason_makes_maintainer_witness:
  "\<exists>reason. salt_trust_lookup ex_lock_sys ''t'' ''mal'' (snd (salt_trust_vouch 7 ex_lock_sys ''t'' ''ann'' ''bob'' reason ex_trust_world)) = SALT_TRUST_MAINTAINER"
  by (rule reason_makes_maintainer [OF ex_trust_sys ex_trust_levels(3)])
    (simp_all add: ex_trust_levels trusted_def c_long_long_def del: list.set_map set_map)

section \<open>Admission\<close>

lemma has_block_simps [simp]:
  "salt_findings_has_block [] = False" "salt_findings_has_block (a @ b) \<longleftrightarrow> salt_findings_has_block a \<or> salt_findings_has_block b"
  "salt_findings_has_block (block_if q c m) = q" "salt_findings_has_block (warn_if q c m) = False"
  "salt_findings_has_block (map (finding SALT_RISK_WARN c) l) = False"
  "salt_findings_has_block (finding s c m # r) \<longleftrightarrow> s = SALT_RISK_BLOCK \<or> salt_findings_has_block r"
  by (auto simp: salt_findings_has_block_def block_if_def warn_if_def finding_def list_ex_iff)

lemma lint_repro_block [simp]: "\<not> salt_findings_has_block (lint_repro t)"
  by (simp add: lint_repro_def split: option.split)

text \<open>
  What is admitted is pinned: \<^verbatim>\<open>salt trust admit\<close> returns 0 only for a recipe that evaluates and declares a name, a
  version, an architecture, a licence and a source, and pins the source with a SHA-256 of 64 hexadecimal digits; only
  a local source (\<^verbatim>\<open>file://\<close>) may come without one.
\<close>

theorem admitted_is_pinned:
  assumes "cmd_trust now rv y opt (''admit'' # p # etc) w = (0, w')"
  shows "w' = w \<and> (\<exists>txt t url. w_files w (recipe_file_path rv p) = Some txt \<and> rv_conf rv txt = Some t \<and>
    salt_toml_string_opt (Some t) ''name'' \<noteq> None \<and> salt_toml_string_opt (Some t) ''version'' \<noteq> None \<and>
    string_array_or_empty (Some t) ''arch'' \<noteq> [] \<and> \<not> no_text (salt_toml_string_opt (Some t) ''license'') \<and>
    salt_toml_string_opt (Some t) ''source.url'' = Some url \<and> url \<noteq> [] \<and>
    (starts_with url ''file://'' \<and> no_text (salt_toml_string_opt (Some t) ''source.sha256'') \<or>
     (\<exists>sha. salt_toml_string_opt (Some t) ''source.sha256'' = Some sha \<and> is_hex64 sha)))"
proof -
  have w: "w' = w" "\<not> salt_findings_has_block (snd (salt_recipe_admission_check rv p w))"
    using assms by (auto simp: cmd_trust_def Let_def split: if_splits)
  then obtain body t where t: "w_files w (recipe_file_path rv p) = Some body" "rv_conf rv body = Some t" "\<not> salt_findings_has_block (lint_tree t)"
    by (auto simp: salt_recipe_admission_check_def lint_common_def split: option.splits)
  then have "\<not> salt_findings_has_block (lint_source t)" by (simp add: lint_tree_def Let_def)
  then have "\<exists>url. salt_toml_string_opt (Some t) ''source.url'' = Some url \<and> url \<noteq> [] \<and>
      (starts_with url ''file://'' \<and> no_text (salt_toml_string_opt (Some t) ''source.sha256'') \<or>
       (\<exists>sha. salt_toml_string_opt (Some t) ''source.sha256'' = Some sha \<and> is_hex64 sha))"
    by (auto simp: lint_source_def Let_def no_text_def split: if_splits option.splits)
  then show ?thesis using w(1) t by (auto simp: lint_tree_def Let_def)
qed

definition ex_recipe :: salt_toml where
  "ex_recipe = TTable [(''name'', TString ''hi''), (''version'', TString ''1''), (''release'', TInt 1), (''arch'', TArray [TString ''x86_64'']),
     (''license'', TString ''MIT''), (''source'', TTable [(''url'', TString ''file:///hi'')])]"

definition ex_recipe_env :: recipe_env where
  "ex_recipe_env = \<lparr>rv_is_dir = \<lambda>p. True, rv_conf = \<lambda>s. Some ex_recipe, rv_error = [], rv_regex = \<lambda>p s. False\<rparr>"

theorem admitted_is_pinned_witness:
  "\<exists>txt t url. w_files (ex_world\<lparr>w_files := \<lambda>p. Some []\<rparr>) (recipe_file_path ex_recipe_env ''hi'') = Some txt \<and> rv_conf ex_recipe_env txt = Some t \<and>
     salt_toml_string_opt (Some t) ''source.url'' = Some url \<and> url \<noteq> []"
proof -
  have "fst (cmd_trust 0 ex_recipe_env ex_sys ex_opts (''admit'' # ''hi'' # []) (ex_world\<lparr>w_files := \<lambda>p. Some []\<rparr>)) = 0" by code_simp
  then have "cmd_trust 0 ex_recipe_env ex_sys ex_opts (''admit'' # ''hi'' # []) (ex_world\<lparr>w_files := \<lambda>p. Some []\<rparr>) =
      (0, snd (cmd_trust 0 ex_recipe_env ex_sys ex_opts (''admit'' # ''hi'' # []) (ex_world\<lparr>w_files := \<lambda>p. Some []\<rparr>)))" by (metis prod.collapse)
  from admitted_is_pinned [OF this] show ?thesis by blast
qed

end
