(* ===== verification/Salt_Setup.thy ===== *)
theory Salt_Setup
  imports Salt_Toml
begin

text \<open>
  The configuration of the installer \<^verbatim>\<open>salt-setup\<close> (\<^verbatim>\<open>src/setup/config.cpp\<close>, \<^verbatim>\<open>config.hpp\<close>): the answers, the table of keys,
  the command line, reading a configuration, checking it and writing it as Lua.

  A pointer to a member of \<^verbatim>\<open>Config\<close> is a reading and a writing function.  \<^verbatim>\<open>salt_conf_parse\<close> (the Lua interpreter) is a
  parameter.  A function that returns \<^verbatim>\<open>false\<close> and sets \<^verbatim>\<open>err\<close> gives \<^term>\<open>Inl err\<close>; every caller ends the program then.
\<close>

section \<open>The answers\<close>

record Config =
  g_hostname :: string
  g_locale :: string
  g_timezone :: string
  g_keymap :: string
  g_xkb_layout :: string
  g_xkb_variant :: string
  g_disk :: string
  g_mode :: string
  g_target :: string
  g_filesystem :: string
  g_encrypt :: bool
  g_passphrase :: string
  g_passphrase_file :: string
  g_swap :: string
  g_swap_size :: string
  g_swap_device :: string
  g_root_size :: string
  g_desktop :: string
  g_firmware :: string
  g_os_prober :: bool
  g_cmdline :: string
  g_shim :: string
  g_username :: string
  g_password :: string
  g_password_hash :: string
  g_root_password :: string
  g_root_password_hash :: string
  g_shell :: string
  g_sudo :: bool
  g_autologin :: bool
  g_create_user :: bool
  g_network :: string
  g_wifi_ssid :: string
  g_wifi_psk :: string
  g_kernel :: string
  g_distro :: string

definition default_config :: Config where
  "default_config = \<lparr>
     g_hostname = ''saltos'', g_locale = ''en_US.UTF-8'', g_timezone = ''UTC'', g_keymap = ''us'',
     g_xkb_layout = [], g_xkb_variant = [],
     g_disk = [], g_mode = ''erase'', g_target = [], g_filesystem = ''btrfs'', g_encrypt = False,
     g_passphrase = [], g_passphrase_file = [], g_swap = ''none'', g_swap_size = ''auto'', g_swap_device = [],
     g_root_size = [], g_desktop = ''auto'',
     g_firmware = ''auto'', g_os_prober = True, g_cmdline = [], g_shim = ''auto'',
     g_username = ''salt'', g_password = [], g_password_hash = [], g_root_password = [],
     g_root_password_hash = [], g_shell = ''/bin/bash'', g_sudo = True, g_autologin = False, g_create_user = True,
     g_network = ''dhcp'', g_wifi_ssid = [], g_wifi_psk = [],
     g_kernel = ''native'', g_distro = []\<rparr>"

record CliOptions =
  co_from :: string
  co_profiles :: "string list"
  co_sets :: "string list"
  co_mnt :: string
  co_dump_config :: bool
  co_yes :: bool
  co_help :: bool

definition default_cli_options :: CliOptions where
  "default_cli_options = \<lparr>co_from = [], co_profiles = [], co_sets = [], co_mnt = ''/mnt/saltos-target'',
     co_dump_config = False, co_yes = False, co_help = False\<rparr>"

section \<open>The table of keys\<close>

datatype member =
    MStr "Config \<Rightarrow> string" "string \<Rightarrow> Config \<Rightarrow> Config"
  | MBool "Config \<Rightarrow> bool" "bool \<Rightarrow> Config \<Rightarrow> Config"

record Field =
  fd_key :: string
  fd_secret :: bool
  fd_member :: member

abbreviation str_field :: "string \<Rightarrow> bool \<Rightarrow> (Config \<Rightarrow> string) \<Rightarrow> ((string \<Rightarrow> string) \<Rightarrow> Config \<Rightarrow> Config) \<Rightarrow> Field" where
  "str_field k secret get upd \<equiv> \<lparr>fd_key = k, fd_secret = secret, fd_member = MStr get (\<lambda>v. upd (\<lambda>_. v))\<rparr>"

abbreviation bool_field :: "string \<Rightarrow> (Config \<Rightarrow> bool) \<Rightarrow> ((bool \<Rightarrow> bool) \<Rightarrow> Config \<Rightarrow> Config) \<Rightarrow> Field" where
  "bool_field k get upd \<equiv> \<lparr>fd_key = k, fd_secret = False, fd_member = MBool get (\<lambda>v. upd (\<lambda>_. v))\<rparr>"

definition setup_fields :: "Field list" where
  "setup_fields = [
     str_field ''system.hostname'' False g_hostname g_hostname_update,
     str_field ''system.locale'' False g_locale g_locale_update,
     str_field ''system.timezone'' False g_timezone g_timezone_update,
     str_field ''system.keymap'' False g_keymap g_keymap_update,
     str_field ''system.xkb_layout'' False g_xkb_layout g_xkb_layout_update,
     str_field ''system.xkb_variant'' False g_xkb_variant g_xkb_variant_update,
     str_field ''install.disk'' False g_disk g_disk_update,
     str_field ''install.mode'' False g_mode g_mode_update,
     str_field ''install.target'' False g_target g_target_update,
     str_field ''install.filesystem'' False g_filesystem g_filesystem_update,
     bool_field ''install.encrypt'' g_encrypt g_encrypt_update,
     str_field ''install.passphrase'' True g_passphrase g_passphrase_update,
     str_field ''install.passphrase_file'' False g_passphrase_file g_passphrase_file_update,
     str_field ''install.swap'' False g_swap g_swap_update,
     str_field ''install.swap_size'' False g_swap_size g_swap_size_update,
     str_field ''install.swap_device'' False g_swap_device g_swap_device_update,
     str_field ''install.root_size'' False g_root_size g_root_size_update,
     str_field ''install.desktop'' False g_desktop g_desktop_update,
     str_field ''boot.firmware'' False g_firmware g_firmware_update,
     bool_field ''boot.os_prober'' g_os_prober g_os_prober_update,
     str_field ''boot.cmdline'' False g_cmdline g_cmdline_update,
     str_field ''boot.shim'' False g_shim g_shim_update,
     str_field ''user.name'' False g_username g_username_update,
     str_field ''user.password'' True g_password g_password_update,
     str_field ''user.password_hash'' True g_password_hash g_password_hash_update,
     str_field ''user.root_password'' True g_root_password g_root_password_update,
     str_field ''user.root_password_hash'' True g_root_password_hash g_root_password_hash_update,
     str_field ''user.shell'' False g_shell g_shell_update,
     bool_field ''user.sudo'' g_sudo g_sudo_update,
     bool_field ''user.autologin'' g_autologin g_autologin_update,
     bool_field ''user.create'' g_create_user g_create_user_update,
     str_field ''network.mode'' False g_network g_network_update,
     str_field ''network.wifi_ssid'' False g_wifi_ssid g_wifi_ssid_update,
     str_field ''network.wifi_psk'' True g_wifi_psk g_wifi_psk_update,
     str_field ''kernel.source'' False g_kernel g_kernel_update]"

definition find_field :: "string \<Rightarrow> Field option" where
  "find_field key = find (\<lambda>f. fd_key f = key) setup_fields"

section \<open>Quoting for Lua\<close>

definition dec3 :: "nat \<Rightarrow> string" where
  "dec3 n = [char_of (48 + n div 100 mod 10), char_of (48 + n div 10 mod 10), char_of (48 + n mod 10)]"

definition lua_quote_char :: "char \<Rightarrow> string" where
  "lua_quote_char c =
     (if c = CHR 0x22 then [CHR 0x5C, CHR 0x22]
      else if c = CHR 0x5C then [CHR 0x5C, CHR 0x5C]
      else if c = CHR 0x0A then [CHR 0x5C, CHR ''n'']
      else if c = CHR 0x09 then [CHR 0x5C, CHR ''t'']
      else if c = CHR 0x0D then [CHR 0x5C, CHR ''r'']
      else if (of_char c :: nat) < 32 then CHR 0x5C # dec3 (of_char c)
      else [c])"

definition lua_quote :: "string \<Rightarrow> string" where
  "lua_quote s = CHR 0x22 # concat (map lua_quote_char s) @ [CHR 0x22]"

section \<open>The command line\<close>

fun parse_setup_args :: "string list \<Rightarrow> CliOptions \<Rightarrow> string + CliOptions" where
  "parse_setup_args [] opts = Inr opts"
| "parse_setup_args (a # as) opts =
     (if a = ''--help'' \<or> a = ''-h'' then Inr (opts\<lparr>co_help := True\<rparr>)
      else if a \<in> {''--from'', ''--profile'', ''--set'', ''--disk'', ''--user'', ''--target'', ''--mnt''} then
        (case as of
           [] \<Rightarrow> Inl (a @ '' requires an argument'')
         | v # as' \<Rightarrow>
             if a = ''--from'' then parse_setup_args as' (opts\<lparr>co_from := v\<rparr>)
             else if a = ''--profile'' then parse_setup_args as' (opts\<lparr>co_profiles := co_profiles opts @ [v]\<rparr>)
             else if a = ''--set'' then
               (if CHR ''='' \<notin> set v then Inl ''--set expects section.key=value''
                else parse_setup_args as' (opts\<lparr>co_sets := co_sets opts @ [v]\<rparr>))
             else if a = ''--disk'' then parse_setup_args as' (opts\<lparr>co_sets := co_sets opts @ [''install.disk='' @ v]\<rparr>)
             else if a = ''--user'' then parse_setup_args as' (opts\<lparr>co_sets := co_sets opts @ [''user.name='' @ v]\<rparr>)
             else if a = ''--target'' then
               parse_setup_args as' (opts\<lparr>co_sets := co_sets opts @ [''install.mode=mounted'', ''install.target='' @ v]\<rparr>)
             else parse_setup_args as' (opts\<lparr>co_mnt := v\<rparr>))
      else if a = ''--yes'' \<or> a = ''-y'' then parse_setup_args as (opts\<lparr>co_yes := True\<rparr>)
      else if a = ''--dump-config'' then parse_setup_args as (opts\<lparr>co_dump_config := True\<rparr>)
      else Inl (''unknown argument: '' @ a))"

definition parse_cli :: "string list \<Rightarrow> string + CliOptions" where
  "parse_cli argv = parse_setup_args (tl argv) default_cli_options"

section \<open>Setting and loading values\<close>

definition parse_bool :: "string \<Rightarrow> bool option" where
  "parse_bool s =
     (if s \<in> {''true'', ''yes'', ''on'', ''1'', ''y''} then Some True
      else if s \<in> {''false'', ''no'', ''off'', ''0'', ''n''} then Some False
      else None)"

definition set_value :: "Config \<Rightarrow> string \<Rightarrow> string \<Rightarrow> string + Config" where
  "set_value cfg dotted value =
     (if dotted = ''stratum.name'' \<or> dotted = ''stratum'' then Inr (cfg\<lparr>g_distro := value\<rparr>)
      else case find_field dotted of
        None \<Rightarrow> Inl (''unknown configuration key: '' @ dotted)
      | Some f \<Rightarrow>
          (case fd_member f of
             MStr get put \<Rightarrow> Inr (put value cfg)
           | MBool get put \<Rightarrow>
               (case parse_bool value of
                  None \<Rightarrow> Inl (dotted @ '' expects true or false (got '' @ [CHR 0x27] @ value @ [CHR 0x27] @ '')'')
                | Some b \<Rightarrow> Inr (put b cfg))))"

definition load_field :: "salt_toml \<Rightarrow> Field \<Rightarrow> Config \<Rightarrow> string + Config" where
  "load_field root f cfg =
     (case salt_toml_path (Some root) (fd_key f) of
        None \<Rightarrow> Inr cfg
      | Some t \<Rightarrow>
          (case fd_member f of
             MStr get put \<Rightarrow>
               (case t of TString s \<Rightarrow> Inr (put s cfg) | _ \<Rightarrow> Inl (fd_key f @ '' must be a string''))
           | MBool get put \<Rightarrow>
               (case t of TBool b \<Rightarrow> Inr (put b cfg) | _ \<Rightarrow> Inl (fd_key f @ '' must be a boolean''))))"

primrec load_fields :: "salt_toml \<Rightarrow> Field list \<Rightarrow> Config \<Rightarrow> string + Config" where
  "load_fields root [] cfg = Inr cfg"
| "load_fields root (f # fs) cfg =
     (case load_field root f cfg of Inl e \<Rightarrow> Inl e | Inr cfg' \<Rightarrow> load_fields root fs cfg')"

text \<open>The first named stratum, unless a later one has the role \<^verbatim>\<open>primary\<close>.\<close>

fun pick_stratum :: "salt_toml list \<Rightarrow> string \<Rightarrow> string \<Rightarrow> string" where
  "pick_stratum [] first distro = (if first \<noteq> [] then first else distro)"
| "pick_stratum (s # ss) first distro =
     (case salt_toml_string_opt (Some s) ''name'' of
        None \<Rightarrow> pick_stratum ss first distro
      | Some n \<Rightarrow>
          (if salt_toml_string (Some s) ''role'' [] = ''primary'' then n
           else pick_stratum ss (if first = [] then n else first) distro))"

definition load_config :: "(string \<Rightarrow> string \<Rightarrow> string + salt_toml) \<Rightarrow> string \<Rightarrow> string \<Rightarrow> Config \<Rightarrow> string + Config" where
  "load_config conf_parse contents name cfg =
     (case conf_parse contents name of
        Inl e \<Rightarrow> Inl e
      | Inr root \<Rightarrow>
          (case load_fields root setup_fields cfg of
             Inl e \<Rightarrow> Inl e
           | Inr cfg' \<Rightarrow>
               Inr (case salt_toml_get (Some root) ''stratum'' of
                      Some (TArray ss) \<Rightarrow> cfg'\<lparr>g_distro := pick_stratum ss [] (g_distro cfg')\<rparr>
                    | Some (TTable kvs) \<Rightarrow>
                        (case salt_toml_string_opt (Some (TTable kvs)) ''name'' of
                           Some n \<Rightarrow> cfg'\<lparr>g_distro := n\<rparr> | None \<Rightarrow> cfg')
                    | _ \<Rightarrow> cfg')))"

definition load_config_file ::
  "(string \<Rightarrow> string \<Rightarrow> string + salt_toml) \<Rightarrow> (string \<Rightarrow> string option) \<Rightarrow> string \<Rightarrow> Config \<Rightarrow> string + Config" where
  "load_config_file conf_parse reads path cfg =
     (case reads path of
        None \<Rightarrow> Inl (''cannot read '' @ path)
      | Some s \<Rightarrow>
          (case load_config conf_parse s path cfg of Inl e \<Rightarrow> Inl (path @ '': '' @ e) | Inr c \<Rightarrow> Inr c))"


section \<open>Sizes\<close>

definition c_toupper :: "char \<Rightarrow> char" where
  "c_toupper c = (if islower c then char_of (of_char c - 32 :: nat) else c)"

text \<open>
  \<^verbatim>\<open>strtod\<close>: white space, a sign, then an infinity, a NaN, a hexadecimal or a decimal number.  A finite value is a fraction;
  the rounding to a \<^verbatim>\<open>double\<close> is not modelled, except that what is beyond its range is infinite.  The result is the sign, the
  magnitude and what follows, \<^const>\<open>None\<close> when nothing is read.
\<close>

datatype magnitude = Fin nat nat | Inf | NaN

definition hex_value :: "char \<Rightarrow> nat" where
  "hex_value c = (if isdigit c then of_char c - 48 else of_char (c_toupper c) - 55)"

definition digits_value :: "nat \<Rightarrow> string \<Rightarrow> nat" where
  "digits_value base ds = foldl (\<lambda>v c. base * v + hex_value c) 0 ds"

text \<open>The exponent after its letter \<open>e\<close> (or \<open>p\<close>), when there is one: its value and what follows.\<close>

definition read_exponent :: "char \<Rightarrow> string \<Rightarrow> int \<times> string" where
  "read_exponent e s =
     (if s \<noteq> [] \<and> c_toupper (hd s) = e then
        (let s1 = tl s;
             neg = (s1 \<noteq> [] \<and> hd s1 = CHR ''-'');
             s2 = (if s1 \<noteq> [] \<and> hd s1 \<in> {CHR ''-'', CHR ''+''} then tl s1 else s1);
             ds = takeWhile isdigit s2;
             v = int (digits_value 10 ds)
         in if ds = [] then (0, s) else (if neg then - v else v, dropWhile isdigit s2))
      else (0, s))"

definition scaled :: "nat \<Rightarrow> nat \<Rightarrow> int \<Rightarrow> magnitude" where
  "scaled n b e =
     (let num = n * b ^ nat e; den = b ^ nat (- e)
      in if den * 2 ^ 1024 \<le> num then Inf else Fin num den)"

text \<open>\<open>per\<close> is what a digit after the point divides by, counted in the base \<open>b\<close> of the exponent.\<close>

definition read_number :: "(char \<Rightarrow> bool) \<Rightarrow> nat \<Rightarrow> nat \<Rightarrow> nat \<Rightarrow> char \<Rightarrow> string \<Rightarrow> (magnitude \<times> string) option" where
  "read_number dig base b per e s =
     (let ds1 = takeWhile dig s;
          s1 = dropWhile dig s;
          point = (s1 \<noteq> [] \<and> hd s1 = CHR ''.'');
          ds2 = (if point then takeWhile dig (tl s1) else []);
          s2 = (if point then dropWhile dig (tl s1) else s1);
          (x, rest) = read_exponent e s2
      in if ds1 = [] \<and> ds2 = [] then None
         else Some (scaled (digits_value base (ds1 @ ds2)) b (x - int (per * length ds2)), rest))"

definition skip_nan_chars :: "string \<Rightarrow> string" where
  "skip_nan_chars s =
     (if s \<noteq> [] \<and> hd s = CHR ''('' then
        (let r = dropWhile (\<lambda>c. isalnum c \<or> c = CHR ''_'') (tl s)
         in if r \<noteq> [] \<and> hd r = CHR '')'' then tl r else s)
      else s)"

definition c_strtod :: "string \<Rightarrow> (bool \<times> magnitude \<times> string) option" where
  "c_strtod s =
     (let s1 = dropWhile c_isspace s;
          neg = (s1 \<noteq> [] \<and> hd s1 = CHR ''-'');
          s2 = (if s1 \<noteq> [] \<and> hd s1 \<in> {CHR ''-'', CHR ''+''} then tl s1 else s1);
          up = map c_toupper s2
      in if starts_with up ''INFINITY'' then Some (neg, Inf, drop 8 s2)
         else if starts_with up ''INF'' then Some (neg, Inf, drop 3 s2)
         else if starts_with up ''NAN'' then Some (neg, NaN, skip_nan_chars (drop 3 s2))
         else case (if starts_with up ''0X'' then read_number isxdigit 16 2 4 CHR ''P'' (drop 2 s2) else None) of
                Some (m, rest) \<Rightarrow> Some (neg, m, rest)
              | None \<Rightarrow> (case read_number isdigit 10 10 1 CHR ''E'' s2 of
                           Some (m, rest) \<Rightarrow> Some (neg, m, rest) | None \<Rightarrow> None))"

text \<open>
  \<^const>\<open>None\<close>: refused.  \<^term>\<open>Some None\<close>: accepted, but the value does not fit an \<^verbatim>\<open>unsigned long long\<close> and the conversion is
  undefined.
\<close>

definition parse_size_mib :: "string \<Rightarrow> nat option option" where
  "parse_size_mib inp =
     (let s = filter (\<lambda>c. c \<noteq> CHR '' '' \<and> c \<noteq> CHR 0x09) inp
      in if s = [] then None
         else case c_strtod s of
           None \<Rightarrow> None
         | Some (neg, m, rest) \<Rightarrow>
             (let u = map c_toupper rest;
                  mib = (\<lambda>mul dv. case m of
                           Fin n d \<Rightarrow> (let v = (2 * n * mul + d * dv) div (2 * d * dv)
                                      in if v < 2 ^ 64 then Some v else None)
                         | _ \<Rightarrow> None)
              in if neg \<and> (case m of Fin n d \<Rightarrow> 0 < n | Inf \<Rightarrow> True | NaN \<Rightarrow> False) then None
                 else if u \<in> {[], ''M'', ''MB'', ''MIB''} then Some (mib 1 1)
                 else if u \<in> {''G'', ''GB'', ''GIB''} then Some (mib 1024 1)
                 else if u \<in> {''T'', ''TB'', ''TIB''} then Some (mib (1024 * 1024) 1)
                 else if u \<in> {''K'', ''KB'', ''KIB''} then Some (mib 1 1024)
                 else None))"

definition default_swap_size :: "nat \<Rightarrow> string" where
  "default_swap_size mem_kib =
     (let mib = mem_kib div 1024;
          mib = (if mib = 0 then 2048 else mib);
          mib = (if 8192 < mib then 8192 else mib);
          mib = (if mib < 1024 then 1024 else mib)
      in nat_digits mib @ ''M'')"

section \<open>Checking\<close>

fun first_error :: "(bool \<times> string) list \<Rightarrow> string option" where
  "first_error [] = None"
| "first_error ((bad, msg) # cs) = (if bad then Some msg else first_error cs)"

fun join_alternatives :: "string list \<Rightarrow> string" where
  "join_alternatives [] = []"
| "join_alternatives [a] = a"
| "join_alternatives (a # as) = a @ ''|'' @ join_alternatives as"

definition enum_check :: "string \<Rightarrow> string \<Rightarrow> string list \<Rightarrow> bool \<times> string" where
  "enum_check field value allowed =
     (value \<notin> set allowed,
      field @ '' must be one of '' @ join_alternatives allowed @ '' (got '' @ [CHR 0x27] @ value @ [CHR 0x27] @ '')'')"

definition host_char :: "char \<Rightarrow> bool" where
  "host_char c \<longleftrightarrow> isalnum c \<or> c = CHR ''-'' \<or> c = CHR ''.''"

definition user_char :: "char \<Rightarrow> bool" where
  "user_char c \<longleftrightarrow> islower c \<or> isdigit c \<or> c = CHR ''-'' \<or> c = CHR ''_''"

definition bad_char_check :: "string \<Rightarrow> (char \<Rightarrow> bool) \<Rightarrow> string \<Rightarrow> bool \<times> string" where
  "bad_char_check field ok s =
     (case find (\<lambda>c. \<not> ok c) s of
        None \<Rightarrow> (False, [])
      | Some c \<Rightarrow> (True, field @ '' contains invalid character '' @ [CHR 0x27, c, CHR 0x27]))"

definition validate :: "Config \<Rightarrow> bool \<Rightarrow> string option" where
  "validate cfg interactive = first_error (
     [enum_check ''install.mode'' (g_mode cfg) [''erase'', ''alongside'', ''mounted''],
      enum_check ''install.filesystem'' (g_filesystem cfg) [''btrfs'', ''ext4''],
      enum_check ''install.swap'' (g_swap cfg) [''none'', ''file'', ''partition'', ''zram''],
      enum_check ''install.desktop'' (g_desktop cfg) [''auto'', ''keep'', ''none''],
      enum_check ''boot.firmware'' (g_firmware cfg) [''auto'', ''uefi'', ''bios'', ''both''],
      enum_check ''boot.shim'' (g_shim cfg) [''auto'', ''yes'', ''no''],
      enum_check ''network.mode'' (g_network cfg) [''dhcp'', ''wifi'', ''none''],
      (g_mode cfg = ''mounted'' \<and> g_target cfg = [],
        ''install.target is required when install.mode = '' @ lua_quote ''mounted''),
      (g_mode cfg \<noteq> ''mounted'' \<and> g_disk cfg = [], ''install.disk is required''),
      (g_mode cfg \<noteq> ''mounted'' \<and> \<not> starts_with (g_disk cfg) ''/dev/'',
        ''install.disk must be a /dev path (got '' @ [CHR 0x27] @ g_disk cfg @ [CHR 0x27] @ '')''),
      (g_mode cfg = ''mounted'' \<and> g_swap cfg = ''partition'' \<and> g_swap_device cfg = [],
        ''install.swap_device is required for install.swap = '' @ lua_quote ''partition'' @ '' with install.mode = '' @ lua_quote ''mounted''),
      (g_swap_device cfg \<noteq> [] \<and> (g_mode cfg \<noteq> ''mounted'' \<or> g_swap cfg \<noteq> ''partition''),
        ''install.swap_device only applies to install.mode = '' @ lua_quote ''mounted'' @ '' with install.swap = '' @ lua_quote ''partition''),
      (\<not> g_sudo cfg \<and> g_root_password cfg = [] \<and> g_root_password_hash cfg = [],
        ''user.root_password (or user.root_password_hash) is required when user.sudo = false, otherwise no account can administer the system''),
      (g_distro cfg = [], ''a primary [[stratum]] name is required''),
      (g_hostname cfg = [], ''system.hostname must not be empty''),
      bad_char_check ''system.hostname'' host_char (g_hostname cfg)]
     @ (if g_create_user cfg then
          [(g_username cfg = [], ''user.name must not be empty''),
           (g_username cfg = ''root'', ''user.name must not be root''),
           bad_char_check ''user.name'' user_char (g_username cfg),
           (\<not> interactive \<and> g_password cfg = [] \<and> g_password_hash cfg = [],
             ''user.password or user.password_hash is required for a non-interactive install'')]
        else [])
     @ [(g_encrypt cfg \<and> g_mode cfg \<noteq> ''mounted'' \<and> \<not> interactive \<and> g_passphrase cfg = [] \<and> g_passphrase_file cfg = [],
          ''install.passphrase or install.passphrase_file is required when install.encrypt = true''),
        (g_swap cfg \<noteq> ''none'' \<and> g_swap_size cfg \<noteq> ''auto'' \<and> parse_size_mib (g_swap_size cfg) = None,
          ''install.swap_size must be '' @ [CHR 0x27] @ ''auto'' @ [CHR 0x27] @ '' or a size like 4G (got '' @ [CHR 0x27] @ g_swap_size cfg @ [CHR 0x27] @ '')''),
        (g_root_size cfg \<noteq> [] \<and> parse_size_mib (g_root_size cfg) = None,
          ''install.root_size must be a size like 40G (got '' @ [CHR 0x27] @ g_root_size cfg @ [CHR 0x27] @ '')''),
        (g_root_size cfg \<noteq> [] \<and> g_mode cfg \<noteq> ''alongside'',
          ''install.root_size only applies to install.mode = '' @ lua_quote ''alongside''),
        (g_network cfg = ''wifi'' \<and> g_wifi_ssid cfg = [],
          ''network.wifi_ssid is required when network.mode = '' @ lua_quote ''wifi''),
        (g_kernel cfg = [], ''kernel.source must not be empty'')])"

section \<open>Writing\<close>

definition before_dot :: "string \<Rightarrow> string" where
  "before_dot k = takeWhile (\<lambda>c. c \<noteq> CHR ''.'') k"

definition after_dot :: "string \<Rightarrow> string" where
  "after_dot k = tl (dropWhile (\<lambda>c. c \<noteq> CHR ''.'') k)"

abbreviation NL :: string where "NL \<equiv> [CHR 0x0A]"

definition field_written :: "Config \<Rightarrow> bool \<Rightarrow> Field \<Rightarrow> bool" where
  "field_written cfg include_secrets f \<longleftrightarrow>
     (\<not> fd_secret f \<or> include_secrets) \<and> (case fd_member f of MStr get put \<Rightarrow> get cfg \<noteq> [] | MBool get put \<Rightarrow> True)"

definition field_text :: "Config \<Rightarrow> Field \<Rightarrow> string" where
  "field_text cfg f = (case fd_member f of
     MStr get put \<Rightarrow> lua_quote (get cfg) | MBool get put \<Rightarrow> if get cfg then ''true'' else ''false'')"

text \<open>The loop of \<^verbatim>\<open>to_lua\<close>; \<open>section\<close> is the section that is open.\<close>

primrec to_lua_loop :: "Config \<Rightarrow> bool \<Rightarrow> Field list \<Rightarrow> string \<Rightarrow> string" where
  "to_lua_loop cfg secrets [] sect = (if sect \<noteq> [] then ''  },'' @ NL else [])"
| "to_lua_loop cfg secrets (f # fs) sect =
     (if \<not> field_written cfg secrets f then to_lua_loop cfg secrets fs sect
      else
        (if before_dot (fd_key f) \<noteq> sect
         then (if sect \<noteq> [] then ''  },'' @ NL else []) @ ''  '' @ before_dot (fd_key f) @ '' = {'' @ NL else [])
        @ ''    '' @ after_dot (fd_key f) @ '' = '' @ field_text cfg f @ '','' @ NL
        @ to_lua_loop cfg secrets fs (before_dot (fd_key f)))"

definition to_lua :: "Config \<Rightarrow> bool \<Rightarrow> string" where
  "to_lua cfg include_secrets =
     ''-- saltOS system configuration (written by salt-setup)'' @ NL @ ''return {'' @ NL
     @ to_lua_loop cfg include_secrets setup_fields []
     @ ''  stratum = {'' @ NL @ ''    { name = '' @ lua_quote (g_distro cfg)
     @ '', role = '' @ lua_quote ''primary'' @ '', expose = true },'' @ NL @ ''  },'' @ NL @ ''}'' @ NL"

end
