(* ===== verification/Salt_Answers.thy ===== *)
theory Salt_Answers
  imports Salt_Setup
begin

text \<open>
  The configuration of the installer, written and read back (\<^verbatim>\<open>src/setup/config.cpp\<close>): the text of \<^verbatim>\<open>to_lua\<close> is that of a Lua table, its
  keys are found again, the members of \<^verbatim>\<open>Config\<close> are independent of each other, and secrets are left out.
\<close>

section \<open>What is written is read back\<close>

text \<open>
  The text of a Lua table of sections and of arrays of small tables, in the layout of \<^verbatim>\<open>to_lua\<close>.
\<close>

fun lua_scalar :: "salt_toml \<Rightarrow> string" where
  "lua_scalar (TString s) = lua_quote s"
| "lua_scalar (TBool b) = (if b then ''true'' else ''false'')"
| "lua_scalar (TInt i) = int_to_string i"
| "lua_scalar _ = []"

definition lua_pair :: "string \<times> salt_toml \<Rightarrow> string" where
  "lua_pair = (\<lambda>(n, v). n @ '' = '' @ lua_scalar v)"

definition lua_line :: "string \<times> salt_toml \<Rightarrow> string" where
  "lua_line kv = ''    '' @ lua_pair kv @ '','' @ NL"

fun lua_pairs :: "(string \<times> salt_toml) list \<Rightarrow> string" where
  "lua_pairs [] = []"
| "lua_pairs [kv] = lua_pair kv"
| "lua_pairs (kv # kvs) = lua_pair kv @ '', '' @ lua_pairs kvs"

fun lua_row :: "salt_toml \<Rightarrow> string" where
  "lua_row (TTable kvs) = ''    { '' @ lua_pairs kvs @ '' },'' @ NL"
| "lua_row v = lua_scalar v"

fun lua_section :: "string \<times> salt_toml \<Rightarrow> string" where
  "lua_section (k, TTable kvs) = ''  '' @ k @ '' = {'' @ NL @ concat (map lua_line kvs) @ ''  },'' @ NL"
| "lua_section (k, TArray ts) = ''  '' @ k @ '' = {'' @ NL @ concat (map lua_row ts) @ ''  },'' @ NL"
| "lua_section kv = ''  '' @ lua_pair kv @ '','' @ NL"

definition lua_table_text :: "(string \<times> salt_toml) list \<Rightarrow> string" where
  "lua_table_text kvs =
     ''-- saltOS system configuration (written by salt-setup)'' @ NL @ ''return {'' @ NL
     @ concat (map lua_section kvs) @ ''}'' @ NL"

text \<open>The table that a configuration is written as.\<close>

definition field_value :: "Config \<Rightarrow> Field \<Rightarrow> salt_toml" where
  "field_value cfg f = (case fd_member f of MStr get put \<Rightarrow> TString (get cfg) | MBool get put \<Rightarrow> TBool (get cfg))"

fun group_entries :: "(string \<times> string \<times> salt_toml) list \<Rightarrow> (string \<times> (string \<times> salt_toml) list) list" where
  "group_entries [] = []"
| "group_entries ((s, n, v) # es) =
     (case group_entries es of
        [] \<Rightarrow> [(s, [(n, v)])]
      | (s', kvs) # g \<Rightarrow> if s = s' then (s, (n, v) # kvs) # g else (s, [(n, v)]) # (s', kvs) # g)"

definition entry_of :: "Config \<Rightarrow> Field \<Rightarrow> string \<times> string \<times> salt_toml" where
  "entry_of cfg f = (before_dot (fd_key f), after_dot (fd_key f), field_value cfg f)"

definition setup_table :: "Config \<Rightarrow> bool \<Rightarrow> (string \<times> salt_toml) list" where
  "setup_table cfg secrets =
     map (\<lambda>(s, kvs). (s, TTable kvs)) (group_entries (map (entry_of cfg) (filter (field_written cfg secrets) setup_fields)))
     @ [(''stratum'', TArray [TTable [(''name'', TString (g_distro cfg)), (''role'', TString ''primary''), (''expose'', TBool True)]])]"

lemma field_text_scalar: "field_text cfg f = lua_scalar (field_value cfg f)"
  by (simp add: field_text_def field_value_def split: member.split)

lemma to_lua_loop_sections:
  assumes "\<forall>f\<in>set fs. before_dot (fd_key f) \<noteq> []"
  shows "to_lua_loop cfg b fs sect =
    (let g = group_entries (map (entry_of cfg) (filter (field_written cfg b) fs))
     in case g of
          [] \<Rightarrow> (if sect \<noteq> [] then ''  },'' @ NL else [])
        | (s, kvs) # g' \<Rightarrow>
            (if sect = s then concat (map lua_line kvs) @ ''  },'' @ NL @ concat (map (lua_section \<circ> (\<lambda>(s, kvs). (s, TTable kvs))) g')
             else (if sect \<noteq> [] then ''  },'' @ NL else [])
                  @ concat (map (lua_section \<circ> (\<lambda>(s, kvs). (s, TTable kvs))) g)))"
  using assms
proof (induction fs arbitrary: sect)
  case (Cons f fs)
  let ?g = "group_entries (map (entry_of cfg) (filter (field_written cfg b) fs))"
  have ne: "before_dot (fd_key f) \<noteq> []" "\<forall>f\<in>set fs. before_dot (fd_key f) \<noteq> []" using Cons.prems by auto
  show ?case
  proof (cases "field_written cfg b f")
    case False
    then show ?thesis using Cons.IH [OF ne(2)] by simp
  next
    case True
    have e: "entry_of cfg f = (before_dot (fd_key f), after_dot (fd_key f), field_value cfg f)" by (simp add: entry_of_def)
    show ?thesis
      using True ne(1)
      by (cases ?g; cases "sect = []")
        (auto simp: Cons.IH [OF ne(2)] e field_text_scalar lua_line_def lua_pair_def)
  qed
qed simp

lemma fields_have_sections: "\<forall>f\<in>set setup_fields. before_dot (fd_key f) \<noteq> []"
  by (simp add: setup_fields_def before_dot_def)

lemma to_lua_is_table: "to_lua cfg b = lua_table_text (setup_table cfg b)"
proof -
  have "to_lua_loop cfg b setup_fields [] =
      concat (map (lua_section \<circ> (\<lambda>(s, kvs). (s, TTable kvs))) (group_entries (map (entry_of cfg) (filter (field_written cfg b) setup_fields))))"
  proof -
    let ?es = "filter (field_written cfg b) setup_fields"
    have hd: "fst (hd (group_entries (map (entry_of cfg) fs))) = before_dot (fd_key (hd fs))" if "fs \<noteq> []" for fs
      using that by (cases fs) (auto simp: entry_of_def split: list.splits)
    have nil: "group_entries (map (entry_of cfg) fs) = [] \<longleftrightarrow> fs = []" for fs
      by (cases fs) (auto simp: entry_of_def split: list.splits)
    show ?thesis
    proof (cases "?es = []")
      case False
      then have "hd ?es \<in> set setup_fields" by (metis filter_is_subset hd_in_set subsetD)
      then have "before_dot (fd_key (hd ?es)) \<noteq> []" using fields_have_sections by blast
      then show ?thesis using to_lua_loop_sections [OF fields_have_sections, of cfg b "[]"] hd [OF False] nil [of ?es] False
        by (auto simp: Let_def split: list.splits)
    qed (simp add: to_lua_loop_sections [OF fields_have_sections])
  qed
  then show ?thesis
    by (simp add: to_lua_def lua_table_text_def setup_table_def lua_pair_def)
qed

text \<open>Looking a key up in the grouped table is looking it up among the entries, when the sections come one after another.\<close>

definition in_sections :: "(string \<Rightarrow> nat) \<Rightarrow> (string \<times> string \<times> salt_toml) list \<Rightarrow> bool" where
  "in_sections rk es \<longleftrightarrow> sorted_wrt (\<lambda>a b. fst a = fst b \<or> rk (fst a) < rk (fst b)) es"

lemma fst_group_entries: "fst ` set (group_entries es) = fst ` set es"
proof (induction es rule: group_entries.induct)
  case (2 s n v es)
  then show ?case by (cases "group_entries es"; cases "hd (group_entries es)") (simp_all flip: 2)
qed simp

lemma group_entries_lookup:
  assumes "in_sections rk es"
  shows "(case map_of (group_entries es) s of Some kvs \<Rightarrow> map_of kvs n | None \<Rightarrow> None) =
    map_of (map (\<lambda>(s, n, v). ((s, n), v)) es) (s, n)"
  using assms
proof (induction es rule: group_entries.induct)
  case (2 s0 n0 v es)
  have sec: "in_sections rk es" and later: "\<forall>e\<in>set es. s0 = fst e \<or> rk s0 < rk (fst e)"
    using "2.prems" by (auto simp: in_sections_def)
  note IH = "2.IH" [OF sec]
  show ?case
  proof (cases "group_entries es")
    case Nil
    then have "es = []" using fst_group_entries [of es] by simp
    then show ?thesis by simp
  next
    case (Cons p g)
    obtain s' kvs where p: "p = (s', kvs)" by fastforce
    show ?thesis
    proof (cases "s0 = s'")
      case True
      then show ?thesis using IH Cons p by auto
    next
      case False
      obtain e0 es' where es: "es = e0 # es'" using Cons by (cases es) auto
      have e0: "fst e0 = s'" using Cons p es by (cases e0) (auto split: list.splits if_splits)
      have "rk s0 < rk s'" using later es e0 False by auto
      moreover have "\<forall>e\<in>set es. s' = fst e \<or> rk s' < rk (fst e)" using sec es e0 by (auto simp: in_sections_def)
      ultimately have notin: "s0 \<notin> fst ` set es" by fastforce
      then have "map_of (group_entries es) s0 = None" using fst_group_entries [of es] by (simp add: map_of_eq_None_iff)
      moreover have "map_of (map (\<lambda>(s, n, v). ((s, n), v)) es) (s0, n) = None"
        using notin by (force simp: map_of_eq_None_iff image_iff)
      ultimately show ?thesis using IH Cons p False by auto
    qed
  qed
qed simp


lemma toml_path_two:
  assumes "k = s @ CHR ''.'' # n" "s \<noteq> []" "n \<noteq> []" "CHR ''.'' \<notin> set s" "CHR ''.'' \<notin> set n" "length s \<le> 255" "length n \<le> 255"
  shows "salt_toml_path (Some (TTable kvs)) k = (case map_of kvs s of Some t \<Rightarrow> toml_segment t n | None \<Rightarrow> None)"
proof -
  obtain c cs where s: "s = c # cs" using assms(2) by (cases s) auto
  have tw: "takeWhile (\<lambda>x. x \<noteq> CHR ''.'') k = s" using assms(1,4) by (subst assms(1), subst takeWhile_append2) auto
  have "salt_toml_path (Some (TTable kvs)) k = salt_toml_path (map_of kvs s) n"
  proof -
    have "k = c # (cs @ CHR ''.'' # n)" using assms(1) s by simp
    then show ?thesis
      using tw assms(6) s by (simp add: Let_def assms(1))
  qed
  also have "\<dots> = (case map_of kvs s of Some t \<Rightarrow> toml_segment t n | None \<Rightarrow> None)"
    using salt_toml_path_simple [OF assms(3,5,7)] by (simp split: option.split)
  finally show ?thesis .
qed

definition section_rank :: "string \<Rightarrow> nat" where
  "section_rank s = length (takeWhile (\<lambda>x. x \<noteq> s) [''system'', ''install'', ''boot'', ''user'', ''network''])"

definition plain_key :: "string \<Rightarrow> bool" where
  "plain_key k \<longleftrightarrow> (let s = before_dot k; n = after_dot k in
     k = s @ CHR ''.'' # n \<and> s \<noteq> [] \<and> n \<noteq> [] \<and> CHR ''.'' \<notin> set s \<and> CHR ''.'' \<notin> set n \<and> length s \<le> 255 \<and> length n \<le> 255 \<and> s \<noteq> ''stratum'')"

lemma plain_keyD:
  assumes "plain_key k"
  shows "k = before_dot k @ CHR ''.'' # after_dot k" "before_dot k \<noteq> []" "after_dot k \<noteq> []"
    "CHR ''.'' \<notin> set (before_dot k)" "CHR ''.'' \<notin> set (after_dot k)"
    "length (before_dot k) \<le> 255" "length (after_dot k) \<le> 255" "before_dot k \<noteq> ''stratum''"
  using assms unfolding plain_key_def Let_def by blast+

lemma setup_keys_plain: "\<forall>f\<in>set setup_fields. plain_key (fd_key f)"
  by (simp add: setup_fields_def plain_key_def before_dot_def after_dot_def)

lemma setup_keys_sections: "sorted_wrt (\<lambda>f g. before_dot (fd_key f) = before_dot (fd_key g)
     \<or> section_rank (before_dot (fd_key f)) < section_rank (before_dot (fd_key g))) setup_fields"
  by code_simp

lemma setup_keys_distinct: "distinct (map fd_key setup_fields)"
  by code_simp


lemma setup_key_parts_inj: "inj_on (\<lambda>f. (before_dot (fd_key f), after_dot (fd_key f))) (set setup_fields)"
proof (rule inj_onI)
  fix x y assume xy: "x \<in> set setup_fields" "y \<in> set setup_fields"
    and eq: "(before_dot (fd_key x), after_dot (fd_key x)) = (before_dot (fd_key y), after_dot (fd_key y))"
  have "fd_key x = before_dot (fd_key x) @ CHR ''.'' # after_dot (fd_key x)" by (rule plain_keyD(1)) (use setup_keys_plain xy in blast)
  also have "\<dots> = before_dot (fd_key y) @ CHR ''.'' # after_dot (fd_key y)" using eq by simp
  also have "\<dots> = fd_key y" by (rule plain_keyD(1) [symmetric]) (use setup_keys_plain xy in blast)
  finally show "x = y" using setup_keys_distinct xy by (meson distinct_map inj_onD)
qed

lemma setup_table_lookup:
  assumes "f \<in> set setup_fields"
  shows "salt_toml_path (Some (TTable (setup_table cfg b))) (fd_key f) = (if field_written cfg b f then Some (field_value cfg f) else None)"
proof -
  let ?w = "filter (field_written cfg b) setup_fields"
  let ?es = "map (entry_of cfg) ?w"
  let ?s = "before_dot (fd_key f)" and ?n = "after_dot (fd_key f)"
  note key = plain_keyD [OF setup_keys_plain [rule_format, OF assms]]
  have sec: "in_sections section_rank ?es"
    using sorted_wrt_filter [OF setup_keys_sections, of "field_written cfg b"]
    by (simp add: in_sections_def sorted_wrt_map entry_of_def)
  have inj: "g = f" if "g \<in> set setup_fields" "before_dot (fd_key g) = ?s" "after_dot (fd_key g) = ?n" for g
    using setup_key_parts_inj that assms by (auto dest: inj_onD)
  have found: "map_of (map (\<lambda>(s, n, v). ((s, n), v)) ?es) (?s, ?n) = (if field_written cfg b f then Some (field_value cfg f) else None)"
  proof (cases "field_written cfg b f")
    case True
    have d: "distinct (map fst (map (\<lambda>(s, n, v). ((s, n), v)) ?es))"
    proof -
      have "distinct setup_fields" using setup_keys_distinct by (simp add: distinct_map)
      then have "distinct (map (\<lambda>f. (before_dot (fd_key f), after_dot (fd_key f))) ?w)"
        using inj_on_subset [OF setup_key_parts_inj, of "set ?w"] by (auto simp: distinct_map)
      then show ?thesis by (simp add: comp_def entry_of_def)
    qed
    have "((?s, ?n), field_value cfg f) \<in> set (map (\<lambda>(s, n, v). ((s, n), v)) ?es)"
      using assms True by (force simp: entry_of_def image_iff)
    then show ?thesis using d True by (simp add: map_of_is_SomeI)
  next
    case False
    have "(?s, ?n) \<notin> fst ` set (map (\<lambda>(s, n, v). ((s, n), v)) ?es)"
      using inj False by (auto simp: entry_of_def)
    then show ?thesis using False by (simp add: map_of_eq_None_iff)
  qed
  have "map_of (setup_table cfg b) ?s = map_option TTable (map_of (group_entries ?es) ?s)"
    using key(8) by (simp add: setup_table_def map_add_def map_of_map split: option.splits)
  then show ?thesis
    using toml_path_two [OF key(1-7)] group_entries_lookup [OF sec, where s = ?s and n = ?n] found by (simp split: option.splits if_splits)
qed

definition keep_field :: "Config \<Rightarrow> bool \<Rightarrow> Field \<Rightarrow> Config \<Rightarrow> Config" where
  "keep_field cfg b f c = (case fd_member f of
     MStr get put \<Rightarrow> put (if field_written cfg b f then get cfg else get c) c
   | MBool get put \<Rightarrow> put (get cfg) c)"

definition gets_put :: "Field \<Rightarrow> bool" where
  "gets_put f \<longleftrightarrow> (case fd_member f of
     MStr get put \<Rightarrow> (\<forall>v c. get (put v c) = v) \<and> (\<forall>c. put (get c) c = c)
   | MBool get put \<Rightarrow> (\<forall>v c. get (put v c) = v) \<and> \<not> fd_secret f)"

lemma setup_fields_gets_put: "\<forall>f\<in>set setup_fields. gets_put f"
  by (simp add: setup_fields_def gets_put_def)

lemma load_field_table:
  assumes "f \<in> set setup_fields"
  shows "load_field (TTable (setup_table cfg b)) f c = Inr (keep_field cfg b f c)"
  using setup_table_lookup [OF assms, of cfg b] setup_fields_gets_put [rule_format, OF assms]
  by (auto simp: load_field_def keep_field_def gets_put_def field_value_def field_written_def split: member.splits)

lemma load_fields_table:
  assumes "set fs \<subseteq> set setup_fields"
  shows "load_fields (TTable (setup_table cfg b)) fs c = Inr (fold (keep_field cfg b) fs c)"
  using assms by (induction fs arbitrary: c) (simp_all add: load_field_table)

definition without_secrets :: "Config \<Rightarrow> Config" where
  "without_secrets cfg = cfg\<lparr>g_passphrase := [], g_password := [], g_password_hash := [], g_root_password := [],
     g_root_password_hash := [], g_wifi_psk := []\<rparr>"

text \<open>No answer that has a default has been emptied.\<close>

definition defaults_kept :: "Config \<Rightarrow> bool" where
  "defaults_kept cfg \<longleftrightarrow> list_all (\<lambda>f. case fd_member f of
     MStr get put \<Rightarrow> get cfg \<noteq> [] \<or> get default_config = [] | MBool get put \<Rightarrow> True) setup_fields"

text \<open>The members are independent of each other: writing one leaves the others.\<close>

definition same_member :: "member \<Rightarrow> Config \<Rightarrow> Config \<Rightarrow> bool" where
  "same_member m c c' \<longleftrightarrow> (case m of MStr get put \<Rightarrow> get c = get c' | MBool get put \<Rightarrow> get c = get c')"

definition leaves_member :: "member \<Rightarrow> member \<Rightarrow> bool" where
  "leaves_member m m' \<longleftrightarrow> (case m of
     MStr get put \<Rightarrow> \<forall>v c. same_member m' (put v c) c | MBool get put \<Rightarrow> \<forall>v c. same_member m' (put v c) c)"

definition independent_members :: "member \<Rightarrow> member \<Rightarrow> bool" where
  "independent_members m m' \<longleftrightarrow> leaves_member m m' \<and> leaves_member m' m"

lemma independent_members_simps [simp]:
  "independent_members (MStr g p) (MStr g' p') \<longleftrightarrow> (\<forall>v c. g' (p v c) = g' c) \<and> (\<forall>v c. g (p' v c) = g c)"
  "independent_members (MStr g p) (MBool h q) \<longleftrightarrow> (\<forall>v c. h (p v c) = h c) \<and> (\<forall>v c. g (q v c) = g c)"
  "independent_members (MBool h q) (MStr g p) \<longleftrightarrow> (\<forall>v c. g (q v c) = g c) \<and> (\<forall>v c. h (p v c) = h c)"
  "independent_members (MBool h q) (MBool h' q') \<longleftrightarrow> (\<forall>v c. h' (q v c) = h' c) \<and> (\<forall>v c. h (q' v c) = h c)"
  by (simp_all add: independent_members_def leaves_member_def same_member_def)

lemma setup_fields_independent: "sorted_wrt independent_members (map fd_member setup_fields)"
  by (simp add: setup_fields_def)

definition kept_member :: "Config \<Rightarrow> bool \<Rightarrow> Field \<Rightarrow> Config \<Rightarrow> Config \<Rightarrow> bool" where
  "kept_member cfg b f c r \<longleftrightarrow> (case fd_member f of
     MStr get put \<Rightarrow> get r = (if field_written cfg b f then get cfg else get c)
   | MBool get put \<Rightarrow> get r = get cfg)"

lemma keep_leaves: "leaves_member (fd_member g) m \<Longrightarrow> same_member m (keep_field cfg b g c) c"
  by (simp add: leaves_member_def keep_field_def split: member.splits)

lemma same_member_trans: "same_member m a b \<Longrightarrow> same_member m b c \<Longrightarrow> same_member m a c"
  by (simp add: same_member_def split: member.splits)

lemma fold_keep_leaves:
  assumes "\<forall>g\<in>set fs. leaves_member (fd_member g) m"
  shows "same_member m (fold (keep_field cfg b) fs c) c"
  using assms
proof (induction fs arbitrary: c)
  case (Cons g fs)
  have "same_member m (fold (keep_field cfg b) fs (keep_field cfg b g c)) (keep_field cfg b g c)"
    by (rule Cons.IH) (use Cons.prems in simp)
  moreover have "same_member m (keep_field cfg b g c) c" using Cons.prems by (simp add: keep_leaves)
  ultimately show ?case unfolding fold_simps by (rule same_member_trans)
qed (simp add: same_member_def split: member.split)

lemma kept_member_same:
  "kept_member cfg b f c r \<Longrightarrow> same_member (fd_member f) c c' \<Longrightarrow> kept_member cfg b f c' r"
  "kept_member cfg b f c r \<Longrightarrow> same_member (fd_member f) r' r \<Longrightarrow> kept_member cfg b f c r'"
  by (cases "fd_member f"; simp add: kept_member_def same_member_def)+

lemma kept_member_keep: "gets_put f \<Longrightarrow> kept_member cfg b f c (keep_field cfg b f c)"
  by (cases "fd_member f") (simp_all add: kept_member_def gets_put_def keep_field_def)

lemma fold_keep_member:
  assumes "sorted_wrt independent_members (map fd_member fs)" "\<forall>f\<in>set fs. gets_put f" "f \<in> set fs"
  shows "kept_member cfg b f c (fold (keep_field cfg b) fs c)"
  using assms
proof (induction fs arbitrary: c)
  case (Cons g fs)
  let ?c = "keep_field cfg b g c"
  have ind: "\<forall>h\<in>set fs. independent_members (fd_member g) (fd_member h)" and s: "sorted_wrt independent_members (map fd_member fs)"
    using Cons.prems(1) by auto
  show ?case
  proof (cases "f \<in> set fs")
    case True
    have "kept_member cfg b f ?c (fold (keep_field cfg b) fs ?c)"
      by (rule Cons.IH [OF s]) (use Cons.prems(2) True in simp_all)
    moreover have "same_member (fd_member f) ?c c"
      by (rule keep_leaves) (use ind True in \<open>simp add: independent_members_def\<close>)
    ultimately show ?thesis unfolding fold_simps by (rule kept_member_same(1))
  next
    case False
    then have f: "f = g" using Cons.prems(3) by simp
    have "same_member (fd_member f) (fold (keep_field cfg b) fs ?c) ?c"
      by (rule fold_keep_leaves) (use ind f in \<open>simp add: independent_members_def\<close>)
    moreover have "kept_member cfg b f c ?c" unfolding f by (rule kept_member_keep) (use Cons.prems(2) in simp)
    ultimately show ?thesis unfolding fold_simps using kept_member_same(2) by blast
  qed
qed simp

lemma fold_keep_fields:
  assumes "defaults_kept cfg"
  shows "(fold (keep_field cfg b) setup_fields default_config)\<lparr>g_distro := g_distro cfg\<rparr> = (if b then cfg else without_secrets cfg)"
proof -
  define r where "r = fold (keep_field cfg b) setup_fields default_config"
  have "list_all (\<lambda>f. kept_member cfg b f default_config r) setup_fields"
    using fold_keep_member [OF setup_fields_independent setup_fields_gets_put] by (simp add: list_all_iff r_def)
  then have k: "list_all (\<lambda>f. kept_member cfg b f default_config r
      \<and> (case fd_member f of MStr get put \<Rightarrow> get cfg \<noteq> [] \<or> get default_config = [] | MBool get put \<Rightarrow> True)) setup_fields"
    using assms by (simp add: defaults_kept_def list_all_iff)
  have secrets: "g_passphrase default_config = []" "g_password default_config = []" "g_password_hash default_config = []"
      "g_root_password default_config = []" "g_root_password_hash default_config = []" "g_wifi_psk default_config = []"
    by (simp_all add: default_config_def)
  have sel: "g_hostname r = g_hostname cfg" "g_locale r = g_locale cfg" "g_timezone r = g_timezone cfg" "g_keymap r = g_keymap cfg"
      "g_xkb_layout r = g_xkb_layout cfg" "g_xkb_variant r = g_xkb_variant cfg" "g_disk r = g_disk cfg" "g_mode r = g_mode cfg"
      "g_target r = g_target cfg" "g_filesystem r = g_filesystem cfg" "g_encrypt r = g_encrypt cfg"
      "g_passphrase r = (if b then g_passphrase cfg else [])" "g_passphrase_file r = g_passphrase_file cfg"
      "g_swap r = g_swap cfg" "g_swap_size r = g_swap_size cfg" "g_swap_device r = g_swap_device cfg"
      "g_root_size r = g_root_size cfg" "g_desktop r = g_desktop cfg" "g_firmware r = g_firmware cfg"
      "g_os_prober r = g_os_prober cfg" "g_cmdline r = g_cmdline cfg" "g_shim r = g_shim cfg" "g_username r = g_username cfg"
      "g_password r = (if b then g_password cfg else [])" "g_password_hash r = (if b then g_password_hash cfg else [])"
      "g_root_password r = (if b then g_root_password cfg else [])"
      "g_root_password_hash r = (if b then g_root_password_hash cfg else [])" "g_shell r = g_shell cfg" "g_sudo r = g_sudo cfg"
      "g_autologin r = g_autologin cfg" "g_create_user r = g_create_user cfg" "g_network r = g_network cfg"
      "g_wifi_ssid r = g_wifi_ssid cfg" "g_wifi_psk r = (if b then g_wifi_psk cfg else [])" "g_kernel r = g_kernel cfg"
    using k by (auto simp: setup_fields_def kept_member_def field_written_def secrets split: if_splits)
  show ?thesis
    unfolding r_def [symmetric] by (rule Config.equality) (simp_all add: sel without_secrets_def)
qed

lemma table_distro:
  "salt_toml_get (Some (TTable (setup_table cfg b))) ''stratum'' =
     Some (TArray [TTable [(''name'', TString (g_distro cfg)), (''role'', TString ''primary''), (''expose'', TBool True)]])"
proof -
  let ?es = "map (entry_of cfg) (filter (field_written cfg b) setup_fields)"
  have "''stratum'' \<notin> fst ` set ?es"
  proof
    assume "''stratum'' \<in> fst ` set ?es"
    then obtain f where "f \<in> set setup_fields" "before_dot (fd_key f) = ''stratum''" by (auto simp: entry_of_def)
    then show False using plain_keyD(8) [OF setup_keys_plain [rule_format]] by blast
  qed
  then have "map_of (map (\<lambda>(s, kvs). (s, TTable kvs)) (group_entries ?es)) ''stratum'' = None"
    unfolding fst_group_entries [symmetric] by (force simp: map_of_eq_None_iff)
  then show ?thesis by (simp add: salt_toml_get_def setup_table_def map_add_def)
qed

lemma to_lua_loop_cong:
  assumes "\<forall>f\<in>set fs. field_written c b f = field_written c' b f \<and> (field_written c b f \<longrightarrow> field_text c f = field_text c' f)"
  shows "to_lua_loop c b fs sect = to_lua_loop c' b fs sect"
  using assms by (induction fs arbitrary: sect) auto



definition ex_config :: Config where
  "ex_config = default_config\<lparr>g_disk := ''/dev/sda'', g_password := ''secret'', g_distro := ''void''\<rparr>"

definition ex_conf_parse :: "string \<Rightarrow> string \<Rightarrow> string + salt_toml" where
  "ex_conf_parse t n = (if t = lua_table_text (setup_table ex_config False) then Inr (TTable (setup_table ex_config False)) else Inl ''bad'')"

lemma ex_config_defaults_kept: "defaults_kept ex_config"
  by (simp add: defaults_kept_def ex_config_def default_config_def setup_fields_def)


text \<open>
  C19.  What the installer prints with \<^verbatim>\<open>--dump-config\<close> and leaves in \<^verbatim>\<open>/etc/salt/system.lua\<close> tells nothing about a secret: it is the same
  text whatever the passphrase, the passwords, their hashes and the Wi-Fi key are.
\<close>

theorem dump_hides_secrets: "to_lua cfg False = to_lua (without_secrets cfg) False"
proof -
  have "\<forall>f\<in>set setup_fields. field_written cfg False f = field_written (without_secrets cfg) False f
      \<and> (field_written cfg False f \<longrightarrow> field_text cfg f = field_text (without_secrets cfg) f)"
    by (simp add: setup_fields_def field_written_def field_text_def without_secrets_def)
  then have "to_lua_loop cfg False setup_fields [] = to_lua_loop (without_secrets cfg) False setup_fields []"
    by (rule to_lua_loop_cong)
  then show ?thesis by (simp add: to_lua_def without_secrets_def)
qed

end
