(* ===== verification/Salt_Installer.thy ===== *)
theory Salt_Installer
  imports Salt_Setup
begin

text \<open>
  The installer \<^verbatim>\<open>salt-setup\<close> (\<^verbatim>\<open>src/setup/main.cpp\<close>): questions, partitioning, laying down and configuring the system, the
  boot loader.

  What the installer does to the machine is a list of events: the programs it runs with their standard input, the files it
  writes, the directories it makes, the calls into the strata library.  What the machine answers (exit status and output of a
  program, contents of a file, whether a device is there) is an arbitrary function of the events so far, a parameter
  \<open>setup_env\<close>.  Standard input is a list of lines.  An action ends normally, with \<^verbatim>\<open>exit\<close> (the function \<^verbatim>\<open>fail\<close>), in undefined behaviour
  or not at all; the state is kept in every case, so that theorems speak of runs that are cut short as well.
\<close>

section \<open>Actions\<close>

datatype strata_call =
    DbOpen string
  | RecipeLoad string
  | Bootstrap string string
  | StratumRoot string string
  | ExposePm string string string
  | ExposeAdd string string string string string

datatype event =
    Ran "string list" string
  | Wrote string string nat
  | MadeDirs string
  | Slept
  | Called strata_call

record inst =
  i_log :: "event list"
  i_in :: "string list"

record setup_env =
  v_run :: "event list \<Rightarrow> string list \<Rightarrow> string \<Rightarrow> int \<times> string"
  v_read :: "event list \<Rightarrow> string \<Rightarrow> string option"
  v_write_ok :: "event list \<Rightarrow> string \<Rightarrow> bool"
  v_exists :: "event list \<Rightarrow> string \<Rightarrow> bool"
  v_isdir :: "event list \<Rightarrow> string \<Rightarrow> bool"
  v_isblk :: "event list \<Rightarrow> string \<Rightarrow> bool"
  v_list :: "event list \<Rightarrow> string \<Rightarrow> string list option"
  v_strata :: "event list \<Rightarrow> strata_call \<Rightarrow> string option option"
  v_conf :: "string \<Rightarrow> string \<Rightarrow> string + salt_toml"
  v_is_root :: bool
  v_machine :: string

datatype 'a outcome = Done 'a inst | Exited int inst | Hangs inst | Undef inst

type_synonym 'a action = "setup_env \<Rightarrow> inst \<Rightarrow> 'a outcome"

definition iret :: "'a \<Rightarrow> 'a action" where
  "iret x v s = Done x s"

definition ibind :: "'a action \<Rightarrow> ('a \<Rightarrow> 'b action) \<Rightarrow> 'b action" where
  "ibind m k v s = (case m v s of Done x s' \<Rightarrow> k x v s' | Exited c s' \<Rightarrow> Exited c s' | Hangs s' \<Rightarrow> Hangs s' | Undef s' \<Rightarrow> Undef s')"

definition iseq :: "unit action \<Rightarrow> 'b action \<Rightarrow> 'b action" where
  "iseq m k = ibind m (\<lambda>_. k)"

primrec idos :: "unit action list \<Rightarrow> unit action" where
  "idos [] = iret ()"
| "idos (a # as) = iseq a (idos as)"

definition ifor :: "'a list \<Rightarrow> ('a \<Rightarrow> unit action) \<Rightarrow> unit action" where
  "ifor xs f = idos (map f xs)"

definition iwhen :: "bool \<Rightarrow> unit action \<Rightarrow> unit action" where
  "iwhen b a = (if b then a else iret ())"

text \<open>Looking at the machine.\<close>

definition iask :: "(setup_env \<Rightarrow> event list \<Rightarrow> 'a) \<Rightarrow> 'a action" where
  "iask f v s = Done (f v (i_log s)) s"

definition iev :: "event \<Rightarrow> (setup_env \<Rightarrow> event list \<Rightarrow> 'a) \<Rightarrow> 'a action" where
  "iev e f v s = Done (f v (i_log s)) (s\<lparr>i_log := i_log s @ [e]\<rparr>)"

definition iexit :: "'a action" where
  "iexit v s = Exited 1 s"

definition iundef :: "'a action" where
  "iundef v s = Undef s"

section \<open>Running programs\<close>

definition run_stdin :: "string list \<Rightarrow> string \<Rightarrow> int action" where
  "run_stdin args inp = iev (Ran args inp) (\<lambda>v log. fst (v_run v log args inp))"

definition run_cmd :: "string list \<Rightarrow> int action" where
  "run_cmd args = run_stdin args []"

definition run_quiet :: "string list \<Rightarrow> int action" where
  "run_quiet args = run_stdin args []"

definition run_capture :: "string list \<Rightarrow> string action" where
  "run_capture args = iev (Ran args []) (\<lambda>v log. snd (v_run v log args []))"

definition quietly :: "string list \<Rightarrow> unit action" where
  "quietly args = ibind (run_quiet args) (\<lambda>_. iret ())"

definition must :: "string list \<Rightarrow> unit action" where
  "must args = ibind (run_cmd args) (\<lambda>rc. if rc = 0 then iret () else iexit)"

definition must_stdin :: "string list \<Rightarrow> string \<Rightarrow> unit action" where
  "must_stdin args inp = ibind (run_stdin args inp) (\<lambda>rc. if rc = 0 then iret () else iexit)"

definition chroot_run :: "string \<Rightarrow> string list \<Rightarrow> int action" where
  "chroot_run mnt args = run_cmd ([''chroot'', mnt] @ args)"

definition chroot_must :: "string \<Rightarrow> string list \<Rightarrow> unit action" where
  "chroot_must mnt args = ibind (chroot_run mnt args) (\<lambda>rc. if rc = 0 then iret () else iexit)"

definition chroot_has :: "string \<Rightarrow> string \<Rightarrow> bool action" where
  "chroot_has mnt cmd = ibind (run_quiet [''chroot'', mnt, ''sh'', ''-c'', ''command -v '' @ cmd]) (\<lambda>rc. iret (rc = 0))"

definition has_cmd :: "string \<Rightarrow> bool action" where
  "has_cmd cmd = ibind (run_quiet [''sh'', ''-c'', ''command -v '' @ cmd]) (\<lambda>rc. iret (rc = 0))"

section \<open>Strings\<close>

definition trim_char :: "char \<Rightarrow> bool" where
  "trim_char c \<longleftrightarrow> c \<in> {CHR '' '', CHR 0x09, CHR 0x0D, CHR 0x0A}"

definition trim :: "string \<Rightarrow> string" where
  "trim s = strip_back trim_char (dropWhile trim_char s)"

fun split_lines :: "string \<Rightarrow> string list" where
  "split_lines [] = []"
| "split_lines (c # cs) =
     (if c = CHR 0x0A then [] # split_lines cs
      else case split_lines cs of
             [] \<Rightarrow> [[c]] | l # ls \<Rightarrow> (c # l) # ls)"

function split_ws :: "string \<Rightarrow> string list" where
  "split_ws s = (let w = dropWhile c_isspace s in
     if w = [] then [] else takeWhile (\<lambda>c. \<not> c_isspace c) w # split_ws (dropWhile (\<lambda>c. \<not> c_isspace c) w))"
  by pat_completeness auto
termination
proof (relation "measure length")
  fix s :: string and w
  assume w: "w = dropWhile c_isspace s" "w \<noteq> []"
  then have "\<not> c_isspace (hd w)" by (metis hd_dropWhile)
  then have "length (dropWhile (\<lambda>c. \<not> c_isspace c) w) < length w"
    using w(2) by (cases w) (auto simp: le_imp_less_Suc length_dropWhile_le)
  also have "\<dots> \<le> length s" using w(1) by (simp add: length_dropWhile_le)
  finally show "(dropWhile (\<lambda>c. \<not> c_isspace c) w, s) \<in> measure length" by simp
qed simp

declare split_ws.simps [simp del]

definition c_strtoull :: "string \<Rightarrow> nat" where
  "c_strtoull s = (let i = fst (c_strtol s) in if 2 ^ 64 \<le> \<bar>i\<bar> then 2 ^ 64 - 1 else nat (i mod 2 ^ 64))"

definition base_name :: "string \<Rightarrow> string" where
  "base_name p = (case rfind_char CHR ''/'' p of Some i \<Rightarrow> drop (Suc i) p | None \<Rightarrow> p)"

definition dir_name :: "string \<Rightarrow> string" where
  "dir_name p = (case rfind_char CHR ''/'' p of Some i \<Rightarrow> take i p | None \<Rightarrow> p)"

definition sh_quote :: "string \<Rightarrow> string" where
  "sh_quote s = CHR 0x22 # concat (map (\<lambda>c. if c \<in> {CHR 0x22, CHR 0x5C, CHR ''$'', CHR 0x60} then [CHR 0x5C, c] else [c]) s) @ [CHR 0x22]"

definition text_lines :: "string list \<Rightarrow> string" where
  "text_lines ls = concat (map (\<lambda>l. l @ NL) ls)"

section \<open>Questions\<close>

text \<open>
  \<^verbatim>\<open>prompt\<close> in a loop: lines are read until one is accepted; the end of the input ends the program.  An empty line is the
  default.
\<close>

primrec answer :: "(string \<Rightarrow> 'a option) \<Rightarrow> string \<Rightarrow> string list \<Rightarrow> ('a \<times> string list) option" where
  "answer accept def [] = None"
| "answer accept def (l # ls) =
     (case accept (if trim l = [] then def else trim l) of Some x \<Rightarrow> Some (x, ls) | None \<Rightarrow> answer accept def ls)"

definition prompt_until :: "(string \<Rightarrow> 'a option) \<Rightarrow> string \<Rightarrow> 'a action" where
  "prompt_until accept def v s =
     (case answer accept def (i_in s) of Some (x, ls) \<Rightarrow> Done x (s\<lparr>i_in := ls\<rparr>) | None \<Rightarrow> Exited 1 (s\<lparr>i_in := []\<rparr>))"

definition prompt :: "string \<Rightarrow> string action" where
  "prompt def = prompt_until Some def"

definition prompt_yesno :: "bool \<Rightarrow> bool action" where
  "prompt_yesno def = prompt_until parse_bool (if def then ''yes'' else ''no'')"

definition pick_choice :: "string list \<Rightarrow> string \<Rightarrow> string option" where
  "pick_choice keys a =
     (if a \<in> set keys then Some a
      else let (idx, rest) = c_strtol a
           in if rest = [] \<and> 1 \<le> idx \<and> idx \<le> int (length keys) then Some (keys ! nat (idx - 1)) else None)"

definition default_index :: "string list \<Rightarrow> string \<Rightarrow> nat" where
  "default_index keys def = foldl (\<lambda>d i. if keys ! i = def then i + 1 else d) 1 [0..<length keys]"

definition prompt_choice :: "string list \<Rightarrow> string \<Rightarrow> string action" where
  "prompt_choice keys def = prompt_until (pick_choice keys) (nat_digits (default_index keys def))"

definition prompt_secret :: "string action" where
  "prompt_secret v s = (case i_in s of [] \<Rightarrow> Done [] s | l # ls \<Rightarrow> Done l (s\<lparr>i_in := ls\<rparr>))"

text \<open>Two equal lines that are not empty; at the end of the input the loop goes on for ever.\<close>

fun secret_twice :: "string list \<Rightarrow> (string \<times> string list) option" where
  "secret_twice [] = None"
| "secret_twice [a] = None"
| "secret_twice (a # b # ls) =
     (if a = [] then secret_twice (b # ls) else if a = b then Some (a, ls) else secret_twice ls)"

definition prompt_secret_twice :: "string action" where
  "prompt_secret_twice v s =
     (case secret_twice (i_in s) of Some (x, ls) \<Rightarrow> Done x (s\<lparr>i_in := ls\<rparr>) | None \<Rightarrow> Hangs (s\<lparr>i_in := []\<rparr>))"

section \<open>Files\<close>

definition read_file :: "string \<Rightarrow> string action" where
  "read_file path = iask (\<lambda>v log. case v_read v log path of Some t \<Rightarrow> t | None \<Rightarrow> [])"

definition read_first_line :: "string \<Rightarrow> string action" where
  "read_first_line path = ibind (read_file path) (\<lambda>t. iret (trim (takeWhile (\<lambda>c. c \<noteq> CHR 0x0A) t)))"

definition path_exists :: "string \<Rightarrow> bool action" where
  "path_exists p = iask (\<lambda>v log. v_exists v log p)"

definition is_dir :: "string \<Rightarrow> bool action" where
  "is_dir p = iask (\<lambda>v log. v_isdir v log p)"

definition is_blockdev :: "string \<Rightarrow> bool action" where
  "is_blockdev p = iask (\<lambda>v log. v_isblk v log p)"

definition mkdirs :: "string \<Rightarrow> unit action" where
  "mkdirs p = iev (MadeDirs p) (\<lambda>v log. ())"

definition write_only :: "string \<Rightarrow> string \<Rightarrow> nat \<Rightarrow> bool action" where
  "write_only path content mode = iev (Wrote path content mode) (\<lambda>v log. v_write_ok v log path)"

definition write_file :: "string \<Rightarrow> string \<Rightarrow> nat \<Rightarrow> unit action" where
  "write_file path content mode =
     iseq (mkdirs (dir_name path)) (ibind (write_only path content mode) (\<lambda>ok. if ok then iret () else iexit))"

definition append_file :: "string \<Rightarrow> string \<Rightarrow> unit action" where
  "append_file path content =
     ibind (read_file path) (\<lambda>cur.
       write_file path ((if cur \<noteq> [] \<and> last cur \<noteq> CHR 0x0A then cur @ NL else cur) @ content) 420)"

definition kv_line :: "string \<Rightarrow> string \<Rightarrow> bool" where
  "kv_line key l \<longleftrightarrow> (let t = trim l in
     starts_with t (key @ ''='') \<or> starts_with t (''#'' @ key @ ''='') \<or> starts_with t (''# '' @ key @ ''=''))"

primrec kv_lines :: "string \<Rightarrow> string \<Rightarrow> bool \<Rightarrow> string list \<Rightarrow> string list" where
  "kv_lines key value seen [] = (if seen then [] else [key @ ''='' @ value])"
| "kv_lines key value seen (l # ls) =
     (if kv_line key l then (if seen then [] else key @ ''='' @ value) # kv_lines key value True ls
      else l # kv_lines key value seen ls)"

definition kv_text :: "string \<Rightarrow> string \<Rightarrow> string \<Rightarrow> string" where
  "kv_text key value t = text_lines (kv_lines key value False (split_lines t))"

definition set_kv :: "string \<Rightarrow> string \<Rightarrow> string \<Rightarrow> unit action" where
  "set_kv path key value = ibind (read_file path) (\<lambda>t. write_file path (kv_text key value t) 420)"


section \<open>Disks and partitions\<close>

definition whole_disk :: "string \<Rightarrow> bool" where
  "whole_disk name \<longleftrightarrow> \<not> (starts_with name ''.'' \<or> starts_with name ''loop'' \<or> starts_with name ''ram'' \<or> starts_with name ''sr''
     \<or> starts_with name ''zram'' \<or> starts_with name ''dm-'')"

text \<open>The nodes of the disks, sorted; sizes and models are only printed.\<close>

definition list_disks :: "string list action" where
  "list_disks =
     iask (\<lambda>v log. case v_list v log ''/sys/block'' of
        None \<Rightarrow> []
      | Some names \<Rightarrow>
          sort (map (\<lambda>n. ''/dev/'' @ n) (filter (\<lambda>n.
            whole_disk n
            \<and> (case v_read v log (''/sys/block/'' @ n @ ''/size'') of
                 None \<Rightarrow> False
               | Some t \<Rightarrow> trim (takeWhile (\<lambda>c. c \<noteq> CHR 0x0A) t) \<notin> {[], ''0''})) names)))"

definition list_strata :: "string \<Rightarrow> string list action" where
  "list_strata root =
     iask (\<lambda>v log. case v_list v log ((if root \<noteq> [] \<and> last root \<noteq> CHR ''/'' then root @ ''/'' else root) @ ''etc/salt/strata'') of
        None \<Rightarrow> []
      | Some names \<Rightarrow> sort (map (\<lambda>n. take (length n - 4) n) (filter (\<lambda>n. 4 < length n \<and> ends_with n ''.lua'') names)))"

definition blkid_value :: "string \<Rightarrow> string \<Rightarrow> string action" where
  "blkid_value dev tag = ibind (run_capture [''blkid'', ''-s'', tag, ''-o'', ''value'', dev]) (\<lambda>out. iret (trim out))"

definition blkid_uuid :: "string \<Rightarrow> string action" where
  "blkid_uuid dev = blkid_value dev ''UUID''"

definition partnode :: "string \<Rightarrow> int \<Rightarrow> string" where
  "partnode disk n = disk @ (if disk \<noteq> [] \<and> isdigit (last disk) then ''p'' else []) @ int_to_string n"

primrec wait_for_node :: "nat \<Rightarrow> string \<Rightarrow> unit action" where
  "wait_for_node 0 node = iexit"
| "wait_for_node (Suc n) node =
     ibind (is_blockdev node) (\<lambda>b. if b then iret () else iseq (iev Slept (\<lambda>_ _. ())) (wait_for_node n node))"

definition settle :: "string \<Rightarrow> unit action" where
  "settle disk = idos [quietly [''partprobe'', disk], quietly [''udevadm'', ''settle''], iev Slept (\<lambda>_ _. ())]"

record Part =
  pt_num :: int
  pt_start :: nat
  pt_end :: nat
  pt_code :: string
  pt_name :: string

definition part_of_line :: "string \<Rightarrow> Part option" where
  "part_of_line line =
     (let f = split_ws line
      in if length f < 6 \<or> snd (c_strtol (f ! 0)) \<noteq> [] then None
         else Some \<lparr>pt_num = c_int (fst (c_strtol (f ! 0))), pt_start = c_strtoull (f ! 1), pt_end = c_strtoull (f ! 2),
                    pt_code = f ! 5, pt_name = concat (map (\<lambda>i. (if 6 < i then '' '' else []) @ f ! i) [6..<length f])\<rparr>)"

text \<open>The lines after the one that begins with \<^verbatim>\<open>Number\<close>; such a line is never an entry.\<close>

primrec part_lines :: "bool \<Rightarrow> string list \<Rightarrow> Part list" where
  "part_lines in_table [] = []"
| "part_lines in_table (l # ls) =
     (if starts_with l ''Number'' then part_lines True ls
      else if \<not> in_table then part_lines False ls
      else (case part_of_line l of None \<Rightarrow> [] | Some p \<Rightarrow> [p]) @ part_lines True ls)"

definition read_parts :: "string \<Rightarrow> Part list action" where
  "read_parts disk = ibind (run_capture [''sgdisk'', ''-p'', disk]) (\<lambda>out. iret (part_lines False (split_lines out)))"

definition new_part :: "string \<Rightarrow> string \<Rightarrow> string \<Rightarrow> string \<Rightarrow> string action" where
  "new_part disk sz code name =
     ibind (read_parts disk) (\<lambda>before.
     iseq (must [''sgdisk'', ''-n0:'' @ (if sz = [] then ''0:0'' else ''0:+'' @ sz), ''-t0:'' @ code, ''-c0:'' @ name, disk])
     (ibind (read_parts disk) (\<lambda>after.
        let created = foldl (\<lambda>c p. if pt_num p \<notin> pt_num ` set before then pt_num p else c) 0 after
        in if created = 0 then iexit else iret (partnode disk created))))"

definition largest_free_mib :: "string \<Rightarrow> nat action" where
  "largest_free_mib disk =
     ibind (run_capture [''sgdisk'', ''-F'', disk]) (\<lambda>f.
     ibind (run_capture [''sgdisk'', ''-E'', disk]) (\<lambda>e.
       let first = c_strtoull (trim f); final = c_strtoull (trim e)
       in iret (if final \<le> first then 0 else ((final - first + 1) * 512) mod 2 ^ 64 div (1024 * 1024))))"

definition highest_kver :: "string \<Rightarrow> string action" where
  "highest_kver mnt =
     iask (\<lambda>v log. case v_list v log (mnt @ ''/lib/modules'') of
        None \<Rightarrow> []
      | Some ns \<Rightarrow> (let w = sort (filter (\<lambda>n. \<not> starts_with n ''.'') ns) in if w = [] then [] else last w))"

section \<open>Services\<close>

definition sv_dir :: "string \<Rightarrow> string action" where
  "sv_dir mnt = ibind (is_dir (mnt @ ''/etc/runit/sv'')) (\<lambda>b. iret (if b then ''/etc/runit/sv'' else ''/etc/sv''))"

definition runsvdir :: "string \<Rightarrow> string action" where
  "runsvdir mnt =
     ibind (is_dir (mnt @ ''/etc/runit/runsvdir/current'')) (\<lambda>c.
     ibind (is_dir (mnt @ ''/etc/runit/runsvdir/default'')) (\<lambda>d.
       iret (if c then ''/etc/runit/runsvdir/current'' else if d then ''/etc/runit/runsvdir/default''
             else ''/etc/runit/runsvdir/current'')))"

definition sv_enable :: "string \<Rightarrow> string \<Rightarrow> unit action" where
  "sv_enable mnt name =
     ibind (sv_dir mnt) (\<lambda>sv.
     ibind (is_dir (mnt @ sv @ ''/'' @ name)) (\<lambda>there.
       iwhen there (ibind (runsvdir mnt) (\<lambda>r.
         iseq (mkdirs (mnt @ r)) (quietly [''ln'', ''-sfn'', sv @ ''/'' @ name, mnt @ r @ ''/'' @ name])))))"

definition sv_disable :: "string \<Rightarrow> string \<Rightarrow> unit action" where
  "sv_disable mnt name = ibind (runsvdir mnt) (\<lambda>r. quietly [''rm'', ''-f'', mnt @ r @ ''/'' @ name])"

definition sv_write :: "string \<Rightarrow> string \<Rightarrow> string \<Rightarrow> unit action" where
  "sv_write mnt name script = ibind (sv_dir mnt) (\<lambda>sv. write_file (mnt @ sv @ ''/'' @ name @ ''/run'') script 493)"

definition live_files :: "string list" where
  "live_files = [''home/salt/.bash_profile'', ''home/salt/.xsession-errors'',
     ''home/salt/Desktop/Install-saltOS.desktop'', ''etc/sudoers.d/salt'', ''etc/sudoers.d/calamares'',
     ''etc/xdg/autostart/saltos-installer.desktop'', ''etc/xdg/autostart/saltos-setup.desktop'',
     ''usr/local/bin/saltos-installer'', ''usr/local/bin/saltos-setup-terminal'',
     ''usr/lib/saltos/autoinstall.sh'', ''usr/lib/saltos/autoinstall-calamares.sh'',
     ''usr/share/applications/saltos-installer.desktop'',
     ''usr/share/applications/saltos-setup.desktop'', ''etc/calamares'',
     ''etc/salt/live-profile.lua'', ''etc/motd'']"

definition delive :: "string \<Rightarrow> Config \<Rightarrow> unit action" where
  "delive mnt cfg =
     ibind (sv_dir mnt) (\<lambda>sv. idos [
       ibind (path_exists (mnt @ sv @ ''/agetty-tty1/run'')) (\<lambda>there. iwhen there
         (ibind (write_only (mnt @ sv @ ''/agetty-tty1/run'')
            (if g_autologin cfg \<and> g_create_user cfg
             then text_lines [''#!/bin/sh'', ''exec 2>&1'', ''exec setsid -w agetty --noclear --autologin '' @ g_username cfg @ '' tty1 38400 linux'']
             else text_lines [''#!/bin/sh'', ''exec 2>&1'', ''exec agetty --noclear tty1 38400 linux'']) 493) (\<lambda>_. iret ()))),
       ifor live_files (\<lambda>f. quietly [''rm'', ''-rf'', mnt @ ''/'' @ f]),
       ibind (sv_dir mnt) (\<lambda>sv1. ibind (is_dir (mnt @ sv1 @ ''/NetworkManager'')) (\<lambda>nm.
         ifor ([''agetty-serial'', ''stratum-e2e'', ''installer-check'', ''desktop-check'', ''saltos-autoinstall'']
               @ (if g_network cfg \<noteq> ''dhcp'' \<or> nm then [''netdhcp''] else []))
           (\<lambda>s. iseq (sv_disable mnt s) (ibind (sv_dir mnt) (\<lambda>sv2. quietly [''rm'', ''-rf'', mnt @ sv2 @ ''/'' @ s]))))),
       iwhen (g_username cfg \<noteq> ''salt'' \<or> \<not> g_create_user cfg) (quietly [''chroot'', mnt, ''userdel'', ''-r'', ''salt'']),
       ibind (chroot_has mnt ''dpkg'') (\<lambda>b. iwhen b
         (quietly [''chroot'', mnt, ''dpkg'', ''--purge'', ''live-boot'', ''live-boot-initramfs-tools'', ''live-boot-doc'']))])"


section \<open>The layout of the disk\<close>

record MountPoint =
  mt_dev :: string
  mt_where :: string
  mt_fstype :: string
  mt_opts :: string

record Layout =
  l_disk :: string
  l_bios_boot :: string
  l_esp :: string
  l_esp_is_new :: bool
  l_boot :: string
  l_root_part :: string
  l_root_dev :: string
  l_swap_part :: string
  l_luks_uuid :: string
  l_luks_name :: string
  l_mopts :: string
  l_mounts :: "MountPoint list"

definition empty_layout :: Layout where
  "empty_layout = \<lparr>l_disk = [], l_bios_boot = [], l_esp = [], l_esp_is_new = False, l_boot = [], l_root_part = [],
     l_root_dev = [], l_swap_part = [], l_luks_uuid = [], l_luks_name = ''saltos-root'', l_mopts = [], l_mounts = []\<rparr>"

definition firmware_target :: "string \<Rightarrow> Config \<Rightarrow> bool \<Rightarrow> string" where
  "firmware_target arch cfg booted_efi =
     (if arch = ''aarch64'' then ''uefi'' else if g_firmware cfg \<noteq> ''auto'' then g_firmware cfg
      else if booted_efi then ''both'' else ''bios'')"

definition disk_mopts :: "string \<Rightarrow> string action" where
  "disk_mopts disk =
     ibind (read_first_line (''/sys/block/'' @ base_name disk @ ''/queue/rotational'')) (\<lambda>rot.
       iret (if rot = ''0'' then ''rw,noatime,compress=zstd:1,ssd,space_cache=v2,discard=async''
             else ''rw,noatime,compress=zstd:1,space_cache=v2''))"

definition luks_key :: "Config \<Rightarrow> string action" where
  "luks_key cfg =
     ibind (if g_passphrase cfg = [] \<and> g_passphrase_file cfg \<noteq> []
            then ibind (read_file (g_passphrase_file cfg)) (\<lambda>t. iret (if t \<noteq> [] \<and> last t = CHR 0x0A then butlast t else t))
            else iret (g_passphrase cfg))
       (\<lambda>key. if key = [] then iexit else iret key)"

definition luks_format_open :: "string \<Rightarrow> string \<Rightarrow> string \<Rightarrow> Layout \<Rightarrow> Layout action" where
  "luks_format_open part name key lay =
     iseq (must_stdin [''cryptsetup'', ''luksFormat'', ''--type'', ''luks2'', ''--batch-mode'', ''--key-file'', ''-'', part] key)
     (iseq (must_stdin [''cryptsetup'', ''open'', ''--key-file'', ''-'', part, name] key)
     (iseq (wait_for_node 50 (''/dev/mapper/'' @ name))
     (ibind (blkid_uuid part) (\<lambda>uuid. iret (lay\<lparr>l_luks_uuid := uuid, l_root_dev := ''/dev/mapper/'' @ name\<rparr>)))))"

text \<open>The last \<^verbatim>\<open>MemTotal\<close> line counts; one without a second word is read out of bounds.\<close>

primrec mem_total :: "string list \<Rightarrow> nat \<Rightarrow> nat option" where
  "mem_total [] kib = Some kib"
| "mem_total (l # ls) kib =
     (if starts_with l ''MemTotal:''
      then (if length (split_ws l) < 2 then None else mem_total ls (c_strtoull (split_ws l ! 1)))
      else mem_total ls kib)"

definition size_or_undef :: "string \<Rightarrow> nat action" where
  "size_or_undef t = (case parse_size_mib t of None \<Rightarrow> iret 0 | Some None \<Rightarrow> iundef | Some (Some n) \<Rightarrow> iret n)"

definition swap_size_mib :: "Config \<Rightarrow> nat action" where
  "swap_size_mib cfg =
     (if g_swap_size cfg = ''auto'' then
        ibind (read_file ''/proc/meminfo'') (\<lambda>t.
          case mem_total (split_lines t) 0 of None \<Rightarrow> iundef | Some kib \<Rightarrow> size_or_undef (default_swap_size kib))
      else size_or_undef (g_swap_size cfg))"

text \<open>Erasing, or finding the partitions to keep: \<^verbatim>\<open>partition_disk\<close> up to the creation of partitions.\<close>

definition adopt_parts :: "string \<Rightarrow> Part list \<Rightarrow> Layout \<Rightarrow> Layout" where
  "adopt_parts disk ps lay =
     foldl (\<lambda>l p.
       let l1 = (if pt_code p = ''EF00'' \<and> l_esp l = [] then l\<lparr>l_esp := partnode disk (pt_num p)\<rparr> else l)
       in if pt_code p = ''EF02'' \<and> l_bios_boot l1 = [] then l1\<lparr>l_bios_boot := partnode disk (pt_num p)\<rparr> else l1) lay ps"

definition clear_or_adopt :: "Config \<Rightarrow> nat \<Rightarrow> Layout \<Rightarrow> Layout action" where
  "clear_or_adopt cfg need lay =
     (if g_mode cfg = ''erase'' then
        iseq (quietly [''wipefs'', ''-a'', g_disk cfg])
        (iseq (must [''sgdisk'', ''--zap-all'', g_disk cfg]) (iret lay))
      else
        ibind (blkid_value (g_disk cfg) ''PTTYPE'') (\<lambda>pttype.
        if pttype \<noteq> ''gpt'' then iexit
        else ibind (largest_free_mib (g_disk cfg)) (\<lambda>free_mib.
        if free_mib < need then iexit
        else ibind (read_parts (g_disk cfg)) (\<lambda>ps. iret (adopt_parts (g_disk cfg) ps lay)))))"

definition part_if :: "bool \<Rightarrow> string \<Rightarrow> string \<Rightarrow> string \<Rightarrow> string \<Rightarrow> (string \<Rightarrow> Layout \<Rightarrow> Layout) \<Rightarrow> Layout \<Rightarrow> Layout action" where
  "part_if b disk sz code name put lay =
     (if b then ibind (new_part disk sz code name) (\<lambda>n. iret (put n lay)) else iret lay)"

definition create_parts :: "Config \<Rightarrow> bool \<Rightarrow> nat \<Rightarrow> Layout \<Rightarrow> Layout action" where
  "create_parts cfg want_bios swap_mib lay =
     ibind (part_if (want_bios \<and> l_bios_boot lay = []) (g_disk cfg) ''1MiB'' ''ef02'' ''BIOS boot'' (\<lambda>n l. l\<lparr>l_bios_boot := n\<rparr>) lay) (\<lambda>lay.
     ibind (part_if (l_esp lay = []) (g_disk cfg) ''512MiB'' ''ef00'' ''EFI'' (\<lambda>n l. l\<lparr>l_esp := n, l_esp_is_new := True\<rparr>) lay) (\<lambda>lay.
     ibind (part_if (g_encrypt cfg) (g_disk cfg) ''1GiB'' ''8300'' ''saltOS boot'' (\<lambda>n l. l\<lparr>l_boot := n\<rparr>) lay) (\<lambda>lay.
     ibind (part_if (g_swap cfg = ''partition'') (g_disk cfg) (nat_digits swap_mib @ ''MiB'') ''8200'' ''saltOS swap''
              (\<lambda>n l. l\<lparr>l_swap_part := n\<rparr>) lay) (\<lambda>lay.
     ibind (part_if True (g_disk cfg) (g_root_size cfg) ''8300'' ''saltOS'' (\<lambda>n l. l\<lparr>l_root_part := n\<rparr>) lay) (\<lambda>lay.
     iseq (settle (g_disk cfg))
     (iseq (ifor (filter (\<lambda>n. n \<noteq> []) [l_esp lay, l_root_part lay, l_boot lay, l_swap_part lay, l_bios_boot lay]) (wait_for_node 50))
       (iret lay)))))))"

definition make_filesystems :: "Config \<Rightarrow> Layout \<Rightarrow> Layout action" where
  "make_filesystems cfg lay =
     iseq (iwhen (l_esp_is_new lay) (must [''mkfs.fat'', ''-F32'', ''-n'', ''EFI'', l_esp lay]))
     (iseq (iwhen (l_boot lay \<noteq> []) (must [''mkfs.ext4'', ''-F'', ''-L'', ''saltOS-boot'', l_boot lay]))
     (ibind (if g_encrypt cfg
             then ibind (luks_key cfg) (\<lambda>key. luks_format_open (l_root_part lay) ''saltos-root'' key (lay\<lparr>l_root_dev := l_root_part lay\<rparr>))
             else iret (lay\<lparr>l_root_dev := l_root_part lay\<rparr>)) (\<lambda>lay.
      iseq (if g_filesystem cfg = ''btrfs''
            then must [''mkfs.btrfs'', ''-f'', ''-L'', ''saltOS'', l_root_dev lay]
            else must [''mkfs.ext4'', ''-F'', ''-L'', ''saltOS'', l_root_dev lay])
      (iseq (iwhen (l_swap_part lay \<noteq> [] \<and> \<not> g_encrypt cfg) (must [''mkswap'', ''-L'', ''saltOS-swap'', l_swap_part lay]))
        (iret lay)))))"

definition subvolumes :: "(string \<times> string) list" where
  "subvolumes = [(''@'', ''/''), (''@home'', ''/home''), (''@var'', ''/var''), (''@log'', ''/var/log''),
     (''@snapshots'', ''/.snapshots''), (''@strata'', ''/strata'')]"

definition mount_btrfs :: "string \<Rightarrow> Layout \<Rightarrow> Layout action" where
  "mount_btrfs mnt lay =
     (let top = mnt @ ''/.btrfs-top'';
          sub = (\<lambda>s wh. must [''mount'', ''-o'', l_mopts lay @ '',subvol='' @ s, l_root_dev lay, mnt @ wh])
      in iseq (idos [
           must [''mkdir'', ''-p'', top],
           must [''mount'', ''-o'', ''subvolid=5'', l_root_dev lay, top],
           ifor (map fst subvolumes) (\<lambda>s. must [''btrfs'', ''subvolume'', ''create'', top @ ''/'' @ s]),
           must [''umount'', top],
           quietly [''rmdir'', top],
           sub ''@'' [],
           ifor [''home'', ''var'', ''var/log'', ''.snapshots'', ''strata'', ''boot/efi''] (\<lambda>d. must [''mkdir'', ''-p'', mnt @ ''/'' @ d]),
           sub ''@home'' ''/home'',
           sub ''@var'' ''/var'',
           must [''mkdir'', ''-p'', mnt @ ''/var/log''],
           sub ''@log'' ''/var/log'',
           sub ''@snapshots'' ''/.snapshots'',
           sub ''@strata'' ''/strata''])
         (ibind (blkid_uuid (l_root_dev lay)) (\<lambda>ruuid.
            iret (lay\<lparr>l_mounts := l_mounts lay @ map (\<lambda>(s, wh).
              \<lparr>mt_dev = ''UUID='' @ ruuid, mt_where = wh, mt_fstype = ''btrfs'', mt_opts = l_mopts lay @ '',subvol='' @ s\<rparr>) subvolumes\<rparr>))))"

definition mount_plain :: "string \<Rightarrow> Layout \<Rightarrow> Layout action" where
  "mount_plain mnt lay =
     iseq (must [''mount'', ''-o'', ''rw,noatime'', l_root_dev lay, mnt])
     (iseq (ifor [''home'', ''var'', ''var/log'', ''strata'', ''boot/efi''] (\<lambda>d. must [''mkdir'', ''-p'', mnt @ ''/'' @ d]))
     (ibind (blkid_uuid (l_root_dev lay)) (\<lambda>uuid.
        iret (lay\<lparr>l_mounts := l_mounts lay @
          [\<lparr>mt_dev = ''UUID='' @ uuid, mt_where = ''/'', mt_fstype = ''ext4'', mt_opts = ''rw,noatime''\<rparr>]\<rparr>))))"

definition mount_boot :: "string \<Rightarrow> Layout \<Rightarrow> Layout action" where
  "mount_boot mnt lay =
     ibind (if l_boot lay \<noteq> [] then
              iseq (idos [must [''mkdir'', ''-p'', mnt @ ''/boot''], must [''mount'', l_boot lay, mnt @ ''/boot''],
                          must [''mkdir'', ''-p'', mnt @ ''/boot/efi'']])
              (ibind (blkid_uuid (l_boot lay)) (\<lambda>uuid. iret (lay\<lparr>l_mounts := l_mounts lay @
                 [\<lparr>mt_dev = ''UUID='' @ uuid, mt_where = ''/boot'', mt_fstype = ''ext4'', mt_opts = ''rw,noatime''\<rparr>]\<rparr>)))
            else iret lay) (\<lambda>lay.
     iseq (must [''mount'', l_esp lay, mnt @ ''/boot/efi''])
     (ibind (blkid_uuid (l_esp lay)) (\<lambda>uuid. iret (lay\<lparr>l_mounts := l_mounts lay @
        [\<lparr>mt_dev = ''UUID='' @ uuid, mt_where = ''/boot/efi'', mt_fstype = ''vfat'', mt_opts = ''umask=0077''\<rparr>]\<rparr>))))"

definition partition_disk :: "Config \<Rightarrow> string \<Rightarrow> string \<Rightarrow> Layout \<Rightarrow> Layout action" where
  "partition_disk cfg fw mnt lay =
     iseq (quietly [''umount'', ''-R'', mnt])
     (ibind (if g_swap cfg = ''partition'' then swap_size_mib cfg else iret 0) (\<lambda>swap_mib.
      ibind (clear_or_adopt cfg ((512 + (if g_encrypt cfg then 1024 else 0) + 4096 + swap_mib) mod 2 ^ 64)
               (lay\<lparr>l_disk := g_disk cfg\<rparr>)) (\<lambda>lay.
      ibind (create_parts cfg (fw = ''bios'' \<or> fw = ''both'') swap_mib lay) (\<lambda>lay.
      ibind (make_filesystems cfg lay) (\<lambda>lay.
      ibind (disk_mopts (g_disk cfg)) (\<lambda>mopts.
      let lay = lay\<lparr>l_mopts := mopts\<rparr>
      in iseq (mkdirs mnt)
        (ibind (if g_filesystem cfg = ''btrfs'' then mount_btrfs mnt lay else mount_plain mnt lay) (mount_boot mnt))))))))"

end
