(* ===== verification/Salt_Install.thy ===== *)
theory Salt_Install
  imports Salt_Installer
begin

text \<open>
  The installer, continued (\<^verbatim>\<open>src/setup/main.cpp\<close>): a target that is mounted already, the base system, accounts, locale, network,
  swap, desktop, the primary stratum, the boot loader, the questions and \<^verbatim>\<open>main\<close>.
\<close>

section \<open>A target that is mounted already\<close>

primrec parent_loop :: "nat \<Rightarrow> string \<Rightarrow> string action" where
  "parent_loop 0 cur = iret cur"
| "parent_loop (Suc n) cur =
     ibind (run_capture [''lsblk'', ''-no'', ''PKNAME'', cur]) (\<lambda>out.
       let p = trim (case split_lines out of [] \<Rightarrow> [] | l # _ \<Rightarrow> l)
       in if p = [] then iret cur else parent_loop n (''/dev/'' @ p))"

definition parent_disk :: "string \<Rightarrow> string action" where
  "parent_disk dev =
     ibind (parent_loop 6 dev) (\<lambda>cur.
     ibind (run_capture [''lsblk'', ''-dno'', ''TYPE'', cur]) (\<lambda>ty. iret (if trim ty = ''disk'' then cur else [])))"

definition luks_backing :: "string \<Rightarrow> string action" where
  "luks_backing mapper =
     ibind (run_capture [''cryptsetup'', ''status'', base_name mapper]) (\<lambda>out.
       iret (case find (\<lambda>l. starts_with (trim l) ''device:'') (split_lines out) of
               Some l \<Rightarrow> trim (drop 7 (trim l)) | None \<Rightarrow> []))"

definition strip_slashes :: "string \<Rightarrow> string" where
  "strip_slashes p = (case p of [] \<Rightarrow> [] | c # cs \<Rightarrow> c # strip_back (\<lambda>x. x = CHR ''/'') cs)"

fun unescape_spaces :: "string \<Rightarrow> string" where
  "unescape_spaces (a # b # c # d # cs) =
     (if [a, b, c, d] = [CHR 0x5C, CHR ''0'', CHR ''4'', CHR ''0''] then CHR '' '' # unescape_spaces cs
      else a # unescape_spaces (b # c # d # cs))"
| "unescape_spaces cs = cs"

definition real_filesystems :: "string list" where
  "real_filesystems = [''btrfs'', ''ext4'', ''ext3'', ''ext2'', ''xfs'', ''vfat'', ''f2fs'']"

definition drop_option :: "string \<Rightarrow> bool" where
  "drop_option x \<longleftrightarrow> x = ''rw'' \<or> x = ''relatime'' \<or> starts_with x ''subvolid='' \<or> x = ''seclabel''"

text \<open>The kept options, with commas between those that follow a text that is not empty.\<close>

definition mount_options :: "string \<Rightarrow> string" where
  "mount_options optlist =
     (let out = foldl (\<lambda>a x. if drop_option x then a else (if a \<noteq> [] then a @ '','' else a) @ x) []
                  (split_lines (map (\<lambda>c. if c = CHR '','' then CHR 0x0A else c) optlist))
      in if out = [] then ''defaults'' else out)"

definition found_mount :: "string \<Rightarrow> string \<Rightarrow> MountPoint option" where
  "found_mount mnt line =
     (let f = split_ws line
      in if length f < 4 then None
         else let wh = unescape_spaces (f ! 1)
              in if wh \<noteq> mnt \<and> \<not> starts_with wh (mnt @ ''/'') then None
                 else if f ! 2 \<notin> set real_filesystems then None
                 else Some \<lparr>mt_dev = f ! 0, mt_where = (if wh = mnt then ''/'' else drop (length mnt) wh),
                            mt_fstype = f ! 2, mt_opts = mount_options (f ! 3)\<rparr>)"

definition last_dev :: "string \<Rightarrow> MountPoint list \<Rightarrow> string" where
  "last_dev wh ms = foldl (\<lambda>d m. if mt_where m = wh then mt_dev m else d) [] ms"

primrec mounted_entries :: "MountPoint list \<Rightarrow> MountPoint list action" where
  "mounted_entries [] = iret []"
| "mounted_entries (m # ms) =
     ibind (if starts_with (mt_dev m) ''/dev/mapper/'' then iret m
            else ibind (blkid_uuid (mt_dev m)) (\<lambda>uuid.
              iret (m\<lparr>mt_dev := (if uuid = [] then mt_dev m else ''UUID='' @ uuid)\<rparr>))) (\<lambda>m'.
     ibind (mounted_entries ms) (\<lambda>ms'. iret (m' # ms')))"

fun cut_before :: "string \<Rightarrow> string \<Rightarrow> string" where
  "cut_before t [] = []"
| "cut_before t (c # cs) = (if starts_with (c # cs) t then [] else c # cut_before t cs)"

definition root_mopts :: "string \<Rightarrow> MountPoint list \<Rightarrow> string" where
  "root_mopts mopts ms =
     (let o1 = foldl (\<lambda>a m. if mt_where m = ''/'' \<and> mt_fstype m = ''btrfs'' then mt_opts m else a) mopts ms;
          o2 = (if o1 = [] then ''rw,noatime'' else o1)
      in if has_substring o2 ''subvol='' then cut_before '',subvol='' o2 else o2)"

definition mount_cmp :: "MountPoint \<Rightarrow> MountPoint \<Rightarrow> int" where
  "mount_cmp a b = c_strcmp (mt_where a) (mt_where b)"

definition mounted_root :: "string \<Rightarrow> Layout \<Rightarrow> Layout action" where
  "mounted_root root lay =
     (if starts_with root ''/dev/mapper/'' then
        ibind (luks_backing root) (\<lambda>backing.
        if backing = [] then iexit
        else ibind (blkid_uuid backing) (\<lambda>uuid.
          iret (lay\<lparr>l_root_dev := root, l_root_part := backing, l_luks_uuid := uuid, l_luks_name := base_name root\<rparr>)))
      else iret (lay\<lparr>l_root_dev := root, l_root_part := root\<rparr>))"

definition mounted_swap :: "Config \<Rightarrow> Layout \<Rightarrow> Layout action" where
  "mounted_swap cfg lay =
     (if g_swap cfg = ''partition'' then
        ibind (is_blockdev (g_swap_device cfg)) (\<lambda>blk.
        if \<not> blk then iexit
        else iseq (if g_encrypt cfg then iret ()
                   else ibind (blkid_value (g_swap_device cfg) ''TYPE'') (\<lambda>ty.
                          iwhen (ty \<noteq> ''swap'') (must [''mkswap'', ''-L'', ''saltOS-swap'', g_swap_device cfg])))
               (iret (lay\<lparr>l_swap_part := g_swap_device cfg\<rparr>)))
      else iret lay)"

definition discover_mounted :: "Config \<Rightarrow> string \<Rightarrow> Layout \<Rightarrow> Layout action" where
  "discover_mounted cfg fw lay =
     (let mnt = strip_slashes (g_target cfg)
      in ibind (read_file ''/proc/self/mounts'') (\<lambda>t.
           let found = List.map_filter (found_mount mnt) (split_lines t); root = last_dev ''/'' found
           in if root = [] then iexit
              else ibind (mounted_root root lay) (\<lambda>lay.
                   ibind (parent_disk (l_root_part lay)) (\<lambda>disk.
                   ibind (mounted_swap cfg (lay\<lparr>l_disk := disk\<rparr>)) (\<lambda>lay.
                   ibind (mounted_entries found) (\<lambda>entries.
                   let esp = last_dev ''/boot/efi'' found; boot = last_dev ''/boot'' found; ms = sort_by mount_cmp (l_mounts lay @ entries)
                   in if esp = [] \<and> fw \<noteq> ''bios'' then iexit
                      else iseq (ifor [''home'', ''var'', ''var/log'', ''strata'', ''boot/efi''] (\<lambda>d. quietly [''mkdir'', ''-p'', mnt @ ''/'' @ d]))
                             (iret (lay\<lparr>l_esp := esp, l_boot := boot, l_mounts := ms, l_mopts := root_mopts (l_mopts lay) ms\<rparr>))))))))"

section \<open>The base system\<close>

definition unmount_pseudo :: "string \<Rightarrow> unit action" where
  "unmount_pseudo mnt = ifor [''/sys/firmware/efi/efivars'', ''/dev/pts'', ''/dev'', ''/proc'', ''/sys'', ''/run/udev'', ''/run'']
     (\<lambda>d. quietly [''umount'', ''-l'', mnt @ d])"

primrec first_existing :: "string list \<Rightarrow> string action" where
  "first_existing [] = iret []"
| "first_existing (p # ps) = ibind (path_exists p) (\<lambda>b. if b then iret p else first_existing ps)"

definition lay_down_base :: "string \<Rightarrow> unit action" where
  "lay_down_base mnt =
     iseq (unmount_pseudo mnt)
     (ibind (first_existing [''/run/live/medium/live/filesystem.squashfs'', ''/lib/live/mount/medium/live/filesystem.squashfs'',
               ''/run/initramfs/live/live/filesystem.squashfs'']) (\<lambda>squashfs. idos [
        (if squashfs \<noteq> [] then must [''unsquashfs'', ''-f'', ''-d'', mnt, squashfs]
         else must [''rsync'', ''-aHAXx'', ''--numeric-ids'', ''--exclude=/proc'', ''--exclude=/sys'', ''--exclude=/dev'',
                    ''--exclude=/run'', ''--exclude=/tmp'', ''--exclude=/mnt'', ''--exclude=/media'', ''--exclude=/strata'',
                    ''--exclude=/run/live'', ''--exclude=/lib/live'', ''--exclude=/boot/efi'', ''--exclude='' @ mnt, ''/'', mnt @ ''/'']),
        ifor [''proc'', ''sys'', ''dev'', ''run'', ''tmp'', ''mnt'', ''media'', ''strata'', ''boot/efi''] (\<lambda>d. quietly [''mkdir'', ''-p'', mnt @ ''/'' @ d]),
        quietly [''chmod'', ''1777'', mnt @ ''/tmp''],
        quietly [''rm'', ''-f'', mnt @ ''/etc/machine-id'', mnt @ ''/var/lib/dbus/machine-id''],
        write_file (mnt @ ''/etc/machine-id'') [] 420]))"

definition unless_mounted :: "string \<Rightarrow> unit action \<Rightarrow> unit action" where
  "unless_mounted p a = ibind (run_quiet [''mountpoint'', ''-q'', p]) (\<lambda>rc. iwhen (rc \<noteq> 0) a)"

definition bind_pseudo :: "string \<Rightarrow> bool \<Rightarrow> unit action" where
  "bind_pseudo mnt efi = idos [
     unless_mounted (mnt @ ''/dev'') (must [''mount'', ''--bind'', ''/dev'', mnt @ ''/dev'']),
     unless_mounted (mnt @ ''/dev/pts'') (quietly [''mount'', ''--bind'', ''/dev/pts'', mnt @ ''/dev/pts'']),
     unless_mounted (mnt @ ''/proc'') (must [''mount'', ''-t'', ''proc'', ''proc'', mnt @ ''/proc'']),
     unless_mounted (mnt @ ''/sys'') (must [''mount'', ''-t'', ''sysfs'', ''sys'', mnt @ ''/sys'']),
     unless_mounted (mnt @ ''/run'') (must [''mount'', ''-t'', ''tmpfs'', ''tmpfs'', mnt @ ''/run'']),
     ibind (path_exists ''/run/udev/data'') (\<lambda>b. iwhen b (unless_mounted (mnt @ ''/run/udev'') (idos [
       quietly [''mkdir'', ''-p'', mnt @ ''/run/udev''],
       quietly [''mount'', ''--bind'', ''-o'', ''ro'', ''/run/udev'', mnt @ ''/run/udev'']]))),
     iwhen efi (unless_mounted (mnt @ ''/sys/firmware/efi/efivars'')
       (quietly [''mount'', ''-t'', ''efivarfs'', ''efivarfs'', mnt @ ''/sys/firmware/efi/efivars''])),
     ibind (read_file ''/etc/resolv.conf'') (\<lambda>resolv. iwhen (resolv \<noteq> []) (idos [
       quietly [''rm'', ''-f'', mnt @ ''/etc/resolv.conf''],
       write_file (mnt @ ''/etc/resolv.conf'') resolv 420]))]"

definition pad_right :: "nat \<Rightarrow> string \<Rightarrow> string" where
  "pad_right n s = s @ replicate (n - length s) CHR '' ''"

text \<open>\<^verbatim>\<open>snprintf\<close> into a buffer of 1024 bytes.\<close>

definition fstab_line :: "MountPoint \<Rightarrow> string" where
  "fstab_line m = take 1023 (pad_right 45 (mt_dev m) @ '' '' @ pad_right 12 (mt_where m) @ '' '' @ pad_right 6 (mt_fstype m) @ '' ''
     @ mt_opts m @ '' 0 '' @ (if mt_where m = ''/boot/efi'' then ''1'' else ''0'') @ NL)"

definition write_fstab :: "string \<Rightarrow> Config \<Rightarrow> Layout \<Rightarrow> unit action" where
  "write_fstab mnt cfg lay =
     ibind (if l_swap_part lay \<noteq> [] then
              (if g_encrypt cfg then iret (''/dev/mapper/saltos-swap none swap defaults 0 0'' @ NL)
               else ibind (blkid_uuid (l_swap_part lay)) (\<lambda>uuid. iret (''UUID='' @ uuid @ '' none swap defaults 0 0'' @ NL)))
            else iret []) (\<lambda>swap_line.
     iseq (write_file (mnt @ ''/etc/fstab'')
             (concat (map fstab_line (l_mounts lay)) @ swap_line
              @ (if g_swap cfg = ''file'' then ''/swapfile none swap defaults 0 0'' @ NL else [])
              @ ''tmpfs /tmp tmpfs defaults,nosuid,nodev 0 0'' @ NL) 420)
       (iwhen (l_luks_uuid lay \<noteq> [])
          (write_file (mnt @ ''/etc/crypttab'') (l_luks_name lay @ '' UUID='' @ l_luks_uuid lay @ '' none luks,discard'' @ NL) 420)))"

section \<open>Swap\<close>

definition zram_script :: "nat \<Rightarrow> string" where
  \<open>zram_script mib = text_lines [''#!/bin/sh'', ''exec 2>&1'', ''modprobe zram'',
     ''dev=$(zramctl --find --size '' @ nat_digits mib @ ''M --algorithm zstd) || exit 1'',
     ''mkswap "$dev" >/dev/null && swapon -p 100 "$dev"'',
     ''trap 'swapoff "$dev"; zramctl --reset "$dev"; exit 0' TERM INT'',
     ''while :; do sleep 86400 & wait $!; done'']\<close>

definition crypt_swap_script :: "string \<Rightarrow> string" where
  \<open>crypt_swap_script puuid = text_lines [''#!/bin/sh'', ''exec 2>&1'',
     ''dev=/dev/disk/by-partuuid/'' @ puuid,
     ''if [ ! -e /dev/mapper/saltos-swap ]; then'',
     ''  cryptsetup open --type plain --cipher aes-xts-plain64 --key-size 512 --key-file /dev/urandom "$dev" saltos-swap || exit 1'',
     ''  mkswap /dev/mapper/saltos-swap >/dev/null'',
     ''fi'',
     ''swapon /dev/mapper/saltos-swap'',
     ''trap 'swapoff /dev/mapper/saltos-swap; cryptsetup close saltos-swap; exit 0' TERM INT'',
     ''while :; do sleep 86400 & wait $!; done'']\<close>

definition setup_swap :: "string \<Rightarrow> Config \<Rightarrow> Layout \<Rightarrow> unit action" where
  "setup_swap mnt cfg lay =
     (if g_swap cfg = ''none'' then iret ()
      else ibind (swap_size_mib cfg) (\<lambda>mib.
        let path = mnt @ ''/swapfile'';
            finish = [must [''fallocate'', ''-l'', nat_digits mib @ ''M'', path], must [''chmod'', ''0600'', path], must [''mkswap'', path]]
        in if g_swap cfg = ''file'' then
             (if g_filesystem cfg = ''btrfs'' \<or> has_substring (l_mopts lay) ''compress'' then
                ibind (run_quiet [''btrfs'', ''filesystem'', ''mkswapfile'', ''--size'', nat_digits mib @ ''m'', path]) (\<lambda>rc.
                  iwhen (rc \<noteq> 0) (idos ([must [''truncate'', ''-s'', ''0'', path], quietly [''chattr'', ''+C'', path]] @ finish)))
              else idos finish)
           else if g_swap cfg = ''zram'' then iseq (sv_write mnt ''zram-swap'' (zram_script mib)) (sv_enable mnt ''zram-swap'')
           else iwhen (g_swap cfg = ''partition'' \<and> g_encrypt cfg)
                  (ibind (blkid_value (l_swap_part lay) ''PARTUUID'') (\<lambda>puuid.
                    iseq (sv_write mnt ''crypt-swap'' (crypt_swap_script puuid)) (sv_enable mnt ''crypt-swap'')))))"

section \<open>Accounts\<close>

definition create_user :: "string \<Rightarrow> Config \<Rightarrow> unit action" where
  "create_user mnt cfg = iwhen (g_create_user cfg) (idos [
     ibind (chroot_run mnt [''useradd'', ''-m'', ''-s'', g_shell cfg, g_username cfg]) (\<lambda>rc.
       iwhen (rc \<noteq> 0) (chroot_must mnt [''usermod'', ''-s'', g_shell cfg, g_username cfg])),
     (if g_password_hash cfg \<noteq> []
      then must_stdin [''chroot'', mnt, ''chpasswd'', ''-e''] (g_username cfg @ '':'' @ g_password_hash cfg @ NL)
      else must_stdin [''chroot'', mnt, ''chpasswd''] (g_username cfg @ '':'' @ g_password cfg @ NL)),
     ifor [''audio'', ''video'', ''input'', ''netdev'', ''network'', ''plugdev'', ''storage'', ''users'', ''cdrom'', ''_seatd'']
       (\<lambda>g. quietly [''chroot'', mnt, ''usermod'', ''-aG'', g, g_username cfg]),
     iwhen (g_sudo cfg) (idos [
       ibind (chroot_run mnt [''usermod'', ''-aG'', ''sudo'', g_username cfg]) (\<lambda>rc.
         iwhen (rc \<noteq> 0) (quietly [''chroot'', mnt, ''usermod'', ''-aG'', ''wheel'', g_username cfg])),
       write_file (mnt @ ''/etc/sudoers.d/10-'' @ g_username cfg) (g_username cfg @ '' ALL=(ALL:ALL) ALL'' @ NL) 288])])"

definition configure_root :: "string \<Rightarrow> Config \<Rightarrow> unit action" where
  "configure_root mnt cfg =
     (if g_root_password_hash cfg \<noteq> []
      then must_stdin [''chroot'', mnt, ''chpasswd'', ''-e''] (''root:'' @ g_root_password_hash cfg @ NL)
      else if g_root_password cfg \<noteq> []
      then must_stdin [''chroot'', mnt, ''chpasswd''] (''root:'' @ g_root_password cfg @ NL)
      else chroot_must mnt [''passwd'', ''-l'', ''root''])"

section \<open>Locale and keyboard\<close>

definition xkb_from_keymap :: "string \<Rightarrow> string" where
  "xkb_from_keymap keymap =
     (if keymap = ''uk'' then ''gb'' else if keymap = ''dvorak'' then ''us''
      else let l = takeWhile (\<lambda>c. c \<noteq> CHR ''-'') keymap in if l = [] then ''us'' else l)"

definition configure_locale :: "string \<Rightarrow> Config \<Rightarrow> unit action" where
  \<open>configure_locale mnt cfg =
     (let charset = (if has_substring (g_locale cfg) ''UTF-8'' then ''UTF-8'' else ''ISO-8859-1'');
          xkb = (if g_xkb_layout cfg = [] then xkb_from_keymap (g_keymap cfg) else g_xkb_layout cfg)
      in idos [
        quietly [''rm'', ''-f'', mnt @ ''/etc/localtime''],
        quietly [''ln'', ''-sf'', ''/usr/share/zoneinfo/'' @ g_timezone cfg, mnt @ ''/etc/localtime''],
        write_file (mnt @ ''/etc/timezone'') (g_timezone cfg @ NL) 420,
        ibind (path_exists (mnt @ ''/etc/locale.gen'')) (\<lambda>there.
        ibind (if there then iret True else chroot_has mnt ''locale-gen'') (\<lambda>gen. iwhen gen (idos [
          ibind (read_file (mnt @ ''/etc/locale.gen'')) (\<lambda>lg.
            iwhen (\<not> has_substring lg (NL @ g_locale cfg @ '' '') \<and> \<not> starts_with lg (g_locale cfg @ '' ''))
              (append_file (mnt @ ''/etc/locale.gen'') (g_locale cfg @ '' '' @ charset @ NL))),
          quietly [''chroot'', mnt, ''locale-gen'']]))),
        ibind (path_exists (mnt @ ''/etc/default/libc-locales'')) (\<lambda>there. iwhen there (idos [
          append_file (mnt @ ''/etc/default/libc-locales'') (g_locale cfg @ '' '' @ charset @ NL),
          quietly [''chroot'', mnt, ''xbps-reconfigure'', ''-f'', ''glibc-locales'']])),
        write_file (mnt @ ''/etc/locale.conf'') (''LANG='' @ g_locale cfg @ NL) 420,
        write_file (mnt @ ''/etc/default/locale'') (''LANG='' @ g_locale cfg @ NL) 420,
        write_file (mnt @ ''/etc/vconsole.conf'')
          (text_lines [''KEYMAP='' @ g_keymap cfg, ''XKBLAYOUT='' @ xkb, ''XKBVARIANT='' @ g_xkb_variant cfg]) 420,
        ibind (path_exists (mnt @ ''/etc/default/keyboard'')) (\<lambda>there. if there then idos [
            set_kv (mnt @ ''/etc/default/keyboard'') ''XKBLAYOUT'' (sh_quote xkb),
            set_kv (mnt @ ''/etc/default/keyboard'') ''XKBVARIANT'' (sh_quote (g_xkb_variant cfg))]
          else write_file (mnt @ ''/etc/default/keyboard'')
            (text_lines [''XKBMODEL="pc105"'', ''XKBLAYOUT='' @ sh_quote xkb, ''XKBVARIANT='' @ sh_quote (g_xkb_variant cfg),
                         ''XKBOPTIONS=""'', ''BACKSPACE="guess"'']) 420),
        ibind (path_exists (mnt @ ''/etc/rc.conf'')) (\<lambda>there. iwhen there (set_kv (mnt @ ''/etc/rc.conf'') ''KEYMAP'' (sh_quote (g_keymap cfg)))),
        write_file (mnt @ ''/etc/X11/xorg.conf.d/00-keyboard.conf'')
          (text_lines [''Section "InputClass"'', ''    Identifier "system-keyboard"'', ''    MatchIsKeyboard "on"'',
             ''    Option "XkbLayout" '' @ sh_quote xkb, ''    Option "XkbVariant" '' @ sh_quote (g_xkb_variant cfg), ''EndSection'']) 420,
        write_file (mnt @ ''/etc/hostname'') (g_hostname cfg @ NL) 420,
        write_file (mnt @ ''/etc/hosts'')
          (text_lines [''127.0.0.1   localhost'', ''127.0.1.1   '' @ g_hostname cfg, ''::1         localhost ip6-localhost ip6-loopback'',
             ''ff02::1     ip6-allnodes'', ''ff02::2     ip6-allrouters'']) 420])\<close>


section \<open>Network\<close>

definition wifi_device :: "string action" where
  "wifi_device =
     iask (\<lambda>v log. case v_list v log ''/sys/class/net'' of
        None \<Rightarrow> []
      | Some ns \<Rightarrow> (case find (\<lambda>n. \<not> starts_with n ''.''
            \<and> (v_isdir v log (''/sys/class/net/'' @ n @ ''/wireless'') \<or> v_exists v log (''/sys/class/net/'' @ n @ ''/phy80211''))) ns of
          Some n \<Rightarrow> n | None \<Rightarrow> []))"

definition run_or_exit :: "string list \<Rightarrow> unit action" where
  "run_or_exit args = ibind (run_cmd args) (\<lambda>rc. if rc = 0 then iret () else iexit)"

definition connect_wifi_live :: "Config \<Rightarrow> unit action" where
  "connect_wifi_live cfg =
     (let psk = (\<lambda>opt. if g_wifi_psk cfg \<noteq> [] then opt @ [g_wifi_psk cfg] else [])
      in ibind (has_cmd ''nmcli'') (\<lambda>b.
      if b then run_or_exit ([''nmcli'', ''device'', ''wifi'', ''connect'', g_wifi_ssid cfg] @ psk [''password''])
      else ibind (has_cmd ''salt-wifi'') (\<lambda>b.
      if b then run_or_exit ([''salt-wifi'', ''connect'', g_wifi_ssid cfg] @ psk [])
      else ibind (has_cmd ''iwctl'') (\<lambda>b.
      if b then ibind wifi_device (\<lambda>dev.
        if dev = [] then iexit
        else run_or_exit ([''iwctl''] @ psk [''--passphrase''] @ [''station'', dev, ''connect'', g_wifi_ssid cfg]))
      else iexit))))"

definition nm_script :: string where
  "nm_script = text_lines [''#!/bin/sh'', ''exec 2>&1'', ''[ -d /var/lib/NetworkManager ] || mkdir -p /var/lib/NetworkManager'',
     ''exec NetworkManager --no-daemon'']"

definition netdhcp_script :: string where
  \<open>netdhcp_script = text_lines [''#!/bin/sh'', ''exec 2>&1'',
     ''iface=$(ip -o link show 2>/dev/null | awk -F': ' '$2 != "lo" {print $2; exit}')'',
     ''[ -n "$iface" ] || { sleep 5; exec sleep 30; }'',
     ''ip link set "$iface" up 2>/dev/null'',
     ''exec dhclient -d "$iface"'']\<close>

definition sv_write_new :: "string \<Rightarrow> string \<Rightarrow> string \<Rightarrow> unit action" where
  "sv_write_new mnt name script =
     ibind (sv_dir mnt) (\<lambda>sv. ibind (is_dir (mnt @ sv @ ''/'' @ name)) (\<lambda>there. iwhen (\<not> there) (sv_write mnt name script)))"

definition network_services :: "string \<Rightarrow> bool \<Rightarrow> unit action" where
  "network_services mnt nm =
     (if nm then idos [
        sv_write_new mnt ''NetworkManager'' nm_script,
        sv_enable mnt ''dbus'',
        sv_enable mnt ''NetworkManager'',
        sv_disable mnt ''netdhcp'',
        sv_disable mnt ''dhcpcd'']
      else ibind (sv_dir mnt) (\<lambda>sv. ibind (is_dir (mnt @ sv @ ''/dhcpcd'')) (\<lambda>d.
        if d then sv_enable mnt ''dhcpcd''
        else ibind (has_cmd ''dhclient'') (\<lambda>h. ibind (if h then iret True else path_exists (mnt @ ''/sbin/dhclient'')) (\<lambda>h.
          iwhen h (iseq (sv_write_new mnt ''netdhcp'' netdhcp_script) (sv_enable mnt ''netdhcp'')))))))"

definition copy_wifi :: "string \<Rightarrow> bool \<Rightarrow> unit action" where
  "copy_wifi mnt nm = idos [
     ibind (is_dir ''/etc/NetworkManager/system-connections'') (\<lambda>d. iwhen (nm \<and> d) (idos [
       quietly [''mkdir'', ''-p'', mnt @ ''/etc/NetworkManager/system-connections''],
       quietly [''sh'', ''-c'', ''cp -a /etc/NetworkManager/system-connections/. '' @ sh_quote (mnt @ ''/etc/NetworkManager/system-connections/'')],
       quietly [''chmod'', ''600'', ''-R'', mnt @ ''/etc/NetworkManager/system-connections'']])),
     ibind (path_exists ''/etc/wpa_supplicant.conf'') (\<lambda>b. iwhen b (idos [
       ibind (read_file ''/etc/wpa_supplicant.conf'') (\<lambda>t. write_file (mnt @ ''/etc/wpa_supplicant.conf'') t 384),
       ibind wifi_device (\<lambda>dev. iwhen (dev \<noteq> [] \<and> \<not> nm) (idos [
         sv_write mnt ''wpa_supplicant'' (text_lines [''#!/bin/sh'', ''exec 2>&1'',
           ''exec wpa_supplicant -i '' @ dev @ '' -c /etc/wpa_supplicant.conf'']),
         sv_enable mnt ''wpa_supplicant'']))])),
     ibind (is_dir ''/var/lib/iwd'') (\<lambda>b. iwhen b (idos [
       quietly [''mkdir'', ''-p'', mnt @ ''/var/lib/iwd''],
       quietly [''sh'', ''-c'', ''cp -a /var/lib/iwd/. '' @ sh_quote (mnt @ ''/var/lib/iwd/'')],
       iwhen (\<not> nm) (sv_enable mnt ''iwd'')]))]"

definition configure_network :: "string \<Rightarrow> Config \<Rightarrow> unit action" where
  "configure_network mnt cfg =
     ibind (iask (\<lambda>v log. v_isdir v log (mnt @ ''/etc/NetworkManager'')
              \<and> (v_exists v log (mnt @ ''/usr/sbin/NetworkManager'') \<or> v_exists v log (mnt @ ''/usr/bin/NetworkManager'')))) (\<lambda>nm.
     if g_network cfg = ''none'' then idos [sv_disable mnt ''NetworkManager'', sv_disable mnt ''netdhcp'', sv_disable mnt ''dhcpcd'']
     else iseq (network_services mnt nm) (iwhen (g_network cfg = ''wifi'') (copy_wifi mnt nm)))"

section \<open>Desktop\<close>

definition live_has_desktop :: "bool action" where
  "live_has_desktop =
     iask (\<lambda>v log. v_exists v log ''/usr/bin/lxqt-session'' \<or> v_exists v log ''/usr/bin/startx'' \<or> v_exists v log ''/usr/bin/sddm'')"

definition sddm_script :: string where
  "sddm_script = text_lines [''#!/bin/sh'', ''exec 2>&1'', ''[ -x /usr/bin/dbus-daemon ] && sv start dbus >/dev/null 2>&1'', ''exec sddm'']"

definition startx_profile :: string where
  \<open>startx_profile = text_lines [''if [ -z "${DISPLAY:-}" ] && [ "$(tty)" = /dev/tty1 ]; then'',
     ''  exec startx > "$HOME/.xsession-errors" 2>&1'', ''fi'']\<close>

definition configure_sddm :: "string \<Rightarrow> Config \<Rightarrow> unit action" where
  "configure_sddm mnt cfg = idos [
     sv_write_new mnt ''sddm'' sddm_script,
     sv_enable mnt ''dbus'',
     sv_enable mnt ''elogind'',
     sv_enable mnt ''sddm'',
     write_file (mnt @ ''/etc/sddm.conf.d/saltos.conf'') (text_lines [''[X11]'', ''MinimumVT=7'']) 420,
     (if g_autologin cfg \<and> g_create_user cfg
      then write_file (mnt @ ''/etc/sddm.conf.d/autologin.conf'') (text_lines [''[Autologin]'', ''User='' @ g_username cfg, ''Session=lxqt'']) 420
      else quietly [''rm'', ''-f'', mnt @ ''/etc/sddm.conf.d/autologin.conf''])]"

definition configure_desktop :: "string \<Rightarrow> Config \<Rightarrow> unit action" where
  "configure_desktop mnt cfg =
     (let home = mnt @ ''/home/'' @ g_username cfg
      in ibind (path_exists (mnt @ ''/usr/bin/sddm'')) (\<lambda>sddm.
         if g_desktop cfg \<noteq> ''keep'' then idos [sv_disable mnt ''sddm'', sv_disable mnt ''lightdm'', sv_disable mnt ''gdm'']
         else if sddm then configure_sddm mnt cfg
         else ibind (is_dir home) (\<lambda>h. iwhen (g_create_user cfg \<and> h) (idos [
           write_file (home @ ''/.bash_profile'') startx_profile 420,
           ibind (path_exists ''/home/salt/.xinitrc'') (\<lambda>b. iwhen b
             (ibind (read_file ''/home/salt/.xinitrc'') (\<lambda>t. write_file (home @ ''/.xinitrc'') t 493))),
           ibind (is_dir ''/home/salt/.config/lxqt'') (\<lambda>a. ibind (is_dir (home @ ''/.config/lxqt'')) (\<lambda>b. iwhen (a \<and> \<not> b) (idos [
             quietly [''mkdir'', ''-p'', home @ ''/.config''],
             quietly [''cp'', ''-a'', ''/home/salt/.config/lxqt'', home @ ''/.config/lxqt'']]))),
           quietly [''chroot'', mnt, ''chown'', ''-R'', g_username cfg @ '':'' @ g_username cfg, ''/home/'' @ g_username cfg]]))))"

section \<open>The primary stratum\<close>

text \<open>
  A call into the strata library; \<^const>\<open>None\<close> is an error, which ends the program where the code checks it.  \<open>RecipeLoad\<close> answers
  the package manager of the recipe, \<open>StratumRoot\<close> the root of a stratum in the registry.
\<close>

definition strata_result :: "strata_call \<Rightarrow> string option action" where
  "strata_result c = iev (Called c) (\<lambda>v log. case v_strata v log c of Some r \<Rightarrow> r | None \<Rightarrow> None)"

definition strata_must :: "strata_call \<Rightarrow> string option action" where
  "strata_must c = ibind (iev (Called c) (\<lambda>v log. v_strata v log c)) (\<lambda>r. case r of None \<Rightarrow> iexit | Some x \<Rightarrow> iret x)"

definition pm_binary :: "string option \<Rightarrow> string" where
  "pm_binary pm = (case pm of None \<Rightarrow> []
     | Some p \<Rightarrow> if p \<in> {''pacman'', ''apt'', ''apk'', ''dnf'', ''zypper''} then p else ''xbps-install'')"

definition strata_ignore :: "strata_call \<Rightarrow> unit action" where
  "strata_ignore c = ibind (strata_result c) (\<lambda>_. iret ())"

definition expose_userland :: "string \<Rightarrow> string \<Rightarrow> string \<Rightarrow> string option \<Rightarrow> unit action" where
  "expose_userland mnt name stratum_root pm =
     iseq (iwhen (pm_binary pm \<noteq> []) (strata_ignore (ExposePm mnt name (pm_binary pm))))
       (ifor [''usr/bin'', ''bin'', ''usr/local/bin'', ''usr/sbin'', ''sbin''] (\<lambda>d.
          ibind (iask (\<lambda>v log. v_list v log (stratum_root @ ''/'' @ d))) (\<lambda>ns.
            case ns of None \<Rightarrow> iret ()
            | Some ns \<Rightarrow> ifor (filter (\<lambda>n. \<not> starts_with n ''.'') ns) (\<lambda>n. strata_ignore (ExposeAdd mnt name n n ''cli'')))))"

definition bootstrap_stratum :: "string \<Rightarrow> Config \<Rightarrow> unit action" where
  "bootstrap_stratum mnt cfg =
     (let recipe = mnt @ ''/etc/salt/strata/'' @ g_distro cfg @ ''.lua''
      in ibind (path_exists recipe) (\<lambda>there.
         if \<not> there then iexit
         else ibind (strata_must (DbOpen mnt)) (\<lambda>_.
              ibind (strata_must (RecipeLoad recipe)) (\<lambda>pm.
              ibind (strata_must (Bootstrap mnt recipe)) (\<lambda>_.
              ibind (strata_result (StratumRoot mnt (g_distro cfg))) (\<lambda>r.
                expose_userland mnt (g_distro cfg)
                  (case r of Some t \<Rightarrow> mnt @ t | None \<Rightarrow> mnt @ ''/strata/'' @ g_distro cfg) pm))))))"


section \<open>Kernel and boot loader\<close>

definition find_kernel :: "string \<Rightarrow> string \<Rightarrow> string action" where
  "find_kernel mnt kver =
     ibind (iask (\<lambda>v log. find (\<lambda>c. v_exists v log (mnt @ c))
              [''/boot/vmlinuz-'' @ kver, ''/boot/vmlinux-'' @ kver, ''/boot/Image-'' @ kver, ''/boot/vmlinuz'', ''/boot/Image''])) (\<lambda>k.
     case k of
       Some c \<Rightarrow> iret c
     | None \<Rightarrow>
         ibind (path_exists ''/run/live/medium/live/vmlinuz'') (\<lambda>live.
         if \<not> live then iexit
         else iseq (must [''cp'', ''/run/live/medium/live/vmlinuz'', mnt @ ''/boot/vmlinuz-'' @ kver]) (iret (''/boot/vmlinuz-'' @ kver))))"

definition make_initramfs :: "string \<Rightarrow> Layout \<Rightarrow> string \<Rightarrow> unit action" where
  "make_initramfs mnt lay kver =
     ibind (chroot_has mnt ''update-initramfs'') (\<lambda>b.
     if b then idos [quietly [''rm'', ''-f'', mnt @ ''/boot/initrd.img-'' @ kver], chroot_must mnt [''update-initramfs'', ''-c'', ''-k'', kver]]
     else ibind (chroot_has mnt ''dracut'') (\<lambda>b.
     if b then chroot_must mnt ([''dracut'', ''--force'', ''--no-hostonly''] @ (if l_luks_uuid lay \<noteq> [] then [''--add'', ''crypt''] else [])
                                @ [''/boot/initramfs-'' @ kver @ ''.img'', kver])
     else iexit))"

fun from_substring :: "string \<Rightarrow> string \<Rightarrow> string" where
  "from_substring t [] = []"
| "from_substring t (c # cs) = (if starts_with (c # cs) t then c # cs else from_substring t cs)"

definition add_word :: "string \<Rightarrow> string \<Rightarrow> string" where
  "add_word line w = (if line \<noteq> [] then line @ '' '' else line) @ w"

definition kernel_cmdline :: "Config \<Rightarrow> Layout \<Rightarrow> string" where
  "kernel_cmdline cfg lay =
     (let c1 = (if l_luks_uuid lay \<noteq> []
                then add_word (g_cmdline cfg) (''rd.luks.uuid='' @ l_luks_uuid lay @ '' rd.luks.name='' @ l_luks_uuid lay @ ''='' @ l_luks_name lay)
                else g_cmdline cfg)
      in if g_filesystem cfg = ''btrfs'' \<or> has_substring (l_mopts lay) ''subvol'' then
           add_word c1 (foldl (\<lambda>a m. if mt_where m = ''/'' \<and> mt_fstype m = ''btrfs'' \<and> has_substring (mt_opts m) ''subvol=''
                                      then ''rootflags='' @ from_substring ''subvol='' (mt_opts m) else a)
                          ''rootflags=subvol=@'' (l_mounts lay))
         else c1)"

definition write_grub_defaults :: "string \<Rightarrow> Config \<Rightarrow> Layout \<Rightarrow> unit action" where
  \<open>write_grub_defaults mnt cfg lay =
     (let grub_def = mnt @ ''/etc/default/grub''; cmdline = kernel_cmdline cfg lay
      in idos [
        ibind (path_exists grub_def) (\<lambda>b. iwhen (\<not> b)
          (write_file grub_def (text_lines [''GRUB_DEFAULT=0'', ''GRUB_TIMEOUT=3'', ''GRUB_DISTRIBUTOR="saltOS"'']) 420)),
        set_kv grub_def ''GRUB_DISTRIBUTOR'' ''"saltOS"'',
        set_kv grub_def ''GRUB_TIMEOUT'' ''3'',
        set_kv grub_def ''GRUB_TIMEOUT_STYLE'' ''menu'',
        set_kv grub_def ''GRUB_CMDLINE_LINUX_DEFAULT'' ''"quiet"'',
        set_kv grub_def ''GRUB_CMDLINE_LINUX'' (sh_quote cmdline),
        ibind (if g_os_prober cfg then chroot_has mnt ''os-prober'' else iret False) (\<lambda>prober.
          set_kv grub_def ''GRUB_DISABLE_OS_PROBER'' (if prober then ''false'' else ''true'')),
        iwhen (has_substring cmdline ''console=ttyS'' \<or> has_substring cmdline ''console=ttyAMA'') (idos [
          set_kv grub_def ''GRUB_TERMINAL'' ''"console serial"'',
          set_kv grub_def ''GRUB_SERIAL_COMMAND'' ''"serial --speed=115200"'']),
        iwhen (l_luks_uuid lay \<noteq> []) (set_kv grub_def ''GRUB_ENABLE_CRYPTODISK'' (if l_boot lay = [] then ''y'' else ''n''))])\<close>

definition grub_install :: "string \<Rightarrow> Layout \<Rightarrow> string \<Rightarrow> string \<Rightarrow> bool \<Rightarrow> string list \<Rightarrow> unit action" where
  "grub_install mnt lay arch fw booted_efi efi_flags =
     (let efi_target = (if arch = ''aarch64'' then ''arm64-efi'' else ''x86_64-efi'')
      in idos [
        iwhen (fw = ''bios'' \<or> fw = ''both'') (if l_disk lay = [] then iexit
          else chroot_must mnt [''grub-install'', ''--target=i386-pc'', ''--recheck'', l_disk lay]),
        iwhen (fw = ''uefi'' \<or> fw = ''both'') (idos [
          chroot_must mnt ([''grub-install'', ''--target='' @ efi_target, ''--efi-directory=/boot/efi'', ''--bootloader-id=saltOS'',
            ''--recheck'', ''--removable'', ''--no-nvram''] @ efi_flags),
          iwhen booted_efi (quietly ([''chroot'', mnt, ''grub-install'', ''--target='' @ efi_target, ''--efi-directory=/boot/efi'',
            ''--bootloader-id=saltOS'', ''--recheck''] @ efi_flags))]),
        chroot_must mnt [''grub-mkconfig'', ''-o'', ''/boot/grub/grub.cfg'']])"

definition install_boot :: "string \<Rightarrow> Config \<Rightarrow> Layout \<Rightarrow> string \<Rightarrow> string \<Rightarrow> bool \<Rightarrow> unit action" where
  "install_boot mnt cfg lay arch fw booted_efi =
     ibind (highest_kver mnt) (\<lambda>kver.
     if kver = [] then iexit
     else ibind (find_kernel mnt kver) (\<lambda>_.
       iseq (make_initramfs mnt lay kver)
       (iseq (write_grub_defaults mnt cfg lay)
       (ibind (iask (\<lambda>v log. v_exists v log (mnt @ ''/usr/lib/grub/x86_64-efi-signed'') \<or> v_exists v log (mnt @ ''/usr/lib/grub/arm64-efi-signed''))) (\<lambda>signed_grub.
        ibind (iask (\<lambda>v log. v_exists v log (mnt @ ''/usr/lib/shim/shimx64.efi.signed'') \<or> v_exists v log (mnt @ ''/usr/lib/shim/shimaa64.efi.signed''))) (\<lambda>shim.
        if g_shim cfg = ''yes'' \<and> \<not> (signed_grub \<and> shim) then iexit
        else grub_install mnt lay arch fw booted_efi
               (if signed_grub then [if g_shim cfg = ''no'' \<or> \<not> shim then ''--no-uefi-secure-boot'' else ''--uefi-secure-boot''] else [])))))))"

definition write_system_config :: "string \<Rightarrow> Config \<Rightarrow> unit action" where
  "write_system_config mnt cfg = idos [
     mkdirs (mnt @ ''/etc/salt''),
     write_file (mnt @ ''/etc/salt/system.lua'') (to_lua cfg False) 420,
     quietly [''chroot'', mnt, ''salt'', ''lock'', ''--output'', ''/etc/salt/system.lock.toml''],
     quietly [''chroot'', mnt, ''salt'', ''deployments'', ''--register-current'']]"

section \<open>The questions\<close>

definition pick_disk :: "setup_env \<Rightarrow> event list \<Rightarrow> string list \<Rightarrow> string \<Rightarrow> string option" where
  "pick_disk v log disks pick =
     (let idx = fst (c_strtol pick)
      in if 1 \<le> idx \<and> idx \<le> int (length disks) then Some (disks ! nat (idx - 1))
         else if v_isblk v log pick then Some pick else None)"

definition ask_disk :: "Config \<Rightarrow> Config action" where
  "ask_disk cfg =
     ibind list_disks (\<lambda>disks.
     if disks = [] then iexit
     else ibind (\<lambda>v s. prompt_until (pick_disk v (i_log s) disks) (nat_digits (default_index disks (g_disk cfg))) v s)
       (\<lambda>d. iret (cfg\<lparr>g_disk := d\<rparr>)))"

definition ask_storage :: "string \<Rightarrow> Config \<Rightarrow> Config action" where
  "ask_storage arch cfg =
     ibind (blkid_value (g_disk cfg) ''PTTYPE'') (\<lambda>pttype.
     iseq (iwhen (pttype = ''gpt'') (ibind (largest_free_mib (g_disk cfg)) (\<lambda>_. iret ())))
     (ibind (prompt_choice [''erase'', ''alongside''] (if g_mode cfg = ''mounted'' then ''erase'' else g_mode cfg)) (\<lambda>mode.
      ibind (if mode = ''alongside'' then prompt (g_root_size cfg) else iret []) (\<lambda>rs.
      ibind (if arch = ''aarch64'' then iret ''uefi'' else prompt_choice [''auto'', ''uefi'', ''bios'', ''both''] (g_firmware cfg)) (\<lambda>fw.
      ibind (prompt_choice [''btrfs'', ''ext4''] (g_filesystem cfg)) (\<lambda>fs.
      ibind (prompt_yesno (g_encrypt cfg)) (\<lambda>enc.
      ibind (if enc \<and> g_passphrase cfg = [] \<and> g_passphrase_file cfg = [] then prompt_secret_twice else iret (g_passphrase cfg)) (\<lambda>pp.
      ibind (prompt_choice [''none'', ''file'', ''partition'', ''zram''] (g_swap cfg)) (\<lambda>swap.
      ibind (if swap \<noteq> ''none'' then prompt (g_swap_size cfg) else iret (g_swap_size cfg)) (\<lambda>ss.
        iret (cfg\<lparr>g_mode := mode, g_root_size := rs, g_firmware := fw, g_filesystem := fs, g_encrypt := enc, g_passphrase := pp,
                  g_swap := swap, g_swap_size := ss\<rparr>)))))))))))"

definition ask_accounts :: "Config \<Rightarrow> Config action" where
  "ask_accounts cfg =
     ibind (list_strata ''/'') (\<lambda>strata.
     if strata = [] then iexit
     else ibind (prompt_choice strata (if g_distro cfg = [] then hd strata else g_distro cfg)) (\<lambda>distro.
     ibind (prompt (g_hostname cfg)) (\<lambda>host.
     ibind (prompt (g_username cfg)) (\<lambda>user.
     ibind (if g_password cfg = [] \<and> g_password_hash cfg = [] then prompt_secret_twice else iret (g_password cfg)) (\<lambda>pw.
     ibind (prompt_yesno (g_sudo cfg)) (\<lambda>sudo.
     ibind (if g_root_password cfg = [] \<and> g_root_password_hash cfg = []
            then ibind (prompt_yesno (\<not> sudo)) (\<lambda>want. if want then prompt_secret_twice else iret [])
            else iret (g_root_password cfg)) (\<lambda>rpw.
     ibind (prompt_yesno (g_autologin cfg)) (\<lambda>al.
     ibind (prompt (g_timezone cfg)) (\<lambda>tz.
     ibind (prompt (g_locale cfg)) (\<lambda>loc.
     ibind (prompt (g_keymap cfg)) (\<lambda>km.
     ibind (has_cmd ''loadkeys'') (\<lambda>lk.
     iseq (iwhen lk (quietly [''loadkeys'', km]))
       (iret (cfg\<lparr>g_distro := distro, g_hostname := host, g_username := user, g_password := pw, g_sudo := sudo,
                  g_root_password := rpw, g_autologin := al, g_timezone := tz, g_locale := loc, g_keymap := km\<rparr>))))))))))))))"

definition ask_rest :: "Config \<Rightarrow> Config action" where
  "ask_rest cfg =
     ibind wifi_device (\<lambda>wdev.
     ibind (prompt_choice ([''dhcp''] @ (if wdev \<noteq> [] then [''wifi''] else []) @ [''none'']) (g_network cfg)) (\<lambda>net.
     ibind (if net = ''wifi''
            then ibind (prompt (g_wifi_ssid cfg)) (\<lambda>ssid.
                 ibind (if g_wifi_psk cfg = [] then prompt_secret else iret (g_wifi_psk cfg)) (\<lambda>psk.
                 let c = cfg\<lparr>g_network := net, g_wifi_ssid := ssid, g_wifi_psk := psk\<rparr>
                 in iseq (connect_wifi_live c) (iret c)))
            else iret (cfg\<lparr>g_network := net\<rparr>)) (\<lambda>cfg.
     ibind live_has_desktop (\<lambda>desk.
     ibind (if desk then prompt_choice [''keep'', ''none''] (if g_desktop cfg = ''auto'' then ''keep'' else g_desktop cfg) else iret ''none'') (\<lambda>desktop.
     ibind (if g_mode cfg = ''alongside'' then prompt_yesno (g_os_prober cfg) else iret (g_os_prober cfg)) (\<lambda>osp.
     ibind (prompt (g_cmdline cfg)) (\<lambda>cl.
     ibind (prompt (g_kernel cfg)) (\<lambda>k.
       iret (cfg\<lparr>g_desktop := desktop, g_os_prober := osp, g_cmdline := cl, g_kernel := k\<rparr>)))))))))"

definition ask_interactive :: "string \<Rightarrow> Config \<Rightarrow> Config action" where
  "ask_interactive arch cfg = ibind (ask_disk cfg) (\<lambda>cfg. ibind (ask_storage arch cfg) (\<lambda>cfg. ibind (ask_accounts cfg) ask_rest))"

section \<open>The program\<close>

text \<open>What happens after the confirmation.\<close>

definition live_network :: "bool \<Rightarrow> Config \<Rightarrow> unit action" where
  "live_network interactive cfg =
     iwhen (\<not> interactive \<and> g_network cfg = ''wifi'')
       (ibind (has_cmd ''nmcli'') (\<lambda>b.
        ibind (if b then run_capture [''nmcli'', ''-t'', ''-f'', ''STATE'', ''general''] else iret []) (\<lambda>out.
          iwhen (\<not> starts_with (trim out) ''connected'') (connect_wifi_live cfg))))"

definition install_system :: "bool \<Rightarrow> Config \<Rightarrow> string \<Rightarrow> string \<Rightarrow> string \<Rightarrow> bool \<Rightarrow> unit action" where
  "install_system interactive cfg arch fw mnt booted_efi =
     iseq (live_network interactive cfg)
     (ibind (if g_mode cfg = ''mounted'' then discover_mounted cfg fw empty_layout else partition_disk cfg fw mnt empty_layout) (\<lambda>lay. idos [
        lay_down_base mnt,
        write_fstab mnt cfg lay,
        bind_pseudo mnt booted_efi,
        create_user mnt cfg,
        configure_root mnt cfg,
        configure_locale mnt cfg,
        configure_network mnt cfg,
        setup_swap mnt cfg lay,
        bootstrap_stratum mnt cfg,
        delive mnt cfg,
        install_boot mnt cfg lay arch fw booted_efi,
        write_system_config mnt cfg,
        configure_desktop mnt cfg,
        quietly [''sync''],
        (if g_mode cfg \<noteq> ''mounted'' then idos [
           quietly [''umount'', ''-R'', mnt],
           iwhen (l_luks_uuid lay \<noteq> []) (quietly [''cryptsetup'', ''close'', l_luks_name lay])]
         else unmount_pseudo mnt)]))"

primrec load_files :: "string list \<Rightarrow> Config \<Rightarrow> Config action" where
  "load_files [] cfg = iret cfg"
| "load_files (p # ps) cfg =
     ibind (iask (\<lambda>v log. load_config_file (v_conf v) (v_read v log) p cfg)) (\<lambda>r. case r of Inl e \<Rightarrow> iexit | Inr c \<Rightarrow> load_files ps c)"

primrec apply_sets :: "string list \<Rightarrow> Config \<Rightarrow> Config action" where
  "apply_sets [] cfg = iret cfg"
| "apply_sets (kv # kvs) cfg =
     (case set_value cfg (takeWhile (\<lambda>c. c \<noteq> CHR ''='') kv) (tl (dropWhile (\<lambda>c. c \<noteq> CHR ''='') kv)) of
        Inl e \<Rightarrow> iexit | Inr c \<Rightarrow> apply_sets kvs c)"

text \<open>The answers: files, command line, questions and the checks on them.\<close>

definition gather_answers :: "CliOptions \<Rightarrow> Config action" where
  "gather_answers opts =
     ibind (load_files (co_profiles opts) default_config) (\<lambda>cfg.
     ibind (if co_from opts \<noteq> [] then load_files [co_from opts] cfg else iret cfg) (apply_sets (co_sets opts)))"

definition settle_answers :: "bool \<Rightarrow> Config \<Rightarrow> Config action" where
  "settle_answers interactive cfg =
     ibind (iask (\<lambda>v log. v_machine v)) (\<lambda>arch.
     ibind (if interactive then (if g_mode cfg = ''mounted'' then iexit else ask_interactive arch cfg) else iret cfg) (\<lambda>cfg.
     ibind (if g_desktop cfg = ''auto'' then ibind live_has_desktop (\<lambda>b. iret (cfg\<lparr>g_desktop := (if b then ''keep'' else ''none'')\<rparr>)) else iret cfg) (\<lambda>cfg.
     if validate cfg False \<noteq> None then iexit else iret cfg)))"

record Target =
  tg_interactive :: bool
  tg_config :: Config
  tg_arch :: string
  tg_firmware :: string
  tg_mnt :: string
  tg_efi :: bool

text \<open>The checks and the confirmation: \<^verbatim>\<open>main\<close> from the check for root to the answer \<^verbatim>\<open>yes\<close>.\<close>

definition confirm_install :: "CliOptions \<Rightarrow> Config \<Rightarrow> Target action" where
  "confirm_install opts cfg =
     ibind (iask (\<lambda>v log. v_is_root v)) (\<lambda>root.
     if \<not> root then iexit
     else ibind (iask (\<lambda>v log. v_machine v)) (\<lambda>arch.
     ibind (path_exists ''/sys/firmware/efi'') (\<lambda>booted_efi.
     ibind (settle_answers (co_from opts = []) cfg) (\<lambda>cfg.
     let mnt = strip_slashes (if g_mode cfg = ''mounted'' then g_target cfg else co_mnt opts)
     in ibind (if g_mode cfg = ''mounted'' then is_dir mnt else is_blockdev (g_disk cfg)) (\<lambda>there.
        if \<not> there then iexit
        else ibind (if co_from opts = [] \<and> \<not> co_yes opts then prompt [] else iret ''yes'') (\<lambda>yes.
        if yes \<noteq> ''yes'' then iexit
        else iret \<lparr>tg_interactive = (co_from opts = []), tg_config = cfg, tg_arch = arch,
                   tg_firmware = firmware_target arch cfg booted_efi, tg_mnt = mnt, tg_efi = booted_efi\<rparr>))))))"

definition run_install :: "Target \<Rightarrow> unit action" where
  "run_install t = install_system (tg_interactive t) (tg_config t) (tg_arch t) (tg_firmware t) (tg_mnt t) (tg_efi t)"

definition setup_main :: "string list \<Rightarrow> int action" where
  "setup_main argv =
     (case parse_cli argv of
        Inl e \<Rightarrow> iret 2
      | Inr opts \<Rightarrow>
          if co_help opts then iret 0
          else ibind (gather_answers opts) (\<lambda>cfg.
          if co_dump_config opts then iret 0
          else ibind (confirm_install opts cfg) (\<lambda>t. iseq (run_install t) (iret 0))))"

end
