(* ===== verification/Salt_Trace.thy ===== *)
theory Salt_Trace
  imports Salt_Install
begin

text \<open>
  A logic for the actions of the installer: what an action adds to the events, whatever its outcome, and what holds of its
  result.  The rules follow the structure of actions and are collected in \<open>act_rules\<close>.
\<close>

named_theorems act_rules \<open>introduction rules for properties of actions\<close>

fun state_of :: "'a outcome \<Rightarrow> inst" where
  "state_of (Done x s) = s"
| "state_of (Exited c s) = s"
| "state_of (Hangs s) = s"
| "state_of (Undef s) = s"

text \<open>Events are only added, all with the property \<open>E\<close>, and input is only consumed.\<close>

definition extends :: "(event \<Rightarrow> bool) \<Rightarrow> inst \<Rightarrow> inst \<Rightarrow> bool" where
  "extends E s s' \<longleftrightarrow> (\<exists>es. i_log s' = i_log s @ es \<and> list_all E es) \<and> set (i_in s') \<subseteq> set (i_in s)"

lemma extends_refl [simp]: "extends E s s"
  by (simp add: extends_def)

lemma extends_trans: "extends E s t \<Longrightarrow> extends E t u \<Longrightarrow> extends E s u"
  by (fastforce simp: extends_def)

lemma extends_log: "extends E s s' \<Longrightarrow> e \<in> set (i_log s') \<Longrightarrow> e \<in> set (i_log s) \<or> E e"
  by (auto simp: extends_def list_all_iff)

definition triple :: "setup_env \<Rightarrow> (event \<Rightarrow> bool) \<Rightarrow> (inst \<Rightarrow> bool) \<Rightarrow> 'a action \<Rightarrow> ('a \<Rightarrow> inst \<Rightarrow> bool) \<Rightarrow> bool" where
  "triple v E P m Q \<longleftrightarrow> (\<forall>s. P s \<longrightarrow> extends E s (state_of (m v s)) \<and> (\<forall>x s'. m v s = Done x s' \<longrightarrow> Q x s'))"

definition emits :: "setup_env \<Rightarrow> (event \<Rightarrow> bool) \<Rightarrow> 'a action \<Rightarrow> bool" where
  "emits v E m \<longleftrightarrow> triple v E (\<lambda>_. True) m (\<lambda>_ _. True)"

lemma tripleD: "triple v E P m Q \<Longrightarrow> P s \<Longrightarrow> extends E s (state_of (m v s))"
  "triple v E P m Q \<Longrightarrow> P s \<Longrightarrow> m v s = Done x s' \<Longrightarrow> Q x s'"
  by (auto simp: triple_def)

lemma triple_weaken:
  "triple v E P' m Q' \<Longrightarrow> (\<And>s. P s \<Longrightarrow> P' s) \<Longrightarrow> (\<And>x s. Q' x s \<Longrightarrow> Q x s) \<Longrightarrow> triple v E P m Q"
  unfolding triple_def by blast

lemma triple_pre: "triple v E P' m Q \<Longrightarrow> (\<And>s. P s \<Longrightarrow> P' s) \<Longrightarrow> triple v E P m Q"
  unfolding triple_def by blast

lemma emitsD: "emits v E m \<Longrightarrow> extends E s (state_of (m v s))"
  by (simp add: emits_def triple_def)

lemma triple_emits: "emits v E m \<Longrightarrow> triple v E P m (\<lambda>_ _. True)"
  by (simp add: emits_def triple_def)

lemma emits_triple: "triple v E (\<lambda>_. True) m Q \<Longrightarrow> emits v E m"
  by (auto simp: emits_def intro: triple_weaken)

lemma triple_ret: "(\<And>s. P s \<Longrightarrow> Q x s) \<Longrightarrow> triple v E P (iret x) Q"
  by (simp add: triple_def iret_def)

lemma triple_bind:
  assumes "triple v E P m R" "\<And>x. triple v E (R x) (k x) Q"
  shows "triple v E P (ibind m k) Q"
  unfolding triple_def
proof (intro allI impI)
  fix s assume P: "P s"
  have ext: "extends E s (state_of (m v s))" by (rule tripleD(1) [OF assms(1) P])
  show "extends E s (state_of (ibind m k v s)) \<and> (\<forall>x s'. ibind m k v s = Done x s' \<longrightarrow> Q x s')"
  proof (cases "m v s")
    case (Done x t)
    have R: "R x t" by (rule tripleD(2) [OF assms(1) P Done])
    have "extends E t (state_of (k x v t))" by (rule tripleD(1) [OF assms(2) R])
    moreover have "extends E s t" using ext Done by simp
    ultimately have "extends E s (state_of (k x v t))" by (blast intro: extends_trans)
    then show ?thesis using tripleD(2) [OF assms(2) R] Done by (simp add: ibind_def)
  qed (use ext in \<open>simp_all add: ibind_def\<close>)
qed

lemma triple_seq: "triple v E P m (\<lambda>_. R) \<Longrightarrow> triple v E R k Q \<Longrightarrow> triple v E P (iseq m k) Q"
  unfolding iseq_def by (rule triple_bind) auto

lemma triple_if: "(b \<Longrightarrow> triple v E P m Q) \<Longrightarrow> (\<not> b \<Longrightarrow> triple v E P m' Q) \<Longrightarrow> triple v E P (if b then m else m') Q"
  by simp

lemma triple_exit [simp]: "triple v E P iexit Q"
  by (simp add: triple_def iexit_def)

lemma triple_ev:
  "(\<And>s. P s \<Longrightarrow> E e) \<Longrightarrow> (\<And>s. P s \<Longrightarrow> Q (f v (i_log s)) (s\<lparr>i_log := i_log s @ [e]\<rparr>)) \<Longrightarrow> triple v E P (iev e f) Q"
  by (auto simp: triple_def iev_def extends_def)

lemma triple_pre_fact: "(F \<Longrightarrow> triple v E P m Q) \<Longrightarrow> triple v E (\<lambda>s. P s \<and> F) m Q"
  by (auto simp: triple_def)

lemma triple_fact: "(F \<Longrightarrow> emits v E m) \<Longrightarrow> triple v E (\<lambda>_. F) m (\<lambda>_ _. True)"
  by (auto simp: triple_def emits_def)

lemma triple_post_fact: "triple v E P m (\<lambda>x s. Q s \<and> F x) \<Longrightarrow> (\<And>x. F x \<Longrightarrow> triple v E Q (k x) R) \<Longrightarrow> triple v E P (ibind m k) R"
  by (rule triple_bind) (auto intro: triple_pre_fact)

section \<open>Events of actions\<close>

lemma emits_ret [act_rules]: "emits v E (iret x)"
  by (simp add: emits_def triple_ret)

lemma emits_bind [act_rules]: "emits v E m \<Longrightarrow> (\<And>x. emits v E (k x)) \<Longrightarrow> emits v E (ibind m k)"
  unfolding emits_def by (rule triple_bind)

lemma emits_seq [act_rules]: "emits v E m \<Longrightarrow> emits v E k \<Longrightarrow> emits v E (iseq m k)"
  unfolding emits_def by (rule triple_seq)

lemma emits_if [act_rules]: "(b \<Longrightarrow> emits v E m) \<Longrightarrow> (\<not> b \<Longrightarrow> emits v E m') \<Longrightarrow> emits v E (if b then m else m')"
  by simp

lemma emits_when [act_rules]: "(b \<Longrightarrow> emits v E a) \<Longrightarrow> emits v E (iwhen b a)"
  by (simp add: iwhen_def emits_ret)

lemma emits_dos_Nil [act_rules]: "emits v E (idos [])"
  by (simp add: emits_ret)

lemma emits_dos_Cons [act_rules]: "emits v E a \<Longrightarrow> emits v E (idos as) \<Longrightarrow> emits v E (idos (a # as))"
  by (simp add: emits_seq)

lemma emits_for [act_rules]: "(\<And>x. x \<in> set xs \<Longrightarrow> emits v E (f x)) \<Longrightarrow> emits v E (ifor xs f)"
  unfolding ifor_def by (induction xs) (auto intro: act_rules)

lemma emits_option [act_rules]:
  "emits v E m \<Longrightarrow> (\<And>x. emits v E (k x)) \<Longrightarrow> emits v E (case r of None \<Rightarrow> m | Some x \<Rightarrow> k x)"
  by (cases r) simp_all

lemma emits_sum [act_rules]:
  "(\<And>x. emits v E (m x)) \<Longrightarrow> (\<And>x. emits v E (k x)) \<Longrightarrow> emits v E (case r of Inl x \<Rightarrow> m x | Inr x \<Rightarrow> k x)"
  by (cases r) simp_all

lemma emits_prod [act_rules]: "(\<And>x y. emits v E (k x y)) \<Longrightarrow> emits v E (case p of (x, y) \<Rightarrow> k x y)"
  by (cases p) simp

lemma emits_ask [act_rules]: "emits v E (iask f)"
  by (simp add: emits_def triple_def iask_def)

lemma emits_ev [act_rules]: "E e \<Longrightarrow> emits v E (iev e f)"
  unfolding emits_def by (rule triple_ev) auto

lemma emits_exit [act_rules]: "emits v E iexit"
  by (simp add: emits_def)

lemma emits_undef [act_rules]: "emits v E iundef"
  by (simp add: emits_def triple_def iundef_def)

lemma emits_run [act_rules]:
  "E (Ran args inp) \<Longrightarrow> emits v E (run_stdin args inp)"
  "E (Ran args []) \<Longrightarrow> emits v E (run_cmd args)"
  "E (Ran args []) \<Longrightarrow> emits v E (run_quiet args)"
  "E (Ran args []) \<Longrightarrow> emits v E (run_capture args)"
  "E (Ran args []) \<Longrightarrow> emits v E (quietly args)"
  "E (Ran args []) \<Longrightarrow> emits v E (must args)"
  "E (Ran args inp) \<Longrightarrow> emits v E (must_stdin args inp)"
  "E (Ran args []) \<Longrightarrow> emits v E (run_or_exit args)"
  "E (Ran ([''chroot'', mnt] @ args) []) \<Longrightarrow> emits v E (chroot_run mnt args)"
  "E (Ran ([''chroot'', mnt] @ args) []) \<Longrightarrow> emits v E (chroot_must mnt args)"
  "E (Ran [''chroot'', mnt, ''sh'', ''-c'', ''command -v '' @ cmd] []) \<Longrightarrow> emits v E (chroot_has mnt cmd)"
  "E (Ran [''sh'', ''-c'', ''command -v '' @ cmd] []) \<Longrightarrow> emits v E (has_cmd cmd)"
  unfolding run_stdin_def run_cmd_def run_quiet_def run_capture_def quietly_def must_def must_stdin_def run_or_exit_def
    chroot_run_def chroot_must_def chroot_has_def has_cmd_def
  by (intro act_rules; simp)+

lemma answer_rest: "answer accept def ls = Some (x, ls') \<Longrightarrow> set ls' \<subseteq> set ls"
  by (induction ls) (auto split: option.splits)

lemma secret_twice_rest: "secret_twice ls = Some (x, ls') \<Longrightarrow> set ls' \<subseteq> set ls"
  by (induction ls rule: secret_twice.induct) (auto split: if_splits)

lemma emits_prompt_until [act_rules]: "emits v E (prompt_until accept def)"
  by (auto simp: emits_def triple_def prompt_until_def extends_def split: option.splits dest: answer_rest)

lemma emits_prompt [act_rules]: "emits v E (prompt def)" "emits v E (prompt_yesno b)" "emits v E (prompt_choice ks def)"
  by (simp_all add: prompt_def prompt_yesno_def prompt_choice_def emits_prompt_until)

lemma emits_prompt_secret [act_rules]: "emits v E prompt_secret"
  by (auto simp: emits_def triple_def prompt_secret_def extends_def split: list.splits)

lemma emits_prompt_secret_twice [act_rules]: "emits v E prompt_secret_twice"
  by (auto simp: emits_def triple_def prompt_secret_twice_def extends_def split: option.splits dest: secret_twice_rest)

lemma emits_look [act_rules]:
  "emits v E (read_file p)" "emits v E (path_exists p)" "emits v E (is_dir p)" "emits v E (is_blockdev p)"
  "emits v E list_disks" "emits v E (list_strata root)" "emits v E (highest_kver mnt)" "emits v E wifi_device" "emits v E live_has_desktop"
  unfolding read_file_def path_exists_def is_dir_def is_blockdev_def list_disks_def list_strata_def highest_kver_def wifi_device_def
    live_has_desktop_def
  by (rule emits_ask)+

lemma emits_looks [act_rules]:
  "emits v E (read_first_line p)" "emits v E (sv_dir mnt)" "emits v E (runsvdir mnt)"
  "emits v E (luks_key cfg)" "emits v E (size_or_undef t)"
  unfolding read_first_line_def sv_dir_def runsvdir_def luks_key_def size_or_undef_def
  by (intro act_rules)+

lemma emits_disk_mopts [act_rules]: "emits v E (disk_mopts disk)"
  unfolding disk_mopts_def by (intro act_rules)

lemma emits_swap_size_mib [act_rules]: "emits v E (swap_size_mib cfg)"
  unfolding swap_size_mib_def by (intro act_rules)

lemma emits_first_existing [act_rules]: "emits v E (first_existing ps)"
  by (induction ps) (auto intro: act_rules)

lemma emits_load_files [act_rules]: "emits v E (load_files fs cfg)"
  by (induction fs arbitrary: cfg) (auto intro!: act_rules)

lemma emits_apply_sets [act_rules]: "emits v E (apply_sets kvs cfg)"
  by (induction kvs arbitrary: cfg) (auto intro!: act_rules)

lemma emits_wait [act_rules]: "E Slept \<Longrightarrow> emits v E (wait_for_node n node)"
  by (induction n) (auto intro!: act_rules)

lemma emits_write_file [act_rules]:
  "(\<And>p. E (MadeDirs p)) \<Longrightarrow> (\<And>p t m. E (Wrote p t m)) \<Longrightarrow> emits v E (write_file path content mode)"
  unfolding write_file_def mkdirs_def write_only_def by (intro act_rules; simp)

lemma emits_mkdirs [act_rules]: "(\<And>p. E (MadeDirs p)) \<Longrightarrow> emits v E (mkdirs path)"
  unfolding mkdirs_def by (intro act_rules; simp)

lemma emits_write_only [act_rules]: "(\<And>p t m. E (Wrote p t m)) \<Longrightarrow> emits v E (write_only path content mode)"
  unfolding write_only_def by (intro act_rules; simp)

section \<open>The devices that a program overwrites\<close>

text \<open>
  Of the programs the installer runs: those that make a file system, swap space or an encrypted container, wipe signatures, or
  change a partition table other than by adding a partition.
\<close>

definition destroys :: "string list \<Rightarrow> string list" where
  "destroys argv =
     (case argv of
        [] \<Rightarrow> []
      | c # as \<Rightarrow>
          if c \<in> {''mkfs.fat'', ''mkfs.ext4'', ''mkfs.btrfs'', ''mkswap'', ''wipefs''} then [last argv]
          else if c = ''cryptsetup'' \<and> as \<noteq> [] \<and> hd as = ''luksFormat'' then [last argv]
          else if c = ''sgdisk'' \<and> as \<noteq> [] \<and> \<not> (hd as \<in> {''-p'', ''-F'', ''-E''} \<or> starts_with (hd as) ''-n0:'') then [last argv]
          else [])"

definition within :: "string set \<Rightarrow> event \<Rightarrow> bool" where
  "within D e \<longleftrightarrow> (case e of Ran argv inp \<Rightarrow> set (destroys argv) \<subseteq> D | _ \<Rightarrow> True)"

lemma within_other [simp]: "within D (Wrote p t m)" "within D (MadeDirs p)" "within D Slept" "within D (Called c)"
  by (simp_all add: within_def)

lemma within_harmless: "c \<notin> {''mkfs.fat'', ''mkfs.ext4'', ''mkfs.btrfs'', ''mkswap'', ''wipefs'', ''cryptsetup'', ''sgdisk''} \<Longrightarrow> within D (Ran (c # as) inp)"
  by (simp add: within_def destroys_def)

lemma within_simps [simp]:
  "within D (Ran (''chroot'' # as) inp)" "within D (Ran (''rm'' # as) inp)" "within D (Ran (''mkdir'' # as) inp)"
  "within D (Ran (''mount'' # as) inp)" "within D (Ran (''umount'' # as) inp)" "within D (Ran (''ln'' # as) inp)"
  "within D (Ran (''sh'' # as) inp)" "within D (Ran (''blkid'' # as) inp)" "within D (Ran (''chmod'' # as) inp)"
  "within D (Ran (''lsblk'' # as) inp)" "within D (Ran (''btrfs'' # as) inp)" "within D (Ran (''truncate'' # as) inp)"
  "within D (Ran (''chattr'' # as) inp)" "within D (Ran (''fallocate'' # as) inp)" "within D (Ran (''rsync'' # as) inp)"
  "within D (Ran (''unsquashfs'' # as) inp)" "within D (Ran (''mountpoint'' # as) inp)" "within D (Ran (''cp'' # as) inp)"
  "within D (Ran (''rmdir'' # as) inp)" "within D (Ran (''partprobe'' # as) inp)" "within D (Ran (''udevadm'' # as) inp)"
  "within D (Ran (''nmcli'' # as) inp)" "within D (Ran (''salt-wifi'' # as) inp)" "within D (Ran (''iwctl'' # as) inp)"
  "within D (Ran (''sync'' # as) inp)" "within D (Ran (''loadkeys'' # as) inp)"
  by (simp_all add: within_harmless)

lemma within_devices [simp]:
  "within D (Ran (''cryptsetup'' # ''open'' # as) inp)" "within D (Ran (''cryptsetup'' # ''close'' # as) inp)"
  "within D (Ran (''cryptsetup'' # ''status'' # as) inp)"
  "within D (Ran (''sgdisk'' # ''-p'' # as) inp)" "within D (Ran (''sgdisk'' # ''-F'' # as) inp)" "within D (Ran (''sgdisk'' # ''-E'' # as) inp)"
  "within D (Ran (''sgdisk'' # ((''-n0:'' @ t) # as)) inp)"
  "within D (Ran (''mkfs.fat'' # as) inp) \<longleftrightarrow> last (''mkfs.fat'' # as) \<in> D"
  "within D (Ran (''mkfs.ext4'' # as) inp) \<longleftrightarrow> last (''mkfs.ext4'' # as) \<in> D"
  "within D (Ran (''mkfs.btrfs'' # as) inp) \<longleftrightarrow> last (''mkfs.btrfs'' # as) \<in> D"
  "within D (Ran (''mkswap'' # as) inp) \<longleftrightarrow> last (''mkswap'' # as) \<in> D"
  "within D (Ran (''wipefs'' # as) inp) \<longleftrightarrow> last (''wipefs'' # as) \<in> D"
  "within D (Ran (''cryptsetup'' # ''luksFormat'' # as) inp) \<longleftrightarrow> last (''luksFormat'' # as) \<in> D"
  by (simp_all add: within_def destroys_def)

end
