(* ===== verification/Salt_Alongside.thy ===== *)
theory Salt_Alongside
  imports Salt_Trace Salt_Toml_Write
begin

text \<open>
  Installing beside another system: what the installer overwrites when \<^verbatim>\<open>install.mode\<close> is \<^verbatim>\<open>alongside\<close>.
\<close>

section \<open>After partitioning\<close>

lemma within_services [act_rules]:
  "emits v (within D) (sv_enable mnt name)" "emits v (within D) (sv_disable mnt name)" "emits v (within D) (sv_write mnt name script)"
  unfolding sv_enable_def sv_disable_def sv_write_def by (intro act_rules; simp)+

lemma within_sv_write_new [act_rules]: "emits v (within D) (sv_write_new mnt name script)"
  unfolding sv_write_new_def by (intro act_rules; simp)

lemma within_blkid [act_rules]: "emits v (within D) (blkid_value dev tag)"
  unfolding blkid_value_def by (intro act_rules; simp)

lemma within_blkid_uuid [act_rules]: "emits v (within D) (blkid_uuid dev)"
  unfolding blkid_uuid_def by (rule within_blkid)

lemma within_set_kv [act_rules]: "emits v (within D) (set_kv path key value)" "emits v (within D) (append_file path t)"
  unfolding set_kv_def append_file_def by (intro act_rules; simp)+

lemma within_unmount_pseudo [act_rules]: "emits v (within D) (unmount_pseudo mnt)"
  unfolding unmount_pseudo_def by (intro act_rules; simp)

lemma within_lay_down_base [act_rules]: "emits v (within D) (lay_down_base mnt)"
  unfolding lay_down_base_def by (intro act_rules; simp)

lemma within_unless_mounted [act_rules]: "emits v (within D) a \<Longrightarrow> emits v (within D) (unless_mounted p a)"
  unfolding unless_mounted_def by (intro act_rules; simp)

lemma within_bind_pseudo [act_rules]: "emits v (within D) (bind_pseudo mnt efi)"
  unfolding bind_pseudo_def by (intro act_rules; simp)

lemma within_write_fstab [act_rules]: "emits v (within D) (write_fstab mnt cfg lay)"
  unfolding write_fstab_def by (intro act_rules; simp)

lemma within_setup_swap [act_rules]: "mnt @ ''/swapfile'' \<in> D \<Longrightarrow> emits v (within D) (setup_swap mnt cfg lay)"
  unfolding setup_swap_def Let_def append_Cons append_Nil by (intro act_rules; simp)

lemma within_accounts [act_rules]: "emits v (within D) (create_user mnt cfg)" "emits v (within D) (configure_root mnt cfg)"
  unfolding create_user_def configure_root_def by (intro act_rules; simp)+

lemma within_configure_locale [act_rules]: "emits v (within D) (configure_locale mnt cfg)"
  unfolding configure_locale_def Let_def by (intro act_rules; simp)

lemma within_connect_wifi [act_rules]: "emits v (within D) (connect_wifi_live cfg)"
  unfolding connect_wifi_live_def Let_def by (intro act_rules; simp)

lemma within_network [act_rules]:
  "emits v (within D) (network_services mnt nm)" "emits v (within D) (copy_wifi mnt nm)"
  unfolding network_services_def copy_wifi_def by (intro act_rules; simp)+

lemma within_configure_network [act_rules]: "emits v (within D) (configure_network mnt cfg)"
  unfolding configure_network_def by (intro act_rules)

lemma within_desktop [act_rules]: "emits v (within D) (configure_sddm mnt cfg)"
  unfolding configure_sddm_def by (intro act_rules; simp)

lemma within_configure_desktop [act_rules]: "emits v (within D) (configure_desktop mnt cfg)"
  unfolding configure_desktop_def Let_def by (intro act_rules; simp)

lemma within_strata [act_rules]:
  "emits v (within D) (strata_result c)" "emits v (within D) (strata_must c)" 
  unfolding strata_result_def strata_must_def by (intro act_rules; simp)+

lemma within_strata_ignore [act_rules]: "emits v (within D) (strata_ignore c)"
  unfolding strata_ignore_def by (intro act_rules)

lemma within_expose_userland [act_rules]: "emits v (within D) (expose_userland mnt name root pm)"
  unfolding expose_userland_def by (intro act_rules)

lemma within_bootstrap [act_rules]: "emits v (within D) (bootstrap_stratum mnt cfg)"
  unfolding bootstrap_stratum_def Let_def by (intro act_rules)

lemma within_delive [act_rules]: "emits v (within D) (delive mnt cfg)"
  unfolding delive_def by (intro act_rules; simp)

lemma within_boot [act_rules]:
  "emits v (within D) (find_kernel mnt kver)" "emits v (within D) (make_initramfs mnt lay kver)"
  "emits v (within D) (write_grub_defaults mnt cfg lay)" "emits v (within D) (grub_install mnt lay arch fw efi flags)"
  unfolding find_kernel_def make_initramfs_def write_grub_defaults_def grub_install_def Let_def by (intro act_rules; simp)+

lemma within_install_boot [act_rules]: "emits v (within D) (install_boot mnt cfg lay arch fw efi)"
  unfolding install_boot_def by (intro act_rules)

lemma within_system_config [act_rules]: "emits v (within D) (write_system_config mnt cfg)"
  unfolding write_system_config_def by (intro act_rules; simp)

lemma within_live_network [act_rules]: "emits v (within D) (live_network interactive cfg)"
  unfolding live_network_def by (intro act_rules; simp)


section \<open>The partition table\<close>

text \<open>The numbers of the partitions that \<^verbatim>\<open>sgdisk -p\<close> reports after the events \<open>log\<close>.\<close>

definition parts_of :: "setup_env \<Rightarrow> string \<Rightarrow> event list \<Rightarrow> int set" where
  "parts_of v disk log = pt_num ` set (part_lines False (split_lines (snd (v_run v log [''sgdisk'', ''-p'', disk] []))))"

text \<open>
  Programs that keep every partition of the disk: those that look at it or at the network, those that unmount, and \<^verbatim>\<open>sgdisk -n0:\<close>,
  which adds a partition in free space.
\<close>

definition looks_or_adds :: "string \<Rightarrow> event \<Rightarrow> bool" where
  "looks_or_adds disk e \<longleftrightarrow> (case e of
     Ran argv inp \<Rightarrow>
       argv \<noteq> [] \<and> hd argv \<in> {''umount'', ''blkid'', ''nmcli'', ''salt-wifi'', ''iwctl''}
       \<or> (\<exists>cmd. argv = [''sh'', ''-c'', ''command -v '' @ cmd])
       \<or> argv \<in> {[''sgdisk'', ''-p'', disk], [''sgdisk'', ''-F'', disk], [''sgdisk'', ''-E'', disk]}
       \<or> (\<exists>span code name. argv = [''sgdisk'', ''-n0:'' @ span, ''-t0:'' @ code, ''-c0:'' @ name, disk])
   | _ \<Rightarrow> False)"

definition keeps_partitions :: "setup_env \<Rightarrow> string \<Rightarrow> bool" where
  "keeps_partitions v disk \<longleftrightarrow> (\<forall>log e. looks_or_adds disk e \<longrightarrow> parts_of v disk log \<subseteq> parts_of v disk (log @ [e]))"

lemma keeps_partitions_events:
  assumes "keeps_partitions v disk" "list_all (looks_or_adds disk) es"
  shows "parts_of v disk log \<subseteq> parts_of v disk (log @ es)"
  using assms(2)
proof (induction es arbitrary: log)
  case (Cons e es)
  have "parts_of v disk log \<subseteq> parts_of v disk (log @ [e])" using assms(1) Cons.prems by (simp add: keeps_partitions_def)
  also have "\<dots> \<subseteq> parts_of v disk ((log @ [e]) @ es)" by (rule Cons.IH) (use Cons.prems in simp)
  finally show ?case by simp
qed simp

definition has_parts :: "setup_env \<Rightarrow> string \<Rightarrow> int set \<Rightarrow> inst \<Rightarrow> bool" where
  "has_parts v disk N s \<longleftrightarrow> N \<subseteq> parts_of v disk (i_log s)"

definition look_within :: "string \<Rightarrow> string set \<Rightarrow> event \<Rightarrow> bool" where
  "look_within disk D e \<longleftrightarrow> looks_or_adds disk e \<and> within D e"

lemma look_within_simps [simp]:
  "look_within disk D (Ran (''umount'' # as) inp)" "look_within disk D (Ran (''blkid'' # as) inp)"
  "look_within disk D (Ran (''nmcli'' # as) inp)" "look_within disk D (Ran (''salt-wifi'' # as) inp)"
  "look_within disk D (Ran (''iwctl'' # as) inp)" "look_within disk D (Ran [''sh'', ''-c'', ''command -v '' @ cmd] inp)"
  "look_within disk D (Ran [''sgdisk'', ''-p'', disk] inp)" "look_within disk D (Ran [''sgdisk'', ''-F'', disk] inp)"
  "look_within disk D (Ran [''sgdisk'', ''-E'', disk] inp)"
  unfolding look_within_def looks_or_adds_def by simp_all

lemma look_within_add: "look_within disk D (Ran [''sgdisk'', ''-n0:'' @ span, ''-t0:'' @ code, ''-c0:'' @ name, disk] inp)"
  unfolding look_within_def looks_or_adds_def by (simp add: within_def destroys_def)

lemma look_has_cmd: "emits v (look_within disk D) (has_cmd cmd)"
  by (intro emits_run look_within_simps)

lemma triple_keep:
  assumes "keeps_partitions v disk" "emits v (look_within disk D) m"
  shows "triple v (within D) (has_parts v disk N) m (\<lambda>_. has_parts v disk N)"
  unfolding triple_def
proof (intro allI impI conjI)
  fix s assume N: "has_parts v disk N s"
  obtain es where es: "i_log (state_of (m v s)) = i_log s @ es" "list_all (look_within disk D) es"
      and inp: "set (i_in (state_of (m v s))) \<subseteq> set (i_in s)"
    using emitsD [OF assms(2), of s] by (auto simp: extends_def)
  show "extends (within D) s (state_of (m v s))" using es inp by (auto simp: extends_def list_all_iff look_within_def)
  show "has_parts v disk N s'" if "m v s = Done x s'" for x s'
    using that N es keeps_partitions_events [OF assms(1), of es "i_log s"] by (auto simp: has_parts_def list_all_iff look_within_def)
qed

lemma triple_read_parts:
  assumes "keeps_partitions v disk"
  shows "triple v (within D) (has_parts v disk N) (read_parts disk) (\<lambda>ps s. has_parts v disk N s \<and> N \<subseteq> pt_num ` set ps)"
  unfolding read_parts_def run_capture_def
proof (rule triple_bind [OF triple_ev triple_ret])
  show "within D (Ran [''sgdisk'', ''-p'', disk] [])" by simp
next
  fix s assume N: "has_parts v disk N s"
  have "looks_or_adds disk (Ran [''sgdisk'', ''-p'', disk] [])" by (simp add: looks_or_adds_def)
  then have "parts_of v disk (i_log s) \<subseteq> parts_of v disk (i_log s @ [Ran [''sgdisk'', ''-p'', disk] []])"
    using assms by (simp add: keeps_partitions_def)
  then show "has_parts v disk N (s\<lparr>i_log := i_log s @ [Ran [''sgdisk'', ''-p'', disk] []]\<rparr>)
      \<and> N \<subseteq> pt_num ` set (part_lines False (split_lines (snd (v_run v (i_log s) [''sgdisk'', ''-p'', disk] []))))"
    using N by (auto simp: has_parts_def parts_of_def)
qed

lemma new_number: "foldl (\<lambda>c p. if pt_num p \<notin> B then pt_num p else c) c0 ps = c0 \<or> foldl (\<lambda>c p. if pt_num p \<notin> B then pt_num p else c) c0 ps \<notin> B"
proof (induction ps arbitrary: c0)
  case (Cons p ps)
  show ?case using Cons.IH [of c0] Cons.IH [of "pt_num p"] by auto
qed simp

definition new_nodes :: "string \<Rightarrow> int set \<Rightarrow> string set" where
  "new_nodes disk N = {partnode disk n | n. n \<notin> N}"

lemma triple_new_part:
  assumes "keeps_partitions v disk"
  shows "triple v (within D) (has_parts v disk N) (new_part disk sz code name) (\<lambda>n s. has_parts v disk N s \<and> n \<in> new_nodes disk N)"
  unfolding new_part_def
proof (rule triple_bind [OF triple_read_parts [OF assms]], rule triple_pre_fact)
  fix before assume before: "N \<subseteq> pt_num ` set before"
  let ?made = "\<lambda>after. foldl (\<lambda>c p. if pt_num p \<notin> pt_num ` set before then pt_num p else c) 0 after"
  have made: "partnode disk (?made after) \<in> new_nodes disk N" if "?made after \<noteq> 0" for after
    using new_number [of "pt_num ` set before" 0 after] that before by (auto simp: new_nodes_def)
  let ?argv = "[''sgdisk'', ''-n0:'' @ (if sz = [] then ''0:0'' else ''0:+'' @ sz), ''-t0:'' @ code, ''-c0:'' @ name, disk]"
  have add: "emits v (look_within disk D) (must ?argv)" by (intro emits_run look_within_add)
  have rest: "triple v (within D) (has_parts v disk N)
      (ibind (read_parts disk) (\<lambda>after. let created = ?made after in if created = 0 then iexit else iret (partnode disk created)))
      (\<lambda>n s. has_parts v disk N s \<and> n \<in> new_nodes disk N)"
    unfolding Let_def
    by (rule triple_bind [OF triple_read_parts [OF assms]], rule triple_if) (auto intro!: triple_ret made)
  show "triple v (within D) (has_parts v disk N)
      (iseq (must ?argv) (ibind (read_parts disk) (\<lambda>after. let created = ?made after in if created = 0 then iexit else iret (partnode disk created))))
      (\<lambda>n s. has_parts v disk N s \<and> n \<in> new_nodes disk N)"
    by (rule triple_seq [OF triple_keep [OF assms add] rest])
qed


section \<open>Partitioning\<close>

text \<open>What later steps overwrite of a layout is new.\<close>

definition new_layout :: "string set \<Rightarrow> Layout \<Rightarrow> bool" where
  "new_layout D lay \<longleftrightarrow> (l_esp_is_new lay \<longrightarrow> l_esp lay \<in> D) \<and> (l_boot lay \<noteq> [] \<longrightarrow> l_boot lay \<in> D) \<and> (l_swap_part lay \<noteq> [] \<longrightarrow> l_swap_part lay \<in> D)"

lemma new_layout_adopt: "new_layout D (adopt_parts disk ps lay) = new_layout D lay" if "\<not> l_esp_is_new lay"
proof -
  have "l_esp_is_new (adopt_parts disk ps lay) = l_esp_is_new lay \<and> l_boot (adopt_parts disk ps lay) = l_boot lay
      \<and> l_swap_part (adopt_parts disk ps lay) = l_swap_part lay"
    unfolding adopt_parts_def by (induction ps arbitrary: lay) (simp_all add: Let_def)
  then show ?thesis using that by (simp add: new_layout_def)
qed

lemma emits_read_parts [act_rules]: "E (Ran [''sgdisk'', ''-p'', disk] []) \<Longrightarrow> emits v E (read_parts disk)"
  unfolding read_parts_def by (intro act_rules; simp)

lemma emits_largest_free [act_rules]:
  "E (Ran [''sgdisk'', ''-F'', disk] []) \<Longrightarrow> E (Ran [''sgdisk'', ''-E'', disk] []) \<Longrightarrow> emits v E (largest_free_mib disk)"
  unfolding largest_free_mib_def Let_def by (intro act_rules; simp)

lemma emits_blkid [act_rules]: "(\<And>as. E (Ran (''blkid'' # as) [])) \<Longrightarrow> emits v E (blkid_value dev tag)"
  unfolding blkid_value_def by (intro act_rules; simp)

lemma triple_adopt:
  assumes "keeps_partitions v (g_disk cfg)" "g_mode cfg \<noteq> ''erase''" "new_layout D lay" "\<not> l_esp_is_new lay"
  shows "triple v (within D) (has_parts v (g_disk cfg) N) (clear_or_adopt cfg need lay) (\<lambda>l s. has_parts v (g_disk cfg) N s \<and> new_layout D l)"
proof -
  let ?I = "has_parts v (g_disk cfg) N"
  have lay: "new_layout D (adopt_parts (g_disk cfg) ps lay)" for ps using new_layout_adopt assms(3,4) by simp
  have 1: "triple v (within D) ?I (blkid_value (g_disk cfg) ''PTTYPE'') (\<lambda>_. ?I)"
    by (rule triple_keep [OF assms(1)]) (intro act_rules; simp)
  have 2: "triple v (within D) ?I (largest_free_mib (g_disk cfg)) (\<lambda>_. ?I)"
    by (rule triple_keep [OF assms(1)]) (intro act_rules; simp)
  have 3: "triple v (within D) ?I (read_parts (g_disk cfg)) (\<lambda>_. ?I)"
    by (rule triple_keep [OF assms(1)]) (intro act_rules; simp)
  show ?thesis
    unfolding clear_or_adopt_def if_not_P [OF assms(2)]
    by (intro triple_bind [OF 1] triple_bind [OF 2] triple_bind [OF 3] triple_if triple_ret) (simp_all add: lay)
qed

lemma triple_part_if:
  assumes "keeps_partitions v disk" "\<And>n. n \<in> new_nodes disk N \<Longrightarrow> F (put n lay)" "\<not> b \<Longrightarrow> F lay"
  shows "triple v (within D) (has_parts v disk N) (part_if b disk sz code name put lay) (\<lambda>l s. has_parts v disk N s \<and> F l)"
  unfolding part_if_def
  by (intro triple_if triple_post_fact [OF triple_new_part [OF assms(1)]] triple_ret) (use assms(2,3) in auto)

lemma new_layout_put:
  "n \<in> D \<Longrightarrow> new_layout D l \<Longrightarrow> new_layout D (l\<lparr>l_bios_boot := n\<rparr>)"
  "n \<in> D \<Longrightarrow> new_layout D l \<Longrightarrow> new_layout D (l\<lparr>l_esp := n, l_esp_is_new := True\<rparr>)"
  "n \<in> D \<Longrightarrow> new_layout D l \<Longrightarrow> new_layout D (l\<lparr>l_boot := n\<rparr>)"
  "n \<in> D \<Longrightarrow> new_layout D l \<Longrightarrow> new_layout D (l\<lparr>l_swap_part := n\<rparr>)"
  by (simp_all add: new_layout_def)

lemma triple_create_parts:
  assumes "keeps_partitions v (g_disk cfg)" "new_nodes (g_disk cfg) N \<subseteq> D" "new_layout D lay"
  shows "triple v (within D) (has_parts v (g_disk cfg) N) (create_parts cfg want_bios swap_mib lay) (\<lambda>l _. new_layout D l \<and> l_root_part l \<in> D)"
proof -
  let ?I = "has_parts v (g_disk cfg) N"
  have settle: "emits v (within D) (settle (g_disk cfg))" unfolding settle_def by (intro act_rules; simp)
  have wait: "emits v (within D) (ifor ns (wait_for_node 50))" for ns by (intro act_rules; simp)
  have kept: "triple v (within D) ?I (part_if b (g_disk cfg) sz code name put l) (\<lambda>l s. ?I s \<and> new_layout D l)"
    if "new_layout D l" "\<And>n. n \<in> D \<Longrightarrow> new_layout D (put n l)" for b sz code name put l
    by (rule triple_part_if [OF assms(1)]) (use that assms(2) in auto)
  have root: "triple v (within D) ?I (part_if True (g_disk cfg) sz code name (\<lambda>n l. l\<lparr>l_root_part := n\<rparr>) l)
      (\<lambda>l s. ?I s \<and> (new_layout D l \<and> l_root_part l \<in> D))" if "new_layout D l" for sz code name l
    by (rule triple_part_if [OF assms(1)]) (use that assms(2) in \<open>auto simp: new_layout_def\<close>)
  show ?thesis
    unfolding create_parts_def
    apply (rule triple_post_fact [OF kept], rule assms(3), erule new_layout_put(1), rule assms(3))
    apply (rule triple_post_fact [OF kept], assumption, erule (1) new_layout_put(2))
    apply (rule triple_post_fact [OF kept], assumption, erule (1) new_layout_put(3))
    apply (rule triple_post_fact [OF kept], assumption, erule (1) new_layout_put(4))
    apply (rule triple_post_fact [OF root], assumption)
    apply (rule triple_seq [OF triple_emits [OF settle]], rule triple_seq [OF triple_emits [OF wait]], rule triple_ret, simp)
    done
qed

lemma within_luks [act_rules]: "part \<in> D \<Longrightarrow> emits v (within D) (luks_format_open part name key lay)"
  unfolding luks_format_open_def by (intro act_rules; simp)

lemma triple_luks_layout:
  assumes "part \<in> D" "new_layout D lay" "''/dev/mapper/'' @ name \<in> D"
  shows "triple v (within D) (\<lambda>_. True) (luks_format_open part name key lay) (\<lambda>l _. new_layout D l \<and> l_root_dev l \<in> D)"
  unfolding luks_format_open_def
  apply (rule triple_seq [OF triple_emits], (intro act_rules; use assms in simp))
  apply (rule triple_seq [OF triple_emits], (intro act_rules; simp))
  apply (rule triple_seq [OF triple_emits], (intro act_rules; simp))
  apply (rule triple_bind [OF triple_emits], (intro act_rules))
  apply (rule triple_ret, use assms in \<open>simp add: new_layout_def\<close>)
  done

lemma within_mounting [act_rules]:
  "emits v (within D) (mount_btrfs mnt lay)" "emits v (within D) (mount_plain mnt lay)" "emits v (within D) (mount_boot mnt lay)"
  unfolding mount_btrfs_def mount_plain_def mount_boot_def Let_def by (intro act_rules; simp)+

lemma within_make_filesystems [act_rules]:
  assumes "new_layout D lay" "l_root_part lay \<in> D" "''/dev/mapper/saltos-root'' \<in> D"
  shows "emits v (within D) (make_filesystems cfg lay)"
proof -
  let ?lay = "lay\<lparr>l_root_dev := l_root_part lay\<rparr>"
  let ?open = "if g_encrypt cfg then ibind (luks_key cfg) (\<lambda>key. luks_format_open (l_root_part lay) ''saltos-root'' key ?lay) else iret ?lay"
  let ?made = "\<lambda>l. iseq (if g_filesystem cfg = ''btrfs'' then must [''mkfs.btrfs'', ''-f'', ''-L'', ''saltOS'', l_root_dev l]
         else must [''mkfs.ext4'', ''-F'', ''-L'', ''saltOS'', l_root_dev l])
      (iseq (iwhen (l_swap_part l \<noteq> [] \<and> \<not> g_encrypt cfg) (must [''mkswap'', ''-L'', ''saltOS-swap'', l_swap_part l])) (iret l))"
  have nl: "new_layout D ?lay" using assms(1) by (simp add: new_layout_def)
  have opened: "triple v (within D) (\<lambda>_. True) ?open (\<lambda>l s. True \<and> (new_layout D l \<and> l_root_dev l \<in> D))"
    using nl assms by (intro triple_if triple_bind [OF triple_emits] act_rules triple_weaken [OF triple_luks_layout] triple_ret) auto
  have made: "triple v (within D) (\<lambda>_. True) (?made l) (\<lambda>_ _. True)" if "new_layout D l \<and> l_root_dev l \<in> D" for l
    unfolding emits_def [symmetric] using that by (intro act_rules; simp add: new_layout_def)
  have "triple v (within D) (\<lambda>_. True) (ibind ?open ?made) (\<lambda>_ _. True)"
    by (rule triple_post_fact [OF opened made])
  then have "emits v (within D) (ibind ?open ?made)" by (simp add: emits_def)
  moreover have "emits v (within D) (iwhen (l_esp_is_new lay) (must [''mkfs.fat'', ''-F32'', ''-n'', ''EFI'', l_esp lay]))"
      "emits v (within D) (iwhen (l_boot lay \<noteq> []) (must [''mkfs.ext4'', ''-F'', ''-L'', ''saltOS-boot'', l_boot lay]))"
    by (intro act_rules; use assms(1) in \<open>simp add: new_layout_def\<close>)+
  ultimately show ?thesis unfolding make_filesystems_def by (blast intro: emits_seq)
qed

lemma triple_partition_alongside:
  assumes "keeps_partitions v (g_disk cfg)" "g_mode cfg = ''alongside''" "new_nodes (g_disk cfg) N \<subseteq> D" "''/dev/mapper/saltos-root'' \<in> D"
  shows "triple v (within D) (has_parts v (g_disk cfg) N) (partition_disk cfg fw mnt empty_layout) (\<lambda>_ _. True)"
proof -
  let ?I = "has_parts v (g_disk cfg) N"
  have nl: "new_layout D (empty_layout\<lparr>l_disk := g_disk cfg\<rparr>)" "\<not> l_esp_is_new (empty_layout\<lparr>l_disk := g_disk cfg\<rparr>)"
    by (simp_all add: new_layout_def empty_layout_def)
  have mode: "g_mode cfg \<noteq> ''erase''" using assms(2) by simp
  have umount: "triple v (within D) ?I (quietly [''umount'', ''-R'', mnt]) (\<lambda>_. ?I)"
    by (rule triple_keep [OF assms(1)]) (intro act_rules; simp)
  have swap: "triple v (within D) ?I (if g_swap cfg = ''partition'' then swap_size_mib cfg else iret 0) (\<lambda>_. ?I)"
    by (rule triple_keep [OF assms(1)]) (intro act_rules)
  have rest: "emits v (within D) (ibind (make_filesystems cfg lay) (\<lambda>lay. ibind (disk_mopts (g_disk cfg)) (\<lambda>mopts.
      let lay = lay\<lparr>l_mopts := mopts\<rparr>
      in iseq (mkdirs mnt) (ibind (if g_filesystem cfg = ''btrfs'' then mount_btrfs mnt lay else mount_plain mnt lay) (mount_boot mnt)))))"
    if "new_layout D lay \<and> l_root_part lay \<in> D" for lay
    unfolding Let_def using that assms(4) by (intro act_rules) auto
  show ?thesis
    unfolding partition_disk_def
    apply (rule triple_seq [OF umount], rule triple_bind [OF swap])
    apply (rule triple_post_fact [OF triple_adopt [OF assms(1) mode nl]])
    apply (rule triple_bind [OF triple_create_parts [OF assms(1,3)]], assumption)
    apply (rule triple_fact, erule rest)
    done
qed


section \<open>Names of partitions\<close>

lemma nat_digits_inj:
  assumes "nat_digits m = nat_digits n"
  shows "m = n"
proof -
  have "int m = foldl (\<lambda>v c. 10 * v + (int (of_char c) - 48)) 0 (nat_digits n)"
    using nat_digits_val [of m] unfolding assms by (rule sym)
  also have "\<dots> = int n" by (rule nat_digits_val)
  finally show ?thesis by (simp only: of_nat_eq_iff)
qed

lemma nat_digits_not_minus: "nat_digits n \<noteq> CHR ''-'' # ds"
proof
  assume "nat_digits n = CHR ''-'' # ds"
  then have "isdigit CHR ''-''" using nat_digits_digits [of n] by simp
  then show False by (simp add: isdigit_def)
qed

lemma int_to_string_inj:
  assumes "int_to_string i = int_to_string j"
  shows "i = j"
proof -
  have "i < 0 \<longleftrightarrow> j < 0"
  proof (rule ccontr)
    assume "\<not> (i < 0 \<longleftrightarrow> j < 0)"
    then consider "i < 0" "\<not> j < 0" | "\<not> i < 0" "j < 0" by blast
    then show False using assms nat_digits_not_minus nat_digits_not_minus [symmetric]
      by cases (simp_all add: int_to_string_def)
  qed
  then show ?thesis using assms nat_digits_inj [of "nat i" "nat j"] nat_digits_inj [of "nat (- i)" "nat (- j)"]
    by (cases "i < 0") (simp_all add: int_to_string_def)
qed

lemma partnode_inj: "partnode disk m = partnode disk n \<longleftrightarrow> m = n"
  by (auto simp: partnode_def dest: int_to_string_inj)

lemma partnode_last: "isdigit (last (partnode disk n))"
proof -
  have d: "isdigit (last (nat_digits k))" for k
    using nat_digits_digits [of k] by (simp add: list_all_iff)
  show ?thesis using d by (simp add: partnode_def int_to_string_def)
qed

lemma new_nodes_disjoint: "d \<in> new_nodes disk N \<Longrightarrow> d \<notin> partnode disk ` N"
  by (auto simp: new_nodes_def partnode_inj)

lemma not_a_partnode: "\<not> isdigit (last d) \<Longrightarrow> d \<notin> partnode disk ` N"
  using partnode_last by auto


text \<open>A disk with one partition, an EFI system partition; the partition that \<^verbatim>\<open>sgdisk -n0:\<close> adds is the second.\<close>

definition adds_partition :: "event \<Rightarrow> bool" where
  "adds_partition e \<longleftrightarrow> (case e of Ran (c # a # as) inp \<Rightarrow> c = ''sgdisk'' \<and> starts_with a ''-n0:'' | _ \<Rightarrow> False)"

definition ex_table :: "bool \<Rightarrow> string" where
  "ex_table added = text_lines ([''Number  Start (sector)  End (sector)  Size  Code  Name'', ''1 34 99 33 KiB EF00 EFI'']
     @ (if added then [''2 100 200 50 KiB 8300 saltOS''] else []))"

definition ex_setup_run :: "event list \<Rightarrow> string list \<Rightarrow> string \<Rightarrow> int \<times> string" where
  "ex_setup_run log argv inp =
     (if argv = [''sgdisk'', ''-p'', ''/dev/sda''] then (0, ex_table (list_ex adds_partition log))
      else if argv = [''sgdisk'', ''-E'', ''/dev/sda''] then (0, ''99999999'')
      else if take 3 argv = [''blkid'', ''-s'', ''PTTYPE''] then (0, ''gpt'')
      else (0, []))"

definition ex_setup_env :: setup_env where
  "ex_setup_env = \<lparr>v_run = ex_setup_run, v_read = \<lambda>log p. None, v_write_ok = \<lambda>log p. True, v_exists = \<lambda>log p. False,
     v_isdir = \<lambda>log p. False, v_isblk = \<lambda>log p. True, v_list = \<lambda>log p. None, v_strata = \<lambda>log c. Some None,
     v_conf = \<lambda>t n. Inl [], v_is_root = True, v_machine = ''x86_64''\<rparr>"

definition ex_alongside :: Config where
  "ex_alongside = default_config\<lparr>g_disk := ''/dev/sda'', g_mode := ''alongside'', g_password := ''secret'', g_distro := ''void''\<rparr>"

lemma ex_table_parts:
  "map pt_num (part_lines False (split_lines (ex_table False))) = [1]"
  "map pt_num (part_lines False (split_lines (ex_table True))) = [1, 2]"
  by code_simp+

lemma ex_parts_of: "parts_of ex_setup_env ''/dev/sda'' log = (if list_ex adds_partition log then {1, 2} else {1})"
  by (simp add: parts_of_def ex_setup_env_def ex_setup_run_def ex_table_parts flip: set_map)

lemma ex_keeps_partitions: "keeps_partitions ex_setup_env ''/dev/sda''"
  by (simp add: keeps_partitions_def ex_parts_of)


end
