(* ===== verification/Salt_Consent.thy ===== *)
theory Salt_Consent
  imports Salt_Trace
begin

text \<open>
  What the installer does before it has been told to go on: it only looks, and what it installs then has been checked.
\<close>

definition harmless :: "event \<Rightarrow> bool" where
  "harmless e \<longleftrightarrow> (case e of
     Ran argv inp \<Rightarrow>
       argv \<noteq> [] \<and> hd argv \<in> {''blkid'', ''loadkeys'', ''nmcli'', ''salt-wifi'', ''iwctl''}
       \<or> (\<exists>cmd. argv = [''sh'', ''-c'', ''command -v '' @ cmd])
       \<or> (\<exists>disk. argv = [''sgdisk'', ''-F'', disk] \<or> argv = [''sgdisk'', ''-E'', disk])
   | _ \<Rightarrow> False)"

lemma harmless_simps [simp]:
  "harmless (Ran (''blkid'' # as) inp)" "harmless (Ran (''loadkeys'' # as) inp)" "harmless (Ran (''nmcli'' # as) inp)"
  "harmless (Ran (''salt-wifi'' # as) inp)" "harmless (Ran (''iwctl'' # as) inp)"
  "harmless (Ran [''sgdisk'', ''-F'', disk] inp)" "harmless (Ran [''sgdisk'', ''-E'', disk] inp)"
  by (simp_all add: harmless_def)

lemma harmless_has_cmd: "emits v harmless (has_cmd cmd)"
  by (intro emits_run) (simp only: harmless_def event.case, blast)

lemma harmless_asking [act_rules]:
  "emits v harmless (connect_wifi_live cfg)" "emits v harmless (blkid_value dev tag)" "emits v harmless (largest_free_mib disk)"
  unfolding connect_wifi_live_def blkid_value_def largest_free_mib_def Let_def by (intro harmless_has_cmd act_rules; simp)+

lemma harmless_ask_disk [act_rules]: "emits v harmless (ask_disk cfg)"
proof -
  have "emits v harmless (\<lambda>v s. prompt_until (pick_disk v (i_log s) disks) def v s)" for disks def
    using emits_prompt_until [of v harmless "pick_disk v log disks" def for log] by (simp add: emits_def triple_def)
  then show ?thesis unfolding ask_disk_def by (intro act_rules)
qed

lemma harmless_questions [act_rules]:
  "emits v harmless (ask_storage arch cfg)" "emits v harmless (ask_accounts cfg)" "emits v harmless (ask_rest cfg)"
  unfolding ask_storage_def ask_accounts_def ask_rest_def Let_def by (intro harmless_has_cmd act_rules; simp)+

lemma harmless_ask_interactive [act_rules]: "emits v harmless (ask_interactive arch cfg)"
  unfolding ask_interactive_def by (intro act_rules)

lemma harmless_gather [act_rules]: "emits v harmless (gather_answers opts)"
  unfolding gather_answers_def by (intro act_rules)

text \<open>The user has agreed: with a file of answers, with \<^verbatim>\<open>--yes\<close>, or by typing \<^verbatim>\<open>yes\<close>.\<close>

definition consented :: "CliOptions \<Rightarrow> string list \<Rightarrow> bool" where
  "consented opts typed \<longleftrightarrow> co_from opts \<noteq> [] \<or> co_yes opts \<or> ''yes'' \<in> trim ` set typed"

definition target_there :: "setup_env \<Rightarrow> event list \<Rightarrow> Target \<Rightarrow> bool" where
  "target_there v log t \<longleftrightarrow>
     (if g_mode (tg_config t) = ''mounted'' then v_isdir v log (tg_mnt t) else v_isblk v log (g_disk (tg_config t)))"

lemma triple_input:
  assumes "emits v E m"
  shows "triple v E (\<lambda>s. set (i_in s) \<subseteq> L) m (\<lambda>_ s. set (i_in s) \<subseteq> L)"
  unfolding triple_def
proof (intro allI impI conjI)
  fix s :: inst assume L: "set (i_in s) \<subseteq> L"
  show ext: "extends E s (state_of (m v s))" by (rule emitsD [OF assms])
  show "set (i_in s') \<subseteq> L" if "m v s = Done x s'" for x s'
    using ext that L by (auto simp: extends_def)
qed

lemma triple_ask: "(\<And>s. P s \<Longrightarrow> Q (f v (i_log s)) s) \<Longrightarrow> triple v E P (iask f) Q"
  by (simp add: triple_def iask_def)

lemma triple_prompt:
  "triple v E (\<lambda>s. P (i_log s) \<and> set (i_in s) \<subseteq> L) (prompt def) (\<lambda>x s. P (i_log s) \<and> (x = def \<or> x \<in> trim ` L))"
proof -
  have "answer Some def ls = Some (x, ls') \<Longrightarrow> x = def \<or> x \<in> trim ` set ls" for ls x ls'
    by (cases ls) auto
  then show ?thesis
    by (fastforce simp: triple_def prompt_def prompt_until_def extends_def split: option.splits dest: answer_rest)
qed

lemma triple_settle:
  "triple v harmless (\<lambda>s. set (i_in s) \<subseteq> L) (settle_answers interactive cfg) (\<lambda>c s. set (i_in s) \<subseteq> L \<and> validate c False = None)"
  unfolding settle_answers_def
  by (intro triple_bind [OF triple_input] act_rules triple_if triple_exit triple_ret) simp_all

definition settled_target :: "setup_env \<Rightarrow> CliOptions \<Rightarrow> string list \<Rightarrow> event list \<Rightarrow> Target \<Rightarrow> bool" where
  "settled_target v opts typed log t \<longleftrightarrow>
     v_is_root v \<and> validate (tg_config t) False = None \<and> target_there v log t \<and> consented opts typed"

lemma triple_confirm:
  "triple v harmless (\<lambda>s. set (i_in s) \<subseteq> set typed) (confirm_install opts cfg) (\<lambda>t s. settled_target v opts typed (i_log s) t)"
proof -
  let ?I = "\<lambda>s. set (i_in s) \<subseteq> set typed"
  have root: "triple v harmless ?I (iask (\<lambda>v log. v_is_root v)) (\<lambda>r s. ?I s \<and> r = v_is_root v)"
    by (rule triple_ask) simp
  have look: "triple v harmless ?I m (\<lambda>_. ?I)" if "emits v harmless m" for m :: "'a action" using that by (rule triple_input)
  have there: "triple v harmless ?I (if g_mode c = ''mounted'' then is_dir mnt else is_blockdev (g_disk c))
      (\<lambda>b s. (if g_mode c = ''mounted'' then v_isdir v (i_log s) mnt else v_isblk v (i_log s) (g_disk c)) = b \<and> ?I s)" for c mnt
    unfolding is_dir_def is_blockdev_def by (intro triple_if triple_ask) simp_all
  have yes: "triple v harmless (\<lambda>s. P (i_log s) \<and> ?I s) (if co_from opts = [] \<and> \<not> co_yes opts then prompt [] else iret ''yes'')
      (\<lambda>x s. P (i_log s) \<and> (x = ''yes'' \<longrightarrow> consented opts typed))" for P
    by (intro triple_if triple_ret triple_weaken [OF triple_prompt [of _ _ P "set typed"]]) (auto simp: consented_def)
  let ?there = "\<lambda>c mnt log. if g_mode c = ''mounted'' then v_isdir v log mnt else v_isblk v log (g_disk c)"
  show ?thesis
    unfolding confirm_install_def Let_def path_exists_def
    apply (rule triple_post_fact [OF root], rule triple_if, rule triple_exit)
    apply (rule triple_bind [OF triple_input], rule emits_ask)
    apply (rule triple_bind [OF triple_input], rule emits_ask)
    apply (rule triple_post_fact [OF triple_settle])
    subgoal for r arch efi c
      apply (rule triple_bind [OF there], rule triple_if, rule triple_exit)
      subgoal for b
        apply (rule triple_bind [OF triple_pre [OF yes [of "?there c (strip_slashes (if g_mode c = ''mounted'' then g_target c else co_mnt opts))"]]])
         apply (simp split: if_splits)
        apply (rule triple_if, rule triple_exit, rule triple_ret)
        apply (simp add: settled_target_def target_there_def split: if_splits)
        done
      done
    done
qed


end
