(* ===== verification/Salt_Keyval.thy ===== *)
theory Salt_Keyval
  imports Salt_Installer
begin

text \<open>
  Editing a configuration file of the form \<^verbatim>\<open>KEY=value\<close> (\<^verbatim>\<open>set_kv\<close> of \<^verbatim>\<open>src/setup/main.cpp\<close>), as the installer does with
  \<^verbatim>\<open>/etc/default/grub\<close>: lines of a text, and what is left of it.
\<close>

lemma split_lines_append: "CHR 0x0A \<notin> set l \<Longrightarrow> split_lines (l @ CHR 0x0A # t) = l # split_lines t"
  by (induction l) auto

lemma split_text_lines: "\<forall>l\<in>set ls. CHR 0x0A \<notin> set l \<Longrightarrow> split_lines (text_lines ls) = ls"
  by (induction ls) (auto simp: text_lines_def split_lines_append)

lemma split_lines_plain: "l \<in> set (split_lines t) \<Longrightarrow> CHR 0x0A \<notin> set l"
  by (induction t arbitrary: l rule: split_lines.induct) (auto split: list.splits if_splits)

lemma trim_keeps_start:
  assumes "s \<noteq> []" "\<not> trim_char (hd s)" "\<not> trim_char (last s)"
  shows "\<exists>u. trim (s @ t) = s @ u"
proof -
  have "dropWhile trim_char (s @ t) = s @ t" using assms(1,2) by (cases s) auto
  moreover have "\<exists>u. strip_back trim_char (s @ t) = s @ u"
  proof (cases "\<forall>c\<in>set t. trim_char c")
    case True
    then have "dropWhile trim_char (rev (s @ t)) = dropWhile trim_char (rev s)" by (simp only: rev_append) (rule dropWhile_append2, simp)
    also have "\<dots> = rev s" using assms(1,3) by (cases s rule: rev_cases) simp_all
    finally have "dropWhile trim_char (rev (s @ t)) = rev s" .
    then show ?thesis by (intro exI [of _ "[]"]) (simp add: strip_back_def)
  next
    case False
    then have "dropWhile trim_char (rev (s @ t)) = dropWhile trim_char (rev t) @ rev s" by (auto simp: dropWhile_append1)
    then show ?thesis by (intro exI [of _ "rev (dropWhile trim_char (rev t))"]) (simp add: strip_back_def)
  qed
  ultimately show ?thesis by (simp add: trim_def)
qed

text \<open>A key that \<^verbatim>\<open>set_kv\<close> can find again: not empty, no blank in front, no line break; the value is one line.\<close>

definition plain_pair :: "string \<Rightarrow> string \<Rightarrow> bool" where
  "plain_pair key value \<longleftrightarrow> key \<noteq> [] \<and> \<not> trim_char (hd key) \<and> CHR 0x0A \<notin> set key \<and> CHR 0x0A \<notin> set value"

lemma kv_line_new:
  assumes "plain_pair key value"
  shows "kv_line key (key @ ''='' @ value)"
proof -
  have "\<exists>u. trim ((key @ ''='') @ value) = (key @ ''='') @ u"
    by (rule trim_keeps_start) (use assms in \<open>auto simp: plain_pair_def trim_char_def\<close>)
  then obtain u where "trim (key @ ''='' @ value) = (key @ ''='') @ u" by auto
  then show ?thesis by (simp only: kv_line_def Let_def starts_with_append simp_thms)
qed

lemma kv_line_empty [simp]: "\<not> kv_line key []"
  by (cases key) (simp_all add: kv_line_def trim_def strip_back_def)

lemma kv_lines_done: "filter (kv_line key) (kv_lines key value True ls) = []"
  by (induction ls) simp_all

lemma kv_lines_one:
  assumes "plain_pair key value"
  shows "filter (kv_line key) (kv_lines key value False ls) = [key @ ''='' @ value]"
  using kv_line_new [OF assms] by (induction ls) (simp_all add: kv_lines_done)

lemma kv_lines_others:
  assumes "plain_pair key value"
  shows "filter (\<lambda>l. \<not> kv_line key l \<and> l \<noteq> []) (kv_lines key value seen ls) = filter (\<lambda>l. \<not> kv_line key l \<and> l \<noteq> []) ls"
  using kv_line_new [OF assms] by (induction ls arbitrary: seen) simp_all

lemma kv_lines_done_id: "kv_lines key value True (kv_lines key value True ls) = kv_lines key value True ls"
  by (induction ls) simp_all

lemma kv_lines_id:
  assumes "plain_pair key value"
  shows "kv_lines key value False (kv_lines key value False ls) = kv_lines key value False ls"
  using kv_line_new [OF assms] by (induction ls) (simp_all add: kv_lines_done_id)

lemma kv_lines_plain:
  assumes "plain_pair key value" "\<forall>l\<in>set ls. CHR 0x0A \<notin> set l"
  shows "\<forall>l\<in>set (kv_lines key value seen ls). CHR 0x0A \<notin> set l"
  using assms(2)
proof (induction ls arbitrary: seen)
  case (Cons l ls)
  then show ?case using assms(1) by (simp add: plain_pair_def)
qed (use assms(1) in \<open>simp add: plain_pair_def\<close>)

lemma split_kv_text:
  assumes "plain_pair key value"
  shows "split_lines (kv_text key value t) = kv_lines key value False (split_lines t)"
  unfolding kv_text_def by (rule split_text_lines, rule kv_lines_plain [OF assms]) (simp add: split_lines_plain)

text \<open>
  After \<^verbatim>\<open>set_kv\<close> the file says what was asked and nothing else has changed: exactly one line sets the key (or comments it
  out) and it is \<^verbatim>\<open>KEY=value\<close>, the other lines that are not blank are the same in the same order, and doing it again
  changes nothing.
\<close>

theorem set_kv_sets:
  assumes "plain_pair key value"
  shows "filter (kv_line key) (split_lines (kv_text key value t)) = [key @ ''='' @ value]
    \<and> filter (\<lambda>l. \<not> kv_line key l \<and> l \<noteq> []) (split_lines (kv_text key value t)) = filter (\<lambda>l. \<not> kv_line key l \<and> l \<noteq> []) (split_lines t)
    \<and> kv_text key value (kv_text key value t) = kv_text key value t"
proof -
  have "kv_text key value (kv_text key value t) = kv_text key value t"
    unfolding kv_text_def [of key "value" "kv_text key value t"] split_kv_text [OF assms] kv_lines_id [OF assms]
    by (simp add: kv_text_def)
  then show ?thesis
    unfolding split_kv_text [OF assms] by (simp add: kv_lines_one [OF assms] kv_lines_others [OF assms])
qed

theorem set_kv_sets_witness:
  "filter (kv_line ''GRUB_TIMEOUT'') (split_lines (kv_text ''GRUB_TIMEOUT'' ''3'' (text_lines [''# GRUB_TIMEOUT=5'', ''A=1'', ''GRUB_TIMEOUT=9''])))
     = [''GRUB_TIMEOUT=3'']"
proof -
  have "plain_pair ''GRUB_TIMEOUT'' ''3''" by (simp add: plain_pair_def trim_char_def)
  then show ?thesis using set_kv_sets [of "''GRUB_TIMEOUT''" "''3''" "text_lines [''# GRUB_TIMEOUT=5'', ''A=1'', ''GRUB_TIMEOUT=9'']"] by simp
qed

end
