(* ===== verification/Salt_Run.thy ===== *)
theory Salt_Run
  imports Salt_Strata
begin

text \<open>
  Running a command in a stratum (\<^verbatim>\<open>src/halite/src/run.c\<close>, first half): the mounts of its view of the file system, the process that
  holds its mount namespace, the identity the command gets and the status that is reported.

  What the processes do is a list of system calls, each with the process that makes it and whether it succeeded.  Whether a call
  succeeds, what a file holds and what is alive are an arbitrary function of the calls so far (\<open>run_env\<close>), so theorems hold
  whatever the kernel, another program or another run does in between.  \<open>rv_effect\<close> is what the programs that ran have done to the
  files and the registry, \<open>rv_times\<close> the time stamp and size of a file, \<open>rv_reply\<close> what is typed at a question.  Memory never runs out; descriptors are not modelled.
\<close>

section \<open>System calls\<close>

record salt_run_opts =
  ro_graphics :: bool
  ro_interactive :: bool
  ro_user :: "string option"
  ro_workdir :: "string option"

definition salt_run_opts_default :: salt_run_opts where
  "salt_run_opts_default = \<lparr>ro_graphics = True, ro_interactive = False, ro_user = None, ro_workdir = None\<rparr>"

datatype proc = Caller | Child | Middle | Holder

type_synonym environ = "string \<Rightarrow> string option"

datatype syscall =
    Fork
  | Setsid
  | UnshareMounts
  | UnshareUser
  | JoinMounts int
  | MakePrivate
  | MountProc string
  | BindDir string string
  | BindFile string string
  | RemountReadOnly string
  | MakeDirs string
  | Unlink string
  | Create string
  | WriteTo string string
  | Rename string string
  | Flock string
  | Terminate int
  | KillNow int
  | Sleep
  | SignalDenied
  | Chroot string
  | MakeDir string nat
  | Chown string int int
  | Chdir string
  | ClearGroups
  | Setgid int
  | Setuid int
  | Exec "string list" environ
  | Append string string
  | Chmod string nat
  | Symlink string string
  | Remove string
  | CopyFile string string
  | Fetch string string
  | Shell string

datatype did = Did proc syscall bool

type_synonym rlog = "did list"

datatype file_kind = RegularFile | DirFile | OtherFile

datatype wait_status = WExited int | WSignaled int | WOther

record run_env =
  rv_ok :: "rlog \<Rightarrow> syscall \<Rightarrow> bool"
  rv_stat :: "rlog \<Rightarrow> string \<Rightarrow> file_kind option"
  rv_lstat :: "rlog \<Rightarrow> string \<Rightarrow> file_kind option"
  rv_read :: "rlog \<Rightarrow> string \<Rightarrow> string option"
  rv_access :: "rlog \<Rightarrow> string \<Rightarrow> bool"
  rv_alive :: "rlog \<Rightarrow> int \<Rightarrow> bool"
  rv_holder_pid :: int
  rv_euid :: int
  rv_uid :: int
  rv_gid :: int
  rv_env :: environ
  rv_passwd :: "int \<Rightarrow> (string \<times> string) option"
  rv_pipe :: bool
  rv_wait :: "rlog \<Rightarrow> wait_status option"
  rv_capture :: "rlog \<Rightarrow> bool"
  rv_output :: "rlog \<Rightarrow> string option"
  rv_dir :: "rlog \<Rightarrow> string \<Rightarrow> string list option"
  rv_sha256 :: "rlog \<Rightarrow> string \<Rightarrow> string option"
  rv_times :: "rlog \<Rightarrow> string \<Rightarrow> (int \<times> int \<times> int) option"
  rv_cwd :: "string option"
  rv_reply :: "rlog \<Rightarrow> string \<Rightarrow> char option"
  rv_effect :: "rlog \<Rightarrow> strata_state \<Rightarrow> strata_state"

text \<open>An action of a process ends with a value, with \<^verbatim>\<open>_exit\<close>, or by becoming the command.\<close>

datatype 'a rend = Value 'a | Exit int | Becomes

type_synonym 'a ract = "run_env \<Rightarrow> rlog \<Rightarrow> 'a rend \<times> rlog"

definition rret :: "'a \<Rightarrow> 'a ract" where
  "rret x v l = (Value x, l)"

definition rbind :: "'a ract \<Rightarrow> ('a \<Rightarrow> 'b ract) \<Rightarrow> 'b ract" where
  "rbind m k v l = (case m v l of (Value x, l') \<Rightarrow> k x v l' | (Exit c, l') \<Rightarrow> (Exit c, l') | (Becomes, l') \<Rightarrow> (Becomes, l'))"

definition rseq :: "'a ract \<Rightarrow> 'b ract \<Rightarrow> 'b ract" where
  "rseq m k = rbind m (\<lambda>_. k)"

primrec rdos :: "unit ract list \<Rightarrow> unit ract" where
  "rdos [] = rret ()"
| "rdos (a # as) = rseq a (rdos as)"

definition rwhen :: "bool \<Rightarrow> unit ract \<Rightarrow> unit ract" where
  "rwhen b a = (if b then a else rret ())"

definition rask :: "(run_env \<Rightarrow> rlog \<Rightarrow> 'a) \<Rightarrow> 'a ract" where
  "rask f v l = (Value (f v l), l)"

definition rexit :: "int \<Rightarrow> 'a ract" where
  "rexit c v l = (Exit c, l)"

text \<open>A system call with its result; one whose result is not looked at; one whose failure ends the process with status 125.\<close>

definition rcall :: "proc \<Rightarrow> syscall \<Rightarrow> bool ract" where
  "rcall p c v l = (let ok = rv_ok v l c in (Value ok, l @ [Did p c ok]))"

definition rtry :: "proc \<Rightarrow> syscall \<Rightarrow> unit ract" where
  "rtry p c = rseq (rcall p c) (rret ())"

definition rmust :: "proc \<Rightarrow> syscall \<Rightarrow> unit ract" where
  "rmust p c = rbind (rcall p c) (\<lambda>ok. if ok then rret () else rexit 125)"

text \<open>\<^verbatim>\<open>snprintf\<close> into a buffer of \<open>n\<close> bytes.\<close>

definition c_snprintf :: "nat \<Rightarrow> string \<Rightarrow> string" where
  "c_snprintf n s = take (n - 1) s"

section \<open>Mounts\<close>

definition drop_slashes :: "string \<Rightarrow> string" where
  "drop_slashes s = (case s of [] \<Rightarrow> [] | c # cs \<Rightarrow> c # strip_back (\<lambda>x. x = CHR ''/'') cs)"

definition salt_run_full_path :: "string \<Rightarrow> string \<Rightarrow> string" where
  "salt_run_full_path root dst =
     drop_slashes root @ (if dst = [] \<or> hd dst \<noteq> CHR ''/'' then ''/'' else []) @ dst"

definition salt_run_bind_dir :: "proc \<Rightarrow> string \<Rightarrow> string \<Rightarrow> string \<Rightarrow> bool ract" where
  "salt_run_bind_dir p root src dst =
     rbind (rask (\<lambda>v l. rv_stat v l src)) (\<lambda>st.
       if st = None then rret False
       else rseq (rtry p (MakeDirs (salt_run_full_path root dst))) (rcall p (BindDir src (salt_run_full_path root dst))))"

definition bind_any :: "proc \<Rightarrow> string \<Rightarrow> string \<Rightarrow> unit ract" where
  "bind_any p root d = rseq (salt_run_bind_dir p root d d) (rret ())"

definition salt_run_parent_dir :: "string \<Rightarrow> string option" where
  "salt_run_parent_dir path =
     (case rfind_char CHR ''/'' path of None \<Rightarrow> None | Some i \<Rightarrow> Some (if i = 0 then ''/'' else take i path))"

definition salt_run_bind_file :: "proc \<Rightarrow> string \<Rightarrow> string \<Rightarrow> string \<Rightarrow> unit ract" where
  "salt_run_bind_file p root src dst_in_root =
     (let dst = salt_run_full_path root dst_in_root in
      rbind (rask (\<lambda>v l. rv_stat v l src)) (\<lambda>st.
        rwhen (st \<noteq> None) (rdos
          [case salt_run_parent_dir dst of Some d \<Rightarrow> rtry p (MakeDirs d) | None \<Rightarrow> rret (),
           rbind (rask (\<lambda>v l. rv_lstat v l dst)) (\<lambda>k. rwhen (k \<noteq> None \<and> k \<noteq> Some RegularFile) (rtry p (Unlink dst))),
           rbind (rask (\<lambda>v l. rv_lstat v l dst)) (\<lambda>k. rwhen (k = None) (rtry p (Create dst))),
           rtry p (BindFile src dst)])))"

definition salt_run_bind_ro :: "proc \<Rightarrow> string \<Rightarrow> string \<Rightarrow> string \<Rightarrow> unit ract" where
  "salt_run_bind_ro p root src dst =
     rbind (rask (\<lambda>v l. rv_stat v l src)) (\<lambda>st.
       rwhen (st = Some DirFile)
         (rbind (salt_run_bind_dir p root src dst) (\<lambda>ok. rwhen ok (rtry p (RemountReadOnly (salt_run_full_path root dst))))))"

definition salt_run_mount_proc :: "proc \<Rightarrow> string \<Rightarrow> unit ract" where
  "salt_run_mount_proc p root =
     (let dst = salt_run_full_path root ''/proc'' in
      rseq (rtry p (MakeDirs dst))
        (rbind (rcall p (MountProc dst)) (\<lambda>ok. rwhen (\<not> ok) (bind_any p root ''/proc''))))"

definition salt_run_setup_mounts :: "proc \<Rightarrow> string \<Rightarrow> salt_run_opts option \<Rightarrow> bool \<Rightarrow> unit ract" where
  "salt_run_setup_mounts p root opts bind_workdir = rdos
     [rtry p MakePrivate,
      salt_run_mount_proc p root,
      bind_any p root ''/strata'',
      bind_any p root ''/usr/local/salt'',
      salt_run_bind_file p root ''/usr/bin/salt'' ''/usr/local/bin/salt'',
      bind_any p root ''/sys'', bind_any p root ''/dev'', bind_any p root ''/run'',
      bind_any p root ''/tmp'', bind_any p root ''/home'', bind_any p root ''/root'', bind_any p root ''/srv'',
      bind_any p root ''/opt'', bind_any p root ''/mnt'', bind_any p root ''/media'',
      salt_run_bind_ro p root ''/usr/share/fonts'' ''/usr/local/share/fonts/saltos-host'',
      salt_run_bind_ro p root ''/usr/share/icons'' ''/usr/share/saltos-host/icons'',
      salt_run_bind_ro p root ''/usr/share/themes'' ''/usr/share/saltos-host/themes'',
      salt_run_bind_file p root ''/etc/resolv.conf'' ''/etc/resolv.conf'',
      salt_run_bind_file p root ''/etc/hosts'' ''/etc/hosts'',
      salt_run_bind_file p root ''/etc/localtime'' ''/etc/localtime'',
      case opts of
        Some opt \<Rightarrow> (case ro_workdir opt of
           Some wd \<Rightarrow> rwhen (bind_workdir \<and> wd \<noteq> [] \<and> hd wd = CHR ''/'' \<and> wd \<noteq> ''/'') (bind_any p root wd)
         | None \<Rightarrow> rret ())
      | None \<Rightarrow> rret ()]"

section \<open>The holder of the mount namespace\<close>

definition salt_run_ns_pidpath :: "salt_stratum \<Rightarrow> string" where
  "salt_run_ns_pidpath st = c_snprintf 256 (''/run/salt/ns/'' @ (if sm_name st \<noteq> [] then sm_name st else ''default'') @ ''.pid'')"

definition parse_pid :: "string option \<Rightarrow> int" where
  "parse_pid r =
     (case r of
        None \<Rightarrow> -1
      | Some t \<Rightarrow> if t = [] then -1 else let p = c_atol (c_str (take 31 t)) in if p > 0 then c_int p else -1)"

definition salt_run_read_holder :: "string \<Rightarrow> int ract" where
  "salt_run_read_holder path = rask (\<lambda>v l. parse_pid (rv_read v l path))"

definition salt_run_holder_alive :: "int \<Rightarrow> bool ract" where
  "salt_run_holder_alive p = rask (\<lambda>v l. p > 0 \<and> rv_alive v l p)"

primrec wait_gone :: "nat \<Rightarrow> int \<Rightarrow> unit ract" where
  "wait_gone 0 p = rret ()"
| "wait_gone (Suc n) p = rbind (salt_run_holder_alive p) (\<lambda>a. rwhen a (rseq (rtry Caller Sleep) (wait_gone n p)))"

definition salt_stratum_ns_stop :: "salt_stratum \<Rightarrow> salt_rc ract" where
  "salt_stratum_ns_stop st =
     (let path = salt_run_ns_pidpath st in
      rbind (salt_run_read_holder path) (\<lambda>p.
      rbind (salt_run_holder_alive p) (\<lambda>a.
      rseq (rwhen a (rdos
              [rtry Caller (Terminate p),
               wait_gone 50 p,
               rbind (salt_run_holder_alive p) (\<lambda>b. rwhen b (rtry Caller (KillNow p)))]))
        (rseq (rtry Caller (Unlink path)) (rret SALT_OK)))))"

text \<open>The body of the holder: the mounts, then the file with its pid, moved into place in one step.\<close>

definition salt_run_holder_setup :: "salt_stratum \<Rightarrow> string \<Rightarrow> bool ract" where
  "salt_run_holder_setup st path =
     rbind (rcall Holder UnshareMounts) (\<lambda>ok.
       if \<not> ok then rret False
       else rseq (salt_run_setup_mounts Holder (sm_root st) None False)
         (rbind (rask (\<lambda>v l. rv_holder_pid v)) (\<lambda>pid.
            let tmp = c_snprintf 300 (path @ ''.tmp.'' @ int_to_string pid) in
            rbind (rcall Holder (Create tmp)) (\<lambda>ok1.
              if \<not> ok1 then rret False
              else rbind (rcall Holder (WriteTo tmp (int_to_string pid @ [CHR 0x0A]))) (\<lambda>ok2.
                if \<not> ok2 then rseq (rtry Holder (Unlink tmp)) (rret False)
                else rbind (rcall Holder (Rename tmp path)) (\<lambda>ok3.
                  if \<not> ok3 then rseq (rtry Holder (Unlink tmp)) (rret False)
                  else rret True))))))"

text \<open>
  The process between the command and the holder.  What it and the holder do comes before the command's next look at the pid
  file; since what the command sees there is arbitrary, this order loses nothing.
\<close>

definition spawn_holder :: "salt_stratum \<Rightarrow> string \<Rightarrow> unit ract" where
  "spawn_holder st path =
     rbind (rcall Middle Setsid) (\<lambda>ok.
       rwhen ok (rbind (rcall Middle Fork) (\<lambda>ok1.
         rwhen ok1 (rseq (salt_run_holder_setup st path) (rret ())))))"

primrec poll_holder :: "nat \<Rightarrow> string \<Rightarrow> int \<Rightarrow> int ract" where
  "poll_holder 0 path h = rret h"
| "poll_holder (Suc n) path h =
     rbind (salt_run_read_holder path) (\<lambda>h1.
     rbind (salt_run_holder_alive h1) (\<lambda>a.
       if a then rret h1 else rseq (rtry Child Sleep) (poll_holder n path h1)))"

definition salt_run_ensure_holder :: "salt_stratum \<Rightarrow> int ract" where
  "salt_run_ensure_holder st =
     (let path = salt_run_ns_pidpath st; lockpath = c_snprintf 300 (path @ ''.lock'') in
      rbind (salt_run_read_holder path) (\<lambda>e0.
      rbind (salt_run_holder_alive e0) (\<lambda>a0.
        if a0 then rret e0
        else rseq (rtry Child (MakeDirs ''/run/salt/ns''))
          (rbind (rcall Child (Create lockpath)) (\<lambda>lk.
           rseq (rwhen lk (rtry Child (Flock lockpath)))
          (rbind (salt_run_read_holder path) (\<lambda>e1.
           rbind (salt_run_holder_alive e1) (\<lambda>a1.
             if a1 then rret e1
             else rseq (rtry Child (Unlink path))
               (rbind (rcall Child Fork) (\<lambda>f.
                  if \<not> f then rret (-1)
                  else rseq (spawn_holder st path)
                    (rbind (poll_holder 500 path (-1)) (\<lambda>h.
                     rbind (salt_run_holder_alive h) (\<lambda>a. rret (if a then h else -1))))))))))))))"

section \<open>The identity of the command\<close>

definition salt_run_write_str :: "string \<Rightarrow> string \<Rightarrow> bool ract" where
  "salt_run_write_str path val = rcall Child (WriteTo path val)"

definition id_map :: "int \<Rightarrow> string" where
  "id_map i = int_to_string i @ '' '' @ int_to_string i @ '' 1''"

definition salt_run_enter_userns :: "bool ract" where
  "salt_run_enter_userns =
     rbind (rcall Child UnshareUser) (\<lambda>ok.
       if \<not> ok then rret False
       else rbind (salt_run_write_str ''/proc/self/setgroups'' ''deny'') (\<lambda>_.
            rbind (rask (\<lambda>v l. rv_uid v)) (\<lambda>u.
            rbind (salt_run_write_str ''/proc/self/uid_map'' (id_map u)) (\<lambda>ok1.
              if \<not> ok1 then rret False
              else rbind (rask (\<lambda>v l. rv_gid v)) (\<lambda>g.
                   salt_run_write_str ''/proc/self/gid_map'' (id_map g))))))"

definition nonempty :: "string option \<Rightarrow> bool" where
  "nonempty s \<longleftrightarrow> s \<noteq> None \<and> s \<noteq> Some []"

text \<open>Whether to give up root, and to which ids (\<^verbatim>\<open>uid_t\<close> and \<^verbatim>\<open>gid_t\<close> have 32 bits).\<close>

record drop_plan =
  dp_drop :: bool
  dp_uid :: int
  dp_gid :: int
  dp_keep_root :: bool

definition sudo_drop :: "environ \<Rightarrow> drop_plan" where
  "sudo_drop env =
     (case (env ''SUDO_UID'', env ''SUDO_GID'') of
        (Some u, Some g) \<Rightarrow> \<lparr>dp_drop = (c_atol u \<noteq> 0), dp_uid = c_atol u mod 2 ^ 32, dp_gid = c_atol g mod 2 ^ 32, dp_keep_root = False\<rparr>
      | _ \<Rightarrow> \<lparr>dp_drop = False, dp_uid = 0, dp_gid = 0, dp_keep_root = False\<rparr>)"

definition plan_drop :: "bool \<Rightarrow> salt_run_opts \<Rightarrow> environ \<Rightarrow> drop_plan" where
  "plan_drop in_userns opts env =
     (if in_userns then \<lparr>dp_drop = False, dp_uid = 0, dp_gid = 0, dp_keep_root = False\<rparr>
      else if ro_user opts = Some ''root'' then \<lparr>dp_drop = False, dp_uid = 0, dp_gid = 0, dp_keep_root = True\<rparr>
      else if nonempty (ro_user opts) then sudo_drop env
      else sudo_drop env)"

definition pick_user :: "drop_plan \<Rightarrow> environ \<Rightarrow> (string \<times> string) option \<Rightarrow> string option" where
  "pick_user d env pw =
     (if dp_keep_root d then Some ''root''
      else if dp_drop d \<and> nonempty (env ''SUDO_USER'') then env ''SUDO_USER''
      else if nonempty (map_option fst pw) then map_option (c_snprintf 256 \<circ> fst) pw
      else if nonempty (env ''USER'') then env ''USER''
      else None)"

definition pick_home :: "drop_plan \<Rightarrow> environ \<Rightarrow> (string \<times> string) option \<Rightarrow> string option \<Rightarrow> string option" where
  "pick_home d env pw run_user =
     (if dp_keep_root d then Some ''/root''
      else if dp_drop d then
        (if nonempty (env ''SUDO_HOME'') then env ''SUDO_HOME''
         else if nonempty (env ''SUDO_USER'') then map_option (\<lambda>u. c_snprintf 4096 (''/home/'' @ u)) (env ''SUDO_USER'')
         else env ''HOME'')
      else
        let h0 = env ''HOME'';
            h1 = (if \<not> nonempty h0 \<and> nonempty (map_option snd pw) then map_option (c_snprintf 4096 \<circ> snd) pw else h0)
        in if \<not> nonempty h1 \<and> run_user \<noteq> None then map_option (\<lambda>u. c_snprintf 4096 (''/home/'' @ u)) run_user else h1)"

definition run_path :: string where
  "run_path = ''/usr/local/bin:/usr/bin:/bin:/usr/local/sbin:/usr/sbin:/sbin:/usr/local/salt/shims''"

definition run_environ :: "drop_plan \<Rightarrow> string \<Rightarrow> string option \<Rightarrow> string option \<Rightarrow> (string \<Rightarrow> bool) \<Rightarrow> environ \<Rightarrow> environ" where
  "run_environ d xdg home run_user access env =
     (let e1 = env(''PATH'' \<mapsto> run_path, ''XDG_RUNTIME_DIR'' \<mapsto> xdg);
          e2 = (if nonempty home then e1(''HOME'' := home) else if dp_keep_root d then e1(''HOME'' \<mapsto> ''/root'') else e1);
          e3 = (if nonempty run_user then e2(''USER'' := run_user, ''LOGNAME'' := run_user) else e2);
          e4 = e3(''XDG_DATA_DIRS'' \<mapsto> ''/usr/local/share:/usr/share:/usr/share/saltos-host'');
          h = (case e4 ''HOME'' of Some h \<Rightarrow> h | None \<Rightarrow> []);
          e5 = e4(''XCURSOR_PATH'' \<mapsto> c_snprintf 1024
                 (h @ ''/.local/share/icons:'' @ h @ ''/.icons:/usr/share/icons:/usr/share/pixmaps:/usr/share/saltos-host/icons''));
          e6 = (case e5 ''SHELL'' of
                  Some sh \<Rightarrow> if sh = [] \<or> hd sh \<noteq> CHR ''/'' \<or> \<not> access sh then e5(''SHELL'' \<mapsto> ''/bin/sh'') else e5
                | None \<Rightarrow> e5(''SHELL'' \<mapsto> ''/bin/sh''))
      in if access ''/run/seatd.sock'' \<and> e6 ''LIBSEAT_BACKEND'' = None then e6(''LIBSEAT_BACKEND'' \<mapsto> ''seatd'') else e6)"

section \<open>The child\<close>

text \<open>Into the mount namespace: that of the holder for root, one of its own otherwise.  The value says whether a user namespace was entered.\<close>

definition child_namespace :: "salt_stratum \<Rightarrow> salt_run_opts \<Rightarrow> bool ract" where
  "child_namespace st opts =
     rbind (rask (\<lambda>v l. rv_euid v)) (\<lambda>euid.
       if euid = 0 then
         rbind (salt_run_ensure_holder st) (\<lambda>holder.
           if holder \<le> 0 then rexit 125
           else rseq (rmust Child (JoinMounts holder)) (rret False))
       else
         rbind salt_run_enter_userns (\<lambda>ok.
           if \<not> ok then rbind (rask (\<lambda>v l. rv_pipe v)) (\<lambda>pipe. rseq (rwhen pipe (rtry Child SignalDenied)) (rexit 126))
           else rseq (rmust Child UnshareMounts)
             (rseq (salt_run_setup_mounts Child (sm_root st) (Some opts) True) (rret True))))"

text \<open>\<^verbatim>\<open>chdir (workdir) != 0 && (!home || chdir (home) != 0) && chdir ("/") != 0\<close>.\<close>

definition child_chdir :: "string \<Rightarrow> string option \<Rightarrow> unit ract" where
  "child_chdir workdir home =
     rbind (rcall Child (Chdir workdir)) (\<lambda>ok.
       if ok then rret ()
       else rbind (case home of None \<Rightarrow> rret False | Some h \<Rightarrow> rcall Child (Chdir h)) (\<lambda>ok1.
         if ok1 then rret () else rmust Child (Chdir ''/'')))"

definition child_drop :: "drop_plan \<Rightarrow> unit ract" where
  "child_drop d =
     rwhen (dp_drop d) (rdos
       [rtry Child ClearGroups, rmust Child (Setgid (dp_gid d)), rmust Child (Setuid (dp_uid d))])"

definition child_workdir :: "salt_run_opts \<Rightarrow> string option \<Rightarrow> string ract" where
  "child_workdir opts home =
     rask (\<lambda>v l. case ro_workdir opts of
        Some wd \<Rightarrow> if wd \<noteq> [] then wd else (case home of Some h \<Rightarrow> if rv_stat v l h = Some DirFile then h else ''/'' | None \<Rightarrow> ''/'')
      | None \<Rightarrow> (case home of Some h \<Rightarrow> if rv_stat v l h = Some DirFile then h else ''/'' | None \<Rightarrow> ''/''))"

definition child_exec :: "drop_plan \<Rightarrow> string \<Rightarrow> string option \<Rightarrow> string option \<Rightarrow> string list \<Rightarrow> unit ract" where
  "child_exec d xdg home run_user argv =
     rbind (rask (\<lambda>v l. run_environ d xdg home run_user (rv_access v l) (rv_env v))) (\<lambda>env.
     (\<lambda>v l. if rv_ok v l (Exec argv env) then (Becomes, l @ [Did Child (Exec argv env) True])
            else (Exit 127, l @ [Did Child (Exec argv env) False])))"

text \<open>The directory for the sockets of the user, and where the command starts.\<close>

definition child_place :: "salt_run_opts \<Rightarrow> string \<Rightarrow> int \<Rightarrow> int \<Rightarrow> string option \<Rightarrow> unit ract" where
  "child_place opts xdg run_uid run_gid home = rdos
     [rtry Child (MakeDir ''/run/user'' 493), rtry Child (MakeDir xdg 448), rtry Child (Chown xdg run_uid run_gid),
      rbind (child_workdir opts home) (\<lambda>wd. child_chdir wd home)]"

definition salt_run_child :: "salt_stratum \<Rightarrow> salt_run_opts \<Rightarrow> string list \<Rightarrow> unit ract" where
  "salt_run_child st opts argv =
     rbind (child_namespace st opts) (\<lambda>in_userns.
     rbind (rask (\<lambda>v l. v)) (\<lambda>v.
       let env = rv_env v;
           d = plan_drop in_userns opts env;
           run_uid = (if dp_drop d then dp_uid d else rv_uid v);
           run_gid = (if dp_drop d then dp_gid d else rv_gid v);
           pw = rv_passwd v run_uid;
           run_user = pick_user d env pw;
           home = pick_home d env pw run_user;
           xdg = c_snprintf 64 (''/run/user/'' @ int_to_string run_uid)
       in rseq (rmust Child (Chroot (sm_root st)))
         (rseq (child_place opts xdg run_uid run_gid home)
         (rseq (child_drop d)
           (child_exec d xdg home run_user argv)))))"

section \<open>Running a command\<close>

definition SALT_RUN_USERNS_DENIED :: int where
  "SALT_RUN_USERNS_DENIED = 252"

text \<open>What \<^verbatim>\<open>waitpid\<close> reports of the child: its own exit status before it became the command, that of the command after.\<close>

definition child_status :: "run_env \<Rightarrow> unit rend \<Rightarrow> rlog \<Rightarrow> wait_status option" where
  "child_status v r l =
     (case rv_wait v l of
        None \<Rightarrow> None
      | Some w \<Rightarrow> (case r of Exit c \<Rightarrow> Some (WExited c) | Value _ \<Rightarrow> Some (WExited 127) | Becomes \<Rightarrow> Some w))"

definition exit_code :: "wait_status \<Rightarrow> int" where
  "exit_code w = (case w of WExited c \<Rightarrow> c mod 256 | WSignaled n \<Rightarrow> 128 + n | WOther \<Rightarrow> -1)"

definition salt_stratum_run :: "run_env \<Rightarrow> salt_stratum \<Rightarrow> salt_run_opts option \<Rightarrow> string list \<Rightarrow> rlog \<Rightarrow> (salt_rc \<times> int) \<times> rlog" where
  "salt_stratum_run v st opts argv l =
     (if sm_root st = [] then ((SALT_ERR, -1), l)
      else if rv_stat v l (sm_root st) \<noteq> Some DirFile then ((SALT_ERR, -1), l)
      else if argv = [] then ((SALT_ERR, -1), l)
      else let opt = (case opts of Some opt \<Rightarrow> opt | None \<Rightarrow> salt_run_opts_default);
               f = rv_ok v l Fork;
               l1 = l @ [Did Caller Fork f]
           in if \<not> f then ((SALT_ERR, -1), l1)
              else let (r, l2) = salt_run_child st opt argv v l1
                   in case child_status v r l2 of
                        None \<Rightarrow> ((SALT_ERR, -1), l2)
                      | Some w \<Rightarrow>
                          if rv_pipe v \<and> Did Child SignalDenied True \<in> set (drop (length l1) l2)
                          then ((SALT_OK, SALT_RUN_USERNS_DENIED), l2)
                          else ((SALT_OK, exit_code w), l2))"

end
