(* ===== verification/Salt_Drop.thy ===== *)
theory Salt_Drop
  imports Salt_Run
begin

text \<open>
  What has happened before a command of a stratum starts: the mount namespace, the change of root, and the ids of the caller in
  place of root.
\<close>

named_theorems quiet_rules \<open>introduction rules for actions that add only no_start calls\<close>

text \<open>An action that does not become the command and whose calls all have the property \<open>P\<close>.\<close>

definition quiet :: "(did \<Rightarrow> bool) \<Rightarrow> 'a ract \<Rightarrow> bool" where
  "quiet P m \<longleftrightarrow> (\<forall>v l. \<exists>r es. m v l = (r, l @ es) \<and> list_all P es \<and> r \<noteq> Becomes)"

lemma quietE:
  assumes "quiet P m"
  obtains r es where "m v l = (r, l @ es)" "list_all P es" "r \<noteq> Becomes"
  using assms unfolding quiet_def by blast

lemma quiet_ret [quiet_rules]: "quiet P (rret x)"
  by (simp add: quiet_def rret_def)

lemma quiet_ask [quiet_rules]: "quiet P (rask f)"
  by (simp add: quiet_def rask_def)

lemma quiet_exit [quiet_rules]: "quiet P (rexit c)"
  by (simp add: quiet_def rexit_def)

lemma quiet_call [quiet_rules]: "(\<And>ok. P (Did p c ok)) \<Longrightarrow> quiet P (rcall p c)"
  by (simp add: quiet_def rcall_def Let_def)

lemma quiet_bind [quiet_rules]:
  assumes "quiet P m" "\<And>x. quiet P (k x)"
  shows "quiet P (rbind m k)"
  unfolding quiet_def
proof (intro allI)
  fix v l
  obtain r es where m: "m v l = (r, l @ es)" "list_all P es" "r \<noteq> Becomes" using quietE [OF assms(1)] .
  show "\<exists>r es. rbind m k v l = (r, l @ es) \<and> list_all P es \<and> r \<noteq> Becomes"
  proof (cases r)
    case (Value x)
    obtain r' es' where "k x v (l @ es) = (r', (l @ es) @ es')" "list_all P es'" "r' \<noteq> Becomes" using quietE [OF assms(2)] .
    then show ?thesis using m Value by (intro exI [of _ r'] exI [of _ "es @ es'"]) (simp add: rbind_def)
  qed (use m in \<open>auto simp: rbind_def\<close>)
qed

lemma quiet_seq [quiet_rules]: "quiet P m \<Longrightarrow> quiet P k \<Longrightarrow> quiet P (rseq m k)"
  unfolding rseq_def by (rule quiet_bind)

lemma quiet_if [quiet_rules]: "(b \<Longrightarrow> quiet P m) \<Longrightarrow> (\<not> b \<Longrightarrow> quiet P k) \<Longrightarrow> quiet P (if b then m else k)"
  by simp

lemma quiet_when [quiet_rules]: "(b \<Longrightarrow> quiet P m) \<Longrightarrow> quiet P (rwhen b m)"
  by (simp add: rwhen_def quiet_ret)

lemma quiet_option [quiet_rules]: "quiet P m \<Longrightarrow> (\<And>x. quiet P (k x)) \<Longrightarrow> quiet P (case r of None \<Rightarrow> m | Some x \<Rightarrow> k x)"
  by (cases r) simp_all

lemma quiet_dos_Nil [quiet_rules]: "quiet P (rdos [])"
  by (simp add: quiet_ret)

lemma quiet_dos_Cons [quiet_rules]: "quiet P a \<Longrightarrow> quiet P (rdos as) \<Longrightarrow> quiet P (rdos (a # as))"
  by (simp add: quiet_seq)

text \<open>Every call but the ones that start a program or matter for its identity.\<close>

fun no_start :: "did \<Rightarrow> bool" where
  "no_start (Did p (Exec a e) ok) = False"
| "no_start (Did p (Setuid u) ok) = False"
| "no_start (Did p (Setgid g) ok) = False"
| "no_start (Did p (Chroot r) ok) = False"
| "no_start (Did p (Shell c) ok) = False"
| "no_start (Did p c ok) = True"

lemma quiet_try [quiet_rules]: "(\<And>ok. P (Did p c ok)) \<Longrightarrow> quiet P (rtry p c)"
  unfolding rtry_def by (intro quiet_rules)

lemma quiet_must [quiet_rules]: "(\<And>ok. P (Did p c ok)) \<Longrightarrow> quiet P (rmust p c)"
  unfolding rmust_def by (intro quiet_rules)

lemma quiet_bind_dir [quiet_rules]: "quiet no_start (salt_run_bind_dir p root src dst)"
  unfolding salt_run_bind_dir_def by (intro quiet_rules) simp_all

lemma quiet_bind_any [quiet_rules]: "quiet no_start (bind_any p root d)"
  unfolding bind_any_def by (intro quiet_rules)

lemma quiet_bind_file [quiet_rules]: "quiet no_start (salt_run_bind_file p root src dst)"
  unfolding salt_run_bind_file_def Let_def by (intro quiet_rules) simp_all

lemma quiet_bind_ro [quiet_rules]: "quiet no_start (salt_run_bind_ro p root src dst)"
  unfolding salt_run_bind_ro_def by (intro quiet_rules) simp_all

lemma quiet_mount_proc [quiet_rules]: "quiet no_start (salt_run_mount_proc p root)"
  unfolding salt_run_mount_proc_def Let_def by (intro quiet_rules) simp_all

lemma quiet_setup_mounts [quiet_rules]: "quiet no_start (salt_run_setup_mounts p root opts b)"
  unfolding salt_run_setup_mounts_def by (intro quiet_rules) simp_all

lemma quiet_looks [quiet_rules]: "quiet P (salt_run_read_holder path)" "quiet P (salt_run_holder_alive pid)"
  unfolding salt_run_read_holder_def salt_run_holder_alive_def by (intro quiet_rules)+

lemma quiet_poll [quiet_rules]: "quiet no_start (poll_holder n path h)"
  by (induction n arbitrary: h) (auto intro!: quiet_rules)

lemma quiet_holder_setup [quiet_rules]: "quiet no_start (salt_run_holder_setup st path)"
  unfolding salt_run_holder_setup_def Let_def by (intro quiet_rules) simp_all

lemma quiet_spawn [quiet_rules]: "quiet no_start (spawn_holder st path)"
  unfolding spawn_holder_def by (intro quiet_rules) simp_all

lemma quiet_ensure_holder [quiet_rules]: "quiet no_start (salt_run_ensure_holder st)"
  unfolding salt_run_ensure_holder_def Let_def by (intro quiet_rules) simp_all

lemma quiet_userns [quiet_rules]: "quiet no_start salt_run_enter_userns"
  unfolding salt_run_enter_userns_def salt_run_write_str_def by (intro quiet_rules) simp_all

lemma quiet_namespace [quiet_rules]: "quiet no_start (child_namespace st opts)"
  unfolding child_namespace_def by (intro quiet_rules) simp_all

lemma quiet_chdir [quiet_rules]: "quiet no_start (child_chdir wd home)"
  unfolding child_chdir_def by (intro quiet_rules) simp_all

lemma quiet_workdir [quiet_rules]: "quiet P (child_workdir opts home)"
  unfolding child_workdir_def by (intro quiet_rules)

lemma quiet_place [quiet_rules]: "quiet no_start (child_place opts xdg u g home)"
  unfolding child_place_def by (intro quiet_rules) simp_all

section \<open>Steps that have succeeded\<close>

lemma rbind_Value: "rbind m k v l = (Value y, l') \<longleftrightarrow> (\<exists>x l1. m v l = (Value x, l1) \<and> k x v l1 = (Value y, l'))"
  by (auto simp: rbind_def split: prod.splits rend.splits)

lemma rseq_Value: "rseq m k v l = (Value y, l') \<longleftrightarrow> (\<exists>x l1. m v l = (Value x, l1) \<and> k v l1 = (Value y, l'))"
  by (simp add: rseq_def rbind_Value)

lemma step_Value [simp]:
  "rret x v l = (Value y, l') \<longleftrightarrow> y = x \<and> l' = l"
  "rask f v l = (Value y, l') \<longleftrightarrow> y = f v l \<and> l' = l"
  "rexit n v l \<noteq> (Value y, l')"
  "rcall p c v l = (Value b, l') \<longleftrightarrow> b = rv_ok v l c \<and> l' = l @ [Did p c b]"
  by (auto simp: rret_def rask_def rexit_def rcall_def Let_def)

lemma rmust_Value [simp]: "rmust p c v l = (Value y, l') \<longleftrightarrow> rv_ok v l c \<and> l' = l @ [Did p c True]"
  by (auto simp: rmust_def rbind_Value split: if_splits)

lemma rtry_Value [simp]: "rtry p c v l = (Value y, l') \<longleftrightarrow> l' = l @ [Did p c (rv_ok v l c)]"
  by (auto simp: rtry_def rseq_Value)

text \<open>The mount namespace that the command gets.\<close>

definition own_view :: "run_env \<Rightarrow> rlog \<Rightarrow> bool" where
  "own_view v es \<longleftrightarrow>
     (if rv_euid v = 0 then \<exists>h. h > 0 \<and> Did Child (JoinMounts h) True \<in> set es
      else Did Child UnshareUser True \<in> set es \<and> Did Child UnshareMounts True \<in> set es)"

lemma quiet_Value:
  assumes "quiet P m" "m v l = (Value x, l')"
  obtains es where "l' = l @ es" "list_all P es"
  using quietE [OF assms(1), of v l] assms(2) by (metis prod.inject)

lemma userns_Value:
  assumes "salt_run_enter_userns v l = (Value True, l')"
  shows "\<exists>es. l' = l @ Did Child UnshareUser True # es"
proof (cases "rv_ok v l UnshareUser")
  case True
  show ?thesis using assms True
    by (auto simp: salt_run_enter_userns_def salt_run_write_str_def rbind_Value split: if_splits)
next
  case False
  then show ?thesis using assms by (auto simp: salt_run_enter_userns_def rbind_Value)
qed

lemma namespace_Value:
  assumes "child_namespace st opts v l = (Value u, l')"
  obtains es where "l' = l @ es" "list_all no_start es" "u = (rv_euid v \<noteq> 0)" "own_view v es"
proof -
  obtain es where es: "l' = l @ es" "list_all no_start es" using quiet_Value [OF quiet_namespace assms] .
  show ?thesis
  proof (cases "rv_euid v = 0")
    case True
    then obtain h l1 where h: "salt_run_ensure_holder st v l = (Value h, l1)" "h > 0" "l' = l1 @ [Did Child (JoinMounts h) True]" "u = False"
      using assms by (auto simp: child_namespace_def rbind_Value rseq_Value split: if_splits)
    obtain es1 where "l1 = l @ es1" using quiet_Value [OF quiet_ensure_holder h(1)] .
    then have "es = es1 @ [Did Child (JoinMounts h) True]" using h(3) es(1) by simp
    then show ?thesis using that es True h(2,4) by (auto simp: own_view_def)
  next
    case False
    then obtain l1 l2 where s: "salt_run_enter_userns v l = (Value True, l1)"
        "salt_run_setup_mounts Child (sm_root st) (Some opts) True v (l1 @ [Did Child UnshareMounts True]) = (Value (), l')" "u = True"
      using assms by (auto simp: child_namespace_def rbind_Value rseq_Value split: if_splits)
    obtain es1 where 1: "l1 = l @ Did Child UnshareUser True # es1" using userns_Value [OF s(1)] by blast
    obtain es2 where "l' = (l1 @ [Did Child UnshareMounts True]) @ es2" using quiet_Value [OF quiet_setup_mounts s(2)] .
    then have "es = Did Child UnshareUser True # es1 @ Did Child UnshareMounts True # es2" using es(1) 1 by simp
    then show ?thesis using that es False s(3) by (auto simp: own_view_def)
  qed
qed

text \<open>The last steps before the command: groups, group and user of the caller.\<close>

definition drops :: "drop_plan \<Rightarrow> did list \<Rightarrow> bool" where
  "drops d es \<longleftrightarrow>
     (if dp_drop d
      then \<exists>b. es = [Did Child ClearGroups b, Did Child (Setgid (dp_gid d)) True, Did Child (Setuid (dp_uid d)) True]
      else es = [])"

lemma child_drop_Value:
  assumes "child_drop d v l = (Value y, l')"
  obtains es where "l' = l @ es" "drops d es"
  using assms by (auto simp: child_drop_def rwhen_def drops_def rseq_Value split: if_splits)

text \<open>Until \<open>Setuid\<close>, an action that fails leaves no call that starts the command.\<close>

definition no_exec :: "did \<Rightarrow> bool" where
  "no_exec e \<longleftrightarrow> (case e of Did p c ok \<Rightarrow> (case c of Exec a env \<Rightarrow> False | Shell t \<Rightarrow> False | _ \<Rightarrow> True))"

lemma no_start_no_exec: "no_start e \<Longrightarrow> no_exec e"
  by (cases e rule: no_start.cases) (auto simp: no_exec_def)

lemma quiet_mono: "quiet P m \<Longrightarrow> (\<And>e. P e \<Longrightarrow> Q e) \<Longrightarrow> quiet Q m"
  unfolding quiet_def by (metis list.pred_mono_strong)

lemma quiet_drop: "quiet no_exec (child_drop d)"
  unfolding child_drop_def by (intro quiet_rules) (simp_all add: no_exec_def)

lemma rbind_runs [consumes 2]:
  assumes "quiet P m" "rbind m k v l = (r, l')"
  obtains (stop) es where "l' = l @ es" "list_all P es" "r \<noteq> Becomes"
    | (go) x es where "m v l = (Value x, l @ es)" "list_all P es" "k x v (l @ es) = (r, l')"
proof -
  obtain q es where q: "m v l = (q, l @ es)" "list_all P es" "q \<noteq> Becomes" using quietE [OF assms(1)] .
  show ?thesis
    by (cases q) (use q assms(2) stop go in \<open>auto simp: rbind_def\<close>)
qed

lemma rseq_runs [consumes 2]:
  assumes "quiet P m" "rseq m k v l = (r, l')"
  obtains (stop) es where "l' = l @ es" "list_all P es" "r \<noteq> Becomes"
    | (go) x es where "m v l = (Value x, l @ es)" "list_all P es" "k v (l @ es) = (r, l')"
  using assms unfolding rseq_def by (elim rbind_runs [OF assms(1)]) (auto simp: rseq_def)

section \<open>The theorem\<close>

text \<open>The plan of the child, from the environment alone.\<close>

abbreviation run_plan :: "run_env \<Rightarrow> salt_run_opts \<Rightarrow> drop_plan" where
  "run_plan v opts \<equiv> plan_drop (rv_euid v \<noteq> 0) opts (rv_env v)"

definition started :: "run_env \<Rightarrow> salt_stratum \<Rightarrow> salt_run_opts \<Rightarrow> string list \<Rightarrow> did list \<Rightarrow> bool" where
  "started v st opts argv es \<longleftrightarrow>
     (\<exists>pre mid ids env ok.
        es = pre @ Did Child (Chroot (sm_root st)) True # mid @ ids @ [Did Child (Exec argv env) ok] \<and>
        list_all no_start pre \<and> own_view v pre \<and> list_all no_start mid \<and> drops (run_plan v opts) ids)"

lemma child_exec_runs:
  assumes "child_exec d xdg home user argv v l = (r, l')"
  obtains env ok where "l' = l @ [Did Child (Exec argv env) ok]" "r = (if ok then Becomes else Exit 127)"
  using assms by (auto simp: child_exec_def rbind_def rask_def split: if_splits)

lemma child_runs:
  assumes "salt_run_child st opts argv v l = (r, l')"
  obtains (stop) es where "l' = l @ es" "list_all no_exec es" "r \<noteq> Becomes"
    | (go) es where "l' = l @ es" "started v st opts argv es"
proof -
  have hm: "list_all no_exec es" if "list_all no_start es" for es
    using that by (auto simp: list_all_iff no_start_no_exec)
  let ?d = "run_plan v opts"
  have chroot: "quiet no_exec (rmust Child (Chroot (sm_root st)))"
    by (intro quiet_rules) (simp add: no_exec_def)
  from quiet_namespace assms [unfolded salt_run_child_def] show ?thesis
  proof (cases rule: rbind_runs)
    case (stop es)
    then show ?thesis using hm that(1) by blast
  next
    case (go u pre)
    note ns = go
    have u: "u = (rv_euid v \<noteq> 0)" "own_view v pre" using namespace_Value [OF go(1)] by auto
    obtain xdg ru rg home user where main: "rseq (rmust Child (Chroot (sm_root st))) (rseq (child_place opts xdg ru rg home)
        (rseq (child_drop ?d) (child_exec ?d xdg home user argv))) v (l @ pre) = (r, l')"
      using go(3) unfolding u(1) rbind_def rask_def Let_def by auto
    from chroot main show ?thesis
    proof (cases rule: rseq_runs)
      case (stop es)
      then show ?thesis using hm [OF ns(2)] that(1) [of "pre @ es"] by simp
    next
      case (go x es)
      then have es: "es = [Did Child (Chroot (sm_root st)) True]" by simp
      from quiet_place go(3) show ?thesis
      proof (cases rule: rseq_runs)
        case (stop mid)
        then show ?thesis using hm [OF ns(2)] hm [of mid] es that(1) [of "pre @ es @ mid"] by (simp add: no_exec_def)
      next
        case (go x' mid)
        note place = go
        from quiet_drop go(3) show ?thesis
        proof (cases rule: rseq_runs)
          case (stop ids)
          then show ?thesis using hm [OF ns(2)] hm [OF place(2)] es that(1) [of "pre @ es @ mid @ ids"] by (simp add: no_exec_def)
        next
          case (go x'' ids)
          have "drops ?d ids" using child_drop_Value [OF go(1)] by auto
          moreover obtain env ok where "l' = (((l @ pre) @ es) @ mid) @ ids @ [Did Child (Exec argv env) ok]"
            using child_exec_runs [OF go(3)] by (metis append.assoc)
          ultimately have "l' = l @ pre @ es @ mid @ ids @ [Did Child (Exec argv env) ok]" "drops ?d ids" by simp_all
          then show ?thesis using that(2) [of "pre @ es @ mid @ ids @ [Did Child (Exec argv env) ok]"] ns(2) place(2) u(2) es
            unfolding started_def by auto
        qed
      qed
    qed
  qed
qed

text \<open>A run adds to the calls, and never goes through the shell of the host.\<close>

fun no_shell :: "did \<Rightarrow> bool" where
  "no_shell (Did p (Shell t) ok) = False"
| "no_shell (Did p c ok) = True"

lemma no_shellI: "no_exec e \<Longrightarrow> no_shell e" "no_start e \<Longrightarrow> no_shell e"
  by (cases e rule: no_shell.cases; simp add: no_exec_def)+

lemma started_no_shell: "started v st opts argv es \<Longrightarrow> list_all no_shell es"
  by (auto simp: started_def drops_def list_all_iff no_shellI(2) split: if_splits)

lemma run_no_shell:
  obtains es where "snd (salt_stratum_run v st opts argv l) = l @ es" "list_all no_shell es"
proof -
  let ?opt = "case opts of Some opt \<Rightarrow> opt | None \<Rightarrow> salt_run_opts_default"
  obtain r l2 where c: "salt_run_child st ?opt argv v (l @ [Did Caller Fork True]) = (r, l2)" by fastforce
  have "\<exists>es. l2 = l @ es \<and> list_all no_shell es"
    using c by (cases rule: child_runs) (auto simp: list_all_iff intro: no_shellI(1) dest: started_no_shell)
  moreover have "snd (salt_stratum_run v st opts argv l) \<in> {l, l @ [Did Caller Fork False], l2}"
    using c unfolding salt_stratum_run_def Let_def by (auto split: if_splits option.splits prod.splits)
  ultimately show ?thesis using that [of "[]"] that [of "[Did Caller Fork False]"] that by auto
qed

text \<open>What giving up the rights of root looks like, from the environment of the caller.\<close>

definition caller_ids :: "run_env \<Rightarrow> salt_run_opts \<Rightarrow> bool \<Rightarrow> did list" where
  "caller_ids v opts b =
     (if rv_euid v = 0 \<and> ro_user opts \<noteq> Some ''root'' then
        (case (rv_env v ''SUDO_UID'', rv_env v ''SUDO_GID'') of
           (Some u, Some g) \<Rightarrow>
             if c_atol u = 0 then []
             else [Did Child ClearGroups b, Did Child (Setgid (c_atol g mod 2 ^ 32)) True, Did Child (Setuid (c_atol u mod 2 ^ 32)) True]
         | _ \<Rightarrow> [])
      else [])"

lemma drops_caller_ids: "drops (run_plan v opts) ids \<Longrightarrow> \<exists>b. ids = caller_ids v opts b"
  by (auto simp: drops_def plan_drop_def sudo_drop_def caller_ids_def split: if_splits option.splits)


text \<open>Root runs \<^verbatim>\<open>ls\<close> in the stratum \<^verbatim>\<open>arch\<close> for the user 1000; the holder is there and every call succeeds.\<close>

definition ex_run_env :: run_env where
  "ex_run_env = \<lparr>rv_ok = \<lambda>l c. True, rv_stat = \<lambda>l p. Some DirFile, rv_lstat = \<lambda>l p. None, rv_read = \<lambda>l p. Some ''7'',
     rv_access = \<lambda>l p. False, rv_alive = \<lambda>l p. True, rv_holder_pid = 7, rv_euid = 0, rv_uid = 0, rv_gid = 0,
     rv_env = [''SUDO_UID'' \<mapsto> ''1000'', ''SUDO_GID'' \<mapsto> ''100''], rv_passwd = \<lambda>u. None, rv_pipe = True,
     rv_wait = \<lambda>l. Some (WExited 0), rv_capture = \<lambda>l. True, rv_output = \<lambda>l. None, rv_dir = \<lambda>l p. None, rv_sha256 = \<lambda>l p. None, rv_times = \<lambda>l p. None,
     rv_cwd = None, rv_reply = \<lambda>l q. None, rv_effect = \<lambda>l s. s\<rparr>"

definition ex_run_stratum :: salt_stratum where
  "ex_run_stratum = \<lparr>sm_name = ''arch'', sm_family = ''arch'', sm_arch = [], sm_root = ''/strata/arch'', sm_package_manager = ''pacman'',
     sm_bootstrap = [], sm_trust = [], sm_state = [], sm_graphics = False, sm_audio = False, sm_dbus = False, sm_created = 0\<rparr>"

lemmas run_simps = rbind_def rseq_def rask_def rret_def rcall_def rmust_def rtry_def rwhen_def Let_def

lemma ex_ids: "c_atol ''7'' = 7" "c_atol ''1000'' = 1000" "c_atol ''100'' = 100"
  by code_simp+

lemma ex_holder: "salt_run_ensure_holder ex_run_stratum ex_run_env l = (Value 7, l)"
  by (simp add: salt_run_ensure_holder_def run_simps salt_run_read_holder_def salt_run_holder_alive_def ex_run_env_def parse_pid_def
      c_str_def ex_ids c_int_def)

lemma ex_namespace: "child_namespace ex_run_stratum salt_run_opts_default ex_run_env l = (Value False, l @ [Did Child (JoinMounts 7) True])"
  by (simp add: child_namespace_def run_simps ex_holder) (simp add: ex_run_env_def)

lemma ex_plan: "plan_drop False salt_run_opts_default (rv_env ex_run_env) = \<lparr>dp_drop = True, dp_uid = 1000, dp_gid = 100, dp_keep_root = False\<rparr>"
  by (simp add: plan_drop_def salt_run_opts_default_def nonempty_def sudo_drop_def ex_run_env_def ex_ids)

lemma ex_execs: "\<exists>env. Did Child (Exec [''ls''] env) True \<in> set (snd (salt_stratum_run ex_run_env ex_run_stratum (Some salt_run_opts_default) [''ls''] []))"
proof -
  have ok: "rv_ok ex_run_env l c" for l c by (simp add: ex_run_env_def)
  have "\<exists>env l'. salt_run_child ex_run_stratum salt_run_opts_default [''ls''] ex_run_env l = (Becomes, l' @ [Did Child (Exec [''ls''] env) True])" for l
    unfolding salt_run_child_def child_place_def child_drop_def child_exec_def child_chdir_def child_workdir_def
    by (simp add: run_simps ex_namespace ex_plan ok)
  then obtain env l' where c: "salt_run_child ex_run_stratum salt_run_opts_default [''ls''] ex_run_env [Did Caller Fork True] =
      (Becomes, l' @ [Did Child (Exec [''ls''] env) True])" by blast
  show ?thesis
    by (rule exI [of _ env])
      (simp add: salt_stratum_run_def ok Let_def c child_status_def, simp add: ex_run_env_def ex_run_stratum_def)
qed


end
