(* ===== verification/Salt_Foreign.thy ===== *)
theory Salt_Foreign
  imports Salt_Run
begin

text \<open>
  The package managers of the strata (\<^verbatim>\<open>src/halite/src/run.c\<close>, second half): the command lines of the managers, the list of installed
  packages, their digests and the installation of exact versions.  A text is a list of bytes; a line is copied into a buffer and read
  as a C string (\<open>c_str\<close>).  A manager is named by its string, as in the code.  A pointer that may be \<^verbatim>\<open>NULL\<close> is an option.
\<close>

record salt_foreign_pkg =
  fp_name :: string
  fp_version :: string
  fp_digest :: "string option"

abbreviation TAB :: char where "TAB \<equiv> CHR 0x09"

section \<open>Managers and their command lines\<close>

definition kind_of :: "string \<Rightarrow> string option" where
  "kind_of v =
     (if v \<in> {''pacman'', ''arch''} then Some ''pacman''
      else if v \<in> {''apt'', ''apt-get'', ''debian'', ''ubuntu''} then Some ''apt''
      else if v \<in> {''xbps'', ''void''} then Some ''xbps''
      else if v \<in> {''apk'', ''alpine''} then Some ''apk''
      else if v \<in> {''dnf'', ''yum'', ''fedora'', ''rhel'', ''centos'', ''rocky'', ''almalinux''} then Some ''dnf''
      else if v \<in> {''zypper'', ''opensuse'', ''suse'', ''sles''} then Some ''zypper''
      else None)"

definition salt_pkg_kind :: "salt_stratum \<Rightarrow> string option" where
  "salt_pkg_kind st = (case kind_of (sm_package_manager st) of Some k \<Rightarrow> Some k | None \<Rightarrow> kind_of (sm_family st))"

definition salt_stratum_pkg_kind :: "salt_stratum \<Rightarrow> string option" where
  "salt_stratum_pkg_kind st = salt_pkg_kind st"

text \<open>The command of an operation and whether the packages are appended; \<open>None\<close> for an operation that is not known.\<close>

definition pacman_op :: "string \<Rightarrow> (string list \<times> bool) option" where
  "pacman_op op =
     (if op = ''install'' then Some ([''pacman'', ''-S'', ''--needed'', ''--noconfirm''], True)
      else if op = ''remove'' then Some ([''pacman'', ''-Rns'', ''--noconfirm''], True)
      else if op = ''update'' then Some ([''pacman'', ''-Syu'', ''--noconfirm''], True)
      else if op = ''search'' then Some ([''pacman'', ''-Ss''], True)
      else None)"

definition dnf_op :: "string \<Rightarrow> (string list \<times> bool) option" where
  "dnf_op op =
     (if op = ''install'' then Some ([''dnf'', ''install'', ''-y''], True)
      else if op = ''remove'' then Some ([''dnf'', ''remove'', ''-y''], True)
      else if op = ''update'' then Some ([''dnf'', ''upgrade'', ''-y''], False)
      else if op = ''search'' then Some ([''dnf'', ''search''], True)
      else None)"

definition zypper_op :: "string \<Rightarrow> (string list \<times> bool) option" where
  "zypper_op op =
     (if op = ''install'' then Some ([''zypper'', ''-n'', ''install''], True)
      else if op = ''remove'' then Some ([''zypper'', ''-n'', ''remove''], True)
      else if op = ''update'' then Some ([''zypper'', ''-n'', ''update''], False)
      else if op = ''search'' then Some ([''zypper'', ''-n'', ''search''], True)
      else None)"

definition apt_op :: "string \<Rightarrow> (string list \<times> bool) option" where
  "apt_op op =
     (if op = ''install'' then Some ([''apt-get'', ''install'', ''-y''], True)
      else if op = ''remove'' then Some ([''apt-get'', ''remove'', ''-y''], True)
      else if op = ''update'' then Some ([''sh'', ''-c'', ''apt-get update && apt-get dist-upgrade -y''], False)
      else if op = ''search'' then Some ([''apt-cache'', ''search''], True)
      else None)"

definition apk_op :: "string \<Rightarrow> (string list \<times> bool) option" where
  "apk_op op =
     (if op = ''install'' then Some ([''apk'', ''add''], True)
      else if op = ''remove'' then Some ([''apk'', ''del''], True)
      else if op = ''update'' then Some ([''apk'', ''upgrade'', ''-U''], False)
      else if op = ''search'' then Some ([''apk'', ''search'', ''-v''], True)
      else None)"

definition xbps_op :: "string \<Rightarrow> (string list \<times> bool) option" where
  "xbps_op op =
     (if op = ''install'' then Some ([''xbps-install'', ''-Sy''], True)
      else if op = ''remove'' then Some ([''xbps-remove'', ''-Ry''], True)
      else if op = ''update'' then Some ([''xbps-install'', ''-Suy''], True)
      else if op = ''search'' then Some ([''xbps-query'', ''-Rs''], True)
      else None)"

definition pkg_argv :: "string \<Rightarrow> string \<Rightarrow> string list \<Rightarrow> string list" where
  "pkg_argv kind op pkgs =
     (let (pm, r) = (if kind = ''pacman'' then (''pacman'', pacman_op op)
                     else if kind = ''dnf'' then (''dnf'', dnf_op op)
                     else if kind = ''zypper'' then (''zypper'', zypper_op op)
                     else if kind = ''apt'' then (''apt-get'', apt_op op)
                     else if kind = ''apk'' then (''apk'', apk_op op)
                     else (''xbps-install'', xbps_op op))
      in case r of Some (base, app) \<Rightarrow> base @ (if app then pkgs else []) | None \<Rightarrow> [pm, op] @ pkgs)"

definition root_opts :: "bool \<Rightarrow> salt_run_opts" where
  "root_opts interactive = \<lparr>ro_graphics = False, ro_interactive = interactive, ro_user = Some ''root'', ro_workdir = Some ''/''\<rparr>"

definition salt_stratum_pkg :: "run_env \<Rightarrow> salt_stratum \<Rightarrow> string \<Rightarrow> string list \<Rightarrow> rlog \<Rightarrow> (salt_rc \<times> int) \<times> rlog" where
  "salt_stratum_pkg v st op pkgs l =
     (if op = [] then ((SALT_ERR, -1), l)
      else case salt_pkg_kind st of
             None \<Rightarrow> ((SALT_ERR, -1), l)
           | Some kind \<Rightarrow> salt_stratum_run v st (Some (root_opts True)) (pkg_argv kind op pkgs) l)"

section \<open>Lists of packages\<close>

definition salt_foreign_pkg_list_push :: "string \<Rightarrow> string \<Rightarrow> salt_foreign_pkg list \<Rightarrow> salt_foreign_pkg list" where
  "salt_foreign_pkg_list_push name version out = out @ [\<lparr>fp_name = name, fp_version = version, fp_digest = None\<rparr>]"

definition salt_foreign_pkg_list_find :: "salt_foreign_pkg list \<Rightarrow> string \<Rightarrow> salt_foreign_pkg option" where
  "salt_foreign_pkg_list_find out name = find (\<lambda>p. fp_name p = name) out"

definition foreign_pkg_cmp :: "salt_foreign_pkg \<Rightarrow> salt_foreign_pkg \<Rightarrow> int" where
  "foreign_pkg_cmp a b = c_strcmp (fp_name a) (fp_name b)"

text \<open>The pointer \<^verbatim>\<open>cut\<close> moves back from the end of the token to a dash, or to its start.\<close>

primrec scan_dash :: "string \<Rightarrow> nat \<Rightarrow> nat" where
  "scan_dash tok 0 = 0"
| "scan_dash tok (Suc k) = (if Suc k < length tok \<and> tok ! Suc k = CHR ''-'' then Suc k else scan_dash tok k)"

primrec split_cut :: "string \<Rightarrow> nat \<Rightarrow> nat \<Rightarrow> nat option" where
  "split_cut tok 0 pos = Some pos"
| "split_cut tok (Suc n) pos =
     (let c = scan_dash tok pos in if c = 0 then None else split_cut tok n (if n = 0 then c else c - 1))"

definition split_trailing :: "string \<Rightarrow> nat \<Rightarrow> (string \<times> string) option" where
  "split_trailing tok ndash =
     (case split_cut tok ndash (length tok) of
        None \<Rightarrow> None
      | Some c \<Rightarrow> if c = 0 then None else Some (take c tok, drop (Suc c) tok))"

text \<open>\<^verbatim>\<open>strchr (line, c)\<close>: what is in front of the character and behind it.\<close>

definition cut_at :: "char \<Rightarrow> string \<Rightarrow> (string \<times> string) option" where
  "cut_at c line = (case find_char c line of None \<Rightarrow> None | Some i \<Rightarrow> Some (take i line, drop (Suc i) line))"

datatype pkg_line = Malformed | Skipped | Listed string string

definition cut_two :: "string \<Rightarrow> (string \<times> string \<times> string) option" where
  "cut_two line = (case cut_at TAB line of
     None \<Rightarrow> None
   | Some (a, r) \<Rightarrow> (case cut_at TAB r of None \<Rightarrow> None | Some (b, c) \<Rightarrow> Some (a, b, c)))"

definition foreign_line :: "string \<Rightarrow> string \<Rightarrow> pkg_line" where
  "foreign_line kind line =
     (if kind = ''pacman'' then
        (case cut_at CHR '' '' line of None \<Rightarrow> Malformed | Some (n, v) \<Rightarrow> Listed n v)
      else if kind = ''apt'' then
        (case cut_two line of None \<Rightarrow> Malformed | Some (s, n, v) \<Rightarrow> if s = ''installed'' then Listed n v else Skipped)
      else if kind = ''apk'' then
        (if starts_with line ''WARNING'' then Skipped
         else case split_trailing line 2 of None \<Rightarrow> Malformed | Some (n, v) \<Rightarrow> Listed n v)
      else if kind = ''dnf'' \<or> kind = ''zypper'' then
        (case cut_at TAB line of None \<Rightarrow> Malformed | Some (n, v) \<Rightarrow> if n \<noteq> ''gpg-pubkey'' then Listed n v else Skipped)
      else if kind = ''xbps'' then
        (if length line < 3 \<or> line ! 0 \<noteq> CHR ''i'' \<or> line ! 2 \<noteq> CHR '' '' then Skipped
         else let tok = takeWhile (\<lambda>c. c \<noteq> CHR '' '') (dropWhile (\<lambda>c. c = CHR '' '') (drop 3 line))
              in case split_trailing tok 1 of None \<Rightarrow> Malformed | Some (n, v) \<Rightarrow> Listed n v)
      else Malformed)"

definition rstrip :: "string \<Rightarrow> string" where
  "rstrip l = strip_back (\<lambda>c. c = CHR 0x0D \<or> c = CHR '' '') l"

definition parse_pkg_line :: "string \<Rightarrow> string \<Rightarrow> salt_foreign_pkg list \<Rightarrow> salt_rc \<times> salt_foreign_pkg list" where
  "parse_pkg_line kind raw out =
     (if rstrip raw = [] then (SALT_OK, out)
      else case foreign_line kind (c_str (rstrip raw)) of
             Malformed \<Rightarrow> (SALT_ERR, out)
           | Skipped \<Rightarrow> (SALT_OK, out)
           | Listed n v \<Rightarrow> (SALT_OK, salt_foreign_pkg_list_push n v out))"

definition salt_foreign_pkg_parse :: "string \<Rightarrow> string \<Rightarrow> salt_foreign_pkg list \<Rightarrow> salt_rc \<times> salt_foreign_pkg list" where
  "salt_foreign_pkg_parse kind input out =
     and_then (rc_fold (parse_pkg_line kind) (split_on CHR 0x0A input) out)
       (\<lambda>out1. (SALT_OK, if length out1 > 1 then sort_by foreign_pkg_cmp out1 else out1))"

definition salt_foreign_pkg_spec :: "string \<Rightarrow> string \<Rightarrow> string \<Rightarrow> string option" where
  "salt_foreign_pkg_spec kind name version =
     (if name = [] \<or> version = [] then None
      else if kind = ''apt'' \<or> kind = ''apk'' \<or> kind = ''zypper'' then Some (name @ ''='' @ version)
      else if kind = ''dnf'' \<or> kind = ''xbps'' then Some (name @ ''-'' @ version)
      else None)"

section \<open>Asking a stratum\<close>

definition pkg_run :: "run_env \<Rightarrow> salt_stratum \<Rightarrow> string list \<Rightarrow> rlog \<Rightarrow> (salt_rc \<times> int) \<times> rlog" where
  "pkg_run v st argv l = salt_stratum_run v st (Some (root_opts False)) argv l"

definition pkg_run_capture :: "run_env \<Rightarrow> salt_stratum \<Rightarrow> string list \<Rightarrow> rlog \<Rightarrow> (salt_rc \<times> int \<times> string) \<times> rlog" where
  "pkg_run_capture v st argv l =
     (if \<not> rv_capture v l then ((SALT_ERR, -1, []), l)
      else let ((rc, status), l1) = pkg_run v st argv l
           in if rc \<noteq> SALT_OK then ((rc, status, []), l1)
              else case rv_output v l1 of
                     None \<Rightarrow> ((SALT_ERR, status, []), l1)
                   | Some t \<Rightarrow> ((SALT_OK, status, t), l1))"

definition query_argv :: "string \<Rightarrow> string list" where
  "query_argv kind =
     (if kind = ''pacman'' then [''pacman'', ''-Q'']
      else if kind = ''apt'' then
        [''dpkg-query'', ''-W'', ''--showformat=${db:Status-Status}'' @ [TAB] @ ''${Package}'' @ [TAB] @ ''${Version}'' @ [CHR 0x0A]]
      else if kind = ''apk'' then [''apk'', ''info'', ''-v'']
      else if kind = ''xbps'' then [''xbps-query'', ''-l'']
      else [''rpm'', ''-qa'', ''--qf'', ''%{NAME}'' @ [CHR 0x5C] @ ''t%{EVR}'' @ [CHR 0x5C] @ ''n''])"

definition salt_stratum_pkg_query :: "run_env \<Rightarrow> salt_stratum \<Rightarrow> salt_foreign_pkg list \<Rightarrow> rlog \<Rightarrow> (salt_rc \<times> salt_foreign_pkg list) \<times> rlog" where
  "salt_stratum_pkg_query v st out l =
     (case salt_stratum_pkg_kind st of
        None \<Rightarrow> ((SALT_ERR, out), l)
      | Some kind \<Rightarrow>
          (let ((rc, status, t), l1) = pkg_run_capture v st (query_argv kind) l
           in if rc \<noteq> SALT_OK then ((rc, out), l1)
              else if status \<noteq> 0 then ((SALT_ERR, out), l1)
              else (salt_foreign_pkg_parse kind t out, l1)))"

section \<open>Digests\<close>

fun update_first :: "('a \<Rightarrow> bool) \<Rightarrow> ('a \<Rightarrow> 'a) \<Rightarrow> 'a list \<Rightarrow> 'a list" where
  "update_first p f [] = []"
| "update_first p f (x # xs) = (if p x then f x # xs else x # update_first p f xs)"

definition salt_foreign_pkg_set_digest :: "string \<Rightarrow> salt_foreign_pkg \<Rightarrow> salt_foreign_pkg" where
  "salt_foreign_pkg_set_digest d p = p\<lparr>fp_digest := Some d\<rparr>"

definition digest_prefixed :: "string \<Rightarrow> string \<Rightarrow> string" where
  "digest_prefixed pfx val = pfx @ '':'' @ val"

definition digests_complete :: "salt_foreign_pkg list \<Rightarrow> salt_rc" where
  "digests_complete out = (if list_all (\<lambda>p. fp_digest p \<noteq> None) out then SALT_OK else SALT_ERR)"

definition hex_valid :: "string \<Rightarrow> bool" where
  "hex_valid s \<longleftrightarrow> length s = SALT_SHA256_HEXLEN \<and>
     list_all (\<lambda>c. isdigit c \<or> (97 \<le> (of_char c :: nat) \<and> (of_char c :: nat) \<le> 102)) s"

text \<open>
  The first package of the name gets the digest if it has the version (\<^verbatim>\<open>foreign_pkg_find_mut\<close> and what follows it); \<open>None\<close> stands for a
  digest that is refused.
\<close>

definition attach :: "string \<Rightarrow> string \<Rightarrow> string option \<Rightarrow> salt_foreign_pkg list \<Rightarrow> salt_rc \<times> salt_foreign_pkg list" where
  "attach name version digest out =
     (case salt_foreign_pkg_list_find out name of
        None \<Rightarrow> (SALT_OK, out)
      | Some f \<Rightarrow>
          if fp_version f \<noteq> version then (SALT_OK, out)
          else (case digest of
                  None \<Rightarrow> (SALT_ERR, out)
                | Some d \<Rightarrow> (SALT_OK, update_first (\<lambda>p. fp_name p = name) (salt_foreign_pkg_set_digest d) out)))"

definition hex_digest :: "string \<Rightarrow> string \<Rightarrow> string option" where
  "hex_digest pfx h = (if hex_valid h then Some (digest_prefixed pfx h) else None)"

definition rpm_digest_line :: "string \<Rightarrow> salt_foreign_pkg list \<Rightarrow> salt_rc \<times> salt_foreign_pkg list" where
  "rpm_digest_line raw out =
     (if rstrip raw = [] then (SALT_OK, out)
      else case cut_two (c_str (rstrip raw)) of
             None \<Rightarrow> (SALT_ERR, out)
           | Some (n, v, h) \<Rightarrow> attach n v (hex_digest ''rpm-sha256header'' h) out)"

definition xbps_digest_line :: "string \<Rightarrow> salt_foreign_pkg list \<Rightarrow> salt_rc \<times> salt_foreign_pkg list" where
  "xbps_digest_line raw out =
     (if rstrip raw = [] then (SALT_OK, out)
      else case cut_at TAB (c_str (rstrip raw)) of
             None \<Rightarrow> (SALT_ERR, out)
           | Some (pv, h) \<Rightarrow>
               (case rfind_char CHR ''-'' pv of
                  None \<Rightarrow> (SALT_ERR, out)
                | Some i \<Rightarrow> if i = 0 then (SALT_ERR, out)
                           else attach (take i pv) (drop (Suc i) pv) (hex_digest ''sha256'' h) out))"

record apk_acc =
  ak_name :: "string option"
  ak_ver :: "string option"
  ak_sum :: "string option"

definition apk_none :: apk_acc where
  "apk_none = \<lparr>ak_name = None, ak_ver = None, ak_sum = None\<rparr>"

definition apk_digest_line :: "string \<Rightarrow> apk_acc \<times> salt_foreign_pkg list \<Rightarrow> salt_rc \<times> apk_acc \<times> salt_foreign_pkg list" where
  "apk_digest_line raw s =
     (let (a, out) = s; line = rstrip raw in
      if line = [] then
        (case (ak_name a, ak_ver a, ak_sum a) of
           (Some n, Some v, Some c) \<Rightarrow>
             (let (rc, out1) = attach n v (Some (digest_prefixed ''apk-checksum'' c)) out in (rc, apk_none, out1))
         | (Some n, _, _) \<Rightarrow> (SALT_ERR, apk_none, out)
         | _ \<Rightarrow> (SALT_OK, apk_none, out))
      else if length line \<ge> 2 \<and> line ! 1 = CHR '':'' then
        (let t = Some (c_str (drop 2 line)) in
         if line ! 0 = CHR ''P'' then (SALT_OK, a\<lparr>ak_name := t\<rparr>, out)
         else if line ! 0 = CHR ''V'' then (SALT_OK, a\<lparr>ak_ver := t\<rparr>, out)
         else if line ! 0 = CHR ''C'' then (SALT_OK, a\<lparr>ak_sum := t\<rparr>, out)
         else (SALT_OK, a, out))
      else (SALT_OK, a, out))"

definition salt_foreign_pkg_parse_digests :: "string \<Rightarrow> string \<Rightarrow> salt_foreign_pkg list \<Rightarrow> salt_rc \<times> salt_foreign_pkg list" where
  "salt_foreign_pkg_parse_digests kind input out =
     (let ls = split_on CHR 0x0A input in
      if kind = ''apk'' then
        (let (rc, _, out1) = rc_fold apk_digest_line ls (apk_none, out)
         in if rc \<noteq> SALT_OK then (rc, out1) else (digests_complete out1, out1))
      else if kind = ''dnf'' \<or> kind = ''zypper'' then
        and_then (rc_fold rpm_digest_line ls out) (\<lambda>out1. (digests_complete out1, out1))
      else if kind = ''xbps'' then
        and_then (rc_fold xbps_digest_line ls out) (\<lambda>out1. (digests_complete out1, out1))
      else (SALT_ERR, out))"

definition digest_host_file :: "run_env \<Rightarrow> rlog \<Rightarrow> salt_stratum \<Rightarrow> string \<Rightarrow> string \<Rightarrow> salt_foreign_pkg \<Rightarrow> salt_foreign_pkg option" where
  "digest_host_file v l st rel pfx p =
     map_option (\<lambda>hex. salt_foreign_pkg_set_digest (digest_prefixed pfx hex) p) (rv_sha256 v l (salt_join_path (sm_root st) rel))"

definition dpkg_info_file :: "run_env \<Rightarrow> rlog \<Rightarrow> salt_stratum \<Rightarrow> string \<Rightarrow> string \<Rightarrow> string option" where
  "dpkg_info_file v l st name ext =
     (let info = ''var/lib/dpkg/info'' in
      if rv_stat v l (sm_root st @ ''/'' @ info @ ''/'' @ name @ ext) \<noteq> None then Some (info @ ''/'' @ name @ ext)
      else case rv_dir v l (sm_root st @ ''/'' @ info) of
             None \<Rightarrow> None
           | Some es \<Rightarrow>
               map_option (\<lambda>e. info @ ''/'' @ e)
                 (find (\<lambda>e. length e > length name + length ext \<and> starts_with e name \<and> e ! length name = CHR '':'' \<and>
                    ends_with e ext \<and>
                    CHR ''.'' \<notin> set (take (length e - length name - 1 - length ext) (drop (length name + 1) e))) es))"

text \<open>A loop that gives every package its digest, or stops at the first without one; those before it have theirs.\<close>

fun digest_all :: "(salt_foreign_pkg \<Rightarrow> salt_foreign_pkg option) \<Rightarrow> salt_foreign_pkg list \<Rightarrow> salt_rc \<times> salt_foreign_pkg list" where
  "digest_all f [] = (SALT_OK, [])"
| "digest_all f (p # ps) =
     (case f p of
        None \<Rightarrow> (SALT_ERR, p # ps)
      | Some q \<Rightarrow> (let (rc, qs) = digest_all f ps in (rc, q # qs)))"

definition pacman_digest :: "run_env \<Rightarrow> rlog \<Rightarrow> salt_stratum \<Rightarrow> salt_foreign_pkg \<Rightarrow> salt_foreign_pkg option" where
  "pacman_digest v l st p =
     digest_host_file v l st (''var/lib/pacman/local/'' @ fp_name p @ ''-'' @ fp_version p @ ''/mtree'') ''pacman-mtree-sha256'' p"

definition apt_digest :: "run_env \<Rightarrow> rlog \<Rightarrow> salt_stratum \<Rightarrow> salt_foreign_pkg \<Rightarrow> salt_foreign_pkg option" where
  "apt_digest v l st p =
     (case dpkg_info_file v l st (fp_name p) ''.md5sums'' of
        Some rel \<Rightarrow> digest_host_file v l st rel ''dpkg-md5sums-sha256'' p
      | None \<Rightarrow>
          (case dpkg_info_file v l st (fp_name p) ''.list'' of
             Some rel \<Rightarrow> digest_host_file v l st rel ''dpkg-list-sha256'' p
           | None \<Rightarrow> None))"

definition digests_argv :: "string \<Rightarrow> string list" where
  "digests_argv kind =
     (if kind = ''xbps'' then
        [''sh'', ''-c'',
         ''set -e; xbps-query -l | while read -r st pv rest; do printf '' @ [CHR 0x27] @ ''%s'' @ [CHR 0x5C] @ ''t%s'' @ [CHR 0x5C] @ ''n'' @ [CHR 0x27] @
         '' '' @ [CHR 0x22] @ ''$pv'' @ [CHR 0x22] @ '' '' @ [CHR 0x22] @ ''$(xbps-query -p filename-sha256 '' @ [CHR 0x22] @ ''$pv'' @ [CHR 0x22] @ '')'' @
         [CHR 0x22] @ ''; done'']
      else [''rpm'', ''-qa'', ''--qf'',
         ''%{NAME}'' @ [CHR 0x5C] @ ''t%{EVR}'' @ [CHR 0x5C] @ ''t%{SHA256HEADER}'' @ [CHR 0x5C] @ ''n''])"

definition salt_stratum_pkg_digests :: "run_env \<Rightarrow> salt_stratum \<Rightarrow> salt_foreign_pkg list \<Rightarrow> rlog \<Rightarrow> (salt_rc \<times> salt_foreign_pkg list) \<times> rlog" where
  "salt_stratum_pkg_digests v st out l =
     (case salt_stratum_pkg_kind st of
        None \<Rightarrow> ((SALT_ERR, out), l)
      | Some kind \<Rightarrow>
          if kind = ''pacman'' then (digest_all (pacman_digest v l st) out, l)
          else if kind = ''apt'' then (digest_all (apt_digest v l st) out, l)
          else if kind = ''apk'' then
            (case rv_read v l (salt_join_path (sm_root st) ''lib/apk/db/installed'') of
               None \<Rightarrow> ((SALT_ERR_IO, out), l)
             | Some t \<Rightarrow> (salt_foreign_pkg_parse_digests kind t out, l))
          else
            (let ((rc, status, t), l1) = pkg_run_capture v st (digests_argv kind) l
             in if rc \<noteq> SALT_OK then ((rc, out), l1)
                else if status \<noteq> 0 then ((SALT_ERR, out), l1)
                else (salt_foreign_pkg_parse_digests kind t out, l1)))"

section \<open>Exact versions\<close>

definition pacman_artifact :: "salt_foreign_pkg \<Rightarrow> string \<Rightarrow> bool" where
  "pacman_artifact p e \<longleftrightarrow>
     (let pfx = fp_name p @ ''-'' @ fp_version p @ ''-'' in
      starts_with e pfx \<and> has_substring e ''.pkg.tar'' \<and> \<not> (length e \<ge> 4 \<and> ends_with e ''.sig'') \<and>
      CHR ''-'' \<notin> set (drop (length pfx) e))"

definition pacman_cached_artifact :: "run_env \<Rightarrow> rlog \<Rightarrow> salt_stratum \<Rightarrow> salt_foreign_pkg \<Rightarrow> string option" where
  "pacman_cached_artifact v l st p =
     (case rv_dir v l (sm_root st @ ''/var/cache/pacman/pkg'') of
        None \<Rightarrow> None
      | Some es \<Rightarrow> map_option (\<lambda>e. ''/var/cache/pacman/pkg/'' @ e) (find (pacman_artifact p) es))"

definition exact_base :: "string \<Rightarrow> string list" where
  "exact_base kind =
     (if kind = ''pacman'' then [''pacman'', ''-U'', ''--noconfirm'']
      else if kind = ''apt'' then [''apt-get'', ''install'', ''-y'', ''--allow-downgrades'']
      else if kind = ''apk'' then [''apk'', ''add'']
      else if kind = ''dnf'' then [''dnf'', ''install'', ''-y'']
      else if kind = ''zypper'' then [''zypper'', ''-n'', ''install'', ''--oldpackage'']
      else [''xbps-install'', ''-Sy''])"

definition exact_spec :: "run_env \<Rightarrow> rlog \<Rightarrow> salt_stratum \<Rightarrow> string \<Rightarrow> salt_foreign_pkg \<Rightarrow> string option" where
  "exact_spec v l st kind p =
     (if kind = ''pacman'' then pacman_cached_artifact v l st p else salt_foreign_pkg_spec kind (fp_name p) (fp_version p))"

definition salt_stratum_pkg_install_exact :: "run_env \<Rightarrow> salt_stratum \<Rightarrow> salt_foreign_pkg list \<Rightarrow> rlog \<Rightarrow> (salt_rc \<times> int) \<times> rlog" where
  "salt_stratum_pkg_install_exact v st pkgs l =
     (case salt_stratum_pkg_kind st of
        None \<Rightarrow> ((SALT_ERR, -1), l)
      | Some kind \<Rightarrow>
          if pkgs = [] then ((SALT_OK, 0), l)
          else let specs = map (exact_spec v l st kind) pkgs
               in if None \<in> set specs then ((SALT_ERR, -1), l)
                  else pkg_run v st (exact_base kind @ map the specs) l)"

end
