(* ===== verification/Salt_Pins.thy ===== *)
theory Salt_Pins
  imports Salt_Foreign
begin

text \<open>
  What the lists and digests of foreign packages are worth: the list of a package manager is read as it was printed, sorted; a digest
  that is attached to a package was printed for exactly this name and version.
\<close>

section \<open>Lists as the managers print them\<close>

definition plain_word :: "string \<Rightarrow> bool" where
  "plain_word s \<longleftrightarrow> s \<noteq> [] \<and> set s \<inter> {CHR 0x00, CHR 0x0A, CHR 0x0D, TAB, CHR '' ''} = {}"

definition plain_pkg :: "string \<Rightarrow> salt_foreign_pkg \<Rightarrow> bool" where
  "plain_pkg kind p \<longleftrightarrow> plain_word (fp_name p) \<and> plain_word (fp_version p) \<and> fp_digest p = None \<and>
     (kind = ''apk'' \<longrightarrow> \<not> starts_with (fp_name p @ ''-'' @ fp_version p) ''WARNING'' \<and>
        (\<exists>a b. fp_version p = a @ ''-'' @ b \<and> CHR ''-'' \<notin> set a \<and> CHR ''-'' \<notin> set b)) \<and>
     (kind = ''xbps'' \<longrightarrow> CHR ''-'' \<notin> set (fp_version p)) \<and>
     (kind = ''dnf'' \<or> kind = ''zypper'' \<longrightarrow> fp_name p \<noteq> ''gpg-pubkey'')"

definition pkg_row :: "string \<Rightarrow> string \<Rightarrow> salt_foreign_pkg \<Rightarrow> string" where
  "pkg_row kind summary p =
     (if kind = ''pacman'' then fp_name p @ '' '' @ fp_version p
      else if kind = ''apt'' then ''installed'' @ TAB # fp_name p @ TAB # fp_version p
      else if kind = ''apk'' then fp_name p @ ''-'' @ fp_version p
      else if kind = ''xbps'' then ''ii '' @ fp_name p @ ''-'' @ fp_version p @ '' '' @ summary
      else fp_name p @ TAB # fp_version p)"

lemma cut_at_append: "c \<notin> set a \<Longrightarrow> cut_at c (a @ c # b) = Some (a, b)"
proof -
  assume "c \<notin> set a"
  then have "find_char c (a @ c # b) = Some (length a)" by (induction a) auto
  then show ?thesis by (simp add: cut_at_def)
qed

lemma scan_dash_eq:
  assumes "0 < i" "i \<le> k" "i < length tok" "tok ! i = CHR ''-''" "\<And>j. i < j \<Longrightarrow> j \<le> k \<Longrightarrow> j < length tok \<Longrightarrow> tok ! j \<noteq> CHR ''-''"
  shows "scan_dash tok k = i"
  using assms
proof (induction k)
  case (Suc k)
  show ?case
  proof (cases "i = Suc k")
    case False
    then have "\<not> (Suc k < length tok \<and> tok ! Suc k = CHR ''-'')" using Suc.prems(2,5) by auto
    moreover have "scan_dash tok k = i" using Suc False by auto
    ultimately show ?thesis by (simp only: scan_dash.simps if_False)
  qed (use Suc.prems in simp)
qed simp

lemma scan_dash_last:
  assumes "a \<noteq> []" "CHR ''-'' \<notin> set b" "length a \<le> k" "k \<le> length a + length b \<or> c = []"
  shows "scan_dash (a @ CHR ''-'' # b @ c) k = length a"
proof (rule scan_dash_eq)
  fix j assume j: "length a < j" "j \<le> k" "j < length (a @ CHR ''-'' # b @ c)"
  then have "(a @ CHR ''-'' # b @ c) ! j = (b @ c) ! (j - Suc (length a))" by (simp add: nth_append nth_Cons')
  also have "\<dots> = b ! (j - Suc (length a))" using j assms(4) by (auto simp: nth_append)
  also have "\<dots> \<in> set b" using j assms(4) by (intro nth_mem) auto
  finally show "(a @ CHR ''-'' # b @ c) ! j \<noteq> CHR ''-''" using assms(2) by metis
qed (use assms in auto)

lemma split_trailing_one: "n \<noteq> [] \<Longrightarrow> CHR ''-'' \<notin> set v \<Longrightarrow> split_trailing (n @ CHR ''-'' # v) 1 = Some (n, v)"
  using scan_dash_last [of n v "length (n @ CHR ''-'' # v)" "[]"] by (simp add: split_trailing_def Let_def)

lemma split_trailing_two:
  assumes "n \<noteq> []" "CHR ''-'' \<notin> set a" "CHR ''-'' \<notin> set b"
  shows "split_trailing (n @ CHR ''-'' # a @ CHR ''-'' # b) 2 = Some (n, a @ CHR ''-'' # b)"
proof -
  let ?t = "n @ CHR ''-'' # a @ CHR ''-'' # b"
  have "scan_dash ?t (length ?t) = length (n @ CHR ''-'' # a)"
    using scan_dash_last [of "n @ CHR ''-'' # a" b "length ?t" "[]"] assms by simp
  moreover have "scan_dash ?t (length n + length a) = length n"
    using scan_dash_last [of n a "length n + length a" "CHR ''-'' # b"] assms by simp
  ultimately have "split_cut ?t 2 (length ?t) = Some (length n)" using assms(1) by (simp add: numeral_2_eq_2 Let_def)
  then show ?thesis using assms(1) by (simp add: split_trailing_def)
qed

lemma rstrip_keeps:
  assumes "a \<noteq> []" "last a \<noteq> CHR 0x0D" "last a \<noteq> CHR '' ''"
  shows "rstrip (a @ b) = a @ rstrip b"
proof (cases "rstrip b = []")
  case True
  then have "\<forall>c\<in>set b. c = CHR 0x0D \<or> c = CHR '' ''" by (simp add: rstrip_def strip_back_def)
  moreover obtain a' c where "a = a' @ [c]" using assms(1) by (cases a rule: rev_cases) auto
  ultimately show ?thesis using True assms by (simp add: rstrip_def strip_back_def dropWhile_append)
next
  case False
  then have "\<not> (\<forall>c\<in>set b. c = CHR 0x0D \<or> c = CHR '' '')" by (simp add: rstrip_def strip_back_def)
  then show ?thesis by (auto simp: rstrip_def strip_back_def dropWhile_append)
qed

lemma rstrip_Nil [simp]: "rstrip [] = []"
  by (simp add: rstrip_def strip_back_def)

lemma rstrip_prefix: "\<exists>t. b = rstrip b @ t"
proof -
  let ?p = "\<lambda>c. c = CHR 0x0D \<or> c = CHR '' ''"
  have "b = rev (takeWhile ?p (rev b) @ dropWhile ?p (rev b))" by simp
  then show ?thesis unfolding rstrip_def strip_back_def by (metis rev_append)
qed

lemma c_str_id: "CHR 0x00 \<notin> set s \<Longrightarrow> c_str s = s"
  by (auto simp: c_str_def takeWhile_eq_all_conv)

lemma plain_last: "plain_word s \<Longrightarrow> s \<noteq> [] \<and> last s \<noteq> CHR 0x0D \<and> last s \<noteq> CHR '' ''"
  unfolding plain_word_def using last_in_set by fastforce

lemma plain_notin: "plain_word s \<Longrightarrow> c \<in> {CHR 0x00, CHR 0x0A, CHR 0x0D, TAB, CHR '' ''} \<Longrightarrow> c \<notin> set s"
  by (auto simp: plain_word_def)

lemma plain_row_tail:
  assumes "plain_word v"
  shows "rstrip (a @ v) = a @ v"
  using rstrip_keeps [of "a @ v" "[]"] plain_last [OF assms] by simp

text \<open>One line of each manager.\<close>

abbreviation kinds :: "string set" where
  "kinds \<equiv> {''pacman'', ''apt'', ''apk'', ''dnf'', ''zypper'', ''xbps''}"

lemma row_xbps:
  assumes p: "plain_word n" "plain_word v" "CHR ''-'' \<notin> set v" and s: "CHR 0x00 \<notin> set summary"
  shows "foreign_line ''xbps'' (c_str (rstrip (''ii '' @ n @ ''-'' @ v @ '' '' @ summary))) = Listed n v"
proof -
  let ?pv = "n @ CHR ''-'' # v"
  obtain u where u: "rstrip ('' '' @ summary) = u" "u = [] \<or> hd u = CHR '' ''" "set u \<subseteq> insert CHR '' '' (set summary)"
  proof -
    obtain t where t: "'' '' @ summary = rstrip ('' '' @ summary) @ t" using rstrip_prefix by blast
    then have "rstrip ('' '' @ summary) = [] \<or> hd (rstrip ('' '' @ summary)) = CHR '' ''" by (metis append_Cons hd_append2 list.sel(1))
    moreover have "set (rstrip ('' '' @ summary)) \<subseteq> insert CHR '' '' (set summary)"
      using arg_cong [OF t, of set] by auto
    ultimately show ?thesis using that by blast
  qed
  have "rstrip ((''ii '' @ n @ ''-'' @ v) @ '' '' @ summary) = (''ii '' @ n @ ''-'' @ v) @ u"
    using u(1) plain_last [OF p(2)] by (subst rstrip_keeps) simp_all
  moreover have "c_str ((''ii '' @ n @ ''-'' @ v) @ u) = ''ii '' @ ?pv @ u"
    using u(3) s plain_notin [OF p(1), of "CHR 0x00"] plain_notin [OF p(2), of "CHR 0x00"] by (subst c_str_id) auto
  ultimately have line: "c_str (rstrip (''ii '' @ n @ ''-'' @ v @ '' '' @ summary)) = ''ii '' @ ?pv @ u" by simp
  have sp: "CHR '' '' \<notin> set ?pv" using plain_notin [OF p(1), of "CHR '' ''"] plain_notin [OF p(2), of "CHR '' ''"] by auto
  have "dropWhile (\<lambda>c. c = CHR '' '') (?pv @ u) = ?pv @ u" using sp by (cases n) auto
  moreover have "takeWhile (\<lambda>c. c \<noteq> CHR '' '') (?pv @ u) = ?pv" using sp u(2) by (subst takeWhile_append2) (auto, cases u, auto)
  moreover have "split_trailing ?pv 1 = Some (n, v)" using p by (intro split_trailing_one) (auto simp: plain_word_def)
  ultimately show ?thesis unfolding line by (simp add: foreign_line_def Let_def)
qed

lemma row_text:
  assumes "CHR 0x00 \<notin> set a" "plain_word v"
  shows "c_str (rstrip (a @ v)) = a @ v"
  using plain_row_tail [OF assms(2), of a] plain_notin [OF assms(2), of "CHR 0x00"] assms(1) by (simp add: c_str_id)

lemma row_pacman:
  assumes "plain_word n" "plain_word v"
  shows "foreign_line ''pacman'' (c_str (rstrip (n @ '' '' @ v))) = Listed n v"
proof -
  have "c_str (rstrip ((n @ '' '') @ v)) = (n @ '' '') @ v" by (rule row_text) (use assms in \<open>auto simp: plain_word_def\<close>)
  moreover have "cut_at CHR '' '' (n @ CHR '' '' # v) = Some (n, v)" by (rule cut_at_append) (use assms in \<open>auto simp: plain_word_def\<close>)
  ultimately show ?thesis by (simp add: foreign_line_def)
qed

lemma cut_two_append: "TAB \<notin> set a \<Longrightarrow> TAB \<notin> set b \<Longrightarrow> cut_two (a @ TAB # b @ TAB # c) = Some (a, b, c)"
  by (simp add: cut_two_def cut_at_append)

lemma row_apt:
  assumes "plain_word n" "plain_word v"
  shows "foreign_line ''apt'' (c_str (rstrip (''installed'' @ TAB # n @ TAB # v))) = Listed n v"
proof -
  have "c_str (rstrip ((''installed'' @ TAB # n @ [TAB]) @ v)) = (''installed'' @ TAB # n @ [TAB]) @ v"
    by (rule row_text) (use assms in \<open>auto simp: plain_word_def\<close>)
  moreover have "cut_two (''installed'' @ TAB # n @ TAB # v) = Some (''installed'', n, v)"
    by (rule cut_two_append) (use assms in \<open>auto simp: plain_word_def\<close>)
  ultimately show ?thesis by (simp add: foreign_line_def)
qed

lemma row_apk:
  assumes "plain_word n" "plain_word (a @ ''-'' @ b)" "CHR ''-'' \<notin> set a" "CHR ''-'' \<notin> set b" "\<not> starts_with (n @ ''-'' @ a @ ''-'' @ b) ''WARNING''"
  shows "foreign_line ''apk'' (c_str (rstrip (n @ ''-'' @ a @ ''-'' @ b))) = Listed n (a @ ''-'' @ b)"
proof -
  have "c_str (rstrip ((n @ ''-'') @ a @ ''-'' @ b)) = (n @ ''-'') @ a @ ''-'' @ b" by (rule row_text) (use assms in \<open>auto simp: plain_word_def\<close>)
  moreover have "split_trailing (n @ CHR ''-'' # a @ CHR ''-'' # b) 2 = Some (n, a @ CHR ''-'' # b)"
    by (rule split_trailing_two) (use assms in \<open>auto simp: plain_word_def\<close>)
  ultimately show ?thesis using assms(5) by (simp add: foreign_line_def del: starts_with.simps)
qed

lemma row_rpm:
  assumes "plain_word n" "plain_word v" "n \<noteq> ''gpg-pubkey''" "kind = ''dnf'' \<or> kind = ''zypper''"
  shows "foreign_line kind (c_str (rstrip (n @ TAB # v))) = Listed n v"
proof -
  have "c_str (rstrip ((n @ [TAB]) @ v)) = (n @ [TAB]) @ v" by (rule row_text) (use assms in \<open>auto simp: plain_word_def\<close>)
  moreover have "cut_at TAB (n @ TAB # v) = Some (n, v)" by (rule cut_at_append) (use assms in \<open>auto simp: plain_word_def\<close>)
  ultimately show ?thesis using assms(3,4) by (elim disjE) (simp_all add: foreign_line_def)
qed

lemma row_listed:
  assumes "kind \<in> kinds" "plain_pkg kind p" "CHR 0x00 \<notin> set summary"
  shows "foreign_line kind (c_str (rstrip (pkg_row kind summary p))) = Listed (fp_name p) (fp_version p)"
proof -
  have w: "plain_word (fp_name p)" "plain_word (fp_version p)" using assms(2) by (simp_all add: plain_pkg_def)
  have rpm: ?thesis if k: "kind = ''dnf'' \<or> kind = ''zypper''"
  proof -
    have "fp_name p \<noteq> ''gpg-pubkey''" using k assms(2) by (simp add: plain_pkg_def)
    moreover have "pkg_row kind summary p = fp_name p @ TAB # fp_version p" using k by (elim disjE) (simp_all add: pkg_row_def)
    ultimately show ?thesis using row_rpm [OF w _ k] by simp
  qed
  from assms(1) show ?thesis
  proof (elim insertE emptyE)
    assume k: "kind = ''pacman''"
    have "pkg_row ''pacman'' summary p = fp_name p @ '' '' @ fp_version p" by (simp add: pkg_row_def)
    then show ?thesis using row_pacman [OF w] k by simp
  next
    assume k: "kind = ''apt''"
    have "pkg_row ''apt'' summary p = ''installed'' @ TAB # fp_name p @ TAB # fp_version p" by (simp add: pkg_row_def)
    then show ?thesis using row_apt [OF w] k by simp
  next
    assume k: "kind = ''apk''"
    obtain a b where v: "fp_version p = a @ ''-'' @ b" "CHR ''-'' \<notin> set a" "CHR ''-'' \<notin> set b"
        and n: "\<not> starts_with (fp_name p @ ''-'' @ fp_version p) ''WARNING''"
      using assms(2) k by (auto simp: plain_pkg_def)
    have r: "pkg_row ''apk'' summary p = fp_name p @ ''-'' @ a @ ''-'' @ b" by (simp add: pkg_row_def v(1))
    have "plain_word (a @ ''-'' @ b)" using w(2) unfolding v(1) .
    from row_apk [OF w(1) this v(2,3) n [unfolded v(1)]] show ?thesis unfolding k r v(1) .
  next
    assume k: "kind = ''xbps''"
    have "CHR ''-'' \<notin> set (fp_version p)" using assms(2) k by (simp add: plain_pkg_def)
    moreover have "pkg_row ''xbps'' summary p = ''ii '' @ fp_name p @ ''-'' @ fp_version p @ '' '' @ summary" by (simp add: pkg_row_def)
    ultimately show ?thesis using row_xbps [OF w _ assms(3)] k by simp
  qed (rule rpm, simp)+
qed

lemma row_nonempty: "plain_pkg kind p \<Longrightarrow> kind \<in> kinds \<Longrightarrow> CHR 0x00 \<notin> set summary \<Longrightarrow> rstrip (pkg_row kind summary p) \<noteq> []"
proof
  assume a: "plain_pkg kind p" "kind \<in> kinds" "CHR 0x00 \<notin> set summary" "rstrip (pkg_row kind summary p) = []"
  have "foreign_line kind [] = Listed (fp_name p) (fp_version p)" using row_listed [OF a(2,1,3)] a(4) by (simp add: c_str_def)
  then show False using a(1) by (auto simp: foreign_line_def cut_at_def cut_two_def split_trailing_def plain_pkg_def plain_word_def Let_def
    numeral_2_eq_2 split: if_splits)
qed

lemma row_one_line: "plain_pkg kind p \<Longrightarrow> CHR 0x0A \<notin> set summary \<Longrightarrow> CHR 0x0A \<notin> set (pkg_row kind summary p)"
  by (auto simp: pkg_row_def plain_pkg_def plain_word_def)

lemma parse_rows:
  assumes "kind \<in> kinds" "\<forall>p\<in>set ps. plain_pkg kind p \<and> set (summary p) \<inter> {CHR 0x00, CHR 0x0A} = {}"
  shows "rc_fold (parse_pkg_line kind) (split_on CHR 0x0A (concat (map (\<lambda>p. pkg_row kind (summary p) p @ [CHR 0x0A]) ps))) out = (SALT_OK, out @ ps)"
  using assms(2)
proof (induction ps arbitrary: out)
  case Nil
  then show ?case by (simp add: parse_pkg_line_def)
next
  case (Cons p ps)
  let ?row = "pkg_row kind (summary p) p"
  have p: "plain_pkg kind p" "CHR 0x00 \<notin> set (summary p)" "CHR 0x0A \<notin> set (summary p)" using Cons.prems by auto
  have "\<lparr>fp_name = fp_name p, fp_version = fp_version p, fp_digest = None\<rparr> = p" using p(1) by (simp add: plain_pkg_def)
  then have "parse_pkg_line kind ?row out = (SALT_OK, out @ [p])"
    using row_listed [OF assms(1) p(1,2)] row_nonempty [OF p(1) assms(1) p(2)]
    by (simp add: parse_pkg_line_def salt_foreign_pkg_list_push_def)
  then show ?case using Cons.IH [of "out @ [p]"] Cons.prems split_on_notin [OF row_one_line [OF p(1,3)]]
    by (simp add: split_on_append)
qed

lemma sort_by_names: "sort_by foreign_pkg_cmp ps = sort_key fp_name ps"
proof -
  have "insert_by foreign_pkg_cmp p xs = insort_key fp_name p xs" for p xs
  proof (induction xs)
    case (Cons x xs)
    have "foreign_pkg_cmp p x \<le> 0 \<longleftrightarrow> fp_name p \<le> fp_name x"
      unfolding foreign_pkg_cmp_def using c_strcmp_less [of "fp_name p" "fp_name x"] c_strcmp_eq [of "fp_name p" "fp_name x"]
      by (simp only: order.order_iff_strict)
    then show ?case using Cons.IH by simp
  qed simp
  then have "insert_by foreign_pkg_cmp = insort_key fp_name" by (intro ext)
  then show ?thesis by (simp add: sort_by_def sort_key_def)
qed

text \<open>
  C39.  The list of installed packages is read as the package manager prints it: for every manager, parsing the rows of a list of
  packages (names and versions without white space; for \<^verbatim>\<open>apk\<close> a version with one dash, for \<^verbatim>\<open>xbps\<close> without) gives exactly these
  packages, sorted by name, whatever their number, and reports success.
\<close>

theorem foreign_list_round_trip:
  assumes "kind \<in> kinds" "\<forall>p\<in>set ps. plain_pkg kind p \<and> set (summary p) \<inter> {CHR 0x00, CHR 0x0A} = {}"
  shows "salt_foreign_pkg_parse kind (concat (map (\<lambda>p. pkg_row kind (summary p) p @ [CHR 0x0A]) ps)) [] = (SALT_OK, sort_key fp_name ps)"
proof -
  have "sort_key fp_name ps = ps" if "\<not> 1 < length ps" using that by (cases ps) auto
  then show ?thesis using parse_rows [OF assms, of "[]"] by (simp add: salt_foreign_pkg_parse_def sort_by_names)
qed

theorem foreign_list_round_trip_witness:
  "salt_foreign_pkg_parse ''apk''
     (concat (map (\<lambda>p. pkg_row ''apk'' [] p @ [CHR 0x0A])
        [\<lparr>fp_name = ''musl-dev'', fp_version = ''1.2-r4'', fp_digest = None\<rparr>, \<lparr>fp_name = ''busybox'', fp_version = ''1.36-r2'', fp_digest = None\<rparr>])) [] =
   (SALT_OK, sort_key fp_name
        [\<lparr>fp_name = ''musl-dev'', fp_version = ''1.2-r4'', fp_digest = None\<rparr>, \<lparr>fp_name = ''busybox'', fp_version = ''1.36-r2'', fp_digest = None\<rparr>])"
proof -
  have v: "''1.2-r4'' = ''1.2'' @ ''-'' @ ''r4''" "''1.36-r2'' = ''1.36'' @ ''-'' @ ''r2''" by simp_all
  have "plain_pkg ''apk'' \<lparr>fp_name = ''musl-dev'', fp_version = ''1.2-r4'', fp_digest = None\<rparr>"
    unfolding plain_pkg_def by (simp add: plain_word_def) (rule exI [of _ "''1.2''"], rule exI [of _ "''r4''"], simp)
  moreover have "plain_pkg ''apk'' \<lparr>fp_name = ''busybox'', fp_version = ''1.36-r2'', fp_digest = None\<rparr>"
    unfolding plain_pkg_def by (simp add: plain_word_def) (rule exI [of _ "''1.36''"], rule exI [of _ "''r2''"], simp)
  ultimately show ?thesis by (intro foreign_list_round_trip) auto
qed

end
