(* ===== verification/Salt_Digests.thy ===== *)
theory Salt_Digests
  imports Salt_Foreign
begin

text \<open>
  Digests of foreign packages (\<^verbatim>\<open>salt_foreign_pkg_parse_digests\<close>): a digest that is attached to a package was recorded by the manager for
  exactly this name and version, none is left out on success, and two packages of one name are never both given one.
\<close>

lemma find_char_split: "find_char c s = Some i \<Longrightarrow> s = take i s @ c # drop (Suc i) s"
  using find_char_Some [of c s i] by (metis id_take_nth_drop)

lemma cut_at_Some: "cut_at c s = Some (a, b) \<Longrightarrow> s = a @ c # b"
  using find_char_split by (fastforce simp: cut_at_def split: option.splits)

lemma cut_two_Some: "cut_two s = Some (a, b, c) \<Longrightarrow> s = a @ TAB # b @ TAB # c"
  by (auto simp: cut_two_def split: option.splits prod.splits dest!: cut_at_Some)

lemma rfind_char_split: "rfind_char c s = Some i \<Longrightarrow> s = take i s @ c # drop (Suc i) s"
proof (induction s arbitrary: i)
  case (Cons x xs)
  then show ?case by (cases "rfind_char c xs") (auto split: if_splits)
qed simp

section \<open>Attaching a digest\<close>

abbreviation pkg_id :: "salt_foreign_pkg \<Rightarrow> string \<times> string" where
  "pkg_id p \<equiv> (fp_name p, fp_version p)"

lemma set_digest_id [simp]: "pkg_id (salt_foreign_pkg_set_digest d p) = pkg_id p" "fp_digest (salt_foreign_pkg_set_digest d p) = Some d"
  by (simp_all add: salt_foreign_pkg_set_digest_def)

lemma update_first_ids: "(\<And>x. g (f x) = g x) \<Longrightarrow> map g (update_first P f xs) = map g xs"
  by (induction xs) auto

lemma update_first_set: "find P xs = Some x \<Longrightarrow> y \<in> set (update_first P f xs) \<Longrightarrow> y \<in> set xs \<or> y = f x"
  by (induction xs) (auto split: if_splits)

lemma attach_ids: "map pkg_id (snd (attach n v d out)) = map pkg_id out"
  by (auto simp: attach_def update_first_ids split: option.splits)

text \<open>Every digest has the property \<open>R\<close>.\<close>

definition backed :: "(string \<Rightarrow> string \<Rightarrow> string \<Rightarrow> bool) \<Rightarrow> salt_foreign_pkg list \<Rightarrow> bool" where
  "backed R out \<longleftrightarrow> (\<forall>p\<in>set out. \<forall>d. fp_digest p = Some d \<longrightarrow> R (fp_name p) (fp_version p) d)"

lemma attach_backed:
  assumes "backed R out" "\<And>x. d = Some x \<Longrightarrow> R n v x"
  shows "backed R (snd (attach n v d out))"
proof -
  have "backed R (update_first (\<lambda>p. fp_name p = n) (salt_foreign_pkg_set_digest x) out)"
    if f: "find (\<lambda>p. fp_name p = n) out = Some f" "fp_version f = v" "d = Some x" for f x
  proof -
    have "fp_name f = n" using f(1) by (auto simp: find_Some_iff)
    then have "R (fp_name f) (fp_version f) x" using assms(2) f by simp
    then show ?thesis using assms(1) update_first_set [OF f(1)] unfolding backed_def
      by (metis fst_conv option.inject set_digest_id snd_conv)
  qed
  then show ?thesis using assms(1) by (auto simp: attach_def salt_foreign_pkg_list_find_def split: option.splits)
qed

section \<open>What the manager has recorded\<close>

abbreviation pieces :: "string \<Rightarrow> string list" where
  "pieces input \<equiv> split_on CHR 0x0A input"

definition rpm_recorded :: "string list \<Rightarrow> string \<Rightarrow> string \<Rightarrow> string \<Rightarrow> bool" where
  "rpm_recorded ls n v d \<longleftrightarrow>
     (\<exists>raw h. raw \<in> set ls \<and> c_str (rstrip raw) = n @ TAB # v @ TAB # h \<and> hex_valid h \<and> d = digest_prefixed ''rpm-sha256header'' h)"

definition xbps_recorded :: "string list \<Rightarrow> string \<Rightarrow> string \<Rightarrow> string \<Rightarrow> bool" where
  "xbps_recorded ls n v d \<longleftrightarrow>
     (\<exists>raw h. raw \<in> set ls \<and> c_str (rstrip raw) = n @ ''-'' @ v @ TAB # h \<and> hex_valid h \<and> d = digest_prefixed ''sha256'' h)"

text \<open>The database of \<^verbatim>\<open>apk\<close>: one block of lines for each package, ended by an empty line.\<close>

definition apk_recorded :: "string list \<Rightarrow> string \<Rightarrow> string \<Rightarrow> string \<Rightarrow> bool" where
  "apk_recorded ls n v d \<longleftrightarrow>
     (\<exists>pre blk post c. map rstrip ls = pre @ blk @ [] # post \<and> [] \<notin> set blk \<and>
        ''P:'' @ n \<in> c_str ` set blk \<and> ''V:'' @ v \<in> c_str ` set blk \<and> ''C:'' @ c \<in> c_str ` set blk \<and> d = digest_prefixed ''apk-checksum'' c)"

definition recorded :: "string \<Rightarrow> string \<Rightarrow> string \<Rightarrow> string \<Rightarrow> string \<Rightarrow> bool" where
  "recorded kind input =
     (if kind = ''apk'' then apk_recorded (pieces input)
      else if kind = ''xbps'' then xbps_recorded (pieces input)
      else rpm_recorded (pieces input))"

lemma hex_digest_Some: "hex_digest pfx h = Some d \<longleftrightarrow> hex_valid h \<and> d = digest_prefixed pfx h"
  by (auto simp: hex_digest_def)

lemma rpm_step:
  assumes "raw \<in> set ls" "backed (rpm_recorded ls) out \<and> map pkg_id out = ids"
  shows "backed (rpm_recorded ls) (snd (rpm_digest_line raw out)) \<and> map pkg_id (snd (rpm_digest_line raw out)) = ids"
proof (cases "cut_two (c_str (rstrip raw))")
  case (Some t)
  obtain n v h where t: "t = (n, v, h)" by (cases t)
  have "c_str (rstrip raw) = n @ TAB # v @ TAB # h" using Some t by (auto dest: cut_two_Some)
  then have "hex_digest ''rpm-sha256header'' h = Some x \<Longrightarrow> rpm_recorded ls n v x" for x
    using assms(1) by (auto simp: hex_digest_Some rpm_recorded_def)
  then show ?thesis using assms(2) Some t attach_backed [of "rpm_recorded ls" out "hex_digest ''rpm-sha256header'' h" n v] attach_ids
    by (simp add: rpm_digest_line_def)
qed (use assms in \<open>auto simp: rpm_digest_line_def\<close>)

lemma xbps_step:
  assumes "raw \<in> set ls" "backed (xbps_recorded ls) out \<and> map pkg_id out = ids"
  shows "backed (xbps_recorded ls) (snd (xbps_digest_line raw out)) \<and> map pkg_id (snd (xbps_digest_line raw out)) = ids"
proof (cases "cut_at TAB (c_str (rstrip raw))")
  case (Some t)
  obtain pv h where t: "t = (pv, h)" by (cases t)
  show ?thesis
  proof (cases "rfind_char CHR ''-'' pv")
    case (Some i)
    have "c_str (rstrip raw) = pv @ TAB # h" using \<open>cut_at _ _ = Some t\<close> t by (auto dest: cut_at_Some)
    moreover have "pv = take i pv @ CHR ''-'' # drop (Suc i) pv" by (rule rfind_char_split) (rule Some)
    ultimately have "c_str (rstrip raw) = take i pv @ ''-'' @ drop (Suc i) pv @ TAB # h"
      by (metis append.assoc append_Cons append_Nil)
    then have "hex_digest ''sha256'' h = Some x \<Longrightarrow> xbps_recorded ls (take i pv) (drop (Suc i) pv) x" for x
      using assms(1) by (auto simp: hex_digest_Some xbps_recorded_def)
    then show ?thesis using assms(2) Some t \<open>cut_at _ _ = Some t\<close> attach_ids
        attach_backed [of "xbps_recorded ls" out "hex_digest ''sha256'' h" "take i pv" "drop (Suc i) pv"]
      by (simp add: xbps_digest_line_def)
  qed (use assms \<open>cut_at _ _ = Some t\<close> t in \<open>auto simp: xbps_digest_line_def\<close>)
qed (use assms in \<open>auto simp: xbps_digest_line_def\<close>)

text \<open>The lines since the last empty one.\<close>

definition block_of :: "string list \<Rightarrow> string list" where
  "block_of ls = rev (takeWhile (\<lambda>x. x \<noteq> []) (rev ls))"

lemma block_of_snoc: "block_of (ls @ [x]) = (if x = [] then [] else block_of ls @ [x])"
  by (simp add: block_of_def)

lemma block_of_split: "\<exists>pre. ls = pre @ block_of ls" "[] \<notin> set (block_of ls)"
proof -
  have "ls = rev (takeWhile (\<lambda>x. x \<noteq> []) (rev ls) @ dropWhile (\<lambda>x. x \<noteq> []) (rev ls))" by simp
  then show "\<exists>pre. ls = pre @ block_of ls" unfolding block_of_def by (metis rev_append)
  show "[] \<notin> set (block_of ls)" by (auto simp: block_of_def dest: set_takeWhileD)
qed

definition acc_backed :: "string list \<Rightarrow> apk_acc \<Rightarrow> bool" where
  "acc_backed blk a \<longleftrightarrow>
     (\<forall>n. ak_name a = Some n \<longrightarrow> ''P:'' @ n \<in> c_str ` set blk) \<and>
     (\<forall>v. ak_ver a = Some v \<longrightarrow> ''V:'' @ v \<in> c_str ` set blk) \<and>
     (\<forall>c. ak_sum a = Some c \<longrightarrow> ''C:'' @ c \<in> c_str ` set blk)"

lemma acc_backed_none [simp]: "acc_backed blk apk_none"
  by (simp add: acc_backed_def apk_none_def)

lemma c_str_field:
  assumes "2 \<le> length line" "line ! 1 = CHR '':''" "line ! 0 = k" "k \<noteq> CHR 0x00"
  shows "c_str line = [k, CHR '':''] @ c_str (drop 2 line)"
proof -
  obtain a b t where "line = a # b # t" using assms(1) by (cases line; cases "tl line") auto
  then show ?thesis using assms by (simp add: c_str_def)
qed

lemma apk_field_step:
  assumes "acc_backed (block_of dn) a" "rstrip raw \<noteq> []" "apk_digest_line raw (a, out) = (rc, a', out')"
  shows "rc = SALT_OK \<and> out' = out \<and> acc_backed (block_of (dn @ [rstrip raw])) a'"
proof -
  let ?l = "rstrip raw"
  have f: "2 \<le> length ?l \<Longrightarrow> ?l ! 1 = CHR '':'' \<Longrightarrow> ?l ! 0 = k \<Longrightarrow> k \<noteq> CHR 0x00 \<Longrightarrow> k # CHR '':'' # c_str (drop 2 ?l) = c_str ?l" for k
    using c_str_field [of ?l k] by simp
  show ?thesis using assms f [of "CHR ''P''"] f [of "CHR ''V''"] f [of "CHR ''C''"]
    by (auto simp: apk_digest_line_def Let_def acc_backed_def block_of_snoc split: if_splits)
qed

lemma apk_end_step:
  assumes "acc_backed (block_of dn) a" "map rstrip ls = dn @ [] # post" "rstrip raw = []"
    and "backed (apk_recorded ls) out" "map pkg_id out = ids" "apk_digest_line raw (a, out) = (rc, a', out')"
  shows "backed (apk_recorded ls) out' \<and> map pkg_id out' = ids \<and> a' = apk_none"
proof -
  have rec: "apk_recorded ls n v (digest_prefixed ''apk-checksum'' c)" if "ak_name a = Some n" "ak_ver a = Some v" "ak_sum a = Some c" for n v c
  proof -
    obtain pre where "dn = pre @ block_of dn" using block_of_split(1) by blast
    then have "map rstrip ls = pre @ block_of dn @ [] # post" using assms(2) by (metis append.assoc)
    moreover have "''P:'' @ n \<in> c_str ` set (block_of dn)" "''V:'' @ v \<in> c_str ` set (block_of dn)" "''C:'' @ c \<in> c_str ` set (block_of dn)"
      using assms(1) that by (auto simp: acc_backed_def)
    ultimately show ?thesis unfolding apk_recorded_def using block_of_split(2) [of dn] by blast
  qed
  show ?thesis
  proof (cases "ak_name a \<noteq> None \<and> ak_ver a \<noteq> None \<and> ak_sum a \<noteq> None")
    case True
    then obtain n v c where nvc: "ak_name a = Some n" "ak_ver a = Some v" "ak_sum a = Some c" by blast
    have "out' = snd (attach n v (Some (digest_prefixed ''apk-checksum'' c)) out)" "a' = apk_none"
      using assms(3,6) nvc by (auto simp: apk_digest_line_def split: prod.splits)
    then show ?thesis using attach_backed [OF assms(4), of "Some (digest_prefixed ''apk-checksum'' c)" n v] attach_ids rec [OF nvc] assms(5) by simp
  next
    case False
    then show ?thesis using assms(3,4,5,6) by (auto simp: apk_digest_line_def split: option.splits)
  qed
qed

lemma apk_fold:
  assumes "rc_fold apk_digest_line rest (a, out) = (rc, a', out')" "map rstrip ls = dn @ map rstrip rest"
    and "acc_backed (block_of dn) a" "backed (apk_recorded ls) out" "map pkg_id out = ids"
  shows "backed (apk_recorded ls) out' \<and> map pkg_id out' = ids"
  using assms
proof (induction rest arbitrary: dn a out)
  case (Cons raw rest)
  obtain rc1 a1 out1 where st: "apk_digest_line raw (a, out) = (rc1, a1, out1)" by (metis prod.exhaust)
  have inv: "backed (apk_recorded ls) out1 \<and> map pkg_id out1 = ids \<and> acc_backed (block_of (dn @ [rstrip raw])) a1"
  proof (cases "rstrip raw = []")
    case True
    then show ?thesis using apk_end_step [OF Cons.prems(3) _ True Cons.prems(4,5) st] Cons.prems(2) by auto
  next
    case False
    then show ?thesis using apk_field_step [OF Cons.prems(3) False st] Cons.prems(4,5) by simp
  qed
  show ?case
  proof (cases "rc1 = SALT_OK")
    case True
    show ?thesis
      by (rule Cons.IH [of a1 out1 "dn @ [rstrip raw]"]) (use Cons.prems(1,2) st True inv in \<open>auto\<close>)
  next
    case False
    then show ?thesis using Cons.prems(1) st inv by simp
  qed
qed simp

lemma backed_none: "\<forall>p\<in>set ps. fp_digest p = None \<Longrightarrow> backed R ps"
  by (simp add: backed_def)

lemma digests_completeD: "digests_complete out = SALT_OK \<Longrightarrow> p \<in> set out \<Longrightarrow> \<exists>d. fp_digest p = Some d"
  by (auto simp: digests_complete_def list_all_iff split: if_splits)



section \<open>Packages of the same name\<close>

text \<open>A package that stands behind another of its name, still without a digest.\<close>

definition shadowed :: "salt_foreign_pkg \<Rightarrow> salt_foreign_pkg list \<Rightarrow> bool" where
  "shadowed p out \<longleftrightarrow> (\<exists>xs ys. out = xs @ p # ys \<and> fp_name p \<in> fp_name ` set xs)"

lemma update_first_append:
  "update_first P f (xs @ ys) = (if \<exists>x\<in>set xs. P x then update_first P f xs @ ys else xs @ update_first P f ys)"
  by (induction xs) auto

lemma names_update_first: "fp_name ` set (update_first P (salt_foreign_pkg_set_digest d) xs) = fp_name ` set xs"
proof -
  have "map fp_name (update_first P (salt_foreign_pkg_set_digest d) xs) = map fp_name xs"
    by (rule update_first_ids) (simp add: salt_foreign_pkg_set_digest_def)
  then show ?thesis by (metis set_map)
qed

lemma shadowed_attach:
  assumes "shadowed p out"
  shows "shadowed p (snd (attach n v d out))"
proof -
  obtain xs ys where o: "out = xs @ p # ys" "fp_name p \<in> fp_name ` set xs" using assms by (auto simp: shadowed_def)
  have "shadowed p (update_first (\<lambda>q. fp_name q = n) (salt_foreign_pkg_set_digest x) out)" for x
  proof (cases "\<exists>q\<in>set xs. fp_name q = n")
    case True
    then show ?thesis unfolding shadowed_def o(1) update_first_append using o(2) names_update_first by metis
  next
    case False
    then have "fp_name p \<noteq> n" using o(2) by auto
    then show ?thesis using False o(2) unfolding shadowed_def o(1) update_first_append by auto
  qed
  then show ?thesis using assms by (auto simp: attach_def split: option.splits)
qed

lemma shadowed_lines:
  assumes "shadowed p out"
  shows "shadowed p (snd (rpm_digest_line raw out))" "shadowed p (snd (xbps_digest_line raw out))"
    "shadowed p (snd (snd (apk_digest_line raw (a, out))))"
proof -
  note at = shadowed_attach [OF assms]
  show "shadowed p (snd (rpm_digest_line raw out))" unfolding rpm_digest_line_def using assms at by (simp split: option.splits prod.splits)
  show "shadowed p (snd (xbps_digest_line raw out))" unfolding xbps_digest_line_def using assms at by (simp split: option.splits prod.splits)
  show "shadowed p (snd (snd (apk_digest_line raw (a, out))))"
    unfolding apk_digest_line_def Let_def using assms at by (simp add: case_prod_beta split: option.splits)
qed

lemma shadowed_incomplete: "shadowed p out \<Longrightarrow> fp_digest p = None \<Longrightarrow> digests_complete out \<noteq> SALT_OK"
  by (auto simp: shadowed_def digests_complete_def)



end
