(* ===== verification/Salt_Guest.thy ===== *)
theory Salt_Guest
  imports Salt_Foreign Salt_Keyval "HOL-Library.Word"
begin

unbundle bit_operations_syntax

text \<open>
  The commands that work on strata: users shared between the host and the strata, \<^verbatim>\<open>salt run\<close> and \<^verbatim>\<open>salt pkg\<close>
  (\<^verbatim>\<open>src/salt/cmd_run.cpp\<close>), package managers as host commands, new commands, applications and services
  (\<^verbatim>\<open>src/salt/cmd_strata_sugar.cpp\<close>), bootstrapping (\<^verbatim>\<open>src/halite/src/stratum.c\<close>) and \<^verbatim>\<open>salt stratum\<close> and \<^verbatim>\<open>salt service\<close>
  (\<^verbatim>\<open>src/salt/cmd_stratum.cpp\<close>, \<^verbatim>\<open>src/salt/cmd_service.cpp\<close>).

  The state is that of the registry with the files (\<open>strata_state\<close>) and the calls made so far.  A file that is there can be read (these
  commands run as root); whether it can be written is an answer of the environment.
\<close>

record guest =
  gu_s :: strata_state
  gu_log :: rlog

abbreviation gfiles :: "guest \<Rightarrow> string \<Rightarrow> string option" where
  "gfiles g \<equiv> ss_files (gu_s g)"

definition gcall :: "run_env \<Rightarrow> syscall \<Rightarrow> guest \<Rightarrow> bool \<times> guest" where
  "gcall v c g = (let ok = rv_ok v (gu_log g) c in (ok, g\<lparr>gu_log := gu_log g @ [Did Caller c ok]\<rparr>))"

text \<open>\<^verbatim>\<open>confirm\<close>: a character is read for each question.\<close>

definition gconfirm :: "run_env \<Rightarrow> Options \<Rightarrow> string \<Rightarrow> guest \<Rightarrow> bool" where
  "gconfirm v opt question g \<longleftrightarrow> o_yes opt \<or> rv_reply v (gu_log g) question \<in> {Some (CHR ''y''), Some (CHR ''Y'')}"

definition on_strata :: "(strata_state \<Rightarrow> 'a \<times> strata_state) \<Rightarrow> guest \<Rightarrow> 'a \<times> guest" where
  "on_strata f g = (let (x, s) = f (gu_s g) in (x, g\<lparr>gu_s := s\<rparr>))"

definition guest_run :: "run_env \<Rightarrow> salt_stratum \<Rightarrow> salt_run_opts \<Rightarrow> string list \<Rightarrow> guest \<Rightarrow> (salt_rc \<times> int) \<times> guest" where
  "guest_run v st opts argv g =
     (let (r, l1) = salt_stratum_run v st (Some opts) argv (gu_log g) in (r, \<lparr>gu_s = rv_effect v l1 (gu_s g), gu_log = l1\<rparr>))"

definition guest_pkg :: "run_env \<Rightarrow> salt_stratum \<Rightarrow> string \<Rightarrow> string list \<Rightarrow> guest \<Rightarrow> (salt_rc \<times> int) \<times> guest" where
  "guest_pkg v st op pkgs g =
     (let (r, l1) = salt_stratum_pkg v st op pkgs (gu_log g) in (r, \<lparr>gu_s = rv_effect v l1 (gu_s g), gu_log = l1\<rparr>))"

section \<open>Users of the host and the strata\<close>

definition is_human_id :: "string \<Rightarrow> bool" where
  "is_human_id field \<longleftrightarrow> field \<noteq> [] \<and> (let (v, rest) = c_strtol (c_str field) in rest = [] \<and> 1000 \<le> v \<and> v < 65534)"

definition first_field :: "string \<Rightarrow> string" where
  "first_field line = (case find_char CHR '':'' line of None \<Rightarrow> [] | Some p \<Rightarrow> take p line)"

primrec nth_field :: "string \<Rightarrow> nat \<Rightarrow> string" where
  "nth_field line 0 = takeWhile (\<lambda>c. c \<noteq> CHR '':'') line"
| "nth_field line (Suc n) = (case find_char CHR '':'' line of None \<Rightarrow> [] | Some p \<Rightarrow> nth_field (drop (Suc p) line) n)"

definition file_lines :: "guest \<Rightarrow> string \<Rightarrow> string list" where
  "file_lines g path = (case gfiles g path of None \<Rightarrow> [] | Some t \<Rightarrow> split_lines t)"

definition collect_names :: "guest \<Rightarrow> string \<Rightarrow> string set" where
  "collect_names g path = first_field ` set (file_lines g path) - {[]}"

definition add_bytes :: "run_env \<Rightarrow> string \<Rightarrow> string \<Rightarrow> guest \<Rightarrow> bool \<times> guest" where
  "add_bytes v path t g =
     (let (ok, g1) = gcall v (Append path t) g;
          old = (case gfiles g path of None \<Rightarrow> [] | Some c \<Rightarrow> c)
      in (ok, if ok then g1\<lparr>gu_s := put_sfile path (old @ t) (gu_s g1)\<rparr> else g1))"

definition append_lines :: "run_env \<Rightarrow> string \<Rightarrow> string \<Rightarrow> nat \<Rightarrow> guest \<Rightarrow> guest" where
  "append_lines v path t mode g =
     (if t = [] then g
      else let g1 = (case gfiles g path of
                       Some c \<Rightarrow> if c \<noteq> [] \<and> last c \<noteq> CHR 0x0A then snd (add_bytes v path [CHR 0x0A] g) else g
                     | None \<Rightarrow> g);
               (ok, g2) = add_bytes v path t g1
           in if ok then snd (gcall v (Chmod path mode) g2) else g2)"

definition human_entry :: "string \<Rightarrow> bool" where
  "human_entry line \<longleftrightarrow> line \<noteq> [] \<and> first_field line \<noteq> [] \<and> is_human_id (nth_field line 2)"

definition human_names :: "guest \<Rightarrow> string \<Rightarrow> string set" where
  "human_names g etc = first_field ` {l \<in> set (file_lines g (etc @ ''/passwd'')). human_entry l}"

definition missing_passwd :: "guest \<Rightarrow> string \<Rightarrow> string \<Rightarrow> string list" where
  "missing_passwd g src dst =
     filter (\<lambda>l. human_entry l \<and> first_field l \<notin> collect_names g (dst @ ''/passwd'')) (file_lines g (src @ ''/passwd''))"

definition missing_shadow :: "string set \<Rightarrow> guest \<Rightarrow> string \<Rightarrow> string \<Rightarrow> string list" where
  "missing_shadow humans g src dst =
     filter (\<lambda>l. l \<noteq> [] \<and> first_field l \<noteq> [] \<and> first_field l \<in> humans \<and> first_field l \<notin> collect_names g (dst @ ''/shadow''))
       (file_lines g (src @ ''/shadow''))"

definition missing_group :: "guest \<Rightarrow> string \<Rightarrow> string \<Rightarrow> string list" where
  "missing_group g src dst =
     filter (\<lambda>l. human_entry l \<and> first_field l \<notin> collect_names g (dst @ ''/group'')) (file_lines g (src @ ''/group''))"

definition append_missing_identity :: "run_env \<Rightarrow> string \<Rightarrow> string \<Rightarrow> guest \<Rightarrow> guest" where
  "append_missing_identity v src dst g =
     (if gfiles g (src @ ''/passwd'') = None then g
      else let humans = human_names g src;
               g1 = append_lines v (dst @ ''/passwd'') (text_lines (missing_passwd g src dst)) 420 g;
               g2 = (if gfiles g1 (src @ ''/shadow'') = None then g1
                     else append_lines v (dst @ ''/shadow'') (text_lines (missing_shadow humans g1 src dst)) 384 g1)
           in if gfiles g2 (src @ ''/group'') = None then g2
              else append_lines v (dst @ ''/group'') (text_lines (missing_group g2 src dst)) 420 g2)"

definition file_fingerprint :: "run_env \<Rightarrow> guest \<Rightarrow> string \<Rightarrow> 64 word" where
  "file_fingerprint v g path =
     (case rv_times v (gu_log g) path of
        None \<Rightarrow> 0
      | Some (sec, nsec, size1) \<Rightarrow> (word_of_int sec * 1000000000 + word_of_int nsec) XOR (push_bit 1 (word_of_int size1) + 1))"

definition host_etc_path :: "Options \<Rightarrow> string" where
  "host_etc_path opt = (if o_root opt = ''/'' then ''/etc'' else salt_join_path (o_root opt) ''etc'')"

definition stratum_etc_path :: "Options \<Rightarrow> string \<Rightarrow> string" where
  "stratum_etc_path opt stratum_root = salt_join_path ((if o_root opt = ''/'' then [] else o_root opt) @ stratum_root) ''etc''"

section \<open>Package managers and new commands\<close>

definition list_strata_names :: "strata_env \<Rightarrow> guest \<Rightarrow> string list" where
  "list_strata_names e g = (if se_open e then map sm_name (salt_stratum_list_all (gu_s g)) else [])"

text \<open>\<open>reply\<close>: the line that is typed; an empty result means that no stratum was chosen.\<close>

definition choose_stratum_for :: "strata_env \<Rightarrow> Options \<Rightarrow> string option \<Rightarrow> guest \<Rightarrow> string" where
  "choose_stratum_for e opt reply g =
     (case list_strata_names e g of
        [] \<Rightarrow> []
      | [n] \<Rightarrow> n
      | ns \<Rightarrow>
          if o_yes opt then hd ns
          else (case reply of
                  None \<Rightarrow> []
                | Some t \<Rightarrow> let idx = c_int (c_atol (take 63 t)) in if idx < 1 \<or> idx > int (length ns) then [] else ns ! nat (idx - 1)))"

definition pm_kind :: "salt_stratum \<Rightarrow> string" where
  "pm_kind st =
     (let v = (if sm_package_manager st = [] then sm_family st else sm_package_manager st) in
      if v \<in> {''pacman'', ''arch''} then ''pacman''
      else if v \<in> {''apt'', ''apt-get'', ''debian''} then ''apt''
      else if v \<in> {''apk'', ''alpine''} then ''apk''
      else if v \<in> {''dnf'', ''yum'', ''fedora''} then ''dnf''
      else if v \<in> {''zypper'', ''opensuse'', ''suse''} then ''zypper''
      else ''xbps'')"

definition pm_binaries :: "string \<Rightarrow> string list" where
  "pm_binaries kind =
     (if kind = ''pacman'' then [''pacman''] else if kind = ''apt'' then [''apt'', ''apt-get''] else if kind = ''apk'' then [''apk'']
      else if kind = ''dnf'' then [''dnf''] else if kind = ''zypper'' then [''zypper'']
      else [''xbps-install'', ''xbps-remove'', ''xbps-query''])"

definition pm_readers :: "string set" where
  "pm_readers = {''search'', ''se'', ''info'', ''if'', ''show'', ''list'', ''ls'', ''policy'', ''depends'', ''rdepends'', ''provides'', ''what-provides'',
     ''wp'', ''repoquery'', ''version'', ''stats'', ''help'', ''--help'', ''--version'', ''-V'', ''-l'', ''-L'', ''-s''}"

definition pacman_mutates :: "string \<Rightarrow> bool" where
  "pacman_mutates first =
     (if length first \<ge> 2 \<and> hd first = CHR ''-'' then
        if CHR ''Q'' \<in> set first then False
        else if CHR ''S'' \<in> set first then
          (if CHR ''y'' \<in> set first \<or> CHR ''u'' \<in> set first \<or> CHR ''w'' \<in> set first then True
           else \<not> (CHR ''s'' \<in> set first \<or> CHR ''i'' \<in> set first \<or> CHR ''l'' \<in> set first \<or> CHR ''g'' \<in> set first))
        else \<not> (CHR ''T'' \<in> set first \<or> CHR ''V'' \<in> set first)
      else True)"

definition pm_is_mutating :: "string \<Rightarrow> string \<Rightarrow> string list \<Rightarrow> bool" where
  "pm_is_mutating kind binary rest =
     (let first = (if rest = [] then [] else hd rest) in
      if binary = ''xbps-query'' then False
      else if binary = ''xbps-install'' \<or> binary = ''xbps-remove'' then True
      else if kind = ''pacman'' then pacman_mutates first
      else first \<notin> pm_readers)"

definition expose_pm_for :: "strata_env \<Rightarrow> Options \<Rightarrow> string \<Rightarrow> strata_state \<Rightarrow> strata_state" where
  "expose_pm_for e opt stratum s =
     (if \<not> se_open e then s
      else case salt_stratum_get s stratum of
             None \<Rightarrow> s
           | Some st \<Rightarrow> fold (\<lambda>b. snd \<circ> salt_expose_pm e (o_root opt) stratum b) (pm_binaries (pm_kind st)) s)"

definition expose_all_for :: "strata_env \<Rightarrow> Options \<Rightarrow> string \<Rightarrow> strata_state \<Rightarrow> strata_state" where
  "expose_all_for e opt stratum s =
     (if \<not> se_open e then s
      else case salt_stratum_get s stratum of
             None \<Rightarrow> s
           | Some st \<Rightarrow> snd (snd (salt_expose_all e (o_root opt) st s)))"

abbreviation upd_strata :: "(strata_state \<Rightarrow> strata_state) \<Rightarrow> guest \<Rightarrow> guest" where
  "upd_strata f g \<equiv> g\<lparr>gu_s := f (gu_s g)\<rparr>"

text \<open>A snapshot whose failure is only a warning.\<close>

definition safety_snapshot :: "strata_env \<Rightarrow> salt_strata_ctx \<Rightarrow> string \<Rightarrow> string \<Rightarrow> guest \<Rightarrow> guest" where
  "safety_snapshot e c name label g = upd_strata (snd \<circ> salt_stratum_snapshot_create e c name label) g"

definition open_stratum :: "strata_env \<Rightarrow> string \<Rightarrow> guest \<Rightarrow> salt_stratum option" where
  "open_stratum e name g = (if se_open e then salt_stratum_get (gu_s g) name else None)"

definition rc_status :: "(salt_rc \<times> int) \<times> guest \<Rightarrow> int \<times> guest" where
  "rc_status r = (if fst (fst r) = SALT_OK then snd (fst r) else 1, snd r)"

definition cmd_pm :: "(string \<Rightarrow> bool) \<Rightarrow> sys \<Rightarrow> strata_env \<Rightarrow> run_env \<Rightarrow> Options \<Rightarrow> string list \<Rightarrow> guest \<Rightarrow> int \<times> guest" where
  "cmd_pm btrfs y e v opt args g =
     (case args of
        stratum # binary # rest \<Rightarrow>
          (case open_stratum e stratum g of
             None \<Rightarrow> (1, g)
           | Some st \<Rightarrow>
               (let c = salt_strata_ctx_init btrfs (o_root opt);
                    g1 = (if pm_is_mutating (pm_kind st) binary rest then safety_snapshot e c stratum ''pre-pm'' g else g);
                    ((rc, status), g2) = guest_run v st (root_opts True) (binary # rest) g1;
                    g3 = (if rc = SALT_OK \<and> status = 0 \<and> expose_all_enabled y opt then upd_strata (expose_all_for e opt stratum) g2 else g2)
                in rc_status ((rc, status), g3)))
      | _ \<Rightarrow> (2, g))"

section \<open>Running a command\<close>

definition sudo_argv :: "Options \<Rightarrow> string list \<Rightarrow> string list" where
  "sudo_argv opt args =
     [''sudo'', ''-n'', ''salt''] @ (if o_root opt \<noteq> ''/'' then [''--root'', o_root opt] else []) @ [''run''] @ args"

text \<open>The result is \<open>None\<close> when the process has become \<^verbatim>\<open>sudo\<close>.\<close>

definition run_fallback_sudo :: "run_env \<Rightarrow> Options \<Rightarrow> string list \<Rightarrow> guest \<Rightarrow> int option \<times> guest" where
  "run_fallback_sudo v opt args g =
     (if rv_euid v = 0 then (Some 126, g)
      else let (ok, g1) = gcall v (Exec (sudo_argv opt args) (rv_env v)) g in (if ok then None else Some 126, g1))"

text \<open>The directory the command starts in, and the environment it is given.\<close>

definition run_in_cwd :: "run_env \<Rightarrow> salt_run_opts \<times> run_env" where
  "run_in_cwd v =
     (case rv_env v ''SALT_ESCAPE_CWD'' of
        Some (CHR ''/'' # t) \<Rightarrow>
          (salt_run_opts_default\<lparr>ro_workdir := Some (c_snprintf 4096 (CHR ''/'' # t))\<rparr>, v\<lparr>rv_env := (rv_env v)(''SALT_ESCAPE_CWD'' := None)\<rparr>)
      | _ \<Rightarrow> (salt_run_opts_default\<lparr>ro_workdir := rv_cwd v\<rparr>, v))"

definition identity_prints :: "run_env \<Rightarrow> guest \<Rightarrow> string \<Rightarrow> 64 word list" where
  "identity_prints v g etc = map (\<lambda>f. file_fingerprint v g (etc @ f)) [''/passwd'', ''/shadow'', ''/group'']"

text \<open>New users of a stratum go to the host and from there to every other stratum.\<close>

definition spread_identity :: "strata_env \<Rightarrow> run_env \<Rightarrow> Options \<Rightarrow> salt_stratum \<Rightarrow> guest \<Rightarrow> guest" where
  "spread_identity e v opt st g =
     (let host = host_etc_path opt;
          g1 = append_missing_identity v (stratum_etc_path opt (sm_root st)) host g
      in if \<not> se_open e then g1
         else fold (\<lambda>os. if sm_root os = [] \<or> sm_name os = sm_name st then id
                         else append_missing_identity v host (stratum_etc_path opt (sm_root os)))
                (salt_stratum_list_all (gu_s g1)) g1)"

definition cmd_run :: "sys \<Rightarrow> strata_env \<Rightarrow> run_env \<Rightarrow> Options \<Rightarrow> string list \<Rightarrow> guest \<Rightarrow> int option \<times> guest" where
  "cmd_run y e v0 opt args g =
     (case args of
        name # a1 # as \<Rightarrow>
          (case open_stratum e name g of
             None \<Rightarrow> (Some 1, g)
           | Some st \<Rightarrow>
               (let argv = (if a1 = ''--'' then as else a1 # as);
                    (opts, v) = run_in_cwd v0;
                    do_identity = (rv_euid v = 0 \<and> sm_root st \<noteq> []);
                    etc = stratum_etc_path opt (sm_root st);
                    g1 = (if do_identity then append_missing_identity v (host_etc_path opt) etc g else g);
                    before = identity_prints v g1 etc;
                    ((rc, status), g2) = guest_run v st opts argv g1;
                    g3 = (if do_identity \<and> rc = SALT_OK \<and> identity_prints v g2 etc \<noteq> before then spread_identity e v opt st g2 else g2)
                in if rc \<noteq> SALT_OK then (Some 1, g3)
                   else if status = SALT_RUN_USERNS_DENIED then run_fallback_sudo v opt args g3
                   else (Some status,
                         if status = 0 \<and> expose_all_enabled y opt then upd_strata (expose_all_for e opt name) g3 else g3)))
      | _ \<Rightarrow> (Some 2, g))"

definition cmd_pkg :: "(string \<Rightarrow> bool) \<Rightarrow> strata_env \<Rightarrow> run_env \<Rightarrow> Options \<Rightarrow> string list \<Rightarrow> guest \<Rightarrow> int \<times> guest" where
  "cmd_pkg btrfs e v opt args g =
     (case args of
        name # op # pkgs \<Rightarrow>
          (case open_stratum e name g of
             None \<Rightarrow> (1, g)
           | Some st \<Rightarrow>
               (let c = salt_strata_ctx_init btrfs (o_root opt);
                    g1 = (if op \<noteq> ''search'' then safety_snapshot e c name (''pre-'' @ op) g else g)
                in rc_status (guest_pkg v st op pkgs g1)))
      | _ \<Rightarrow> (2, g))"

section \<open>Commands, applications and services of a stratum\<close>

definition dir_names :: "run_env \<Rightarrow> guest \<Rightarrow> string \<Rightarrow> string list" where
  "dir_names v g d = (case rv_dir v (gu_log g) d of None \<Rightarrow> [] | Some es \<Rightarrow> es)"

definition scan_bins :: "run_env \<Rightarrow> guest \<Rightarrow> string \<Rightarrow> string set" where
  "scan_bins v g root =
     (if root = [] then {}
      else set (filter (\<lambda>n. \<not> starts_with n ''.'')
        (concat (map (\<lambda>d. dir_names v g (path_join root d))
          [''usr/bin'', ''bin'', ''usr/local/bin'', ''usr/sbin'', ''sbin'', ''usr/local/sbin'']))))"

definition scan_desktops :: "run_env \<Rightarrow> guest \<Rightarrow> string \<Rightarrow> string set" where
  "scan_desktops v g root =
     (if root = [] then {}
      else set (map (\<lambda>n. take (length n - 8) n)
        (filter (\<lambda>n. length n > 8 \<and> ends_with n ''.desktop'') (dir_names v g (path_join root ''usr/share/applications'')))))"

definition blank_char :: "char \<Rightarrow> bool" where
  "blank_char c \<longleftrightarrow> c = CHR '' '' \<or> c = TAB"

definition parse_execstart :: "guest \<Rightarrow> string \<Rightarrow> string" where
  "parse_execstart g path =
     (case find (\<lambda>l. starts_with (dropWhile blank_char l) ''ExecStart='') (file_lines g path) of
        None \<Rightarrow> []
      | Some l \<Rightarrow>
          strip_back (\<lambda>c. c = CHR 0x0D \<or> blank_char c)
            (dropWhile (\<lambda>c. c \<in> {CHR ''-'', CHR ''+'', CHR ''!'', CHR ''@'', CHR '':''}) (drop 10 (dropWhile blank_char l))))"

definition scan_service :: "guest \<Rightarrow> string \<Rightarrow> string \<Rightarrow> (string \<times> string) list \<Rightarrow> (string \<times> string) list" where
  "scan_service g p n out =
     (let base = take (length n - 8) n; exec = parse_execstart g (path_join p n) in
      if length n \<le> 8 \<or> \<not> ends_with n ''.service'' \<or> CHR ''@'' \<in> set base \<or> base \<in> fst ` set out \<or> exec = [] then out
      else out @ [(base, exec)])"

text \<open>A \<^verbatim>\<open>std::map\<close>: the entries in the order of their keys.\<close>

definition scan_services :: "run_env \<Rightarrow> guest \<Rightarrow> string \<Rightarrow> (string \<times> string) list" where
  "scan_services v g root =
     (if root = [] then []
      else sort_key fst (fold (\<lambda>d. let p = path_join root d in fold (scan_service g p) (dir_names v g p))
        [''usr/lib/systemd/system'', ''lib/systemd/system'', ''etc/systemd/system''] []))"

definition gwrite :: "strata_env \<Rightarrow> string \<Rightarrow> string \<Rightarrow> guest \<Rightarrow> bool \<times> guest" where
  "gwrite e path t g = (if se_write_ok e path then (True, upd_strata (put_sfile path t) g) else (False, g))"

definition service_script :: "string \<Rightarrow> string \<Rightarrow> string" where
  "service_script stratum execline =
     text_lines [''#!/bin/sh'', ''exec 2>&1'', ''exec salt run '' @ stratum @ '' '' @ execline]"

definition import_and_enable_service :: "strata_env \<Rightarrow> run_env \<Rightarrow> Options \<Rightarrow> string \<Rightarrow> string \<Rightarrow> string \<Rightarrow> guest \<Rightarrow> bool \<times> guest" where
  "import_and_enable_service e v opt stratum name execline g =
     (let svc = stratum @ ''-'' @ name;
          dir = path_join (o_root opt) (''etc/sv/'' @ svc);
          (ok, g1) = gcall v (MakeDirs dir) g
      in if \<not> ok then (False, g1)
         else let (ok2, g2) = gwrite e (dir @ ''/run'') (service_script stratum execline) g1
              in if \<not> ok2 then (False, g2)
                 else let servicedir = path_join (o_root opt) ''var/service'';
                          (_, g3) = gcall v (MakeDirs servicedir) g2;
                          link = servicedir @ ''/'' @ svc;
                          there = rv_lstat v (gu_log g3) link \<noteq> None;
                          (ok4, g4) = gcall v (Symlink dir link) g3
                      in (ok4 \<or> there, g4))"

section \<open>Bootstrapping\<close>

definition run_system :: "strata_env \<Rightarrow> string \<Rightarrow> guest \<Rightarrow> salt_rc \<times> guest" where
  "run_system e cmd g =
     (let (ok, s1) = se_shell e cmd (gu_s g)
      in (if ok then SALT_OK else SALT_ERR, \<lparr>gu_s = s1, gu_log = gu_log g @ [Did Caller (Shell cmd) ok]\<rparr>))"

definition command_exists :: "strata_env \<Rightarrow> string \<Rightarrow> guest \<Rightarrow> bool \<times> guest" where
  "command_exists e cmd g =
     (let (rc, g1) = run_system e (''command -v '' @ sq cmd @ '' >/dev/null 2>&1'') g in (rc = SALT_OK, g1))"

definition dir_nonempty :: "run_env \<Rightarrow> guest \<Rightarrow> string \<Rightarrow> bool" where
  "dir_nonempty v g path = list_ex (\<lambda>n. n \<noteq> ''.'' \<and> n \<noteq> ''..'') (dir_names v g path)"

definition extract_cmd :: "string \<Rightarrow> string \<Rightarrow> string \<Rightarrow> int \<Rightarrow> string" where
  "extract_cmd url archive target strip =
     (let decomp = (if ends_with url ''.zst'' then ''tar --zstd -xpf'' else if ends_with url ''.xz'' then ''tar -Jxpf''
                    else if ends_with url ''.gz'' then ''tar -zxpf'' else if ends_with url ''.tgz'' then ''tar -zxpf'' else ''tar -xpf'')
      in decomp @ '' '' @ sq archive @ '' -C '' @ sq target @
         (if strip > 0 then '' --strip-components='' @ int_to_string strip else []))"

definition extract_rootfs :: "strata_env \<Rightarrow> string \<Rightarrow> string \<Rightarrow> string \<Rightarrow> int \<Rightarrow> guest \<Rightarrow> salt_rc \<times> guest" where
  "extract_rootfs e url archive target strip g = run_system e (extract_cmd url archive target strip) g"

definition write_resolv_conf :: "run_env \<Rightarrow> string \<Rightarrow> guest \<Rightarrow> guest" where
  "write_resolv_conf v target g =
     (let g1 = snd (gcall v (MakeDirs (salt_join_path target ''etc'')) g);
          dst = salt_join_path target ''etc/resolv.conf'';
          k = rv_lstat v (gu_log g1) dst;
          g2 = (if k \<noteq> None \<and> k \<noteq> Some RegularFile
                then let (ok, ga) = gcall v (Unlink dst) g1 in if ok then upd_strata (\<lambda>s. s\<lparr>ss_files := (ss_files s)(dst := None)\<rparr>) ga else ga
                else g1);
          (ok3, g3) = gcall v (CopyFile ''/etc/resolv.conf'' dst) g2
      in case gfiles g3 ''/etc/resolv.conf'' of
           Some t \<Rightarrow> if ok3 then upd_strata (put_sfile dst t) g3 else g3
         | None \<Rightarrow> g3)"

definition init_pacman_keyring :: "run_env \<Rightarrow> salt_stratum_recipe \<Rightarrow> guest \<Rightarrow> guest" where
  "init_pacman_keyring v r g =
     (if sr_package_manager r \<noteq> ''pacman'' then g
      else case salt_stratum_get (gu_s g) (sr_name r) of
             None \<Rightarrow> g
           | Some st \<Rightarrow>
               fold (\<lambda>argv. snd \<circ> guest_run v st (root_opts False) argv)
                 [[''pacman-key'', ''--init''], [''pacman-key'', ''--populate'']] g)"

definition ca_argvs :: "string \<Rightarrow> string list list" where
  "ca_argvs pm =
     (if pm = ''apk'' then [[''apk'', ''add'', ''--no-cache'', ''ca-certificates'']]
      else if pm = ''apt'' then [[''apt-get'', ''update''], [''apt-get'', ''install'', ''-y'', ''ca-certificates'']]
      else if pm = ''pacman'' then
        [[''/bin/sh'', ''-c'', ''pacman -Sy --noconfirm --needed $(pacman -Qq | grep -- '' @ sq ''-keyring$'' @
          '') && pacman -Su --noconfirm --needed ca-certificates'']]
      else if pm = ''xbps'' then [[''xbps-install'', ''-Sy'', ''ca-certificates'']]
      else if pm = ''dnf'' then [[''dnf'', ''-y'', ''install'', ''ca-certificates'']]
      else if pm = ''zypper'' then [[''zypper'', ''--non-interactive'', ''install'', ''ca-certificates'']]
      else []) @ [[''update-ca-certificates'']]"

definition ensure_ca_certificates :: "run_env \<Rightarrow> salt_stratum_recipe \<Rightarrow> guest \<Rightarrow> guest" where
  "ensure_ca_certificates v r g =
     (if sr_package_manager r = [] then g
      else case salt_stratum_get (gu_s g) (sr_name r) of
             None \<Rightarrow> g
           | Some st \<Rightarrow> fold (\<lambda>argv. snd \<circ> guest_run v st (root_opts False) argv) (ca_argvs (sr_package_manager r)) g)"

definition repo_file :: "strata_env \<Rightarrow> run_env \<Rightarrow> string \<Rightarrow> string \<Rightarrow> string \<Rightarrow> string list \<Rightarrow> guest \<Rightarrow> guest" where
  "repo_file e v target dir name ls g =
     snd (gwrite e (salt_join_path target (dir @ ''/'' @ name)) (text_lines ls) (snd (gcall v (MakeDirs (salt_join_path target dir)) g)))"

definition write_repo_config :: "strata_env \<Rightarrow> run_env \<Rightarrow> salt_stratum_recipe \<Rightarrow> string \<Rightarrow> guest \<Rightarrow> guest" where
  "write_repo_config e v r target g =
     (if sr_family r = ''arch'' then
        snd (run_system e (''sed -i '' @ sq ''s/^CheckSpace/#CheckSpace/'' @ '' '' @ sq (target @ ''/etc/pacman.conf'') @ '' 2>/dev/null || true'')
          (repo_file e v target ''etc/pacman.d'' ''mirrorlist'' (map (\<lambda>x. ''Server = '' @ snd x) (sr_repos r)) g))
      else if sr_family r = ''debian'' then
        repo_file e v target ''etc/apt'' ''sources.list'' (map (\<lambda>x. ''deb '' @ snd x @ '' '' @ fst x @ '' main'') (sr_repos r)) g
      else if sr_family r = ''void'' then
        repo_file e v target ''etc/xbps.d'' ''00-repository-main.conf'' (map (\<lambda>x. ''repository='' @ snd x) (sr_repos r)) g
      else g)"

definition oci_cmd :: "string \<Rightarrow> string \<Rightarrow> string \<Rightarrow> string" where
  "oci_cmd runtime url archive =
     ''set -e; '' @ runtime @ '' pull '' @ sq url @ ''; cid=$('' @ runtime @ '' create '' @ sq url @ ''); '' @
     runtime @ '' export '' @ CHR 0x22 # ''$cid'' @ CHR 0x22 # '' -o '' @ sq archive @ ''; '' @
     runtime @ '' rm '' @ CHR 0x22 # ''$cid'' @ CHR 0x22 # '' >/dev/null 2>&1''"

definition bootstrap_oci :: "strata_env \<Rightarrow> salt_strata_ctx \<Rightarrow> salt_stratum_recipe \<Rightarrow> string \<Rightarrow> guest \<Rightarrow> salt_rc \<times> guest" where
  "bootstrap_oci e c r target g =
     (if sr_rootfs_url r = [] then (SALT_ERR, g)
      else let (d, g1) = command_exists e ''docker'' g;
               (p, g2) = (if d then (False, g1) else command_exists e ''podman'' g1)
           in if \<not> d \<and> \<not> p then (SALT_ERR, g2)
              else let runtime = (if d then ''docker'' else ''podman'');
                       archive = salt_join_path (sx_cache_dir c) (sr_name r @ ''.oci.tar'');
                       (rc, g3) = run_system e (oci_cmd runtime (sr_rootfs_url r) archive) g2
                   in if rc \<noteq> SALT_OK then (SALT_ERR, g3)
                      else let (rc4, g4) = extract_rootfs e ''rootfs.tar'' archive target 0 g3
                           in (if rc4 \<noteq> SALT_OK then SALT_ERR else SALT_OK, g4))"

definition bootstrap_rootfs :: "strata_env \<Rightarrow> run_env \<Rightarrow> salt_strata_ctx \<Rightarrow> salt_stratum_recipe \<Rightarrow> string \<Rightarrow> guest \<Rightarrow> salt_rc \<times> guest" where
  "bootstrap_rootfs e v c r target g =
     (let archive = salt_join_path (sx_cache_dir c) (sr_name r @ ''.rootfs'');
          (ok, g1) = gcall v (Fetch (sr_rootfs_url r) archive) g
      in if \<not> ok then (SALT_ERR_IO, g1)
         else if sr_rootfs_sha256 r \<noteq> [] \<and> rv_sha256 v (gu_log g1) archive \<noteq> Some (sr_rootfs_sha256 r) then (SALT_ERR_VERIFY, g1)
         else let (rc, g2) = extract_rootfs e (sr_rootfs_url r) archive target (sr_rootfs_strip r) g1
              in (if rc \<noteq> SALT_OK then SALT_ERR else SALT_OK, g2))"

definition bootstrap_debian :: "strata_env \<Rightarrow> salt_stratum_recipe \<Rightarrow> string \<Rightarrow> guest \<Rightarrow> salt_rc \<times> guest" where
  "bootstrap_debian e r target g =
     (let (ok, g1) = command_exists e ''debootstrap'' g
      in if \<not> ok then (SALT_ERR, g1)
         else let suite = (case sr_repos r of [] \<Rightarrow> ''stable'' | x # _ \<Rightarrow> fst x);
                  mirror = (case sr_repos r of [] \<Rightarrow> [] | x # _ \<Rightarrow> snd x);
                  arch = (if sr_arch r = ''aarch64'' then ''arm64'' else if sr_arch r \<noteq> ''x86_64'' \<and> sr_arch r \<noteq> [] then sr_arch r else ''amd64'')
              in run_system e (''debootstrap --arch='' @ sq arch @ '' '' @ sq suite @ '' '' @ sq target @ '' '' @ sq mirror) g1)"

definition make_target :: "strata_env \<Rightarrow> run_env \<Rightarrow> salt_strata_ctx \<Rightarrow> string \<Rightarrow> guest \<Rightarrow> bool \<times> guest" where
  "make_target e v c target g =
     (let (made, g1) = (if sx_use_btrfs c then run_system e (''btrfs subvolume create '' @ sq target) g else (SALT_ERR, g))
      in if made = SALT_OK then (True, g1) else gcall v (MakeDirs target) g1)"

definition fill_target :: "strata_env \<Rightarrow> run_env \<Rightarrow> salt_strata_ctx \<Rightarrow> salt_stratum_recipe \<Rightarrow> string \<Rightarrow> guest \<Rightarrow> salt_rc \<times> guest" where
  "fill_target e v c r target g =
     (if sr_bootstrap r = ''oci'' then bootstrap_oci e c r target g
      else if sr_rootfs_url r \<noteq> [] then bootstrap_rootfs e v c r target g
      else if sr_bootstrap r = ''debootstrap'' then bootstrap_debian e r target g
      else (SALT_OK, g))"

definition salt_stratum_bootstrap :: "strata_env \<Rightarrow> run_env \<Rightarrow> salt_strata_ctx \<Rightarrow> salt_stratum_recipe \<Rightarrow> guest \<Rightarrow> salt_rc \<times> guest" where
  "salt_stratum_bootstrap e v c r g =
     (if \<not> salt_stratum_name_ok (sr_name r) then (SALT_ERR, g)
      else let target = stratum_target (sx_root c) (sr_root r)
           in if rv_stat v (gu_log g) target = Some DirFile \<and> dir_nonempty v g target then (SALT_ERR_EXISTS, g)
              else let (ok, g1) = make_target e v c target g
                   in if \<not> ok then (SALT_ERR_IO, g1)
                      else let (rc, g2) = fill_target e v c r target g1
                           in if rc \<noteq> SALT_OK then (rc, g2)
                              else let g3 = write_repo_config e v r target (write_resolv_conf v target g2);
                                       (rc4, g4) = on_strata (salt_stratum_register e r) g3
                                   in if rc4 \<noteq> SALT_OK then (rc4, g4)
                                      else (SALT_OK, ensure_ca_certificates v r (init_pacman_keyring v r
                                             (safety_snapshot e c (sr_name r) ''bootstrap'' g4))))"

end
