(* ===== verification/Salt_Identity.thy ===== *)
theory Salt_Identity
  imports Salt_Guest Salt_Drop
begin

text \<open>
  One set of users on the host and in the strata (\<^verbatim>\<open>append_missing_identity\<close>): entries are only added, only those of people, only
  where the name is missing, and a second run adds nothing.
\<close>

section \<open>Lines at the end of a file\<close>

lemma split_lines_end: "split_lines (a @ CHR 0x0A # b) = split_lines (a @ [CHR 0x0A]) @ split_lines b"
proof (induction a)
  case (Cons c cs)
  have "split_lines (cs @ [CHR 0x0A]) \<noteq> []" by (cases cs) (auto split: list.splits)
  then show ?case using Cons.IH by (auto split: list.splits)
qed simp

lemma split_lines_ended: "a \<noteq> [] \<Longrightarrow> last a \<noteq> CHR 0x0A \<Longrightarrow> split_lines (a @ [CHR 0x0A]) = split_lines a"
proof (induction a)
  case (Cons c cs)
  then show ?case by (cases "cs = []") auto
qed simp

definition ended :: "string \<Rightarrow> string" where
  "ended c = (if c \<noteq> [] \<and> last c \<noteq> CHR 0x0A then c @ [CHR 0x0A] else c)"

lemma split_ended: "split_lines (ended c @ t) = split_lines c @ split_lines t"
proof (cases "c = []")
  case False
  then obtain a x where c: "c = a @ [x]" by (cases c rule: rev_cases) auto
  show ?thesis
  proof (cases "x = CHR 0x0A")
    case True
    then show ?thesis using split_lines_end [of a t] c by (simp add: ended_def)
  next
    case False
    then show ?thesis using split_lines_end [of c t] split_lines_ended [of c] c by (simp add: ended_def)
  qed
qed (simp add: ended_def)

lemma text_lines_Nil [simp]: "text_lines [] = []"
  by (simp add: text_lines_def)

lemma text_lines_eq_Nil [simp]: "text_lines ls = [] \<longleftrightarrow> ls = []"
  by (cases ls) (simp_all add: text_lines_def)

section \<open>Appending\<close>

definition appends_ok :: "run_env \<Rightarrow> bool" where
  "appends_ok v \<longleftrightarrow> (\<forall>l p t. rv_ok v l (Append p t))"

definition old_text :: "guest \<Rightarrow> string \<Rightarrow> string" where
  "old_text g path = (case gfiles g path of None \<Rightarrow> [] | Some c \<Rightarrow> c)"

lemma file_lines_old: "file_lines g path = split_lines (old_text g path)"
  by (simp add: file_lines_def old_text_def split: option.splits)

lemma add_bytes_ok:
  assumes "appends_ok v"
  shows "fst (add_bytes v path t g)" "gfiles (snd (add_bytes v path t g)) = (gfiles g)(path \<mapsto> old_text g path @ t)"
  using assms by (auto simp: add_bytes_def gcall_def Let_def appends_ok_def put_sfile_def old_text_def)

lemma gcall_s [simp]: "gu_s (snd (gcall v c g)) = gu_s g"
  by (simp add: gcall_def Let_def)

lemma append_lines_files:
  assumes "appends_ok v"
  shows "gfiles (append_lines v path t mode g) = (if t = [] then gfiles g else (gfiles g)(path \<mapsto> ended (old_text g path) @ t))"
proof (cases "t = []")
  case False
  define g1 where "g1 = (case gfiles g path of Some c \<Rightarrow> if c \<noteq> [] \<and> last c \<noteq> CHR 0x0A then snd (add_bytes v path [CHR 0x0A] g) else g | None \<Rightarrow> g)"
  have f1: "old_text g1 path = ended (old_text g path)" "p \<noteq> path \<Longrightarrow> gfiles g1 p = gfiles g p" for p
    using add_bytes_ok [OF assms] by (auto simp: g1_def old_text_def ended_def split: option.splits)
  have "append_lines v path t mode g = snd (gcall v (Chmod path mode) (snd (add_bytes v path t g1)))"
    using False add_bytes_ok(1) [OF assms, of path t g1] by (auto simp: append_lines_def g1_def [symmetric] Let_def split: prod.splits)
  then show ?thesis using False f1 by (auto simp: add_bytes_ok [OF assms] fun_eq_iff)
qed (simp add: append_lines_def)

lemma append_lines_lines:
  assumes "appends_ok v" "\<forall>l\<in>set ls. CHR 0x0A \<notin> set l"
  shows "file_lines (append_lines v path (text_lines ls) mode g) path = file_lines g path @ ls"
proof (cases "ls = []")
  case False
  then show ?thesis using append_lines_files [OF assms(1), of path "text_lines ls" mode g] split_ended [of "old_text g path"] split_text_lines [OF assms(2)]
    by (simp add: file_lines_old old_text_def [of "append_lines v path (text_lines ls) mode g"])
qed (simp add: append_lines_def)

lemma append_lines_other:
  "appends_ok v \<Longrightarrow> p \<noteq> path \<Longrightarrow> gfiles (append_lines v path t mode g) p = gfiles g p"
  by (simp add: append_lines_files)

lemma append_lines_keeps:
  "appends_ok v \<Longrightarrow> gfiles g p = Some c \<Longrightarrow> \<exists>u. gfiles (append_lines v path t mode g) p = Some (c @ u)"
  by (auto simp: append_lines_files old_text_def ended_def)

lemma same_file: "gfiles g' p = gfiles g p \<Longrightarrow> file_lines g' p = file_lines g p" "gfiles g' p = gfiles g p \<Longrightarrow> collect_names g' p = collect_names g p"
  by (simp_all add: file_lines_def collect_names_def)

section \<open>The merge\<close>

lemma etc_paths:
  assumes "src \<noteq> dst"
  shows "src @ ''/passwd'' \<noteq> dst @ ''/passwd''" "src @ ''/shadow'' \<noteq> dst @ ''/shadow''" "src @ ''/group'' \<noteq> dst @ ''/group''"
    "src @ ''/passwd'' \<noteq> dst @ ''/shadow''" "src @ ''/passwd'' \<noteq> dst @ ''/group''" "src @ ''/shadow'' \<noteq> dst @ ''/passwd''"
    "src @ ''/shadow'' \<noteq> dst @ ''/group''" "src @ ''/group'' \<noteq> dst @ ''/passwd''" "src @ ''/group'' \<noteq> dst @ ''/shadow''"
  using assms by (auto dest: arg_cong [where f = rev])

lemma file_lines_plain: "l \<in> set (file_lines g p) \<Longrightarrow> CHR 0x0A \<notin> set l"
  by (auto simp: file_lines_old split_lines_plain)

lemma missing_plain:
  "\<forall>l\<in>set (missing_passwd g src dst). CHR 0x0A \<notin> set l" "\<forall>l\<in>set (missing_shadow h g src dst). CHR 0x0A \<notin> set l"
  "\<forall>l\<in>set (missing_group g src dst). CHR 0x0A \<notin> set l"
  by (auto simp: missing_passwd_def missing_shadow_def missing_group_def dest: file_lines_plain)

text \<open>The files after the merge, when the source has all three.\<close>

definition merged :: "string \<Rightarrow> string \<Rightarrow> guest \<Rightarrow> guest \<Rightarrow> bool" where
  "merged src dst g g' \<longleftrightarrow>
     file_lines g' (dst @ ''/passwd'') = file_lines g (dst @ ''/passwd'') @ missing_passwd g src dst \<and>
     file_lines g' (dst @ ''/shadow'') = file_lines g (dst @ ''/shadow'') @ missing_shadow (human_names g src) g src dst \<and>
     file_lines g' (dst @ ''/group'') = file_lines g (dst @ ''/group'') @ missing_group g src dst \<and>
     (\<forall>p. p \<notin> {dst @ ''/passwd'', dst @ ''/shadow'', dst @ ''/group''} \<longrightarrow> gfiles g' p = gfiles g p) \<and>
     (\<forall>p c. gfiles g p = Some c \<longrightarrow> (\<exists>u. gfiles g' p = Some (c @ u)))"

definition identity_files :: "guest \<Rightarrow> string \<Rightarrow> bool" where
  "identity_files g etc \<longleftrightarrow> gfiles g (etc @ ''/passwd'') \<noteq> None \<and> gfiles g (etc @ ''/shadow'') \<noteq> None \<and> gfiles g (etc @ ''/group'') \<noteq> None"

lemma append_missing_merged:
  assumes ok: "appends_ok v" and ne: "src \<noteq> dst" and src: "identity_files g src"
  shows "merged src dst g (append_missing_identity v src dst g)"
proof -
  let ?P = "dst @ ''/passwd''" and ?S = "dst @ ''/shadow''" and ?G = "dst @ ''/group''"
  define g1 where "g1 = append_lines v ?P (text_lines (missing_passwd g src dst)) 420 g"
  define g2 where "g2 = append_lines v ?S (text_lines (missing_shadow (human_names g src) g1 src dst)) 384 g1"
  define g3 where "g3 = append_lines v ?G (text_lines (missing_group g2 src dst)) 420 g2"
  have o1: "gfiles g1 p = gfiles g p" if "p \<noteq> ?P" for p using append_lines_other [OF ok that] by (simp add: g1_def)
  have o2: "gfiles g2 p = gfiles g1 p" if "p \<noteq> ?S" for p using append_lines_other [OF ok that] by (simp add: g2_def)
  have o3: "gfiles g3 p = gfiles g2 p" if "p \<noteq> ?G" for p using append_lines_other [OF ok that] by (simp add: g3_def)
  have ex: "gfiles g (src @ ''/passwd'') \<noteq> None" "gfiles g1 (src @ ''/shadow'') \<noteq> None" "gfiles g2 (src @ ''/group'') \<noteq> None"
    using src o1 [OF etc_paths(6) [OF ne]] o1 [OF etc_paths(8) [OF ne]] o2 [OF etc_paths(9) [OF ne]] by (auto simp only: identity_files_def)
  have r: "append_missing_identity v src dst g = g3"
    unfolding append_missing_identity_def Let_def g1_def [symmetric] g2_def [symmetric] using ex by (simp only: if_False g3_def)
  have m2: "missing_shadow h g1 src dst = missing_shadow h g src dst" for h
    using same_file(1) [OF o1, of "src @ ''/shadow''"] same_file(2) [OF o1, of ?S] etc_paths [OF ne] by (simp add: missing_shadow_def)
  have m3: "missing_group g2 src dst = missing_group g src dst"
    using same_file(1) [of g2 "src @ ''/group''" g] same_file(2) [of g2 ?G g] o1 o2 etc_paths [OF ne] by (simp add: missing_group_def)
  have l1: "file_lines g1 ?P = file_lines g ?P @ missing_passwd g src dst" unfolding g1_def by (rule append_lines_lines [OF ok missing_plain(1)])
  have l2: "file_lines g2 ?S = file_lines g1 ?S @ missing_shadow (human_names g src) g1 src dst"
    unfolding g2_def by (rule append_lines_lines [OF ok missing_plain(2)])
  have l3: "file_lines g3 ?G = file_lines g2 ?G @ missing_group g2 src dst" unfolding g3_def by (rule append_lines_lines [OF ok missing_plain(3)])
  have keeps: "\<exists>u. gfiles g3 p = Some (c @ u)" if "gfiles g p = Some c" for p c
    using append_lines_keeps [OF ok, of _ p] that unfolding g1_def g2_def g3_def by (metis append.assoc)
  show ?thesis unfolding r merged_def
    using l1 l2 l3 m2 m3 keeps o1 o2 o3 same_file(1) [of g3 ?P g1] same_file(1) [of g3 ?S g2] same_file(1) [of g1 ?S g] same_file(1) [of g2 ?G g]
    by simp
qed

lemma collect_names_iff: "n \<in> collect_names g p \<longleftrightarrow> n \<noteq> [] \<and> (\<exists>l\<in>set (file_lines g p). first_field l = n)"
  by (auto simp: collect_names_def)

lemma names_after:
  assumes "file_lines g' p = file_lines g p @ filter Q ls" "l \<in> set ls" "first_field l \<noteq> []" "first_field l \<notin> collect_names g p \<Longrightarrow> Q l"
  shows "first_field l \<in> collect_names g' p"
proof (cases "first_field l \<in> collect_names g p")
  case True
  then show ?thesis using assms(1) by (auto simp: collect_names_iff)
next
  case False
  then have "l \<in> set (file_lines g' p)" using assms by simp
  then show ?thesis using assms(3) unfolding collect_names_iff by blast
qed

text \<open>After a merge nothing is missing.\<close>

lemma merged_complete:
  assumes m: "merged src dst g g'" and ne: "src \<noteq> dst"
  shows "missing_passwd g' src dst = []" "missing_shadow (human_names g' src) g' src dst = []" "missing_group g' src dst = []"
    "human_names g src \<subseteq> collect_names g' (dst @ ''/passwd'')"
proof -
  have s: "file_lines g' (src @ f) = file_lines g (src @ f)" if "f \<in> {''/passwd'', ''/shadow'', ''/group''}" for f
    by (rule same_file(1)) (use m etc_paths [OF ne] that in \<open>auto simp: merged_def\<close>)
  have h: "human_names g' src = human_names g src" using s [of "''/passwd''"] by (simp add: human_names_def)
  have eqs: "file_lines g' (dst @ ''/passwd'') = file_lines g (dst @ ''/passwd'') @ missing_passwd g src dst"
      "file_lines g' (dst @ ''/shadow'') = file_lines g (dst @ ''/shadow'') @ missing_shadow (human_names g src) g src dst"
      "file_lines g' (dst @ ''/group'') = file_lines g (dst @ ''/group'') @ missing_group g src dst"
    using m unfolding merged_def by blast+
  have P: "first_field l \<in> collect_names g' (dst @ ''/passwd'')" if "l \<in> set (file_lines g (src @ ''/passwd''))" "human_entry l" for l
    by (rule names_after [OF eqs(1) [unfolded missing_passwd_def] that(1)]) (use that(2) in \<open>simp_all add: human_entry_def\<close>)
  show "missing_passwd g' src dst = []" using P s [of "''/passwd''"] by (auto simp: missing_passwd_def filter_empty_conv)
  show "human_names g src \<subseteq> collect_names g' (dst @ ''/passwd'')" using P by (auto simp: human_names_def)
  have S: "first_field l \<in> collect_names g' (dst @ ''/shadow'')"
    if "l \<in> set (file_lines g (src @ ''/shadow''))" "l \<noteq> []" "first_field l \<noteq> []" "first_field l \<in> human_names g src" for l
    by (rule names_after [OF eqs(2) [unfolded missing_shadow_def] that(1)]) (use that in simp_all)
  show "missing_shadow (human_names g' src) g' src dst = []" using S s [of "''/shadow''"] h by (auto simp: missing_shadow_def filter_empty_conv)
  have G: "first_field l \<in> collect_names g' (dst @ ''/group'')" if "l \<in> set (file_lines g (src @ ''/group''))" "human_entry l" for l
    by (rule names_after [OF eqs(3) [unfolded missing_group_def] that(1)]) (use that(2) in \<open>simp_all add: human_entry_def\<close>)
  show "missing_group g' src dst = []" using G s [of "''/group''"] by (auto simp: missing_group_def filter_empty_conv)
qed

lemma nothing_missing:
  assumes "missing_passwd g src dst = []" "missing_shadow (human_names g src) g src dst = []" "missing_group g src dst = []"
  shows "append_missing_identity v src dst g = g"
  using assms by (simp add: append_missing_identity_def append_lines_def Let_def)

text \<open>
  C22.  Users are merged and nothing is lost: when the files of the source are there and can be appended to in the destination,
  \<^verbatim>\<open>append_missing_identity\<close> leaves every file with its old contents in front, adds to \<^verbatim>\<open>passwd\<close> and \<^verbatim>\<open>group\<close> exactly the entries with an
  id of a person (1000 to 65533) whose name is missing there, and to \<^verbatim>\<open>shadow\<close> exactly the missing entries of the people of the source,
  each on a line of its own; no other file changes, every person of the source is then known in the destination, and a second merge
  changes nothing.
\<close>

theorem identities_are_merged:
  assumes "appends_ok v" "src \<noteq> dst" "identity_files g src"
  shows "merged src dst g (append_missing_identity v src dst g) \<and>
    human_names g src \<subseteq> collect_names (append_missing_identity v src dst g) (dst @ ''/passwd'') \<and>
    append_missing_identity v src dst (append_missing_identity v src dst g) = append_missing_identity v src dst g"
proof -
  have m: "merged src dst g (append_missing_identity v src dst g)" by (rule append_missing_merged [OF assms])
  show ?thesis using m merged_complete [OF m assms(2)] nothing_missing by blast
qed

text \<open>The user \<^verbatim>\<open>ann\<close> of the host comes to a stratum whose \<^verbatim>\<open>passwd\<close> has no line break at its end; \<^verbatim>\<open>root\<close> does not.\<close>

definition ex_guest :: guest where
  "ex_guest = \<lparr>gu_s = \<lparr>ss_db = \<lparr>sd_strata = [], sd_repos = [], sd_snapshots = [], sd_snap_seq = 0, sd_exposed = [], sd_providers = [],
       sd_history = [], sd_hist_seq = 0\<rparr>,
     ss_files = [''/etc/passwd'' \<mapsto> text_lines [''root:x:0:0'', ''ann:x:1000:100''], ''/etc/shadow'' \<mapsto> text_lines [''ann:!:''],
       ''/etc/group'' \<mapsto> text_lines [''ann:x:1000:''], ''/s/etc/passwd'' \<mapsto> ''alpm:x:70:70'']\<rparr>, gu_log = []\<rparr>"

lemma ex_missing: "missing_passwd ex_guest ''/etc'' ''/s/etc'' = [''ann:x:1000:100'']" "file_lines ex_guest ''/s/etc/passwd'' = [''alpm:x:70:70'']"
  by code_simp+

theorem identities_are_merged_witness:
  "file_lines (append_missing_identity ex_run_env ''/etc'' ''/s/etc'' ex_guest) ''/s/etc/passwd'' = [''alpm:x:70:70'', ''ann:x:1000:100'']"
proof -
  have "appends_ok ex_run_env" by (simp add: appends_ok_def ex_run_env_def)
  moreover have "identity_files ex_guest ''/etc''" by (simp add: identity_files_def ex_guest_def)
  ultimately have "merged ''/etc'' ''/s/etc'' ex_guest (append_missing_identity ex_run_env ''/etc'' ''/s/etc'' ex_guest)"
    using identities_are_merged [of ex_run_env "''/etc''" "''/s/etc''" ex_guest] by simp
  then show ?thesis by (simp add: merged_def ex_missing)
qed

end
