(* ===== verification/Salt_Sugar.thy ===== *)
theory Salt_Sugar
  imports Salt_Guest
begin

text \<open>
  Packages of a stratum by their short names (\<^verbatim>\<open>src/salt/cmd_strata_sugar.cpp\<close>) with the commands, applications and services they
  bring, and the commands \<^verbatim>\<open>salt stratum\<close> and \<^verbatim>\<open>salt service\<close>.  Recipes are read from the files of a \<open>world\<close>.
\<close>

section \<open>Setting up a stratum\<close>

definition resolve_stratum_recipe :: "sys \<Rightarrow> run_env \<Rightarrow> Options \<Rightarrow> string \<Rightarrow> guest \<Rightarrow> string" where
  "resolve_stratum_recipe y v opt arg g =
     (if CHR ''/'' \<in> set arg \<or> ends_with arg ''.lua'' then arg
      else let cands = concat (map (\<lambda>n. [path_join (o_root opt) (''etc/salt/strata/'' @ n @ ''.lua''),
                                          path_join (o_root opt) (''usr/share/salt/strata/'' @ n @ ''.lua''),
                                          ''strata/'' @ n @ ''.lua'']) [arg @ ''-'' @ arch_detect y, arg])
           in case find (\<lambda>p. rv_stat v (gu_log g) p \<noteq> None) cands of Some p \<Rightarrow> p | None \<Rightarrow> [])"

definition ensure_stratum :: "(string \<Rightarrow> bool) \<Rightarrow> world \<Rightarrow> sys \<Rightarrow> strata_env \<Rightarrow> run_env \<Rightarrow> Options \<Rightarrow> string \<Rightarrow> string \<Rightarrow> guest \<Rightarrow> int \<times> guest" where
  "ensure_stratum btrfs w y e v opt name recipe g =
     (if \<not> se_open e then (1, g)
      else if salt_stratum_get (gu_s g) name \<noteq> None then (0, g)
      else let path = resolve_stratum_recipe y v opt (if recipe = [] then name else recipe) g
           in if path = [] then (1, g)
              else case salt_stratum_recipe_load y path w of
                     None \<Rightarrow> (1, g)
                   | Some r0 \<Rightarrow>
                       if \<not> gconfirm v opt (''bootstrap '' @ name @ '' ('' @ sr_family r0 @ '') now? this downloads a base userspace'') g then (1, g)
                       else let (rc, g1) = salt_stratum_bootstrap e v (salt_strata_ctx_init btrfs (o_root opt)) (r0\<lparr>sr_name := name\<rparr>) g;
                                g2 = (if rc = SALT_OK \<and> expose_pm_enabled y opt then upd_strata (expose_pm_for e opt name) g1 else g1)
                            in (if rc = SALT_OK then 0 else 1, g2))"

section \<open>Installing and removing\<close>

definition expose_new :: "strata_env \<Rightarrow> Options \<Rightarrow> salt_stratum \<Rightarrow> string \<Rightarrow> string list \<Rightarrow> string list \<Rightarrow> strata_state \<Rightarrow> strata_state" where
  "expose_new e opt st stratum bins apps s =
     fold (\<lambda>n. snd \<circ> salt_expose_desktop e st (o_root opt) n) apps
       (fold (\<lambda>n. snd \<circ> salt_expose_add e (o_root opt) stratum n n ''cli'') bins s)"

text \<open>What an installation has added to the stratum, offered to the host.\<close>

definition offer_new :: "sys \<Rightarrow> strata_env \<Rightarrow> run_env \<Rightarrow> Options \<Rightarrow> salt_stratum \<Rightarrow> string \<Rightarrow> string set \<Rightarrow> string set \<Rightarrow> guest \<Rightarrow> guest" where
  "offer_new y e v opt st stratum bins0 apps0 g =
     (let mode = auto_expose_mode y opt in
      if mode = ''never'' then g
      else let bins = sorted_list_of_set (scan_bins v g (sm_root st) - bins0);
               apps = sorted_list_of_set (scan_desktops v g (sm_root st) - apps0)
           in if bins = [] \<and> apps = [] then g
              else if mode \<noteq> ''always'' \<and> \<not> gconfirm v opt ''expose these on the host (PATH + menu)?'' g then g
              else upd_strata (expose_new e opt st stratum bins apps) g)"

definition offer_services :: "sys \<Rightarrow> strata_env \<Rightarrow> run_env \<Rightarrow> Options \<Rightarrow> salt_stratum \<Rightarrow> string \<Rightarrow> (string \<times> string) list \<Rightarrow> guest \<Rightarrow> guest" where
  "offer_services y e v opt st stratum svcs0 g =
     (if auto_expose_mode y opt = ''never'' \<or> \<not> auto_service_enabled y opt then g
      else let new = filter (\<lambda>kv. fst kv \<notin> fst ` set svcs0) (scan_services v g (sm_root st))
           in if new = [] then g
              else if auto_expose_mode y opt \<noteq> ''always'' \<and> \<not> gconfirm v opt ''import and enable these to start under runit?'' g then g
              else fold (\<lambda>kv. snd \<circ> import_and_enable_service e v opt stratum (fst kv) (snd kv)) new g)"

definition stratum_install :: "(string \<Rightarrow> bool) \<Rightarrow> world \<Rightarrow> sys \<Rightarrow> strata_env \<Rightarrow> run_env \<Rightarrow> Options \<Rightarrow> string \<Rightarrow> string list \<Rightarrow> guest \<Rightarrow> int \<times> guest" where
  "stratum_install btrfs w y e v opt stratum pkgs g =
     (if pkgs = [] then (2, g)
      else let (rc0, g0) = ensure_stratum btrfs w y e v opt stratum [] g
           in if rc0 \<noteq> 0 then (1, g0)
              else case open_stratum e stratum g0 of
                     None \<Rightarrow> (1, g0)
                   | Some st \<Rightarrow>
                       (let g1 = safety_snapshot e (salt_strata_ctx_init btrfs (o_root opt)) stratum ''pre-install'' g0;
                            bins0 = scan_bins v g1 (sm_root st);
                            apps0 = scan_desktops v g1 (sm_root st);
                            svcs0 = scan_services v g1 (sm_root st);
                            ((rc, status), g2) = guest_pkg v st ''install'' pkgs g1;
                            g3 = (if rc = SALT_OK \<and> status = 0
                                  then offer_services y e v opt st stratum svcs0 (offer_new y e v opt st stratum bins0 apps0 g2) else g2)
                        in rc_status ((rc, status), g3)))"

definition unexpose_gone :: "strata_env \<Rightarrow> string \<Rightarrow> string set \<Rightarrow> string set \<Rightarrow> strata_state \<Rightarrow> strata_state" where
  "unexpose_gone e stratum bins apps s =
     fold (\<lambda>x. snd \<circ> salt_expose_remove e (ex_alias x))
       (filter (\<lambda>x. ex_stratum x = stratum \<and> (ex_command x \<in> bins \<or> ex_command x \<in> apps)) (salt_expose_list s)) s"

definition gremove :: "run_env \<Rightarrow> string \<Rightarrow> guest \<Rightarrow> guest" where
  "gremove v path g =
     (let (ok, g1) = gcall v (Remove path) g in if ok then upd_strata (\<lambda>s. s\<lparr>ss_files := (ss_files s)(path := None)\<rparr>) g1 else g1)"

definition disable_service :: "run_env \<Rightarrow> Options \<Rightarrow> string \<Rightarrow> string \<Rightarrow> guest \<Rightarrow> guest" where
  "disable_service v opt stratum name g =
     (let svc = stratum @ ''-'' @ name
      in upd_strata (rm_tree (path_join (o_root opt) (''etc/sv/'' @ svc))) (gremove v (path_join (o_root opt) (''var/service/'' @ svc)) g))"

definition stratum_remove :: "(string \<Rightarrow> bool) \<Rightarrow> strata_env \<Rightarrow> run_env \<Rightarrow> Options \<Rightarrow> string \<Rightarrow> string list \<Rightarrow> guest \<Rightarrow> int \<times> guest" where
  "stratum_remove btrfs e v opt stratum pkgs g =
     (if pkgs = [] then (2, g)
      else case open_stratum e stratum g of
             None \<Rightarrow> (1, g)
           | Some st \<Rightarrow>
               (let g1 = safety_snapshot e (salt_strata_ctx_init btrfs (o_root opt)) stratum ''pre-remove'' g;
                    root = sm_root st;
                    bins0 = scan_bins v g1 root; apps0 = scan_desktops v g1 root; svcs0 = scan_services v g1 root;
                    ((rc, status), g2) = guest_pkg v st ''remove'' pkgs g1
                in if rc \<noteq> SALT_OK \<or> status \<noteq> 0 then rc_status ((rc, status), g2)
                   else let bins = bins0 - scan_bins v g2 root;
                            apps = apps0 - scan_desktops v g2 root;
                            g3 = upd_strata (unexpose_gone e stratum bins apps) g2;
                            g4 = fold (\<lambda>n. gremove v (path_join (o_root opt) (''usr/local/share/applications/'' @ stratum @ ''-'' @ n @ ''.desktop'')))
                                   (sorted_list_of_set apps) g3;
                            gone = filter (\<lambda>kv. fst kv \<notin> fst ` set (scan_services v g4 root)) svcs0
                        in rc_status ((rc, status), fold (\<lambda>kv. disable_service v opt stratum (fst kv)) gone g4)))"

definition stratum_search :: "strata_env \<Rightarrow> run_env \<Rightarrow> string \<Rightarrow> string \<Rightarrow> guest \<Rightarrow> int \<times> guest" where
  "stratum_search e v stratum term1 g =
     (case open_stratum e stratum g of None \<Rightarrow> (1, g) | Some st \<Rightarrow> rc_status (guest_pkg v st ''search'' [term1] g))"

definition stratum_update :: "(string \<Rightarrow> bool) \<Rightarrow> strata_env \<Rightarrow> run_env \<Rightarrow> Options \<Rightarrow> string \<Rightarrow> guest \<Rightarrow> int \<times> guest" where
  "stratum_update btrfs e v opt stratum g =
     (case open_stratum e stratum g of
        None \<Rightarrow> (1, g)
      | Some st \<Rightarrow> rc_status (guest_pkg v st ''update'' [] (safety_snapshot e (salt_strata_ctx_init btrfs (o_root opt)) stratum ''pre-update'' g)))"

section \<open>salt stratum\<close>

definition stratum_add :: "(string \<Rightarrow> bool) \<Rightarrow> world \<Rightarrow> sys \<Rightarrow> strata_env \<Rightarrow> run_env \<Rightarrow> Options \<Rightarrow> string \<Rightarrow> guest \<Rightarrow> int \<times> guest" where
  "stratum_add btrfs w y e v opt arg g =
     (let path = resolve_stratum_recipe y v opt arg g in
      if path = [] then (1, g)
      else case salt_stratum_recipe_load y path w of
             None \<Rightarrow> (1, g)
           | Some r \<Rightarrow>
               if \<not> gconfirm v opt ''proceed?'' g then (1, g)
               else let (rc, g1) = salt_stratum_bootstrap e v (salt_strata_ctx_init btrfs (o_root opt)) r g
                    in if rc \<noteq> SALT_OK then (1, g1)
                       else let g2 = (if expose_pm_enabled y opt then upd_strata (expose_pm_for e opt (sr_name r)) g1 else g1)
                            in (0, if expose_all_enabled y opt then upd_strata (expose_all_for e opt (sr_name r)) g2 else g2))"

definition cmd_stratum :: "(string \<Rightarrow> bool) \<Rightarrow> world \<Rightarrow> sys \<Rightarrow> strata_env \<Rightarrow> run_env \<Rightarrow> Options \<Rightarrow> string list \<Rightarrow> guest \<Rightarrow> int \<times> guest" where
  "cmd_stratum btrfs w y e v opt args g =
     (case args of
        [] \<Rightarrow> (2, g)
      | sub # rest \<Rightarrow>
          if sub = ''lint'' then
            (case rest of [] \<Rightarrow> (2, g) | p # _ \<Rightarrow> (if fst (salt_stratum_recipe_lint y p w) = SALT_OK then 0 else 1, g))
          else if \<not> se_open e then (1, g)
          else let c = salt_strata_ctx_init btrfs (o_root opt) in
            if sub = ''list'' then (0, g)
            else if sub \<notin> {''add'', ''remove'', ''status'', ''snapshot'', ''rollback'', ''shell''} then (2, g)
            else case rest of
                   [] \<Rightarrow> (2, g)
                 | name # more1 \<Rightarrow>
                     if sub = ''add'' then stratum_add btrfs w y e v opt name g
                     else if sub = ''remove'' then
                       (if gconfirm v opt (''destroy '' @ name @ ''?'') g then rc_code (on_strata (salt_stratum_destroy e c name) g) else (1, g))
                     else if sub = ''status'' then (if salt_stratum_get (gu_s g) name = None then 1 else 0, g)
                     else if sub = ''snapshot'' then
                       (let label = (case more1 of x # _ \<Rightarrow> x | [] \<Rightarrow> ''manual'');
                            ((rc, _), g1) = on_strata (salt_stratum_snapshot_create e c name label) g
                        in rc_code (rc, g1))
                     else if sub = ''rollback'' then
                       (let i = (case more1 of x # _ \<Rightarrow> c_atol x | [] \<Rightarrow> 0)
                        in rc_code (on_strata (salt_stratum_rollback e c name i) g))
                     else (case salt_stratum_get (gu_s g) name of
                             None \<Rightarrow> (1, g)
                           | Some st \<Rightarrow>
                               (let ((_, status), g1) = guest_run v st (salt_run_opts_default\<lparr>ro_interactive := True\<rparr>) [''/bin/sh'', ''-l''] g
                                in (status, g1))))"

section \<open>salt service\<close>

definition service_import :: "strata_env \<Rightarrow> run_env \<Rightarrow> Options \<Rightarrow> string \<Rightarrow> string \<Rightarrow> guest \<Rightarrow> int \<times> guest" where
  "service_import e v opt stratum name g =
     (let dir = path_join (o_root opt) (''etc/sv/'' @ stratum @ ''-'' @ name);
          (ok, g1) = gcall v (MakeDirs dir) g
      in if \<not> ok then (1, g1)
         else let (ok2, g2) = gwrite e (dir @ ''/run'') (service_script stratum name) g1 in (if ok2 then 0 else 1, g2))"

definition service_enable :: "run_env \<Rightarrow> Options \<Rightarrow> string \<Rightarrow> guest \<Rightarrow> int \<times> guest" where
  "service_enable v opt svc g =
     (let svdir = path_join (o_root opt) (''etc/sv/'' @ svc);
          servicedir = path_join (o_root opt) ''var/service'';
          (ok, g1) = gcall v (MakeDirs servicedir) g
      in if \<not> ok then (1, g1)
         else let link = servicedir @ ''/'' @ svc;
                  there = rv_lstat v (gu_log g1) link \<noteq> None;
                  (ok2, g2) = gcall v (Symlink svdir link) g1
              in (if ok2 \<or> there then 0 else 1, g2))"

definition cmd_service :: "strata_env \<Rightarrow> run_env \<Rightarrow> Options \<Rightarrow> string list \<Rightarrow> guest \<Rightarrow> int \<times> guest" where
  "cmd_service e v opt args g =
     (case args of
        [] \<Rightarrow> (2, g)
      | sub # rest \<Rightarrow>
          if sub = ''import'' then (case rest of s # n # _ \<Rightarrow> service_import e v opt s n g | _ \<Rightarrow> (2, g))
          else if sub = ''enable'' then (case rest of s # _ \<Rightarrow> service_enable v opt s g | [] \<Rightarrow> (2, g))
          else if sub = ''start'' then
            (case rest of s # _ \<Rightarrow> rc_code (run_system e (''sv up '' @ s) g) | [] \<Rightarrow> (2, g))
          else if sub = ''list'' then (0, g)
          else (2, g))"

end
