(* ===== verification/Salt_Bootstrap.thy ===== *)
theory Salt_Bootstrap
  imports Salt_Sugar Salt_Drop
begin

text \<open>
  Setting up a stratum from a downloaded file system: what is unpacked has the digest of the recipe.  And the status of a command
  that cannot be told from a refusal of the kernel.
\<close>

section \<open>What comes after the file system\<close>

definition later :: "guest \<Rightarrow> guest \<Rightarrow> bool" where
  "later g g' \<longleftrightarrow> (\<exists>es. gu_log g' = gu_log g @ es)"

lemma later_refl [simp]: "later g g"
  by (simp add: later_def)

lemma later_strata [simp]: "later g (h\<lparr>gu_s := s\<rparr>) \<longleftrightarrow> later g h"
  by (simp add: later_def)

lemma later_gcall [simp]: "later g h \<Longrightarrow> later g (snd (gcall v c h))"
  by (auto simp: later_def gcall_def Let_def)

lemma later_system [simp]: "later g h \<Longrightarrow> later g (snd (run_system e c h))"
  by (auto simp: later_def run_system_def split: prod.splits)

lemma later_run [simp]: "later g h \<Longrightarrow> later g (snd (guest_run v st opts argv h))"
proof -
  obtain es where "snd (salt_stratum_run v st (Some opts) argv (gu_log h)) = gu_log h @ es" using run_no_shell .
  then show "later g h \<Longrightarrow> later g (snd (guest_run v st opts argv h))" by (auto simp: later_def guest_run_def split: prod.splits)
qed

lemma later_fold: "later g h \<Longrightarrow> (\<And>x h. later g h \<Longrightarrow> later g (f x h)) \<Longrightarrow> later g (fold f xs h)"
  by (induction xs arbitrary: h) auto

lemma later_keyring: "later g h \<Longrightarrow> later g (init_pacman_keyring v r h)"
  by (simp add: init_pacman_keyring_def split: option.splits)

lemma later_certificates: "later g h \<Longrightarrow> later g (ensure_ca_certificates v r h)"
  by (auto simp: ensure_ca_certificates_def intro!: later_fold split: option.splits)

lemma later_snapshot: "later g h \<Longrightarrow> later g (safety_snapshot e c n lb h)"
  by (simp add: safety_snapshot_def)

lemma later_resolv: "later g h \<Longrightarrow> later g (write_resolv_conf v target h)"
  by (simp add: write_resolv_conf_def Let_def case_prod_beta split: option.split)

lemma later_repo_file: "later g h \<Longrightarrow> later g (repo_file e v target d n ls h)"
  by (simp add: repo_file_def gwrite_def)

lemma later_repos: "later g h \<Longrightarrow> later g (write_repo_config e v r target h)"
  by (simp add: write_repo_config_def later_repo_file)

lemma later_target: "later g (snd (make_target e v c target g))"
  by (simp add: make_target_def case_prod_beta)

lemma later_register: "later g h \<Longrightarrow> later g (snd (on_strata f h))"
  by (simp add: on_strata_def case_prod_beta)

section \<open>The digest of a file system\<close>

definition rootfs_of :: "salt_strata_ctx \<Rightarrow> salt_stratum_recipe \<Rightarrow> string" where
  "rootfs_of c r = salt_join_path (sx_cache_dir c) (sr_name r @ ''.rootfs'')"

lemma rootfs_steps:
  assumes "bootstrap_rootfs e v c r target g = (SALT_OK, g')" "sr_rootfs_sha256 r \<noteq> []"
  shows "\<exists>s. rv_sha256 v (gu_log g @ [Did Caller (Fetch (sr_rootfs_url r) (rootfs_of c r)) True]) (rootfs_of c r) = Some (sr_rootfs_sha256 r) \<and>
    g' = \<lparr>gu_s = s, gu_log = gu_log g @ [Did Caller (Fetch (sr_rootfs_url r) (rootfs_of c r)) True,
      Did Caller (Shell (extract_cmd (sr_rootfs_url r) (rootfs_of c r) target (sr_rootfs_strip r))) True]\<rparr>"
proof -
  let ?F = "Fetch (sr_rootfs_url r) (rootfs_of c r)"
  let ?X = "extract_cmd (sr_rootfs_url r) (rootfs_of c r) target (sr_rootfs_strip r)"
  let ?g1 = "g\<lparr>gu_log := gu_log g @ [Did Caller ?F True]\<rparr>"
  note d = bootstrap_rootfs_def [of e v c r target g, folded rootfs_of_def, unfolded Let_def]
  have ok: "rv_ok v (gu_log g) ?F" by (rule ccontr) (use assms(1) in \<open>simp add: d gcall_def Let_def\<close>)
  then have f: "gcall v ?F g = (True, ?g1)" by (simp add: gcall_def)
  have sha: "rv_sha256 v (gu_log ?g1) (rootfs_of c r) = Some (sr_rootfs_sha256 r)"
    by (rule ccontr) (use assms in \<open>simp add: d f\<close>)
  obtain rc g2 where x: "run_system e ?X ?g1 = (rc, g2)" by fastforce
  have "rc = SALT_OK" "g2 = g'" using assms sha x by (simp_all add: d f extract_rootfs_def split: if_splits)
  moreover obtain ok2 s where "se_shell e ?X (gu_s ?g1) = (ok2, s)" by fastforce
  ultimately show ?thesis using sha x by (auto simp: run_system_def split: if_splits)
qed

text \<open>
  C21.  A stratum is made from the file system its recipe names: when bootstrapping from a URL with a digest succeeds, the file was
  downloaded, had the SHA-256 of the recipe right after the download, and was unpacked, successfully, as the very next step; and the
  name of the stratum is one that is safe in a shell command.
\<close>

theorem bootstrap_verified:
  assumes "salt_stratum_bootstrap e v c r g = (SALT_OK, g')" "sr_rootfs_url r \<noteq> []" "sr_rootfs_sha256 r \<noteq> []" "sr_bootstrap r \<noteq> ''oci''"
  shows "salt_stratum_name_ok (sr_name r) \<and>
    (\<exists>pre post. gu_log g' = gu_log g @ pre @ Did Caller (Fetch (sr_rootfs_url r) (rootfs_of c r)) True #
        Did Caller (Shell (extract_cmd (sr_rootfs_url r) (rootfs_of c r) (stratum_target (sx_root c) (sr_root r)) (sr_rootfs_strip r))) True # post \<and>
      rv_sha256 v (gu_log g @ pre @ [Did Caller (Fetch (sr_rootfs_url r) (rootfs_of c r)) True]) (rootfs_of c r) = Some (sr_rootfs_sha256 r))"
proof -
  let ?t = "stratum_target (sx_root c) (sr_root r)"
  obtain ok g1 rc g2 where 1: "make_target e v c ?t g = (ok, g1)" and 2: "fill_target e v c r ?t g1 = (rc, g2)" by fastforce
  define g3 where "g3 = write_repo_config e v r ?t (write_resolv_conf v ?t g2)"
  obtain rc4 g4 where 4: "on_strata (salt_stratum_register e r) g3 = (rc4, g4)" by fastforce
  define g5 where "g5 = ensure_ca_certificates v r (init_pacman_keyring v r (safety_snapshot e c (sr_name r) ''bootstrap'' g4))"
  have r: "salt_stratum_name_ok (sr_name r)" "rc = SALT_OK" "g' = g5"
    using assms(1) unfolding salt_stratum_bootstrap_def Let_def 1 2 prod.case g3_def [symmetric] 4 g5_def [symmetric]
    by (auto split: if_splits)
  have rf: "bootstrap_rootfs e v c r ?t g1 = (SALT_OK, g2)" using 2 r(2) assms(2,4) by (simp add: fill_target_def)
  have "later g2 g4" using later_register [of g2 g3 "salt_stratum_register e r"] 4 by (simp add: g3_def later_repos later_resolv)
  then have "later g2 g'" unfolding r(3) g5_def by (intro later_certificates later_keyring later_snapshot)
  then obtain post where post: "gu_log g' = gu_log g2 @ post" by (auto simp: later_def)
  obtain pre where pre: "gu_log g1 = gu_log g @ pre" using later_target [of g e v c ?t] 1 by (auto simp: later_def)
  show ?thesis using rootfs_steps [OF rf assms(3)] r(1) post pre by (intro conjI exI [of _ pre] exI [of _ post]) auto
qed

definition ex_boot_env :: strata_env where
  "ex_boot_env = \<lparr>se_sql = \<lambda>q. True, se_open = True, se_write_ok = \<lambda>p. True, se_unlink_ok = \<lambda>p. True, se_dir = \<lambda>d. None,
     se_shell = \<lambda>c s. (True, s), se_ns_stop = \<lambda>st s. s, se_now = 0, se_stamp = None\<rparr>"

definition ex_boot_recipe :: salt_stratum_recipe where
  "ex_boot_recipe = \<lparr>sr_name = ''arch'', sr_family = [], sr_arch = [], sr_root = ''/strata/arch'', sr_package_manager = [], sr_bootstrap = [], sr_trust = [],
     sr_rootfs_url = ''u'', sr_rootfs_sha256 = ''d'', sr_rootfs_strip = 0, sr_graphics = False, sr_audio = False, sr_dbus = False, sr_repos = []\<rparr>"

definition ex_boot_ctx :: salt_strata_ctx where
  "ex_boot_ctx = \<lparr>sx_root = ''/'', sx_strata_root = ''/strata'', sx_cache_dir = ''/c'', sx_use_btrfs = False\<rparr>"

abbreviation ex_boot_run :: run_env where
  "ex_boot_run \<equiv> ex_run_env\<lparr>rv_sha256 := \<lambda>l p. Some ''d''\<rparr>"

abbreviation ex_boot_guest :: guest where
  "ex_boot_guest \<equiv> \<lparr>gu_s = \<lparr>ss_db = \<lparr>sd_strata = [], sd_repos = [], sd_snapshots = [], sd_snap_seq = 0, sd_exposed = [], sd_providers = [],
     sd_history = [], sd_hist_seq = 0\<rparr>, ss_files = Map.empty\<rparr>, gu_log = []\<rparr>"

lemma ex_boot_ok: "fst (salt_stratum_bootstrap ex_boot_env ex_boot_run ex_boot_ctx ex_boot_recipe ex_boot_guest) = SALT_OK"
proof -
  have n: "salt_stratum_name_ok ''arch''" by code_simp
  show ?thesis
    by (simp add: salt_stratum_bootstrap_def ex_boot_recipe_def n stratum_target_def ex_boot_ctx_def make_target_def fill_target_def bootstrap_rootfs_def
        extract_rootfs_def run_system_def gcall_def Let_def case_prod_beta on_strata_def salt_stratum_register_def)
      (simp add: ex_run_env_def ex_boot_env_def dir_nonempty_def dir_names_def)
qed

theorem bootstrap_verified_witness:
  "\<exists>pre post. gu_log (snd (salt_stratum_bootstrap ex_boot_env ex_boot_run ex_boot_ctx ex_boot_recipe ex_boot_guest)) =
      pre @ Did Caller (Fetch ''u'' (rootfs_of ex_boot_ctx ex_boot_recipe)) True #
        Did Caller (Shell (extract_cmd ''u'' (rootfs_of ex_boot_ctx ex_boot_recipe) ''/strata/arch'' 0)) True # post"
proof -
  have "salt_stratum_bootstrap ex_boot_env ex_boot_run ex_boot_ctx ex_boot_recipe ex_boot_guest =
      (SALT_OK, snd (salt_stratum_bootstrap ex_boot_env ex_boot_run ex_boot_ctx ex_boot_recipe ex_boot_guest))"
    using ex_boot_ok by (metis prod.collapse)
  from bootstrap_verified [OF this] show ?thesis by (simp add: ex_boot_recipe_def ex_boot_ctx_def stratum_target_def)
qed

section \<open>The status of a command\<close>

text \<open>
  The status that stands for a refusal of the kernel is one that a command can have: a command that exits with 252 is reported like a
  user namespace that was denied, and \<^verbatim>\<open>cmd_run\<close> starts it once more under \<^verbatim>\<open>sudo\<close>.
\<close>

lemma exit_252_is_denied:
  assumes "sm_root st \<noteq> []" "rv_stat v l (sm_root st) = Some DirFile" "argv \<noteq> []" "rv_ok v l Fork"
    and "salt_run_child st opts argv v (l @ [Did Caller Fork True]) = (Becomes, l2)" "rv_wait v l2 = Some (WExited 252)"
  shows "salt_stratum_run v st (Some opts) argv l = ((SALT_OK, SALT_RUN_USERNS_DENIED), l2)"
  using assms by (simp add: salt_stratum_run_def Let_def child_status_def exit_code_def SALT_RUN_USERNS_DENIED_def)

end
