(* ===== verification/Spec2Isabelle.thy ===== *)
theory Spec2Isabelle
  imports Salt_Locked Salt_Trial Salt_Pack Salt_Converge Salt_Expose Salt_Trust
    Salt_Answers Salt_Alongside Salt_Consent Salt_Keyval
    Salt_Drop Salt_Pins Salt_Digests Salt_Identity Salt_Bootstrap
begin

text \<open>
  A verification development of saltOS: the package manager \<^verbatim>\<open>salt\<close> (\<^verbatim>\<open>src/salt\<close>), its library (\<^verbatim>\<open>src/halite\<close>) and the
  installer \<^verbatim>\<open>salt-setup\<close> (\<^verbatim>\<open>src/setup\<close>).

  \<^bold>\<open>The program.\<close>  \<^verbatim>\<open>salt sync\<close> downloads a signed repository index.  \<^verbatim>\<open>salt install\<close>, \<^verbatim>\<open>update\<close> and \<^verbatim>\<open>remove\<close>
  build a plan (dependencies first, conflicts and dangling dependencies refused), download and hash
  the archives, and run one transaction: a snapshot, then removals and installations between SQL
  \<^verbatim>\<open>BEGIN\<close> and \<^verbatim>\<open>COMMIT\<close>, with every touched file backed up; on failure the database is rolled back and the
  files are put back.  After a commit the deployment is recorded, old ones are pruned and the boot
  loader is updated; a new kernel is booted on trial once and must be confirmed.  \<^verbatim>\<open>salt lock\<close> and \<^verbatim>\<open>salt config\<close>
  bring the system to a recorded or declared state, \<^verbatim>\<open>salt gc\<close> removes generations nothing protects, \<^verbatim>\<open>salt trust\<close>
  keeps the contributors and checks recipes, \<^verbatim>\<open>salt expose\<close> makes commands of other distributions (strata) available.
  \<^verbatim>\<open>salt run\<close> starts a command inside a stratum as the calling user; \<^verbatim>\<open>salt stratum\<close> and \<^verbatim>\<open>salt pkg\<close> set strata up and
  drive their package managers.  The installer asks its questions, partitions a disk and lays down a system.

  \<^bold>\<open>The theories.\<close>
  \<^item> \<open>Salt_Prelude\<close>: return codes, C strings, loops with error codes, generic lemmas.
  \<^item> \<open>Salt_Repo\<close> (\<^verbatim>\<open>repo.c\<close>): index entries, verification, version comparison, lookup.
  \<^item> \<open>Salt_Fs\<close> (\<^verbatim>\<open>util.c\<close>): paths, confinement, the install root as a list of nodes by key, file primitives
    that may fail.
  \<^item> \<open>Salt_Db\<close> (\<^verbatim>\<open>db.c\<close>): the tables as lists of rows, SQL statements that may fail, transactions, the
    view of a package and the interface \<open>pkg_store\<close>.
  \<^item> \<open>Salt_Tar\<close>, \<open>Salt_Toml\<close>, \<open>Salt_Archive\<close> (\<^verbatim>\<open>tar.c\<close>, \<^verbatim>\<open>toml.c\<close>, \<^verbatim>\<open>archive.c\<close>, \<^verbatim>\<open>pkg.c\<close>): reading archives;
    \<open>Salt_Pack\<close>: writing them, and that reading gives back what was packed.
  \<^item> \<open>Salt_Toml_Parse\<close> (\<^verbatim>\<open>toml.c\<close>): the reader of TOML text; \<open>Salt_Toml_Write\<close> (\<^verbatim>\<open>pkg.c\<close>): the writers of metadata
    and manifests, the rules by which lines and tables are read, the round trips.
  \<^item> \<open>Salt_Index\<close> (\<^verbatim>\<open>repo.c\<close>): building, writing and publishing an index.
  \<^item> \<open>Salt_Txn\<close> (\<^verbatim>\<open>txn.c\<close>): installing, removing and undoing on a \<open>world\<close>.
  \<^item> \<open>Salt_Atomic\<close>: the invariant by which undoing restores the root.
  \<^item> \<open>Salt_Dfs\<close>: an interface of depth-first traversals; \<open>Salt_Resolve\<close> (\<^verbatim>\<open>cmd_install.cpp\<close>): plans.
  \<^item> \<open>Salt_Cli\<close> (\<^verbatim>\<open>cli.cpp\<close>), \<open>Salt_Deploy\<close> (\<^verbatim>\<open>deploy.c\<close>), \<open>Salt_Boot\<close> (\<^verbatim>\<open>cmd_deploy.cpp\<close>).
  \<^item> \<open>Salt_Native\<close> (\<^verbatim>\<open>cmd_install.cpp\<close>): sync, the native transaction and its commands.
  \<^item> \<open>Salt_Lock\<close> (\<^verbatim>\<open>cmd_lock.cpp\<close>, \<^verbatim>\<open>cmd_install\<close>): lock files; \<open>Salt_Locked\<close>: what is written is loaded again, a
    fresh lock has no difference, applying a lock converges.
  \<^item> \<open>Salt_Commit\<close>: what a transaction leaves behind; \<open>Salt_Trial\<close>: booting on trial.
  \<^item> \<open>Salt_Gc\<close> (\<^verbatim>\<open>gc.c\<close>, \<^verbatim>\<open>cmd_gc.cpp\<close>): garbage collection; what is protected stays, the rest goes.
  \<^item> \<open>Salt_Config\<close> (\<^verbatim>\<open>cmd_config.cpp\<close>): the declarative configuration; \<open>Salt_Converge\<close>: what the loader accepts is well
    formed, applying it gives exactly the declared packages and what they need.
  \<^item> \<open>Salt_Strata\<close> (\<^verbatim>\<open>stratum.c\<close>, \<^verbatim>\<open>cmd_expose\<close>, \<^verbatim>\<open>cmd_provider\<close>): the registry of strata, exposed commands and their shims,
    snapshots, providers; \<open>Salt_Expose\<close>: the interface \<open>exposure\<close> between the configuration and the strata, interpreted on
    the operations of \<open>Salt_Strata\<close>.
  \<^item> \<open>Salt_Run\<close> (\<^verbatim>\<open>run.c\<close>): mounts, the process that holds the namespace of a stratum, the identity of a command, its status, as
    actions of processes over a log of system calls; \<open>Salt_Drop\<close>: what has happened before a command starts.
  \<^item> \<open>Salt_Foreign\<close> (\<^verbatim>\<open>run.c\<close>): package managers of the strata; \<open>Salt_Pins\<close>: their lists are read as printed; \<open>Salt_Digests\<close>:
    where the digests of packages come from.
  \<^item> \<open>Salt_Guest\<close>, \<open>Salt_Sugar\<close> (\<^verbatim>\<open>cmd_run.cpp\<close>, \<^verbatim>\<open>cmd_strata_sugar.cpp\<close>, \<^verbatim>\<open>cmd_stratum.cpp\<close>, \<^verbatim>\<open>cmd_service.cpp\<close>, bootstrapping in
    \<^verbatim>\<open>stratum.c\<close>): the commands on strata; \<open>Salt_Identity\<close>: merging the users of host and strata; \<open>Salt_Bootstrap\<close>: the digest of
    what is unpacked.
  \<^item> \<open>Salt_Trust\<close> (\<^verbatim>\<open>trust.c\<close>, \<^verbatim>\<open>cmd_trust.cpp\<close>): trust levels, vouching, checks of recipes.
  \<^item> \<open>Salt_Setup\<close> (\<^verbatim>\<open>setup/config.cpp\<close>): the answers of the installer; \<open>Salt_Answers\<close>: written and read back, secrets left out.
  \<^item> \<open>Salt_Installer\<close>, \<open>Salt_Install\<close> (\<^verbatim>\<open>setup/main.cpp\<close>): the installer as actions that add events to a log; \<open>Salt_Trace\<close>: a
    logic for actions; \<open>Salt_Alongside\<close>: what is overwritten; \<open>Salt_Consent\<close>: what happens before the confirmation;
    \<open>Salt_Keyval\<close>: editing of \<^verbatim>\<open>KEY=value\<close> files.

  \<^bold>\<open>Fuel.\<close>  The recursions of the traversals (and of the resolution of a configuration) carry fuel bounded by the number of
  names and edges; the theorems show that the chosen fuel always gives a result.  The reader of TOML may loop for ever (an
  array that holds a closing brace): its fuel, linear in the text, is shown to decide whether it returns at all.  Waiting for a
  device or for the holder of a namespace and finding the disk of a partition are bounded loops in the code; questions are
  recursive in the lines typed.

  \<^bold>\<open>Not modelled.\<close>  Output.  Parameters, because they are not code of the repository: btrfs snapshots, hooks, the network, the
  Lua interpreter, regular expressions, libsodium, zstd, the kernel, and the programs that the installer and the commands on
  strata run: whether a call succeeds and what a program leaves behind is an arbitrary function of what has happened so far.
  The lock and configuration commands call the strata through parameters (\<open>foreign\<close>, \<open>ensure_ops\<close>, \<open>strata\<close>) over their own state.
  The commands that only query, and the build command, which drives external tools, are left out, as are the schemas of the
  databases and the jump out of a stratum to the host.
\<close>

end
